(* ===== verification/Prelude.thy ===== *)
theory Prelude
  imports Main "HOL-Library.Word" "HOL-Library.List_Lexorder"
begin

text \<open>
  Shared vocabulary of the ActiveChain development: the machine-integer types of the Rust
  sources, Rust's \<open>Result\<close> and \<open>Option\<close> combinators on HOL sums and options, checked
  arithmetic, \<open>slice::binary_search_by_key\<close>, and the list and word facts that the
  component theories use.  A \<open>Result<T, E>\<close> is a sum \<open>'e + 'a\<close>: \<open>Inl\<close> carries the
  error, \<open>Inr\<close> the value.  A \<open>usize\<close> is a \<^typ>\<open>nat\<close>, with the 64-bit bound written
  out where the code checks it.
\<close>

unbundle bit_operations_syntax

section \<open>Types and proof-automation collections\<close>

type_synonym u8 = "8 word"
type_synonym u16 = "16 word"
type_synonym u32 = "32 word"
type_synonym u64 = "64 word"
type_synonym u128 = "128 word"
type_synonym usize = nat

named_theorems codec_defs \<open>definitions of wire formats, encoders and decoders\<close>
named_theorems codec_simps \<open>evaluation of encoders and decoders on canonical bytes\<close>
named_theorems codec_dests \<open>what a successful encoder or decoder call implies\<close>

section \<open>Result and Option\<close>

definition and_then :: "'e + 'a \<Rightarrow> ('a \<Rightarrow> 'e + 'b) \<Rightarrow> 'e + 'b" where
  "and_then r f = (case r of Inl e \<Rightarrow> Inl e | Inr v \<Rightarrow> f v)"

definition map_err :: "('e \<Rightarrow> 'f) \<Rightarrow> 'e + 'a \<Rightarrow> 'f + 'a" where
  "map_err f r = (case r of Inl e \<Rightarrow> Inl (f e) | Inr v \<Rightarrow> Inr v)"

definition ok_or :: "'e \<Rightarrow> 'a option \<Rightarrow> 'e + 'a" where
  "ok_or e x = (case x of None \<Rightarrow> Inl e | Some v \<Rightarrow> Inr v)"

definition is_err :: "'e + 'a \<Rightarrow> bool" where
  "is_err r = (case r of Inl _ \<Rightarrow> True | Inr _ \<Rightarrow> False)"

lemma and_then_simps [simp]:
  "and_then (Inl e) f = Inl e" "and_then (Inr v) f = f v"
  by (simp_all add: and_then_def)

lemma and_then_eq_Inr [simp]:
  "and_then r f = Inr w \<longleftrightarrow> (\<exists>v. r = Inr v \<and> f v = Inr w)"
  by (cases r) auto

lemma and_then_eq_Inl:
  "and_then r f = Inl e \<longleftrightarrow> r = Inl e \<or> (\<exists>v. r = Inr v \<and> f v = Inl e)"
  by (cases r) auto

lemma and_then_assoc: "and_then (and_then r f) g = and_then r (\<lambda>v. and_then (f v) g)"
  by (cases r) simp_all

lemma map_err_simps [simp]:
  "map_err f (Inl e) = Inl (f e)" "map_err f (Inr v) = Inr v"
  by (simp_all add: map_err_def)

lemma map_err_eq_Inr [simp]: "map_err f r = Inr v \<longleftrightarrow> r = Inr v"
  by (cases r) auto

lemma ok_or_simps [simp]: "ok_or e None = Inl e" "ok_or e (Some v) = Inr v"
  by (simp_all add: ok_or_def)

lemma ok_or_eq_Inr [simp]: "ok_or e x = Inr v \<longleftrightarrow> x = Some v"
  by (cases x) auto

lemma map_err_eq_Inl: "map_err f r = Inl e \<longleftrightarrow> (\<exists>e'. r = Inl e' \<and> e = f e')"
  by (cases r) auto

lemma ok_or_eq_Inl [simp]: "ok_or e x = Inl e' \<longleftrightarrow> x = None \<and> e' = e"
  by (cases x) auto

lemma is_err_simps [simp]: "is_err (Inl e)" "\<not> is_err (Inr v)"
  by (simp_all add: is_err_def)

lemma not_is_err_iff: "\<not> is_err r \<longleftrightarrow> (\<exists>v. r = Inr v)"
  by (cases r) auto

lemma if_Inl_eq_Inr [simp]: "(if b then Inl e else r) = Inr v \<longleftrightarrow> \<not> b \<and> r = Inr v"
  by simp

lemma if_Inr_eq_Inl [simp]: "(if b then Inr v else r) = Inl e \<longleftrightarrow> \<not> b \<and> r = Inl e"
  by simp

text \<open>The option tests \<^verbatim>\<open>is_some_and\<close> and \<^verbatim>\<open>is_none_or\<close>.\<close>

fun is_some_and :: "('a \<Rightarrow> bool) \<Rightarrow> 'a option \<Rightarrow> bool" where
  "is_some_and p None = False"
| "is_some_and p (Some x) = p x"

fun is_none_or :: "('a \<Rightarrow> bool) \<Rightarrow> 'a option \<Rightarrow> bool" where
  "is_none_or p None = True"
| "is_none_or p (Some x) = p x"

text \<open>A byte-string literal.\<close>

definition ascii :: "string \<Rightarrow> u8 list" where
  "ascii s = map of_char s"

lemma length_ascii [simp]: "length (ascii s) = length s"
  by (simp add: ascii_def)

section \<open>Checked arithmetic\<close>

definition usize_max :: nat where
  "usize_max = 2 ^ 64 - 1"

definition checked_add_usize :: "usize \<Rightarrow> usize \<Rightarrow> usize option" where
  "checked_add_usize a b = (if a + b \<le> usize_max then Some (a + b) else None)"

definition checked_add :: "'w::len word \<Rightarrow> 'w word \<Rightarrow> 'w word option" where
  "checked_add a b = (if unat a + unat b < 2 ^ LENGTH('w) then Some (a + b) else None)"

definition checked_sub :: "'w::len word \<Rightarrow> 'w word \<Rightarrow> 'w word option" where
  "checked_sub a b = (if b \<le> a then Some (a - b) else None)"

definition saturating_sub :: "'w::len word \<Rightarrow> 'w word \<Rightarrow> 'w word" where
  "saturating_sub a b = (if b \<le> a then a - b else 0)"

lemma unat_less_pow: "unat (w :: 'w::len word) < 2 ^ LENGTH('w)"
  by (rule unsigned_less)

lemma checked_add_usize_eq_Some [simp]:
  "checked_add_usize a b = Some c \<longleftrightarrow> c = a + b \<and> a + b \<le> usize_max"
  by (auto simp: checked_add_usize_def)

lemma checked_add_eq_Some:
  fixes a b c :: "'w::len word"
  shows "checked_add a b = Some c \<longleftrightarrow> c = a + b \<and> unat a + unat b < 2 ^ LENGTH('w)"
  by (auto simp: checked_add_def)

lemma unat_checked_add:
  fixes a b c :: "'w::len word"
  assumes "checked_add a b = Some c"
  shows "unat c = unat a + unat b"
  using assms by (simp add: checked_add_eq_Some unat_add_lem [THEN iffD1])

lemma unat_checked_sub:
  assumes "checked_sub a b = Some c"
  shows "unat c = unat a - unat b" "unat b \<le> unat a"
  using assms by (auto simp: checked_sub_def unat_sub word_le_nat_alt split: if_splits)

lemma checked_add_eq_Some_unat:
  fixes a b c :: "'w::len word"
  shows "checked_add a b = Some c \<longleftrightarrow> unat a + unat b = unat c"
proof
  assume eq: "unat a + unat b = unat c"
  then have "checked_add a b = Some (a + b)" using unat_less_pow [of c] by (simp add: checked_add_def)
  with unat_checked_add [OF this] eq show "checked_add a b = Some c" by (simp add: word_unat_eq_iff)
qed (simp add: unat_checked_add)

lemma checked_sub_eq_Some_unat:
  "checked_sub a b = Some c \<longleftrightarrow> unat c + unat b = unat a"
proof
  assume eq: "unat c + unat b = unat a"
  then have "b \<le> a" "unat (a - b) = unat c" by (simp_all add: word_le_nat_alt unat_sub)
  then show "checked_sub a b = Some c" by (simp add: checked_sub_def word_unat_eq_iff)
next
  assume "checked_sub a b = Some c"
  from unat_checked_sub [OF this] show "unat c + unat b = unat a" by simp
qed

lemma unat_word_of_nat: "n < 2 ^ LENGTH('w) \<Longrightarrow> unat (word_of_nat n :: 'w::len word) = n"
  by (simp add: unsigned_of_nat take_bit_nat_eq_self)

section \<open>Strictly increasing sequences\<close>

text \<open>Rust's \<open>values.windows(2).all(|pair| pair[0] < pair[1])\<close>.\<close>

definition strictly_increasing_by :: "('a \<Rightarrow> 'k::linorder) \<Rightarrow> 'a list \<Rightarrow> bool" where
  "strictly_increasing_by key xs = successively (\<lambda>x y. key x < key y) xs"

abbreviation strictly_increasing :: "'a::linorder list \<Rightarrow> bool" where
  "strictly_increasing \<equiv> strictly_increasing_by (\<lambda>x. x)"

lemma strictly_increasing_by_iff:
  "strictly_increasing_by key xs \<longleftrightarrow> sorted_wrt (\<lambda>x y. key x < key y) xs"
  unfolding strictly_increasing_by_def
  by (rule successively_conv_sorted_wrt) (auto intro!: transpI)

lemma strictly_increasing_by_nth:
  "strictly_increasing_by key xs \<Longrightarrow> i < j \<Longrightarrow> j < length xs \<Longrightarrow> key (xs ! i) < key (xs ! j)"
  unfolding strictly_increasing_by_iff by (rule sorted_wrt_nth_less)

lemma strictly_increasing_by_nth_less_iff:
  assumes "strictly_increasing_by key xs" "i < length xs" "j < length xs"
  shows "key (xs ! i) < key (xs ! j) \<longleftrightarrow> i < j"
  using strictly_increasing_by_nth [OF assms(1)] assms(2,3)
  by (metis linorder_neqE_nat order_less_asym order_less_irrefl)

lemma strictly_increasing_by_nth_eq_iff:
  assumes "strictly_increasing_by key xs" "i < length xs" "j < length xs"
  shows "key (xs ! i) = key (xs ! j) \<longleftrightarrow> i = j"
  using strictly_increasing_by_nth_less_iff [OF assms]
    strictly_increasing_by_nth_less_iff [OF assms(1,3,2)]
  by (metis linorder_neqE_nat order_less_irrefl)

lemma strictly_increasing_by_distinct:
  "strictly_increasing_by key xs \<Longrightarrow> distinct (map key xs)"
  by (auto simp: distinct_conv_nth strictly_increasing_by_nth_eq_iff)

lemma strictly_increasing_by_cong_keys:
  "map key xs = map key ys \<Longrightarrow> strictly_increasing_by key xs = strictly_increasing_by key ys"
proof -
  assume eq: "map key xs = map key ys"
  have "strictly_increasing_by key zs \<longleftrightarrow> sorted_wrt (<) (map key zs)" for zs
    by (simp add: strictly_increasing_by_iff sorted_wrt_map)
  with eq show ?thesis by simp
qed

section \<open>Binary search\<close>

text \<open>
  The algorithm of Rust's \<open>slice::binary_search_by_key\<close>: \<open>base\<close> and \<open>sz\<close> delimit the
  candidate window, halved until one element is left.  The insertion point of an
  unsuccessful search is not used by the sources, so failure is \<^const>\<open>None\<close>.
\<close>

function binary_search_loop :: "('a \<Rightarrow> 'k::linorder) \<Rightarrow> 'k \<Rightarrow> 'a list \<Rightarrow> nat \<Rightarrow> nat \<Rightarrow> nat" where
  "binary_search_loop key k xs base sz =
     (if sz > 1 then
        let half = sz div 2; mid = base + half in
        binary_search_loop key k xs (if key (xs ! mid) > k then base else mid) (sz - half)
      else base)"
  by pat_completeness auto
termination
  by (relation "measure (\<lambda>(key, k, xs, base, sz). sz)") auto

declare binary_search_loop.simps [simp del]

definition binary_search_by_key :: "('a \<Rightarrow> 'k::linorder) \<Rightarrow> 'k \<Rightarrow> 'a list \<Rightarrow> nat option" where
  "binary_search_by_key key k xs =
     (if xs = [] then None
      else let base = binary_search_loop key k xs 0 (length xs) in
        if key (xs ! base) = k then Some base else None)"

abbreviation binary_search :: "'k::linorder \<Rightarrow> 'k list \<Rightarrow> nat option" where
  "binary_search k xs \<equiv> binary_search_by_key (\<lambda>x. x) k xs"

lemma binary_search_loop_bound:
  "base < length xs \<Longrightarrow> base + sz \<le> length xs \<Longrightarrow> binary_search_loop key k xs base sz < length xs"
proof (induction key k xs base sz rule: binary_search_loop.induct)
  case (1 key k xs base sz)
  note step = binary_search_loop.simps [of key k xs base sz]
  let ?base = "if key (xs ! (base + sz div 2)) > k then base else base + sz div 2"
  show ?case
  proof (cases "sz > 1")
    case True
    with "1.prems" have "?base < length xs" "?base + (sz - sz div 2) \<le> length xs" by auto
    from "1.IH" [OF True refl refl this] step True show ?thesis
      unfolding Let_def by simp
  next
    case False
    with step "1.prems" show ?thesis by simp
  qed
qed

lemma binary_search_loop_finds:
  assumes "strictly_increasing_by key xs" "base \<le> i" "i < base + sz" "base + sz \<le> length xs"
  shows "binary_search_loop key (key (xs ! i)) xs base sz = i"
  using assms
proof (induction key "key (xs ! i)" xs base sz rule: binary_search_loop.induct)
  case (1 key xs base sz)
  note step = binary_search_loop.simps [of key "key (xs ! i)" xs base sz]
  let ?mid = "base + sz div 2"
  let ?base = "if key (xs ! ?mid) > key (xs ! i) then base else ?mid"
  show ?case
  proof (cases "sz > 1")
    case True
    with "1.prems" have "key (xs ! i) < key (xs ! ?mid) \<longleftrightarrow> i < ?mid"
      by (intro strictly_increasing_by_nth_less_iff) auto
    with True "1.prems" have bounds:
      "?base \<le> i" "i < ?base + (sz - sz div 2)" "?base + (sz - sz div 2) \<le> length xs"
      by auto
    from "1.hyps" [OF True refl refl "1.prems"(1) bounds] step True show ?thesis
      unfolding Let_def by simp
  next
    case False
    with step "1.prems" show ?thesis by simp
  qed
qed

lemma binary_search_SomeD:
  assumes "binary_search_by_key key k xs = Some i"
  shows "i < length xs" "key (xs ! i) = k"
proof -
  from assms have "xs \<noteq> []" and i: "i = binary_search_loop key k xs 0 (length xs)"
    and "key (xs ! i) = k"
    by (auto simp: binary_search_by_key_def Let_def split: if_splits)
  then show "key (xs ! i) = k" and "i < length xs"
    by (simp_all add: binary_search_loop_bound)
qed

lemma binary_search_nth:
  assumes "strictly_increasing_by key xs" "i < length xs"
  shows "binary_search_by_key key (key (xs ! i)) xs = Some i"
proof -
  from assms have "binary_search_loop key (key (xs ! i)) xs 0 (length xs) = i"
    by (simp add: binary_search_loop_finds)
  with assms(2) show ?thesis by (auto simp: binary_search_by_key_def Let_def)
qed

lemma binary_search_eq_Some_iff:
  assumes "strictly_increasing_by key xs"
  shows "binary_search_by_key key k xs = Some i \<longleftrightarrow> i < length xs \<and> key (xs ! i) = k"
  by (auto dest: binary_search_SomeD binary_search_nth [OF assms])

lemma binary_search_is_some_iff:
  assumes "strictly_increasing_by key xs"
  shows "binary_search_by_key key k xs \<noteq> None \<longleftrightarrow> k \<in> key ` set xs"
  by (force simp: binary_search_eq_Some_iff [OF assms] in_set_conv_nth image_iff)

lemma binary_search_lookup:
  assumes "strictly_increasing_by key xs"
  shows "map_option ((!) xs) (binary_search_by_key key k xs) = Some x \<longleftrightarrow> x \<in> set xs \<and> key x = k"
  by (auto simp: binary_search_eq_Some_iff [OF assms] in_set_conv_nth)

lemma binary_search_lookup_None:
  assumes "strictly_increasing_by key xs"
  shows "map_option ((!) xs) (binary_search_by_key key k xs) = None \<longleftrightarrow> k \<notin> key ` set xs"
  using binary_search_is_some_iff [OF assms, of k]
  by (cases "binary_search_by_key key k xs") simp_all

text \<open>The position of the first element that \<open>Iterator::find\<close> would return.\<close>

primrec find_index :: "('a \<Rightarrow> bool) \<Rightarrow> 'a list \<Rightarrow> nat option" where
  "find_index P [] = None"
| "find_index P (x # xs) = (if P x then Some 0 else map_option Suc (find_index P xs))"

lemma find_index_SomeD: "find_index P xs = Some i \<Longrightarrow> i < length xs \<and> P (xs ! i)"
  by (induction xs arbitrary: i) (auto split: if_splits)

lemma find_index_eq_None: "find_index P xs = None \<longleftrightarrow> list_all (\<lambda>x. \<not> P x) xs"
  by (induction xs) auto

lemma find_index_update: "find_index P xs = Some i \<Longrightarrow> P y \<Longrightarrow> find_index P (xs[i := y]) = Some i"
  by (induction xs arbitrary: i) (auto split: if_splits)

lemma find_index_update_other:
  "(\<And>x. x \<in> set xs \<Longrightarrow> P x \<Longrightarrow> \<not> Q x) \<Longrightarrow> find_index Q xs = Some i \<Longrightarrow> \<not> P y \<Longrightarrow> find_index P (xs[i := y]) = find_index P xs"
  by (induction xs arbitrary: i) (auto split: if_splits)

text \<open>A counter of a fixed width that runs up to its largest value.\<close>

lemma counter_decreases:
  fixes c :: "'w::len word"
  assumes "c \<noteq> - 1"
  shows "unat (- 1 - (c + 1)) < unat (- 1 - c)"
proof -
  have "- 1 - c \<noteq> 0" using assms by auto
  then have "unat (- 1 - c - 1) < unat (- 1 - c)" by (rule measure_unat)
  then show ?thesis by (simp add: algebra_simps)
qed

end
