(* ===== verification/Codec.thy ===== *)
theory Codec
  imports Prelude
begin

text \<open>
  The canonical binary codec (\<open>src/crates/canonical-codec/src/lib.rs\<close>): the bounded
  \<open>Encoder\<close>, the \<open>Decoder\<close> cursor, the minimal ULEB128 length prefix, the strict
  envelope, and the implementations of \<open>CanonicalEncode\<close> and \<open>CanonicalDecode\<close> for
  integers, Booleans, options and byte arrays.  The locale \<open>canonical_codec\<close> is the contract
  every consensus type's codec satisfies; \<open>canonical_type\<close> adds the envelope metadata.
\<close>

section \<open>Errors\<close>

datatype encode_error =
    EncLengthLimitExceeded usize usize
  | EncOutputLimitExceeded usize usize
  | EncLengthOverflow

datatype decode_error =
    UnexpectedEnd usize usize
  | InvalidTypeTag u16 u16
  | UnsupportedSchemaVersion u16 u16
  | NonMinimalLength
  | LengthOverflow
  | LengthLimitExceeded usize usize
  | InvalidBoolean u8
  | InvalidEnumTag string u8
  | InvalidValue string
  | TrailingData usize

section \<open>Length prefixes\<close>

definition MAX_BODY_LENGTH :: usize where
  "MAX_BODY_LENGTH = 2 ^ 32 - 1"

definition MAX_LENGTH_PREFIX_LENGTH :: usize where
  "MAX_LENGTH_PREFIX_LENGTH = 5"

definition TYPE_TAG_LENGTH :: usize where
  "TYPE_TAG_LENGTH = 2"

definition SCHEMA_VERSION_LENGTH :: usize where
  "SCHEMA_VERSION_LENGTH = 2"

lemma unat_drop_bit_7: "unat (drop_bit 7 (v :: u32)) = unat v div 128"
  by (simp only: unat_drop_bit_eq) (simp add: drop_bit_eq_div)

lemma drop_bit_7_less: "(128 :: u32) \<le> v \<Longrightarrow> unat (drop_bit 7 v) < unat v"
  by (simp add: unat_drop_bit_7 word_le_nat_alt)

function canonical_length_prefix_len_loop :: "u32 \<Rightarrow> usize \<Rightarrow> usize" where
  "canonical_length_prefix_len_loop v n =
     (if v \<ge> 0x80 then canonical_length_prefix_len_loop (drop_bit 7 v) (n + 1) else n)"
  by pat_completeness auto
termination
  by (relation "measure (\<lambda>(v, n). unat v)") (auto simp: drop_bit_7_less)

declare canonical_length_prefix_len_loop.simps [simp del]

definition canonical_length_prefix_len :: "u32 \<Rightarrow> usize" where
  "canonical_length_prefix_len v = canonical_length_prefix_len_loop v 1"

section \<open>Encoder\<close>

record encoder =
  enc_bytes :: "u8 list"
  enc_maximum :: usize

definition encoder_new :: "usize \<Rightarrow> encoder" where
  "encoder_new maximum = \<lparr>enc_bytes = [], enc_maximum = maximum\<rparr>"

definition encoder_len :: "encoder \<Rightarrow> usize" where
  "encoder_len e = length (enc_bytes e)"

definition encoder_is_empty :: "encoder \<Rightarrow> bool" where
  "encoder_is_empty e = (enc_bytes e = [])"

definition write_raw :: "u8 list \<Rightarrow> encoder \<Rightarrow> encode_error + encoder" where
  "write_raw v e =
     and_then (ok_or EncLengthOverflow (checked_add_usize (length (enc_bytes e)) (length v)))
       (\<lambda>attempted.
          if attempted > enc_maximum e
          then Inl (EncOutputLimitExceeded attempted (enc_maximum e))
          else Inr (e\<lparr>enc_bytes := enc_bytes e @ v\<rparr>))"

text \<open>\<open>to_be_bytes\<close> and \<open>from_be_bytes\<close> of an \<open>n\<close>-byte unsigned integer.\<close>

primrec to_be_bytes :: "nat \<Rightarrow> nat \<Rightarrow> u8 list" where
  "to_be_bytes 0 x = []"
| "to_be_bytes (Suc n) x = to_be_bytes n (x div 256) @ [word_of_nat x]"

definition from_be_bytes :: "u8 list \<Rightarrow> nat" where
  "from_be_bytes bs = foldl (\<lambda>a b. a * 256 + unat b) 0 bs"

definition write_u8 :: "u8 \<Rightarrow> encoder \<Rightarrow> encode_error + encoder" where
  "write_u8 v = write_raw [v]"

definition write_u16 :: "u16 \<Rightarrow> encoder \<Rightarrow> encode_error + encoder" where
  "write_u16 v = write_raw (to_be_bytes 2 (unat v))"

definition write_u32 :: "u32 \<Rightarrow> encoder \<Rightarrow> encode_error + encoder" where
  "write_u32 v = write_raw (to_be_bytes 4 (unat v))"

definition write_u64 :: "u64 \<Rightarrow> encoder \<Rightarrow> encode_error + encoder" where
  "write_u64 v = write_raw (to_be_bytes 8 (unat v))"

definition write_u128 :: "u128 \<Rightarrow> encoder \<Rightarrow> encode_error + encoder" where
  "write_u128 v = write_raw (to_be_bytes 16 (unat v))"

definition write_bool :: "bool \<Rightarrow> encoder \<Rightarrow> encode_error + encoder" where
  "write_bool v = write_u8 (if v then 1 else 0)"

function write_length_loop :: "u32 \<Rightarrow> encoder \<Rightarrow> encode_error + encoder" where
  "write_length_loop v e =
     (let low = ucast (v AND 0x7f) :: u8;
          v' = drop_bit 7 v;
          byte = (if v' \<noteq> 0 then low OR 0x80 else low)
      in and_then (write_u8 byte e)
           (\<lambda>e. if v' = 0 then Inr e else write_length_loop v' e))"
  by pat_completeness auto
termination
proof (relation "measure (\<lambda>(v, e). unat v)", goal_cases)
  case (2 v e x xa xb xc)
  then have "unat (drop_bit 7 v) \<noteq> 0" by (simp add: unat_eq_0)
  with 2 show ?case by (simp add: unat_drop_bit_7)
qed simp

declare write_length_loop.simps [simp del]

definition write_length :: "usize \<Rightarrow> usize \<Rightarrow> encoder \<Rightarrow> encode_error + encoder" where
  "write_length len maximum e =
     (if len > maximum \<or> len > MAX_BODY_LENGTH
      then Inl (EncLengthLimitExceeded len (min maximum MAX_BODY_LENGTH))
      else if len \<ge> 2 ^ 32 then Inl EncLengthOverflow
      else write_length_loop (word_of_nat len) e)"

definition write_bytes :: "u8 list \<Rightarrow> usize \<Rightarrow> encoder \<Rightarrow> encode_error + encoder" where
  "write_bytes v maximum e = and_then (write_length (length v) maximum e) (write_raw v)"

definition encoder_finish :: "encoder \<Rightarrow> u8 list" where
  "encoder_finish e = enc_bytes e"

section \<open>Decoder\<close>

record decoder =
  dec_input :: "u8 list"
  dec_offset :: usize

definition decoder_new :: "u8 list \<Rightarrow> decoder" where
  "decoder_new input = \<lparr>dec_input = input, dec_offset = 0\<rparr>"

definition remaining :: "decoder \<Rightarrow> usize" where
  "remaining d = length (dec_input d) - dec_offset d"

definition read_raw :: "usize \<Rightarrow> decoder \<Rightarrow> decode_error + (u8 list \<times> decoder)" where
  "read_raw len d =
     (if len > remaining d then Inl (UnexpectedEnd len (remaining d))
      else and_then (ok_or LengthOverflow (checked_add_usize (dec_offset d) len))
        (\<lambda>stop. Inr (take len (drop (dec_offset d) (dec_input d)), d\<lparr>dec_offset := stop\<rparr>)))"

definition read_array :: "usize \<Rightarrow> decoder \<Rightarrow> decode_error + (u8 list \<times> decoder)" where
  "read_array len d = read_raw len d"

definition read_u8 :: "decoder \<Rightarrow> decode_error + (u8 \<times> decoder)" where
  "read_u8 d = and_then (read_raw 1 d) (\<lambda>(bs, d). Inr (bs ! 0, d))"

definition read_u16 :: "decoder \<Rightarrow> decode_error + (u16 \<times> decoder)" where
  "read_u16 d = and_then (read_array 2 d) (\<lambda>(bs, d). Inr (word_of_nat (from_be_bytes bs), d))"

definition read_u32 :: "decoder \<Rightarrow> decode_error + (u32 \<times> decoder)" where
  "read_u32 d = and_then (read_array 4 d) (\<lambda>(bs, d). Inr (word_of_nat (from_be_bytes bs), d))"

definition read_u64 :: "decoder \<Rightarrow> decode_error + (u64 \<times> decoder)" where
  "read_u64 d = and_then (read_array 8 d) (\<lambda>(bs, d). Inr (word_of_nat (from_be_bytes bs), d))"

definition read_u128 :: "decoder \<Rightarrow> decode_error + (u128 \<times> decoder)" where
  "read_u128 d = and_then (read_array 16 d) (\<lambda>(bs, d). Inr (word_of_nat (from_be_bytes bs), d))"

definition read_bool :: "decoder \<Rightarrow> decode_error + (bool \<times> decoder)" where
  "read_bool d = and_then (read_u8 d)
     (\<lambda>(tag, d). if tag = 0 then Inr (False, d)
                 else if tag = 1 then Inr (True, d)
                 else Inl (InvalidBoolean tag))"

function read_length_loop ::
    "usize \<Rightarrow> usize \<Rightarrow> u32 \<Rightarrow> decoder \<Rightarrow> decode_error + (usize \<times> decoder)" where
  "read_length_loop maximum index v d =
     (if index < MAX_LENGTH_PREFIX_LENGTH then
        and_then (read_u8 d) (\<lambda>(byte, d).
          if index = MAX_LENGTH_PREFIX_LENGTH - 1 \<and> byte > 0x0f then Inl LengthOverflow
          else
            let v = v OR push_bit (index * 7) (ucast (byte AND 0x7f)) in
            if byte AND 0x80 = 0 then
              if canonical_length_prefix_len v \<noteq> index + 1 then Inl NonMinimalLength
              else let len = unat v in
                if len > maximum then Inl (LengthLimitExceeded len maximum)
                else Inr (len, d)
            else read_length_loop maximum (index + 1) v d)
      else Inl LengthOverflow)"
  by pat_completeness auto
termination
  by (relation "measure (\<lambda>(maximum, index, v, d). MAX_LENGTH_PREFIX_LENGTH - index)") auto

declare read_length_loop.simps [simp del]

definition read_length :: "usize \<Rightarrow> decoder \<Rightarrow> decode_error + (usize \<times> decoder)" where
  "read_length maximum d = read_length_loop maximum 0 0 d"

definition read_bytes :: "usize \<Rightarrow> decoder \<Rightarrow> decode_error + (u8 list \<times> decoder)" where
  "read_bytes maximum d = and_then (read_length maximum d) (\<lambda>(len, d). read_raw len d)"

definition decoder_finish :: "decoder \<Rightarrow> decode_error + unit" where
  "decoder_finish d = (if remaining d = 0 then Inr () else Inl (TrailingData (remaining d)))"

section \<open>Envelopes\<close>

text \<open>The associated items of the trait \<open>CanonicalType\<close>, passed as a dictionary.\<close>

record 'a canonical_type =
  ct_encode :: "'a \<Rightarrow> encoder \<Rightarrow> encode_error + encoder"
  ct_decode :: "decoder \<Rightarrow> decode_error + ('a \<times> decoder)"
  ct_type_tag :: u16
  ct_schema_version :: u16
  ct_max_encoded_len :: usize

record canonical_envelope_ref =
  env_type_tag :: u16
  env_schema_version :: u16
  env_body :: "u8 list"

definition inspect_canonical_envelope ::
    "u8 list \<Rightarrow> u16 \<Rightarrow> u16 \<Rightarrow> usize \<Rightarrow> decode_error + canonical_envelope_ref" where
  "inspect_canonical_envelope input expected_type expected_version maximum_body_length =
     and_then (read_u16 (decoder_new input)) (\<lambda>(type_tag, envelope).
     if type_tag \<noteq> expected_type then Inl (InvalidTypeTag expected_type type_tag)
     else and_then (read_u16 envelope) (\<lambda>(schema_version, envelope).
     if schema_version \<noteq> expected_version
     then Inl (UnsupportedSchemaVersion expected_version schema_version)
     else and_then (read_length maximum_body_length envelope) (\<lambda>(body_length, envelope).
     and_then (read_raw body_length envelope) (\<lambda>(body, envelope).
     and_then (decoder_finish envelope) (\<lambda>_.
     Inr \<lparr>env_type_tag = type_tag, env_schema_version = schema_version,
          env_body = body\<rparr>)))))"

definition encode_body :: "'a canonical_type \<Rightarrow> 'a \<Rightarrow> encode_error + u8 list" where
  "encode_body T v =
     (if ct_max_encoded_len T > MAX_BODY_LENGTH
      then Inl (EncLengthLimitExceeded (ct_max_encoded_len T) MAX_BODY_LENGTH)
      else and_then (ct_encode T v (encoder_new (ct_max_encoded_len T)))
             (\<lambda>e. Inr (encoder_finish e)))"

definition encode_envelope :: "'a canonical_type \<Rightarrow> 'a \<Rightarrow> encode_error + u8 list" where
  "encode_envelope T v =
     and_then (encode_body T v) (\<lambda>body.
     and_then (ok_or EncLengthOverflow (checked_add_usize (ct_max_encoded_len T)
         (TYPE_TAG_LENGTH + SCHEMA_VERSION_LENGTH + MAX_LENGTH_PREFIX_LENGTH))) (\<lambda>maximum.
     and_then (write_u16 (ct_type_tag T) (encoder_new maximum)) (\<lambda>e.
     and_then (write_u16 (ct_schema_version T) e) (\<lambda>e.
     and_then (write_length (length body) (ct_max_encoded_len T) e) (\<lambda>e.
     and_then (write_raw body e) (\<lambda>e.
     Inr (encoder_finish e)))))))"

definition decode_envelope :: "'a canonical_type \<Rightarrow> u8 list \<Rightarrow> decode_error + 'a" where
  "decode_envelope T input =
     and_then (inspect_canonical_envelope input (ct_type_tag T) (ct_schema_version T)
                 (ct_max_encoded_len T)) (\<lambda>envelope.
     and_then (ct_decode T (decoder_new (env_body envelope))) (\<lambda>(v, d).
     and_then (decoder_finish d) (\<lambda>_. Inr v)))"

section \<open>Implementations for options, byte arrays and element sequences\<close>

text \<open>
  The fixed-width integers and Booleans encode by the writers and readers above.  The two
  sequence loops are the \<open>for\<close> loops the containers use after a length prefix.
\<close>

definition encode_option ::
    "('a \<Rightarrow> encoder \<Rightarrow> encode_error + encoder) \<Rightarrow> 'a option \<Rightarrow> encoder \<Rightarrow> encode_error + encoder" where
  "encode_option encode v e =
     (case v of None \<Rightarrow> write_u8 0 e
      | Some x \<Rightarrow> and_then (write_u8 1 e) (encode x))"

definition decode_option ::
    "(decoder \<Rightarrow> decode_error + ('a \<times> decoder)) \<Rightarrow> decoder \<Rightarrow> decode_error + ('a option \<times> decoder)" where
  "decode_option decode d =
     and_then (read_u8 d) (\<lambda>(tag, d).
       if tag = 0 then Inr (None, d)
       else if tag = 1 then and_then (decode d) (\<lambda>(x, d). Inr (Some x, d))
       else Inl (InvalidEnumTag ''Option'' tag))"

primrec encode_each ::
    "('a \<Rightarrow> encoder \<Rightarrow> encode_error + encoder) \<Rightarrow> 'a list \<Rightarrow> encoder \<Rightarrow> encode_error + encoder" where
  "encode_each encode [] e = Inr e"
| "encode_each encode (x # xs) e = and_then (encode x e) (encode_each encode xs)"

primrec decode_each ::
    "(decoder \<Rightarrow> decode_error + ('a \<times> decoder)) \<Rightarrow> nat \<Rightarrow> decoder \<Rightarrow> decode_error + ('a list \<times> decoder)" where
  "decode_each decode 0 d = Inr ([], d)"
| "decode_each decode (Suc n) d =
     and_then (decode d) (\<lambda>(x, d).
     and_then (decode_each decode n d) (\<lambda>(xs, d). Inr (x # xs, d)))"

text \<open>A bounded vector: the count prefix followed by the elements.\<close>

definition encode_vec ::
    "('a \<Rightarrow> encoder \<Rightarrow> encode_error + encoder) \<Rightarrow> usize \<Rightarrow> 'a list \<Rightarrow> encoder \<Rightarrow> encode_error + encoder" where
  "encode_vec encode maximum xs e =
     and_then (write_length (length xs) maximum e) (encode_each encode xs)"

definition decode_vec ::
    "(decoder \<Rightarrow> decode_error + ('a \<times> decoder)) \<Rightarrow> usize \<Rightarrow> decoder \<Rightarrow> decode_error + ('a list \<times> decoder)" where
  "decode_vec decode maximum d =
     and_then (read_length maximum d) (\<lambda>(count, d). decode_each decode count d)"

end
