(* ===== verification/Codec_Laws.thy ===== *)
theory Codec_Laws
  imports Codec
begin

text \<open>
  Laws of the canonical codec.  The wire formats are given as byte-list functions
  \<open>enc_*\<close>, the abstract specification; the locale \<open>canonical_codec\<close> states that an
  encoder appends exactly that image and fails exactly when it does not fit, and that a
  decoder inverts it and accepts nothing else.  Strictness and uniqueness of envelopes
  are proved once in the locale \<open>canonical_envelope\<close>.
\<close>

section \<open>Encoder and decoder positions\<close>

definition enc_at :: "usize \<Rightarrow> u8 list \<Rightarrow> encoder" where
  "enc_at m xs = \<lparr>enc_bytes = xs, enc_maximum = m\<rparr>"

definition dec_at :: "u8 list \<Rightarrow> u8 list \<Rightarrow> decoder" where
  "dec_at pre rest = \<lparr>dec_input = pre @ rest, dec_offset = length pre\<rparr>"

text \<open>A Rust slice is never longer than the address space.\<close>

definition slice :: "u8 list \<Rightarrow> bool" where
  "slice xs = (length xs \<le> usize_max)"

lemma encoder_new_at: "encoder_new m = enc_at m []"
  by (simp add: encoder_new_def enc_at_def)

lemma encoder_finish_at [simp]: "encoder_finish (enc_at m xs) = xs"
  by (simp add: encoder_finish_def enc_at_def)

lemma decoder_new_at: "decoder_new xs = dec_at [] xs"
  by (simp add: decoder_new_def dec_at_def)

lemma decoder_finish_at [simp]:
  "decoder_finish (dec_at pre rest) = Inr u \<longleftrightarrow> rest = []"
  by (auto simp: decoder_finish_def dec_at_def remaining_def)

lemma write_raw_at [codec_simps]:
  "length (xs @ v) \<le> m \<Longrightarrow> m \<le> usize_max \<Longrightarrow> write_raw v (enc_at m xs) = Inr (enc_at m (xs @ v))"
  by (simp add: write_raw_def enc_at_def checked_add_usize_def)

lemma write_raw_atD [codec_dests]:
  "write_raw v (enc_at m xs) = Inr e \<Longrightarrow> e = enc_at m (xs @ v) \<and> length (xs @ v) \<le> m"
  by (auto simp: write_raw_def enc_at_def)

lemma read_raw_at [codec_simps]:
  "slice (pre @ v @ rest) \<Longrightarrow> n = length v \<Longrightarrow>
   read_raw n (dec_at pre (v @ rest)) = Inr (v, dec_at (pre @ v) rest)"
  by (simp add: read_raw_def dec_at_def remaining_def checked_add_usize_def slice_def)

lemma read_raw_atD [codec_dests]:
  assumes "read_raw n (dec_at pre bs) = Inr (v, d)"
  shows "length v = n \<and> (\<exists>rest. bs = v @ rest \<and> d = dec_at (pre @ v) rest)"
proof -
  from assms have n: "n \<le> length bs" and v: "v = take n bs"
    and d: "d = \<lparr>dec_input = pre @ bs, dec_offset = length pre + n\<rparr>"
    by (auto simp: read_raw_def dec_at_def remaining_def)
  show ?thesis
  proof (intro conjI exI [of _ "drop n bs"])
    from n v d show "d = dec_at (pre @ v) (drop n bs)" by (simp add: dec_at_def)
  qed (use n v in simp_all)
qed

section \<open>Big-endian integers\<close>

lemma length_to_be_bytes [simp]: "length (to_be_bytes n x) = n"
  by (induction n arbitrary: x) simp_all

lemma from_be_bytes_snoc: "from_be_bytes (bs @ [b]) = from_be_bytes bs * 256 + unat b"
  by (simp add: from_be_bytes_def)

lemma from_be_bytes_Nil [simp]: "from_be_bytes [] = 0"
  by (simp add: from_be_bytes_def)

lemma from_be_bytes_bound: "from_be_bytes bs < 256 ^ length bs"
proof (induction bs rule: rev_induct)
  case Nil
  show ?case by simp
next
  case (snoc b bs)
  have "unat b < 256" using unat_less_pow [of b] by simp
  with snoc show ?case by (simp add: from_be_bytes_snoc)
qed

lemma from_to_be_bytes: "x < 256 ^ n \<Longrightarrow> from_be_bytes (to_be_bytes n x) = x"
proof (induction n arbitrary: x)
  case 0
  then show ?case by simp
next
  case (Suc n)
  then have "x div 256 < 256 ^ n" by (simp add: less_mult_imp_div_less mult.commute)
  with Suc.IH show ?case
    by (simp add: from_be_bytes_snoc unat_of_nat)
qed

lemma to_be_bytes_eq_iff: "a < 256 ^ n \<Longrightarrow> b < 256 ^ n \<Longrightarrow> to_be_bytes n a = to_be_bytes n b \<longleftrightarrow> a = b"
  by (metis from_to_be_bytes)

lemma to_from_be_bytes: "to_be_bytes (length bs) (from_be_bytes bs) = bs"
proof (induction bs rule: rev_induct)
  case Nil
  show ?case by simp
next
  case (snoc b bs)
  have b: "unat b < 256" using unat_less_pow [of b] by simp
  then have "word_of_nat (from_be_bytes bs * 256 + unat b) = b"
    by (simp only: word_unat_eq_iff unat_of_nat) simp
  with snoc b show ?case by (simp add: from_be_bytes_snoc)
qed

definition enc_u8 :: "u8 \<Rightarrow> u8 list" where "enc_u8 v = [v]"
definition enc_u16 :: "u16 \<Rightarrow> u8 list" where "enc_u16 v = to_be_bytes 2 (unat v)"
definition enc_u32 :: "u32 \<Rightarrow> u8 list" where "enc_u32 v = to_be_bytes 4 (unat v)"
definition enc_u64 :: "u64 \<Rightarrow> u8 list" where "enc_u64 v = to_be_bytes 8 (unat v)"
definition enc_u128 :: "u128 \<Rightarrow> u8 list" where "enc_u128 v = to_be_bytes 16 (unat v)"
definition enc_bool :: "bool \<Rightarrow> u8 list" where "enc_bool v = [if v then 1 else 0]"

lemma enc_fixed_length [simp]:
  "length (enc_u8 a) = 1" "length (enc_u16 b) = 2" "length (enc_u32 c) = 4"
  "length (enc_u64 d) = 8" "length (enc_u128 e) = 16" "length (enc_bool f) = 1"
  by (simp_all add: enc_u8_def enc_u16_def enc_u32_def enc_u64_def enc_u128_def enc_bool_def)

section \<open>The codec contract\<close>

locale canonical_codec =
  fixes enc :: "'a \<Rightarrow> u8 list"
    and encode :: "'a \<Rightarrow> encoder \<Rightarrow> encode_error + encoder"
    and decode :: "decoder \<Rightarrow> decode_error + ('a \<times> decoder)"
    and valid :: "'a \<Rightarrow> bool"
  assumes encode_at:
      "valid v \<Longrightarrow> length (xs @ enc v) \<le> m \<Longrightarrow> m \<le> usize_max \<Longrightarrow>
       encode v (enc_at m xs) = Inr (enc_at m (xs @ enc v))"
    and encode_atD:
      "encode v (enc_at m xs) = Inr e \<Longrightarrow> e = enc_at m (xs @ enc v) \<and> length (xs @ enc v) \<le> m"
    and decode_at:
      "valid v \<Longrightarrow> slice (pre @ enc v @ rest) \<Longrightarrow>
       decode (dec_at pre (enc v @ rest)) = Inr (v, dec_at (pre @ enc v) rest)"
    and decode_atD:
      "decode (dec_at pre bs) = Inr (v, d) \<Longrightarrow>
       valid v \<and> (\<exists>rest. bs = enc v @ rest \<and> d = dec_at (pre @ enc v) rest)"

lemma codec_of_word:
  fixes enc :: "'w::len word \<Rightarrow> u8 list"
  assumes n: "LENGTH('w) = 8 * n"
    and enc: "\<And>v. enc v = to_be_bytes n (unat v)"
    and encode: "\<And>v. encode v = write_raw (to_be_bytes n (unat v))"
    and decode: "\<And>d. decode d =
      and_then (read_array n d) (\<lambda>(bs, d). Inr (word_of_nat (from_be_bytes bs) :: 'w word, d))"
  shows "canonical_codec enc encode decode (\<lambda>_. True)"
proof
  have pow: "(256 :: nat) ^ n = 2 ^ LENGTH('w)"
    by (simp add: n power_mult)
  fix v :: "'w word" and xs pre rest bs :: "u8 list" and m and e and d
  show "length (xs @ enc v) \<le> m \<Longrightarrow> m \<le> usize_max \<Longrightarrow>
    encode v (enc_at m xs) = Inr (enc_at m (xs @ enc v))"
    by (simp add: enc encode write_raw_at)
  show "encode v (enc_at m xs) = Inr e \<Longrightarrow> e = enc_at m (xs @ enc v) \<and> length (xs @ enc v) \<le> m"
    by (auto simp: enc encode dest: write_raw_atD)
  have "from_be_bytes (to_be_bytes n (unat v)) = unat v"
    using unat_less_pow [of v] by (simp add: from_to_be_bytes pow)
  then show "slice (pre @ enc v @ rest) \<Longrightarrow>
    decode (dec_at pre (enc v @ rest)) = Inr (v, dec_at (pre @ enc v) rest)"
    by (simp add: enc decode read_array_def read_raw_at)
  assume "decode (dec_at pre bs) = Inr (v, d)"
  then obtain x where x: "read_raw n (dec_at pre bs) = Inr (x, d)"
    and v: "v = word_of_nat (from_be_bytes x)"
    by (auto simp: decode read_array_def)
  from read_raw_atD [OF x] obtain rest where rest:
    "length x = n" "bs = x @ rest" "d = dec_at (pre @ x) rest" by blast
  from rest(1) v have "unat v = from_be_bytes x"
    using from_be_bytes_bound [of x] by (simp add: pow unat_of_nat)
  with rest(1) have "enc v = x" using to_from_be_bytes [of x] by (simp add: enc)
  with rest show "True \<and> (\<exists>rest. bs = enc v @ rest \<and> d = dec_at (pre @ enc v) rest)"
    by blast
qed

section \<open>Length prefixes\<close>

text \<open>
  The wire format of a length: base-128 digits, least significant first, with the high bit
  set on every digit but the last.
\<close>

fun uleb :: "nat \<Rightarrow> u8 list" where
  "uleb n = (if n < 128 then [word_of_nat n] else word_of_nat (128 + n mod 128) # uleb (n div 128))"

declare uleb.simps [simp del]

definition enc_length :: "nat \<Rightarrow> u8 list" where
  "enc_length n = uleb n"

lemma uleb_small: "n < 128 \<Longrightarrow> uleb n = [word_of_nat n]"
  by (subst uleb.simps) simp

lemma uleb_big: "128 \<le> n \<Longrightarrow> uleb n = word_of_nat (128 + n mod 128) # uleb (n div 128)"
  by (subst uleb.simps) simp

lemma length_uleb_pos: "0 < length (uleb n)"
  by (subst uleb.simps) simp

lemma length_uleb_le: "n < 128 ^ k \<Longrightarrow> 0 < k \<Longrightarrow> length (uleb n) \<le> k"
proof (induction n arbitrary: k rule: uleb.induct)
  case (1 n)
  show ?case
  proof (cases "n < 128")
    case True
    with "1.prems" show ?thesis by (simp add: uleb_small)
  next
    case False
    obtain j where j: "k = Suc j" using "1.prems"(2) by (cases k) auto
    with False "1.prems" have k: "k = Suc j" "0 < j" by (cases j; simp)+
    with "1.prems" have "n div 128 < 128 ^ j" by (simp add: less_mult_imp_div_less mult.commute)
    with "1.IH" [OF False] k show ?thesis using False by (simp add: uleb_big)
  qed
qed

lemma length_uleb_split:
  "acc < 128 ^ k \<Longrightarrow> 0 < r \<Longrightarrow> length (uleb (acc + 128 ^ k * r)) = k + length (uleb r)"
proof (induction k arbitrary: acc)
  case 0
  then show ?case by simp
next
  case (Suc k)
  let ?n = "acc + 128 ^ Suc k * r"
  have "1 \<le> 128 ^ k * r" using Suc.prems(2) by simp
  then have "128 \<le> ?n" unfolding power_Suc mult.assoc by linarith
  moreover have "?n div 128 = acc div 128 + 128 ^ k * r" by (simp add: mult.assoc)
  moreover have "acc div 128 < 128 ^ k" using Suc.prems(1)
    by (simp add: less_mult_imp_div_less mult.commute)
  ultimately show ?case using Suc.IH Suc.prems(2) by (simp add: uleb_big)
qed

lemma canonical_length_prefix_len_loop:
  "canonical_length_prefix_len_loop v n = n + length (uleb (unat v)) - 1"
proof (induction v n rule: canonical_length_prefix_len_loop.induct)
  case (1 v n)
  show ?case
  proof (cases "v \<ge> 0x80")
    case True
    then have "128 \<le> unat v" by (simp add: word_le_nat_alt)
    with 1 True show ?thesis
      using length_uleb_pos [of "unat v div 128"]
      by (simp add: canonical_length_prefix_len_loop.simps [of v n] uleb_big unat_drop_bit_7)
  next
    case False
    then have "unat v < 128" by (simp add: word_le_nat_alt)
    with False show ?thesis
      by (simp add: canonical_length_prefix_len_loop.simps [of v n] uleb_small)
  qed
qed

lemma canonical_length_prefix_len_uleb:
  "canonical_length_prefix_len v = length (uleb (unat v))"
  using length_uleb_pos [of "unat v"]
  by (simp add: canonical_length_prefix_len_def canonical_length_prefix_len_loop)

text \<open>The bit operations of the two loops, read as arithmetic on digits.\<close>

lemma unat_and_127:
  fixes w :: "'w::len word"
  assumes "7 < LENGTH('w)"
  shows "unat (w AND 0x7f) = unat w mod 128"
proof -
  have "(0x7f :: 'w word) = mask 7" by (simp add: mask_eq_exp_minus_1)
  then have "w AND 0x7f = take_bit 7 w" by (simp add: take_bit_eq_mask)
  then have "unat (w AND 0x7f) = take_bit 7 (unat w)"
    using assms by (simp add: unsigned_take_bit_eq)
  then show ?thesis by (simp add: take_bit_eq_mod)
qed

lemma unat_low_digit: "unat (ucast ((v :: u32) AND 0x7f) :: u8) = unat v mod 128"
proof -
  have "unat (ucast (v AND 0x7f) :: u8) = unat (v AND 0x7f) mod 256"
    by (simp only: unsigned_ucast_eq take_bit_eq_mod) simp
  then show ?thesis by (simp add: unat_and_127)
qed

lemma bit_7_iff: "bit (b :: u8) 7 \<longleftrightarrow> 128 \<le> unat b"
proof -
  have "bit b 7 \<longleftrightarrow> bit (unat b) 7" by (simp add: bit_unsigned_iff)
  also have "\<dots> \<longleftrightarrow> odd (unat b div 128)" by (simp add: bit_iff_odd)
  also have "\<dots> \<longleftrightarrow> 128 \<le> unat b"
  proof (cases "unat b < 128")
    case False
    with unat_less_pow [of b] have "unat b div 128 = Suc 0" by (intro div_nat_eqI) simp_all
    with False show ?thesis by simp
  qed simp
  finally show ?thesis .
qed

lemma and_128_eq_0_iff: "(b :: u8) AND 0x80 = 0 \<longleftrightarrow> unat b < 128"
  using and_exp_eq_0_iff_not_bit [of b 7] bit_7_iff [of b] by (simp add: not_le)

lemma or_128: "unat (b :: u8) < 128 \<Longrightarrow> b OR 0x80 = word_of_nat (128 + unat b)"
proof -
  assume "unat b < 128"
  then have "b AND 0x80 = 0" by (simp add: and_128_eq_0_iff)
  then have "b OR 0x80 = b + 0x80" by (simp add: disjunctive_add_eq_or)
  then show ?thesis by (simp add: add.commute)
qed

lemma and_push_bit_disjoint: "take_bit k a AND push_bit k b = (0 :: nat)"
  by (rule bit_eqI) (auto simp: bit_simps)

lemma power_128: "(128 :: nat) ^ i = 2 ^ (i * 7)"
proof -
  have "(128 :: nat) = 2 ^ 7" by simp
  then show ?thesis by (simp only: power_mult [symmetric] mult.commute)
qed

lemma unat_or_digit:
  fixes v :: u32
  assumes "unat v < 128 ^ i" "128 ^ i * unat x < 2 ^ 32"
  shows "unat (v OR push_bit (i * 7) x) = unat v + 128 ^ i * unat x"
proof -
  have "unat (push_bit (i * 7) x) = take_bit 32 (push_bit (i * 7) (unat x))"
    by (simp only: unsigned_push_bit_eq) simp
  also have "\<dots> = push_bit (i * 7) (unat x)"
    using assms(2) by (simp add: push_bit_eq_mult power_128 mult.commute take_bit_nat_eq_self)
  finally have shifted: "unat (push_bit (i * 7) x) = push_bit (i * 7) (unat x)" .
  have "unat v = take_bit (i * 7) (unat v)"
    using assms(1) by (simp add: power_128 take_bit_nat_eq_self)
  then have "unat v AND push_bit (i * 7) (unat x) = 0"
    by (metis and_push_bit_disjoint)
  then have "unat v OR push_bit (i * 7) (unat x) = unat v + push_bit (i * 7) (unat x)"
    by (simp add: disjunctive_add_eq_or)
  then show ?thesis
    by (simp only: unsigned_or_eq shifted) (simp add: push_bit_eq_mult power_128 mult.commute)
qed

lemma write_u8_at [codec_simps]:
  "length xs + 1 \<le> m \<Longrightarrow> m \<le> usize_max \<Longrightarrow> write_u8 v (enc_at m xs) = Inr (enc_at m (xs @ [v]))"
  by (simp add: write_u8_def write_raw_at)

lemma write_u8_atD [codec_dests]:
  "write_u8 v (enc_at m xs) = Inr e \<Longrightarrow> e = enc_at m (xs @ [v]) \<and> length xs + 1 \<le> m"
  by (auto simp: write_u8_def dest: write_raw_atD)

lemma read_u8_at [codec_simps]:
  "slice (pre @ v # rest) \<Longrightarrow> read_u8 (dec_at pre (v # rest)) = Inr (v, dec_at (pre @ [v]) rest)"
  using read_raw_at [of pre "[v]" rest 1] by (simp add: read_u8_def)

lemma read_u8_atD [codec_dests]:
  "read_u8 (dec_at pre bs) = Inr (v, d) \<Longrightarrow> \<exists>rest. bs = v # rest \<and> d = dec_at (pre @ [v]) rest"
  by (fastforce simp: read_u8_def length_Suc_conv dest: read_raw_atD)

lemma write_length_loop_step:
  fixes v :: u32
  shows "write_length_loop v e =
    (if unat v < 128 then write_u8 (word_of_nat (unat v)) e
     else and_then (write_u8 (word_of_nat (128 + unat v mod 128)) e) (write_length_loop (drop_bit 7 v)))"
proof -
  have "drop_bit 7 v = 0 \<longleftrightarrow> unat v < 128"
    by (simp only: word_unat_eq_iff unat_drop_bit_7) auto
  moreover have "ucast (v AND 0x7f) = (word_of_nat (unat v mod 128) :: u8)"
    by (simp only: word_unat_eq_iff unat_low_digit) (simp add: unat_of_nat)
  moreover have "(word_of_nat (unat v mod 128) :: u8) OR 0x80 = word_of_nat (128 + unat v mod 128)"
    by (subst or_128) (simp_all add: unat_of_nat)
  moreover have "and_then r Inr = r" for r :: "encode_error + encoder" by (cases r) auto
  ultimately show ?thesis
    by (subst write_length_loop.simps) (simp add: Let_def)
qed

lemma write_length_loop_at:
  "length (xs @ uleb (unat v)) \<le> m \<Longrightarrow> m \<le> usize_max \<Longrightarrow>
   write_length_loop v (enc_at m xs) = Inr (enc_at m (xs @ uleb (unat v)))"
proof (induction "unat v" arbitrary: v xs rule: less_induct)
  case less
  show ?case
  proof (cases "unat v < 128")
    case True
    with less.prems show ?thesis
      by (subst write_length_loop_step) (simp add: uleb_small write_u8_at)
  next
    case False
    then have "unat (drop_bit 7 v) < unat v" by (simp add: unat_drop_bit_7)
    from less.hyps [OF this, of "xs @ [word_of_nat (128 + unat v mod 128)]"] less.prems False
    show ?thesis
      by (subst write_length_loop_step) (simp add: uleb_big unat_drop_bit_7 write_u8_at)
  qed
qed

lemma write_length_loop_atD:
  "write_length_loop v (enc_at m xs) = Inr e \<Longrightarrow>
   e = enc_at m (xs @ uleb (unat v)) \<and> length (xs @ uleb (unat v)) \<le> m"
proof (induction "unat v" arbitrary: v xs rule: less_induct)
  case less
  show ?case
  proof (cases "unat v < 128")
    case True
    with less.prems show ?thesis
      by (subst (asm) write_length_loop_step) (auto simp: uleb_small dest: write_u8_atD)
  next
    case False
    then have "unat (drop_bit 7 v) < unat v" by (simp add: unat_drop_bit_7)
    from less.hyps [OF this, of "xs @ [word_of_nat (128 + unat v mod 128)]"] less.prems False
    show ?thesis
      by (subst (asm) write_length_loop_step)
        (auto simp: uleb_big unat_drop_bit_7 dest!: write_u8_atD)
  qed
qed

lemma write_length_at [codec_simps]:
  "n \<le> maximum \<Longrightarrow> n \<le> MAX_BODY_LENGTH \<Longrightarrow> length (xs @ enc_length n) \<le> m \<Longrightarrow> m \<le> usize_max \<Longrightarrow>
   write_length n maximum (enc_at m xs) = Inr (enc_at m (xs @ enc_length n))"
  using write_length_loop_at [of xs "word_of_nat n" m]
  by (simp add: write_length_def enc_length_def MAX_BODY_LENGTH_def unat_of_nat)

lemma write_length_atD [codec_dests]:
  assumes "write_length n maximum (enc_at m xs) = Inr e"
  shows "e = enc_at m (xs @ enc_length n) \<and> length (xs @ enc_length n) \<le> m \<and>
    n \<le> maximum \<and> n \<le> MAX_BODY_LENGTH"
proof -
  from assms have "n \<le> maximum" and n: "n \<le> MAX_BODY_LENGTH"
    and loop: "write_length_loop (word_of_nat n) (enc_at m xs) = Inr e"
    by (auto simp: write_length_def)
  from n have "unat (word_of_nat n :: u32) = n" by (simp add: MAX_BODY_LENGTH_def unat_of_nat)
  with write_length_loop_atD [OF loop] \<open>n \<le> maximum\<close> n show ?thesis
    by (simp add: enc_length_def)
qed

lemma unat_ucast_digit: "unat (ucast ((b :: u8) AND 0x7f) :: u32) = unat b mod 128"
proof -
  have "unat (ucast (b AND 0x7f) :: u32) = unat (b AND 0x7f) mod 2 ^ 32"
    by (simp only: unsigned_ucast_eq take_bit_eq_mod) simp
  then show ?thesis by (simp add: unat_and_127)
qed

lemma digit_bound:
  assumes "i < 5" "\<not> (i = 4 \<and> (b :: u8) > 0x0f)"
  shows "(128 :: nat) ^ i * (unat b mod 128) < 2 ^ 32"
proof -
  have "i = 0 \<or> i = 1 \<or> i = 2 \<or> i = 3 \<or> i = 4" using assms(1) by auto
  moreover have "i = 4 \<Longrightarrow> unat b mod 128 \<le> 15" using assms(2) by (simp add: word_less_nat_alt)
  moreover have "unat b mod 128 < 128" by simp
  ultimately show ?thesis by auto
qed

lemma unat_digit_step:
  assumes "i < 5" "unat v < 128 ^ i" "\<not> (i = 4 \<and> (b :: u8) > 0x0f)"
  shows "unat (v OR push_bit (i * 7) (ucast (b AND 0x7f)) :: u32) = unat v + 128 ^ i * (unat b mod 128)"
  using unat_or_digit [of v i "ucast (b AND 0x7f)"] digit_bound [OF assms(1,3)] assms(2)
  by (simp add: unat_ucast_digit)

lemma digit_step_less:
  "a < 128 ^ i \<Longrightarrow> x < 128 \<Longrightarrow> a + 128 ^ i * x < (128 :: nat) ^ Suc i"
proof -
  assume "a < 128 ^ i" "x < 128"
  then have "a + 128 ^ i * x < 128 ^ i * (x + 1)" "128 ^ i * (x + 1) \<le> 128 ^ i * 128"
    by simp_all
  then have "a + 128 ^ i * x < 128 ^ i * 128" by (rule less_le_trans)
  then show ?thesis by (simp only: power_Suc mult.commute)
qed

lemma read_length_loop_at:
  assumes "i < 5" "unat v < 128 ^ i" "unat v + 128 ^ i * r < 2 ^ 32" "i = 0 \<or> 0 < r"
    "unat v + 128 ^ i * r \<le> maximum" "slice (pre @ uleb r @ rest)"
  shows "read_length_loop maximum i v (dec_at pre (uleb r @ rest)) =
    Inr (unat v + 128 ^ i * r, dec_at (pre @ uleb r) rest)"
  using assms
proof (induction r arbitrary: i v pre rule: less_induct)
  case (less r)
  show ?case
  proof (cases "r < 128")
    case True
    let ?b = "word_of_nat r :: u8"
    have b: "unat ?b = r" using True by (simp add: unat_of_nat)
    have top: "\<not> (i = 4 \<and> ?b > 0x0f)" using less.prems(3) b by (auto simp: word_less_nat_alt)
    note v = unat_digit_step [OF less.prems(1,2) top]
    have "length (uleb (unat v + 128 ^ i * r)) = i + 1"
      using less.prems(2,4) True length_uleb_split [OF less.prems(2), of r]
      by (cases "r = 0") (auto simp: uleb_small)
    with True b top v less.prems show ?thesis
      by (subst read_length_loop.simps)
        (simp add: uleb_small MAX_LENGTH_PREFIX_LENGTH_def read_u8_at and_128_eq_0_iff Let_def
          canonical_length_prefix_len_uleb)
  next
    case False
    let ?b = "word_of_nat (128 + r mod 128) :: u8"
    have b: "unat ?b = 128 + r mod 128" by (simp only: unat_of_nat) simp
    have i: "i < 4"
    proof (rule ccontr)
      assume "\<not> i < 4"
      with less.prems(1) have "i = 4" by simp
      with less.prems(3) False show False by simp
    qed
    then have top: "\<not> (i = 4 \<and> ?b > 0x0f)" by simp
    let ?v = "v OR push_bit (i * 7) (ucast (?b AND 0x7f))"
    have v: "unat ?v = unat v + 128 ^ i * (r mod 128)"
      using unat_digit_step [OF less.prems(1,2) top] b by simp
    have eq: "unat ?v + 128 ^ Suc i * (r div 128) = unat v + 128 ^ i * r"
    proof -
      have "128 ^ i * r = 128 ^ i * (r mod 128 + 128 * (r div 128))" by simp
      also have "\<dots> = 128 ^ i * (r mod 128) + 128 ^ Suc i * (r div 128)"
        by (simp only: distrib_left power_Suc mult.assoc mult.left_commute)
      finally show ?thesis using v by simp
    qed
    have "read_length_loop maximum (Suc i) ?v (dec_at (pre @ [?b]) (uleb (r div 128) @ rest)) =
      Inr (unat ?v + 128 ^ Suc i * (r div 128), dec_at ((pre @ [?b]) @ uleb (r div 128)) rest)"
    proof (rule less.IH)
      show "unat ?v < 128 ^ Suc i" using digit_step_less [OF less.prems(2), of "r mod 128"] v by simp
    qed (use False i less.prems(3,5,6) eq in \<open>simp_all add: uleb_big\<close>)
    with False b i eq less.prems(6) show ?thesis
      by (subst read_length_loop.simps)
        (simp add: uleb_big MAX_LENGTH_PREFIX_LENGTH_def read_u8_at and_128_eq_0_iff Let_def)
  qed
qed

lemma read_length_at [codec_simps]:
  "n \<le> maximum \<Longrightarrow> n \<le> MAX_BODY_LENGTH \<Longrightarrow> slice (pre @ enc_length n @ rest) \<Longrightarrow>
   read_length maximum (dec_at pre (enc_length n @ rest)) = Inr (n, dec_at (pre @ enc_length n) rest)"
  using read_length_loop_at [of 0 0 n maximum pre rest]
  by (simp add: read_length_def enc_length_def MAX_BODY_LENGTH_def)

lemma read_length_loop_atD:
  assumes "read_length_loop maximum i v (dec_at pre bs) = Inr (n, d)" "unat v < 128 ^ i"
  shows "\<exists>r rest. bs = uleb r @ rest \<and> d = dec_at (pre @ uleb r) rest \<and>
    n = unat v + 128 ^ i * r \<and> (i = 0 \<or> 0 < r) \<and> n \<le> maximum \<and> n < 2 ^ 32"
  using assms
proof (induction "5 - i" arbitrary: i v pre bs)
  case 0
  then show ?case
    by (subst (asm) read_length_loop.simps) (simp add: MAX_LENGTH_PREFIX_LENGTH_def)
next
  case (Suc k)
  then have i: "i < 5" by simp
  let ?v = "\<lambda>b. v OR push_bit (i * 7) (ucast ((b :: u8) AND 0x7f)) :: u32"
  from Suc.prems(1) i obtain b d1 where b: "read_u8 (dec_at pre bs) = Inr (b, d1)"
    and top: "\<not> (i = 4 \<and> b > 0x0f)"
    and small: "unat b < 128 \<Longrightarrow> canonical_length_prefix_len (?v b) = i + 1 \<and>
      unat (?v b) \<le> maximum \<and> n = unat (?v b) \<and> d = d1"
    and big: "\<not> unat b < 128 \<Longrightarrow> read_length_loop maximum (i + 1) (?v b) d1 = Inr (n, d)"
    by (subst (asm) read_length_loop.simps)
      (auto simp: MAX_LENGTH_PREFIX_LENGTH_def Let_def and_128_eq_0_iff split: if_splits)
  from read_u8_atD [OF b] obtain rest where rest: "bs = b # rest" "d1 = dec_at (pre @ [b]) rest"
    by blast
  note v = unat_digit_step [OF i Suc.prems(2) top]
  have bb: "word_of_nat (unat b) = b" by simp
  show ?case
  proof (cases "unat b < 128")
    case True
    from small [OF True] v True have len: "length (uleb (unat v + 128 ^ i * unat b)) = i + 1"
      and n: "n = unat v + 128 ^ i * unat b" "n \<le> maximum" "d = d1"
      by (simp_all add: canonical_length_prefix_len_uleb)
    have "i = 0 \<or> 0 < unat b"
      using len length_uleb_le [OF Suc.prems(2)] by (cases "unat b = 0"; cases "i = 0") auto
    moreover have "n < 2 ^ 32" using small [OF True] unat_less_pow [of "?v b"] by simp
    moreover have "uleb (unat b) = [b]" using True by (simp add: uleb_small)
    ultimately show ?thesis using n rest by (intro exI [of _ "unat b"] exI [of _ rest]) simp
  next
    case False
    from False unat_less_pow [of b] have b128: "unat b = 128 + unat b mod 128" by (simp add: le_mod_geq)
    let ?x = "unat b mod 128"
    have "unat (?v b) < 128 ^ (i + 1)"
      using digit_step_less [OF Suc.prems(2), of ?x] v by simp
    moreover have "k = 5 - (i + 1)" using Suc.hyps(2) by simp
    ultimately obtain r rest' where r: "rest = uleb r @ rest'" "d = dec_at ((pre @ [b]) @ uleb r) rest'"
      "n = unat (?v b) + 128 ^ (i + 1) * r" "0 < r" "n \<le> maximum" "n < 2 ^ 32"
      using Suc.hyps(1) [OF _ big [OF False, unfolded rest(2)]] by auto
    let ?r = "?x + 128 * r"
    from r(4) have "?r \<ge> 128" by simp
    then have "uleb ?r = b # uleb r" using b128 bb by (simp add: uleb_big)
    moreover have "n = unat v + 128 ^ i * ?r" using r(3) v by (simp add: algebra_simps)
    ultimately show ?thesis using r rest(1)
      by (intro exI [of _ ?r] exI [of _ rest']) simp
  qed
qed

lemma read_length_atD [codec_dests]:
  assumes "read_length maximum (dec_at pre bs) = Inr (n, d)"
  shows "n \<le> maximum \<and> n \<le> MAX_BODY_LENGTH \<and>
    (\<exists>rest. bs = enc_length n @ rest \<and> d = dec_at (pre @ enc_length n) rest)"
  using read_length_loop_atD [of maximum 0 0 pre bs n d] assms
  by (auto simp: read_length_def enc_length_def MAX_BODY_LENGTH_def)

lemma length_enc_length: "n \<le> MAX_BODY_LENGTH \<Longrightarrow> length (enc_length n) \<le> 5"
  unfolding enc_length_def MAX_BODY_LENGTH_def by (rule length_uleb_le) simp_all

lemma enc_length_small: "n < 128 \<Longrightarrow> enc_length n = [word_of_nat n]"
  by (simp add: enc_length_def uleb_small)

lemma enc_length_two: "n < 16384 \<Longrightarrow> length (enc_length n) \<le> 2"
  unfolding enc_length_def by (rule length_uleb_le) simp_all

section \<open>Contract instances for primitive, optional and repeated values\<close>

definition enc_bytes_prefixed :: "u8 list \<Rightarrow> u8 list" where
  "enc_bytes_prefixed v = enc_length (length v) @ v"

definition enc_option :: "('a \<Rightarrow> u8 list) \<Rightarrow> 'a option \<Rightarrow> u8 list" where
  "enc_option enc v = (case v of None \<Rightarrow> [0] | Some x \<Rightarrow> 1 # enc x)"

definition valid_option :: "('a \<Rightarrow> bool) \<Rightarrow> 'a option \<Rightarrow> bool" where
  "valid_option valid v = (case v of None \<Rightarrow> True | Some x \<Rightarrow> valid x)"

definition enc_each :: "('a \<Rightarrow> u8 list) \<Rightarrow> 'a list \<Rightarrow> u8 list" where
  "enc_each enc xs = concat (map enc xs)"

lemma enc_each_simps [simp]:
  "enc_each enc [] = []" "enc_each enc (x # xs) = enc x @ enc_each enc xs"
  by (simp_all add: enc_each_def)

lemma enc_option_simps [simp]:
  "enc_option enc None = [0]" "enc_option enc (Some x) = 1 # enc x"
  by (simp_all add: enc_option_def)

lemma valid_option_simps [simp]:
  "valid_option valid None" "valid_option valid (Some x) = valid x"
  by (simp_all add: valid_option_def)

interpretation u8: canonical_codec enc_u8 write_u8 read_u8 "\<lambda>_. True"
  by unfold_locales (auto simp: enc_u8_def codec_simps dest: codec_dests)

interpretation u16: canonical_codec enc_u16 write_u16 read_u16 "\<lambda>_. True"
  by (rule codec_of_word [of 2]) (simp_all add: enc_u16_def write_u16_def read_u16_def)

interpretation u32: canonical_codec enc_u32 write_u32 read_u32 "\<lambda>_. True"
  by (rule codec_of_word [of 4]) (simp_all add: enc_u32_def write_u32_def read_u32_def)

interpretation u64: canonical_codec enc_u64 write_u64 read_u64 "\<lambda>_. True"
  by (rule codec_of_word [of 8]) (simp_all add: enc_u64_def write_u64_def read_u64_def)

interpretation u128: canonical_codec enc_u128 write_u128 read_u128 "\<lambda>_. True"
  by (rule codec_of_word [of 16]) (simp_all add: enc_u128_def write_u128_def read_u128_def)

interpretation bool: canonical_codec enc_bool write_bool read_bool "\<lambda>_. True"
  by unfold_locales
    (auto simp: enc_bool_def write_bool_def read_bool_def codec_simps dest!: codec_dests
      split: if_splits)

context canonical_codec
begin

lemma option_codec:
  "canonical_codec (enc_option enc) (encode_option encode) (decode_option decode) (valid_option valid)"
proof
  fix v xs m
  assume "valid_option valid v" "length (xs @ enc_option enc v) \<le> m" "m \<le> usize_max"
  then show "encode_option encode v (enc_at m xs) = Inr (enc_at m (xs @ enc_option enc v))"
    using encode_at [of _ "xs @ [1]" m]
    by (cases v) (simp_all add: encode_option_def codec_simps)
next
  fix v xs m e
  assume "encode_option encode v (enc_at m xs) = Inr e"
  then show "e = enc_at m (xs @ enc_option enc v) \<and> length (xs @ enc_option enc v) \<le> m"
    by (cases v) (auto simp: encode_option_def dest!: codec_dests encode_atD)
next
  fix v pre rest
  assume "valid_option valid v" "slice (pre @ enc_option enc v @ rest)"
  then show "decode_option decode (dec_at pre (enc_option enc v @ rest)) =
      Inr (v, dec_at (pre @ enc_option enc v) rest)"
    using decode_at [of _ "pre @ [1]" rest]
    by (cases v) (simp_all add: decode_option_def codec_simps)
next
  fix pre bs v d
  assume "decode_option decode (dec_at pre bs) = Inr (v, d)"
  then show "valid_option valid v \<and>
      (\<exists>rest. bs = enc_option enc v @ rest \<and> d = dec_at (pre @ enc_option enc v) rest)"
    by (auto simp: decode_option_def dest!: codec_dests decode_atD split: if_splits)
qed

lemma encode_each_at:
  "list_all valid vs \<Longrightarrow> length (xs @ enc_each enc vs) \<le> m \<Longrightarrow> m \<le> usize_max \<Longrightarrow>
   encode_each encode vs (enc_at m xs) = Inr (enc_at m (xs @ enc_each enc vs))"
  by (induction vs arbitrary: xs) (simp_all add: encode_at)

lemma encode_each_atD:
  "encode_each encode vs (enc_at m xs) = Inr e \<Longrightarrow> length xs \<le> m \<Longrightarrow>
   e = enc_at m (xs @ enc_each enc vs) \<and> length (xs @ enc_each enc vs) \<le> m"
proof (induction vs arbitrary: xs)
  case (Cons v vs)
  from Cons.prems obtain e' where "encode v (enc_at m xs) = Inr e'"
    and rest: "encode_each encode vs e' = Inr e" by auto
  with encode_atD [of v m xs e'] Cons.prems
  have "e' = enc_at m (xs @ enc v)" "length (xs @ enc v) \<le> m" by auto
  with Cons.IH [of "xs @ enc v"] rest show ?case by simp
qed simp

lemma decode_each_at:
  "list_all valid vs \<Longrightarrow> slice (pre @ enc_each enc vs @ rest) \<Longrightarrow> n = length vs \<Longrightarrow>
   decode_each decode n (dec_at pre (enc_each enc vs @ rest)) =
     Inr (vs, dec_at (pre @ enc_each enc vs) rest)"
  by (induction vs arbitrary: pre n) (simp_all add: decode_at)

lemma decode_each_atD:
  "decode_each decode n (dec_at pre bs) = Inr (vs, d) \<Longrightarrow>
   list_all valid vs \<and> length vs = n \<and>
   (\<exists>rest. bs = enc_each enc vs @ rest \<and> d = dec_at (pre @ enc_each enc vs) rest)"
  by (induction n arbitrary: pre bs vs) (fastforce dest!: decode_atD)+

lemma option_encode_at:
  "valid_option valid v \<Longrightarrow> length (xs @ enc_option enc v) \<le> m \<Longrightarrow> m \<le> usize_max \<Longrightarrow>
   encode_option encode v (enc_at m xs) = Inr (enc_at m (xs @ enc_option enc v))"
  by (rule canonical_codec.encode_at [OF option_codec])

lemma option_decode_at:
  "valid_option valid v \<Longrightarrow> slice (pre @ enc_option enc v @ rest) \<Longrightarrow>
   decode_option decode (dec_at pre (enc_option enc v @ rest)) =
     Inr (v, dec_at (pre @ enc_option enc v) rest)"
  by (rule canonical_codec.decode_at [OF option_codec])

lemmas option_encode_atD = canonical_codec.encode_atD [OF option_codec]
lemmas option_decode_atD = canonical_codec.decode_atD [OF option_codec]

lemma vec_encode_at:
  "list_all valid vs \<Longrightarrow> length vs \<le> maximum \<Longrightarrow> maximum \<le> MAX_BODY_LENGTH \<Longrightarrow>
   length (xs @ enc_length (length vs) @ enc_each enc vs) \<le> m \<Longrightarrow> m \<le> usize_max \<Longrightarrow>
   encode_vec encode maximum vs (enc_at m xs) =
     Inr (enc_at m (xs @ enc_length (length vs) @ enc_each enc vs))"
  by (simp add: encode_vec_def write_length_at encode_each_at)

lemma vec_decode_at:
  "list_all valid vs \<Longrightarrow> length vs \<le> maximum \<Longrightarrow> maximum \<le> MAX_BODY_LENGTH \<Longrightarrow>
   slice (pre @ enc_length (length vs) @ enc_each enc vs @ rest) \<Longrightarrow>
   decode_vec decode maximum (dec_at pre (enc_length (length vs) @ enc_each enc vs @ rest)) =
     Inr (vs, dec_at (pre @ enc_length (length vs) @ enc_each enc vs) rest)"
  by (simp add: decode_vec_def read_length_at decode_each_at)

lemma vec_encode_atD:
  "encode_vec encode maximum vs (enc_at m xs) = Inr e \<Longrightarrow>
   e = enc_at m (xs @ enc_length (length vs) @ enc_each enc vs) \<and>
   length (xs @ enc_length (length vs) @ enc_each enc vs) \<le> m"
  by (auto simp: encode_vec_def dest!: write_length_atD encode_each_atD)

lemma vec_decode_atD:
  "decode_vec decode maximum (dec_at pre bs) = Inr (vs, d) \<Longrightarrow>
   list_all valid vs \<and> length vs \<le> maximum \<and>
   (\<exists>rest. bs = enc_length (length vs) @ enc_each enc vs @ rest \<and>
     d = dec_at (pre @ enc_length (length vs) @ enc_each enc vs) rest)"
  by (fastforce simp: decode_vec_def dest!: read_length_atD decode_each_atD)

lemmas laws = encode_at decode_at option_encode_at option_decode_at vec_encode_at vec_decode_at
lemmas inversions = encode_atD decode_atD option_encode_atD option_decode_atD
  vec_encode_atD vec_decode_atD

end

lemma write_bytes_at [codec_simps]:
  "length v \<le> maximum \<Longrightarrow> maximum \<le> MAX_BODY_LENGTH \<Longrightarrow>
   length (xs @ enc_bytes_prefixed v) \<le> m \<Longrightarrow> m \<le> usize_max \<Longrightarrow>
   write_bytes v maximum (enc_at m xs) = Inr (enc_at m (xs @ enc_bytes_prefixed v))"
  by (simp add: enc_bytes_prefixed_def write_bytes_def codec_simps)

lemma write_bytes_atD [codec_dests]:
  "write_bytes v maximum (enc_at m xs) = Inr e \<Longrightarrow>
   e = enc_at m (xs @ enc_bytes_prefixed v) \<and> length (xs @ enc_bytes_prefixed v) \<le> m \<and>
   length v \<le> maximum"
  by (auto simp: enc_bytes_prefixed_def write_bytes_def dest!: codec_dests)

lemma read_bytes_at [codec_simps]:
  "length v \<le> maximum \<Longrightarrow> maximum \<le> MAX_BODY_LENGTH \<Longrightarrow>
   slice (pre @ enc_bytes_prefixed v @ rest) \<Longrightarrow>
   read_bytes maximum (dec_at pre (enc_bytes_prefixed v @ rest)) =
     Inr (v, dec_at (pre @ enc_bytes_prefixed v) rest)"
  by (simp add: enc_bytes_prefixed_def read_bytes_def codec_simps)

lemma read_bytes_atD [codec_dests]:
  "read_bytes maximum (dec_at pre bs) = Inr (v, d) \<Longrightarrow>
   length v \<le> maximum \<and>
   (\<exists>rest. bs = enc_bytes_prefixed v @ rest \<and> d = dec_at (pre @ enc_bytes_prefixed v) rest)"
  by (auto simp: enc_bytes_prefixed_def read_bytes_def dest!: codec_dests)

lemma length_enc_bytes_prefixed:
  "length v \<le> MAX_BODY_LENGTH \<Longrightarrow> length (enc_bytes_prefixed v) \<le> 5 + length v"
  using length_enc_length [of "length v"] by (simp add: enc_bytes_prefixed_def)

lemma length_enc_option_le: "(\<And>x. length (enc x) \<le> k) \<Longrightarrow> length (enc_option enc v) \<le> Suc k"
  by (cases v) simp_all

lemma length_enc_each_le:
  "list_all valid vs \<Longrightarrow> (\<And>x. valid x \<Longrightarrow> length (enc x) \<le> k) \<Longrightarrow>
   length (enc_each enc vs) \<le> length vs * k"
  by (induction vs) (simp_all add: add_mono)

lemma length_enc_each_bounded:
  "length vs \<le> n \<Longrightarrow> (\<And>x. length (enc x) \<le> k) \<Longrightarrow> length (enc_each enc vs) \<le> n * k"
proof -
  assume "length vs \<le> n" and bound: "\<And>x. length (enc x) \<le> k"
  have "length (enc_each enc vs) \<le> length vs * k"
    by (rule length_enc_each_le [of "\<lambda>_. True"]) (simp_all add: list_all_iff bound)
  also have "\<dots> \<le> n * k" using \<open>length vs \<le> n\<close> by (rule mult_le_mono1)
  finally show ?thesis .
qed

lemma valid_option_True [simp]: "valid_option (\<lambda>_. True) v"
  by (cases v) simp_all

lemma list_all_True [simp]: "list_all (\<lambda>_. True) vs"
  by (simp add: list_all_iff)

section \<open>Envelopes\<close>

definition enc_envelope :: "u16 \<Rightarrow> u16 \<Rightarrow> u8 list \<Rightarrow> u8 list" where
  "enc_envelope tag version body =
     enc_u16 tag @ enc_u16 version @ enc_length (length body) @ body"

lemmas [codec_simps] = enc_u8_def u8.option_encode_at u8.option_decode_at u8.vec_encode_at
  u8.vec_decode_at u16.laws u32.laws u64.laws u128.laws bool.laws

lemmas [codec_dests] = u8.option_encode_atD u8.option_decode_atD u8.vec_encode_atD
  u8.vec_decode_atD u16.inversions u32.inversions u64.inversions u128.inversions bool.inversions

lemma inspect_envelope_at:
  assumes "length body \<le> maximum" "maximum \<le> MAX_BODY_LENGTH"
  shows "inspect_canonical_envelope (enc_envelope tag version body) tag version maximum =
    Inr \<lparr>env_type_tag = tag, env_schema_version = version, env_body = body\<rparr>"
proof -
  have "length (enc_envelope tag version body) \<le> 9 + MAX_BODY_LENGTH"
    using assms length_enc_length [of "length body"] by (simp add: enc_envelope_def)
  then have "slice (enc_envelope tag version body)"
    by (simp add: slice_def usize_max_def MAX_BODY_LENGTH_def)
  moreover have "decoder_finish (dec_at (enc_u16 tag @ enc_u16 version @ enc_length (length body) @ body) []) = Inr ()"
    by simp
  ultimately show ?thesis
    using assms u16.decode_at [of "[]" tag "enc_u16 version @ enc_length (length body) @ body"]
      read_raw_at [of _ body "[]" "length body"]
    by (simp add: inspect_canonical_envelope_def enc_envelope_def decoder_new_at codec_simps)
qed

lemma inspect_envelope_atD:
  assumes "inspect_canonical_envelope input tag version maximum = Inr envelope"
  shows "input = enc_envelope tag version (env_body envelope) \<and>
    length (env_body envelope) \<le> maximum \<and> length (env_body envelope) \<le> MAX_BODY_LENGTH \<and>
    env_type_tag envelope = tag \<and> env_schema_version envelope = version"
  using assms
  by (auto simp: inspect_canonical_envelope_def enc_envelope_def decoder_new_at
      dest!: codec_dests split: if_splits)

locale canonical_envelope = canonical_codec enc "ct_encode T" "ct_decode T" valid
  for enc :: "'a \<Rightarrow> u8 list" and T :: "'a canonical_type" and valid :: "'a \<Rightarrow> bool" +
  assumes max_encoded_len_le: "ct_max_encoded_len T \<le> MAX_BODY_LENGTH"
begin

abbreviation envelope :: "'a \<Rightarrow> u8 list" where
  "envelope v \<equiv> enc_envelope (ct_type_tag T) (ct_schema_version T) (enc v)"

lemma max_le_usize: "ct_max_encoded_len T + 9 \<le> usize_max"
  using max_encoded_len_le by (simp add: usize_max_def MAX_BODY_LENGTH_def)

lemma encode_body_fits:
  "valid v \<Longrightarrow> length (enc v) \<le> ct_max_encoded_len T \<Longrightarrow> encode_body T v = Inr (enc v)"
  using encode_at [of v "[]" "ct_max_encoded_len T"] max_encoded_len_le max_le_usize
  by (simp add: encode_body_def encoder_new_at)

lemma encode_bodyD:
  "encode_body T v = Inr body \<Longrightarrow> body = enc v \<and> length (enc v) \<le> ct_max_encoded_len T"
  by (auto simp: encode_body_def encoder_new_at dest!: encode_atD)

lemma encode_envelope_fits:
  assumes "valid v" "length (enc v) \<le> ct_max_encoded_len T"
  shows "encode_envelope T v = Inr (envelope v)"
proof -
  have "length (enc v) \<le> MAX_BODY_LENGTH" using assms(2) max_encoded_len_le by simp
  with assms show ?thesis
    using max_le_usize length_enc_length [of "length (enc v)"]
    by (simp add: encode_envelope_def encode_body_fits checked_add_usize_def encoder_new_at
        TYPE_TAG_LENGTH_def SCHEMA_VERSION_LENGTH_def MAX_LENGTH_PREFIX_LENGTH_def
        enc_envelope_def u16.encode_at [where xs = "[]", simplified] codec_simps)
qed

lemma encode_envelopeD:
  "encode_envelope T v = Inr bs \<Longrightarrow> bs = envelope v \<and> length (enc v) \<le> ct_max_encoded_len T"
  by (auto simp: encode_envelope_def encoder_new_at enc_envelope_def
      dest!: encode_bodyD codec_dests)

lemma envelope_roundtrip:
  assumes "valid v" "encode_envelope T v = Inr bs"
  shows "decode_envelope T bs = Inr v"
proof -
  from encode_envelopeD [OF assms(2)] have bs: "bs = envelope v"
    and len: "length (enc v) \<le> ct_max_encoded_len T" by simp_all
  have "slice (enc v)" using len max_le_usize by (simp add: slice_def)
  with decode_at [OF assms(1), of "[]" "[]"]
  have "ct_decode T (decoder_new (enc v)) = Inr (v, dec_at (enc v) [])"
    by (simp add: decoder_new_at)
  moreover have "decoder_finish (dec_at (enc v) []) = Inr ()" by simp
  ultimately show ?thesis
    using len max_encoded_len_le by (simp add: decode_envelope_def bs inspect_envelope_at)
qed

lemma envelope_canonical:
  assumes "decode_envelope T bs = Inr v"
  shows "valid v \<and> encode_envelope T v = Inr bs"
proof -
  from assms obtain env d where
    env: "inspect_canonical_envelope bs (ct_type_tag T) (ct_schema_version T) (ct_max_encoded_len T) = Inr env"
    and dec: "ct_decode T (dec_at [] (env_body env)) = Inr (v, d)"
    and fin: "decoder_finish d = Inr ()"
    by (auto simp: decode_envelope_def decoder_new_at)
  from decode_atD [OF dec] fin have "valid v" and body: "env_body env = enc v" by auto
  from inspect_envelope_atD [OF env] body
  have "bs = envelope v" "length (enc v) \<le> ct_max_encoded_len T" by simp_all
  with \<open>valid v\<close> show ?thesis by (simp add: encode_envelope_fits)
qed

lemma envelope_unique:
  "decode_envelope T bs = Inr v \<Longrightarrow> decode_envelope T bs' = Inr v \<Longrightarrow> bs = bs'"
  by (metis envelope_canonical sum.inject(2))

lemma envelope_injective:
  "valid v \<Longrightarrow> valid w \<Longrightarrow> encode_envelope T v = Inr bs \<Longrightarrow> encode_envelope T w = Inr bs \<Longrightarrow> v = w"
  by (metis envelope_roundtrip sum.inject(2))

end

locale bounded_envelope = canonical_envelope +
  assumes encoded_len_bound: "valid v \<Longrightarrow> length (enc v) \<le> ct_max_encoded_len T"
begin

lemma encode_envelope_total: "valid v \<Longrightarrow> encode_envelope T v = Inr (envelope v)"
  by (simp add: encode_envelope_fits encoded_len_bound)

lemma encode_body_total: "valid v \<Longrightarrow> encode_body T v = Inr (enc v)"
  by (simp add: encode_body_fits encoded_len_bound)

lemma decode_envelope_iff:
  "decode_envelope T bs = Inr v \<longleftrightarrow> valid v \<and> bs = envelope v"
  using envelope_canonical envelope_roundtrip encode_envelope_total by fastforce

end

end
