(* ===== verification/Protocol_Types.thy ===== *)
theory Protocol_Types
  imports Codec_Laws
begin

text \<open>
  The base values of \<^verbatim>\<open>protocol-types/src/lib.rs\<close>: digests, the identifier newtypes,
  the type-tag ranges, and \<^verbatim>\<open>Principal\<close> with its two enumerations.

  A 48-byte digest is the 384-bit word its bytes denote in big-endian order: the array
  comparison the code derives is then the order of words (\<^verbatim>\<open>digest_less_iff\<close>), and every
  digest is a legal value, as it is in the code.  The newtypes that one macro generates are
  one type with a phantom tag, so that two kinds of identifier are still different types.
\<close>

section \<open>Type tags\<close>

definition V1_TYPE_TAG_MIN :: u16 where "V1_TYPE_TAG_MIN = 0x0020"
definition V1_LEGACY_TYPE_TAG_MAX :: u16 where "V1_LEGACY_TYPE_TAG_MAX = 0x00D9"
definition RESERVED_V11_TYPE_TAG_START :: u16 where "RESERVED_V11_TYPE_TAG_START = 0x00E0"
definition RESERVED_V11_TYPE_TAG_END :: u16 where "RESERVED_V11_TYPE_TAG_END = 0x00EF"
definition RESERVED_V12_TYPE_TAG_START :: u16 where "RESERVED_V12_TYPE_TAG_START = 0x00F0"
definition RESERVED_V12_TYPE_TAG_END :: u16 where "RESERVED_V12_TYPE_TAG_END = 0x00FF"
definition V1_EXTENDED_TYPE_TAG_MIN :: u16 where "V1_EXTENDED_TYPE_TAG_MIN = 0x0100"
definition V1_TYPE_TAG_MAX :: u16 where "V1_TYPE_TAG_MAX = 0x01FF"

definition is_v1_type_tag :: "u16 \<Rightarrow> bool" where
  "is_v1_type_tag tag \<longleftrightarrow>
     (tag \<ge> V1_TYPE_TAG_MIN \<and> tag \<le> V1_LEGACY_TYPE_TAG_MAX)
     \<or> (tag \<ge> V1_EXTENDED_TYPE_TAG_MIN \<and> tag \<le> V1_TYPE_TAG_MAX)"

definition is_reserved_future_type_tag :: "u16 \<Rightarrow> bool" where
  "is_reserved_future_type_tag tag \<longleftrightarrow>
     (tag \<ge> RESERVED_V11_TYPE_TAG_START \<and> tag \<le> RESERVED_V11_TYPE_TAG_END)
     \<or> (tag \<ge> RESERVED_V12_TYPE_TAG_START \<and> tag \<le> RESERVED_V12_TYPE_TAG_END)"

lemmas type_tag_defs = V1_TYPE_TAG_MIN_def V1_LEGACY_TYPE_TAG_MAX_def
  RESERVED_V11_TYPE_TAG_START_def RESERVED_V11_TYPE_TAG_END_def
  RESERVED_V12_TYPE_TAG_START_def RESERVED_V12_TYPE_TAG_END_def
  V1_EXTENDED_TYPE_TAG_MIN_def V1_TYPE_TAG_MAX_def
  is_v1_type_tag_def is_reserved_future_type_tag_def

lemma reserved_tags_disjoint: "\<not> (is_v1_type_tag tag \<and> is_reserved_future_type_tag tag)"
  by (auto simp: type_tag_defs word_le_nat_alt)

section \<open>Digests and identifiers\<close>

definition DIGEST_LENGTH :: usize where "DIGEST_LENGTH = 48"

type_synonym Digest384 = "384 word"

definition as_bytes :: "Digest384 \<Rightarrow> u8 list" where
  "as_bytes d = to_be_bytes DIGEST_LENGTH (unat d)"

definition digest_new :: "u8 list \<Rightarrow> Digest384" where
  "digest_new bytes = word_of_nat (from_be_bytes bytes)"

definition ZERO :: Digest384 where "ZERO = 0"

definition encode_Digest384 :: "Digest384 \<Rightarrow> encoder \<Rightarrow> encode_error + encoder" where
  "encode_Digest384 v e = write_raw (as_bytes v) e"

definition decode_Digest384 :: "decoder \<Rightarrow> decode_error + (Digest384 \<times> decoder)" where
  "decode_Digest384 d = and_then (read_array DIGEST_LENGTH d) (\<lambda>(bytes, d). Inr (digest_new bytes, d))"

datatype 'tag typed_id = TypedId (into_digest: Digest384)

instantiation typed_id :: (type) linorder
begin

definition less_eq_typed_id :: "'a typed_id \<Rightarrow> 'a typed_id \<Rightarrow> bool" where
  "a \<le> b \<longleftrightarrow> into_digest a \<le> into_digest b"

definition less_typed_id :: "'a typed_id \<Rightarrow> 'a typed_id \<Rightarrow> bool" where
  "a < b \<longleftrightarrow> into_digest a < into_digest b"

instance
  by standard (auto simp: less_eq_typed_id_def less_typed_id_def typed_id.expand)

end

datatype object_tag = Object_Tag
datatype principal_tag = Principal_Tag
datatype authenticator_tag = Authenticator_Tag
datatype action_tag = Action_Tag
datatype capability_tag = Capability_Tag
datatype credential_tag = Credential_Tag
datatype package_tag = Package_Tag
datatype transaction_tag = Transaction_Tag
datatype chain_tag = Chain_Tag
datatype asset_tag = Asset_Tag
datatype coin_cell_tag = Coin_Cell_Tag
datatype job_tag = Job_Tag
datatype coin_cell_set_root_tag = Coin_Cell_Set_Root_Tag
datatype supply_root_tag = Supply_Root_Tag
datatype genesis_allocation_root_tag = Genesis_Allocation_Root_Tag

type_synonym ObjectId = "object_tag typed_id"
type_synonym PrincipalId = "principal_tag typed_id"
type_synonym AuthenticatorId = "authenticator_tag typed_id"
type_synonym ActionId = "action_tag typed_id"
type_synonym CapabilityId = "capability_tag typed_id"
type_synonym CredentialId = "credential_tag typed_id"
type_synonym PackageId = "package_tag typed_id"
type_synonym TransactionId = "transaction_tag typed_id"
type_synonym ChainId = "chain_tag typed_id"
type_synonym AssetId = "asset_tag typed_id"
type_synonym CoinCellId = "coin_cell_tag typed_id"
type_synonym JobId = "job_tag typed_id"
type_synonym CoinCellSetRoot = "coin_cell_set_root_tag typed_id"
type_synonym SupplyRoot = "supply_root_tag typed_id"
type_synonym GenesisAllocationRoot = "genesis_allocation_root_tag typed_id"

type_synonym Height = u64
type_synonym Epoch = u64
type_synonym Amount = u128
type_synonym ResourceUnits = u128
type_synonym Timestamp = u64

definition encode_typed_id :: "'tag typed_id \<Rightarrow> encoder \<Rightarrow> encode_error + encoder" where
  "encode_typed_id v e = encode_Digest384 (into_digest v) e"

definition decode_typed_id :: "decoder \<Rightarrow> decode_error + ('tag typed_id \<times> decoder)" where
  "decode_typed_id d = and_then (decode_Digest384 d) (\<lambda>(v, d). Inr (TypedId v, d))"

section \<open>Principals\<close>

datatype PrincipalKind = Human | Organization | Device | Service | Agent | Pseudonym

fun PrincipalKind_tag :: "PrincipalKind \<Rightarrow> u8" where
  "PrincipalKind_tag Human = 0"
| "PrincipalKind_tag Organization = 1"
| "PrincipalKind_tag Device = 2"
| "PrincipalKind_tag Service = 3"
| "PrincipalKind_tag Agent = 4"
| "PrincipalKind_tag Pseudonym = 5"

definition encode_PrincipalKind :: "PrincipalKind \<Rightarrow> encoder \<Rightarrow> encode_error + encoder" where
  "encode_PrincipalKind v e = write_u8 (PrincipalKind_tag v) e"

definition decode_PrincipalKind :: "decoder \<Rightarrow> decode_error + (PrincipalKind \<times> decoder)" where
  "decode_PrincipalKind d = and_then (read_u8 d) (\<lambda>(tag, d).
     if tag = 0 then Inr (Human, d)
     else if tag = 1 then Inr (Organization, d)
     else if tag = 2 then Inr (Device, d)
     else if tag = 3 then Inr (Service, d)
     else if tag = 4 then Inr (Agent, d)
     else if tag = 5 then Inr (Pseudonym, d)
     else Inl (InvalidEnumTag ''PrincipalKind'' tag))"

datatype FreezeState = Active | RecoveryPending | Frozen

fun FreezeState_tag :: "FreezeState \<Rightarrow> u8" where
  "FreezeState_tag Active = 0"
| "FreezeState_tag RecoveryPending = 1"
| "FreezeState_tag Frozen = 2"

definition encode_FreezeState :: "FreezeState \<Rightarrow> encoder \<Rightarrow> encode_error + encoder" where
  "encode_FreezeState v e = write_u8 (FreezeState_tag v) e"

definition decode_FreezeState :: "decoder \<Rightarrow> decode_error + (FreezeState \<times> decoder)" where
  "decode_FreezeState d = and_then (read_u8 d) (\<lambda>(tag, d).
     if tag = 0 then Inr (Active, d)
     else if tag = 1 then Inr (RecoveryPending, d)
     else if tag = 2 then Inr (Frozen, d)
     else Inl (InvalidEnumTag ''FreezeState'' tag))"

datatype ValidationError = UpdatePredatesCreation

record Principal =
  principal_id :: PrincipalId
  principal_kind :: PrincipalKind
  controller_policy_hash :: Digest384
  recovery_policy_hash :: Digest384
  authenticator_set_root :: Digest384
  principal_sequence :: u64
  freeze_state :: FreezeState
  metadata_commitment :: Digest384
  anchor_deposit :: Amount
  created_at :: Height
  last_updated_at :: Height

text \<open>The constructor checks the fields of a candidate value and returns it unchanged.\<close>

definition Principal_new :: "Principal \<Rightarrow> ValidationError + Principal" where
  "Principal_new p =
     (if last_updated_at p < created_at p then Inl UpdatePredatesCreation else Inr p)"

definition encode_Principal :: "Principal \<Rightarrow> encoder \<Rightarrow> encode_error + encoder" where
  "encode_Principal p e =
     and_then (encode_typed_id (principal_id p) e) (\<lambda>e.
     and_then (encode_PrincipalKind (principal_kind p) e) (\<lambda>e.
     and_then (encode_Digest384 (controller_policy_hash p) e) (\<lambda>e.
     and_then (encode_Digest384 (recovery_policy_hash p) e) (\<lambda>e.
     and_then (encode_Digest384 (authenticator_set_root p) e) (\<lambda>e.
     and_then (write_u64 (principal_sequence p) e) (\<lambda>e.
     and_then (encode_FreezeState (freeze_state p) e) (\<lambda>e.
     and_then (encode_Digest384 (metadata_commitment p) e) (\<lambda>e.
     and_then (write_u128 (anchor_deposit p) e) (\<lambda>e.
     and_then (write_u64 (created_at p) e) (\<lambda>e.
     write_u64 (last_updated_at p) e))))))))))"

definition decode_Principal :: "decoder \<Rightarrow> decode_error + (Principal \<times> decoder)" where
  "decode_Principal d =
     and_then (decode_typed_id d) (\<lambda>(pid, d).
     and_then (decode_PrincipalKind d) (\<lambda>(kind, d).
     and_then (decode_Digest384 d) (\<lambda>(controller, d).
     and_then (decode_Digest384 d) (\<lambda>(recovery, d).
     and_then (decode_Digest384 d) (\<lambda>(authenticators, d).
     and_then (read_u64 d) (\<lambda>(sequence, d).
     and_then (decode_FreezeState d) (\<lambda>(freeze, d).
     and_then (decode_Digest384 d) (\<lambda>(metadata, d).
     and_then (read_u128 d) (\<lambda>(deposit, d).
     and_then (read_u64 d) (\<lambda>(created, d).
     and_then (read_u64 d) (\<lambda>(updated, d).
     and_then (map_err (\<lambda>_. InvalidValue ''last_updated_at predates created_at'')
       (Principal_new \<lparr>principal_id = pid, principal_kind = kind,
          controller_policy_hash = controller, recovery_policy_hash = recovery,
          authenticator_set_root = authenticators, principal_sequence = sequence,
          freeze_state = freeze, metadata_commitment = metadata, anchor_deposit = deposit,
          created_at = created, last_updated_at = updated\<rparr>))
       (\<lambda>p. Inr (p, d)))))))))))))"

definition Principal_ENCODED_LENGTH :: usize where "Principal_ENCODED_LENGTH = 282"

definition Principal_type :: "Principal canonical_type" where
  "Principal_type = \<lparr>ct_encode = encode_Principal, ct_decode = decode_Principal,
     ct_type_tag = 0x0020, ct_schema_version = 1,
     ct_max_encoded_len = Principal_ENCODED_LENGTH\<rparr>"

section \<open>Wire formats\<close>

definition enc_Digest384 :: "Digest384 \<Rightarrow> u8 list" where "enc_Digest384 = as_bytes"

definition enc_typed_id :: "'tag typed_id \<Rightarrow> u8 list" where
  "enc_typed_id v = enc_Digest384 (into_digest v)"

definition enc_PrincipalKind :: "PrincipalKind \<Rightarrow> u8 list" where
  "enc_PrincipalKind v = [PrincipalKind_tag v]"

definition enc_FreezeState :: "FreezeState \<Rightarrow> u8 list" where
  "enc_FreezeState v = [FreezeState_tag v]"

definition enc_Principal :: "Principal \<Rightarrow> u8 list" where
  "enc_Principal p = enc_typed_id (principal_id p) @ enc_PrincipalKind (principal_kind p)
     @ enc_Digest384 (controller_policy_hash p) @ enc_Digest384 (recovery_policy_hash p)
     @ enc_Digest384 (authenticator_set_root p) @ enc_u64 (principal_sequence p)
     @ enc_FreezeState (freeze_state p) @ enc_Digest384 (metadata_commitment p)
     @ enc_u128 (anchor_deposit p) @ enc_u64 (created_at p) @ enc_u64 (last_updated_at p)"

definition valid_Principal :: "Principal \<Rightarrow> bool" where
  "valid_Principal p \<longleftrightarrow> Principal_new p = Inr p"

lemma valid_Principal_iff: "valid_Principal p \<longleftrightarrow> created_at p \<le> last_updated_at p"
  by (auto simp: valid_Principal_def Principal_new_def)

section \<open>Digest and identifier laws\<close>

lemma length_as_bytes [simp]: "length (as_bytes d) = 48"
  by (simp add: as_bytes_def DIGEST_LENGTH_def)

lemma digest_new_as_bytes [simp]: "digest_new (as_bytes d) = d"
  using unat_less_pow [of d]
  by (simp add: digest_new_def as_bytes_def DIGEST_LENGTH_def from_to_be_bytes)

lemma as_bytes_digest_new: "length bytes = 48 \<Longrightarrow> as_bytes (digest_new bytes) = bytes"
  using from_be_bytes_bound [of bytes] to_from_be_bytes [of bytes]
  by (simp add: digest_new_def as_bytes_def DIGEST_LENGTH_def unat_of_nat)

lemma as_bytes_inject [simp]: "as_bytes a = as_bytes b \<longleftrightarrow> a = b"
  by (metis digest_new_as_bytes)

lemma from_be_bytes_Cons:
  "from_be_bytes (b # bs) = unat b * 256 ^ length bs + from_be_bytes bs"
proof (induction bs rule: rev_induct)
  case (snoc c bs)
  then show ?case
    using from_be_bytes_snoc [of "b # bs" c] from_be_bytes_snoc [of bs c]
    by (simp add: algebra_simps)
qed (use from_be_bytes_snoc [of "[]" b] in simp)

lemma from_be_bytes_less_iff:
  "length as = length bs \<Longrightarrow> from_be_bytes as < from_be_bytes bs \<longleftrightarrow> as < bs"
proof (induction as bs rule: list_induct2)
  case (Cons a as b bs)
  let ?k = "(256 :: nat) ^ length bs"
  have bounds: "from_be_bytes as < ?k" "from_be_bytes bs < ?k"
    using from_be_bytes_bound [of as] from_be_bytes_bound [of bs] Cons.hyps by simp_all
  have step: "x * ?k + from_be_bytes cs < y * ?k + from_be_bytes ds"
    if "x < y" "from_be_bytes cs < ?k" for x y cs ds
  proof -
    have "(x + 1) * ?k \<le> y * ?k" using that(1) by (intro mult_right_mono) simp_all
    then show ?thesis using that(2) by simp
  qed
  consider "a < b" | "a = b" | "b < a" by fastforce
  then show ?case
  proof cases
    case 1
    then show ?thesis
      using step [of "unat a" "unat b" as bs] bounds Cons.hyps
      by (simp add: from_be_bytes_Cons word_less_nat_alt)
  next
    case 2
    then show ?thesis using Cons by (simp add: from_be_bytes_Cons)
  next
    case 3
    then show ?thesis
      using step [of "unat b" "unat a" bs as] bounds Cons.hyps
      by (auto simp: from_be_bytes_Cons word_less_nat_alt)
  qed
qed simp

lemma digest_less_iff: "(a :: Digest384) < b \<longleftrightarrow> as_bytes a < as_bytes b"
  using from_be_bytes_less_iff [of "as_bytes a" "as_bytes b"] unat_less_pow [of a] unat_less_pow [of b]
  by (simp add: as_bytes_def DIGEST_LENGTH_def from_to_be_bytes word_less_nat_alt)

lemma enc_lengths [simp]:
  "length (enc_Digest384 d) = 48" "length (enc_typed_id i) = 48"
  "length (enc_PrincipalKind k) = 1" "length (enc_FreezeState f) = 1"
  by (simp_all add: enc_Digest384_def enc_typed_id_def enc_PrincipalKind_def enc_FreezeState_def)

interpretation digest: canonical_codec enc_Digest384 encode_Digest384 decode_Digest384 "\<lambda>_. True"
  by unfold_locales
    (auto simp: enc_Digest384_def encode_Digest384_def decode_Digest384_def read_array_def
      DIGEST_LENGTH_def as_bytes_digest_new codec_simps dest!: codec_dests)

lemmas [codec_simps] = digest.laws
lemmas [codec_dests] = digest.inversions

interpretation typed_id: canonical_codec enc_typed_id encode_typed_id decode_typed_id
    "\<lambda>_. True"
  by unfold_locales
    (auto simp: enc_typed_id_def encode_typed_id_def decode_typed_id_def codec_simps
      dest!: codec_dests)

lemmas [codec_simps] = typed_id.laws
lemmas [codec_dests] = typed_id.inversions

interpretation principal_kind: canonical_codec enc_PrincipalKind encode_PrincipalKind
    decode_PrincipalKind "\<lambda>_. True"
proof
  fix v pre rest
  assume "slice (pre @ enc_PrincipalKind v @ rest)"
  then show "decode_PrincipalKind (dec_at pre (enc_PrincipalKind v @ rest)) =
      Inr (v, dec_at (pre @ enc_PrincipalKind v) rest)"
    by (cases v) (simp_all add: enc_PrincipalKind_def decode_PrincipalKind_def codec_simps)
qed (auto simp: enc_PrincipalKind_def encode_PrincipalKind_def decode_PrincipalKind_def codec_simps
    dest!: codec_dests split: if_splits)

lemmas [codec_simps] = principal_kind.laws
lemmas [codec_dests] = principal_kind.inversions

interpretation freeze_state: canonical_codec enc_FreezeState encode_FreezeState
    decode_FreezeState "\<lambda>_. True"
proof
  fix v pre rest
  assume "slice (pre @ enc_FreezeState v @ rest)"
  then show "decode_FreezeState (dec_at pre (enc_FreezeState v @ rest)) =
      Inr (v, dec_at (pre @ enc_FreezeState v) rest)"
    by (cases v) (simp_all add: enc_FreezeState_def decode_FreezeState_def codec_simps)
qed (auto simp: enc_FreezeState_def encode_FreezeState_def decode_FreezeState_def codec_simps
    dest!: codec_dests split: if_splits)

lemmas [codec_simps] = freeze_state.laws
lemmas [codec_dests] = freeze_state.inversions

interpretation principal: bounded_envelope enc_Principal Principal_type valid_Principal
  by unfold_locales
    (auto simp: Principal_type_def enc_Principal_def encode_Principal_def decode_Principal_def
      valid_Principal_iff Principal_new_def Principal_ENCODED_LENGTH_def MAX_BODY_LENGTH_def
      codec_simps not_less dest!: codec_dests split: if_splits)

end
