(* ===== verification/Crypto.thy ===== *)
theory Crypto
  imports Protocol_Types
begin

text \<open>
  \<^verbatim>\<open>protocol-types/src/crypto.rs\<close>: the registry of cryptographic suites, suite-tagged
  signatures, authenticator descriptors and the ordered authenticator set a principal commits
  to.  SHAKE256 is outside the repository: the functions that hash take the digest of a byte
  string as the parameter \<^verbatim>\<open>shake256\<close>.
\<close>

section \<open>Suites and signatures\<close>

definition MAX_VERIFICATION_KEY_LENGTH :: usize where "MAX_VERIFICATION_KEY_LENGTH = 4096"
definition MAX_SIGNATURE_LENGTH :: usize where "MAX_SIGNATURE_LENGTH = 20000"
definition MAX_PRINCIPAL_AUTHENTICATORS :: usize where "MAX_PRINCIPAL_AUTHENTICATORS = 8"

datatype CryptoFamily = MlDsa | SlhDsaShake | MlKem | Shake

fun CryptoFamily_tag :: "CryptoFamily \<Rightarrow> u8" where
  "CryptoFamily_tag MlDsa = 1"
| "CryptoFamily_tag SlhDsaShake = 2"
| "CryptoFamily_tag MlKem = 3"
| "CryptoFamily_tag Shake = 4"

definition encode_CryptoFamily :: "CryptoFamily \<Rightarrow> encoder \<Rightarrow> encode_error + encoder" where
  "encode_CryptoFamily v e = write_u8 (CryptoFamily_tag v) e"

definition decode_CryptoFamily :: "decoder \<Rightarrow> decode_error + (CryptoFamily \<times> decoder)" where
  "decode_CryptoFamily d = and_then (read_u8 d) (\<lambda>(tag, d).
     if tag = 1 then Inr (MlDsa, d)
     else if tag = 2 then Inr (SlhDsaShake, d)
     else if tag = 3 then Inr (MlKem, d)
     else if tag = 4 then Inr (Shake, d)
     else Inl (InvalidEnumTag ''CryptoFamily'' tag))"

record CryptoSuiteId =
  family :: CryptoFamily
  parameter_set :: u16
  encoding_version :: u16
  security_profile :: u8

definition ML_DSA_44 :: CryptoSuiteId where
  "ML_DSA_44 = \<lparr>family = MlDsa, parameter_set = 44, encoding_version = 1, security_profile = 2\<rparr>"
definition ML_DSA_65 :: CryptoSuiteId where
  "ML_DSA_65 = \<lparr>family = MlDsa, parameter_set = 65, encoding_version = 1, security_profile = 3\<rparr>"
definition ML_DSA_87 :: CryptoSuiteId where
  "ML_DSA_87 = \<lparr>family = MlDsa, parameter_set = 87, encoding_version = 1, security_profile = 5\<rparr>"
definition SLH_DSA_SHAKE_192S :: CryptoSuiteId where
  "SLH_DSA_SHAKE_192S =
     \<lparr>family = SlhDsaShake, parameter_set = 0x0192, encoding_version = 1, security_profile = 3\<rparr>"
definition ML_KEM_768 :: CryptoSuiteId where
  "ML_KEM_768 = \<lparr>family = MlKem, parameter_set = 768, encoding_version = 1, security_profile = 3\<rparr>"
definition SHAKE256_384 :: CryptoSuiteId where
  "SHAKE256_384 = \<lparr>family = Shake, parameter_set = 384, encoding_version = 1, security_profile = 5\<rparr>"

lemmas suite_defs = ML_DSA_44_def ML_DSA_65_def ML_DSA_87_def SLH_DSA_SHAKE_192S_def
  ML_KEM_768_def SHAKE256_384_def

datatype CryptoSuiteError = UnregisteredSuite | NonPostQuantumSuite

definition from_parts :: "CryptoFamily \<Rightarrow> u16 \<Rightarrow> u16 \<Rightarrow> u8 \<Rightarrow> CryptoSuiteError + CryptoSuiteId" where
  "from_parts fam params version profile =
     (let candidate = \<lparr>family = fam, parameter_set = params, encoding_version = version,
        security_profile = profile\<rparr> in
      if candidate \<in> set [ML_DSA_44, ML_DSA_65, ML_DSA_87, SLH_DSA_SHAKE_192S, ML_KEM_768, SHAKE256_384]
      then Inr candidate else Inl UnregisteredSuite)"

definition verification_key_length :: "CryptoSuiteId \<Rightarrow> usize option" where
  "verification_key_length s =
     (if s = ML_DSA_44 then Some 1312
      else if s = ML_DSA_65 then Some 1952
      else if s = ML_DSA_87 then Some 2592
      else if s = SLH_DSA_SHAKE_192S then Some 48
      else None)"

definition signature_length :: "CryptoSuiteId \<Rightarrow> usize option" where
  "signature_length s =
     (if s = ML_DSA_44 then Some 2420
      else if s = ML_DSA_65 then Some 3309
      else if s = ML_DSA_87 then Some 4627
      else if s = SLH_DSA_SHAKE_192S then Some 16224
      else None)"

definition is_post_quantum :: "CryptoSuiteId \<Rightarrow> bool" where
  "is_post_quantum s \<longleftrightarrow> family s \<in> {MlDsa, SlhDsaShake, MlKem, Shake}"

definition require_post_quantum :: "CryptoSuiteId \<Rightarrow> CryptoSuiteError + CryptoSuiteId" where
  "require_post_quantum s = (if is_post_quantum s then Inr s else Inl NonPostQuantumSuite)"

definition encode_CryptoSuiteId :: "CryptoSuiteId \<Rightarrow> encoder \<Rightarrow> encode_error + encoder" where
  "encode_CryptoSuiteId s e =
     and_then (encode_CryptoFamily (family s) e) (\<lambda>e.
     and_then (write_u16 (parameter_set s) e) (\<lambda>e.
     and_then (write_u16 (encoding_version s) e) (\<lambda>e.
     write_u8 (security_profile s) e)))"

definition decode_CryptoSuiteId :: "decoder \<Rightarrow> decode_error + (CryptoSuiteId \<times> decoder)" where
  "decode_CryptoSuiteId d =
     and_then (decode_CryptoFamily d) (\<lambda>(fam, d).
     and_then (read_u16 d) (\<lambda>(params, d).
     and_then (read_u16 d) (\<lambda>(version, d).
     and_then (read_u8 d) (\<lambda>(profile, d).
     and_then (map_err (\<lambda>_. InvalidValue ''unregistered cryptographic suite'')
       (from_parts fam params version profile)) (\<lambda>s. Inr (s, d))))))"

record ProtocolSignature =
  sig_suite :: CryptoSuiteId
  sig_bytes :: "u8 list"

datatype SignatureError = SuiteDoesNotSign | InvalidLength usize usize

definition ProtocolSignature_new :: "CryptoSuiteId \<Rightarrow> u8 list \<Rightarrow> SignatureError + ProtocolSignature" where
  "ProtocolSignature_new suite bytes =
     (case signature_length suite of
        None \<Rightarrow> Inl SuiteDoesNotSign
      | Some expected \<Rightarrow>
          if length bytes \<noteq> expected then Inl (InvalidLength expected (length bytes))
          else Inr \<lparr>sig_suite = suite, sig_bytes = bytes\<rparr>)"

definition encode_ProtocolSignature :: "ProtocolSignature \<Rightarrow> encoder \<Rightarrow> encode_error + encoder" where
  "encode_ProtocolSignature s e =
     and_then (encode_CryptoSuiteId (sig_suite s) e) (\<lambda>e.
     write_bytes (sig_bytes s) MAX_SIGNATURE_LENGTH e)"

definition decode_ProtocolSignature :: "decoder \<Rightarrow> decode_error + (ProtocolSignature \<times> decoder)" where
  "decode_ProtocolSignature d =
     and_then (decode_CryptoSuiteId d) (\<lambda>(suite, d).
     and_then (read_bytes MAX_SIGNATURE_LENGTH d) (\<lambda>(bytes, d).
     and_then (map_err (\<lambda>error. case error of
          SuiteDoesNotSign \<Rightarrow> InvalidValue ''signature uses a non-signature suite''
        | InvalidLength _ _ \<Rightarrow> InvalidValue ''signature length does not match its suite'')
       (ProtocolSignature_new suite bytes)) (\<lambda>s. Inr (s, d))))"

section \<open>Authenticators\<close>

datatype AuthenticatorPurpose =
  Control | Recovery | Session | Validator | CredentialIssuance | ToolReceipt

fun AuthenticatorPurpose_tag :: "AuthenticatorPurpose \<Rightarrow> u8" where
  "AuthenticatorPurpose_tag Control = 0"
| "AuthenticatorPurpose_tag Recovery = 1"
| "AuthenticatorPurpose_tag Session = 2"
| "AuthenticatorPurpose_tag Validator = 3"
| "AuthenticatorPurpose_tag CredentialIssuance = 4"
| "AuthenticatorPurpose_tag ToolReceipt = 5"

definition encode_AuthenticatorPurpose :: "AuthenticatorPurpose \<Rightarrow> encoder \<Rightarrow> encode_error + encoder" where
  "encode_AuthenticatorPurpose v e = write_u8 (AuthenticatorPurpose_tag v) e"

definition decode_AuthenticatorPurpose :: "decoder \<Rightarrow> decode_error + (AuthenticatorPurpose \<times> decoder)" where
  "decode_AuthenticatorPurpose d = and_then (read_u8 d) (\<lambda>(tag, d).
     if tag = 0 then Inr (Control, d)
     else if tag = 1 then Inr (Recovery, d)
     else if tag = 2 then Inr (Session, d)
     else if tag = 3 then Inr (Validator, d)
     else if tag = 4 then Inr (CredentialIssuance, d)
     else if tag = 5 then Inr (ToolReceipt, d)
     else Inl (InvalidEnumTag ''AuthenticatorPurpose'' tag))"

record AuthenticatorDescriptor =
  authenticator_id :: AuthenticatorId
  scheme :: CryptoSuiteId
  verification_key :: "u8 list"
  purpose :: AuthenticatorPurpose
  auth_valid_from :: Height
  auth_valid_until :: "Height option"
  revoked_at :: "Height option"

datatype AuthenticatorValidationError =
    SuiteCannotAuthenticate
  | InvalidKeyLength usize usize
  | SuiteNotAllowedForPurpose
  | AuthValidityEndsBeforeStart
  | RevocationPredatesValidity

fun purpose_accepts_suite :: "AuthenticatorPurpose \<Rightarrow> CryptoSuiteId \<Rightarrow> bool" where
  "purpose_accepts_suite Control s = (s = ML_DSA_65 \<or> s = ML_DSA_87)"
| "purpose_accepts_suite CredentialIssuance s = (s = ML_DSA_65 \<or> s = ML_DSA_87)"
| "purpose_accepts_suite Recovery s = (s = ML_DSA_65 \<or> s = ML_DSA_87 \<or> s = SLH_DSA_SHAKE_192S)"
| "purpose_accepts_suite Session s = (s = ML_DSA_44 \<or> s = ML_DSA_65)"
| "purpose_accepts_suite ToolReceipt s = (s = ML_DSA_44 \<or> s = ML_DSA_65)"
| "purpose_accepts_suite Validator s = (s = ML_DSA_44)"

definition AuthenticatorDescriptor_new ::
    "AuthenticatorDescriptor \<Rightarrow> AuthenticatorValidationError + AuthenticatorDescriptor" where
  "AuthenticatorDescriptor_new a =
     (case verification_key_length (scheme a) of
        None \<Rightarrow> Inl SuiteCannotAuthenticate
      | Some expected \<Rightarrow>
          if length (verification_key a) \<noteq> expected
          then Inl (InvalidKeyLength expected (length (verification_key a)))
          else if \<not> purpose_accepts_suite (purpose a) (scheme a) then Inl SuiteNotAllowedForPurpose
          else if is_some_and (\<lambda>height. height < auth_valid_from a) (auth_valid_until a)
          then Inl AuthValidityEndsBeforeStart
          else if is_some_and (\<lambda>height. height < auth_valid_from a) (revoked_at a)
          then Inl RevocationPredatesValidity
          else Inr a)"

definition is_active_at :: "AuthenticatorDescriptor \<Rightarrow> Height \<Rightarrow> bool" where
  "is_active_at a height \<longleftrightarrow> height \<ge> auth_valid_from a
     \<and> is_none_or (\<lambda>valid_until. height \<le> valid_until) (auth_valid_until a)
     \<and> is_none_or (\<lambda>revoked. height < revoked) (revoked_at a)"

fun authenticator_decode_error :: "AuthenticatorValidationError \<Rightarrow> decode_error" where
  "authenticator_decode_error SuiteCannotAuthenticate =
     InvalidValue ''authenticator suite cannot verify signatures''"
| "authenticator_decode_error (InvalidKeyLength _ _) =
     InvalidValue ''verification-key length does not match its suite''"
| "authenticator_decode_error SuiteNotAllowedForPurpose =
     InvalidValue ''cryptographic suite is not allowed for this purpose''"
| "authenticator_decode_error AuthValidityEndsBeforeStart =
     InvalidValue ''authenticator validity ends before it starts''"
| "authenticator_decode_error RevocationPredatesValidity =
     InvalidValue ''authenticator revocation predates its validity''"

definition encode_AuthenticatorDescriptor ::
    "AuthenticatorDescriptor \<Rightarrow> encoder \<Rightarrow> encode_error + encoder" where
  "encode_AuthenticatorDescriptor a e =
     and_then (encode_typed_id (authenticator_id a) e) (\<lambda>e.
     and_then (encode_CryptoSuiteId (scheme a) e) (\<lambda>e.
     and_then (write_bytes (verification_key a) MAX_VERIFICATION_KEY_LENGTH e) (\<lambda>e.
     and_then (encode_AuthenticatorPurpose (purpose a) e) (\<lambda>e.
     and_then (write_u64 (auth_valid_from a) e) (\<lambda>e.
     and_then (encode_option write_u64 (auth_valid_until a) e) (\<lambda>e.
     encode_option write_u64 (revoked_at a) e))))))"

definition decode_AuthenticatorDescriptor ::
    "decoder \<Rightarrow> decode_error + (AuthenticatorDescriptor \<times> decoder)" where
  "decode_AuthenticatorDescriptor d =
     and_then (decode_typed_id d) (\<lambda>(aid, d).
     and_then (decode_CryptoSuiteId d) (\<lambda>(suite, d).
     and_then (read_bytes MAX_VERIFICATION_KEY_LENGTH d) (\<lambda>(key, d).
     and_then (decode_AuthenticatorPurpose d) (\<lambda>(purp, d).
     and_then (read_u64 d) (\<lambda>(vfrom, d).
     and_then (decode_option read_u64 d) (\<lambda>(vuntil, d).
     and_then (decode_option read_u64 d) (\<lambda>(revoked, d).
     and_then (map_err authenticator_decode_error
       (AuthenticatorDescriptor_new \<lparr>authenticator_id = aid, scheme = suite,
          verification_key = key, purpose = purp, auth_valid_from = vfrom,
          auth_valid_until = vuntil, revoked_at = revoked\<rparr>))
       (\<lambda>a. Inr (a, d)))))))))"

definition AuthenticatorDescriptor_type :: "AuthenticatorDescriptor canonical_type" where
  "AuthenticatorDescriptor_type = \<lparr>ct_encode = encode_AuthenticatorDescriptor,
     ct_decode = decode_AuthenticatorDescriptor, ct_type_tag = 0x0021, ct_schema_version = 1,
     ct_max_encoded_len = 4179\<rparr>"

datatype AuthenticatorSetError = InvalidCount | AuthenticatorsNotStrictlyOrdered

datatype AuthenticatorSetV1 = AuthenticatorSetV1 (authenticators: "AuthenticatorDescriptor list")

definition AuthenticatorSetV1_new ::
    "AuthenticatorDescriptor list \<Rightarrow> AuthenticatorSetError + AuthenticatorSetV1" where
  "AuthenticatorSetV1_new as =
     (if as = [] \<or> length as > MAX_PRINCIPAL_AUTHENTICATORS then Inl InvalidCount
      else if \<not> strictly_increasing_by authenticator_id as
      then Inl AuthenticatorsNotStrictlyOrdered
      else Inr (AuthenticatorSetV1 as))"

definition authenticator :: "AuthenticatorSetV1 \<Rightarrow> AuthenticatorId \<Rightarrow> AuthenticatorDescriptor option" where
  "authenticator s aid =
     map_option (\<lambda>index. authenticators s ! index)
       (binary_search_by_key authenticator_id aid (authenticators s))"

definition AUTHENTICATOR_SET_DOMAIN :: "u8 list" where
  "AUTHENTICATOR_SET_DOMAIN = ascii ''ACTIVECHAIN-AUTHENTICATOR-SET-V1''"

fun authenticator_transcripts :: "AuthenticatorDescriptor list \<Rightarrow> encode_error + u8 list" where
  "authenticator_transcripts [] = Inr []"
| "authenticator_transcripts (a # as) =
     and_then (encode_envelope AuthenticatorDescriptor_type a) (\<lambda>encoded.
     and_then (authenticator_transcripts as) (\<lambda>rest.
       Inr (to_be_bytes 4 (unat (word_of_nat (length encoded) :: u32)) @ encoded @ rest)))"

definition root_transcript :: "AuthenticatorSetV1 \<Rightarrow> encode_error + u8 list" where
  "root_transcript s =
     and_then (authenticator_transcripts (authenticators s)) (\<lambda>body.
       Inr (AUTHENTICATOR_SET_DOMAIN
         @ to_be_bytes 2 (unat (word_of_nat (length (authenticators s)) :: u16)) @ body))"

definition authenticator_set_root_of ::
    "(u8 list \<Rightarrow> Digest384) \<Rightarrow> AuthenticatorSetV1 \<Rightarrow> encode_error + Digest384" where
  "authenticator_set_root_of shake256 s =
     and_then (root_transcript s) (\<lambda>input. Inr (shake256 input))"

definition encode_AuthenticatorSetV1 :: "AuthenticatorSetV1 \<Rightarrow> encoder \<Rightarrow> encode_error + encoder" where
  "encode_AuthenticatorSetV1 s e =
     encode_vec encode_AuthenticatorDescriptor MAX_PRINCIPAL_AUTHENTICATORS (authenticators s) e"

definition decode_AuthenticatorSetV1 :: "decoder \<Rightarrow> decode_error + (AuthenticatorSetV1 \<times> decoder)" where
  "decode_AuthenticatorSetV1 d =
     and_then (decode_vec decode_AuthenticatorDescriptor MAX_PRINCIPAL_AUTHENTICATORS d) (\<lambda>(as, d).
     and_then (map_err (\<lambda>error. case error of
          InvalidCount \<Rightarrow> InvalidValue ''authenticator set count is out of bounds''
        | AuthenticatorsNotStrictlyOrdered \<Rightarrow>
            InvalidValue ''authenticator set is not strictly ordered'')
       (AuthenticatorSetV1_new as)) (\<lambda>s. Inr (s, d)))"

definition AuthenticatorSetV1_type :: "AuthenticatorSetV1 canonical_type" where
  "AuthenticatorSetV1_type = \<lparr>ct_encode = encode_AuthenticatorSetV1,
     ct_decode = decode_AuthenticatorSetV1, ct_type_tag = 0x0028, ct_schema_version = 1,
     ct_max_encoded_len = 1 + MAX_PRINCIPAL_AUTHENTICATORS * 4179\<rparr>"

section \<open>Wire formats\<close>

definition enc_CryptoFamily :: "CryptoFamily \<Rightarrow> u8 list" where
  "enc_CryptoFamily v = [CryptoFamily_tag v]"

definition enc_CryptoSuiteId :: "CryptoSuiteId \<Rightarrow> u8 list" where
  "enc_CryptoSuiteId s = enc_CryptoFamily (family s) @ enc_u16 (parameter_set s)
     @ enc_u16 (encoding_version s) @ [security_profile s]"

definition valid_suite :: "CryptoSuiteId \<Rightarrow> bool" where
  "valid_suite s \<longleftrightarrow>
     from_parts (family s) (parameter_set s) (encoding_version s) (security_profile s) = Inr s"

definition enc_ProtocolSignature :: "ProtocolSignature \<Rightarrow> u8 list" where
  "enc_ProtocolSignature s = enc_CryptoSuiteId (sig_suite s) @ enc_bytes_prefixed (sig_bytes s)"

definition valid_signature :: "ProtocolSignature \<Rightarrow> bool" where
  "valid_signature s \<longleftrightarrow> valid_suite (sig_suite s) \<and>
     ProtocolSignature_new (sig_suite s) (sig_bytes s) = Inr s"

definition enc_AuthenticatorPurpose :: "AuthenticatorPurpose \<Rightarrow> u8 list" where
  "enc_AuthenticatorPurpose v = [AuthenticatorPurpose_tag v]"

definition enc_AuthenticatorDescriptor :: "AuthenticatorDescriptor \<Rightarrow> u8 list" where
  "enc_AuthenticatorDescriptor a = enc_typed_id (authenticator_id a) @ enc_CryptoSuiteId (scheme a)
     @ enc_bytes_prefixed (verification_key a) @ enc_AuthenticatorPurpose (purpose a)
     @ enc_u64 (auth_valid_from a) @ enc_option enc_u64 (auth_valid_until a)
     @ enc_option enc_u64 (revoked_at a)"

definition valid_AuthenticatorDescriptor :: "AuthenticatorDescriptor \<Rightarrow> bool" where
  "valid_AuthenticatorDescriptor a \<longleftrightarrow>
     valid_suite (scheme a) \<and> AuthenticatorDescriptor_new a = Inr a"

definition enc_AuthenticatorSetV1 :: "AuthenticatorSetV1 \<Rightarrow> u8 list" where
  "enc_AuthenticatorSetV1 s = enc_length (length (authenticators s))
     @ enc_each enc_AuthenticatorDescriptor (authenticators s)"

definition valid_AuthenticatorSetV1 :: "AuthenticatorSetV1 \<Rightarrow> bool" where
  "valid_AuthenticatorSetV1 s \<longleftrightarrow> list_all valid_AuthenticatorDescriptor (authenticators s) \<and>
     AuthenticatorSetV1_new (authenticators s) = Inr s"

section \<open>Codec laws\<close>

lemma enc_suite_lengths [simp]:
  "length (enc_CryptoFamily v) = 1" "length (enc_CryptoSuiteId s) = 6"
  "length (enc_AuthenticatorPurpose q) = 1"
  by (simp_all add: enc_CryptoFamily_def enc_CryptoSuiteId_def enc_AuthenticatorPurpose_def)

interpretation crypto_family: canonical_codec enc_CryptoFamily encode_CryptoFamily
    decode_CryptoFamily "\<lambda>_. True"
proof
  fix v pre rest
  assume "slice (pre @ enc_CryptoFamily v @ rest)"
  then show "decode_CryptoFamily (dec_at pre (enc_CryptoFamily v @ rest)) =
      Inr (v, dec_at (pre @ enc_CryptoFamily v) rest)"
    by (cases v) (simp_all add: enc_CryptoFamily_def decode_CryptoFamily_def codec_simps)
qed (auto simp: enc_CryptoFamily_def encode_CryptoFamily_def decode_CryptoFamily_def codec_simps
    dest!: codec_dests split: if_splits)

lemmas [codec_simps] = crypto_family.laws
lemmas [codec_dests] = crypto_family.inversions

lemma from_parts_eq_Inr: "from_parts f p v r = Inr s \<longleftrightarrow>
  s = \<lparr>family = f, parameter_set = p, encoding_version = v, security_profile = r\<rparr> \<and> valid_suite s"
  by (auto simp: from_parts_def valid_suite_def Let_def)

lemma suite_eta [simp]: "\<lparr>family = family s, parameter_set = parameter_set s,
    encoding_version = encoding_version s, security_profile = security_profile s\<rparr> = s"
  by simp

interpretation suite: canonical_codec enc_CryptoSuiteId encode_CryptoSuiteId
    decode_CryptoSuiteId valid_suite
  by unfold_locales
    (auto simp: enc_CryptoSuiteId_def encode_CryptoSuiteId_def decode_CryptoSuiteId_def
      from_parts_eq_Inr codec_simps dest!: codec_dests)

lemmas [codec_simps] = suite.laws
lemmas [codec_dests] = suite.inversions

lemma signature_length_le: "signature_length s = Some n \<Longrightarrow> n \<le> 16224"
  by (auto simp: signature_length_def split: if_splits)

lemma valid_signature_iff: "valid_signature s \<longleftrightarrow>
  valid_suite (sig_suite s) \<and> signature_length (sig_suite s) = Some (length (sig_bytes s)) \<and>
  length (sig_bytes s) \<le> 16224"
  by (auto simp: valid_signature_def ProtocolSignature_new_def
      split: option.splits if_splits dest: signature_length_le)

lemma verification_key_length_le: "verification_key_length s = Some n \<Longrightarrow> n \<le> 2592"
  by (auto simp: verification_key_length_def split: if_splits)

lemma ProtocolSignature_new_eq_Inr: "ProtocolSignature_new suite bytes = Inr s \<longleftrightarrow>
  s = \<lparr>sig_suite = suite, sig_bytes = bytes\<rparr> \<and> signature_length suite = Some (length bytes) \<and>
  length bytes \<le> 16224"
  by (auto simp: ProtocolSignature_new_def split: option.splits if_splits
      dest: signature_length_le)

lemma valid_signature_new:
  "valid_signature s \<Longrightarrow> ProtocolSignature_new (sig_suite s) (sig_bytes s) = Inr s"
  by (simp add: valid_signature_def)

interpretation protocol_signature: canonical_codec enc_ProtocolSignature encode_ProtocolSignature
    decode_ProtocolSignature valid_signature
  by unfold_locales
    (auto simp: enc_ProtocolSignature_def encode_ProtocolSignature_def decode_ProtocolSignature_def
      ProtocolSignature_new_eq_Inr valid_signature_iff MAX_SIGNATURE_LENGTH_def MAX_BODY_LENGTH_def
      codec_simps dest!: codec_dests)

lemmas [codec_simps] = protocol_signature.laws
lemmas [codec_dests] = protocol_signature.inversions

lemma length_enc_ProtocolSignature:
  "valid_signature s \<Longrightarrow> length (enc_ProtocolSignature s) \<le> 16235"
  using length_enc_bytes_prefixed [of "sig_bytes s"]
  by (simp add: enc_ProtocolSignature_def valid_signature_iff MAX_BODY_LENGTH_def)

interpretation authenticator_purpose: canonical_codec enc_AuthenticatorPurpose
    encode_AuthenticatorPurpose decode_AuthenticatorPurpose "\<lambda>_. True"
proof
  fix v pre rest
  assume "slice (pre @ enc_AuthenticatorPurpose v @ rest)"
  then show "decode_AuthenticatorPurpose (dec_at pre (enc_AuthenticatorPurpose v @ rest)) =
      Inr (v, dec_at (pre @ enc_AuthenticatorPurpose v) rest)"
    by (cases v) (simp_all add: enc_AuthenticatorPurpose_def decode_AuthenticatorPurpose_def codec_simps)
qed (auto simp: enc_AuthenticatorPurpose_def encode_AuthenticatorPurpose_def
    decode_AuthenticatorPurpose_def codec_simps dest!: codec_dests split: if_splits)

lemmas [codec_simps] = authenticator_purpose.laws
lemmas [codec_dests] = authenticator_purpose.inversions

lemma AuthenticatorDescriptor_new_eq_Inr: "AuthenticatorDescriptor_new a = Inr b \<longleftrightarrow>
  b = a \<and> verification_key_length (scheme a) = Some (length (verification_key a)) \<and>
  length (verification_key a) \<le> 2592 \<and> purpose_accepts_suite (purpose a) (scheme a) \<and>
  \<not> is_some_and (\<lambda>h. h < auth_valid_from a) (auth_valid_until a) \<and>
  \<not> is_some_and (\<lambda>h. h < auth_valid_from a) (revoked_at a)"
  by (auto simp: AuthenticatorDescriptor_new_def split: option.splits if_splits
      dest: verification_key_length_le)

lemma valid_AuthenticatorDescriptor_iff: "valid_AuthenticatorDescriptor a \<longleftrightarrow>
  valid_suite (scheme a) \<and>
  verification_key_length (scheme a) = Some (length (verification_key a)) \<and>
  length (verification_key a) \<le> 2592 \<and> purpose_accepts_suite (purpose a) (scheme a) \<and>
  \<not> is_some_and (\<lambda>h. h < auth_valid_from a) (auth_valid_until a) \<and>
  \<not> is_some_and (\<lambda>h. h < auth_valid_from a) (revoked_at a)"
  by (auto simp: valid_AuthenticatorDescriptor_def AuthenticatorDescriptor_new_eq_Inr)

lemma length_enc_option_u64: "length (enc_option enc_u64 h) \<le> 9"
  using length_enc_option_le [of enc_u64 8 h] by simp

lemma length_enc_AuthenticatorDescriptor:
  "valid_AuthenticatorDescriptor a \<Longrightarrow> length (enc_AuthenticatorDescriptor a) \<le> 2678"
  using length_enc_bytes_prefixed [of "verification_key a"]
    length_enc_option_u64 [of "auth_valid_until a"] length_enc_option_u64 [of "revoked_at a"]
  by (simp add: enc_AuthenticatorDescriptor_def valid_AuthenticatorDescriptor_iff MAX_BODY_LENGTH_def)

interpretation authenticator_codec: canonical_codec enc_AuthenticatorDescriptor
    encode_AuthenticatorDescriptor decode_AuthenticatorDescriptor valid_AuthenticatorDescriptor
  by unfold_locales
    (auto simp: enc_AuthenticatorDescriptor_def encode_AuthenticatorDescriptor_def
      decode_AuthenticatorDescriptor_def AuthenticatorDescriptor_new_eq_Inr
      valid_AuthenticatorDescriptor_iff MAX_BODY_LENGTH_def MAX_VERIFICATION_KEY_LENGTH_def
      codec_simps dest!: codec_dests)

lemmas [codec_simps] = authenticator_codec.laws
lemmas [codec_dests] = authenticator_codec.inversions

interpretation authenticator: bounded_envelope enc_AuthenticatorDescriptor
    AuthenticatorDescriptor_type valid_AuthenticatorDescriptor
  by (intro bounded_envelope.intro canonical_envelope.intro bounded_envelope_axioms.intro
        canonical_envelope_axioms.intro)
    (auto simp: AuthenticatorDescriptor_type_def MAX_BODY_LENGTH_def
      authenticator_codec.canonical_codec_axioms dest: length_enc_AuthenticatorDescriptor)

lemma AuthenticatorSetV1_new_eq_Inr: "AuthenticatorSetV1_new as = Inr s \<longleftrightarrow>
  s = AuthenticatorSetV1 as \<and> as \<noteq> [] \<and> length as \<le> 8 \<and> strictly_increasing_by authenticator_id as"
  by (auto simp: AuthenticatorSetV1_new_def MAX_PRINCIPAL_AUTHENTICATORS_def)

lemma valid_AuthenticatorSetV1_iff: "valid_AuthenticatorSetV1 s \<longleftrightarrow>
  list_all valid_AuthenticatorDescriptor (authenticators s) \<and> authenticators s \<noteq> [] \<and>
  length (authenticators s) \<le> 8 \<and> strictly_increasing_by authenticator_id (authenticators s)"
  by (auto simp: valid_AuthenticatorSetV1_def AuthenticatorSetV1_new_eq_Inr)

interpretation authenticator_set: bounded_envelope enc_AuthenticatorSetV1 AuthenticatorSetV1_type
    valid_AuthenticatorSetV1
proof
  fix s
  assume "valid_AuthenticatorSetV1 s"
  then have valid: "list_all valid_AuthenticatorDescriptor (authenticators s)"
    and count: "length (authenticators s) \<le> 8" by (simp_all add: valid_AuthenticatorSetV1_iff)
  have "length (enc_each enc_AuthenticatorDescriptor (authenticators s)) \<le> 8 * 4179"
    using length_enc_each_le [OF valid, of enc_AuthenticatorDescriptor 4179] length_enc_AuthenticatorDescriptor
      count by fastforce
  then show "length (enc_AuthenticatorSetV1 s) \<le> ct_max_encoded_len AuthenticatorSetV1_type"
    using count by (simp add: enc_AuthenticatorSetV1_def AuthenticatorSetV1_type_def
        enc_length_small MAX_PRINCIPAL_AUTHENTICATORS_def)
qed (auto simp: AuthenticatorSetV1_type_def enc_AuthenticatorSetV1_def encode_AuthenticatorSetV1_def
    decode_AuthenticatorSetV1_def AuthenticatorSetV1_new_eq_Inr valid_AuthenticatorSetV1_iff
    MAX_PRINCIPAL_AUTHENTICATORS_def MAX_BODY_LENGTH_def codec_simps dest!: codec_dests)

section \<open>Behaviour\<close>

lemma authenticator_lookup:
  assumes "valid_AuthenticatorSetV1 s"
  shows "authenticator s aid = Some a \<longleftrightarrow>
    a \<in> set (authenticators s) \<and> authenticator_id a = aid"
  using assms binary_search_lookup [of authenticator_id "authenticators s"]
  by (simp add: authenticator_def valid_AuthenticatorSetV1_iff)

lemma authenticator_envelope:
  assumes "valid_AuthenticatorDescriptor a"
  obtains bs where "encode_envelope AuthenticatorDescriptor_type a = Inr bs" "length bs < 2 ^ 32"
proof
  show "encode_envelope AuthenticatorDescriptor_type a = Inr (authenticator.envelope a)"
    using assms by (rule authenticator.encode_envelope_total)
  show "length (authenticator.envelope a) < 2 ^ 32"
    using length_enc_AuthenticatorDescriptor [OF assms]
      length_enc_length [of "length (enc_AuthenticatorDescriptor a)"]
    by (simp add: enc_envelope_def MAX_BODY_LENGTH_def)
qed

lemma authenticator_transcripts_inj:
  assumes "length as = length bs" "list_all valid_AuthenticatorDescriptor as"
    "list_all valid_AuthenticatorDescriptor bs"
    "authenticator_transcripts as = Inr t" "authenticator_transcripts bs = Inr t"
  shows "as = bs"
  using assms
proof (induction as bs arbitrary: t rule: list_induct2)
  case (Cons a as b bs)
  have valid: "valid_AuthenticatorDescriptor a" "valid_AuthenticatorDescriptor b"
    using Cons.prems(1,2) by simp_all
  obtain x where x: "encode_envelope AuthenticatorDescriptor_type a = Inr x" "length x < 2 ^ 32"
    using authenticator_envelope [OF valid(1)] .
  obtain y where y: "encode_envelope AuthenticatorDescriptor_type b = Inr y" "length y < 2 ^ 32"
    using authenticator_envelope [OF valid(2)] .
  have len: "unat (word_of_nat (length x) :: u32) = length x" "unat (word_of_nat (length y) :: u32) = length y"
    using x(2) y(2) by (simp_all add: unat_of_nat)
  obtain s t' where rest: "authenticator_transcripts as = Inr s" "authenticator_transcripts bs = Inr t'"
    and eq: "to_be_bytes 4 (length x) @ x @ s = to_be_bytes 4 (length y) @ y @ t'"
    using Cons.prems(3,4) x(1) y(1) by (auto simp: len)
  have "to_be_bytes 4 (length x) = to_be_bytes 4 (length y)" using eq by simp
  then have "length x = length y"
    using x(2) y(2) by (simp add: to_be_bytes_eq_iff)
  then have "x = y" "s = t'" using eq by simp_all
  moreover from this have "a = b"
    using authenticator.envelope_injective [OF valid, of x] x(1) y(1) by simp
  ultimately show ?case using Cons.IH [OF _ _ rest(1)] rest Cons.prems by simp
qed simp

lemma root_transcript_inj:
  assumes "valid_AuthenticatorSetV1 s" "valid_AuthenticatorSetV1 s'"
    "root_transcript s = Inr t" "root_transcript s' = Inr t"
  shows "s = s'"
proof -
  have le: "length (authenticators s) \<le> 8" "length (authenticators s') \<le> 8"
    using assms(1,2) by (simp_all add: valid_AuthenticatorSetV1_iff)
  then have len: "unat (word_of_nat (length (authenticators s)) :: u16) = length (authenticators s)"
    "unat (word_of_nat (length (authenticators s')) :: u16) = length (authenticators s')"
    by (simp_all add: unat_of_nat)
  obtain b b' where b: "authenticator_transcripts (authenticators s) = Inr b"
      "authenticator_transcripts (authenticators s') = Inr b'"
    and eq: "to_be_bytes 2 (length (authenticators s)) @ b = to_be_bytes 2 (length (authenticators s')) @ b'"
    using assms(3,4) by (auto simp: root_transcript_def len)
  have "to_be_bytes 2 (length (authenticators s)) = to_be_bytes 2 (length (authenticators s'))" "b = b'"
    using eq by simp_all
  then have "length (authenticators s) = length (authenticators s')"
    using le by (simp add: to_be_bytes_eq_iff)
  then have "authenticators s = authenticators s'"
    using authenticator_transcripts_inj [OF _ _ _ b(1)] b(2) \<open>b = b'\<close> assms(1,2)
    by (simp add: valid_AuthenticatorSetV1_iff)
  then show ?thesis by (cases s; cases s') simp
qed

lemma root_transcript_total: "valid_AuthenticatorSetV1 s \<Longrightarrow> \<exists>t. root_transcript s = Inr t"
proof -
  have "list_all valid_AuthenticatorDescriptor as \<Longrightarrow> \<exists>t. authenticator_transcripts as = Inr t" for as
  proof (induction as)
    case (Cons a as)
    then show ?case using authenticator.encode_envelope_total [of a] by auto
  qed simp
  then show "valid_AuthenticatorSetV1 s \<Longrightarrow> \<exists>t. root_transcript s = Inr t"
    by (fastforce simp: root_transcript_def valid_AuthenticatorSetV1_iff)
qed

end
