(* ===== verification/Authority.thy ===== *)
theory Authority
  imports Crypto
begin

text \<open>
  \<^verbatim>\<open>protocol-types/src/authority.rs\<close>: recovery requests, scope selectors, action sets, rate
  limits and capability grants, with the signing payload of a grant.  The laws at the end show
  that every one of these types has a canonical wire format and that the structural subset test
  on selectors decides inclusion of the sets of digests the selectors denote.
\<close>

section \<open>Recovery requests\<close>

record RecoveryRequest =
  rr_principal_id :: PrincipalId
  rr_expected_sequence :: u64
  proposed_controller_policy_hash :: Digest384
  proposed_authenticator_set_root :: Digest384
  recovery_evidence_commitment :: Digest384
  initiated_at :: Height
  challenge_deadline :: Height
  recovery_bond :: Amount

datatype RecoveryRequestError = ChallengeDeadlineNotAfterInitiation

definition RecoveryRequest_new :: "RecoveryRequest \<Rightarrow> RecoveryRequestError + RecoveryRequest" where
  "RecoveryRequest_new r =
     (if challenge_deadline r \<le> initiated_at r then Inl ChallengeDeadlineNotAfterInitiation
      else Inr r)"

definition encode_RecoveryRequest :: "RecoveryRequest \<Rightarrow> encoder \<Rightarrow> encode_error + encoder" where
  "encode_RecoveryRequest r e =
     and_then (encode_typed_id (rr_principal_id r) e) (\<lambda>e.
     and_then (write_u64 (rr_expected_sequence r) e) (\<lambda>e.
     and_then (encode_Digest384 (proposed_controller_policy_hash r) e) (\<lambda>e.
     and_then (encode_Digest384 (proposed_authenticator_set_root r) e) (\<lambda>e.
     and_then (encode_Digest384 (recovery_evidence_commitment r) e) (\<lambda>e.
     and_then (write_u64 (initiated_at r) e) (\<lambda>e.
     and_then (write_u64 (challenge_deadline r) e) (\<lambda>e.
     write_u128 (recovery_bond r) e)))))))"

definition decode_RecoveryRequest :: "decoder \<Rightarrow> decode_error + (RecoveryRequest \<times> decoder)" where
  "decode_RecoveryRequest d =
     and_then (decode_typed_id d) (\<lambda>(pid, d).
     and_then (read_u64 d) (\<lambda>(sequence, d).
     and_then (decode_Digest384 d) (\<lambda>(controller, d).
     and_then (decode_Digest384 d) (\<lambda>(authenticators, d).
     and_then (decode_Digest384 d) (\<lambda>(evidence, d).
     and_then (read_u64 d) (\<lambda>(initiated, d).
     and_then (read_u64 d) (\<lambda>(deadline, d).
     and_then (read_u128 d) (\<lambda>(bond, d).
     and_then (map_err
         (\<lambda>_. InvalidValue ''recovery challenge deadline is not after initiation'')
       (RecoveryRequest_new \<lparr>rr_principal_id = pid, rr_expected_sequence = sequence,
          proposed_controller_policy_hash = controller,
          proposed_authenticator_set_root = authenticators,
          recovery_evidence_commitment = evidence, initiated_at = initiated,
          challenge_deadline = deadline, recovery_bond = bond\<rparr>))
       (\<lambda>r. Inr (r, d))))))))))"

definition RecoveryRequest_type :: "RecoveryRequest canonical_type" where
  "RecoveryRequest_type = \<lparr>ct_encode = encode_RecoveryRequest, ct_decode = decode_RecoveryRequest,
     ct_type_tag = 0x0022, ct_schema_version = 1, ct_max_encoded_len = 232\<rparr>"

section \<open>Scope selectors\<close>

datatype ScopeSelector = Any | Exact Digest384 | Prefix Digest384 u16

datatype ScopeSelectorError =
  EmptyPrefixMustUseAny | FullPrefixMustUseExact | NonZeroBitsOutsidePrefix

text \<open>The only caller of this function has checked \<^verbatim>\<open>bits < 384\<close>, so the index is in range.\<close>

definition is_normalized_prefix :: "u8 list \<Rightarrow> u16 \<Rightarrow> bool" where
  "is_normalized_prefix bytes bits =
     (let full_bytes = unat (bits div 8); remaining_bits = unat (bits mod 8) in
      if remaining_bits = 0 then list_all (\<lambda>byte. byte = 0) (drop full_bytes bytes)
      else let unused_mask = push_bit (8 - remaining_bits) (1 :: u8) - 1 in
        if bytes ! full_bytes AND unused_mask \<noteq> 0 then False
        else list_all (\<lambda>byte. byte = 0) (drop (full_bytes + 1) bytes))"

definition matches_prefix :: "u8 list \<Rightarrow> u8 list \<Rightarrow> u16 \<Rightarrow> bool" where
  "matches_prefix candidate prefix bits =
     (let full_bytes = unat (bits div 8) in
      if full_bytes > DIGEST_LENGTH then False
      else if take full_bytes candidate \<noteq> take full_bytes prefix then False
      else let remaining_bits = unat (bits mod 8) in
        if remaining_bits = 0 then True
        else if full_bytes \<ge> DIGEST_LENGTH then False
        else let mask = push_bit (8 - remaining_bits) (0xff :: u8) in
          candidate ! full_bytes AND mask = prefix ! full_bytes AND mask)"

definition scope_prefix :: "Digest384 \<Rightarrow> u16 \<Rightarrow> ScopeSelectorError + ScopeSelector" where
  "scope_prefix bytes bits =
     (if bits = 0 then Inl EmptyPrefixMustUseAny
      else if unat bits \<ge> DIGEST_LENGTH * 8 then Inl FullPrefixMustUseExact
      else if \<not> is_normalized_prefix (as_bytes bytes) bits then Inl NonZeroBitsOutsidePrefix
      else Inr (Prefix bytes bits))"

fun scope_is_subset_of :: "ScopeSelector \<Rightarrow> ScopeSelector \<Rightarrow> bool" where
  "scope_is_subset_of _ Any = True"
| "scope_is_subset_of (Exact child) (Exact parent) = (child = parent)"
| "scope_is_subset_of (Exact child) (Prefix bytes bits) =
     matches_prefix (as_bytes child) (as_bytes bytes) bits"
| "scope_is_subset_of (Prefix child child_bits) (Prefix parent parent_bits) =
     (child_bits \<ge> parent_bits \<and> matches_prefix (as_bytes child) (as_bytes parent) parent_bits)"
| "scope_is_subset_of Any (Exact _) = False"
| "scope_is_subset_of (Prefix _ _) (Exact _) = False"
| "scope_is_subset_of Any (Prefix _ _) = False"

fun encode_ScopeSelector :: "ScopeSelector \<Rightarrow> encoder \<Rightarrow> encode_error + encoder" where
  "encode_ScopeSelector Any e = write_u8 0 e"
| "encode_ScopeSelector (Exact value) e =
     and_then (write_u8 1 e) (\<lambda>e. encode_Digest384 value e)"
| "encode_ScopeSelector (Prefix bytes bits) e =
     and_then (write_u8 2 e) (\<lambda>e. and_then (write_u16 bits e) (\<lambda>e. encode_Digest384 bytes e))"

definition decode_ScopeSelector :: "decoder \<Rightarrow> decode_error + (ScopeSelector \<times> decoder)" where
  "decode_ScopeSelector d = and_then (read_u8 d) (\<lambda>(tag, d).
     if tag = 0 then Inr (Any, d)
     else if tag = 1 then and_then (decode_Digest384 d) (\<lambda>(value, d). Inr (Exact value, d))
     else if tag = 2 then
       and_then (read_u16 d) (\<lambda>(bits, d).
       and_then (decode_Digest384 d) (\<lambda>(bytes, d).
       and_then (map_err
           (\<lambda>_. InvalidValue ''scope prefix is empty, full-length, or non-normalized'')
         (scope_prefix bytes bits)) (\<lambda>s. Inr (s, d))))
     else Inl (InvalidEnumTag ''ScopeSelector'' tag))"

datatype ResourceSelector = ResourceSelector (resource_as_scope: ScopeSelector)

definition resource_exact :: "ObjectId \<Rightarrow> ResourceSelector" where
  "resource_exact object_id = ResourceSelector (Exact (into_digest object_id))"

definition resource_prefix :: "Digest384 \<Rightarrow> u16 \<Rightarrow> ScopeSelectorError + ResourceSelector" where
  "resource_prefix bytes bits =
     and_then (scope_prefix bytes bits) (\<lambda>s. Inr (ResourceSelector s))"

definition resource_is_subset_of :: "ResourceSelector \<Rightarrow> ResourceSelector \<Rightarrow> bool" where
  "resource_is_subset_of child parent =
     scope_is_subset_of (resource_as_scope child) (resource_as_scope parent)"

definition encode_ResourceSelector :: "ResourceSelector \<Rightarrow> encoder \<Rightarrow> encode_error + encoder" where
  "encode_ResourceSelector s e = encode_ScopeSelector (resource_as_scope s) e"

definition decode_ResourceSelector :: "decoder \<Rightarrow> decode_error + (ResourceSelector \<times> decoder)" where
  "decode_ResourceSelector d =
     and_then (decode_ScopeSelector d) (\<lambda>(s, d). Inr (ResourceSelector s, d))"

datatype DataSelector = DataSelector (data_as_scope: ScopeSelector)

definition data_exact :: "Digest384 \<Rightarrow> DataSelector" where
  "data_exact data_id = DataSelector (Exact data_id)"

definition data_prefix :: "Digest384 \<Rightarrow> u16 \<Rightarrow> ScopeSelectorError + DataSelector" where
  "data_prefix bytes bits = and_then (scope_prefix bytes bits) (\<lambda>s. Inr (DataSelector s))"

definition data_is_subset_of :: "DataSelector \<Rightarrow> DataSelector \<Rightarrow> bool" where
  "data_is_subset_of child parent =
     scope_is_subset_of (data_as_scope child) (data_as_scope parent)"

definition encode_DataSelector :: "DataSelector \<Rightarrow> encoder \<Rightarrow> encode_error + encoder" where
  "encode_DataSelector s e = encode_ScopeSelector (data_as_scope s) e"

definition decode_DataSelector :: "decoder \<Rightarrow> decode_error + (DataSelector \<times> decoder)" where
  "decode_DataSelector d =
     and_then (decode_ScopeSelector d) (\<lambda>(s, d). Inr (DataSelector s, d))"

section \<open>Holder bindings, action sets and rate limits\<close>

datatype HolderBinding = HolderPrincipal PrincipalId | HolderPrivate Digest384 | Bearer

fun encode_HolderBinding :: "HolderBinding \<Rightarrow> encoder \<Rightarrow> encode_error + encoder" where
  "encode_HolderBinding (HolderPrincipal pid) e =
     and_then (write_u8 0 e) (\<lambda>e. encode_typed_id pid e)"
| "encode_HolderBinding (HolderPrivate commitment) e =
     and_then (write_u8 1 e) (\<lambda>e. encode_Digest384 commitment e)"
| "encode_HolderBinding Bearer e = write_u8 2 e"

definition decode_HolderBinding :: "decoder \<Rightarrow> decode_error + (HolderBinding \<times> decoder)" where
  "decode_HolderBinding d = and_then (read_u8 d) (\<lambda>(tag, d).
     if tag = 0 then and_then (decode_typed_id d) (\<lambda>(p, d). Inr (HolderPrincipal p, d))
     else if tag = 1 then and_then (decode_Digest384 d) (\<lambda>(c, d). Inr (HolderPrivate c, d))
     else if tag = 2 then Inr (Bearer, d)
     else Inl (InvalidEnumTag ''HolderBinding'' tag))"

definition MAX_CAPABILITY_ACTIONS :: usize where "MAX_CAPABILITY_ACTIONS = 32"

datatype BoundedActionSet = BoundedActionSet (as_slice: "ActionId list")

datatype BoundedActionSetError = ActionsEmpty | ActionsTooMany usize usize | ActionsNotStrictlyOrdered

definition BoundedActionSet_new :: "ActionId list \<Rightarrow> BoundedActionSetError + BoundedActionSet" where
  "BoundedActionSet_new actions =
     (if actions = [] then Inl ActionsEmpty
      else if length actions > MAX_CAPABILITY_ACTIONS
      then Inl (ActionsTooMany (length actions) MAX_CAPABILITY_ACTIONS)
      else if \<not> strictly_increasing actions then Inl ActionsNotStrictlyOrdered
      else Inr (BoundedActionSet actions))"

definition actions_is_subset_of :: "BoundedActionSet \<Rightarrow> BoundedActionSet \<Rightarrow> bool" where
  "actions_is_subset_of child parent =
     list_all (\<lambda>action. binary_search action (as_slice parent) \<noteq> None) (as_slice child)"

definition encode_BoundedActionSet :: "BoundedActionSet \<Rightarrow> encoder \<Rightarrow> encode_error + encoder" where
  "encode_BoundedActionSet s e = encode_vec encode_typed_id MAX_CAPABILITY_ACTIONS (as_slice s) e"

definition decode_BoundedActionSet :: "decoder \<Rightarrow> decode_error + (BoundedActionSet \<times> decoder)" where
  "decode_BoundedActionSet d =
     and_then (decode_vec decode_typed_id MAX_CAPABILITY_ACTIONS d) (\<lambda>(actions, d).
     and_then (map_err (\<lambda>error. case error of
          ActionsEmpty \<Rightarrow> InvalidValue ''capability action set is empty''
        | ActionsTooMany _ _ \<Rightarrow> InvalidValue ''capability action set exceeds its bound''
        | ActionsNotStrictlyOrdered \<Rightarrow>
            InvalidValue ''capability actions are not strictly ordered'')
       (BoundedActionSet_new actions)) (\<lambda>s. Inr (s, d)))"

record RateLimit =
  maximum_uses :: u64
  window_blocks :: u64

datatype RateLimitError = ZeroMaximumUses | ZeroWindow

definition RateLimit_new :: "u64 \<Rightarrow> u64 \<Rightarrow> RateLimitError + RateLimit" where
  "RateLimit_new uses blocks =
     (if uses = 0 then Inl ZeroMaximumUses
      else if blocks = 0 then Inl ZeroWindow
      else Inr \<lparr>maximum_uses = uses, window_blocks = blocks\<rparr>)"

definition encode_RateLimit :: "RateLimit \<Rightarrow> encoder \<Rightarrow> encode_error + encoder" where
  "encode_RateLimit r e =
     and_then (write_u64 (maximum_uses r) e) (\<lambda>e. write_u64 (window_blocks r) e)"

definition decode_RateLimit :: "decoder \<Rightarrow> decode_error + (RateLimit \<times> decoder)" where
  "decode_RateLimit d =
     and_then (read_u64 d) (\<lambda>(uses, d).
     and_then (read_u64 d) (\<lambda>(blocks, d).
     and_then (map_err (\<lambda>error. case error of
          ZeroMaximumUses \<Rightarrow> InvalidValue ''rate-limit maximum uses is zero''
        | ZeroWindow \<Rightarrow> InvalidValue ''rate-limit window is zero'')
       (RateLimit_new uses blocks)) (\<lambda>r. Inr (r, d))))"

section \<open>Capability grants\<close>

record CapabilityGrantFields =
  capability_id :: CapabilityId
  issuer :: PrincipalId
  holder_binding :: HolderBinding
  parent_capability :: "CapabilityId option"
  permitted_actions :: BoundedActionSet
  resource_scope :: ResourceSelector
  data_scope :: DataSelector
  monetary_limit :: "Amount option"
  compute_limit :: "ResourceUnits option"
  rate_limit :: "RateLimit option"
  use_limit :: "u64 option"
  valid_from :: Height
  valid_until :: "Height option"
  delegation_depth_remaining :: u8
  delegation_allowed :: bool
  revocation_registry :: "ObjectId option"
  constraint_hash :: Digest384

record CapabilityGrant =
  grant_fields :: CapabilityGrantFields
  issuer_signature :: ProtocolSignature

datatype CapabilityValidationError =
    SelfParent
  | ValidityEndsBeforeStart
  | DelegationAllowedWithZeroDepth
  | DepthPresentWhenDelegationForbidden

definition CapabilityGrant_new ::
    "CapabilityGrantFields \<Rightarrow> ProtocolSignature \<Rightarrow> CapabilityValidationError + CapabilityGrant" where
  "CapabilityGrant_new f sig =
     (if parent_capability f = Some (capability_id f) then Inl SelfParent
      else if is_some_and (\<lambda>height. height < valid_from f) (valid_until f)
      then Inl ValidityEndsBeforeStart
      else if delegation_allowed f \<and> delegation_depth_remaining f = 0
      then Inl DelegationAllowedWithZeroDepth
      else if \<not> delegation_allowed f \<and> delegation_depth_remaining f \<ge> 1
      then Inl DepthPresentWhenDelegationForbidden
      else Inr \<lparr>grant_fields = f, issuer_signature = sig\<rparr>)"

definition encode_CapabilityGrantFields :: "CapabilityGrantFields \<Rightarrow> encoder \<Rightarrow> encode_error + encoder" where
  "encode_CapabilityGrantFields f e =
     and_then (encode_typed_id (capability_id f) e) (\<lambda>e.
     and_then (encode_typed_id (issuer f) e) (\<lambda>e.
     and_then (encode_HolderBinding (holder_binding f) e) (\<lambda>e.
     and_then (encode_option encode_typed_id (parent_capability f) e) (\<lambda>e.
     and_then (encode_BoundedActionSet (permitted_actions f) e) (\<lambda>e.
     and_then (encode_ResourceSelector (resource_scope f) e) (\<lambda>e.
     and_then (encode_DataSelector (data_scope f) e) (\<lambda>e.
     and_then (encode_option write_u128 (monetary_limit f) e) (\<lambda>e.
     and_then (encode_option write_u128 (compute_limit f) e) (\<lambda>e.
     and_then (encode_option encode_RateLimit (rate_limit f) e) (\<lambda>e.
     and_then (encode_option write_u64 (use_limit f) e) (\<lambda>e.
     and_then (write_u64 (valid_from f) e) (\<lambda>e.
     and_then (encode_option write_u64 (valid_until f) e) (\<lambda>e.
     and_then (write_u8 (delegation_depth_remaining f) e) (\<lambda>e.
     and_then (write_bool (delegation_allowed f) e) (\<lambda>e.
     and_then (encode_option encode_typed_id (revocation_registry f) e) (\<lambda>e.
     encode_Digest384 (constraint_hash f) e))))))))))))))))"

definition encode_CapabilityGrant :: "CapabilityGrant \<Rightarrow> encoder \<Rightarrow> encode_error + encoder" where
  "encode_CapabilityGrant g e =
     and_then (encode_CapabilityGrantFields (grant_fields g) e) (\<lambda>e.
     encode_ProtocolSignature (issuer_signature g) e)"

definition decode_CapabilityGrantFields ::
    "decoder \<Rightarrow> decode_error + (CapabilityGrantFields \<times> decoder)" where
  "decode_CapabilityGrantFields d =
     and_then (decode_typed_id d) (\<lambda>(cid, d).
     and_then (decode_typed_id d) (\<lambda>(iss, d).
     and_then (decode_HolderBinding d) (\<lambda>(holder, d).
     and_then (decode_option decode_typed_id d) (\<lambda>(parent, d).
     and_then (decode_BoundedActionSet d) (\<lambda>(actions, d).
     and_then (decode_ResourceSelector d) (\<lambda>(resources, d).
     and_then (decode_DataSelector d) (\<lambda>(datas, d).
     and_then (decode_option read_u128 d) (\<lambda>(money, d).
     and_then (decode_option read_u128 d) (\<lambda>(compute, d).
     and_then (decode_option decode_RateLimit d) (\<lambda>(rate, d).
     and_then (decode_option read_u64 d) (\<lambda>(uses, d).
     and_then (read_u64 d) (\<lambda>(vfrom, d).
     and_then (decode_option read_u64 d) (\<lambda>(vuntil, d).
     and_then (read_u8 d) (\<lambda>(depth, d).
     and_then (read_bool d) (\<lambda>(allowed, d).
     and_then (decode_option decode_typed_id d) (\<lambda>(registry, d).
     and_then (decode_Digest384 d) (\<lambda>(constraint, d).
     Inr (\<lparr>capability_id = cid, issuer = iss, holder_binding = holder,
       parent_capability = parent, permitted_actions = actions, resource_scope = resources,
       data_scope = datas, monetary_limit = money, compute_limit = compute, rate_limit = rate,
       use_limit = uses, valid_from = vfrom, valid_until = vuntil,
       delegation_depth_remaining = depth, delegation_allowed = allowed,
       revocation_registry = registry, constraint_hash = constraint\<rparr>, d))))))))))))))))))"

definition decode_CapabilityGrant :: "decoder \<Rightarrow> decode_error + (CapabilityGrant \<times> decoder)" where
  "decode_CapabilityGrant d =
     and_then (decode_CapabilityGrantFields d) (\<lambda>(f, d).
     and_then (decode_ProtocolSignature d) (\<lambda>(sig, d).
     and_then (map_err (\<lambda>error. case error of
          SelfParent \<Rightarrow> InvalidValue ''capability cannot be its own parent''
        | ValidityEndsBeforeStart \<Rightarrow> InvalidValue ''capability validity ends before it starts''
        | DelegationAllowedWithZeroDepth \<Rightarrow>
            InvalidValue ''delegation is allowed with zero remaining depth''
        | DepthPresentWhenDelegationForbidden \<Rightarrow>
            InvalidValue ''delegation depth is non-zero while delegation is forbidden'')
       (CapabilityGrant_new f sig)) (\<lambda>g. Inr (g, d))))"

definition CapabilityGrant_type :: "CapabilityGrant canonical_type" where
  "CapabilityGrant_type = \<lparr>ct_encode = encode_CapabilityGrant, ct_decode = decode_CapabilityGrant,
     ct_type_tag = 0x0030, ct_schema_version = 2, ct_max_encoded_len = 22024\<rparr>"

definition capability_signing_payload :: "CapabilityGrant \<Rightarrow> Digest384 \<Rightarrow> encode_error + u8 list" where
  "capability_signing_payload g chain_genesis_commitment =
     and_then (ok_or EncLengthOverflow (signature_length (sig_suite (issuer_signature g)))) (\<lambda>len.
     and_then (map_err (\<lambda>_. EncLengthOverflow)
       (ProtocolSignature_new (sig_suite (issuer_signature g)) (replicate len 0))) (\<lambda>zero_signature.
     and_then (map_err (\<lambda>_. EncLengthOverflow)
       (CapabilityGrant_new (grant_fields g) zero_signature)) (\<lambda>unsigned.
     and_then (encode_envelope CapabilityGrant_type unsigned) (\<lambda>envelope.
       Inr (ascii ''ACTIVECHAIN-CAPABILITY-GRANT-V2'' @ as_bytes chain_genesis_commitment
         @ envelope)))))"

section \<open>Wire formats\<close>

definition enc_RecoveryRequest :: "RecoveryRequest \<Rightarrow> u8 list" where
  "enc_RecoveryRequest r = enc_typed_id (rr_principal_id r) @ enc_u64 (rr_expected_sequence r)
     @ enc_Digest384 (proposed_controller_policy_hash r)
     @ enc_Digest384 (proposed_authenticator_set_root r)
     @ enc_Digest384 (recovery_evidence_commitment r) @ enc_u64 (initiated_at r)
     @ enc_u64 (challenge_deadline r) @ enc_u128 (recovery_bond r)"

definition valid_RecoveryRequest :: "RecoveryRequest \<Rightarrow> bool" where
  "valid_RecoveryRequest r \<longleftrightarrow> RecoveryRequest_new r = Inr r"

fun enc_ScopeSelector :: "ScopeSelector \<Rightarrow> u8 list" where
  "enc_ScopeSelector Any = [0]"
| "enc_ScopeSelector (Exact value) = 1 # enc_Digest384 value"
| "enc_ScopeSelector (Prefix bytes bits) = 2 # enc_u16 bits @ enc_Digest384 bytes"

fun valid_ScopeSelector :: "ScopeSelector \<Rightarrow> bool" where
  "valid_ScopeSelector (Prefix bytes bits) \<longleftrightarrow> scope_prefix bytes bits = Inr (Prefix bytes bits)"
| "valid_ScopeSelector _ \<longleftrightarrow> True"

definition enc_ResourceSelector :: "ResourceSelector \<Rightarrow> u8 list" where
  "enc_ResourceSelector s = enc_ScopeSelector (resource_as_scope s)"

definition enc_DataSelector :: "DataSelector \<Rightarrow> u8 list" where
  "enc_DataSelector s = enc_ScopeSelector (data_as_scope s)"

fun enc_HolderBinding :: "HolderBinding \<Rightarrow> u8 list" where
  "enc_HolderBinding (HolderPrincipal p) = 0 # enc_typed_id p"
| "enc_HolderBinding (HolderPrivate c) = 1 # enc_Digest384 c"
| "enc_HolderBinding Bearer = [2]"

definition enc_BoundedActionSet :: "BoundedActionSet \<Rightarrow> u8 list" where
  "enc_BoundedActionSet s =
     enc_length (length (as_slice s)) @ enc_each enc_typed_id (as_slice s)"

definition valid_BoundedActionSet :: "BoundedActionSet \<Rightarrow> bool" where
  "valid_BoundedActionSet s \<longleftrightarrow> BoundedActionSet_new (as_slice s) = Inr s"

definition enc_RateLimit :: "RateLimit \<Rightarrow> u8 list" where
  "enc_RateLimit r = enc_u64 (maximum_uses r) @ enc_u64 (window_blocks r)"

definition valid_RateLimit :: "RateLimit \<Rightarrow> bool" where
  "valid_RateLimit r \<longleftrightarrow> RateLimit_new (maximum_uses r) (window_blocks r) = Inr r"

definition enc_CapabilityGrantFields :: "CapabilityGrantFields \<Rightarrow> u8 list" where
  "enc_CapabilityGrantFields f = enc_typed_id (capability_id f) @ enc_typed_id (issuer f)
     @ enc_HolderBinding (holder_binding f) @ enc_option enc_typed_id (parent_capability f)
     @ enc_BoundedActionSet (permitted_actions f) @ enc_ResourceSelector (resource_scope f)
     @ enc_DataSelector (data_scope f) @ enc_option enc_u128 (monetary_limit f)
     @ enc_option enc_u128 (compute_limit f) @ enc_option enc_RateLimit (rate_limit f)
     @ enc_option enc_u64 (use_limit f) @ enc_u64 (valid_from f)
     @ enc_option enc_u64 (valid_until f) @ [delegation_depth_remaining f]
     @ enc_bool (delegation_allowed f) @ enc_option enc_typed_id (revocation_registry f)
     @ enc_Digest384 (constraint_hash f)"

definition valid_CapabilityGrantFields :: "CapabilityGrantFields \<Rightarrow> bool" where
  "valid_CapabilityGrantFields f \<longleftrightarrow> valid_BoundedActionSet (permitted_actions f) \<and>
     valid_ScopeSelector (resource_as_scope (resource_scope f)) \<and>
     valid_ScopeSelector (data_as_scope (data_scope f)) \<and>
     valid_option valid_RateLimit (rate_limit f)"

definition enc_CapabilityGrant :: "CapabilityGrant \<Rightarrow> u8 list" where
  "enc_CapabilityGrant g =
     enc_CapabilityGrantFields (grant_fields g) @ enc_ProtocolSignature (issuer_signature g)"

definition valid_CapabilityGrant :: "CapabilityGrant \<Rightarrow> bool" where
  "valid_CapabilityGrant g \<longleftrightarrow> valid_CapabilityGrantFields (grant_fields g) \<and>
     valid_signature (issuer_signature g) \<and>
     CapabilityGrant_new (grant_fields g) (issuer_signature g) = Inr g"

section \<open>Codec laws\<close>

lemma RecoveryRequest_new_eq_Inr: "RecoveryRequest_new r = Inr r' \<longleftrightarrow>
  r' = r \<and> initiated_at r < challenge_deadline r"
  by (auto simp: RecoveryRequest_new_def)

interpretation recovery_request: bounded_envelope enc_RecoveryRequest RecoveryRequest_type
    valid_RecoveryRequest
  by unfold_locales
    (auto simp: RecoveryRequest_type_def enc_RecoveryRequest_def encode_RecoveryRequest_def
      decode_RecoveryRequest_def valid_RecoveryRequest_def RecoveryRequest_new_eq_Inr
      MAX_BODY_LENGTH_def codec_simps dest!: codec_dests)

lemma scope_prefix_eq_Inr: "scope_prefix bytes bits = Inr s \<longleftrightarrow>
  s = Prefix bytes bits \<and> bits \<noteq> 0 \<and> unat bits < 384 \<and> is_normalized_prefix (as_bytes bytes) bits"
  by (auto simp: scope_prefix_def DIGEST_LENGTH_def)

interpretation scope: canonical_codec enc_ScopeSelector encode_ScopeSelector
    decode_ScopeSelector valid_ScopeSelector
proof
  fix v xs m
  assume "valid_ScopeSelector v" "length (xs @ enc_ScopeSelector v) \<le> m" "m \<le> usize_max"
  then show "encode_ScopeSelector v (enc_at m xs) = Inr (enc_at m (xs @ enc_ScopeSelector v))"
    by (cases v) (simp_all add: codec_simps)
next
  fix v xs m e
  assume "encode_ScopeSelector v (enc_at m xs) = Inr e"
  then show "e = enc_at m (xs @ enc_ScopeSelector v) \<and> length (xs @ enc_ScopeSelector v) \<le> m"
    by (cases v) (auto dest!: codec_dests)
next
  fix v pre rest
  assume "valid_ScopeSelector v" "slice (pre @ enc_ScopeSelector v @ rest)"
  then show "decode_ScopeSelector (dec_at pre (enc_ScopeSelector v @ rest)) =
      Inr (v, dec_at (pre @ enc_ScopeSelector v) rest)"
    by (cases v) (simp_all add: decode_ScopeSelector_def codec_simps)
qed (auto simp: decode_ScopeSelector_def scope_prefix_eq_Inr dest!: codec_dests split: if_splits)

lemmas [codec_simps] = scope.laws
lemmas [codec_dests] = scope.inversions

interpretation resource_selector: canonical_codec enc_ResourceSelector encode_ResourceSelector
    decode_ResourceSelector "\<lambda>s. valid_ScopeSelector (resource_as_scope s)"
  by unfold_locales
    (auto simp: enc_ResourceSelector_def encode_ResourceSelector_def decode_ResourceSelector_def
      codec_simps dest!: codec_dests)

lemmas [codec_simps] = resource_selector.laws
lemmas [codec_dests] = resource_selector.inversions

interpretation data_selector: canonical_codec enc_DataSelector encode_DataSelector
    decode_DataSelector "\<lambda>s. valid_ScopeSelector (data_as_scope s)"
  by unfold_locales
    (auto simp: enc_DataSelector_def encode_DataSelector_def decode_DataSelector_def
      codec_simps dest!: codec_dests)

lemmas [codec_simps] = data_selector.laws
lemmas [codec_dests] = data_selector.inversions

interpretation holder: canonical_codec enc_HolderBinding encode_HolderBinding
    decode_HolderBinding "\<lambda>_. True"
proof
  fix v xs m
  assume "length (xs @ enc_HolderBinding v) \<le> m" "m \<le> usize_max"
  then show "encode_HolderBinding v (enc_at m xs) = Inr (enc_at m (xs @ enc_HolderBinding v))"
    by (cases v) (simp_all add: codec_simps)
next
  fix v xs m e
  assume "encode_HolderBinding v (enc_at m xs) = Inr e"
  then show "e = enc_at m (xs @ enc_HolderBinding v) \<and> length (xs @ enc_HolderBinding v) \<le> m"
    by (cases v) (auto dest!: codec_dests)
next
  fix v pre rest
  assume "slice (pre @ enc_HolderBinding v @ rest)"
  then show "decode_HolderBinding (dec_at pre (enc_HolderBinding v @ rest)) =
      Inr (v, dec_at (pre @ enc_HolderBinding v) rest)"
    by (cases v) (simp_all add: decode_HolderBinding_def codec_simps)
qed (auto simp: decode_HolderBinding_def dest!: codec_dests split: if_splits)

lemmas [codec_simps] = holder.laws
lemmas [codec_dests] = holder.inversions

lemma BoundedActionSet_new_eq_Inr: "BoundedActionSet_new as = Inr s \<longleftrightarrow>
  s = BoundedActionSet as \<and> as \<noteq> [] \<and> length as \<le> 32 \<and> strictly_increasing as"
  by (auto simp: BoundedActionSet_new_def MAX_CAPABILITY_ACTIONS_def)

lemma valid_BoundedActionSet_iff: "valid_BoundedActionSet s \<longleftrightarrow>
  as_slice s \<noteq> [] \<and> length (as_slice s) \<le> 32 \<and> strictly_increasing (as_slice s)"
  by (auto simp: valid_BoundedActionSet_def BoundedActionSet_new_eq_Inr)

interpretation action_set: canonical_codec enc_BoundedActionSet encode_BoundedActionSet
    decode_BoundedActionSet valid_BoundedActionSet
  by unfold_locales
    (auto simp: enc_BoundedActionSet_def encode_BoundedActionSet_def decode_BoundedActionSet_def
      valid_BoundedActionSet_iff BoundedActionSet_new_eq_Inr MAX_CAPABILITY_ACTIONS_def
      MAX_BODY_LENGTH_def codec_simps dest!: codec_dests)

lemmas [codec_simps] = action_set.laws
lemmas [codec_dests] = action_set.inversions

lemma RateLimit_new_eq_Inr: "RateLimit_new uses blocks = Inr r \<longleftrightarrow>
  r = \<lparr>maximum_uses = uses, window_blocks = blocks\<rparr> \<and> uses \<noteq> 0 \<and> blocks \<noteq> 0"
  by (auto simp: RateLimit_new_def)

interpretation rate_limit: canonical_codec enc_RateLimit encode_RateLimit decode_RateLimit
    valid_RateLimit
  by unfold_locales
    (auto simp: enc_RateLimit_def encode_RateLimit_def decode_RateLimit_def valid_RateLimit_def
      RateLimit_new_eq_Inr codec_simps dest!: codec_dests)

lemmas [codec_simps] = rate_limit.laws
lemmas [codec_dests] = rate_limit.inversions

lemma CapabilityGrant_new_eq_Inr: "CapabilityGrant_new f sig = Inr g \<longleftrightarrow>
  g = \<lparr>grant_fields = f, issuer_signature = sig\<rparr> \<and>
  parent_capability f \<noteq> Some (capability_id f) \<and>
  \<not> is_some_and (\<lambda>height. height < valid_from f) (valid_until f) \<and>
  (delegation_allowed f \<longleftrightarrow> delegation_depth_remaining f \<noteq> 0)"
proof -
  have "(1 :: u8) \<le> d \<longleftrightarrow> d \<noteq> 0" for d by (auto simp: word_le_nat_alt Suc_le_eq unat_gt_0)
  then show ?thesis by (auto simp: CapabilityGrant_new_def)
qed

interpretation grant_fields: canonical_codec enc_CapabilityGrantFields
    encode_CapabilityGrantFields decode_CapabilityGrantFields valid_CapabilityGrantFields
  by unfold_locales
    (auto simp: enc_CapabilityGrantFields_def encode_CapabilityGrantFields_def
      decode_CapabilityGrantFields_def valid_CapabilityGrantFields_def
      codec_simps dest!: codec_dests)

lemmas [codec_simps] = grant_fields.laws
lemmas [codec_dests] = grant_fields.inversions

lemma length_enc_ScopeSelector: "length (enc_ScopeSelector s) \<le> 51"
  by (cases s) simp_all

lemma length_enc_HolderBinding: "length (enc_HolderBinding h) \<le> 49"
  by (cases h) simp_all

lemma length_enc_BoundedActionSet:
  "valid_BoundedActionSet s \<Longrightarrow> length (enc_BoundedActionSet s) \<le> 1 + 32 * 48"
  using length_enc_each_le [of "\<lambda>_. True" "as_slice s" enc_typed_id 48]
  by (simp add: enc_BoundedActionSet_def valid_BoundedActionSet_iff enc_length_small)

lemma length_enc_option_fixed:
  "length (enc_option enc_u128 a) \<le> 17" "length (enc_option enc_typed_id i) \<le> 49"
  "length (enc_option enc_RateLimit r) \<le> 17"
  by (rule length_enc_option_le [of _ 16, simplified]
      length_enc_option_le [of _ 48, simplified]; simp add: enc_RateLimit_def)+

lemma length_enc_CapabilityGrantFields:
  assumes "valid_CapabilityGrantFields f"
  shows "length (enc_CapabilityGrantFields f) \<le> 2009"
  using assms length_enc_HolderBinding [of "holder_binding f"]
    length_enc_BoundedActionSet [of "permitted_actions f"]
    length_enc_ScopeSelector [of "resource_as_scope (resource_scope f)"]
    length_enc_ScopeSelector [of "data_as_scope (data_scope f)"]
    length_enc_option_fixed(1) [of "monetary_limit f"]
    length_enc_option_fixed(1) [of "compute_limit f"]
    length_enc_option_fixed(2) [of "parent_capability f"]
    length_enc_option_fixed(2) [of "revocation_registry f"]
    length_enc_option_fixed(3) [of "rate_limit f"]
    length_enc_option_u64 [of "use_limit f"] length_enc_option_u64 [of "valid_until f"]
  by (simp add: enc_CapabilityGrantFields_def enc_ResourceSelector_def enc_DataSelector_def
      valid_CapabilityGrantFields_def)

lemma length_enc_CapabilityGrant:
  "valid_CapabilityGrant g \<Longrightarrow> length (enc_CapabilityGrant g) \<le> 22024"
  using length_enc_CapabilityGrantFields [of "grant_fields g"]
    length_enc_ProtocolSignature [of "issuer_signature g"]
  by (simp add: enc_CapabilityGrant_def valid_CapabilityGrant_def)

interpretation grant: bounded_envelope enc_CapabilityGrant CapabilityGrant_type
    valid_CapabilityGrant
proof
  fix g
  assume "valid_CapabilityGrant g"
  then show "length (enc_CapabilityGrant g) \<le> ct_max_encoded_len CapabilityGrant_type"
    by (simp add: CapabilityGrant_type_def length_enc_CapabilityGrant)
qed (auto simp: CapabilityGrant_type_def enc_CapabilityGrant_def encode_CapabilityGrant_def
    decode_CapabilityGrant_def CapabilityGrant_new_eq_Inr valid_CapabilityGrant_def
    MAX_BODY_LENGTH_def codec_simps dest!: codec_dests)

section \<open>What an issuer signs\<close>

text \<open>The grant with its signature replaced by zero bytes of the same suite.\<close>

definition unsigned_grant :: "CapabilityGrant \<Rightarrow> CapabilityGrant" where
  "unsigned_grant g = \<lparr>grant_fields = grant_fields g, issuer_signature =
     \<lparr>sig_suite = sig_suite (issuer_signature g),
      sig_bytes = replicate (length (sig_bytes (issuer_signature g))) 0\<rparr>\<rparr>"

lemma unsigned_grant_valid: "valid_CapabilityGrant g \<Longrightarrow> valid_CapabilityGrant (unsigned_grant g)"
  by (simp add: valid_CapabilityGrant_def unsigned_grant_def valid_signature_iff CapabilityGrant_new_eq_Inr)

lemma signing_payload_eq:
  assumes "valid_CapabilityGrant g"
  shows "capability_signing_payload g chain =
    Inr (ascii ''ACTIVECHAIN-CAPABILITY-GRANT-V2'' @ as_bytes chain @ grant.envelope (unsigned_grant g))"
  using assms unsigned_grant_valid [OF assms]
    grant.encode_envelope_total [OF unsigned_grant_valid [OF assms]]
  by (auto simp: capability_signing_payload_def valid_CapabilityGrant_def unsigned_grant_def
      valid_signature_iff ProtocolSignature_new_eq_Inr CapabilityGrant_new_eq_Inr)

lemma signing_payload_binds:
  assumes "valid_CapabilityGrant g" "valid_CapabilityGrant h"
  shows "capability_signing_payload g chain = capability_signing_payload h chain' \<longleftrightarrow>
    chain = chain' \<and> grant_fields g = grant_fields h \<and>
    sig_suite (issuer_signature g) = sig_suite (issuer_signature h)"
proof
  assume eq: "capability_signing_payload g chain = capability_signing_payload h chain'"
  then have "as_bytes chain = as_bytes chain'"
    and env: "grant.envelope (unsigned_grant g) = grant.envelope (unsigned_grant h)"
    using assms by (simp_all add: signing_payload_eq)
  moreover have "unsigned_grant g = unsigned_grant h"
    using grant.envelope_injective [OF unsigned_grant_valid unsigned_grant_valid, OF assms] env
      grant.encode_envelope_total unsigned_grant_valid assms by metis
  ultimately show "chain = chain' \<and> grant_fields g = grant_fields h \<and>
      sig_suite (issuer_signature g) = sig_suite (issuer_signature h)"
    using digest_new_as_bytes [of chain] digest_new_as_bytes [of chain']
    by (simp add: unsigned_grant_def)
next
  assume eq: "chain = chain' \<and> grant_fields g = grant_fields h \<and>
    sig_suite (issuer_signature g) = sig_suite (issuer_signature h)"
  moreover from this assms have "length (sig_bytes (issuer_signature g)) = length (sig_bytes (issuer_signature h))"
    by (simp add: valid_CapabilityGrant_def valid_signature_iff)
  ultimately show "capability_signing_payload g chain = capability_signing_payload h chain'"
    using assms by (simp add: signing_payload_eq unsigned_grant_def)
qed

end
