(* ===== verification/Objects.thy ===== *)
theory Objects
  imports Authority
begin

text \<open>
  Versioned objects (\<^verbatim>\<open>protocol-types/src/object.rs\<close>) and the ownership transfer of
  \<^verbatim>\<open>object/src/lib.rs\<close>.  A transfer consumes exactly one version: it succeeds under six
  conditions, changes the owner and the version and nothing else, and never reaches the error
  that its last call can raise.
\<close>

section \<open>Objects\<close>

definition MAX_PUBLIC_OBJECT_VALUE :: usize where "MAX_PUBLIC_OBJECT_VALUE = 16384"

datatype ObjectOwner =
    OwnerPrincipal PrincipalId
  | OwnerShared
  | OwnerImmutable
  | OwnerCapabilityControlled CapabilityId
  | OwnerShielded Digest384

fun encode_ObjectOwner :: "ObjectOwner \<Rightarrow> encoder \<Rightarrow> encode_error + encoder" where
  "encode_ObjectOwner (OwnerPrincipal pid) e = and_then (write_u8 0 e) (\<lambda>e. encode_typed_id pid e)"
| "encode_ObjectOwner OwnerShared e = write_u8 1 e"
| "encode_ObjectOwner OwnerImmutable e = write_u8 2 e"
| "encode_ObjectOwner (OwnerCapabilityControlled cid) e =
     and_then (write_u8 3 e) (\<lambda>e. encode_typed_id cid e)"
| "encode_ObjectOwner (OwnerShielded commitment) e =
     and_then (write_u8 4 e) (\<lambda>e. encode_Digest384 commitment e)"

definition decode_ObjectOwner :: "decoder \<Rightarrow> decode_error + (ObjectOwner \<times> decoder)" where
  "decode_ObjectOwner d = and_then (read_u8 d) (\<lambda>(tag, d).
     if tag = 0 then and_then (decode_typed_id d) (\<lambda>(pid, d). Inr (OwnerPrincipal pid, d))
     else if tag = 1 then Inr (OwnerShared, d)
     else if tag = 2 then Inr (OwnerImmutable, d)
     else if tag = 3 then
       and_then (decode_typed_id d) (\<lambda>(cid, d). Inr (OwnerCapabilityControlled cid, d))
     else if tag = 4 then and_then (decode_Digest384 d) (\<lambda>(c, d). Inr (OwnerShielded c, d))
     else Inl (InvalidEnumTag ''ObjectOwner'' tag))"

datatype ObjectFlags = ObjectFlags (flag_bits: u16)

definition TRANSFERABLE :: ObjectFlags where "TRANSFERABLE = ObjectFlags 0x0001"
definition LINEAR :: ObjectFlags where "LINEAR = ObjectFlags 0x0002"
definition SYSTEM :: ObjectFlags where "SYSTEM = ObjectFlags 0x0004"
definition KNOWN_BITS :: u16 where
  "KNOWN_BITS = flag_bits TRANSFERABLE OR flag_bits LINEAR OR flag_bits SYSTEM"

datatype ObjectFlagsError = UnknownBits u16

definition from_bits :: "u16 \<Rightarrow> ObjectFlagsError + ObjectFlags" where
  "from_bits bits =
     (if bits AND NOT KNOWN_BITS \<noteq> 0 then Inl (UnknownBits (bits AND NOT KNOWN_BITS))
      else Inr (ObjectFlags bits))"

definition flags_union :: "ObjectFlags \<Rightarrow> ObjectFlags \<Rightarrow> ObjectFlags" where
  "flags_union a b = ObjectFlags (flag_bits a OR flag_bits b)"

definition flags_contains :: "ObjectFlags \<Rightarrow> ObjectFlags \<Rightarrow> bool" where
  "flags_contains flags flag = (flag_bits flags AND flag_bits flag = flag_bits flag)"

definition encode_ObjectFlags :: "ObjectFlags \<Rightarrow> encoder \<Rightarrow> encode_error + encoder" where
  "encode_ObjectFlags f e = write_u16 (flag_bits f) e"

definition decode_ObjectFlags :: "decoder \<Rightarrow> decode_error + (ObjectFlags \<times> decoder)" where
  "decode_ObjectFlags d = and_then (read_u16 d) (\<lambda>(bits, d).
     and_then (map_err (\<lambda>_. InvalidValue ''object flags contain unknown bits'') (from_bits bits))
       (\<lambda>f. Inr (f, d)))"

record Object =
  object_id :: ObjectId
  object_version :: u64
  type_id :: Digest384
  owner :: ObjectOwner
  control_policy_hash :: Digest384
  use_policy_hash :: Digest384
  disclosure_policy_hash :: Digest384
  upgrade_policy_hash :: Digest384
  package_id :: "PackageId option"
  value_root :: Digest384
  public_value :: "u8 list option"
  lease_expiry_epoch :: Epoch
  storage_deposit :: Amount
  flags :: ObjectFlags

datatype ObjectValidationError = PublicValueTooLarge usize usize | ImmutableMarkedTransferable

text \<open>\<^verbatim>\<open>ObjectFields\<close> has the obj of \<^verbatim>\<open>Object\<close>: one record serves for both.\<close>

definition Object_new :: "Object \<Rightarrow> ObjectValidationError + Object" where
  "Object_new obj =
     (if is_some_and (\<lambda>v. length v > MAX_PUBLIC_OBJECT_VALUE) (public_value obj)
      then Inl (PublicValueTooLarge (length (the (public_value obj))) MAX_PUBLIC_OBJECT_VALUE)
      else if owner obj = OwnerImmutable \<and> flags_contains (flags obj) TRANSFERABLE
      then Inl ImmutableMarkedTransferable
      else Inr obj)"

definition encode_Object :: "Object \<Rightarrow> encoder \<Rightarrow> encode_error + encoder" where
  "encode_Object ob e =
     and_then (encode_typed_id (object_id ob) e) (\<lambda>e.
     and_then (write_u64 (object_version ob) e) (\<lambda>e.
     and_then (encode_Digest384 (type_id ob) e) (\<lambda>e.
     and_then (encode_ObjectOwner (owner ob) e) (\<lambda>e.
     and_then (encode_Digest384 (control_policy_hash ob) e) (\<lambda>e.
     and_then (encode_Digest384 (use_policy_hash ob) e) (\<lambda>e.
     and_then (encode_Digest384 (disclosure_policy_hash ob) e) (\<lambda>e.
     and_then (encode_Digest384 (upgrade_policy_hash ob) e) (\<lambda>e.
     and_then (encode_option encode_typed_id (package_id ob) e) (\<lambda>e.
     and_then (encode_Digest384 (value_root ob) e) (\<lambda>e.
     and_then (encode_option (\<lambda>v. write_bytes v MAX_PUBLIC_OBJECT_VALUE) (public_value ob) e) (\<lambda>e.
     and_then (write_u64 (lease_expiry_epoch ob) e) (\<lambda>e.
     and_then (write_u128 (storage_deposit ob) e) (\<lambda>e.
     encode_ObjectFlags (flags ob) e)))))))))))))"

fun object_decode_error :: "ObjectValidationError \<Rightarrow> decode_error" where
  "object_decode_error (PublicValueTooLarge _ _) =
     InvalidValue ''object public value exceeds its bound''"
| "object_decode_error ImmutableMarkedTransferable =
     InvalidValue ''immutable object is marked transferable''"

definition decode_Object :: "decoder \<Rightarrow> decode_error + (Object \<times> decoder)" where
  "decode_Object d =
     and_then (decode_typed_id d) (\<lambda>(oid, d).
     and_then (read_u64 d) (\<lambda>(ver, d).
     and_then (decode_Digest384 d) (\<lambda>(ty, d).
     and_then (decode_ObjectOwner d) (\<lambda>(own, d).
     and_then (decode_Digest384 d) (\<lambda>(control, d).
     and_then (decode_Digest384 d) (\<lambda>(uses, d).
     and_then (decode_Digest384 d) (\<lambda>(disclosure, d).
     and_then (decode_Digest384 d) (\<lambda>(upgrade, d).
     and_then (decode_option decode_typed_id d) (\<lambda>(package, d).
     and_then (decode_Digest384 d) (\<lambda>(root, d).
     and_then (decode_option (read_bytes MAX_PUBLIC_OBJECT_VALUE) d) (\<lambda>(public, d).
     and_then (read_u64 d) (\<lambda>(lease, d).
     and_then (read_u128 d) (\<lambda>(deposit, d).
     and_then (decode_ObjectFlags d) (\<lambda>(flgs, d).
     and_then (map_err object_decode_error
       (Object_new \<lparr>object_id = oid, object_version = ver, type_id = ty, owner = own,
          control_policy_hash = control, use_policy_hash = uses,
          disclosure_policy_hash = disclosure, upgrade_policy_hash = upgrade,
          package_id = package, value_root = root, public_value = public,
          lease_expiry_epoch = lease, storage_deposit = deposit, flags = flgs\<rparr>))
       (\<lambda>ob. Inr (ob, d))))))))))))))))"

definition Object_type :: "Object canonical_type" where
  "Object_type = \<lparr>ct_encode = encode_Object, ct_decode = decode_Object, ct_type_tag = 0x0050,
     ct_schema_version = 1, ct_max_encoded_len = 16856\<rparr>"

section \<open>Version references and transfer\<close>

datatype ObjectVersionRef = ObjectVersionRef (ref_object_id: ObjectId) (ref_version: u64)

instantiation ObjectVersionRef :: linorder
begin

definition less_eq_ObjectVersionRef :: "ObjectVersionRef \<Rightarrow> ObjectVersionRef \<Rightarrow> bool" where
  "a \<le> b \<longleftrightarrow> ref_object_id a < ref_object_id b \<or>
     (ref_object_id a = ref_object_id b \<and> ref_version a \<le> ref_version b)"

definition less_ObjectVersionRef :: "ObjectVersionRef \<Rightarrow> ObjectVersionRef \<Rightarrow> bool" where
  "a < b \<longleftrightarrow> ref_object_id a < ref_object_id b \<or>
     (ref_object_id a = ref_object_id b \<and> ref_version a < ref_version b)"

instance
  by standard
    (auto simp: less_eq_ObjectVersionRef_def less_ObjectVersionRef_def ObjectVersionRef.expand)

end

definition encode_ObjectVersionRef :: "ObjectVersionRef \<Rightarrow> encoder \<Rightarrow> encode_error + encoder" where
  "encode_ObjectVersionRef r e =
     and_then (encode_typed_id (ref_object_id r) e) (\<lambda>e. write_u64 (ref_version r) e)"

definition decode_ObjectVersionRef :: "decoder \<Rightarrow> decode_error + (ObjectVersionRef \<times> decoder)" where
  "decode_ObjectVersionRef d =
     and_then (decode_typed_id d) (\<lambda>(oid, d).
     and_then (read_u64 d) (\<lambda>(ver, d). Inr (ObjectVersionRef oid ver, d)))"

datatype ObjectTransitionError =
    ObjectIdMismatch
  | StaleObjectVersion u64 u64
  | ImmutableObject
  | TransferDisabled
  | OwnerUnchanged
  | VersionExhausted
  | InvalidResult ObjectValidationError

definition transfer_object ::
    "Object \<Rightarrow> ObjectVersionRef \<Rightarrow> ObjectOwner \<Rightarrow> ObjectTransitionError + Object" where
  "transfer_object ob input new_owner =
     (if ref_object_id input \<noteq> object_id ob then Inl ObjectIdMismatch
      else if ref_version input \<noteq> object_version ob
      then Inl (StaleObjectVersion (ref_version input) (object_version ob))
      else if owner ob = OwnerImmutable \<or> new_owner = OwnerImmutable then Inl ImmutableObject
      else if \<not> flags_contains (flags ob) TRANSFERABLE then Inl TransferDisabled
      else if owner ob = new_owner then Inl OwnerUnchanged
      else
        and_then (ok_or VersionExhausted (checked_add (object_version ob) 1)) (\<lambda>next_version.
        map_err InvalidResult
          (Object_new (ob\<lparr>object_version := next_version, owner := new_owner\<rparr>))))"

section \<open>Wire formats\<close>

fun enc_ObjectOwner :: "ObjectOwner \<Rightarrow> u8 list" where
  "enc_ObjectOwner (OwnerPrincipal pid) = 0 # enc_typed_id pid"
| "enc_ObjectOwner OwnerShared = [1]"
| "enc_ObjectOwner OwnerImmutable = [2]"
| "enc_ObjectOwner (OwnerCapabilityControlled cid) = 3 # enc_typed_id cid"
| "enc_ObjectOwner (OwnerShielded c) = 4 # enc_Digest384 c"

definition enc_ObjectFlags :: "ObjectFlags \<Rightarrow> u8 list" where
  "enc_ObjectFlags f = enc_u16 (flag_bits f)"

definition valid_ObjectFlags :: "ObjectFlags \<Rightarrow> bool" where
  "valid_ObjectFlags f \<longleftrightarrow> from_bits (flag_bits f) = Inr f"

definition enc_Object :: "Object \<Rightarrow> u8 list" where
  "enc_Object ob = enc_typed_id (object_id ob) @ enc_u64 (object_version ob)
     @ enc_Digest384 (type_id ob) @ enc_ObjectOwner (owner ob)
     @ enc_Digest384 (control_policy_hash ob) @ enc_Digest384 (use_policy_hash ob)
     @ enc_Digest384 (disclosure_policy_hash ob) @ enc_Digest384 (upgrade_policy_hash ob)
     @ enc_option enc_typed_id (package_id ob) @ enc_Digest384 (value_root ob)
     @ enc_option enc_bytes_prefixed (public_value ob) @ enc_u64 (lease_expiry_epoch ob)
     @ enc_u128 (storage_deposit ob) @ enc_ObjectFlags (flags ob)"

definition valid_Object :: "Object \<Rightarrow> bool" where
  "valid_Object ob \<longleftrightarrow> valid_ObjectFlags (flags ob) \<and> Object_new ob = Inr ob"

definition enc_ObjectVersionRef :: "ObjectVersionRef \<Rightarrow> u8 list" where
  "enc_ObjectVersionRef r = enc_typed_id (ref_object_id r) @ enc_u64 (ref_version r)"

section \<open>Codec laws\<close>

interpretation object_owner: canonical_codec enc_ObjectOwner encode_ObjectOwner
    decode_ObjectOwner "\<lambda>_. True"
proof
  fix v xs m
  assume "length (xs @ enc_ObjectOwner v) \<le> m" "m \<le> usize_max"
  then show "encode_ObjectOwner v (enc_at m xs) = Inr (enc_at m (xs @ enc_ObjectOwner v))"
    by (cases v) (simp_all add: codec_simps)
next
  fix v xs m e
  assume "encode_ObjectOwner v (enc_at m xs) = Inr e"
  then show "e = enc_at m (xs @ enc_ObjectOwner v) \<and> length (xs @ enc_ObjectOwner v) \<le> m"
    by (cases v) (auto dest!: codec_dests)
next
  fix v pre rest
  assume "slice (pre @ enc_ObjectOwner v @ rest)"
  then show "decode_ObjectOwner (dec_at pre (enc_ObjectOwner v @ rest)) =
      Inr (v, dec_at (pre @ enc_ObjectOwner v) rest)"
    by (cases v) (simp_all add: decode_ObjectOwner_def codec_simps)
qed (auto simp: decode_ObjectOwner_def dest!: codec_dests split: if_splits)

lemmas [codec_simps] = object_owner.laws
lemmas [codec_dests] = object_owner.inversions

lemma from_bits_eq_Inr: "from_bits bits = Inr f \<longleftrightarrow> f = ObjectFlags bits \<and> bits AND NOT KNOWN_BITS = 0"
  by (auto simp: from_bits_def)

interpretation object_flags: canonical_codec enc_ObjectFlags encode_ObjectFlags
    decode_ObjectFlags valid_ObjectFlags
  by unfold_locales
    (auto simp: enc_ObjectFlags_def encode_ObjectFlags_def decode_ObjectFlags_def
      valid_ObjectFlags_def from_bits_eq_Inr codec_simps dest!: codec_dests)

lemmas [codec_simps] = object_flags.laws
lemmas [codec_dests] = object_flags.inversions

interpretation public_value: canonical_codec enc_bytes_prefixed
    "\<lambda>v. write_bytes v MAX_PUBLIC_OBJECT_VALUE" "read_bytes MAX_PUBLIC_OBJECT_VALUE"
    "\<lambda>v. length v \<le> MAX_PUBLIC_OBJECT_VALUE"
  by unfold_locales
    (auto simp: MAX_PUBLIC_OBJECT_VALUE_def MAX_BODY_LENGTH_def codec_simps dest!: codec_dests)

lemmas [codec_simps] = public_value.option_encode_at public_value.option_decode_at
lemmas [codec_dests] = public_value.option_encode_atD public_value.option_decode_atD

lemma Object_new_eq_Inr: "Object_new obj = Inr ob \<longleftrightarrow> ob = obj \<and>
  valid_option (\<lambda>v. length v \<le> MAX_PUBLIC_OBJECT_VALUE) (public_value obj) \<and>
  \<not> (owner obj = OwnerImmutable \<and> flags_contains (flags obj) TRANSFERABLE)"
  by (cases "public_value obj") (auto simp: Object_new_def)

lemma length_enc_ObjectOwner: "length (enc_ObjectOwner v) \<le> 49"
  by (cases v) simp_all

lemma length_enc_public_value:
  "valid_option (\<lambda>v. length v \<le> MAX_PUBLIC_OBJECT_VALUE) v \<Longrightarrow>
   length (enc_option enc_bytes_prefixed v) \<le> 16388"
  using length_uleb_le [of "length (the v)" 3]
  by (cases v) (simp_all add: enc_bytes_prefixed_def enc_length_def MAX_PUBLIC_OBJECT_VALUE_def)

interpretation object: bounded_envelope enc_Object Object_type valid_Object
proof
  fix ob
  assume "valid_Object ob"
  then show "length (enc_Object ob) \<le> ct_max_encoded_len Object_type"
    using length_enc_ObjectOwner [of "owner ob"] length_enc_public_value [of "public_value ob"]
      length_enc_option_fixed(2) [of "package_id ob"]
    by (simp add: enc_Object_def Object_type_def valid_Object_def Object_new_eq_Inr enc_ObjectFlags_def)
qed (auto simp: Object_type_def enc_Object_def encode_Object_def decode_Object_def
    Object_new_eq_Inr valid_Object_def MAX_BODY_LENGTH_def codec_simps dest!: codec_dests)

lemma Object_type_codec [simp]: "ct_encode Object_type = encode_Object" "ct_decode Object_type = decode_Object"
  by (simp_all add: Object_type_def)

lemmas [codec_simps] = object.laws [simplified]
lemmas [codec_dests] = object.inversions [simplified]

lemmas [codec_simps] = object.laws [simplified]
lemmas [codec_dests] = object.inversions [simplified]

lemma length_enc_ObjectVersionRef [simp]: "length (enc_ObjectVersionRef r) = 56"
  by (simp add: enc_ObjectVersionRef_def)

interpretation version_ref: canonical_codec enc_ObjectVersionRef encode_ObjectVersionRef
    decode_ObjectVersionRef "\<lambda>_. True"
  by unfold_locales
    (auto simp: enc_ObjectVersionRef_def encode_ObjectVersionRef_def decode_ObjectVersionRef_def
      codec_simps dest!: codec_dests)

lemmas [codec_simps] = version_ref.laws
lemmas [codec_dests] = version_ref.inversions

section \<open>Transfer\<close>

lemma transfer_object_eq_Inr:
  assumes "valid_Object ob"
  shows "transfer_object ob input new_owner = Inr ob' \<longleftrightarrow>
    input = ObjectVersionRef (object_id ob) (object_version ob) \<and>
    owner ob \<noteq> OwnerImmutable \<and> new_owner \<noteq> OwnerImmutable \<and>
    flags_contains (flags ob) TRANSFERABLE \<and> owner ob \<noteq> new_owner \<and>
    unat (object_version ob) + 1 < 2 ^ 64 \<and>
    ob' = ob\<lparr>object_version := object_version ob + 1, owner := new_owner\<rparr>"
  using assms
  by (cases input) (auto simp: transfer_object_def checked_add_def Object_new_eq_Inr valid_Object_def)

lemma transfer_object_valid:
  "valid_Object ob \<Longrightarrow> transfer_object ob input new_owner = Inr ob' \<Longrightarrow> valid_Object ob'"
  by (auto simp: transfer_object_eq_Inr valid_Object_def Object_new_eq_Inr)

lemma Object_new_transferred:
  "valid_Object ob \<Longrightarrow> new_owner \<noteq> OwnerImmutable \<Longrightarrow>
   Object_new (ob\<lparr>object_version := v, owner := new_owner\<rparr>) =
     Inr (ob\<lparr>object_version := v, owner := new_owner\<rparr>)"
  by (simp add: valid_Object_def Object_new_eq_Inr)

lemma transfer_object_no_invalid_result:
  "valid_Object ob \<Longrightarrow> transfer_object ob input new_owner \<noteq> Inl (InvalidResult err)"
  by (auto simp: transfer_object_def and_then_eq_Inl Object_new_transferred)

end
