(* ===== verification/Bytecode.thy ===== *)
theory Bytecode
  imports Protocol_Types
begin

text \<open>
  ObjectVM bytecode (\<^verbatim>\<open>bytecode-verifier/src/bytecode.rs\<close>): register types, instructions and
  structurally bounded programs with their canonical encoding.  A register, a target and an
  event bound keep the width they have in the code.
\<close>

section \<open>Instructions\<close>

definition MAX_VM_REGISTERS :: usize where "MAX_VM_REGISTERS = 32"
definition MAX_VM_INPUTS :: usize where "MAX_VM_INPUTS = 16"
definition MAX_VM_OUTPUTS :: usize where "MAX_VM_OUTPUTS = 16"
definition MAX_VM_INSTRUCTIONS :: usize where "MAX_VM_INSTRUCTIONS = 256"
definition MAX_VM_EVENTS :: usize where "MAX_VM_EVENTS = 16"

lemmas vm_bounds = MAX_VM_REGISTERS_def MAX_VM_INPUTS_def MAX_VM_OUTPUTS_def
  MAX_VM_INSTRUCTIONS_def MAX_VM_EVENTS_def

datatype VmValueType = TU64 | TBool | TDigest | TObject | TCapability

definition is_copyable :: "VmValueType \<Rightarrow> bool" where
  "is_copyable t \<longleftrightarrow> t = TU64 \<or> t = TBool \<or> t = TDigest"

definition is_affine :: "VmValueType \<Rightarrow> bool" where
  "is_affine t \<longleftrightarrow> t = TCapability"

definition is_linear :: "VmValueType \<Rightarrow> bool" where
  "is_linear t \<longleftrightarrow> t = TObject"

definition is_event_scalar :: "VmValueType \<Rightarrow> bool" where
  "is_event_scalar t = is_copyable t"

fun VmValueType_tag :: "VmValueType \<Rightarrow> u8" where
  "VmValueType_tag TU64 = 0"
| "VmValueType_tag TBool = 1"
| "VmValueType_tag TDigest = 2"
| "VmValueType_tag TObject = 3"
| "VmValueType_tag TCapability = 4"

definition encode_VmValueType :: "VmValueType \<Rightarrow> encoder \<Rightarrow> encode_error + encoder" where
  "encode_VmValueType v e = write_u8 (VmValueType_tag v) e"

definition decode_VmValueType :: "decoder \<Rightarrow> decode_error + (VmValueType \<times> decoder)" where
  "decode_VmValueType d = and_then (read_u8 d) (\<lambda>(tag, d).
     if tag = 0 then Inr (TU64, d)
     else if tag = 1 then Inr (TBool, d)
     else if tag = 2 then Inr (TDigest, d)
     else if tag = 3 then Inr (TObject, d)
     else if tag = 4 then Inr (TCapability, d)
     else Inl (InvalidEnumTag ''VmValueType'' tag))"

text \<open>The arguments are in the order of the fields: destination first, then operands.\<close>

datatype VmInstruction =
    LoadU64 u8 u64
  | LoadBool u8 bool
  | LoadDigest u8 Digest384
  | Copy u8 u8
  | Move u8 u8
  | AddU64 u8 u8 u8
  | EqU64 u8 u8 u8
  | Jump u16
  | BranchIf u8 u16
  | ConsumeCapability u8
  | Emit u8
  | Return "u8 list"

fun gas_cost :: "VmInstruction \<Rightarrow> u64" where
  "gas_cost (LoadDigest _ _) = 2"
| "gas_cost (AddU64 _ _ _) = 2"
| "gas_cost (Emit _) = 4"
| "gas_cost (Return sources) = 1 + word_of_nat (length sources)"
| "gas_cost _ = 1"

fun encode_VmInstruction :: "VmInstruction \<Rightarrow> encoder \<Rightarrow> encode_error + encoder" where
  "encode_VmInstruction (LoadU64 dst val) e =
     and_then (write_u8 0 e) (\<lambda>e. and_then (write_u8 dst e) (\<lambda>e. write_u64 val e))"
| "encode_VmInstruction (LoadBool dst val) e =
     and_then (write_u8 1 e) (\<lambda>e. and_then (write_u8 dst e) (\<lambda>e. write_bool val e))"
| "encode_VmInstruction (LoadDigest dst val) e =
     and_then (write_u8 2 e) (\<lambda>e. and_then (write_u8 dst e) (\<lambda>e. encode_Digest384 val e))"
| "encode_VmInstruction (Copy dst src) e =
     and_then (write_u8 3 e) (\<lambda>e. and_then (write_u8 dst e) (\<lambda>e. write_u8 src e))"
| "encode_VmInstruction (Move dst src) e =
     and_then (write_u8 4 e) (\<lambda>e. and_then (write_u8 dst e) (\<lambda>e. write_u8 src e))"
| "encode_VmInstruction (AddU64 dst l r) e =
     and_then (write_u8 5 e) (\<lambda>e. and_then (write_u8 dst e) (\<lambda>e.
     and_then (write_u8 l e) (\<lambda>e. write_u8 r e)))"
| "encode_VmInstruction (EqU64 dst l r) e =
     and_then (write_u8 6 e) (\<lambda>e. and_then (write_u8 dst e) (\<lambda>e.
     and_then (write_u8 l e) (\<lambda>e. write_u8 r e)))"
| "encode_VmInstruction (Jump tgt) e = and_then (write_u8 7 e) (\<lambda>e. write_u16 tgt e)"
| "encode_VmInstruction (BranchIf cond tgt) e =
     and_then (write_u8 8 e) (\<lambda>e. and_then (write_u8 cond e) (\<lambda>e. write_u16 tgt e))"
| "encode_VmInstruction (ConsumeCapability src) e =
     and_then (write_u8 9 e) (\<lambda>e. write_u8 src e)"
| "encode_VmInstruction (Emit src) e = and_then (write_u8 10 e) (\<lambda>e. write_u8 src e)"
| "encode_VmInstruction (Return srcs) e =
     and_then (write_u8 11 e) (\<lambda>e. encode_vec write_u8 MAX_VM_OUTPUTS srcs e)"

definition decode_VmInstruction :: "decoder \<Rightarrow> decode_error + (VmInstruction \<times> decoder)" where
  "decode_VmInstruction d = and_then (read_u8 d) (\<lambda>(tag, d).
     if tag = 0 then
       and_then (read_u8 d) (\<lambda>(dst, d). and_then (read_u64 d) (\<lambda>(val, d). Inr (LoadU64 dst val, d)))
     else if tag = 1 then
       and_then (read_u8 d) (\<lambda>(dst, d). and_then (read_bool d) (\<lambda>(val, d). Inr (LoadBool dst val, d)))
     else if tag = 2 then
       and_then (read_u8 d) (\<lambda>(dst, d).
       and_then (decode_Digest384 d) (\<lambda>(val, d). Inr (LoadDigest dst val, d)))
     else if tag = 3 then
       and_then (read_u8 d) (\<lambda>(dst, d). and_then (read_u8 d) (\<lambda>(src, d). Inr (Copy dst src, d)))
     else if tag = 4 then
       and_then (read_u8 d) (\<lambda>(dst, d). and_then (read_u8 d) (\<lambda>(src, d). Inr (Move dst src, d)))
     else if tag = 5 then
       and_then (read_u8 d) (\<lambda>(dst, d). and_then (read_u8 d) (\<lambda>(l, d).
       and_then (read_u8 d) (\<lambda>(r, d). Inr (AddU64 dst l r, d))))
     else if tag = 6 then
       and_then (read_u8 d) (\<lambda>(dst, d). and_then (read_u8 d) (\<lambda>(l, d).
       and_then (read_u8 d) (\<lambda>(r, d). Inr (EqU64 dst l r, d))))
     else if tag = 7 then and_then (read_u16 d) (\<lambda>(tgt, d). Inr (Jump tgt, d))
     else if tag = 8 then
       and_then (read_u8 d) (\<lambda>(cond, d).
       and_then (read_u16 d) (\<lambda>(tgt, d). Inr (BranchIf cond tgt, d)))
     else if tag = 9 then and_then (read_u8 d) (\<lambda>(src, d). Inr (ConsumeCapability src, d))
     else if tag = 10 then and_then (read_u8 d) (\<lambda>(src, d). Inr (Emit src, d))
     else if tag = 11 then
       and_then (decode_vec read_u8 MAX_VM_OUTPUTS d) (\<lambda>(srcs, d). Inr (Return srcs, d))
     else Inl (InvalidEnumTag ''VmInstruction'' tag))"

section \<open>Programs\<close>

record VmProgram =
  input_count :: u8
  register_types :: "VmValueType list"
  output_types :: "VmValueType list"
  instructions :: "VmInstruction list"
  maximum_events :: u8

datatype VmProgramValidationError =
    EmptyRegisters
  | TooManyRegisters usize usize
  | TooManyInputs usize usize
  | InputCountExceedsRegisters
  | TooManyOutputs usize usize
  | EmptyInstructions
  | TooManyInstructions usize usize
  | TooManyReturnSources usize usize
  | TooManyEvents usize usize

fun check_return_sources :: "VmInstruction list \<Rightarrow> VmProgramValidationError + unit" where
  "check_return_sources [] = Inr ()"
| "check_return_sources (Return srcs # rest) =
     (if length srcs > MAX_VM_OUTPUTS then Inl (TooManyReturnSources (length srcs) MAX_VM_OUTPUTS)
      else check_return_sources rest)"
| "check_return_sources (_ # rest) = check_return_sources rest"

definition VmProgram_new :: "VmProgram \<Rightarrow> VmProgramValidationError + VmProgram" where
  "VmProgram_new p =
     (if register_types p = [] then Inl EmptyRegisters
      else if length (register_types p) > MAX_VM_REGISTERS
      then Inl (TooManyRegisters (length (register_types p)) MAX_VM_REGISTERS)
      else if unat (input_count p) > MAX_VM_INPUTS
      then Inl (TooManyInputs (unat (input_count p)) MAX_VM_INPUTS)
      else if unat (input_count p) > length (register_types p) then Inl InputCountExceedsRegisters
      else if length (output_types p) > MAX_VM_OUTPUTS
      then Inl (TooManyOutputs (length (output_types p)) MAX_VM_OUTPUTS)
      else if instructions p = [] then Inl EmptyInstructions
      else if length (instructions p) > MAX_VM_INSTRUCTIONS
      then Inl (TooManyInstructions (length (instructions p)) MAX_VM_INSTRUCTIONS)
      else and_then (check_return_sources (instructions p)) (\<lambda>_.
        if unat (maximum_events p) > MAX_VM_EVENTS
        then Inl (TooManyEvents (unat (maximum_events p)) MAX_VM_EVENTS)
        else Inr p))"

definition encode_VmProgram :: "VmProgram \<Rightarrow> encoder \<Rightarrow> encode_error + encoder" where
  "encode_VmProgram p e =
     and_then (write_u8 (input_count p) e) (\<lambda>e.
     and_then (encode_vec encode_VmValueType MAX_VM_REGISTERS (register_types p) e) (\<lambda>e.
     and_then (encode_vec encode_VmValueType MAX_VM_OUTPUTS (output_types p) e) (\<lambda>e.
     and_then (encode_vec encode_VmInstruction MAX_VM_INSTRUCTIONS (instructions p) e) (\<lambda>e.
     write_u8 (maximum_events p) e))))"

fun program_validation_decode_error :: "VmProgramValidationError \<Rightarrow> decode_error" where
  "program_validation_decode_error EmptyRegisters =
     InvalidValue ''ObjectVM program declares no registers''"
| "program_validation_decode_error (TooManyRegisters _ _) =
     InvalidValue ''ObjectVM program exceeds the register bound''"
| "program_validation_decode_error (TooManyInputs _ _) =
     InvalidValue ''ObjectVM program exceeds the input bound''"
| "program_validation_decode_error InputCountExceedsRegisters =
     InvalidValue ''ObjectVM input count exceeds its registers''"
| "program_validation_decode_error (TooManyOutputs _ _) =
     InvalidValue ''ObjectVM program exceeds the output bound''"
| "program_validation_decode_error EmptyInstructions =
     InvalidValue ''ObjectVM program has no instructions''"
| "program_validation_decode_error (TooManyInstructions _ _) =
     InvalidValue ''ObjectVM program exceeds the instruction bound''"
| "program_validation_decode_error (TooManyReturnSources _ _) =
     InvalidValue ''ObjectVM return exceeds the output bound''"
| "program_validation_decode_error (TooManyEvents _ _) =
     InvalidValue ''ObjectVM program exceeds the event bound''"

definition decode_VmProgram :: "decoder \<Rightarrow> decode_error + (VmProgram \<times> decoder)" where
  "decode_VmProgram d =
     and_then (read_u8 d) (\<lambda>(inputs, d).
     and_then (decode_vec decode_VmValueType MAX_VM_REGISTERS d) (\<lambda>(registers, d).
     and_then (decode_vec decode_VmValueType MAX_VM_OUTPUTS d) (\<lambda>(outs, d).
     and_then (decode_vec decode_VmInstruction MAX_VM_INSTRUCTIONS d) (\<lambda>(code, d).
     and_then (read_u8 d) (\<lambda>(events, d).
     and_then (map_err program_validation_decode_error
       (VmProgram_new \<lparr>input_count = inputs, register_types = registers, output_types = outs,
          instructions = code, maximum_events = events\<rparr>))
       (\<lambda>p. Inr (p, d)))))))"

definition VmProgram_MAX_ENCODED_LEN :: usize where "VmProgram_MAX_ENCODED_LEN = 12854"

definition VmProgram_type :: "VmProgram canonical_type" where
  "VmProgram_type = \<lparr>ct_encode = encode_VmProgram, ct_decode = decode_VmProgram,
     ct_type_tag = 0x0060, ct_schema_version = 1,
     ct_max_encoded_len = VmProgram_MAX_ENCODED_LEN\<rparr>"

section \<open>Wire formats and codec laws\<close>

definition enc_VmValueType :: "VmValueType \<Rightarrow> u8 list" where
  "enc_VmValueType v = [VmValueType_tag v]"

fun enc_VmInstruction :: "VmInstruction \<Rightarrow> u8 list" where
  "enc_VmInstruction (LoadU64 dst val) = 0 # dst # enc_u64 val"
| "enc_VmInstruction (LoadBool dst val) = 1 # dst # enc_bool val"
| "enc_VmInstruction (LoadDigest dst val) = 2 # dst # enc_Digest384 val"
| "enc_VmInstruction (Copy dst src) = [3, dst, src]"
| "enc_VmInstruction (Move dst src) = [4, dst, src]"
| "enc_VmInstruction (AddU64 dst l r) = [5, dst, l, r]"
| "enc_VmInstruction (EqU64 dst l r) = [6, dst, l, r]"
| "enc_VmInstruction (Jump tgt) = 7 # enc_u16 tgt"
| "enc_VmInstruction (BranchIf cond tgt) = 8 # cond # enc_u16 tgt"
| "enc_VmInstruction (ConsumeCapability src) = [9, src]"
| "enc_VmInstruction (Emit src) = [10, src]"
| "enc_VmInstruction (Return srcs) = 11 # enc_length (length srcs) @ enc_each enc_u8 srcs"

fun valid_VmInstruction :: "VmInstruction \<Rightarrow> bool" where
  "valid_VmInstruction (Return srcs) \<longleftrightarrow> length srcs \<le> 16"
| "valid_VmInstruction _ \<longleftrightarrow> True"

definition enc_VmProgram :: "VmProgram \<Rightarrow> u8 list" where
  "enc_VmProgram p = [input_count p]
     @ enc_length (length (register_types p)) @ enc_each enc_VmValueType (register_types p)
     @ enc_length (length (output_types p)) @ enc_each enc_VmValueType (output_types p)
     @ enc_length (length (instructions p)) @ enc_each enc_VmInstruction (instructions p)
     @ [maximum_events p]"

definition valid_VmProgram :: "VmProgram \<Rightarrow> bool" where
  "valid_VmProgram p \<longleftrightarrow> VmProgram_new p = Inr p"

interpretation value_type: canonical_codec enc_VmValueType encode_VmValueType
    decode_VmValueType "\<lambda>_. True"
proof
  fix v pre rest
  assume "slice (pre @ enc_VmValueType v @ rest)"
  then show "decode_VmValueType (dec_at pre (enc_VmValueType v @ rest)) =
      Inr (v, dec_at (pre @ enc_VmValueType v) rest)"
    by (cases v) (simp_all add: enc_VmValueType_def decode_VmValueType_def codec_simps)
qed (auto simp: enc_VmValueType_def encode_VmValueType_def decode_VmValueType_def codec_simps
    dest!: codec_dests split: if_splits)

lemmas [codec_simps] = value_type.laws
lemmas [codec_dests] = value_type.inversions

interpretation instruction: canonical_codec enc_VmInstruction encode_VmInstruction
    decode_VmInstruction valid_VmInstruction
proof
  fix v xs m
  assume "valid_VmInstruction v" "length (xs @ enc_VmInstruction v) \<le> m" "m \<le> usize_max"
  then show "encode_VmInstruction v (enc_at m xs) = Inr (enc_at m (xs @ enc_VmInstruction v))"
    by (cases v) (simp_all add: codec_simps vm_bounds MAX_BODY_LENGTH_def)
next
  fix v xs m e
  assume "encode_VmInstruction v (enc_at m xs) = Inr e"
  then show "e = enc_at m (xs @ enc_VmInstruction v) \<and> length (xs @ enc_VmInstruction v) \<le> m"
    by (cases v) (auto dest!: codec_dests)
next
  fix v pre rest
  assume "valid_VmInstruction v" "slice (pre @ enc_VmInstruction v @ rest)"
  then show "decode_VmInstruction (dec_at pre (enc_VmInstruction v @ rest)) =
      Inr (v, dec_at (pre @ enc_VmInstruction v) rest)"
    by (cases v) (simp_all add: decode_VmInstruction_def codec_simps vm_bounds MAX_BODY_LENGTH_def)
qed (auto simp: decode_VmInstruction_def vm_bounds dest!: codec_dests split: if_splits)

lemmas [codec_simps] = instruction.laws
lemmas [codec_dests] = instruction.inversions

lemma check_return_sources_eq_Inr [simp]:
  "check_return_sources code = Inr () \<longleftrightarrow> list_all valid_VmInstruction code"
  by (induction code rule: check_return_sources.induct) (auto simp: vm_bounds)

lemma VmProgram_new_eq_Inr: "VmProgram_new p = Inr p' \<longleftrightarrow> p' = p \<and>
  register_types p \<noteq> [] \<and> length (register_types p) \<le> 32 \<and> unat (input_count p) \<le> 16 \<and>
  unat (input_count p) \<le> length (register_types p) \<and> length (output_types p) \<le> 16 \<and>
  instructions p \<noteq> [] \<and> length (instructions p) \<le> 256 \<and>
  list_all valid_VmInstruction (instructions p) \<and> unat (maximum_events p) \<le> 16"
  by (auto simp: VmProgram_new_def vm_bounds not_less)

lemma length_enc_each_u8 [simp]: "length (enc_each enc_u8 vs) = length vs"
  by (induction vs) simp_all

lemma length_enc_VmInstruction: "valid_VmInstruction i \<Longrightarrow> length (enc_VmInstruction i) \<le> 50"
  by (cases i) (simp_all add: enc_length_small)

lemma length_enc_VmProgram:
  assumes "valid_VmProgram p"
  shows "length (enc_VmProgram p) \<le> 12854"
proof -
  from assms have valid: "list_all valid_VmInstruction (instructions p)"
    and counts: "length (register_types p) \<le> 32" "length (output_types p) \<le> 16"
      "length (instructions p) \<le> 256"
    by (simp_all add: valid_VmProgram_def VmProgram_new_eq_Inr)
  have "length (enc_each enc_VmInstruction (instructions p)) \<le> length (instructions p) * 50"
    using valid length_enc_VmInstruction by (rule length_enc_each_le)
  moreover have "length (enc_length (length (instructions p))) \<le> 2"
    using counts(3) length_uleb_le [of "length (instructions p)" 2] by (simp add: enc_length_def)
  ultimately show ?thesis
    using counts length_enc_each_bounded [OF counts(1), of enc_VmValueType 1]
      length_enc_each_bounded [OF counts(2), of enc_VmValueType 1]
    by (simp add: enc_VmProgram_def enc_length_small enc_VmValueType_def)
qed

interpretation program: bounded_envelope enc_VmProgram VmProgram_type valid_VmProgram
proof
  fix p
  assume "valid_VmProgram p"
  then show "length (enc_VmProgram p) \<le> ct_max_encoded_len VmProgram_type"
    by (simp add: VmProgram_type_def VmProgram_MAX_ENCODED_LEN_def length_enc_VmProgram)
qed (auto simp: VmProgram_type_def VmProgram_MAX_ENCODED_LEN_def enc_VmProgram_def
    encode_VmProgram_def decode_VmProgram_def VmProgram_new_eq_Inr valid_VmProgram_def vm_bounds
    MAX_BODY_LENGTH_def codec_simps dest!: codec_dests)

lemma VmProgram_type_codec [simp]:
  "ct_encode VmProgram_type = encode_VmProgram" "ct_decode VmProgram_type = decode_VmProgram"
  by (simp_all add: VmProgram_type_def)

lemmas [codec_simps] = program.laws [simplified]
lemmas [codec_dests] = program.inversions [simplified]

end
