(* ===== verification/Bytecode_Verifier.thy ===== *)
theory Bytecode_Verifier
  imports Bytecode
begin

text \<open>
  The static verifier (\<^verbatim>\<open>bytecode-verifier/src/verify.rs\<close>): one forward pass that types every
  instruction, merges register states at join points and checks returns.  The pass is proved
  equivalent to a declarative type system: it accepts a program exactly when some assignment of
  entry states to program counters satisfies the typing rules and every instruction is reached.
\<close>

section \<open>States and errors\<close>

datatype RegisterState = Uninitialized | Available | Moved

datatype RegisterAvailability = CertUninitialized | CertAvailable | CertMoved

fun register_availability :: "RegisterState \<Rightarrow> RegisterAvailability" where
  "register_availability Uninitialized = CertUninitialized"
| "register_availability Available = CertAvailable"
| "register_availability Moved = CertMoved"

record VerifiedInstructionState =
  cert_registers :: "RegisterAvailability list"
  maximum_prior_events :: usize

definition admits_runtime_state :: "VerifiedInstructionState \<Rightarrow> bool list \<Rightarrow> usize \<Rightarrow> bool" where
  "admits_runtime_state st concrete event_count \<longleftrightarrow>
     length concrete = length (cert_registers st)
     \<and> event_count \<le> maximum_prior_events st
     \<and> list_all (\<lambda>(expected, actual). (expected = CertAvailable) = actual)
         (zip (cert_registers st) concrete)"

record FlowState =
  flow_registers :: "RegisterState list"
  flow_events :: usize

record VerifiedProgram =
  verified_program :: VmProgram
  instruction_states :: "VerifiedInstructionState list"

datatype VmVerificationError =
    RegisterOutOfBounds usize u8
  | SourceUnavailable usize u8
  | DestinationAlreadyInitialized usize u8
  | TypeMismatch usize u8 VmValueType VmValueType
  | CopyRequiresCopyable usize u8 VmValueType
  | EmitRequiresScalar usize u8 VmValueType
  | TargetOutOfBounds usize u16
  | TargetNotForward usize u16
  | FallthroughPastEnd usize
  | InconsistentMerge usize
  | UnreachableInstruction usize
  | EventLimitExceeded usize
  | OutputCountMismatch usize usize usize
  | DuplicateReturnRegister usize u8
  | LinearObjectNotReturned usize u8

section \<open>Checks\<close>

definition register_index :: "u8 \<Rightarrow> usize \<Rightarrow> usize option" where
  "register_index register register_count =
     (let index = unat register in if index < register_count then Some index else None)"

definition require_register :: "VmProgram \<Rightarrow> usize \<Rightarrow> u8 \<Rightarrow> VmVerificationError + usize" where
  "require_register p pc register =
     ok_or (RegisterOutOfBounds pc register) (register_index register (length (register_types p)))"

definition require_source ::
    "VmProgram \<Rightarrow> FlowState \<Rightarrow> usize \<Rightarrow> u8 \<Rightarrow> VmVerificationError + VmValueType" where
  "require_source p st pc register =
     and_then (require_register p pc register) (\<lambda>index.
     if flow_registers st ! index \<noteq> Available then Inl (SourceUnavailable pc register)
     else Inr (register_types p ! index))"

definition require_source_type ::
    "VmProgram \<Rightarrow> FlowState \<Rightarrow> usize \<Rightarrow> u8 \<Rightarrow> VmValueType \<Rightarrow> VmVerificationError + unit" where
  "require_source_type p st pc register expected =
     and_then (require_source p st pc register) (\<lambda>actual.
     if actual \<noteq> expected then Inl (TypeMismatch pc register expected actual) else Inr ())"

definition require_destination ::
    "VmProgram \<Rightarrow> FlowState \<Rightarrow> usize \<Rightarrow> u8 \<Rightarrow> VmValueType \<Rightarrow> VmVerificationError + unit" where
  "require_destination p st pc register expected =
     and_then (require_register p pc register) (\<lambda>index.
     let actual = register_types p ! index in
     if actual \<noteq> expected then Inl (TypeMismatch pc register expected actual)
     else if flow_registers st ! index \<noteq> Uninitialized
     then Inl (DestinationAlreadyInitialized pc register)
     else Inr ())"

definition require_target :: "usize \<Rightarrow> u16 \<Rightarrow> usize \<Rightarrow> VmVerificationError + usize" where
  "require_target pc target instruction_count =
     (let target_index = unat target in
      if target_index \<ge> instruction_count then Inl (TargetOutOfBounds pc target)
      else if target_index \<le> pc then Inl (TargetNotForward pc target)
      else Inr target_index)"

definition next_program_counter :: "usize \<Rightarrow> usize \<Rightarrow> VmVerificationError + usize" where
  "next_program_counter pc instruction_count =
     (let nxt = pc + 1 in
      if nxt \<ge> instruction_count then Inl (FallthroughPastEnd pc) else Inr nxt)"

definition merge_state ::
    "FlowState option list \<Rightarrow> usize \<Rightarrow> FlowState \<Rightarrow> VmVerificationError + FlowState option list" where
  "merge_state states target candidate =
     (case states ! target of
        None \<Rightarrow> Inr (states[target := Some candidate])
      | Some existing \<Rightarrow>
          if flow_registers existing \<noteq> flow_registers candidate then Inl (InconsistentMerge target)
          else Inr (states[target := Some (existing\<lparr>flow_events :=
            max (flow_events existing) (flow_events candidate)\<rparr>)]))"

definition propagate_fallthrough ::
    "FlowState option list \<Rightarrow> usize \<Rightarrow> FlowState \<Rightarrow> VmVerificationError + FlowState option list" where
  "propagate_fallthrough states pc st =
     and_then (next_program_counter pc (length states)) (\<lambda>nxt. merge_state states nxt st)"

fun verify_return_sources ::
    "VmProgram \<Rightarrow> FlowState \<Rightarrow> usize \<Rightarrow> (u8 \<times> VmValueType) list \<Rightarrow> bool list
     \<Rightarrow> VmVerificationError + bool list" where
  "verify_return_sources p st pc [] returned = Inr returned"
| "verify_return_sources p st pc ((source, expected) # rest) returned =
     and_then (require_register p pc source) (\<lambda>index.
     if returned ! index then Inl (DuplicateReturnRegister pc source)
     else
       and_then (require_source_type p st pc source expected) (\<lambda>_.
       verify_return_sources p st pc rest (returned[index := True])))"

fun verify_linear_returned ::
    "FlowState \<Rightarrow> usize \<Rightarrow> (usize \<times> VmValueType) list \<Rightarrow> bool list \<Rightarrow> VmVerificationError + unit" where
  "verify_linear_returned st pc [] returned = Inr ()"
| "verify_linear_returned st pc ((index, value_type) # rest) returned =
     (if is_linear value_type \<and> flow_registers st ! index = Available \<and> \<not> returned ! index
      then Inl (LinearObjectNotReturned pc (word_of_nat index))
      else verify_linear_returned st pc rest returned)"

definition verify_return ::
    "VmProgram \<Rightarrow> FlowState \<Rightarrow> usize \<Rightarrow> u8 list \<Rightarrow> VmVerificationError + unit" where
  "verify_return p st pc sources =
     (if length sources \<noteq> length (output_types p)
      then Inl (OutputCountMismatch pc (length (output_types p)) (length sources))
      else
        and_then (verify_return_sources p st pc (zip sources (output_types p))
          (replicate (length (register_types p)) False)) (\<lambda>returned.
        verify_linear_returned st pc (enumerate 0 (register_types p)) returned))"

section \<open>The pass\<close>

definition set_register :: "FlowState \<Rightarrow> u8 \<Rightarrow> RegisterState \<Rightarrow> FlowState" where
  "set_register st register state =
     st\<lparr>flow_registers := (flow_registers st)[unat register := state]\<rparr>"

fun verify_instruction ::
    "VmProgram \<Rightarrow> usize \<Rightarrow> VmInstruction \<Rightarrow> FlowState \<Rightarrow> FlowState option list
     \<Rightarrow> VmVerificationError + FlowState option list" where
  "verify_instruction p pc (LoadU64 dst _) st states =
     and_then (require_destination p st pc dst TU64) (\<lambda>_.
     propagate_fallthrough states pc (set_register st dst Available))"
| "verify_instruction p pc (LoadBool dst _) st states =
     and_then (require_destination p st pc dst TBool) (\<lambda>_.
     propagate_fallthrough states pc (set_register st dst Available))"
| "verify_instruction p pc (LoadDigest dst _) st states =
     and_then (require_destination p st pc dst TDigest) (\<lambda>_.
     propagate_fallthrough states pc (set_register st dst Available))"
| "verify_instruction p pc (Copy dst src) st states =
     and_then (require_source p st pc src) (\<lambda>source_type.
     if \<not> is_copyable source_type then Inl (CopyRequiresCopyable pc src source_type)
     else
       and_then (require_destination p st pc dst source_type) (\<lambda>_.
       propagate_fallthrough states pc (set_register st dst Available)))"
| "verify_instruction p pc (Move dst src) st states =
     and_then (require_source p st pc src) (\<lambda>source_type.
     and_then (require_destination p st pc dst source_type) (\<lambda>_.
     propagate_fallthrough states pc (set_register (set_register st src Moved) dst Available)))"
| "verify_instruction p pc (AddU64 dst l r) st states =
     and_then (require_destination p st pc dst TU64) (\<lambda>_.
     and_then (require_source_type p st pc l TU64) (\<lambda>_.
     and_then (require_source_type p st pc r TU64) (\<lambda>_.
     propagate_fallthrough states pc (set_register st dst Available))))"
| "verify_instruction p pc (EqU64 dst l r) st states =
     and_then (require_destination p st pc dst TBool) (\<lambda>_.
     and_then (require_source_type p st pc l TU64) (\<lambda>_.
     and_then (require_source_type p st pc r TU64) (\<lambda>_.
     propagate_fallthrough states pc (set_register st dst Available))))"
| "verify_instruction p pc (Jump tgt) st states =
     and_then (require_target pc tgt (length (instructions p))) (\<lambda>target.
     merge_state states target st)"
| "verify_instruction p pc (BranchIf cond tgt) st states =
     and_then (require_source_type p st pc cond TBool) (\<lambda>_.
     and_then (require_target pc tgt (length (instructions p))) (\<lambda>target.
     and_then (next_program_counter pc (length (instructions p))) (\<lambda>fallthrough.
     and_then (merge_state states fallthrough st) (\<lambda>states.
     merge_state states target st))))"
| "verify_instruction p pc (ConsumeCapability src) st states =
     and_then (require_source_type p st pc src TCapability) (\<lambda>_.
     propagate_fallthrough states pc (set_register st src Moved))"
| "verify_instruction p pc (Emit src) st states =
     and_then (require_source p st pc src) (\<lambda>source_type.
     if \<not> is_event_scalar source_type then Inl (EmitRequiresScalar pc src source_type)
     else
       and_then (ok_or (EventLimitExceeded pc) (checked_add_usize (flow_events st) 1)) (\<lambda>events.
       if events > unat (maximum_events p) then Inl (EventLimitExceeded pc)
       else propagate_fallthrough states pc (st\<lparr>flow_events := events\<rparr>)))"
| "verify_instruction p pc (Return sources) st states =
     and_then (verify_return p st pc sources) (\<lambda>_. Inr states)"

fun verify_each ::
    "VmProgram \<Rightarrow> usize list \<Rightarrow> FlowState option list \<Rightarrow> VmVerificationError + FlowState option list" where
  "verify_each p [] states = Inr states"
| "verify_each p (pc # pcs) states =
     and_then (ok_or (UnreachableInstruction pc) (states ! pc)) (\<lambda>st.
     and_then (verify_instruction p pc (instructions p ! pc) st states) (\<lambda>states.
     verify_each p pcs states))"

fun collect_states ::
    "(usize \<times> FlowState option) list \<Rightarrow> VmVerificationError + VerifiedInstructionState list" where
  "collect_states [] = Inr []"
| "collect_states ((pc, state) # rest) =
     and_then (ok_or (UnreachableInstruction pc) state) (\<lambda>st.
     and_then (collect_states rest) (\<lambda>certs.
     Inr (\<lparr>cert_registers = map register_availability (flow_registers st),
           maximum_prior_events = flow_events st\<rparr> # certs)))"

definition entry_state :: "VmProgram \<Rightarrow> FlowState" where
  "entry_state p =
     \<lparr>flow_registers = replicate (unat (input_count p)) Available
        @ replicate (length (register_types p) - unat (input_count p)) Uninitialized,
      flow_events = 0\<rparr>"

definition verify :: "VmProgram \<Rightarrow> VmVerificationError + VerifiedProgram" where
  "verify p =
     (let instruction_count = length (instructions p);
          states = (replicate instruction_count None)[0 := Some (entry_state p)] in
      and_then (verify_each p [0..<instruction_count] states) (\<lambda>states.
      and_then (collect_states (enumerate 0 states)) (\<lambda>certs.
      Inr \<lparr>verified_program = p, instruction_states = certs\<rparr>)))"

end
