(* ===== verification/Object_VM.thy ===== *)
theory Object_VM
  imports Objects Bytecode_Verifier
begin

text \<open>
  The ObjectVM interpreter (\<^verbatim>\<open>object-vm/src/value.rs\<close>, \<^verbatim>\<open>execute.rs\<close> and
  \<^verbatim>\<open>evidence.rs\<close>): runtime values, the metered execution loop, its successful results and
  replayable execution evidence.  The loop is a total function: every iteration takes one more
  of the 65535 steps that the step counter can count before the code reports an error.
\<close>

section \<open>Values and results\<close>

datatype VmValue =
    U64 u64
  | Bool bool
  | Digest Digest384
  | VmObject Object
  | VmCapability CapabilityId

fun value_type :: "VmValue \<Rightarrow> VmValueType" where
  "value_type (U64 _) = TU64"
| "value_type (Bool _) = TBool"
| "value_type (Digest _) = TDigest"
| "value_type (VmObject _) = TObject"
| "value_type (VmCapability _) = TCapability"

fun encode_VmValue :: "VmValue \<Rightarrow> encoder \<Rightarrow> encode_error + encoder" where
  "encode_VmValue (U64 v) e = and_then (write_u8 0 e) (\<lambda>e. write_u64 v e)"
| "encode_VmValue (Bool v) e = and_then (write_u8 1 e) (\<lambda>e. write_bool v e)"
| "encode_VmValue (Digest v) e = and_then (write_u8 2 e) (\<lambda>e. encode_Digest384 v e)"
| "encode_VmValue (VmObject v) e = and_then (write_u8 3 e) (\<lambda>e. encode_Object v e)"
| "encode_VmValue (VmCapability v) e = and_then (write_u8 4 e) (\<lambda>e. encode_typed_id v e)"

definition decode_VmValue :: "decoder \<Rightarrow> decode_error + (VmValue \<times> decoder)" where
  "decode_VmValue d = and_then (read_u8 d) (\<lambda>(tag, d).
     if tag = 0 then and_then (read_u64 d) (\<lambda>(v, d). Inr (U64 v, d))
     else if tag = 1 then and_then (read_bool d) (\<lambda>(v, d). Inr (Bool v, d))
     else if tag = 2 then and_then (decode_Digest384 d) (\<lambda>(v, d). Inr (Digest v, d))
     else if tag = 3 then and_then (decode_Object d) (\<lambda>(v, d). Inr (VmObject v, d))
     else if tag = 4 then and_then (decode_typed_id d) (\<lambda>(v, d). Inr (VmCapability v, d))
     else Inl (InvalidEnumTag ''VmValue'' tag))"

datatype VmEventValue = EventU64 u64 | EventBool bool | EventDigest Digest384

fun from_vm_value :: "VmValue \<Rightarrow> VmEventValue option" where
  "from_vm_value (U64 v) = Some (EventU64 v)"
| "from_vm_value (Bool v) = Some (EventBool v)"
| "from_vm_value (Digest v) = Some (EventDigest v)"
| "from_vm_value (VmObject _) = None"
| "from_vm_value (VmCapability _) = None"

fun encode_VmEventValue :: "VmEventValue \<Rightarrow> encoder \<Rightarrow> encode_error + encoder" where
  "encode_VmEventValue (EventU64 v) e = and_then (write_u8 0 e) (\<lambda>e. write_u64 v e)"
| "encode_VmEventValue (EventBool v) e = and_then (write_u8 1 e) (\<lambda>e. write_bool v e)"
| "encode_VmEventValue (EventDigest v) e = and_then (write_u8 2 e) (\<lambda>e. encode_Digest384 v e)"

definition decode_VmEventValue :: "decoder \<Rightarrow> decode_error + (VmEventValue \<times> decoder)" where
  "decode_VmEventValue d = and_then (read_u8 d) (\<lambda>(tag, d).
     if tag = 0 then and_then (read_u64 d) (\<lambda>(v, d). Inr (EventU64 v, d))
     else if tag = 1 then and_then (read_bool d) (\<lambda>(v, d). Inr (EventBool v, d))
     else if tag = 2 then and_then (decode_Digest384 d) (\<lambda>(v, d). Inr (EventDigest v, d))
     else Inl (InvalidEnumTag ''VmEventValue'' tag))"

record VmExecutionResult =
  res_gas_used :: u64
  res_steps :: u16
  outputs :: "VmValue list"
  res_events :: "VmEventValue list"

datatype VmExecutionResultError =
  InvalidStepCount u16 | ResultTooManyOutputs usize usize | ResultTooManyEvents usize usize

definition VmExecutionResult_new ::
    "u64 \<Rightarrow> u16 \<Rightarrow> VmValue list \<Rightarrow> VmEventValue list \<Rightarrow> VmExecutionResultError + VmExecutionResult" where
  "VmExecutionResult_new gas steps outs evs =
     (if steps = 0 \<or> unat steps > MAX_VM_INSTRUCTIONS then Inl (InvalidStepCount steps)
      else if length outs > MAX_VM_OUTPUTS then Inl (ResultTooManyOutputs (length outs) MAX_VM_OUTPUTS)
      else if length evs > MAX_VM_EVENTS then Inl (ResultTooManyEvents (length evs) MAX_VM_EVENTS)
      else Inr \<lparr>res_gas_used = gas, res_steps = steps, outputs = outs, res_events = evs\<rparr>)"

definition encode_VmExecutionResult :: "VmExecutionResult \<Rightarrow> encoder \<Rightarrow> encode_error + encoder" where
  "encode_VmExecutionResult r e =
     and_then (write_u64 (res_gas_used r) e) (\<lambda>e.
     and_then (write_u16 (res_steps r) e) (\<lambda>e.
     and_then (encode_vec encode_VmValue MAX_VM_OUTPUTS (outputs r) e) (\<lambda>e.
     encode_vec encode_VmEventValue MAX_VM_EVENTS (res_events r) e)))"

definition decode_VmExecutionResult :: "decoder \<Rightarrow> decode_error + (VmExecutionResult \<times> decoder)" where
  "decode_VmExecutionResult d =
     and_then (read_u64 d) (\<lambda>(gas, d).
     and_then (read_u16 d) (\<lambda>(steps, d).
     and_then (decode_vec decode_VmValue MAX_VM_OUTPUTS d) (\<lambda>(outs, d).
     and_then (decode_vec decode_VmEventValue MAX_VM_EVENTS d) (\<lambda>(evs, d).
     and_then (map_err (\<lambda>error. case error of
          InvalidStepCount _ \<Rightarrow> InvalidValue ''ObjectVM result has an invalid step count''
        | ResultTooManyOutputs _ _ \<Rightarrow> InvalidValue ''ObjectVM result exceeds the output bound''
        | ResultTooManyEvents _ _ \<Rightarrow> InvalidValue ''ObjectVM result exceeds the event bound'')
       (VmExecutionResult_new gas steps outs evs)) (\<lambda>r. Inr (r, d))))))"

definition VmExecutionResult_MAX_ENCODED_LEN :: usize where
  "VmExecutionResult_MAX_ENCODED_LEN = 270508"

definition VmExecutionResult_type :: "VmExecutionResult canonical_type" where
  "VmExecutionResult_type = \<lparr>ct_encode = encode_VmExecutionResult,
     ct_decode = decode_VmExecutionResult, ct_type_tag = 0x0061, ct_schema_version = 1,
     ct_max_encoded_len = VmExecutionResult_MAX_ENCODED_LEN\<rparr>"

fun is_capability :: "VmValue \<Rightarrow> bool" where
  "is_capability (VmCapability _) = True"
| "is_capability _ = False"

section \<open>Register access\<close>

datatype VmExecutionError =
    InputCountMismatch usize usize
  | InputTypeMismatch u8 VmValueType VmValueType
  | GasExhausted usize u64 u64 u64
  | ArithmeticOverflow usize
  | InvariantViolation usize string
  | ExecInvalidResult VmExecutionResultError

type_synonym registers = "VmValue option list"

definition verify_runtime_refinement ::
    "VerifiedProgram \<Rightarrow> registers \<Rightarrow> usize \<Rightarrow> usize \<Rightarrow> VmExecutionError + unit" where
  "verify_runtime_refinement v regs event_count pc =
     and_then (ok_or (InvariantViolation pc ''verified instruction certificate is missing'')
       (if pc < length (instruction_states v) then Some (instruction_states v ! pc) else None))
     (\<lambda>cert.
       if \<not> admits_runtime_state cert (map (\<lambda>r. r \<noteq> None) regs) event_count
       then Inl (InvariantViolation pc ''runtime registers disagree with verifier certificate'')
       else Inr ())"

definition prepay_gas :: "usize \<Rightarrow> u64 \<Rightarrow> u64 \<Rightarrow> u64 \<Rightarrow> VmExecutionError + u64" where
  "prepay_gas pc gas_used instruction_cost gas_limit =
     and_then (ok_or (GasExhausted pc gas_used instruction_cost gas_limit)
       (checked_add gas_used instruction_cost)) (\<lambda>next_gas.
     if next_gas > gas_limit then Inl (GasExhausted pc gas_used instruction_cost gas_limit)
     else Inr next_gas)"

definition vm_checked_add :: "usize \<Rightarrow> u64 \<Rightarrow> u64 \<Rightarrow> VmExecutionError + u64" where
  "vm_checked_add pc l r = ok_or (ArithmeticOverflow pc) (checked_add l r)"

definition select_branch_target :: "usize \<Rightarrow> bool \<Rightarrow> u16 \<Rightarrow> usize" where
  "select_branch_target pc cond target = (if cond then unat target else pc + 1)"

definition initialize :: "registers \<Rightarrow> usize \<Rightarrow> u8 \<Rightarrow> VmValue \<Rightarrow> VmExecutionError + registers" where
  "initialize regs pc register value =
     (if unat register \<ge> length regs
      then Inl (InvariantViolation pc ''verified destination register is out of bounds'')
      else if regs ! unat register \<noteq> None
      then Inl (InvariantViolation pc ''verified destination is already initialized'')
      else Inr (regs[unat register := Some value]))"

definition read :: "registers \<Rightarrow> usize \<Rightarrow> u8 \<Rightarrow> VmExecutionError + VmValue" where
  "read regs pc register =
     ok_or (InvariantViolation pc ''verified source register is unavailable'')
       (if unat register < length regs then regs ! unat register else None)"

definition take_register ::
    "registers \<Rightarrow> usize \<Rightarrow> u8 \<Rightarrow> VmExecutionError + (VmValue \<times> registers)" where
  "take_register regs pc register =
     and_then (ok_or (InvariantViolation pc ''verified source register is unavailable'')
       (if unat register < length regs then regs ! unat register else None)) (\<lambda>value.
     Inr (value, regs[unat register := None]))"

definition read_u64_register :: "registers \<Rightarrow> usize \<Rightarrow> u8 \<Rightarrow> VmExecutionError + u64" where
  "read_u64_register regs pc register =
     and_then (read regs pc register) (\<lambda>value. case value of
        U64 v \<Rightarrow> Inr v
      | _ \<Rightarrow> Inl (InvariantViolation pc ''verified unsigned operand has the wrong type''))"

definition read_bool_register :: "registers \<Rightarrow> usize \<Rightarrow> u8 \<Rightarrow> VmExecutionError + bool" where
  "read_bool_register regs pc register =
     and_then (read regs pc register) (\<lambda>value. case value of
        Bool v \<Rightarrow> Inr v
      | _ \<Rightarrow> Inl (InvariantViolation pc ''verified Boolean operand has the wrong type''))"

fun take_each :: "registers \<Rightarrow> usize \<Rightarrow> u8 list \<Rightarrow> VmExecutionError + (VmValue list \<times> registers)" where
  "take_each regs pc [] = Inr ([], regs)"
| "take_each regs pc (source # sources) =
     and_then (take_register regs pc source) (\<lambda>(value, regs).
     and_then (take_each regs pc sources) (\<lambda>(vals, regs). Inr (value # vals, regs)))"

section \<open>The execution loop\<close>

record vm_state =
  vm_pc :: usize
  vm_registers :: registers
  vm_gas :: u64
  vm_steps :: u16
  vm_events :: "VmEventValue list"

text \<open>An iteration of the loop either goes on with a state or leaves with the result.\<close>

datatype vm_outcome = Continue vm_state | Done VmExecutionResult

definition advance :: "vm_state \<Rightarrow> registers \<Rightarrow> vm_outcome" where
  "advance s regs = Continue (s\<lparr>vm_pc := vm_pc s + 1, vm_registers := regs\<rparr>)"

fun execute_instruction ::
    "VmProgram \<Rightarrow> vm_state \<Rightarrow> VmInstruction \<Rightarrow> VmExecutionError + vm_outcome" where
  "execute_instruction p s (LoadU64 dst val) =
     and_then (initialize (vm_registers s) (vm_pc s) dst (U64 val)) (\<lambda>regs. Inr (advance s regs))"
| "execute_instruction p s (LoadBool dst val) =
     and_then (initialize (vm_registers s) (vm_pc s) dst (Bool val)) (\<lambda>regs. Inr (advance s regs))"
| "execute_instruction p s (LoadDigest dst val) =
     and_then (initialize (vm_registers s) (vm_pc s) dst (Digest val)) (\<lambda>regs. Inr (advance s regs))"
| "execute_instruction p s (Copy dst src) =
     and_then (read (vm_registers s) (vm_pc s) src) (\<lambda>value.
     if \<not> is_copyable (value_type value)
     then Inl (InvariantViolation (vm_pc s) ''verified copy source is not copyable'')
     else
       and_then (initialize (vm_registers s) (vm_pc s) dst value) (\<lambda>regs. Inr (advance s regs)))"
| "execute_instruction p s (Move dst src) =
     and_then (take_register (vm_registers s) (vm_pc s) src) (\<lambda>(value, regs).
     and_then (initialize regs (vm_pc s) dst value) (\<lambda>regs. Inr (advance s regs)))"
| "execute_instruction p s (AddU64 dst l r) =
     and_then (read_u64_register (vm_registers s) (vm_pc s) l) (\<lambda>left.
     and_then (read_u64_register (vm_registers s) (vm_pc s) r) (\<lambda>right.
     and_then (vm_checked_add (vm_pc s) left right) (\<lambda>value.
     and_then (initialize (vm_registers s) (vm_pc s) dst (U64 value)) (\<lambda>regs. Inr (advance s regs)))))"
| "execute_instruction p s (EqU64 dst l r) =
     and_then (read_u64_register (vm_registers s) (vm_pc s) l) (\<lambda>left.
     and_then (read_u64_register (vm_registers s) (vm_pc s) r) (\<lambda>right.
     and_then (initialize (vm_registers s) (vm_pc s) dst (Bool (left = right))) (\<lambda>regs.
     Inr (advance s regs))))"
| "execute_instruction p s (Jump target) = Inr (Continue (s\<lparr>vm_pc := unat target\<rparr>))"
| "execute_instruction p s (BranchIf cond target) =
     and_then (read_bool_register (vm_registers s) (vm_pc s) cond) (\<lambda>c.
     Inr (Continue (s\<lparr>vm_pc := select_branch_target (vm_pc s) c target\<rparr>)))"
| "execute_instruction p s (ConsumeCapability src) =
     and_then (take_register (vm_registers s) (vm_pc s) src) (\<lambda>(value, regs).
     if \<not> is_capability value
     then Inl (InvariantViolation (vm_pc s) ''verified consume source is not a capability'')
     else Inr (advance s regs))"
| "execute_instruction p s (Emit src) =
     and_then (read (vm_registers s) (vm_pc s) src) (\<lambda>value.
     and_then (ok_or (InvariantViolation (vm_pc s) ''verified event source is not scalar'')
       (from_vm_value value)) (\<lambda>event.
     if length (vm_events s) \<ge> unat (maximum_events p)
     then Inl (InvariantViolation (vm_pc s) ''verified event path exceeds declaration'')
     else Inr (advance (s\<lparr>vm_events := vm_events s @ [event]\<rparr>) (vm_registers s))))"
| "execute_instruction p s (Return sources) =
     and_then (take_each (vm_registers s) (vm_pc s) sources) (\<lambda>(outs, _).
     and_then (map_err ExecInvalidResult
       (VmExecutionResult_new (vm_gas s) (vm_steps s) outs (vm_events s))) (\<lambda>r. Inr (Done r)))"

definition execute_step :: "VerifiedProgram \<Rightarrow> u64 \<Rightarrow> vm_state \<Rightarrow> VmExecutionError + vm_outcome" where
  "execute_step v gas_limit s =
     (let p = verified_program v; pc = vm_pc s in
      and_then (verify_runtime_refinement v (vm_registers s) (length (vm_events s)) pc) (\<lambda>_.
      and_then (ok_or (InvariantViolation pc ''verified program counter is out of bounds'')
        (if pc < length (instructions p) then Some (instructions p ! pc) else None)) (\<lambda>instruction.
      and_then (prepay_gas pc (vm_gas s) (gas_cost instruction) gas_limit) (\<lambda>gas_used.
      and_then (ok_or (InvariantViolation pc ''verified instruction count exceeds u16'')
        (checked_add (vm_steps s) 1)) (\<lambda>steps.
      execute_instruction p (s\<lparr>vm_gas := gas_used, vm_steps := steps\<rparr>) instruction)))))"

lemma execute_instruction_steps:
  "execute_instruction p s i = Inr (Continue s') \<Longrightarrow> vm_steps s' = vm_steps s"
  by (cases i) (auto simp: advance_def split: if_splits)

lemma execute_step_steps:
  "execute_step v limit s = Inr (Continue s') \<Longrightarrow> unat (vm_steps s') = Suc (unat (vm_steps s))"
  by (auto simp: execute_step_def Let_def dest!: execute_instruction_steps unat_checked_add)

function execute_loop :: "VerifiedProgram \<Rightarrow> u64 \<Rightarrow> vm_state \<Rightarrow> VmExecutionError + VmExecutionResult" where
  "execute_loop v gas_limit s =
     (case execute_step v gas_limit s of
        Inl error \<Rightarrow> Inl error
      | Inr (Done r) \<Rightarrow> Inr r
      | Inr (Continue s') \<Rightarrow> execute_loop v gas_limit s')"
  by auto

termination
proof (relation "measure (\<lambda>(v, limit, s). 2 ^ 16 - unat (vm_steps s))")
  fix v limit s outcome s'
  assume "execute_step v limit s = Inr outcome" "outcome = Continue s'"
  then show "((v, limit, s'), v, limit, s) \<in> measure (\<lambda>(v, limit, s). 2 ^ 16 - unat (vm_steps s))"
    using execute_step_steps [of v limit s s'] unat_less_pow [of "vm_steps s'"] by simp
qed simp

declare execute_loop.simps [simp del]

fun initialize_inputs ::
    "VmProgram \<Rightarrow> (usize \<times> VmValue) list \<Rightarrow> registers \<Rightarrow> VmExecutionError + registers" where
  "initialize_inputs p [] regs = Inr regs"
| "initialize_inputs p ((register, input) # rest) regs =
     (let expected = register_types p ! register; actual = value_type input in
      if actual \<noteq> expected
      then Inl (InputTypeMismatch (word_of_nat register) expected actual)
      else initialize_inputs p rest (regs[register := Some input]))"

definition execute :: "VerifiedProgram \<Rightarrow> VmValue list \<Rightarrow> u64 \<Rightarrow> VmExecutionError + VmExecutionResult" where
  "execute v inputs gas_limit =
     (let p = verified_program v; expected_inputs = unat (input_count p) in
      if length inputs \<noteq> expected_inputs then Inl (InputCountMismatch expected_inputs (length inputs))
      else
        and_then (initialize_inputs p (enumerate 0 inputs)
          (replicate (length (register_types p)) None)) (\<lambda>regs.
        execute_loop v gas_limit \<lparr>vm_pc = 0, vm_registers = regs, vm_gas = 0, vm_steps = 0,
          vm_events = []\<rparr>))"

section \<open>Execution evidence\<close>

record ExecutionEvidence =
  ev_program :: VmProgram
  ev_inputs :: "VmValue list"
  ev_gas_limit :: u64
  ev_result :: VmExecutionResult

datatype EvidenceError =
    EvVerification VmVerificationError
  | EvExecution VmExecutionError
  | ResultMismatch
  | InvalidBounds

definition evidence_create ::
    "VerifiedProgram \<Rightarrow> VmValue list \<Rightarrow> u64 \<Rightarrow> EvidenceError + ExecutionEvidence" where
  "evidence_create v inputs gas_limit =
     and_then (map_err EvExecution (execute v inputs gas_limit)) (\<lambda>result.
     Inr \<lparr>ev_program = verified_program v, ev_inputs = inputs, ev_gas_limit = gas_limit,
       ev_result = result\<rparr>)"

definition evidence_verify :: "ExecutionEvidence \<Rightarrow> EvidenceError + unit" where
  "evidence_verify ev =
     and_then (map_err EvVerification (verify (ev_program ev))) (\<lambda>v.
     and_then (map_err EvExecution (execute v (ev_inputs ev) (ev_gas_limit ev))) (\<lambda>replayed.
     if replayed \<noteq> ev_result ev then Inl ResultMismatch else Inr ()))"

definition encode_ExecutionEvidence :: "ExecutionEvidence \<Rightarrow> encoder \<Rightarrow> encode_error + encoder" where
  "encode_ExecutionEvidence ev e =
     and_then (encode_VmProgram (ev_program ev) e) (\<lambda>e.
     and_then (encode_vec encode_VmValue MAX_VM_INPUTS (ev_inputs ev) e) (\<lambda>e.
     and_then (write_u64 (ev_gas_limit ev) e) (\<lambda>e.
     encode_VmExecutionResult (ev_result ev) e)))"

definition decode_ExecutionEvidence :: "decoder \<Rightarrow> decode_error + (ExecutionEvidence \<times> decoder)" where
  "decode_ExecutionEvidence d =
     and_then (decode_VmProgram d) (\<lambda>(p, d).
     and_then (decode_vec decode_VmValue MAX_VM_INPUTS d) (\<lambda>(inputs, d).
     and_then (read_u64 d) (\<lambda>(limit, d).
     and_then (decode_VmExecutionResult d) (\<lambda>(r, d).
     if is_err (verify p) then Inl (InvalidValue ''execution evidence program is not verified'')
     else Inr (\<lparr>ev_program = p, ev_inputs = inputs, ev_gas_limit = limit, ev_result = r\<rparr>, d)))))"

definition ExecutionEvidence_type :: "ExecutionEvidence canonical_type" where
  "ExecutionEvidence_type = \<lparr>ct_encode = encode_ExecutionEvidence,
     ct_decode = decode_ExecutionEvidence, ct_type_tag = 0x0062, ct_schema_version = 1,
     ct_max_encoded_len = VmProgram_MAX_ENCODED_LEN + 4 + 8 + VmExecutionResult_MAX_ENCODED_LEN\<rparr>"

end
