(* ===== verification/Verifier_Typing.thy ===== *)
theory Verifier_Typing
  imports Bytecode_Verifier
begin

text \<open>
  The declarative type system behind \<^verbatim>\<open>bytecode-verifier/src/verify.rs\<close> and its equivalence
  with the pass: an instruction is well typed in an entry state and flows to successor states,
  and a certificate assigns to every program counter an entry state that covers the flows into
  it.
\<close>

section \<open>Typing rules\<close>

definition source_ok :: "VmProgram \<Rightarrow> FlowState \<Rightarrow> u8 \<Rightarrow> VmValueType \<Rightarrow> bool" where
  "source_ok p st r t \<longleftrightarrow> unat r < length (register_types p) \<and>
     flow_registers st ! unat r = Available \<and> register_types p ! unat r = t"

definition destination_ok :: "VmProgram \<Rightarrow> FlowState \<Rightarrow> u8 \<Rightarrow> VmValueType \<Rightarrow> bool" where
  "destination_ok p st r t \<longleftrightarrow> unat r < length (register_types p) \<and>
     flow_registers st ! unat r = Uninitialized \<and> register_types p ! unat r = t"

definition return_ok :: "VmProgram \<Rightarrow> FlowState \<Rightarrow> u8 list \<Rightarrow> bool" where
  "return_ok p st sources \<longleftrightarrow> length sources = length (output_types p) \<and>
     list_all2 (source_ok p st) sources (output_types p) \<and> distinct sources \<and>
     (\<forall>j < length (register_types p).
        is_linear (register_types p ! j) \<and> flow_registers st ! j = Available \<longrightarrow>
        j \<in> unat ` set sources)"

definition target_ok :: "VmProgram \<Rightarrow> nat \<Rightarrow> nat \<Rightarrow> bool" where
  "target_ok p pc t \<longleftrightarrow> pc < t \<and> t < length (instructions p)"

fun instr_ok :: "VmProgram \<Rightarrow> nat \<Rightarrow> VmInstruction \<Rightarrow> FlowState \<Rightarrow> bool" where
  "instr_ok p pc (LoadU64 dst _) st = (destination_ok p st dst TU64 \<and> target_ok p pc (pc + 1))"
| "instr_ok p pc (LoadBool dst _) st = (destination_ok p st dst TBool \<and> target_ok p pc (pc + 1))"
| "instr_ok p pc (LoadDigest dst _) st = (destination_ok p st dst TDigest \<and> target_ok p pc (pc + 1))"
| "instr_ok p pc (Copy dst src) st = (\<exists>t. source_ok p st src t \<and> is_copyable t \<and>
     destination_ok p st dst t \<and> target_ok p pc (pc + 1))"
| "instr_ok p pc (Move dst src) st = (\<exists>t. source_ok p st src t \<and> destination_ok p st dst t \<and>
     target_ok p pc (pc + 1))"
| "instr_ok p pc (AddU64 dst l r) st = (destination_ok p st dst TU64 \<and> source_ok p st l TU64 \<and>
     source_ok p st r TU64 \<and> target_ok p pc (pc + 1))"
| "instr_ok p pc (EqU64 dst l r) st = (destination_ok p st dst TBool \<and> source_ok p st l TU64 \<and>
     source_ok p st r TU64 \<and> target_ok p pc (pc + 1))"
| "instr_ok p pc (Jump tgt) st = target_ok p pc (unat tgt)"
| "instr_ok p pc (BranchIf cond tgt) st = (source_ok p st cond TBool \<and> target_ok p pc (unat tgt) \<and>
     target_ok p pc (pc + 1))"
| "instr_ok p pc (ConsumeCapability src) st = (source_ok p st src TCapability \<and>
     target_ok p pc (pc + 1))"
| "instr_ok p pc (Emit src) st = (\<exists>t. source_ok p st src t \<and> is_event_scalar t \<and>
     flow_events st + 1 \<le> unat (maximum_events p) \<and> target_ok p pc (pc + 1))"
| "instr_ok p pc (Return sources) st = return_ok p st sources"

fun flow_to :: "nat \<Rightarrow> VmInstruction \<Rightarrow> FlowState \<Rightarrow> (nat \<times> FlowState) list" where
  "flow_to pc (LoadU64 dst _) st = [(pc + 1, set_register st dst Available)]"
| "flow_to pc (LoadBool dst _) st = [(pc + 1, set_register st dst Available)]"
| "flow_to pc (LoadDigest dst _) st = [(pc + 1, set_register st dst Available)]"
| "flow_to pc (Copy dst _) st = [(pc + 1, set_register st dst Available)]"
| "flow_to pc (Move dst src) st = [(pc + 1, set_register (set_register st src Moved) dst Available)]"
| "flow_to pc (AddU64 dst _ _) st = [(pc + 1, set_register st dst Available)]"
| "flow_to pc (EqU64 dst _ _) st = [(pc + 1, set_register st dst Available)]"
| "flow_to pc (Jump tgt) st = [(unat tgt, st)]"
| "flow_to pc (BranchIf _ tgt) st = [(pc + 1, st), (unat tgt, st)]"
| "flow_to pc (ConsumeCapability src) st = [(pc + 1, set_register st src Moved)]"
| "flow_to pc (Emit _) st = [(pc + 1, st\<lparr>flow_events := flow_events st + 1\<rparr>)]"
| "flow_to pc (Return _) st = []"

text \<open>One entry state is covered by another: the same registers and no more events.\<close>

definition flow_le :: "FlowState \<Rightarrow> FlowState \<Rightarrow> bool" where
  "flow_le a b \<longleftrightarrow> flow_registers a = flow_registers b \<and> flow_events a \<le> flow_events b"

definition certificate :: "VmProgram \<Rightarrow> FlowState list \<Rightarrow> bool" where
  "certificate p S \<longleftrightarrow> length S = length (instructions p) \<and> flow_le (entry_state p) (S ! 0) \<and>
     (\<forall>pc < length S. instr_ok p pc (instructions p ! pc) (S ! pc) \<and>
       (\<forall>(t, s) \<in> set (flow_to pc (instructions p ! pc) (S ! pc)). flow_le s (S ! t)))"

definition all_reached :: "VmProgram \<Rightarrow> bool" where
  "all_reached p \<longleftrightarrow> (\<forall>pc < length (instructions p). pc = 0 \<or>
     (\<exists>prev < pc. pc \<in> fst ` set (flow_to prev (instructions p ! prev) (entry_state p))))"

lemma flow_to_targets: "fst ` set (flow_to pc i st) = fst ` set (flow_to pc i st')"
  by (cases i) simp_all

lemma flow_le_refl [simp]: "flow_le st st"
  by (simp add: flow_le_def)

lemma flow_le_trans: "flow_le a b \<Longrightarrow> flow_le b c \<Longrightarrow> flow_le a c"
  by (auto simp: flow_le_def)

lemma flow_to_forward: "instr_ok p pc i st \<Longrightarrow> (t, s) \<in> set (flow_to pc i st) \<Longrightarrow> target_ok p pc t"
  by (cases i) auto

lemma check_mono:
  assumes "flow_le st st'"
  shows "source_ok p st r t = source_ok p st' r t" "destination_ok p st r t = destination_ok p st' r t"
    "return_ok p st srcs = return_ok p st' srcs"
proof -
  have regs: "flow_registers st = flow_registers st'" using assms by (simp add: flow_le_def)
  show src: "source_ok p st r t = source_ok p st' r t" for r t
    by (simp add: source_ok_def regs)
  show "destination_ok p st r t = destination_ok p st' r t" by (simp add: destination_ok_def regs)
  have "source_ok p st = source_ok p st'" using src by blast
  then show "return_ok p st srcs = return_ok p st' srcs" by (simp add: return_ok_def regs)
qed

lemma instr_ok_mono: "flow_le st st' \<Longrightarrow> instr_ok p pc i st' \<Longrightarrow> instr_ok p pc i st"
  by (cases i) (auto simp: check_mono flow_le_def)

lemma flow_to_mono:
  "flow_le st st' \<Longrightarrow> (t, s) \<in> set (flow_to pc i st) \<Longrightarrow>
   \<exists>s'. (t, s') \<in> set (flow_to pc i st') \<and> flow_le s s'"
  by (cases i) (auto simp: flow_le_def set_register_def)

section \<open>The checks decide the rules\<close>

lemma require_register_eq_Inr:
  "require_register p pc r = Inr i \<longleftrightarrow> i = unat r \<and> unat r < length (register_types p)"
  by (auto simp: require_register_def register_index_def Let_def)

lemma require_source_eq_Inr: "require_source p st pc r = Inr t \<longleftrightarrow> source_ok p st r t"
  by (auto simp: require_source_def require_register_eq_Inr source_ok_def)

lemma require_source_type_eq_Inr: "require_source_type p st pc r t = Inr () \<longleftrightarrow> source_ok p st r t"
  by (auto simp: require_source_type_def require_source_eq_Inr source_ok_def)

lemma require_destination_eq_Inr: "require_destination p st pc r t = Inr () \<longleftrightarrow> destination_ok p st r t"
  by (auto simp: require_destination_def require_register_eq_Inr destination_ok_def Let_def)

lemma require_target_eq_Inr:
  "require_target pc tgt (length (instructions p)) = Inr t \<longleftrightarrow> t = unat tgt \<and> target_ok p pc (unat tgt)"
  by (auto simp: require_target_def target_ok_def Let_def)

lemma next_program_counter_eq_Inr:
  "next_program_counter pc n = Inr t \<longleftrightarrow> t = pc + 1 \<and> pc + 1 < n"
  by (auto simp: next_program_counter_def Let_def)

lemma verify_return_sources_eq_Inr:
  assumes "length srcs = length outs" "length returned = length (register_types p)"
  shows "verify_return_sources p st pc (zip srcs outs) returned = Inr final \<longleftrightarrow>
    list_all2 (source_ok p st) srcs outs \<and> distinct srcs \<and>
    (\<forall>r \<in> set srcs. \<not> returned ! unat r) \<and> length final = length returned \<and>
    (\<forall>j < length returned. final ! j \<longleftrightarrow> returned ! j \<or> j \<in> unat ` set srcs)"
  using assms
proof (induction srcs outs arbitrary: returned rule: list_induct2)
  case Nil
  then show ?case by (auto simp: list_eq_iff_nth_eq)
next
  case (Cons r srcs t outs)
  let ?next = "returned[unat r := True]"
  have IH: "verify_return_sources p st pc (zip srcs outs) ?next = Inr final \<longleftrightarrow>
      list_all2 (source_ok p st) srcs outs \<and> distinct srcs \<and> (\<forall>r \<in> set srcs. \<not> ?next ! unat r) \<and>
      length final = length returned \<and>
      (\<forall>j < length returned. final ! j \<longleftrightarrow> ?next ! j \<or> j \<in> unat ` set srcs)"
    using Cons.IH [of ?next] Cons.prems by simp
  show ?case
  proof (cases "source_ok p st r t \<and> \<not> returned ! unat r")
    case True
    then have r: "unat r < length returned"
      using Cons.prems by (simp add: source_ok_def)
    have fresh: "(\<forall>s \<in> set srcs. \<not> ?next ! unat s) \<longleftrightarrow>
        r \<notin> set srcs \<and> (\<forall>s \<in> set srcs. \<not> returned ! unat s)"
      using r by (auto simp: nth_list_update simp flip: word_unat_eq_iff)
    have marked: "(\<forall>j < length returned. final ! j \<longleftrightarrow> ?next ! j \<or> j \<in> unat ` set srcs) \<longleftrightarrow>
        (\<forall>j < length returned. final ! j \<longleftrightarrow> returned ! j \<or> j \<in> unat ` set (r # srcs))"
      using r by (auto simp: nth_list_update)
    define M where "M \<longleftrightarrow>
      (\<forall>j < length returned. final ! j \<longleftrightarrow> returned ! j \<or> j \<in> unat ` set (r # srcs))"
    have step: "verify_return_sources p st pc (zip (r # srcs) (t # outs)) returned =
        verify_return_sources p st pc (zip srcs outs) ?next"
      using True r Cons.prems
      by (simp add: require_register_def register_index_def require_source_type_def
          require_source_def source_ok_def)
    show ?thesis
      unfolding step IH fresh marked M_def [symmetric] using True by auto
  next
    case False
    then show ?thesis
      by (auto simp: require_register_eq_Inr require_source_type_eq_Inr source_ok_def)
  qed
qed

lemma verify_linear_returned_eq_Inr:
  "verify_linear_returned st pc xs returned = Inr () \<longleftrightarrow>
   (\<forall>(j, t) \<in> set xs. is_linear t \<and> flow_registers st ! j = Available \<longrightarrow> returned ! j)"
  by (induction xs) auto

lemma verify_return_sources_initial:
  assumes "length srcs = length outs"
  shows "verify_return_sources p st pc (zip srcs outs) (replicate (length (register_types p)) False)
      = Inr final \<longleftrightarrow>
    list_all2 (source_ok p st) srcs outs \<and> distinct srcs \<and>
    final = map (\<lambda>j. j \<in> unat ` set srcs) [0..<length (register_types p)]"
proof -
  let ?returned = "replicate (length (register_types p)) False"
  have "\<not> ?returned ! unat r" if "list_all2 (source_ok p st) srcs outs" "r \<in> set srcs" for r
    using that by (auto simp: list_all2_conv_all_nth source_ok_def in_set_conv_nth)
  moreover have "length final = length ?returned \<and>
      (\<forall>j < length ?returned. final ! j \<longleftrightarrow> ?returned ! j \<or> j \<in> unat ` set srcs) \<longleftrightarrow>
      final = map (\<lambda>j. j \<in> unat ` set srcs) [0..<length (register_types p)]"
    (is "?A \<longleftrightarrow> _")
  proof
    assume ?A
    then show "final = map (\<lambda>j. j \<in> unat ` set srcs) [0..<length (register_types p)]"
      by (intro nth_equalityI) simp_all
  qed simp
  ultimately show ?thesis
    unfolding verify_return_sources_eq_Inr [OF assms length_replicate] by blast
qed

lemma verify_return_eq_Inr: "verify_return p st pc srcs = Inr () \<longleftrightarrow> return_ok p st srcs"
proof (cases "length srcs = length (output_types p)")
  case True
  have enum: "(\<forall>(j, t) \<in> set (enumerate 0 (register_types p)). P j t) \<longleftrightarrow>
      (\<forall>j < length (register_types p). P j (register_types p ! j))" for P
    by (auto simp: in_set_enumerate_eq)
  show ?thesis
    using True
    by (auto simp: verify_return_def return_ok_def verify_return_sources_initial [OF True]
        verify_linear_returned_eq_Inr enum)
qed (auto simp: verify_return_def return_ok_def)

section \<open>One instruction\<close>

fun merge_all ::
    "FlowState option list \<Rightarrow> (nat \<times> FlowState) list \<Rightarrow> VmVerificationError + FlowState option list" where
  "merge_all states [] = Inr states"
| "merge_all states ((t, s) # rest) = and_then (merge_state states t s) (\<lambda>states. merge_all states rest)"

lemma merge_all_single [simp]: "merge_all states [(t, s)] = merge_state states t s"
  by (cases "merge_state states t s") simp_all

lemma verify_instruction_eq_Inr:
  assumes "length states = length (instructions p)"
  shows "verify_instruction p pc i st states = Inr states' \<longleftrightarrow>
    instr_ok p pc i st \<and> merge_all states (flow_to pc i st) = Inr states'"
proof -
  have small: "n \<le> unat (maximum_events p) \<Longrightarrow> n \<le> usize_max" for n
    using unat_less_pow [of "maximum_events p"] by (simp add: usize_max_def)
  show ?thesis
    using assms
    by (cases i)
      (auto simp: require_destination_eq_Inr require_source_eq_Inr require_source_type_eq_Inr
        require_target_eq_Inr next_program_counter_eq_Inr propagate_fallthrough_def target_ok_def
        verify_return_eq_Inr not_less dest: small)
qed

definition covers :: "FlowState option list \<Rightarrow> nat \<Rightarrow> FlowState \<Rightarrow> bool" where
  "covers states t s \<longleftrightarrow> (\<exists>st. states ! t = Some st \<and> flow_le s st)"

lemma merge_stateD:
  assumes "merge_state states t c = Inr states'" "t < length states"
  shows "length states' = length states" "covers states' t c"
    "\<And>x. x \<noteq> t \<Longrightarrow> states' ! x = states ! x" "\<And>x s. covers states x s \<Longrightarrow> covers states' x s"
proof -
  have "\<exists>st. states' = states[t := Some st] \<and> flow_le c st \<and>
      (\<forall>e. states ! t = Some e \<longrightarrow> flow_le e st)"
    using assms(1)
    by (cases "states ! t") (auto simp: merge_state_def flow_le_def split: if_splits)
  then obtain st where states': "states' = states[t := Some st]" and c: "flow_le c st"
    and old: "\<And>e. states ! t = Some e \<Longrightarrow> flow_le e st" by blast
  show "length states' = length states" using states' by simp
  show "covers states' t c" using states' c assms(2) by (simp add: covers_def)
  show other: "states' ! x = states ! x" if "x \<noteq> t" for x using that states' by simp
  show "covers states' x s" if "covers states x s" for x s
  proof (cases "x = t")
    case True
    then show ?thesis
      using that states' assms(2) old by (auto simp: covers_def intro: flow_le_trans)
  next
    case False
    then show ?thesis using that other by (simp add: covers_def)
  qed
qed

lemma merge_allD:
  assumes "merge_all states flows = Inr states'" "\<forall>(t, s) \<in> set flows. t < length states"
  shows "length states' = length states \<and> (\<forall>(t, s) \<in> set flows. covers states' t s) \<and>
    (\<forall>x. x \<notin> fst ` set flows \<longrightarrow> states' ! x = states ! x) \<and>
    (\<forall>x s. covers states x s \<longrightarrow> covers states' x s)"
  using assms
proof (induction states flows rule: merge_all.induct)
  case (2 states t s rest)
  then obtain mid where mid: "merge_state states t s = Inr mid" and rest: "merge_all mid rest = Inr states'"
    by auto
  note first = merge_stateD [OF mid]
  have "t < length states" using 2 by auto
  with 2 mid rest first(1) have
    "length states' = length mid \<and> (\<forall>(t, s) \<in> set rest. covers states' t s) \<and>
     (\<forall>x. x \<notin> fst ` set rest \<longrightarrow> states' ! x = mid ! x) \<and>
     (\<forall>x s. covers mid x s \<longrightarrow> covers states' x s)"
    by auto
  with first \<open>t < length states\<close> show ?case by auto
qed auto

section \<open>Soundness of the pass\<close>

definition reached_before :: "VmProgram \<Rightarrow> nat \<Rightarrow> nat \<Rightarrow> bool" where
  "reached_before p k x \<longleftrightarrow> x = 0 \<or>
     (\<exists>prev < k. prev < x \<and> x \<in> fst ` set (flow_to prev (instructions p ! prev) (entry_state p)))"

lemma all_reached_iff: "all_reached p \<longleftrightarrow>
  (\<forall>x < length (instructions p). reached_before p (length (instructions p)) x)"
  unfolding all_reached_def reached_before_def by (meson less_trans)

lemma reached_before_mono: "reached_before p k x \<Longrightarrow> k \<le> l \<Longrightarrow> reached_before p l x"
  unfolding reached_before_def by (meson less_le_trans)

lemma verify_each_step:
  assumes "verify_each p (k # pcs) states = Inr final" "length states = length (instructions p)"
  obtains st states' where "states ! k = Some st" "instr_ok p k (instructions p ! k) st"
    "merge_all states (flow_to k (instructions p ! k) st) = Inr states'"
    "verify_each p pcs states' = Inr final" "length states' = length (instructions p)"
    "\<forall>(t, s) \<in> set (flow_to k (instructions p ! k) st). covers states' t s"
    "\<And>x. x \<le> k \<Longrightarrow> states' ! x = states ! x"
    "\<And>x. states' ! x \<noteq> None \<Longrightarrow> states ! x \<noteq> None \<or> reached_before p (Suc k) x"
    "\<And>x s. covers states x s \<Longrightarrow> covers states' x s"
proof -
  from assms(1) obtain st states' where st: "states ! k = Some st"
    and step: "verify_instruction p k (instructions p ! k) st states = Inr states'"
    and rest: "verify_each p pcs states' = Inr final" by auto
  let ?flows = "flow_to k (instructions p ! k) st"
  from step have ok: "instr_ok p k (instructions p ! k) st"
    and merge: "merge_all states ?flows = Inr states'"
    using verify_instruction_eq_Inr [OF assms(2)] by auto
  have forward: "k < t \<and> t < length states" if "(t, s) \<in> set ?flows" for t s
    using flow_to_forward [OF ok that] assms(2) by (simp add: target_ok_def)
  then have facts: "length states' = length states \<and> (\<forall>(t, s) \<in> set ?flows. covers states' t s) \<and>
      (\<forall>x. x \<notin> fst ` set ?flows \<longrightarrow> states' ! x = states ! x) \<and>
      (\<forall>x s. covers states x s \<longrightarrow> covers states' x s)"
    by (intro merge_allD [OF merge]) auto
  have targets: "k < x" if "x \<in> fst ` set ?flows" for x
    using that forward by auto
  have other: "states' ! x = states ! x" if "x \<notin> fst ` set ?flows" for x
    using that facts by simp
  show thesis
  proof (rule that [OF st ok merge rest])
    show "states' ! x = states ! x" if "x \<le> k" for x
      using that targets [of x] other [of x] by linarith
    show "states ! x \<noteq> None \<or> reached_before p (Suc k) x" if "states' ! x \<noteq> None" for x
    proof (cases "x \<in> fst ` set ?flows")
      case True
      then show ?thesis
        using targets [OF True] flow_to_targets [of k "instructions p ! k" st "entry_state p"]
        by (auto simp: reached_before_def)
    next
      case False
      then show ?thesis using that other by simp
    qed
  qed (use facts assms(2) in simp_all)
qed

lemma verify_each_sound:
  assumes "verify_each p [k..<length (instructions p)] states = Inr final"
    "length states = length (instructions p)" "k \<le> length (instructions p)"
    "\<And>x. states ! x \<noteq> None \<Longrightarrow> x < length states \<Longrightarrow> reached_before p k x"
  shows "length final = length (instructions p) \<and> (\<forall>x < k. final ! x = states ! x) \<and>
    (\<forall>x s. covers states x s \<longrightarrow> covers final x s) \<and>
    (\<forall>x < length final. final ! x \<noteq> None \<longrightarrow> reached_before p (length (instructions p)) x) \<and>
    (\<forall>pc. k \<le> pc \<and> pc < length (instructions p) \<longrightarrow> (\<exists>st. final ! pc = Some st \<and>
      instr_ok p pc (instructions p ! pc) st \<and>
      (\<forall>(t, s) \<in> set (flow_to pc (instructions p ! pc) st). covers final t s)))"
  using assms
proof (induction "length (instructions p) - k" arbitrary: k states)
  case 0
  then show ?case by auto
next
  case (Suc m)
  then have k: "k < length (instructions p)" by simp
  with Suc.prems(1) have each: "verify_each p (k # [Suc k..<length (instructions p)]) states = Inr final"
    by (simp add: upt_rec)
  obtain st states' where st: "states ! k = Some st" "instr_ok p k (instructions p ! k) st"
      "merge_all states (flow_to k (instructions p ! k) st) = Inr states'"
      "verify_each p [Suc k..<length (instructions p)] states' = Inr final"
      "length states' = length (instructions p)"
      "\<forall>(t, s) \<in> set (flow_to k (instructions p ! k) st). covers states' t s"
    and same: "\<And>x. x \<le> k \<Longrightarrow> states' ! x = states ! x"
    and new: "\<And>x. states' ! x \<noteq> None \<Longrightarrow> states ! x \<noteq> None \<or> reached_before p (Suc k) x"
    and mono: "\<And>x s. covers states x s \<Longrightarrow> covers states' x s"
    by (rule verify_each_step [OF each Suc.prems(2)], rule that) blast+
  have reached: "reached_before p (Suc k) x" if "states' ! x \<noteq> None" "x < length states'" for x
    using new [OF that(1)] Suc.prems(2,4) st(5) that(2) reached_before_mono [of p k x "Suc k"] by auto
  have IH: "length final = length (instructions p) \<and> (\<forall>x < Suc k. final ! x = states' ! x) \<and>
    (\<forall>x s. covers states' x s \<longrightarrow> covers final x s) \<and>
    (\<forall>x < length final. final ! x \<noteq> None \<longrightarrow> reached_before p (length (instructions p)) x) \<and>
    (\<forall>pc. Suc k \<le> pc \<and> pc < length (instructions p) \<longrightarrow> (\<exists>st. final ! pc = Some st \<and>
      instr_ok p pc (instructions p ! pc) st \<and>
      (\<forall>(t, s) \<in> set (flow_to pc (instructions p ! pc) st). covers final t s)))"
    using Suc.hyps(2) k by (intro Suc.hyps(1) st(4,5) reached) auto
  then have head: "final ! k = Some st" "\<forall>x < k. final ! x = states ! x"
    using same st(1) by auto
  have "\<exists>st. final ! pc = Some st \<and> instr_ok p pc (instructions p ! pc) st \<and>
      (\<forall>(t, s) \<in> set (flow_to pc (instructions p ! pc) st). covers final t s)"
    if "k \<le> pc" "pc < length (instructions p)" for pc
  proof (cases "pc = k")
    case True
    have "\<forall>(t, s) \<in> set (flow_to k (instructions p ! k) st). covers final t s"
      using st(6) IH by (simp add: case_prod_beta)
    with True head(1) st(2) show ?thesis by simp
  next
    case False
    then show ?thesis using IH that by simp
  qed
  with IH head(2) mono show ?case by blast
qed

definition certificate_entry :: "FlowState \<Rightarrow> VerifiedInstructionState" where
  "certificate_entry st = \<lparr>cert_registers = map register_availability (flow_registers st),
     maximum_prior_events = flow_events st\<rparr>"

lemma collect_states_eq_Inr:
  "collect_states (enumerate k states) = Inr certs \<longleftrightarrow>
   (\<exists>S. states = map Some S \<and> certs = map certificate_entry S)"
proof (induction states arbitrary: k certs)
  case (Cons state states)
  show ?case
  proof (cases state)
    case (Some st)
    then show ?thesis
      using Cons.IH [of "Suc k"] by (auto simp: certificate_entry_def Cons_eq_map_conv)
  qed auto
qed auto

lemma entry_covers: "0 < n \<Longrightarrow> covers ((replicate n None)[0 := Some st]) 0 st"
  by (simp add: covers_def)

lemma verify_sound:
  assumes "valid_VmProgram p" "verify p = Inr v"
  shows "\<exists>S. certificate p S \<and> v = \<lparr>verified_program = p, instruction_states = map certificate_entry S\<rparr> \<and>
    all_reached p"
proof -
  let ?n = "length (instructions p)"
  let ?initial = "(replicate ?n None)[0 := Some (entry_state p)]"
  have n: "0 < ?n" using assms(1) by (simp add: valid_VmProgram_def VmProgram_new_eq_Inr)
  from assms(2) obtain final S where pass: "verify_each p [0..<?n] ?initial = Inr final"
    and final: "final = map Some S"
    and v: "v = \<lparr>verified_program = p, instruction_states = map certificate_entry S\<rparr>"
    by (auto simp: verify_def Let_def collect_states_eq_Inr)
  have initial: "reached_before p 0 x" if "?initial ! x \<noteq> None" "x < length ?initial" for x
    using that by (cases x) (auto simp: reached_before_def)
  note sound = verify_each_sound [OF pass _ _ initial, simplified]
  have len: "length S = ?n" and reached: "all_reached p"
    using sound by (simp_all add: final all_reached_iff)
  have covered: "flow_le s (S ! t)" if "covers final t s" "t < ?n" for t s
    using that len by (simp add: covers_def final)
  have "flow_le (entry_state p) (S ! 0)"
    using covered [OF _ n] sound entry_covers [OF n] by blast
  moreover have "instr_ok p pc (instructions p ! pc) (S ! pc) \<and>
      (\<forall>(t, s) \<in> set (flow_to pc (instructions p ! pc) (S ! pc)). flow_le s (S ! t))"
    if "pc < length S" for pc
  proof -
    have ok: "instr_ok p pc (instructions p ! pc) (S ! pc)"
      and flows: "\<forall>(t, s) \<in> set (flow_to pc (instructions p ! pc) (S ! pc)). covers final t s"
      using sound that len by (auto simp: final)
    have "flow_le s (S ! t)" if "(t, s) \<in> set (flow_to pc (instructions p ! pc) (S ! pc))" for t s
      using covered [of t s] flows that flow_to_forward [OF ok that] by (auto simp: target_ok_def)
    with ok show ?thesis by blast
  qed
  ultimately show ?thesis
    using len reached v unfolding certificate_def by blast
qed

section \<open>Completeness of the pass\<close>

definition agrees :: "FlowState list \<Rightarrow> FlowState option list \<Rightarrow> bool" where
  "agrees S states \<longleftrightarrow> length states = length S \<and>
     (\<forall>x < length S. \<forall>st. states ! x = Some st \<longrightarrow> flow_le st (S ! x))"

lemma agrees_update:
  assumes "agrees S states" "t < length S" "flow_le e (S ! t)"
  shows "agrees S (states[t := Some e])"
  unfolding agrees_def
proof (intro conjI allI impI)
  fix x st
  assume "x < length S" "states[t := Some e] ! x = Some st"
  with assms show "flow_le st (S ! x)"
    by (cases "x = t") (simp_all add: agrees_def)
qed (use assms in \<open>simp add: agrees_def\<close>)

lemma merge_state_complete:
  assumes "agrees S states" "t < length S" "flow_le c (S ! t)"
  shows "\<exists>states'. merge_state states t c = Inr states' \<and> agrees S states' \<and> states' ! t \<noteq> None \<and>
    (\<forall>x. states ! x \<noteq> None \<longrightarrow> states' ! x \<noteq> None)"
proof (cases "states ! t")
  case None
  then show ?thesis
    using assms by (auto simp: merge_state_def agrees_def nth_list_update)
next
  case (Some e)
  define e' where "e' = e\<lparr>flow_events := max (flow_events e) (flow_events c)\<rparr>"
  have "flow_le e (S ! t)" using Some assms by (simp add: agrees_def)
  then have e': "flow_le e' (S ! t)" "merge_state states t c = Inr (states[t := Some e'])"
    using Some assms(3) by (simp_all add: merge_state_def flow_le_def e'_def)
  show ?thesis
    using e' agrees_update [OF assms(1,2) e'(1)] assms(1,2)
    by (auto simp: agrees_def nth_list_update)
qed

lemma merge_all_complete:
  assumes "agrees S states" "\<forall>(t, c) \<in> set flows. t < length S \<and> flow_le c (S ! t)"
  shows "\<exists>states'. merge_all states flows = Inr states' \<and> agrees S states' \<and>
    (\<forall>x. states ! x \<noteq> None \<or> x \<in> fst ` set flows \<longrightarrow> states' ! x \<noteq> None)"
  using assms
proof (induction states flows rule: merge_all.induct)
  case (2 states t c rest)
  then obtain mid where mid: "merge_state states t c = Inr mid" "agrees S mid" "mid ! t \<noteq> None"
    "\<forall>x. states ! x \<noteq> None \<longrightarrow> mid ! x \<noteq> None"
    using merge_state_complete [of S states t c] by auto
  have "\<exists>states'. merge_all mid rest = Inr states' \<and> agrees S states' \<and>
      (\<forall>x. mid ! x \<noteq> None \<or> x \<in> fst ` set rest \<longrightarrow> states' ! x \<noteq> None)"
    by (rule 2) (use 2 mid in auto)
  with mid show ?case by auto
qed auto

lemma verify_each_complete:
  assumes "certificate p S" "all_reached p" "agrees S states" "k \<le> length S"
    "\<And>x. x < length S \<Longrightarrow> x < k \<or> reached_before p k x \<Longrightarrow> states ! x \<noteq> None"
  shows "\<exists>final. verify_each p [k..<length S] states = Inr final \<and> agrees S final \<and>
    (\<forall>x < length S. final ! x \<noteq> None)"
  using assms(3-)
proof (induction "length S - k" arbitrary: k states)
  case (Suc m)
  let ?i = "instructions p ! k"
  have n: "length S = length (instructions p)" using assms(1) by (simp add: certificate_def)
  have k: "k < length S" using Suc.hyps(2) by simp
  then have "reached_before p k k"
    using assms(2) n by (auto simp: all_reached_def reached_before_def)
  then obtain st where st: "states ! k = Some st" using Suc.prems(3) [OF k] by auto
  then have le: "flow_le st (S ! k)" using Suc.prems(1) k by (simp add: agrees_def)
  have cert: "instr_ok p k ?i (S ! k)"
    "\<forall>(t, s) \<in> set (flow_to k ?i (S ! k)). flow_le s (S ! t)"
    using assms(1) k by (auto simp: certificate_def)
  have ok: "instr_ok p k ?i st" using le cert(1) by (rule instr_ok_mono)
  have "\<forall>(t, s) \<in> set (flow_to k ?i st). t < length S \<and> flow_le s (S ! t)"
    using flow_to_forward [OF ok] flow_to_mono [OF le] cert(2) n
    by (fastforce simp: target_ok_def intro: flow_le_trans)
  then obtain states' where merge: "merge_all states (flow_to k ?i st) = Inr states'"
      "agrees S states'"
    and some: "\<And>x. states ! x \<noteq> None \<or> x \<in> fst ` set (flow_to k ?i st) \<Longrightarrow> states' ! x \<noteq> None"
    using merge_all_complete [OF Suc.prems(1)] by blast
  have later: "states' ! x \<noteq> None" if "x < length S" "x < Suc k \<or> reached_before p (Suc k) x" for x
  proof (cases "x < k \<or> reached_before p k x \<or> x = k")
    case True
    then show ?thesis using Suc.prems(3) [OF that(1)] st some by auto
  next
    case False
    then have "x \<in> fst ` set (flow_to k ?i (entry_state p))"
      using that(2) by (auto simp: reached_before_def less_Suc_eq)
    then show ?thesis using some flow_to_targets [of k ?i st "entry_state p"] by blast
  qed
  have "m = length S - Suc k" "Suc k \<le> length S" using Suc.hyps(2) k by simp_all
  from Suc.hyps(1) [OF this(1) merge(2) this(2) later]
  obtain final where "verify_each p [Suc k..<length S] states' = Inr final" "agrees S final"
    "\<forall>x < length S. final ! x \<noteq> None" by blast
  moreover have "verify_instruction p k ?i st states = Inr states'"
    using ok merge(1) Suc.prems(1) n verify_instruction_eq_Inr [of states p k ?i st states']
    by (simp add: agrees_def)
  ultimately show ?case using k st by (auto simp: upt_rec [of k])
qed auto

lemma verify_complete:
  assumes "valid_VmProgram p" "certificate p S" "all_reached p"
  shows "\<exists>v. verify p = Inr v"
proof -
  let ?n = "length (instructions p)"
  let ?initial = "(replicate ?n None)[0 := Some (entry_state p)]"
  have n: "0 < ?n" "length S = ?n"
    using assms(1,2) by (auto simp: valid_VmProgram_def VmProgram_new_eq_Inr certificate_def)
  have "agrees S ?initial"
    using assms(2) n by (auto simp: agrees_def certificate_def nth_list_update split: if_splits)
  moreover have "?initial ! x \<noteq> None" if "x < length S" "x < 0 \<or> reached_before p 0 x" for x
    using that n by (auto simp: reached_before_def)
  ultimately obtain final where pass: "verify_each p [0..<?n] ?initial = Inr final"
    "agrees S final" "\<forall>x < ?n. final ! x \<noteq> None"
    using verify_each_complete [OF assms(2,3), of ?initial 0] n by auto
  have "map (Some \<circ> the) final = final"
    using pass(2,3) n by (intro map_idI) (auto simp: agrees_def in_set_conv_nth)
  then have "final = map Some (map the final)" by simp
  then have "\<exists>certs. collect_states (enumerate 0 final) = Inr certs"
    by (metis collect_states_eq_Inr)
  with pass(1) show ?thesis by (auto simp: verify_def Let_def)
qed

lemma verify_iff:
  "valid_VmProgram p \<Longrightarrow>
   (\<exists>v. verify p = Inr v) \<longleftrightarrow> (\<exists>S. certificate p S) \<and> all_reached p"
  using verify_sound verify_complete by blast

lemma verified_program_eq: "verify p = Inr v \<Longrightarrow> verified_program v = p"
  by (auto simp: verify_def Let_def)

end
