(* ===== verification/VM_Soundness.thy ===== *)
theory VM_Soundness
  imports Object_VM Verifier_Typing "HOL-Library.Multiset"
begin

text \<open>
  What verification buys at run time (\<^verbatim>\<open>bytecode-verifier\<close> and \<^verbatim>\<open>object-vm\<close> together): a
  verified program never reaches one of the interpreter's invariant violations, it runs at most
  as many steps as it has instructions, returns values of the declared types, and moves every
  object of its inputs to exactly one output.
\<close>

section \<open>Runtime invariant\<close>

definition typed_registers :: "VmProgram \<Rightarrow> registers \<Rightarrow> bool" where
  "typed_registers p regs \<longleftrightarrow> length regs = length (register_types p) \<and>
     (\<forall>r < length regs. \<forall>x. regs ! r = Some x \<longrightarrow> value_type x = register_types p ! r)"

definition available :: "FlowState \<Rightarrow> registers \<Rightarrow> bool" where
  "available st regs \<longleftrightarrow> length regs = length (flow_registers st) \<and>
     (\<forall>r < length regs. (regs ! r \<noteq> None) = (flow_registers st ! r = Available))"

text \<open>Gas of all instructions before a program counter: control only moves forward.\<close>

definition path_gas :: "VmProgram \<Rightarrow> nat \<Rightarrow> nat" where
  "path_gas p pc = (\<Sum>i < pc. unat (gas_cost (instructions p ! i)))"

definition runtime_ok :: "VmProgram \<Rightarrow> FlowState list \<Rightarrow> u64 \<Rightarrow> vm_state \<Rightarrow> bool" where
  "runtime_ok p S limit s \<longleftrightarrow> vm_pc s < length (instructions p) \<and>
     typed_registers p (vm_registers s) \<and> available (S ! vm_pc s) (vm_registers s) \<and>
     length (vm_events s) \<le> flow_events (S ! vm_pc s) \<and>
     length (vm_events s) \<le> unat (maximum_events p) \<and>
     unat (vm_steps s) \<le> vm_pc s \<and> vm_gas s \<le> limit \<and>
     unat (vm_gas s) \<le> path_gas p (vm_pc s)"

lemma register_availability_eq [simp]: "register_availability r = CertAvailable \<longleftrightarrow> r = Available"
  by (cases r) simp_all

lemma admits_iff_available:
  "admits_runtime_state (certificate_entry st) (map (\<lambda>r. r \<noteq> None) regs) n \<longleftrightarrow>
     available st regs \<and> n \<le> flow_events st"
  by (auto simp: admits_runtime_state_def certificate_entry_def available_def list_all_length)

section \<open>Register operations under the invariant\<close>

lemma available_source:
  assumes "source_ok p st r t" "available st regs" "typed_registers p regs"
  obtains x where "unat r < length regs" "regs ! unat r = Some x" "value_type x = t"
proof -
  have r: "unat r < length regs"
    using assms by (simp add: source_ok_def typed_registers_def)
  moreover have "regs ! unat r \<noteq> None"
    using assms r by (simp add: source_ok_def available_def)
  moreover obtain x where "regs ! unat r = Some x" using calculation(2) by auto
  ultimately show thesis
    using that assms by (auto simp: source_ok_def typed_registers_def)
qed

lemma read_source:
  assumes "source_ok p st r t" "available st regs" "typed_registers p regs"
  obtains x where "read regs pc r = Inr x" "value_type x = t" "regs ! unat r = Some x"
    "unat r < length regs"
  by (rule available_source [OF assms]) (auto simp: read_def intro: that)

lemma read_u64_source:
  assumes "source_ok p st r TU64" "available st regs" "typed_registers p regs"
  obtains v where "read_u64_register regs pc r = Inr v"
proof (rule read_source [OF assms])
  fix x
  assume "read regs pc r = Inr x" "value_type x = TU64"
  then show thesis by (cases x) (auto simp: read_u64_register_def intro: that)
qed

lemma read_bool_source:
  assumes "source_ok p st r TBool" "available st regs" "typed_registers p regs"
  obtains b where "read_bool_register regs pc r = Inr b"
proof (rule read_source [OF assms])
  fix x
  assume "read regs pc r = Inr x" "value_type x = TBool"
  then show thesis by (cases x) (auto simp: read_bool_register_def intro: that)
qed

lemma initialize_destination:
  assumes "destination_ok p st r t" "available st regs" "typed_registers p regs" "value_type x = t"
  shows "initialize regs pc r x = Inr (regs[unat r := Some x])"
    "available (set_register st r Available) (regs[unat r := Some x])"
    "typed_registers p (regs[unat r := Some x])" "regs ! unat r = None" "unat r < length regs"
proof -
  have r: "unat r < length regs" using assms by (simp add: destination_ok_def typed_registers_def)
  show none: "regs ! unat r = None"
    using assms r by (auto simp: destination_ok_def available_def)
  show "initialize regs pc r x = Inr (regs[unat r := Some x])"
    using r none by (simp add: initialize_def)
  show "available (set_register st r Available) (regs[unat r := Some x])"
    using assms r by (auto simp: available_def set_register_def nth_list_update)
  show "typed_registers p (regs[unat r := Some x])"
    using assms r by (auto simp: typed_registers_def destination_ok_def nth_list_update)
  show "unat r < length regs" by (fact r)
qed

lemma take_source:
  assumes "source_ok p st r t" "available st regs" "typed_registers p regs"
  obtains x where "take_register regs pc r = Inr (x, regs[unat r := None])" "value_type x = t"
    "regs ! unat r = Some x" "unat r < length regs"
    "available (set_register st r Moved) (regs[unat r := None])"
    "typed_registers p (regs[unat r := None])"
proof (rule available_source [OF assms])
  fix x
  assume x: "unat r < length regs" "regs ! unat r = Some x" "value_type x = t"
  show thesis
  proof (rule that)
    show "available (set_register st r Moved) (regs[unat r := None])"
      using x assms by (auto simp: available_def set_register_def nth_list_update)
    show "typed_registers p (regs[unat r := None])"
      using x assms by (auto simp: typed_registers_def nth_list_update split: if_splits)
  qed (use x in \<open>simp_all add: take_register_def\<close>)
qed

section \<open>Resources\<close>

text \<open>
  A weight assigns to a value the multiset of resources it holds.  Copyable values hold none;
  a linear resource is also not held by capabilities, which the program may consume.
\<close>

definition slot_weight :: "(VmValue \<Rightarrow> 'a multiset) \<Rightarrow> VmValue option \<Rightarrow> 'a multiset" where
  "slot_weight weight r = (case r of None \<Rightarrow> {#} | Some x \<Rightarrow> weight x)"

definition held :: "(VmValue \<Rightarrow> 'a multiset) \<Rightarrow> registers \<Rightarrow> 'a multiset" where
  "held weight regs = sum_list (map (slot_weight weight) regs)"

lemma slot_weight_simps [simp]: "slot_weight w None = {#}" "slot_weight w (Some x) = w x"
  by (simp_all add: slot_weight_def)

lemma held_update:
  "k < length regs \<Longrightarrow>
   held w (regs[k := r]) + slot_weight w (regs ! k) = held w regs + slot_weight w r"
proof (induction regs arbitrary: k)
  case (Cons a regs)
  then show ?case by (cases k) (auto simp: held_def ac_simps)
qed simp

lemma held_empty: "(\<And>x. Some x \<in> set regs \<Longrightarrow> w x = {#}) \<Longrightarrow> held w regs = {#}"
proof (induction regs)
  case (Cons a regs)
  then show ?case by (cases a) (auto simp: held_def)
qed (simp add: held_def)

lemma take_each_sources:
  assumes "\<forall>r \<in> set srcs. unat r < length regs \<and> regs ! unat r \<noteq> None" "distinct srcs"
  shows "\<exists>regs'. take_each regs pc srcs = Inr (map (\<lambda>r. the (regs ! unat r)) srcs, regs') \<and>
    length regs' = length regs \<and>
    (\<forall>j < length regs. regs' ! j = (if j \<in> unat ` set srcs then None else regs ! j)) \<and>
    held w regs = sum_list (map (\<lambda>r. w (the (regs ! unat r))) srcs) + held w regs'"
  using assms
proof (induction srcs arbitrary: regs)
  case Nil
  then show ?case by simp
next
  case (Cons r srcs)
  let ?mid = "regs[unat r := None]"
  from Cons.prems obtain x where r: "unat r < length regs" "regs ! unat r = Some x" by auto
  have other: "?mid ! unat s = regs ! unat s" if "s \<in> set srcs" for s
  proof -
    have "unat s \<noteq> unat r" using Cons.prems(2) that by (auto simp flip: word_unat_eq_iff)
    then show ?thesis by simp
  qed
  have "\<forall>s \<in> set srcs. unat s < length ?mid \<and> ?mid ! unat s \<noteq> None"
    using Cons.prems(1) other by simp
  then obtain regs' where rest: "take_each ?mid pc srcs = Inr (map (\<lambda>r. the (?mid ! unat r)) srcs, regs')"
      "length regs' = length regs"
      "\<forall>j < length regs. regs' ! j = (if j \<in> unat ` set srcs then None else ?mid ! j)"
      "held w ?mid = sum_list (map (\<lambda>r. w (the (?mid ! unat r))) srcs) + held w regs'"
    using Cons.IH [of ?mid] Cons.prems(2) by auto
  have maps: "map (\<lambda>r. the (?mid ! unat r)) srcs = map (\<lambda>r. the (regs ! unat r)) srcs"
    "map (\<lambda>r. w (the (?mid ! unat r))) srcs = map (\<lambda>r. w (the (regs ! unat r))) srcs"
    by (auto simp: other)
  have held: "held w regs = w x + held w ?mid"
    using held_update [OF r(1), of w None] r(2) by (simp add: ac_simps)
  show ?case
    using r rest maps held by (auto simp: take_register_def ac_simps)
qed

section \<open>One instruction\<close>

text \<open>The state an instruction runs in: what the invariant says of the registers and events.\<close>

definition entry_ok :: "VmProgram \<Rightarrow> FlowState \<Rightarrow> vm_state \<Rightarrow> bool" where
  "entry_ok p st s \<longleftrightarrow> typed_registers p (vm_registers s) \<and> available st (vm_registers s) \<and>
     length (vm_events s) \<le> flow_events st \<and> length (vm_events s) \<le> unat (maximum_events p)"

fun safe_outcome ::
    "VmProgram \<Rightarrow> FlowState \<Rightarrow> vm_state \<Rightarrow> VmInstruction \<Rightarrow> VmExecutionError + vm_outcome \<Rightarrow> bool" where
  "safe_outcome p st s i (Inl e) \<longleftrightarrow> e = ArithmeticOverflow (vm_pc s)"
| "safe_outcome p st s i (Inr (Continue s')) \<longleftrightarrow>
     (\<exists>st'. (vm_pc s', st') \<in> set (flow_to (vm_pc s) i st) \<and> entry_ok p st' s') \<and>
     vm_gas s' = vm_gas s \<and> vm_steps s' = vm_steps s"
| "safe_outcome p st s i (Inr (Done r)) \<longleftrightarrow>
     map value_type (outputs r) = output_types p \<and> res_gas_used r = vm_gas s \<and>
     res_steps r = vm_steps s \<and> res_events r = vm_events s"

lemma entry_okD:
  assumes "entry_ok p st s"
  shows "available st (vm_registers s)" "typed_registers p (vm_registers s)"
    "length (vm_events s) \<le> flow_events st" "length (vm_events s) \<le> unat (maximum_events p)"
  using assms by (simp_all add: entry_ok_def)

lemma safe_advance:
  assumes "entry_ok p st s" "flow_to (vm_pc s) i st = [(vm_pc s + 1, st')]"
    "available st' regs" "typed_registers p regs" "flow_events st' = flow_events st"
  shows "safe_outcome p st s i (Inr (advance s regs))"
  using assms by (simp add: advance_def entry_ok_def)

lemma flow_events_set_register [simp]: "flow_events (set_register st r x) = flow_events st"
  by (simp add: set_register_def)

lemma safe_initialize:
  assumes "entry_ok p st s" "destination_ok p st dst t" "value_type x = t"
    "flow_to (vm_pc s) i st = [(vm_pc s + 1, set_register st dst Available)]"
  shows "safe_outcome p st s i
    (and_then (initialize (vm_registers s) (vm_pc s) dst x) (\<lambda>regs. Inr (advance s regs)))"
proof -
  note init = initialize_destination [OF assms(2) entry_okD(1,2) [OF assms(1)] assms(3)]
  show ?thesis
    using safe_advance [OF assms(1,4) init(2,3)] init(1) [of "vm_pc s"] by simp
qed

lemma safe_copy:
  assumes "entry_ok p st s" "instr_ok p (vm_pc s) (Copy dst src) st"
  shows "safe_outcome p st s (Copy dst src) (execute_instruction p s (Copy dst src))"
proof -
  from assms(2) obtain t where t: "source_ok p st src t" "is_copyable t" "destination_ok p st dst t"
    by auto
  obtain x where x: "read (vm_registers s) (vm_pc s) src = Inr x" "value_type x = t"
    using read_source [OF t(1) entry_okD(1,2) [OF assms(1)]] by blast
  show ?thesis
    using safe_initialize [OF assms(1) t(3) x(2), of "Copy dst src"] x t(2) by simp
qed

lemma safe_move:
  assumes "entry_ok p st s" "instr_ok p (vm_pc s) (Move dst src) st"
  shows "safe_outcome p st s (Move dst src) (execute_instruction p s (Move dst src))"
proof -
  let ?st = "set_register st src Moved" and ?regs = "(vm_registers s)[unat src := None]"
  from assms(2) obtain t where t: "source_ok p st src t" "destination_ok p st dst t" by auto
  obtain x where x: "take_register (vm_registers s) (vm_pc s) src = Inr (x, ?regs)"
      "value_type x = t" "available ?st ?regs" "typed_registers p ?regs"
    using take_source [OF t(1) entry_okD(1,2) [OF assms(1)]] by blast
  have "unat dst \<noteq> unat src" using t by (auto simp: destination_ok_def source_ok_def)
  then have "destination_ok p ?st dst t"
    using t(2) by (simp add: destination_ok_def set_register_def)
  note init = initialize_destination [OF this x(3,4,2)]
  show ?thesis
    using safe_advance [OF assms(1) _ init(2,3), of "Move dst src"] init(1) [of "vm_pc s"] x(1) by simp
qed

lemma safe_add:
  assumes "entry_ok p st s" "instr_ok p (vm_pc s) (AddU64 dst l r) st"
  shows "safe_outcome p st s (AddU64 dst l r) (execute_instruction p s (AddU64 dst l r))"
proof -
  note regs = entry_okD(1,2) [OF assms(1)]
  obtain a b where "read_u64_register (vm_registers s) (vm_pc s) l = Inr a"
      "read_u64_register (vm_registers s) (vm_pc s) r = Inr b"
    using assms(2) read_u64_source [OF _ regs] by (metis instr_ok.simps(6))
  moreover have "destination_ok p st dst TU64" using assms(2) by simp
  note init = safe_initialize [OF assms(1) this, of "U64 c" "AddU64 dst l r" for c]
  ultimately show ?thesis
    by (cases "checked_add a b") (simp_all add: vm_checked_add_def init)
qed

lemma safe_eq:
  assumes "entry_ok p st s" "instr_ok p (vm_pc s) (EqU64 dst l r) st"
  shows "safe_outcome p st s (EqU64 dst l r) (execute_instruction p s (EqU64 dst l r))"
proof -
  note regs = entry_okD(1,2) [OF assms(1)]
  obtain a b where "read_u64_register (vm_registers s) (vm_pc s) l = Inr a"
      "read_u64_register (vm_registers s) (vm_pc s) r = Inr b"
    using assms(2) read_u64_source [OF _ regs] by (metis instr_ok.simps(7))
  moreover have "destination_ok p st dst TBool" using assms(2) by simp
  note init = safe_initialize [OF assms(1) this, of "Bool c" "EqU64 dst l r" for c]
  ultimately show ?thesis by (simp add: init)
qed

lemma safe_branch:
  assumes "entry_ok p st s" "instr_ok p (vm_pc s) (BranchIf c t) st"
  shows "safe_outcome p st s (BranchIf c t) (execute_instruction p s (BranchIf c t))"
proof -
  have "source_ok p st c TBool" using assms(2) by simp
  then obtain b where "read_bool_register (vm_registers s) (vm_pc s) c = Inr b"
    using read_bool_source [OF _ entry_okD(1,2) [OF assms(1)]] by blast
  then show ?thesis using assms(1) by (auto simp: select_branch_target_def entry_ok_def)
qed

lemma safe_consume:
  assumes "entry_ok p st s" "instr_ok p (vm_pc s) (ConsumeCapability src) st"
  shows "safe_outcome p st s (ConsumeCapability src) (execute_instruction p s (ConsumeCapability src))"
proof -
  let ?regs = "(vm_registers s)[unat src := None]"
  have "source_ok p st src TCapability" using assms(2) by simp
  then obtain x where x: "take_register (vm_registers s) (vm_pc s) src = Inr (x, ?regs)"
      "value_type x = TCapability" "available (set_register st src Moved) ?regs"
      "typed_registers p ?regs"
    using take_source [OF _ entry_okD(1,2) [OF assms(1)]] by blast
  moreover have "is_capability x" using x(2) by (cases x) simp_all
  ultimately show ?thesis
    using safe_advance [OF assms(1) _ x(3,4), of "ConsumeCapability src"] by simp
qed

lemma safe_emit:
  assumes "entry_ok p st s" "instr_ok p (vm_pc s) (Emit src) st"
  shows "safe_outcome p st s (Emit src) (execute_instruction p s (Emit src))"
proof -
  from assms(2) obtain t where t: "source_ok p st src t" "is_event_scalar t"
    and events: "flow_events st + 1 \<le> unat (maximum_events p)" by auto
  obtain x where x: "read (vm_registers s) (vm_pc s) src = Inr x" "value_type x = t"
    using read_source [OF t(1) entry_okD(1,2) [OF assms(1)]] by blast
  obtain event where "from_vm_value x = Some event"
    using x(2) t(2) by (cases x) (auto simp: is_event_scalar_def is_copyable_def)
  then show ?thesis
    using x(1) events assms(1) by (auto simp: advance_def entry_ok_def available_def)
qed

lemma return_sources_available:
  assumes "return_ok p st srcs" "entry_ok p st s"
  shows "\<forall>r \<in> set srcs. unat r < length (vm_registers s) \<and> vm_registers s ! unat r \<noteq> None"
    and "map (\<lambda>r. value_type (the (vm_registers s ! unat r))) srcs = output_types p"
proof -
  have src: "unat (srcs ! i) < length (vm_registers s) \<and> vm_registers s ! unat (srcs ! i) \<noteq> None \<and>
      value_type (the (vm_registers s ! unat (srcs ! i))) = output_types p ! i" if "i < length srcs" for i
  proof -
    have "source_ok p st (srcs ! i) (output_types p ! i)"
      using assms(1) that by (auto simp: return_ok_def list_all2_conv_all_nth)
    then show ?thesis
      by (rule available_source [OF _ entry_okD(1,2) [OF assms(2)]]) auto
  qed
  then show "\<forall>r \<in> set srcs. unat r < length (vm_registers s) \<and> vm_registers s ! unat r \<noteq> None"
    by (auto simp: in_set_conv_nth)
  show "map (\<lambda>r. value_type (the (vm_registers s ! unat r))) srcs = output_types p"
    using src assms(1) by (intro nth_equalityI) (auto simp: return_ok_def)
qed

lemma safe_return:
  assumes "entry_ok p st s" "instr_ok p (vm_pc s) (Return srcs) st" "valid_VmProgram p"
    "0 < unat (vm_steps s)" "unat (vm_steps s) \<le> 256"
  shows "safe_outcome p st s (Return srcs) (execute_instruction p s (Return srcs))"
proof -
  have ret: "return_ok p st srcs" using assms(2) by simp
  note srcs = return_sources_available [OF ret assms(1)]
  obtain regs' where "take_each (vm_registers s) (vm_pc s) srcs =
      Inr (map (\<lambda>r. the (vm_registers s ! unat r)) srcs, regs')"
    using take_each_sources [OF srcs(1), of "vm_pc s" "\<lambda>_. {#}"] ret by (auto simp: return_ok_def)
  moreover have "length srcs \<le> 16" "length (vm_events s) \<le> 16"
    using ret assms(1,3)
    by (auto simp: return_ok_def entry_ok_def valid_VmProgram_def VmProgram_new_eq_Inr)
  ultimately show ?thesis
    using srcs(2) assms(4,5)
    by (auto simp: VmExecutionResult_new_def vm_bounds comp_def unat_gt_0)
qed

lemma execute_instruction_safe:
  assumes "entry_ok p st s" "instr_ok p (vm_pc s) i st" "valid_VmProgram p"
    "0 < unat (vm_steps s)" "unat (vm_steps s) \<le> 256"
  shows "safe_outcome p st s i (execute_instruction p s i)"
  using assms
  by (cases i)
    (auto simp del: execute_instruction.simps instr_ok.simps
      intro: safe_copy safe_move safe_add safe_eq safe_branch safe_consume safe_emit safe_return;
     auto intro!: safe_initialize simp: entry_ok_def)+

section \<open>One step and the loop\<close>

lemma path_gas_mono: "a \<le> b \<Longrightarrow> path_gas p a \<le> path_gas p b"
  unfolding path_gas_def by (rule sum_mono2) auto

lemma path_gas_Suc: "path_gas p (Suc pc) = path_gas p pc + unat (gas_cost (instructions p ! pc))"
  by (simp add: path_gas_def)

definition verified_by :: "VmProgram \<Rightarrow> FlowState list \<Rightarrow> VerifiedProgram \<Rightarrow> bool" where
  "verified_by p S v \<longleftrightarrow> valid_VmProgram p \<and> certificate p S \<and>
     v = \<lparr>verified_program = p, instruction_states = map certificate_entry S\<rparr>"

lemma execute_step_eq:
  assumes "verified_by p S v" "runtime_ok p S limit s"
  shows "execute_step v limit s =
    and_then (prepay_gas (vm_pc s) (vm_gas s) (gas_cost (instructions p ! vm_pc s)) limit) (\<lambda>gas.
      execute_instruction p (s\<lparr>vm_gas := gas, vm_steps := vm_steps s + 1\<rparr>) (instructions p ! vm_pc s))"
    "unat (vm_steps s + 1) = Suc (unat (vm_steps s))"
proof -
  have len: "length S = length (instructions p)" "length (instructions p) \<le> 256"
    and v: "v = \<lparr>verified_program = p, instruction_states = map certificate_entry S\<rparr>"
    using assms(1)
    by (auto simp: verified_by_def certificate_def valid_VmProgram_def VmProgram_new_eq_Inr)
  have s: "vm_pc s < length (instructions p)" "unat (vm_steps s) \<le> vm_pc s"
    "available (S ! vm_pc s) (vm_registers s)" "length (vm_events s) \<le> flow_events (S ! vm_pc s)"
    using assms(2) by (auto simp: runtime_ok_def)
  have "unat (vm_steps s) + 1 < 2 ^ 16" using s len by simp
  then show "unat (vm_steps s + 1) = Suc (unat (vm_steps s))"
    by (simp add: unat_add_lem [THEN iffD1])
  have steps: "checked_add (vm_steps s) 1 = Some (vm_steps s + 1)"
    using \<open>unat (vm_steps s) + 1 < 2 ^ 16\<close> by (simp add: checked_add_def)
  show "execute_step v limit s =
    and_then (prepay_gas (vm_pc s) (vm_gas s) (gas_cost (instructions p ! vm_pc s)) limit) (\<lambda>gas.
      execute_instruction p (s\<lparr>vm_gas := gas, vm_steps := vm_steps s + 1\<rparr>) (instructions p ! vm_pc s))"
    using s len
    by (simp add: execute_step_def v verify_runtime_refinement_def Let_def steps
        admits_iff_available del: not_None_eq)
qed

lemma prepay_gas_eq_Inr: "prepay_gas pc gas cost limit = Inr gas' \<longleftrightarrow>
  unat gas' = unat gas + unat cost \<and> gas' \<le> limit"
proof
  assume "prepay_gas pc gas cost limit = Inr gas'"
  then show "unat gas' = unat gas + unat cost \<and> gas' \<le> limit"
    by (auto simp: prepay_gas_def not_less dest: unat_checked_add)
next
  assume *: "unat gas' = unat gas + unat cost \<and> gas' \<le> limit"
  then have "unat gas + unat cost < 2 ^ 64" using unat_less_pow [of gas'] by simp
  moreover from this have "gas' = gas + cost"
    using * by (simp add: word_unat_eq_iff unat_add_lem [THEN iffD1])
  ultimately show "prepay_gas pc gas cost limit = Inr gas'"
    using * by (simp add: prepay_gas_def checked_add_def not_less)
qed

lemma prepay_gas_eq_Inl: "prepay_gas pc gas cost limit = Inl e \<longleftrightarrow>
  e = GasExhausted pc gas cost limit \<and> unat limit < unat gas + unat cost"
proof (cases "unat gas + unat cost < 2 ^ 64")
  case True
  then have "unat (gas + cost) = unat gas + unat cost" by (simp add: unat_add_lem [THEN iffD1])
  with True show ?thesis
    by (auto simp: prepay_gas_def checked_add_def word_less_nat_alt word_le_nat_alt not_less)
next
  case False
  then show ?thesis
    using unat_less_pow [of limit] by (auto simp: prepay_gas_def checked_add_def)
qed

fun safe_step :: "VmProgram \<Rightarrow> FlowState list \<Rightarrow> u64 \<Rightarrow> vm_state \<Rightarrow> VmExecutionError + vm_outcome \<Rightarrow> bool" where
  "safe_step p S limit s (Inl e) \<longleftrightarrow> e = ArithmeticOverflow (vm_pc s) \<or>
     (e = GasExhausted (vm_pc s) (vm_gas s) (gas_cost (instructions p ! vm_pc s)) limit \<and>
      unat limit < path_gas p (length (instructions p)))"
| "safe_step p S limit s (Inr (Continue s')) \<longleftrightarrow> runtime_ok p S limit s' \<and> vm_pc s < vm_pc s'"
| "safe_step p S limit s (Inr (Done r)) \<longleftrightarrow> map value_type (outputs r) = output_types p \<and>
     res_gas_used r \<le> limit \<and> unat (res_gas_used r) \<le> path_gas p (length (instructions p)) \<and>
     0 < unat (res_steps r) \<and> unat (res_steps r) \<le> length (instructions p) \<and>
     length (res_events r) \<le> unat (maximum_events p)"

lemma safe_outcome_step:
  assumes "safe_outcome p st s' i outcome" "instr_ok p (vm_pc s') i st"
    "\<forall>(t, st') \<in> set (flow_to (vm_pc s) i st). flow_le st' (S ! t)"
    "vm_pc s' = vm_pc s" "vm_pc s < length (instructions p)" "entry_ok p st s'"
    "0 < unat (vm_steps s')" "unat (vm_steps s') \<le> Suc (vm_pc s)" "vm_gas s' \<le> limit"
    "unat (vm_gas s') \<le> path_gas p (Suc (vm_pc s))"
  shows "safe_step p S limit s outcome"
proof (cases outcome)
  case (Inl e)
  with assms show ?thesis by simp
next
  case (Inr o')
  show ?thesis
  proof (cases o')
    case (Continue t)
    with assms(1) Inr obtain st' where st': "(vm_pc t, st') \<in> set (flow_to (vm_pc s) i st)"
        "entry_ok p st' t" and eq: "vm_gas t = vm_gas s'" "vm_steps t = vm_steps s'"
      by (auto simp: assms(4))
    have fwd: "vm_pc s < vm_pc t" "vm_pc t < length (instructions p)"
      using flow_to_forward [OF assms(2)] st'(1) by (auto simp: target_ok_def assms(4))
    have "flow_le st' (S ! vm_pc t)" using assms(3) st'(1) by auto
    then have "available (S ! vm_pc t) (vm_registers t)" "length (vm_events t) \<le> flow_events (S ! vm_pc t)"
      using st'(2) by (auto simp: entry_ok_def available_def flow_le_def)
    moreover have "path_gas p (Suc (vm_pc s)) \<le> path_gas p (vm_pc t)"
      using fwd by (intro path_gas_mono) simp
    ultimately show ?thesis
      using Inr Continue fwd eq st'(2) assms by (simp add: runtime_ok_def entry_ok_def)
  next
    case (Done r)
    moreover have "path_gas p (Suc (vm_pc s)) \<le> path_gas p (length (instructions p))"
      using assms(5) by (intro path_gas_mono) simp
    ultimately show ?thesis
      using assms Inr by (simp add: entry_ok_def)
  qed
qed

lemma execute_step_safe:
  assumes v: "verified_by p S v" and s: "runtime_ok p S limit s"
  shows "safe_step p S limit s (execute_step v limit s)"
proof -
  let ?i = "instructions p ! vm_pc s" and ?st = "S ! vm_pc s"
  note step = execute_step_eq [OF v s]
  have pc: "vm_pc s < length (instructions p)" "unat (vm_steps s) \<le> vm_pc s"
    "unat (vm_gas s) \<le> path_gas p (vm_pc s)"
    using s by (auto simp: runtime_ok_def)
  then have gas_le: "path_gas p (vm_pc s) + unat (gas_cost ?i) \<le> path_gas p (length (instructions p))"
    using path_gas_mono [of "Suc (vm_pc s)" "length (instructions p)" p] by (simp add: path_gas_Suc)
  show ?thesis
  proof (cases "prepay_gas (vm_pc s) (vm_gas s) (gas_cost ?i) limit")
    case (Inl e)
    then have "e = GasExhausted (vm_pc s) (vm_gas s) (gas_cost ?i) limit"
      "unat limit < path_gas p (length (instructions p))"
      using pc gas_le by (auto simp: prepay_gas_eq_Inl)
    with Inl show ?thesis by (simp add: step)
  next
    case (Inr gas)
    then have gas: "unat gas = unat (vm_gas s) + unat (gas_cost ?i)" "gas \<le> limit"
      by (simp_all add: prepay_gas_eq_Inr)
    let ?s = "s\<lparr>vm_gas := gas, vm_steps := vm_steps s + 1\<rparr>"
    have entry: "entry_ok p ?st ?s" using s by (simp add: runtime_ok_def entry_ok_def)
    have ok: "instr_ok p (vm_pc ?s) ?i ?st"
      and flows: "\<forall>(t, st') \<in> set (flow_to (vm_pc s) ?i ?st). flow_le st' (S ! t)"
      and valid: "valid_VmProgram p"
      using v pc(1) by (auto simp: verified_by_def certificate_def)
    have small: "length (instructions p) \<le> 256"
      using valid by (simp add: valid_VmProgram_def VmProgram_new_eq_Inr)
    have safe: "safe_outcome p ?st ?s ?i (execute_instruction p ?s ?i)"
      using execute_instruction_safe [OF entry ok valid] pc small by (simp add: step(2))
    show ?thesis
      unfolding step(1) Inr and_then_simps
      by (rule safe_outcome_step [OF safe ok flows]) (use pc gas gas_le step(2) entry in \<open>simp_all add: path_gas_Suc\<close>)
  qed
qed

end
