(* ===== verification/VM_Execution.thy ===== *)
theory VM_Execution
  imports VM_Soundness
begin

text \<open>
  Whole executions of \<^verbatim>\<open>object-vm\<close>: the loop and its initial state, which errors a verified program
  can return, its bounds on gas, steps and events, the conservation of objects and capabilities,
  and that evidence of an execution replays.
\<close>

section \<open>The loop\<close>

fun safe_result :: "VmProgram \<Rightarrow> u64 \<Rightarrow> VmExecutionError + VmExecutionResult \<Rightarrow> bool" where
  "safe_result p limit (Inl e) \<longleftrightarrow> (\<exists>pc < length (instructions p). e = ArithmeticOverflow pc) \<or>
     (\<exists>pc < length (instructions p). \<exists>gas.
        e = GasExhausted pc gas (gas_cost (instructions p ! pc)) limit) \<and>
     unat limit < path_gas p (length (instructions p))"
| "safe_result p limit (Inr r) \<longleftrightarrow> map value_type (outputs r) = output_types p \<and>
     res_gas_used r \<le> limit \<and> unat (res_gas_used r) \<le> path_gas p (length (instructions p)) \<and>
     0 < unat (res_steps r) \<and> unat (res_steps r) \<le> length (instructions p) \<and>
     length (res_events r) \<le> unat (maximum_events p)"

lemma execute_loop_safe:
  assumes "verified_by p S v" "runtime_ok p S limit s"
  shows "safe_result p limit (execute_loop v limit s)"
  using assms
proof (induction v limit s rule: execute_loop.induct)
  case (1 v limit s)
  have safe: "safe_step p S limit s (execute_step v limit s)"
    using 1 by (intro execute_step_safe)
  have pc: "vm_pc s < length (instructions p)" using 1 by (simp add: runtime_ok_def)
  show ?case
  proof (cases "execute_step v limit s")
    case (Inl e)
    then have "execute_loop v limit s = Inl e" by (simp add: execute_loop.simps)
    then show ?thesis using Inl safe pc by auto
  next
    case (Inr outcome)
    show ?thesis
    proof (cases outcome)
      case (Continue s')
      then have "runtime_ok p S limit s'" using safe Inr by simp
      then have "safe_result p limit (execute_loop v limit s')" using 1 Inr Continue by blast
      then show ?thesis using Inr Continue by (simp add: execute_loop.simps [of v limit s])
    next
      case (Done r)
      then show ?thesis using safe Inr by (simp add: execute_loop.simps)
    qed
  qed
qed

section \<open>The initial state\<close>

lemma initialize_inputs_eq_Inr:
  "k + length inputs \<le> length regs \<Longrightarrow>
   initialize_inputs p (enumerate k inputs) regs = Inr regs' \<longleftrightarrow>
     (\<forall>i < length inputs. value_type (inputs ! i) = register_types p ! (k + i)) \<and>
     regs' = take k regs @ map Some inputs @ drop (k + length inputs) regs"
proof (induction inputs arbitrary: k regs)
  case (Cons x inputs)
  have "take (Suc k) (regs[k := Some x]) = take k regs @ [Some x]"
    using Cons.prems by (simp add: take_Suc_conv_app_nth take_update_cancel)
  moreover have "(\<forall>i < length (x # inputs). value_type ((x # inputs) ! i) = register_types p ! (k + i)) \<longleftrightarrow>
    value_type x = register_types p ! k \<and>
    (\<forall>i < length inputs. value_type (inputs ! i) = register_types p ! (Suc k + i))"
    by (simp add: All_less_Suc2)
  ultimately show ?case
    using Cons.IH [of "Suc k" "regs[k := Some x]"] Cons.prems by (auto simp: Let_def)
qed auto

lemma initialize_inputs_eq_Inl:
  "initialize_inputs p (enumerate k inputs) regs = Inl e \<Longrightarrow>
   \<exists>i < length inputs. value_type (inputs ! i) \<noteq> register_types p ! (k + i) \<and>
     e = InputTypeMismatch (word_of_nat (k + i)) (register_types p ! (k + i)) (value_type (inputs ! i))"
proof (induction inputs arbitrary: k regs)
  case (Cons x inputs)
  show ?case
  proof (cases "value_type x = register_types p ! k")
    case True
    then obtain i where "i < length inputs" "value_type (inputs ! i) \<noteq> register_types p ! (Suc k + i)"
        "e = InputTypeMismatch (word_of_nat (Suc k + i)) (register_types p ! (Suc k + i)) (value_type (inputs ! i))"
      using Cons.IH [of "Suc k"] Cons.prems by (fastforce simp: Let_def)
    then show ?thesis by (intro exI [of _ "Suc i"]) simp
  next
    case False
    then show ?thesis using Cons.prems by (intro exI [of _ 0]) (simp add: Let_def)
  qed
qed simp

definition inputs_match :: "VmProgram \<Rightarrow> VmValue list \<Rightarrow> bool" where
  "inputs_match p inputs \<longleftrightarrow> map value_type inputs = take (unat (input_count p)) (register_types p)"

definition start_registers :: "VmProgram \<Rightarrow> VmValue list \<Rightarrow> registers" where
  "start_registers p inputs =
     map Some inputs @ replicate (length (register_types p) - length inputs) None"

definition start_state :: "VmProgram \<Rightarrow> VmValue list \<Rightarrow> vm_state" where
  "start_state p inputs = \<lparr>vm_pc = 0, vm_registers = start_registers p inputs, vm_gas = 0,
     vm_steps = 0, vm_events = []\<rparr>"

lemma valid_input_count: "valid_VmProgram p \<Longrightarrow> unat (input_count p) \<le> length (register_types p)"
  by (auto simp: valid_VmProgram_def VmProgram_new_eq_Inr)

lemma inputs_match_iff:
  assumes "unat (input_count p) \<le> length (register_types p)"
  shows "inputs_match p inputs \<longleftrightarrow> length inputs = unat (input_count p) \<and>
    (\<forall>i < length inputs. value_type (inputs ! i) = register_types p ! i)"
  using assms by (auto simp: inputs_match_def list_eq_iff_nth_eq)

lemma execute_eq:
  assumes "valid_VmProgram p" "verified_program v = p"
  shows "inputs_match p inputs \<Longrightarrow> execute v inputs limit = execute_loop v limit (start_state p inputs)"
    and "\<not> inputs_match p inputs \<Longrightarrow> \<exists>e. execute v inputs limit = Inl e \<and>
      (e = InputCountMismatch (unat (input_count p)) (length inputs) \<and>
         length inputs \<noteq> unat (input_count p) \<or>
       (\<exists>i < length inputs. value_type (inputs ! i) \<noteq> register_types p ! i \<and>
         e = InputTypeMismatch (word_of_nat i) (register_types p ! i) (value_type (inputs ! i))))"
proof -
  note le = valid_input_count [OF assms(1)]
  note init = initialize_inputs_eq_Inr [of 0 inputs "replicate (length (register_types p)) None" p]
  show "execute v inputs limit = execute_loop v limit (start_state p inputs)" if "inputs_match p inputs"
    using that le assms(2) init [of "start_registers p inputs"]
    by (simp add: inputs_match_iff execute_def Let_def start_state_def start_registers_def)
  assume no: "\<not> inputs_match p inputs"
  show "\<exists>e. execute v inputs limit = Inl e \<and>
      (e = InputCountMismatch (unat (input_count p)) (length inputs) \<and>
         length inputs \<noteq> unat (input_count p) \<or>
       (\<exists>i < length inputs. value_type (inputs ! i) \<noteq> register_types p ! i \<and>
         e = InputTypeMismatch (word_of_nat i) (register_types p ! i) (value_type (inputs ! i))))"
  proof (cases "length inputs = unat (input_count p)")
    case True
    then obtain e where e: "initialize_inputs p (enumerate 0 inputs)
        (replicate (length (register_types p)) None) = Inl e"
      using no le init
      by (cases "initialize_inputs p (enumerate 0 inputs) (replicate (length (register_types p)) None)")
        (auto simp: inputs_match_iff)
    then have "execute v inputs limit = Inl e" using True assms(2) by (simp add: execute_def Let_def)
    then show ?thesis using initialize_inputs_eq_Inl [OF e] by auto
  qed (use assms(2) in \<open>simp add: execute_def Let_def\<close>)
qed

lemma start_state_ok:
  assumes "verified_by p S v" "inputs_match p inputs"
  shows "runtime_ok p S limit (start_state p inputs)"
proof -
  have p: "unat (input_count p) \<le> length (register_types p)" "0 < length (instructions p)"
    and le: "flow_le (entry_state p) (S ! 0)"
    using assms(1)
    by (auto simp: verified_by_def certificate_def valid_VmProgram_def VmProgram_new_eq_Inr)
  have inputs: "length inputs = unat (input_count p)"
    "\<forall>i < length inputs. value_type (inputs ! i) = register_types p ! i"
    using assms(2) inputs_match_iff [OF p(1)] by simp_all
  have "typed_registers p (start_registers p inputs)"
    using inputs p by (auto simp: typed_registers_def start_registers_def nth_append split: if_splits)
  moreover have registers: "flow_registers (S ! 0) = replicate (unat (input_count p)) Available
      @ replicate (length (register_types p) - unat (input_count p)) Uninitialized"
    using le by (simp add: flow_le_def entry_state_def)
  have "available (S ! 0) (start_registers p inputs)"
    using inputs p(1) registers
    by (auto simp: available_def start_registers_def nth_append split: if_splits)
  ultimately show ?thesis
    using p by (simp add: runtime_ok_def start_state_def)
qed

lemma verified_by_verify:
  assumes "valid_VmProgram p" "verify p = Inr v"
  obtains S where "verified_by p S v"
  using verify_sound [OF assms] assms(1) that unfolding verified_by_def by blast

lemma execute_verified:
  assumes "valid_VmProgram p" "verify p = Inr v" "inputs_match p inputs"
  shows "safe_result p limit (execute v inputs limit)"
proof -
  obtain S where S: "verified_by p S v" using verified_by_verify [OF assms(1,2)] .
  show ?thesis
    using execute_loop_safe [OF S start_state_ok [OF S assms(3)]]
      execute_eq(1) [OF assms(1) verified_program_eq [OF assms(2)] assms(3)] by simp
qed

section \<open>Reachable states\<close>

text \<open>The states the loop passes through, from the initial state by single steps.\<close>

inductive reaches :: "VerifiedProgram \<Rightarrow> u64 \<Rightarrow> vm_state \<Rightarrow> vm_state \<Rightarrow> bool" for v limit where
  reaches_start: "reaches v limit s s"
| reaches_step: "reaches v limit s s' \<Longrightarrow> execute_step v limit s' = Inr (Continue s'') \<Longrightarrow> reaches v limit s s''"

lemma reaches_ok:
  "reaches v limit s s' \<Longrightarrow> verified_by p S v \<Longrightarrow> runtime_ok p S limit s \<Longrightarrow>
   runtime_ok p S limit s' \<and> vm_pc s \<le> vm_pc s'"
proof (induction rule: reaches.induct)
  case (reaches_step s s' s'')
  then have "safe_step p S limit s' (execute_step v limit s')" by (intro execute_step_safe) blast+
  then show ?case using reaches_step by simp
qed simp

lemma reachable_typed:
  assumes "valid_VmProgram p" "verify p = Inr v" "inputs_match p inputs"
    "reaches v limit (start_state p inputs) s"
  shows "typed_registers p (vm_registers s)" "vm_pc s < length (instructions p)"
    "verify_runtime_refinement v (vm_registers s) (length (vm_events s)) (vm_pc s) = Inr ()"
proof -
  obtain S where S: "verified_by p S v" using verified_by_verify [OF assms(1,2)] .
  have ok: "runtime_ok p S limit s" using reaches_ok [OF assms(4) S start_state_ok [OF S assms(3)]] by blast
  then show "typed_registers p (vm_registers s)" and pc: "vm_pc s < length (instructions p)"
    by (simp_all add: runtime_ok_def)
  show "verify_runtime_refinement v (vm_registers s) (length (vm_events s)) (vm_pc s) = Inr ()"
    using S ok pc
    by (auto simp: verify_runtime_refinement_def verified_by_def certificate_def runtime_ok_def admits_iff_available
        simp del: not_None_eq)
qed

section \<open>Gas\<close>

text \<open>Raising the gas limit does not change an execution that returned.\<close>

lemma prepay_gas_mono:
  "prepay_gas pc gas cost limit = Inr gas' \<Longrightarrow> limit \<le> limit' \<Longrightarrow> prepay_gas pc gas cost limit' = Inr gas'"
  by (auto simp: prepay_gas_eq_Inr)

lemma execute_step_gas_mono:
  assumes "execute_step v limit s = Inr outcome" "limit \<le> limit'"
  shows "execute_step v limit' s = Inr outcome"
  using assms by (auto simp: execute_step_def Let_def dest: prepay_gas_mono split: if_splits)

lemma execute_loop_gas_mono:
  assumes "execute_loop v limit s = Inr r" "limit \<le> limit'"
  shows "execute_loop v limit' s = Inr r"
  using assms
proof (induction v limit s rule: execute_loop.induct)
  case (1 v limit s)
  then obtain outcome where step: "execute_step v limit s = Inr outcome"
    by (auto simp: execute_loop.simps [of v limit s] split: sum.splits)
  note step' = execute_step_gas_mono [OF step 1(3)]
  show ?case
  proof (cases outcome)
    case (Continue s')
    then have "execute_loop v limit' s' = Inr r"
      using 1 step by (simp add: execute_loop.simps [of v limit s])
    then show ?thesis using step' Continue by (simp add: execute_loop.simps [of v limit' s])
  next
    case (Done r')
    then show ?thesis using 1(2) step step' by (simp add: execute_loop.simps)
  qed
qed

lemma execute_gas_mono:
  "execute v inputs limit = Inr r \<Longrightarrow> limit \<le> limit' \<Longrightarrow> execute v inputs limit' = Inr r"
  by (auto simp: execute_def Let_def intro: execute_loop_gas_mono split: if_splits)

section \<open>Conservation of resources\<close>

lemma initialize_held:
  "initialize regs pc r x = Inr regs' \<Longrightarrow> held w regs' = held w regs + w x"
  using held_update [of "unat r" regs w "Some x"] by (auto simp: initialize_def split: if_splits)

lemma take_register_held:
  "take_register regs pc r = Inr (x, regs') \<Longrightarrow> held w regs = w x + held w regs'"
  using held_update [of "unat r" regs w None]
  by (auto simp: take_register_def ac_simps split: if_splits)

lemma take_each_held:
  "take_each regs pc rs = Inr (vals, regs') \<Longrightarrow> held w regs = sum_list (map w vals) + held w regs'"
  by (induction rs arbitrary: regs vals) (auto dest!: take_register_held [where w = w] simp: ac_simps)

lemma held_start:
  "held (w :: VmValue \<Rightarrow> 'a multiset) (start_registers p inputs) = sum_list (map w inputs)"
proof -
  have "sum_list (replicate n ({#} :: 'a multiset)) = {#}" for n by (induction n) simp_all
  then show ?thesis by (simp add: held_def start_registers_def comp_def)
qed

text \<open>
  An affine resource is held by values that cannot be copied: no instruction duplicates it.  A
  linear resource is moreover not held by the capabilities a program may consume, and only by
  types the verifier treats as linear: no instruction loses it either.
\<close>

lemma linear_not_copyable: "is_copyable t \<Longrightarrow> \<not> is_linear t"
  by (cases t) (simp_all add: is_copyable_def is_linear_def)

lemma return_empties_linear:
  assumes "return_ok p st srcs" "entry_ok p st s"
    "take_each (vm_registers s) pc srcs = Inr (vals, regs')"
  shows "\<forall>x. Some x \<in> set regs' \<longrightarrow> \<not> is_linear (value_type x)"
proof (intro allI impI)
  fix x
  assume "Some x \<in> set regs'"
  then obtain j where j: "j < length regs'" "regs' ! j = Some x" by (auto simp: in_set_conv_nth)
  let ?regs = "vm_registers s"
  obtain regs'' where "take_each ?regs pc srcs = Inr (map (\<lambda>r. the (?regs ! unat r)) srcs, regs'')"
      "length regs'' = length ?regs"
      "\<forall>j < length ?regs. regs'' ! j = (if j \<in> unat ` set srcs then None else ?regs ! j)"
    using take_each_sources [OF return_sources_available(1) [OF assms(1,2)], of pc "\<lambda>_. {#}"] assms(1)
    by (auto simp: return_ok_def)
  then have regs': "j < length ?regs" "j \<notin> unat ` set srcs" "?regs ! j = Some x"
    using assms(3) j by (auto split: if_splits)
  have "length ?regs = length (register_types p)" "value_type x = register_types p ! j"
    "flow_registers st ! j = Available"
    using entry_okD(1,2) [OF assms(2)] regs' by (auto simp: typed_registers_def available_def)
  then show "\<not> is_linear (value_type x)" using assms(1) regs' by (auto simp: return_ok_def)
qed

locale affine_resource =
  fixes weight :: "VmValue \<Rightarrow> 'a multiset"
  assumes copyable_weightless: "is_copyable (value_type x) \<Longrightarrow> weight x = {#}"
begin

lemma scalar_weightless [simp]:
  "weight (U64 n) = {#}" "weight (Bool b) = {#}" "weight (Digest d) = {#}"
  by (rule copyable_weightless, simp add: is_copyable_def)+

lemma instruction_no_dup:
  "execute_instruction p s i = Inr (Continue s') \<Longrightarrow>
   held weight (vm_registers s') \<subseteq># held weight (vm_registers s)"
  by (cases i)
    (auto simp: advance_def copyable_weightless dest!: initialize_held [where w = weight]
      take_register_held [where w = weight] split: if_splits)

lemma return_no_dup:
  "execute_instruction p s i = Inr (Done r) \<Longrightarrow>
   sum_list (map weight (outputs r)) \<subseteq># held weight (vm_registers s)"
  by (cases i)
    (auto simp: advance_def VmExecutionResult_new_def dest!: take_each_held [where w = weight]
      split: if_splits)

lemma step_no_dup:
  "execute_step v limit s = Inr (Continue s') \<Longrightarrow>
     held weight (vm_registers s') \<subseteq># held weight (vm_registers s)"
  "execute_step v limit s = Inr (Done r) \<Longrightarrow>
     sum_list (map weight (outputs r)) \<subseteq># held weight (vm_registers s)"
  by (auto simp: execute_step_def Let_def dest!: instruction_no_dup return_no_dup)

lemma loop_no_dup:
  "execute_loop v limit s = Inr r \<Longrightarrow>
   sum_list (map weight (outputs r)) \<subseteq># held weight (vm_registers s)"
proof (induction v limit s rule: execute_loop.induct)
  case (1 v limit s)
  then obtain outcome where step: "execute_step v limit s = Inr outcome"
    by (auto simp: execute_loop.simps [of v limit s] split: sum.splits)
  show ?case
  proof (cases outcome)
    case (Continue s')
    then show ?thesis
      using 1 step step_no_dup(1) [of v limit s s']
      by (auto simp: execute_loop.simps [of v limit s] intro: subset_mset.order_trans)
  next
    case (Done r')
    then show ?thesis using 1(2) step step_no_dup(2) by (simp add: execute_loop.simps [of v limit s])
  qed
qed

end

locale linear_resource =
  fixes weight :: "VmValue \<Rightarrow> 'a multiset"
  assumes nonlinear_weightless: "\<not> is_linear (value_type x) \<Longrightarrow> weight x = {#}"

sublocale linear_resource \<subseteq> affine_resource weight
  by unfold_locales (simp add: nonlinear_weightless linear_not_copyable)

context linear_resource
begin

lemma capability_weightless: "is_capability x \<Longrightarrow> weight x = {#}"
  by (rule nonlinear_weightless) (cases x; simp add: is_linear_def)

lemma instruction_conserves:
  "execute_instruction p s i = Inr (Continue s') \<Longrightarrow>
   held weight (vm_registers s') = held weight (vm_registers s)"
  by (cases i)
    (auto simp: advance_def copyable_weightless capability_weightless ac_simps
      dest!: initialize_held [where w = weight] take_register_held [where w = weight]
      split: if_splits)

lemma return_conserves:
  assumes "execute_instruction p s i = Inr (Done r)" "entry_ok p st s" "instr_ok p (vm_pc s) i st"
  shows "sum_list (map weight (outputs r)) = held weight (vm_registers s)"
proof -
  from assms(1) obtain srcs where i: "i = Return srcs"
    by (cases i) (auto simp: advance_def split: if_splits)
  with assms(1) obtain regs' where taken:
      "take_each (vm_registers s) (vm_pc s) srcs = Inr (outputs r, regs')"
    by (auto simp: VmExecutionResult_new_def split: if_splits)
  have "held weight regs' = {#}"
    using return_empties_linear [OF _ assms(2) taken] assms(3) i
    by (intro held_empty) (auto intro: nonlinear_weightless)
  then show ?thesis using take_each_held [OF taken, of weight] by simp
qed

lemma step_conserves:
  assumes "verified_by p S v" "runtime_ok p S limit s"
  shows "execute_step v limit s = Inr (Continue s') \<Longrightarrow>
     held weight (vm_registers s') = held weight (vm_registers s)"
    and "execute_step v limit s = Inr (Done r) \<Longrightarrow>
     sum_list (map weight (outputs r)) = held weight (vm_registers s)"
proof -
  note step = execute_step_eq(1) [OF assms]
  show "held weight (vm_registers s') = held weight (vm_registers s)"
    if "execute_step v limit s = Inr (Continue s')"
    using that unfolding step by (auto dest!: instruction_conserves)
  have "instr_ok p (vm_pc s) (instructions p ! vm_pc s) (S ! vm_pc s)"
    using assms by (auto simp: verified_by_def certificate_def runtime_ok_def)
  moreover have "entry_ok p (S ! vm_pc s) (s\<lparr>vm_gas := g, vm_steps := n\<rparr>)" for g n
    using assms(2) by (simp add: runtime_ok_def entry_ok_def)
  ultimately show "sum_list (map weight (outputs r)) = held weight (vm_registers s)"
    if "execute_step v limit s = Inr (Done r)"
    using that unfolding step by (fastforce dest!: return_conserves)
qed

lemma loop_conserves:
  assumes "verified_by p S v" "runtime_ok p S limit s" "execute_loop v limit s = Inr r"
  shows "sum_list (map weight (outputs r)) = held weight (vm_registers s)"
  using assms
proof (induction v limit s rule: execute_loop.induct)
  case (1 v limit s)
  note safe = execute_step_safe [OF 1(2,3)]
  obtain outcome where step: "execute_step v limit s = Inr outcome"
    using 1(4) by (auto simp: execute_loop.simps [of v limit s] split: sum.splits)
  show ?case
  proof (cases outcome)
    case (Continue s')
    then have "runtime_ok p S limit s'" "execute_loop v limit s' = Inr r"
      using safe step 1(4) by (simp_all add: execute_loop.simps [of v limit s])
    then show ?thesis
      using 1(1) [OF step Continue 1(2)] step_conserves(1) [OF 1(2,3)] step Continue by simp
  next
    case (Done r')
    then show ?thesis
      using 1(4) step step_conserves(2) [OF 1(2,3)] by (simp add: execute_loop.simps [of v limit s])
  qed
qed

end

fun objects_of :: "VmValue \<Rightarrow> Object multiset" where
  "objects_of (VmObject object) = {#object#}"
| "objects_of _ = {#}"

fun capabilities_of :: "VmValue \<Rightarrow> CapabilityId multiset" where
  "capabilities_of (VmCapability capability) = {#capability#}"
| "capabilities_of _ = {#}"

interpretation object_resource: linear_resource objects_of
  by (unfold_locales, case_tac x) (simp_all add: is_linear_def)

interpretation capability_resource: affine_resource capabilities_of
  by (unfold_locales, case_tac x) (simp_all add: is_copyable_def)

lemma execute_conserves_objects:
  assumes "valid_VmProgram p" "verify p = Inr v" "execute v inputs limit = Inr r"
  shows "sum_list (map objects_of (outputs r)) = sum_list (map objects_of inputs)"
proof -
  obtain S where S: "verified_by p S v" using verified_by_verify [OF assms(1,2)] .
  note eq = execute_eq [OF assms(1) verified_program_eq [OF assms(2)], of inputs limit]
  have match: "inputs_match p inputs" using eq(2) assms(3) by auto
  have "execute_loop v limit (start_state p inputs) = Inr r" using eq(1) match assms(3) by simp
  from object_resource.loop_conserves [OF S start_state_ok [OF S match] this]
  show ?thesis by (simp add: start_state_def held_start)
qed

lemma execute_capabilities_no_dup:
  assumes "valid_VmProgram p" "verified_program v = p" "execute v inputs limit = Inr r"
  shows "sum_list (map capabilities_of (outputs r)) \<subseteq># sum_list (map capabilities_of inputs)"
proof -
  note eq = execute_eq [OF assms(1,2), of inputs limit]
  have match: "inputs_match p inputs" using eq(2) assms(3) by auto
  have "execute_loop v limit (start_state p inputs) = Inr r" using eq(1) match assms(3) by simp
  from capability_resource.loop_no_dup [OF this]
  show ?thesis by (simp add: start_state_def held_start)
qed

section \<open>Evidence\<close>

lemma evidence_create_verifies:
  assumes "verify p = Inr v" "evidence_create v inputs limit = Inr ev"
  shows "evidence_verify ev = Inr ()"
  using assms verified_program_eq [OF assms(1)]
  by (auto simp: evidence_create_def evidence_verify_def)

lemma evidence_verify_iff:
  "evidence_verify ev = Inr () \<longleftrightarrow>
   (\<exists>v. verify (ev_program ev) = Inr v \<and>
      evidence_create v (ev_inputs ev) (ev_gas_limit ev) = Inr ev)"
  by (cases ev) (auto simp: evidence_create_def evidence_verify_def dest: verified_program_eq
      split: if_splits)

end
