(* ===== verification/VM_Codec.thy ===== *)
theory VM_Codec
  imports VM_Execution
begin

text \<open>
  Canonical encodings of the ObjectVM's values, results and execution evidence
  (\<^verbatim>\<open>object-vm/src/value.rs\<close> and \<^verbatim>\<open>evidence.rs\<close>), and that executions only return results their
  encoding accepts.
\<close>

section \<open>Values and events\<close>

fun enc_VmValue :: "VmValue \<Rightarrow> u8 list" where
  "enc_VmValue (U64 v) = 0 # enc_u64 v"
| "enc_VmValue (Bool v) = 1 # enc_bool v"
| "enc_VmValue (Digest v) = 2 # enc_Digest384 v"
| "enc_VmValue (VmObject v) = 3 # enc_Object v"
| "enc_VmValue (VmCapability v) = 4 # enc_typed_id v"

fun valid_VmValue :: "VmValue \<Rightarrow> bool" where
  "valid_VmValue (VmObject v) \<longleftrightarrow> valid_Object v"
| "valid_VmValue _ \<longleftrightarrow> True"

interpretation vm_value: canonical_codec enc_VmValue encode_VmValue decode_VmValue valid_VmValue
proof
  fix v xs m
  assume "valid_VmValue v" "length (xs @ enc_VmValue v) \<le> m" "m \<le> usize_max"
  then show "encode_VmValue v (enc_at m xs) = Inr (enc_at m (xs @ enc_VmValue v))"
    by (cases v) (simp_all add: codec_simps)
next
  fix v xs m e
  assume "encode_VmValue v (enc_at m xs) = Inr e"
  then show "e = enc_at m (xs @ enc_VmValue v) \<and> length (xs @ enc_VmValue v) \<le> m"
    by (cases v) (auto dest!: codec_dests)
next
  fix v pre rest
  assume "valid_VmValue v" "slice (pre @ enc_VmValue v @ rest)"
  then show "decode_VmValue (dec_at pre (enc_VmValue v @ rest)) =
      Inr (v, dec_at (pre @ enc_VmValue v) rest)"
    by (cases v) (simp_all add: decode_VmValue_def codec_simps)
qed (auto simp: decode_VmValue_def dest!: codec_dests split: if_splits)

lemmas [codec_simps] = vm_value.laws
lemmas [codec_dests] = vm_value.inversions

fun enc_VmEventValue :: "VmEventValue \<Rightarrow> u8 list" where
  "enc_VmEventValue (EventU64 v) = 0 # enc_u64 v"
| "enc_VmEventValue (EventBool v) = 1 # enc_bool v"
| "enc_VmEventValue (EventDigest v) = 2 # enc_Digest384 v"

interpretation vm_event: canonical_codec enc_VmEventValue encode_VmEventValue decode_VmEventValue "\<lambda>_. True"
proof
  fix v xs m
  assume "length (xs @ enc_VmEventValue v) \<le> m" "m \<le> usize_max"
  then show "encode_VmEventValue v (enc_at m xs) = Inr (enc_at m (xs @ enc_VmEventValue v))"
    by (cases v) (simp_all add: codec_simps)
next
  fix v xs m e
  assume "encode_VmEventValue v (enc_at m xs) = Inr e"
  then show "e = enc_at m (xs @ enc_VmEventValue v) \<and> length (xs @ enc_VmEventValue v) \<le> m"
    by (cases v) (auto dest!: codec_dests)
next
  fix v pre rest
  assume "slice (pre @ enc_VmEventValue v @ rest)"
  then show "decode_VmEventValue (dec_at pre (enc_VmEventValue v @ rest)) =
      Inr (v, dec_at (pre @ enc_VmEventValue v) rest)"
    by (cases v) (simp_all add: decode_VmEventValue_def codec_simps)
qed (auto simp: decode_VmEventValue_def dest!: codec_dests split: if_splits)

lemmas [codec_simps] = vm_event.laws
lemmas [codec_dests] = vm_event.inversions

section \<open>Results\<close>

definition enc_VmExecutionResult :: "VmExecutionResult \<Rightarrow> u8 list" where
  "enc_VmExecutionResult r = enc_u64 (res_gas_used r) @ enc_u16 (res_steps r)
     @ enc_length (length (outputs r)) @ enc_each enc_VmValue (outputs r)
     @ enc_length (length (res_events r)) @ enc_each enc_VmEventValue (res_events r)"

definition valid_VmExecutionResult :: "VmExecutionResult \<Rightarrow> bool" where
  "valid_VmExecutionResult r \<longleftrightarrow> list_all valid_VmValue (outputs r) \<and>
     VmExecutionResult_new (res_gas_used r) (res_steps r) (outputs r) (res_events r) = Inr r"

lemma VmExecutionResult_new_eq_Inr: "VmExecutionResult_new gas steps outs evs = Inr r \<longleftrightarrow>
  r = \<lparr>res_gas_used = gas, res_steps = steps, outputs = outs, res_events = evs\<rparr> \<and>
  steps \<noteq> 0 \<and> unat steps \<le> 256 \<and> length outs \<le> 16 \<and> length evs \<le> 16"
  by (auto simp: VmExecutionResult_new_def vm_bounds)

lemma length_enc_VmValue: "valid_VmValue v \<Longrightarrow> length (enc_VmValue v) \<le> 16857"
  using object.encoded_len_bound by (cases v) (auto simp: Object_type_def)

lemma length_enc_VmEventValue: "length (enc_VmEventValue v) \<le> 49"
  by (cases v) simp_all

lemma length_enc_VmValues:
  assumes "list_all valid_VmValue vs" "length vs \<le> 16"
  shows "length (enc_each enc_VmValue vs) \<le> 269712"
proof -
  have "length (enc_each enc_VmValue vs) \<le> length vs * 16857"
    using assms(1) length_enc_VmValue by (rule length_enc_each_le)
  also have "\<dots> \<le> 16 * 16857" by (rule mult_le_mono1) (rule assms(2))
  finally show ?thesis by simp
qed

lemma length_enc_VmExecutionResult:
  assumes "valid_VmExecutionResult r"
  shows "length (enc_VmExecutionResult r) \<le> 270508"
proof -
  from assms have "list_all valid_VmValue (outputs r)" "length (outputs r) \<le> 16"
    and events: "length (res_events r) \<le> 16"
    by (simp_all add: valid_VmExecutionResult_def VmExecutionResult_new_eq_Inr)
  then show ?thesis
    using length_enc_VmValues [of "outputs r"]
      length_enc_each_bounded [OF events, of enc_VmEventValue 49] length_enc_VmEventValue
    by (simp add: enc_VmExecutionResult_def enc_length_small)
qed

interpretation result: bounded_envelope enc_VmExecutionResult VmExecutionResult_type
    valid_VmExecutionResult
proof
  fix r
  assume "valid_VmExecutionResult r"
  then show "length (enc_VmExecutionResult r) \<le> ct_max_encoded_len VmExecutionResult_type"
    using length_enc_VmExecutionResult
    by (simp add: VmExecutionResult_type_def VmExecutionResult_MAX_ENCODED_LEN_def)
qed (auto simp: VmExecutionResult_type_def VmExecutionResult_MAX_ENCODED_LEN_def
    enc_VmExecutionResult_def encode_VmExecutionResult_def decode_VmExecutionResult_def
    VmExecutionResult_new_eq_Inr valid_VmExecutionResult_def vm_bounds MAX_BODY_LENGTH_def
    codec_simps dest!: codec_dests)

lemma VmExecutionResult_type_codec [simp]:
  "ct_encode VmExecutionResult_type = encode_VmExecutionResult"
  "ct_decode VmExecutionResult_type = decode_VmExecutionResult"
  by (simp_all add: VmExecutionResult_type_def)

lemmas [codec_simps] = result.laws [simplified] program.laws [simplified]
lemmas [codec_dests] = result.inversions [simplified] program.inversions [simplified]

section \<open>Evidence\<close>

definition enc_ExecutionEvidence :: "ExecutionEvidence \<Rightarrow> u8 list" where
  "enc_ExecutionEvidence ev = enc_VmProgram (ev_program ev)
     @ enc_length (length (ev_inputs ev)) @ enc_each enc_VmValue (ev_inputs ev)
     @ enc_u64 (ev_gas_limit ev) @ enc_VmExecutionResult (ev_result ev)"

definition valid_ExecutionEvidence :: "ExecutionEvidence \<Rightarrow> bool" where
  "valid_ExecutionEvidence ev \<longleftrightarrow> valid_VmProgram (ev_program ev) \<and> \<not> is_err (verify (ev_program ev)) \<and>
     length (ev_inputs ev) \<le> MAX_VM_INPUTS \<and> list_all valid_VmValue (ev_inputs ev) \<and>
     valid_VmExecutionResult (ev_result ev)"

interpretation evidence: canonical_envelope enc_ExecutionEvidence ExecutionEvidence_type
    valid_ExecutionEvidence
  by unfold_locales
    (auto simp: ExecutionEvidence_type_def VmExecutionResult_MAX_ENCODED_LEN_def
    VmProgram_MAX_ENCODED_LEN_def enc_ExecutionEvidence_def encode_ExecutionEvidence_def
    decode_ExecutionEvidence_def valid_ExecutionEvidence_def vm_bounds MAX_BODY_LENGTH_def
    codec_simps dest!: codec_dests split: if_splits)

section \<open>Executions return encodable results\<close>

lemma objects_of_valid:
  "list_all valid_VmValue vs \<longleftrightarrow> (\<forall>ob \<in># sum_list (map objects_of vs). valid_Object ob)"
proof (induction vs)
  case (Cons v vs)
  then show ?case by (cases v) auto
qed simp

lemma execute_result_valid:
  assumes "valid_VmProgram p" "verify p = Inr v" "list_all valid_VmValue inputs"
    "execute v inputs limit = Inr r"
  shows "valid_VmExecutionResult r"
proof -
  have match: "inputs_match p inputs"
    using execute_eq(2) [OF assms(1) verified_program_eq [OF assms(2)], of inputs limit] assms(4) by auto
  have bounds: "length (output_types p) \<le> 16" "unat (maximum_events p) \<le> 16"
    "length (instructions p) \<le> 256"
    using assms(1) by (auto simp: valid_VmProgram_def VmProgram_new_eq_Inr)
  have safe: "safe_result p limit (Inr r)"
    using execute_verified [OF assms(1,2) match, of limit] assms(4) by simp
  have "length (outputs r) \<le> 16"
    using safe bounds(1) by (auto dest!: arg_cong [where f = length])
  moreover have "list_all valid_VmValue (outputs r)"
    using assms(3) execute_conserves_objects [OF assms(1,2,4)] by (simp add: objects_of_valid)
  ultimately show ?thesis
    using safe bounds by (auto simp: valid_VmExecutionResult_def VmExecutionResult_new_eq_Inr unat_gt_0)
qed

lemma evidence_create_valid:
  assumes "valid_VmProgram p" "verify p = Inr v" "list_all valid_VmValue inputs"
    "evidence_create v inputs limit = Inr ev"
  shows "valid_ExecutionEvidence ev"
proof -
  from assms(4) obtain r where r: "execute v inputs limit = Inr r"
      "ev = \<lparr>ev_program = p, ev_inputs = inputs, ev_gas_limit = limit, ev_result = r\<rparr>"
    using verified_program_eq [OF assms(2)] by (auto simp: evidence_create_def)
  have "inputs_match p inputs"
    using execute_eq(2) [OF assms(1) verified_program_eq [OF assms(2)], of inputs limit] r(1) by auto
  then have "length inputs \<le> 16"
    using assms(1) inputs_match_iff [OF valid_input_count [OF assms(1)]]
    by (auto simp: valid_VmProgram_def VmProgram_new_eq_Inr)
  then show ?thesis
    using assms execute_result_valid [OF assms(1-3) r(1)] r(2)
    by (simp add: valid_ExecutionEvidence_def vm_bounds)
qed

text \<open>The declared bound of evidence has no room for inputs: a pass-through of sixteen full objects.\<close>

definition pass_through :: VmProgram where
  "pass_through = \<lparr>input_count = 16, register_types = replicate 16 TObject,
     output_types = replicate 16 TObject,
     instructions = [Return [0, 1, 2, 3, 4, 5, 6, 7, 8, 9, 10, 11, 12, 13, 14, 15]],
     maximum_events = 0\<rparr>"

definition full_object :: Object where
  "full_object = \<lparr>object_id = TypedId 0, object_version = 0, type_id = 0, owner = OwnerImmutable,
     control_policy_hash = 0, use_policy_hash = 0, disclosure_policy_hash = 0,
     upgrade_policy_hash = 0, package_id = None, value_root = 0,
     public_value = Some (replicate 16384 0), lease_expiry_epoch = 0, storage_deposit = 0,
     flags = ObjectFlags 0\<rparr>"

lemma pass_through_valid: "valid_VmProgram pass_through"
  by code_simp

lemma pass_through_verified:
  "verify pass_through = Inr \<lparr>verified_program = pass_through,
     instruction_states = [\<lparr>cert_registers = replicate 16 CertAvailable, maximum_prior_events = 0\<rparr>]\<rparr>"
  by code_simp

lemma full_object_valid: "valid_Object full_object"
  by (simp add: valid_Object_def full_object_def Object_new_eq_Inr valid_ObjectFlags_def
      from_bits_eq_Inr MAX_PUBLIC_OBJECT_VALUE_def flags_contains_def TRANSFERABLE_def)

lemma full_object_length: "16384 \<le> length (enc_VmValue (VmObject full_object))"
  by (simp add: enc_Object_def full_object_def enc_bytes_prefixed_def)

lemma enc_each_replicate_length:
  "length (enc_each enc (replicate n v)) = n * length (enc v)"
  by (induction n) simp_all

lemma replicate_16: "replicate 16 x = [x, x, x, x, x, x, x, x, x, x, x, x, x, x, x, x]"
  by (simp add: numeral_eq_Suc)

lemma pass_through_execute:
  "\<exists>v r. verify pass_through = Inr v \<and> execute v (replicate 16 (VmObject ob)) 1000 = Inr r \<and>
     outputs r = replicate 16 (VmObject ob)"
  unfolding pass_through_verified
  by (simp add: execute_def execute_loop.simps execute_step_def Let_def pass_through_def
      take_register_def verify_runtime_refinement_def admits_runtime_state_def prepay_gas_def
      checked_add_def VmExecutionResult_new_def vm_bounds replicate_16)

end
