(* ===== verification/Scopes.thy ===== *)
theory Scopes
  imports Authority
begin

text \<open>
  The meaning of scope selectors (\<^verbatim>\<open>protocol-types/src/authority.rs\<close>): a selector denotes a
  set of digests, and the structural test the code runs decides inclusion of these sets.
\<close>

section \<open>What the selectors denote\<close>

text \<open>Bits are numbered from the most significant bit of the first byte, as prefixes read them.\<close>

definition digest_bit :: "Digest384 \<Rightarrow> nat \<Rightarrow> bool" where
  "digest_bit d q = bit (as_bytes d ! (q div 8)) (7 - q mod 8)"

fun scope_set :: "ScopeSelector \<Rightarrow> Digest384 set" where
  "scope_set Any = UNIV"
| "scope_set (Exact d) = {d}"
| "scope_set (Prefix p n) = {d. \<forall>q < unat n. digest_bit d q = digest_bit p q}"

lemma byte_eq_iff: "(a :: u8) = b \<longleftrightarrow> (\<forall>t < 8. bit a (7 - t) = bit b (7 - t))"
proof
  assume *: "\<forall>t < 8. bit a (7 - t) = bit b (7 - t)"
  have "bit a n = bit b n" if "n < 8" for n
    using * [rule_format, of "7 - n"] that by simp
  then show "a = b" by (intro bit_word_eqI) simp
qed simp

lemma masked_byte_eq_iff:
  assumes "r \<le> 8"
  shows "(a :: u8) AND push_bit (8 - r) 0xff = b AND push_bit (8 - r) 0xff \<longleftrightarrow>
    (\<forall>t < r. bit a (7 - t) = bit b (7 - t))"
proof -
  have mask: "bit (push_bit (8 - r) (0xff :: u8)) n \<longleftrightarrow> 8 - r \<le> n" if "n < 8" for n
  proof -
    have all_ones: "(0xff :: u8) = mask 8" by (simp add: mask_eq_exp_minus_1)
    show ?thesis unfolding all_ones bit_push_bit_iff bit_mask_iff using that by auto
  qed
  have "(a AND push_bit (8 - r) 0xff = b AND push_bit (8 - r) 0xff) \<longleftrightarrow>
      (\<forall>t < 8. 8 - r \<le> 7 - t \<longrightarrow> bit a (7 - t) = bit b (7 - t))"
    unfolding byte_eq_iff by (auto simp: bit_and_iff mask)
  also have "\<dots> \<longleftrightarrow> (\<forall>t < r. bit a (7 - t) = bit b (7 - t))"
    using assms by (intro iffI allI impI) (auto dest!: spec)
  finally show ?thesis .
qed

lemma block_index: "q < 8 * k \<longleftrightarrow> (\<exists>j < k. \<exists>t < 8. q = 8 * j + (t :: nat))"
proof
  assume "q < 8 * k"
  then have "q div 8 < k" "q mod 8 < 8" "q = 8 * (q div 8) + q mod 8" by auto
  then show "\<exists>j < k. \<exists>t < 8. q = 8 * j + t" by blast
qed auto

lemma all_less_add_iff: "(\<forall>q < a + b. P q) \<longleftrightarrow> (\<forall>q < a. P q) \<and> (\<forall>t < b. P (a + t :: nat))"
proof (intro iffI conjI allI impI)
  fix q
  assume *: "(\<forall>q < a. P q) \<and> (\<forall>t < b. P (a + t))" "q < a + b"
  show "P q"
  proof (cases "q < a")
    case False
    then show ?thesis using *(1) [THEN conjunct2, rule_format, of "q - a"] *(2) by simp
  qed (use * in simp)
qed auto

lemma take_eq_iff_bits:
  assumes "k \<le> 48"
  shows "take k (as_bytes a) = take k (as_bytes b) \<longleftrightarrow>
    (\<forall>q < 8 * k. digest_bit a q = digest_bit b q)"
proof -
  have "take k (as_bytes a) = take k (as_bytes b) \<longleftrightarrow> (\<forall>j < k. as_bytes a ! j = as_bytes b ! j)"
    using assms by (simp add: list_eq_iff_nth_eq)
  also have "\<dots> \<longleftrightarrow> (\<forall>j < k. \<forall>t < 8. digest_bit a (8 * j + t) = digest_bit b (8 * j + t))"
    by (simp add: byte_eq_iff digest_bit_def)
  also have "\<dots> \<longleftrightarrow> (\<forall>q < 8 * k. digest_bit a q = digest_bit b q)"
    by (metis block_index)
  finally show ?thesis .
qed

lemma matches_prefix_iff:
  assumes "unat n < 384"
  shows "matches_prefix (as_bytes c) (as_bytes p) n \<longleftrightarrow>
    (\<forall>q < unat n. digest_bit c q = digest_bit p q)"
proof -
  let ?k = "unat n div 8" and ?r = "unat n mod 8"
  have k: "unat (n div 8) = ?k" "unat (n mod 8) = ?r"
    by (simp_all add: unat_div unat_mod)
  have n: "unat n = 8 * ?k + ?r" by simp
  have "?k < 48" "?r < 8" using assms by auto
  have split: "(\<forall>q < unat n. P q) \<longleftrightarrow> (\<forall>q < 8 * ?k. P q) \<and> (\<forall>t < ?r. P (8 * ?k + t))" for P
    using all_less_add_iff [of "8 * ?k" ?r P] by simp
  have byte: "(\<forall>t < ?r. digest_bit c (8 * ?k + t) = digest_bit p (8 * ?k + t)) \<longleftrightarrow>
      (\<forall>t < ?r. bit (as_bytes c ! ?k) (7 - t) = bit (as_bytes p ! ?k) (7 - t))"
    using \<open>?r < 8\<close> by (auto simp: digest_bit_def)
  show ?thesis
    unfolding split byte using \<open>?k < 48\<close> \<open>?r < 8\<close>
    by (auto simp: matches_prefix_def Let_def k DIGEST_LENGTH_def take_eq_iff_bits masked_byte_eq_iff)
qed

lemma flip_bit:
  assumes "q < 384"
  obtains d where "digest_bit d q \<noteq> digest_bit p q"
    "\<And>q'. q' < 384 \<Longrightarrow> q' \<noteq> q \<Longrightarrow> digest_bit d q' = digest_bit p q'"
proof
  let ?j = "q div 8" and ?t = "7 - q mod 8"
  let ?bytes = "(as_bytes p)[?j := as_bytes p ! ?j XOR 2 ^ ?t]"
  let ?d = "digest_new ?bytes"
  have j: "?j < 48" using assms by simp
  have bytes: "as_bytes ?d = ?bytes" by (rule as_bytes_digest_new) simp
  have flip: "bit (b XOR 2 ^ ?t) (7 - t) = (bit b (7 - t) \<noteq> (t = q mod 8))"
    if "t < 8" for b :: u8 and t
    using that by (auto simp: bit_xor_iff bit_exp_iff)
  show "digest_bit ?d q \<noteq> digest_bit p q"
    using j flip [of "q mod 8"] by (simp add: digest_bit_def bytes)
  show "digest_bit ?d q' = digest_bit p q'" if "q' < 384" "q' \<noteq> q" for q'
  proof (cases "q' div 8 = ?j")
    case True
    then have "q' mod 8 \<noteq> q mod 8" using that(2) by (metis div_mult_mod_eq)
    then show ?thesis using True j flip [of "q' mod 8"] by (simp add: digest_bit_def bytes)
  next
    case False
    then show ?thesis by (simp add: digest_bit_def bytes)
  qed
qed

lemma prefix_set_not_exact: "unat n < 384 \<Longrightarrow> \<not> scope_set (Prefix p n) \<subseteq> {d}"
proof
  assume n: "unat n < 384" and sub: "scope_set (Prefix p n) \<subseteq> {d}"
  obtain e where "digest_bit e 383 \<noteq> digest_bit p 383"
    and same: "\<And>q. q < 384 \<Longrightarrow> q \<noteq> 383 \<Longrightarrow> digest_bit e q = digest_bit p q"
    using flip_bit [of 383 p] by auto
  then have "e \<noteq> p" by auto
  moreover have "e \<in> scope_set (Prefix p n)" "p \<in> scope_set (Prefix p n)"
    using n same by auto
  ultimately show False using sub by blast
qed

lemma any_not_prefix: "0 < unat n \<Longrightarrow> unat n < 384 \<Longrightarrow> \<not> UNIV \<subseteq> scope_set (Prefix p n)"
  by (rule flip_bit [of 0 p]) (auto simp: subset_eq)

lemma prefix_subset_iff:
  assumes "unat n < 384" "unat m < 384"
  shows "scope_set (Prefix p n) \<subseteq> scope_set (Prefix r m) \<longleftrightarrow>
    unat m \<le> unat n \<and> p \<in> scope_set (Prefix r m)"
proof
  assume sub: "scope_set (Prefix p n) \<subseteq> scope_set (Prefix r m)"
  have p: "p \<in> scope_set (Prefix r m)" using sub by auto
  have "unat m \<le> unat n"
  proof (rule ccontr)
    assume less: "\<not> unat m \<le> unat n"
    obtain e where e: "digest_bit e (unat n) \<noteq> digest_bit p (unat n)"
      and same: "\<And>q. q < 384 \<Longrightarrow> q \<noteq> unat n \<Longrightarrow> digest_bit e q = digest_bit p q"
      using flip_bit [OF assms(1), of p] by auto
    then have "e \<in> scope_set (Prefix p n)" using assms(1) by auto
    with sub have "e \<in> scope_set (Prefix r m)" by blast
    with p e less show False by auto
  qed
  with p show "unat m \<le> unat n \<and> p \<in> scope_set (Prefix r m)" by simp
qed auto

lemma valid_prefix_bits: "valid_ScopeSelector (Prefix p n) \<Longrightarrow> 0 < unat n \<and> unat n < 384"
  by (simp add: scope_prefix_eq_Inr unat_gt_0)

lemma scope_subset_iff:
  assumes "valid_ScopeSelector child" "valid_ScopeSelector parent"
  shows "scope_is_subset_of child parent \<longleftrightarrow> scope_set child \<subseteq> scope_set parent"
proof (cases child; cases parent)
  fix p n r m
  assume c: "child = Prefix p n" "parent = Prefix r m"
  then show ?thesis
    using assms valid_prefix_bits [of p n] valid_prefix_bits [of r m] prefix_subset_iff [of n m p r]
    by (simp add: matches_prefix_iff word_le_nat_alt)
next
  fix p n d
  assume c: "child = Prefix p n" "parent = Exact d"
  then show ?thesis
    using assms valid_prefix_bits [of p n] prefix_set_not_exact [of n p d] by simp
next
  fix p n
  assume c: "child = Any" "parent = Prefix p n"
  then show ?thesis
    using assms valid_prefix_bits [of p n] any_not_prefix [of n p] by simp
next
  fix d
  assume c: "child = Any" "parent = Exact d"
  have "\<not> (UNIV :: Digest384 set) \<subseteq> {d}"
    by (metis prefix_set_not_exact [of 0 d d] subset_UNIV subset_trans unat_0 zero_less_numeral)
  with c show ?thesis by simp
next
  fix d p n
  assume c: "child = Exact d" "parent = Prefix p n"
  then show ?thesis
    using assms valid_prefix_bits [of p n] by (simp add: matches_prefix_iff)
qed simp_all

text \<open>A normalized prefix is determined by the set it selects.\<close>

lemma scope_set_nonempty: "scope_set s \<noteq> {}"
  by (cases s) auto

lemma scope_subset_refl: "valid_ScopeSelector s \<Longrightarrow> scope_is_subset_of s s"
  by (simp add: scope_subset_iff)

lemma scope_subset_trans:
  "valid_ScopeSelector a \<Longrightarrow> valid_ScopeSelector b \<Longrightarrow> valid_ScopeSelector c \<Longrightarrow>
   scope_is_subset_of a b \<Longrightarrow> scope_is_subset_of b c \<Longrightarrow> scope_is_subset_of a c"
  by (simp add: scope_subset_iff)

end
