(* ===== verification/Capability.thy ===== *)
theory Capability
  imports Scopes
begin

text \<open>
  \<^verbatim>\<open>capability/src/lib.rs\<close>: the mechanical check that a delegated capability is no broader
  than its parent.  The check is compared with an abstract reading of a grant, the set of
  requests it authorizes, and with delegation chains of any length.
\<close>

section \<open>The check\<close>

datatype AttenuationError =
    ParentDelegationForbidden
  | ParentReferenceMismatch
  | UnsupportedParentHolderBinding
  | IssuerIsNotParentHolder
  | BearerChildForbidden
  | ActionsBroadened
  | ResourceScopeBroadened
  | DataScopeBroadened
  | MonetaryLimitBroadened
  | ComputeLimitBroadened
  | RateLimitBroadened
  | UseLimitBroadened
  | ValidityStartsEarlier
  | ValidityEndsLater
  | DelegationDepthNotReduced
  | ConstraintNotInherited
  | RevocationRegistryNotInherited

definition optional_limit_is_attenuated :: "'a :: linorder option \<Rightarrow> 'a option \<Rightarrow> bool" where
  "optional_limit_is_attenuated parent child =
     (case parent of None \<Rightarrow> True | Some p \<Rightarrow> is_some_and (\<lambda>c. c \<le> p) child)"

definition optional_end_is_attenuated :: "u64 option \<Rightarrow> u64 option \<Rightarrow> bool" where
  "optional_end_is_attenuated parent child =
     (case parent of None \<Rightarrow> True | Some p \<Rightarrow> is_some_and (\<lambda>c. c \<le> p) child)"

definition rate_limit_is_attenuated :: "RateLimit option \<Rightarrow> RateLimit option \<Rightarrow> bool" where
  "rate_limit_is_attenuated parent child =
     (case parent of None \<Rightarrow> True
      | Some p \<Rightarrow> is_some_and
          (\<lambda>c. window_blocks c = window_blocks p \<and> maximum_uses c \<le> maximum_uses p) child)"

definition revocation_registry_is_attenuated :: "ObjectId option \<Rightarrow> ObjectId option \<Rightarrow> bool" where
  "revocation_registry_is_attenuated parent child =
     (case parent of None \<Rightarrow> True | Some p \<Rightarrow> child = Some p)"

definition verify_attenuation :: "CapabilityGrant \<Rightarrow> CapabilityGrant \<Rightarrow> AttenuationError + unit" where
  "verify_attenuation parent_grant child_grant =
     (let parent = grant_fields parent_grant; child = grant_fields child_grant in
      if \<not> delegation_allowed parent then Inl ParentDelegationForbidden
      else if parent_capability child \<noteq> Some (capability_id parent) then Inl ParentReferenceMismatch
      else case holder_binding parent of
        HolderPrivate _ \<Rightarrow> Inl UnsupportedParentHolderBinding
      | Bearer \<Rightarrow> Inl UnsupportedParentHolderBinding
      | HolderPrincipal parent_holder \<Rightarrow>
      if issuer child \<noteq> parent_holder then Inl IssuerIsNotParentHolder
      else if holder_binding child = Bearer then Inl BearerChildForbidden
      else if \<not> actions_is_subset_of (permitted_actions child) (permitted_actions parent)
      then Inl ActionsBroadened
      else if \<not> resource_is_subset_of (resource_scope child) (resource_scope parent)
      then Inl ResourceScopeBroadened
      else if \<not> data_is_subset_of (data_scope child) (data_scope parent)
      then Inl DataScopeBroadened
      else if \<not> optional_limit_is_attenuated (monetary_limit parent) (monetary_limit child)
      then Inl MonetaryLimitBroadened
      else if \<not> optional_limit_is_attenuated (compute_limit parent) (compute_limit child)
      then Inl ComputeLimitBroadened
      else if \<not> rate_limit_is_attenuated (rate_limit parent) (rate_limit child)
      then Inl RateLimitBroadened
      else if \<not> optional_limit_is_attenuated (use_limit parent) (use_limit child)
      then Inl UseLimitBroadened
      else if valid_from child < valid_from parent then Inl ValidityStartsEarlier
      else if \<not> optional_end_is_attenuated (valid_until parent) (valid_until child)
      then Inl ValidityEndsLater
      else if delegation_depth_remaining child \<ge> delegation_depth_remaining parent
      then Inl DelegationDepthNotReduced
      else if constraint_hash child \<noteq> constraint_hash parent then Inl ConstraintNotInherited
      else if \<not> revocation_registry_is_attenuated (revocation_registry parent)
          (revocation_registry child)
      then Inl RevocationRegistryNotInherited
      else Inr ())"

section \<open>Abstract reading of a grant\<close>

text \<open>One exercise of a capability, and the uses it has had so far.\<close>

record exercise =
  ex_action :: ActionId
  ex_resource :: ObjectId
  ex_data :: Digest384
  ex_amount :: Amount
  ex_compute :: ResourceUnits
  ex_height :: Height
  ex_total_uses :: u64
  ex_window_uses :: "u64 \<Rightarrow> u64"

definition authorizes :: "CapabilityGrantFields \<Rightarrow> exercise \<Rightarrow> bool" where
  "authorizes f x \<longleftrightarrow>
     ex_action x \<in> set (as_slice (permitted_actions f)) \<and>
     into_digest (ex_resource x) \<in> scope_set (resource_as_scope (resource_scope f)) \<and>
     ex_data x \<in> scope_set (data_as_scope (data_scope f)) \<and>
     is_none_or (\<lambda>limit. ex_amount x \<le> limit) (monetary_limit f) \<and>
     is_none_or (\<lambda>limit. ex_compute x \<le> limit) (compute_limit f) \<and>
     is_none_or (\<lambda>r. ex_window_uses x (window_blocks r) \<le> maximum_uses r) (rate_limit f) \<and>
     is_none_or (\<lambda>limit. ex_total_uses x \<le> limit) (use_limit f) \<and>
     valid_from f \<le> ex_height x \<and> is_none_or (\<lambda>h. ex_height x \<le> h) (valid_until f)"

lemma actions_subset_iff:
  assumes "valid_BoundedActionSet parent"
  shows "actions_is_subset_of child parent \<longleftrightarrow> set (as_slice child) \<subseteq> set (as_slice parent)"
  using binary_search_is_some_iff [of "\<lambda>a. a" "as_slice parent"] assms
  by (auto simp: actions_is_subset_of_def list_all_iff valid_BoundedActionSet_iff)

lemma limit_attenuated_trans:
  "optional_limit_is_attenuated a b \<Longrightarrow> optional_limit_is_attenuated b c \<Longrightarrow>
   optional_limit_is_attenuated a c"
  by (cases a; cases b; cases c) (auto simp: optional_limit_is_attenuated_def)

lemma limit_attenuated_le:
  "optional_limit_is_attenuated p c \<Longrightarrow> is_none_or (\<lambda>l. v \<le> l) c \<Longrightarrow> is_none_or (\<lambda>l. v \<le> l) p"
  by (cases p; cases c) (auto simp: optional_limit_is_attenuated_def)

lemma rate_attenuated_le:
  "rate_limit_is_attenuated p c \<Longrightarrow> is_none_or (\<lambda>r. u (window_blocks r) \<le> maximum_uses r) c \<Longrightarrow>
   is_none_or (\<lambda>r. u (window_blocks r) \<le> maximum_uses r) p"
  by (cases p; cases c) (auto simp: rate_limit_is_attenuated_def)

lemma optional_end_eq_limit: "optional_end_is_attenuated = optional_limit_is_attenuated"
  by (auto simp: optional_end_is_attenuated_def optional_limit_is_attenuated_def fun_eq_iff)

lemma verify_attenuation_iff:
  "verify_attenuation pg cg = Inr () \<longleftrightarrow>
     (let p = grant_fields pg; c = grant_fields cg in
      delegation_allowed p \<and> parent_capability c = Some (capability_id p) \<and>
      holder_binding p = HolderPrincipal (issuer c) \<and> holder_binding c \<noteq> Bearer \<and>
      actions_is_subset_of (permitted_actions c) (permitted_actions p) \<and>
      resource_is_subset_of (resource_scope c) (resource_scope p) \<and>
      data_is_subset_of (data_scope c) (data_scope p) \<and>
      optional_limit_is_attenuated (monetary_limit p) (monetary_limit c) \<and>
      optional_limit_is_attenuated (compute_limit p) (compute_limit c) \<and>
      rate_limit_is_attenuated (rate_limit p) (rate_limit c) \<and>
      optional_limit_is_attenuated (use_limit p) (use_limit c) \<and>
      valid_from p \<le> valid_from c \<and>
      optional_limit_is_attenuated (valid_until p) (valid_until c) \<and>
      delegation_depth_remaining c < delegation_depth_remaining p \<and>
      constraint_hash c = constraint_hash p \<and>
      revocation_registry_is_attenuated (revocation_registry p) (revocation_registry c))"
  unfolding verify_attenuation_def Let_def optional_end_eq_limit
  by (cases "holder_binding (grant_fields pg)") (simp_all add: not_less not_le, metis)

lemma verify_attenuation_authorizes:
  assumes "valid_CapabilityGrant pg" "valid_CapabilityGrant cg"
    and "verify_attenuation pg cg = Inr ()" "authorizes (grant_fields cg) x"
  shows "authorizes (grant_fields pg) x"
  using assms
  by (auto simp: verify_attenuation_iff Let_def authorizes_def valid_CapabilityGrant_def
      valid_CapabilityGrantFields_def actions_subset_iff resource_is_subset_of_def
      data_is_subset_of_def scope_subset_iff
      dest: limit_attenuated_le rate_attenuated_le)

section \<open>Delegation chains\<close>

inductive delegation_chain :: "CapabilityGrant list \<Rightarrow> bool" where
  chain_root: "valid_CapabilityGrant g \<Longrightarrow> delegation_chain [g]"
| chain_step: "delegation_chain (parent # chain) \<Longrightarrow> valid_CapabilityGrant child \<Longrightarrow>
    verify_attenuation parent child = Inr () \<Longrightarrow> delegation_chain (child # parent # chain)"

inductive_cases delegation_chain_ConsE: "delegation_chain (c # p # chain)"

lemma delegation_chain_nonempty: "delegation_chain gs \<Longrightarrow> gs \<noteq> []"
  by (induction rule: delegation_chain.induct) simp_all

lemma delegation_chain_valid: "delegation_chain gs \<Longrightarrow> list_all valid_CapabilityGrant gs"
  by (induction rule: delegation_chain.induct) simp_all

lemma delegation_chain_authorizes:
  "delegation_chain gs \<Longrightarrow> authorizes (grant_fields (hd gs)) x \<Longrightarrow>
   authorizes (grant_fields (last gs)) x"
proof (induction rule: delegation_chain.induct)
  case (chain_step parent chain child)
  from chain_step.hyps(1) have "valid_CapabilityGrant parent"
    using delegation_chain_valid by fastforce
  then show ?case
    using chain_step verify_attenuation_authorizes by simp
qed simp

lemma delegation_chain_depth:
  "delegation_chain gs \<Longrightarrow>
   length gs + unat (delegation_depth_remaining (grant_fields (hd gs))) \<le>
     Suc (unat (delegation_depth_remaining (grant_fields (last gs))))"
  by (induction rule: delegation_chain.induct)
    (auto simp: verify_attenuation_iff Let_def word_less_nat_alt)

lemma delegation_chain_inherits:
  "delegation_chain gs \<Longrightarrow>
   constraint_hash (grant_fields (hd gs)) = constraint_hash (grant_fields (last gs)) \<and>
   revocation_registry_is_attenuated (revocation_registry (grant_fields (last gs)))
     (revocation_registry (grant_fields (hd gs)))"
proof (induction rule: delegation_chain.induct)
  case (chain_root g)
  then show ?case by (simp add: revocation_registry_is_attenuated_def split: option.splits)
next
  case (chain_step parent chain child)
  then show ?case
    by (auto simp: verify_attenuation_iff Let_def revocation_registry_is_attenuated_def
        split: option.splits)
qed

end
