(* ===== verification/Access_Manifest.thy ===== *)
theory Access_Manifest
  imports Objects Scopes
begin

text \<open>
  Access manifests (\<^verbatim>\<open>protocol-types/src/object.rs\<close>): the bounded, ordered declaration of the
  objects a transaction may read, write and create.  The order the code defines on namespace
  grants is shown to be a linear order, and the membership tests, which use binary search, to
  agree with membership in the declared lists.
\<close>

section \<open>Namespace grants\<close>

datatype ordering = Less | Equal | Greater

definition cmp :: "'a :: linorder \<Rightarrow> 'a \<Rightarrow> ordering" where
  "cmp a b = (if a < b then Less else if a = b then Equal else Greater)"

fun then_with :: "ordering \<Rightarrow> ordering \<Rightarrow> ordering" where
  "then_with Equal o2 = o2"
| "then_with o1 o2 = o1"

fun scope_cmp :: "ScopeSelector \<Rightarrow> ScopeSelector \<Rightarrow> ordering" where
  "scope_cmp Any Any = Equal"
| "scope_cmp Any _ = Less"
| "scope_cmp _ Any = Greater"
| "scope_cmp (Exact l) (Exact r) = cmp l r"
| "scope_cmp (Exact _) (Prefix _ _) = Less"
| "scope_cmp (Prefix _ _) (Exact _) = Greater"
| "scope_cmp (Prefix lbytes lbits) (Prefix rbytes rbits) =
     then_with (cmp lbits rbits) (cmp lbytes rbytes)"

datatype NamespaceGrant =
  NamespaceGrant (ns_namespace: ResourceSelector) (ns_capability_id: CapabilityId)

definition NamespaceGrant_cmp :: "NamespaceGrant \<Rightarrow> NamespaceGrant \<Rightarrow> ordering" where
  "NamespaceGrant_cmp a b =
     then_with (scope_cmp (resource_as_scope (ns_namespace a)) (resource_as_scope (ns_namespace b)))
       (cmp (ns_capability_id a) (ns_capability_id b))"

definition NamespaceGrant_contains :: "NamespaceGrant \<Rightarrow> ObjectId \<Rightarrow> bool" where
  "NamespaceGrant_contains g oid = resource_is_subset_of (resource_exact oid) (ns_namespace g)"

definition encode_NamespaceGrant :: "NamespaceGrant \<Rightarrow> encoder \<Rightarrow> encode_error + encoder" where
  "encode_NamespaceGrant g e =
     and_then (encode_ResourceSelector (ns_namespace g) e) (\<lambda>e.
     encode_typed_id (ns_capability_id g) e)"

definition decode_NamespaceGrant :: "decoder \<Rightarrow> decode_error + (NamespaceGrant \<times> decoder)" where
  "decode_NamespaceGrant d =
     and_then (decode_ResourceSelector d) (\<lambda>(ns, d).
     and_then (decode_typed_id d) (\<lambda>(cid, d). Inr (NamespaceGrant ns cid, d)))"

lemma cmp_eq [simp]:
  "cmp a b = Less \<longleftrightarrow> a < b" "cmp a b = Equal \<longleftrightarrow> a = b" "cmp a b = Greater \<longleftrightarrow> b < a"
  by (auto simp: cmp_def)

lemma then_with_eq [simp]:
  "then_with x y = Less \<longleftrightarrow> x = Less \<or> (x = Equal \<and> y = Less)"
  "then_with x y = Equal \<longleftrightarrow> x = Equal \<and> y = Equal"
  "then_with x y = Greater \<longleftrightarrow> x = Greater \<or> (x = Equal \<and> y = Greater)"
  by (cases x; simp)+

lemma scope_cmp_Equal [simp]: "scope_cmp a b = Equal \<longleftrightarrow> a = b"
  by (cases a; cases b) auto

lemma scope_cmp_Greater: "scope_cmp a b = Greater \<longleftrightarrow> scope_cmp b a = Less"
  by (cases a; cases b) auto

lemma scope_cmp_trans: "scope_cmp a b = Less \<Longrightarrow> scope_cmp b c = Less \<Longrightarrow> scope_cmp a c = Less"
  by (cases a; cases b; cases c) auto

lemma NamespaceGrant_cmp_Equal [simp]: "NamespaceGrant_cmp a b = Equal \<longleftrightarrow> a = b"
  by (cases a; cases b)
    (auto simp: NamespaceGrant_cmp_def intro: ResourceSelector.expand)

lemma NamespaceGrant_cmp_Greater: "NamespaceGrant_cmp a b = Greater \<longleftrightarrow> NamespaceGrant_cmp b a = Less"
  by (auto simp: NamespaceGrant_cmp_def scope_cmp_Greater)

lemma NamespaceGrant_cmp_trans:
  "NamespaceGrant_cmp a b = Less \<Longrightarrow> NamespaceGrant_cmp b c = Less \<Longrightarrow> NamespaceGrant_cmp a c = Less"
  by (auto simp: NamespaceGrant_cmp_def dest: scope_cmp_trans)

instantiation NamespaceGrant :: linorder
begin

definition less_NamespaceGrant :: "NamespaceGrant \<Rightarrow> NamespaceGrant \<Rightarrow> bool" where
  "a < b \<longleftrightarrow> NamespaceGrant_cmp a b = Less"

definition less_eq_NamespaceGrant :: "NamespaceGrant \<Rightarrow> NamespaceGrant \<Rightarrow> bool" where
  "a \<le> b \<longleftrightarrow> NamespaceGrant_cmp a b \<noteq> Greater"

instance
proof
  fix a b c :: NamespaceGrant
  have le: "x \<le> y \<longleftrightarrow> NamespaceGrant_cmp x y = Less \<or> x = y" for x y :: NamespaceGrant
    using NamespaceGrant_cmp_Equal [of x y]
    by (cases "NamespaceGrant_cmp x y")
      (auto simp: less_eq_NamespaceGrant_def simp del: NamespaceGrant_cmp_Equal)
  have asym: "NamespaceGrant_cmp x y = Less \<Longrightarrow> NamespaceGrant_cmp y x \<noteq> Less" for x y
    by (metis NamespaceGrant_cmp_Greater ordering.distinct(3))
  show "a < b \<longleftrightarrow> a \<le> b \<and> \<not> b \<le> a"
    by (metis NamespaceGrant_cmp_Equal asym le less_NamespaceGrant_def ordering.distinct(1))
  show "a \<le> a" by (simp add: le)
  show "a \<le> b \<Longrightarrow> b \<le> c \<Longrightarrow> a \<le> c" by (metis NamespaceGrant_cmp_trans le)
  show "a \<le> b \<Longrightarrow> b \<le> a \<Longrightarrow> a = b" by (metis asym le)
  show "a \<le> b \<or> b \<le> a"
    by (metis NamespaceGrant_cmp_Greater less_eq_NamespaceGrant_def ordering.distinct(3))
qed

end

section \<open>Manifests\<close>

definition MAX_EXACT_READS :: usize where "MAX_EXACT_READS = 64"
definition MAX_EXACT_WRITES :: usize where "MAX_EXACT_WRITES = 32"
definition MAX_IMMUTABLE_READS :: usize where "MAX_IMMUTABLE_READS = 64"
definition MAX_CREATION_NAMESPACES :: usize where "MAX_CREATION_NAMESPACES = 16"
definition MAX_CREATED_OBJECTS :: u32 where "MAX_CREATED_OBJECTS = 16"
definition MAX_DYNAMIC_READS :: u32 where "MAX_DYNAMIC_READS = 32"

lemmas manifest_bounds = MAX_EXACT_READS_def MAX_EXACT_WRITES_def MAX_IMMUTABLE_READS_def
  MAX_CREATION_NAMESPACES_def

record AccessManifest =
  exact_reads :: "ObjectVersionRef list"
  exact_writes :: "ObjectVersionRef list"
  immutable_reads :: "ObjectId list"
  creation_namespaces :: "NamespaceGrant list"
  maximum_created_objects :: u32
  maximum_dynamic_reads :: u32
  dynamic_read_policy :: "Digest384 option"

datatype AccessManifestError =
    TooManyExactReads usize usize
  | TooManyExactWrites usize usize
  | TooManyImmutableReads usize usize
  | TooManyCreationNamespaces usize usize
  | TooManyCreatedObjects u32 u32
  | TooManyDynamicReads u32 u32
  | ExactReadsNotStrictlyIncreasing
  | ExactWritesNotStrictlyIncreasing
  | ImmutableReadsNotStrictlyIncreasing
  | CreationNamespacesNotStrictlyIncreasing
  | OverlappingAccessDeclarations
  | CreationNamespaceLimitMismatch
  | DynamicReadPolicyMismatch

definition check_manifest_bounds :: "AccessManifest \<Rightarrow> AccessManifestError + unit" where
  "check_manifest_bounds m =
     (if length (exact_reads m) > MAX_EXACT_READS
      then Inl (TooManyExactReads (length (exact_reads m)) MAX_EXACT_READS)
      else if length (exact_writes m) > MAX_EXACT_WRITES
      then Inl (TooManyExactWrites (length (exact_writes m)) MAX_EXACT_WRITES)
      else if length (immutable_reads m) > MAX_IMMUTABLE_READS
      then Inl (TooManyImmutableReads (length (immutable_reads m)) MAX_IMMUTABLE_READS)
      else if length (creation_namespaces m) > MAX_CREATION_NAMESPACES
      then Inl (TooManyCreationNamespaces (length (creation_namespaces m)) MAX_CREATION_NAMESPACES)
      else if maximum_created_objects m > MAX_CREATED_OBJECTS
      then Inl (TooManyCreatedObjects (maximum_created_objects m) MAX_CREATED_OBJECTS)
      else if maximum_dynamic_reads m > MAX_DYNAMIC_READS
      then Inl (TooManyDynamicReads (maximum_dynamic_reads m) MAX_DYNAMIC_READS)
      else Inr ())"

definition object_refs_strictly_increasing :: "ObjectVersionRef list \<Rightarrow> bool" where
  "object_refs_strictly_increasing refs = strictly_increasing_by ref_object_id refs"

definition contains_object_ref :: "ObjectVersionRef list \<Rightarrow> ObjectId \<Rightarrow> bool" where
  "contains_object_ref refs oid \<longleftrightarrow> binary_search_by_key ref_object_id oid refs \<noteq> None"

definition access_sets_overlap :: "AccessManifest \<Rightarrow> bool" where
  "access_sets_overlap m \<longleftrightarrow>
     list_ex (\<lambda>r. contains_object_ref (exact_writes m) (ref_object_id r)
       \<or> binary_search (ref_object_id r) (immutable_reads m) \<noteq> None) (exact_reads m)
     \<or> list_ex (\<lambda>r. binary_search (ref_object_id r) (immutable_reads m) \<noteq> None) (exact_writes m)"

definition AccessManifest_new :: "AccessManifest \<Rightarrow> AccessManifestError + AccessManifest" where
  "AccessManifest_new m =
     and_then (check_manifest_bounds m) (\<lambda>_.
     if \<not> object_refs_strictly_increasing (exact_reads m) then Inl ExactReadsNotStrictlyIncreasing
     else if \<not> object_refs_strictly_increasing (exact_writes m)
     then Inl ExactWritesNotStrictlyIncreasing
     else if \<not> strictly_increasing (immutable_reads m) then Inl ImmutableReadsNotStrictlyIncreasing
     else if \<not> strictly_increasing (creation_namespaces m)
     then Inl CreationNamespacesNotStrictlyIncreasing
     else if access_sets_overlap m then Inl OverlappingAccessDeclarations
     else if (maximum_created_objects m = 0) \<noteq> (creation_namespaces m = [])
     then Inl CreationNamespaceLimitMismatch
     else if (maximum_dynamic_reads m = 0) \<noteq> (dynamic_read_policy m = None)
     then Inl DynamicReadPolicyMismatch
     else Inr m)"

definition permits_exact_read :: "AccessManifest \<Rightarrow> ObjectVersionRef \<Rightarrow> bool" where
  "permits_exact_read m r \<longleftrightarrow> binary_search r (exact_reads m) \<noteq> None"

definition permits_exact_write :: "AccessManifest \<Rightarrow> ObjectVersionRef \<Rightarrow> bool" where
  "permits_exact_write m r \<longleftrightarrow> binary_search r (exact_writes m) \<noteq> None"

definition permits_immutable_read :: "AccessManifest \<Rightarrow> ObjectId \<Rightarrow> bool" where
  "permits_immutable_read m oid \<longleftrightarrow> binary_search oid (immutable_reads m) \<noteq> None"

definition permits_creation :: "AccessManifest \<Rightarrow> ObjectId \<Rightarrow> CapabilityId \<Rightarrow> bool" where
  "permits_creation m oid cid \<longleftrightarrow>
     list_ex (\<lambda>g. ns_capability_id g = cid \<and> NamespaceGrant_contains g oid) (creation_namespaces m)"

definition encode_AccessManifest :: "AccessManifest \<Rightarrow> encoder \<Rightarrow> encode_error + encoder" where
  "encode_AccessManifest m e =
     and_then (encode_vec encode_ObjectVersionRef MAX_EXACT_READS (exact_reads m) e) (\<lambda>e.
     and_then (encode_vec encode_ObjectVersionRef MAX_EXACT_WRITES (exact_writes m) e) (\<lambda>e.
     and_then (encode_vec encode_typed_id MAX_IMMUTABLE_READS (immutable_reads m) e) (\<lambda>e.
     and_then (encode_vec encode_NamespaceGrant MAX_CREATION_NAMESPACES (creation_namespaces m) e) (\<lambda>e.
     and_then (write_u32 (maximum_created_objects m) e) (\<lambda>e.
     and_then (write_u32 (maximum_dynamic_reads m) e) (\<lambda>e.
     encode_option encode_Digest384 (dynamic_read_policy m) e))))))"

fun access_manifest_decode_error :: "AccessManifestError \<Rightarrow> decode_error" where
  "access_manifest_decode_error (TooManyExactReads _ _) =
     InvalidValue ''manifest exceeds its exact-read bound''"
| "access_manifest_decode_error (TooManyExactWrites _ _) =
     InvalidValue ''manifest exceeds its exact-write bound''"
| "access_manifest_decode_error (TooManyImmutableReads _ _) =
     InvalidValue ''manifest exceeds its immutable-read bound''"
| "access_manifest_decode_error (TooManyCreationNamespaces _ _) =
     InvalidValue ''manifest exceeds its creation-namespace bound''"
| "access_manifest_decode_error (TooManyCreatedObjects _ _) =
     InvalidValue ''manifest exceeds its object-creation bound''"
| "access_manifest_decode_error (TooManyDynamicReads _ _) =
     InvalidValue ''manifest exceeds its dynamic-read bound''"
| "access_manifest_decode_error ExactReadsNotStrictlyIncreasing =
     InvalidValue ''manifest exact reads are not strictly increasing''"
| "access_manifest_decode_error ExactWritesNotStrictlyIncreasing =
     InvalidValue ''manifest exact writes are not strictly increasing''"
| "access_manifest_decode_error ImmutableReadsNotStrictlyIncreasing =
     InvalidValue ''manifest immutable reads are not strictly increasing''"
| "access_manifest_decode_error CreationNamespacesNotStrictlyIncreasing =
     InvalidValue ''manifest creation namespaces are not strictly increasing''"
| "access_manifest_decode_error OverlappingAccessDeclarations =
     InvalidValue ''manifest access declarations overlap''"
| "access_manifest_decode_error CreationNamespaceLimitMismatch =
     InvalidValue ''manifest creation namespaces and limit disagree''"
| "access_manifest_decode_error DynamicReadPolicyMismatch =
     InvalidValue ''manifest dynamic-read policy and limit disagree''"

definition decode_AccessManifest :: "decoder \<Rightarrow> decode_error + (AccessManifest \<times> decoder)" where
  "decode_AccessManifest d =
     and_then (decode_vec decode_ObjectVersionRef MAX_EXACT_READS d) (\<lambda>(reads, d).
     and_then (decode_vec decode_ObjectVersionRef MAX_EXACT_WRITES d) (\<lambda>(writes, d).
     and_then (decode_vec decode_typed_id MAX_IMMUTABLE_READS d) (\<lambda>(immutables, d).
     and_then (decode_vec decode_NamespaceGrant MAX_CREATION_NAMESPACES d) (\<lambda>(namespaces, d).
     and_then (read_u32 d) (\<lambda>(created, d).
     and_then (read_u32 d) (\<lambda>(dynamic, d).
     and_then (decode_option decode_Digest384 d) (\<lambda>(dpolicy, d).
     and_then (map_err access_manifest_decode_error
       (AccessManifest_new \<lparr>exact_reads = reads, exact_writes = writes,
          immutable_reads = immutables, creation_namespaces = namespaces,
          maximum_created_objects = created, maximum_dynamic_reads = dynamic,
          dynamic_read_policy = dpolicy\<rparr>))
       (\<lambda>m. Inr (m, d)))))))))"

definition AccessManifest_type :: "AccessManifest canonical_type" where
  "AccessManifest_type = \<lparr>ct_encode = encode_AccessManifest, ct_decode = decode_AccessManifest,
     ct_type_tag = 0x0051, ct_schema_version = 1, ct_max_encoded_len = 10093\<rparr>"

section \<open>Wire formats and codec laws\<close>

definition enc_NamespaceGrant :: "NamespaceGrant \<Rightarrow> u8 list" where
  "enc_NamespaceGrant g = enc_ResourceSelector (ns_namespace g) @ enc_typed_id (ns_capability_id g)"

definition valid_NamespaceGrant :: "NamespaceGrant \<Rightarrow> bool" where
  "valid_NamespaceGrant g \<longleftrightarrow> valid_ScopeSelector (resource_as_scope (ns_namespace g))"

definition enc_AccessManifest :: "AccessManifest \<Rightarrow> u8 list" where
  "enc_AccessManifest m =
     enc_length (length (exact_reads m)) @ enc_each enc_ObjectVersionRef (exact_reads m)
     @ enc_length (length (exact_writes m)) @ enc_each enc_ObjectVersionRef (exact_writes m)
     @ enc_length (length (immutable_reads m)) @ enc_each enc_typed_id (immutable_reads m)
     @ enc_length (length (creation_namespaces m)) @ enc_each enc_NamespaceGrant (creation_namespaces m)
     @ enc_u32 (maximum_created_objects m) @ enc_u32 (maximum_dynamic_reads m)
     @ enc_option enc_Digest384 (dynamic_read_policy m)"

definition valid_AccessManifest :: "AccessManifest \<Rightarrow> bool" where
  "valid_AccessManifest m \<longleftrightarrow>
     list_all valid_NamespaceGrant (creation_namespaces m) \<and> AccessManifest_new m = Inr m"

interpretation namespace_grant: canonical_codec enc_NamespaceGrant encode_NamespaceGrant
    decode_NamespaceGrant valid_NamespaceGrant
  by unfold_locales
    (auto simp: enc_NamespaceGrant_def encode_NamespaceGrant_def decode_NamespaceGrant_def
      valid_NamespaceGrant_def codec_simps dest!: codec_dests)

lemmas [codec_simps] = namespace_grant.laws
lemmas [codec_dests] = namespace_grant.inversions

lemma AccessManifest_new_eq_Inr: "AccessManifest_new m = Inr m' \<longleftrightarrow> m' = m \<and>
  length (exact_reads m) \<le> MAX_EXACT_READS \<and> length (exact_writes m) \<le> MAX_EXACT_WRITES \<and>
  length (immutable_reads m) \<le> MAX_IMMUTABLE_READS \<and>
  length (creation_namespaces m) \<le> MAX_CREATION_NAMESPACES \<and>
  maximum_created_objects m \<le> MAX_CREATED_OBJECTS \<and> maximum_dynamic_reads m \<le> MAX_DYNAMIC_READS \<and>
  object_refs_strictly_increasing (exact_reads m) \<and>
  object_refs_strictly_increasing (exact_writes m) \<and> strictly_increasing (immutable_reads m) \<and>
  strictly_increasing (creation_namespaces m) \<and> \<not> access_sets_overlap m \<and>
  (maximum_created_objects m = 0) = (creation_namespaces m = []) \<and>
  (maximum_dynamic_reads m = 0) = (dynamic_read_policy m = None)"
  by (auto simp: AccessManifest_new_def check_manifest_bounds_def not_less)

lemma length_enc_NamespaceGrant: "length (enc_NamespaceGrant g) \<le> 99"
  using length_enc_ScopeSelector [of "resource_as_scope (ns_namespace g)"]
  by (simp add: enc_NamespaceGrant_def enc_ResourceSelector_def)

lemma length_enc_AccessManifest:
  assumes "AccessManifest_new m = Inr m"
  shows "length (enc_AccessManifest m) \<le> 10093"
proof -
  from assms have counts: "length (exact_reads m) \<le> 64" "length (exact_writes m) \<le> 32"
    "length (immutable_reads m) \<le> 64" "length (creation_namespaces m) \<le> 16"
    by (simp_all add: AccessManifest_new_eq_Inr manifest_bounds)
  note bounds = length_enc_each_bounded [OF counts(1), of enc_ObjectVersionRef 56]
    length_enc_each_bounded [OF counts(2), of enc_ObjectVersionRef 56]
    length_enc_each_bounded [OF counts(3), of enc_typed_id 48]
    length_enc_each_bounded [OF counts(4), of enc_NamespaceGrant 99]
  have "length (enc_option enc_Digest384 (dynamic_read_policy m)) \<le> 49"
    using length_enc_option_le [of enc_Digest384 48] by simp
  then show ?thesis
    using counts bounds by (simp add: enc_AccessManifest_def enc_length_small length_enc_NamespaceGrant)
qed

lemma manifest_eta [simp]: "\<lparr>exact_reads = exact_reads m, exact_writes = exact_writes m,
    immutable_reads = immutable_reads m, creation_namespaces = creation_namespaces m,
    maximum_created_objects = maximum_created_objects m,
    maximum_dynamic_reads = maximum_dynamic_reads m,
    dynamic_read_policy = dynamic_read_policy m\<rparr> = m"
  by simp

interpretation manifest: bounded_envelope enc_AccessManifest AccessManifest_type
    valid_AccessManifest
proof
  fix m
  assume "valid_AccessManifest m"
  then show "length (enc_AccessManifest m) \<le> ct_max_encoded_len AccessManifest_type"
    by (simp add: AccessManifest_type_def valid_AccessManifest_def length_enc_AccessManifest)
qed (auto simp: AccessManifest_type_def enc_AccessManifest_def encode_AccessManifest_def
    decode_AccessManifest_def AccessManifest_new_eq_Inr valid_AccessManifest_def manifest_bounds
    MAX_BODY_LENGTH_def codec_simps dest!: codec_dests)

lemma AccessManifest_type_codec [simp]:
  "ct_encode AccessManifest_type = encode_AccessManifest"
  "ct_decode AccessManifest_type = decode_AccessManifest"
  by (simp_all add: AccessManifest_type_def)

lemmas [codec_simps] = manifest.laws [simplified]
lemmas [codec_dests] = manifest.inversions [simplified]

section \<open>Membership\<close>

lemma refs_increasing: "object_refs_strictly_increasing refs \<Longrightarrow> strictly_increasing refs"
  unfolding object_refs_strictly_increasing_def strictly_increasing_by_iff
  by (auto simp: sorted_wrt_iff_nth_less less_ObjectVersionRef_def)

lemma permits_exact_read_iff:
  "valid_AccessManifest m \<Longrightarrow> permits_exact_read m r \<longleftrightarrow> r \<in> set (exact_reads m)"
  using binary_search_is_some_iff [of "\<lambda>r. r" "exact_reads m" r] refs_increasing [of "exact_reads m"]
  by (simp add: permits_exact_read_def valid_AccessManifest_def AccessManifest_new_eq_Inr)

lemma permits_exact_write_iff:
  "valid_AccessManifest m \<Longrightarrow> permits_exact_write m r \<longleftrightarrow> r \<in> set (exact_writes m)"
  using binary_search_is_some_iff [of "\<lambda>r. r" "exact_writes m" r] refs_increasing [of "exact_writes m"]
  by (simp add: permits_exact_write_def valid_AccessManifest_def AccessManifest_new_eq_Inr)

lemma permits_immutable_read_iff:
  "valid_AccessManifest m \<Longrightarrow> permits_immutable_read m oid \<longleftrightarrow> oid \<in> set (immutable_reads m)"
  using binary_search_is_some_iff [of "\<lambda>r. r" "immutable_reads m" oid]
  by (simp add: permits_immutable_read_def valid_AccessManifest_def AccessManifest_new_eq_Inr)

lemma permits_creation_iff:
  assumes "valid_AccessManifest m"
  shows "permits_creation m oid cid \<longleftrightarrow>
    (\<exists>g \<in> set (creation_namespaces m). ns_capability_id g = cid \<and>
      into_digest oid \<in> scope_set (resource_as_scope (ns_namespace g)))"
  using assms
  by (auto simp: permits_creation_def list_ex_iff NamespaceGrant_contains_def resource_exact_def
      resource_is_subset_of_def valid_AccessManifest_def valid_NamespaceGrant_def list_all_iff
      scope_subset_iff)

lemma access_sets_overlap_iff:
  assumes "object_refs_strictly_increasing (exact_writes m)" "strictly_increasing (immutable_reads m)"
  shows "access_sets_overlap m \<longleftrightarrow>
    (let reads = ref_object_id ` set (exact_reads m); writes = ref_object_id ` set (exact_writes m);
         fixed = set (immutable_reads m) in
     reads \<inter> writes \<noteq> {} \<or> reads \<inter> fixed \<noteq> {} \<or> writes \<inter> fixed \<noteq> {})"
  using binary_search_is_some_iff [OF assms(1) [unfolded object_refs_strictly_increasing_def]]
    binary_search_is_some_iff [OF assms(2)]
  by (fastforce simp: access_sets_overlap_def contains_object_ref_def list_ex_iff Let_def)

lemma manifest_access_disjoint:
  assumes "valid_AccessManifest m"
  shows "distinct (map ref_object_id (exact_reads m) @ map ref_object_id (exact_writes m)
    @ immutable_reads m)"
proof -
  from assms have inc: "strictly_increasing_by ref_object_id (exact_reads m)"
      "strictly_increasing_by ref_object_id (exact_writes m)"
      "strictly_increasing (immutable_reads m)"
    and "\<not> access_sets_overlap m"
    by (simp_all add: valid_AccessManifest_def AccessManifest_new_eq_Inr
        object_refs_strictly_increasing_def)
  then show ?thesis
    using access_sets_overlap_iff [of m] inc [THEN strictly_increasing_by_distinct]
    by (auto simp: object_refs_strictly_increasing_def Let_def)
qed

end
