(* ===== verification/Samples.thy ===== *)
theory Samples
  imports VM_Codec Capability Access_Manifest
begin

text \<open>
  Concrete inputs at which the properties are instantiated: a program with a branch, an addition
  and an event, a transferable object, an authenticator set, a two-link delegation chain and an
  access manifest, each with the proof that the code's constructor accepts it.
\<close>

section \<open>Objects and programs\<close>

definition sample_object :: Object where
  "sample_object = \<lparr>object_id = TypedId 7, object_version = 3, type_id = 1,
     owner = OwnerPrincipal (TypedId 11), control_policy_hash = 2, use_policy_hash = 3,
     disclosure_policy_hash = 4, upgrade_policy_hash = 5, package_id = None, value_root = 6,
     public_value = Some [1, 2, 3], lease_expiry_epoch = 100, storage_deposit = 50,
     flags = TRANSFERABLE\<rparr>"

text \<open>
  Inputs: an object, a capability and two integers.  The program consumes the capability, adds the
  integers, emits the sum and hands the object on.
\<close>

definition sample_program :: VmProgram where
  "sample_program = \<lparr>input_count = 4,
     register_types = [TObject, TCapability, TU64, TU64, TU64, TObject],
     output_types = [TU64, TObject],
     instructions = [ConsumeCapability 1, AddU64 4 2 3, Emit 4, Move 5 0, Return [4, 5]],
     maximum_events = 1\<rparr>"

definition sample_verified :: VerifiedProgram where
  "sample_verified =
     (let a = CertAvailable; u = CertUninitialized; m = CertMoved in
      \<lparr>verified_program = sample_program, instruction_states = [
        \<lparr>cert_registers = [a, a, a, a, u, u], maximum_prior_events = 0\<rparr>,
        \<lparr>cert_registers = [a, m, a, a, u, u], maximum_prior_events = 0\<rparr>,
        \<lparr>cert_registers = [a, m, a, a, a, u], maximum_prior_events = 0\<rparr>,
        \<lparr>cert_registers = [a, m, a, a, a, u], maximum_prior_events = 1\<rparr>,
        \<lparr>cert_registers = [m, m, a, a, a, a], maximum_prior_events = 1\<rparr>]\<rparr>)"

definition sample_inputs :: "VmValue list" where
  "sample_inputs = [VmObject sample_object, VmCapability (TypedId 9), U64 2, U64 40]"

definition sample_result :: VmExecutionResult where
  "sample_result = \<lparr>res_gas_used = 11, res_steps = 5, outputs = [U64 42, VmObject sample_object],
     res_events = [EventU64 42]\<rparr>"

lemma verify_each_upt:
  "verify_each p [k..<n] states =
     (if k < n then
        and_then (ok_or (UnreachableInstruction k) (states ! k)) (\<lambda>st.
        and_then (verify_instruction p k (instructions p ! k) st states) (\<lambda>states.
        verify_each p [Suc k..<n] states))
      else Inr states)"
  by (simp add: upt_rec [of k n])

lemmas verifier_defs = require_register_def register_index_def require_source_def
  require_source_type_def require_destination_def require_target_def next_program_counter_def
  propagate_fallthrough_def merge_state_def verify_return_def checked_add_usize_def usize_max_def
  set_register_def is_copyable_def is_linear_def is_event_scalar_def

lemma replicate_4: "replicate 4 x = [x, x, x, x]"
  by (simp add: numeral_eq_Suc)

lemma replicate_6: "replicate 6 x = [x, x, x, x, x, x]"
  by (simp add: numeral_eq_Suc)

lemmas interpreter_defs = execute_def execute_step_def verify_runtime_refinement_def
  admits_runtime_state_def prepay_gas_def checked_add_def vm_checked_add_def read_def
  read_u64_register_def read_bool_register_def take_register_def initialize_def advance_def
  VmExecutionResult_new_def

lemma sample_object_valid: "valid_Object sample_object"
  by code_simp

lemma sample_program_valid: "valid_VmProgram sample_program"
  by code_simp

lemma sample_program_verified: "verify sample_program = Inr sample_verified"
  by (simp add: verify_def verify_each_upt sample_program_def entry_state_def verifier_defs
      replicate_4 sample_verified_def)

lemma sample_inputs_match: "inputs_match sample_program sample_inputs"
  by code_simp

lemma sample_execution: "execute sample_verified sample_inputs 100 = Inr sample_result"
  by (simp add: interpreter_defs execute_loop.simps sample_verified_def sample_program_def sample_inputs_def
      sample_result_def Let_def replicate_6 vm_bounds)

definition sample_evidence :: ExecutionEvidence where
  "sample_evidence = \<lparr>ev_program = sample_program, ev_inputs = sample_inputs, ev_gas_limit = 100,
     ev_result = sample_result\<rparr>"

lemma sample_evidence_encodes: "\<exists>bytes. encode_envelope ExecutionEvidence_type sample_evidence = Inr bytes"
proof -
  have "length (enc_ExecutionEvidence sample_evidence) \<le> ct_max_encoded_len ExecutionEvidence_type"
    using length_enc_VmProgram [OF sample_program_valid] length_enc_VmValue [of "VmObject sample_object"]
      sample_object_valid
    by (simp add: enc_ExecutionEvidence_def sample_evidence_def sample_inputs_def sample_result_def
        enc_VmExecutionResult_def enc_length_small ExecutionEvidence_type_def
        VmProgram_MAX_ENCODED_LEN_def VmExecutionResult_MAX_ENCODED_LEN_def)
  moreover have "valid_ExecutionEvidence sample_evidence"
    using evidence_create_valid [OF sample_program_valid sample_program_verified, of sample_inputs 100]
      sample_execution sample_object_valid
    by (simp add: evidence_create_def sample_evidence_def sample_verified_def sample_inputs_def Let_def)
  ultimately show ?thesis using evidence.encode_envelope_fits by blast
qed

section \<open>Authenticators, grants and manifests\<close>

definition sample_authenticator :: "AuthenticatorId \<Rightarrow> AuthenticatorDescriptor" where
  "sample_authenticator aid = \<lparr>authenticator_id = aid, scheme = ML_DSA_65,
     verification_key = replicate 1952 0, purpose = Control, auth_valid_from = 5,
     auth_valid_until = Some 90, revoked_at = None\<rparr>"

definition sample_authenticators :: AuthenticatorSetV1 where
  "sample_authenticators =
     AuthenticatorSetV1 [sample_authenticator (TypedId 1), sample_authenticator (TypedId 2)]"

definition sample_signature :: ProtocolSignature where
  "sample_signature = \<lparr>sig_suite = ML_DSA_65, sig_bytes = replicate 3309 0\<rparr>"

text \<open>Principal 1 grants to principal 2, who delegates a narrower capability to principal 3.\<close>

definition root_grant :: CapabilityGrant where
  "root_grant = \<lparr>grant_fields = \<lparr>capability_id = TypedId 100, issuer = TypedId 1,
     holder_binding = HolderPrincipal (TypedId 2), parent_capability = None,
     permitted_actions = BoundedActionSet [TypedId 1, TypedId 2], resource_scope = ResourceSelector Any,
     data_scope = DataSelector Any, monetary_limit = Some 1000, compute_limit = None,
     rate_limit = Some \<lparr>maximum_uses = 10, window_blocks = 60\<rparr>, use_limit = None, valid_from = 10,
     valid_until = Some 100, delegation_depth_remaining = 2, delegation_allowed = True,
     revocation_registry = None, constraint_hash = 0\<rparr>, issuer_signature = sample_signature\<rparr>"

definition child_grant :: CapabilityGrant where
  "child_grant = \<lparr>grant_fields = \<lparr>capability_id = TypedId 101, issuer = TypedId 2,
     holder_binding = HolderPrincipal (TypedId 3), parent_capability = Some (TypedId 100),
     permitted_actions = BoundedActionSet [TypedId 2], resource_scope = ResourceSelector (Exact 7),
     data_scope = DataSelector Any, monetary_limit = Some 500, compute_limit = Some 9,
     rate_limit = Some \<lparr>maximum_uses = 3, window_blocks = 60\<rparr>, use_limit = Some 4, valid_from = 20,
     valid_until = Some 80, delegation_depth_remaining = 0, delegation_allowed = False,
     revocation_registry = None, constraint_hash = 0\<rparr>, issuer_signature = sample_signature\<rparr>"

definition sample_exercise :: exercise where
  "sample_exercise = \<lparr>ex_action = TypedId 2, ex_resource = TypedId 7, ex_data = 5, ex_amount = 400,
     ex_compute = 8, ex_height = 30, ex_total_uses = 1, ex_window_uses = (\<lambda>_. 2)\<rparr>"

definition sample_manifest :: AccessManifest where
  "sample_manifest = \<lparr>exact_reads = [ObjectVersionRef (TypedId 1) 0],
     exact_writes = [ObjectVersionRef (TypedId 7) 3], immutable_reads = [TypedId 4],
     creation_namespaces = [NamespaceGrant (ResourceSelector (Exact 9)) (TypedId 100)],
     maximum_created_objects = 1, maximum_dynamic_reads = 0, dynamic_read_policy = None\<rparr>"

lemma sample_authenticator_valid: "valid_AuthenticatorDescriptor (sample_authenticator aid)"
  by (simp add: valid_AuthenticatorDescriptor_def sample_authenticator_def
      AuthenticatorDescriptor_new_def verification_key_length_def suite_defs
      valid_suite_def from_parts_def)

lemma sample_authenticators_valid: "valid_AuthenticatorSetV1 sample_authenticators"
  by (simp add: valid_AuthenticatorSetV1_iff sample_authenticators_def sample_authenticator_valid)
    (simp add: sample_authenticator_def less_typed_id_def strictly_increasing_by_iff)

lemma sample_signature_valid: "valid_signature sample_signature"
  by (simp add: valid_signature_iff sample_signature_def signature_length_def suite_defs
      valid_suite_def from_parts_def)

lemmas grant_defs = valid_CapabilityGrant_def valid_CapabilityGrantFields_def
  valid_BoundedActionSet_def BoundedActionSet_new_eq_Inr valid_RateLimit_def RateLimit_new_eq_Inr
  CapabilityGrant_new_eq_Inr less_typed_id_def strictly_increasing_by_iff

lemma root_grant_valid: "valid_CapabilityGrant root_grant"
  by (simp add: grant_defs root_grant_def sample_signature_valid)

lemma child_grant_valid: "valid_CapabilityGrant child_grant"
  by (simp add: grant_defs child_grant_def sample_signature_valid)

lemma child_actions: "actions_is_subset_of (permitted_actions (grant_fields child_grant))
  (permitted_actions (grant_fields root_grant))"
  using root_grant_valid
  by (subst actions_subset_iff) (simp_all add: grant_defs root_grant_def child_grant_def)

lemma child_attenuates: "verify_attenuation root_grant child_grant = Inr ()"
  using child_actions
  by (simp add: verify_attenuation_iff root_grant_def child_grant_def resource_is_subset_of_def
      data_is_subset_of_def optional_limit_is_attenuated_def optional_end_is_attenuated_def
      rate_limit_is_attenuated_def revocation_registry_is_attenuated_def)

lemma child_authorizes: "authorizes (grant_fields child_grant) sample_exercise"
  by (simp add: authorizes_def child_grant_def sample_exercise_def)

lemma sample_manifest_valid: "valid_AccessManifest sample_manifest"
  by (simp add: valid_AccessManifest_def sample_manifest_def AccessManifest_new_eq_Inr
    valid_NamespaceGrant_def object_refs_strictly_increasing_def strictly_increasing_by_iff
    access_sets_overlap_iff manifest_bounds MAX_CREATED_OBJECTS_def)

end
