(* ===== verification/Policy.thy ===== *)
theory Policy
  imports Scopes
begin

text \<open>
  The authorization policy language (\<^verbatim>\<open>policy-kernel/src/ast.rs\<close>, \<^verbatim>\<open>request.rs\<close> and
  \<^verbatim>\<open>eval.rs\<close>): rules, requests and the metered evaluator with its decisions.
\<close>

section \<open>Abstract syntax\<close>

definition APL_LANGUAGE_VERSION :: u16 where "APL_LANGUAGE_VERSION = 1"
definition MAX_POLICY_RULES :: usize where "MAX_POLICY_RULES = 32"
definition MAX_POLICY_PREDICATES :: usize where "MAX_POLICY_PREDICATES = 16"
definition MAX_OBLIGATIONS_PER_RULE :: usize where "MAX_OBLIGATIONS_PER_RULE = 4"
definition MAX_POLICY_OBLIGATIONS :: usize where
  "MAX_POLICY_OBLIGATIONS = MAX_POLICY_RULES * MAX_OBLIGATIONS_PER_RULE"
definition MAX_RULE_ENCODED_LEN :: usize where
  "MAX_RULE_ENCODED_LEN = 1 + 1 + MAX_POLICY_PREDICATES * 52 + 1 + MAX_OBLIGATIONS_PER_RULE * 65"

datatype ActorBinding =
    ActorPrincipal PrincipalId
  | ActorPrivate Digest384

fun encode_ActorBinding :: "ActorBinding \<Rightarrow> encoder \<Rightarrow> encode_error + encoder" where
  "encode_ActorBinding (ActorPrincipal x) e =
     and_then (write_u8 0 e) (\<lambda>e. encode_typed_id x e)"
| "encode_ActorBinding (ActorPrivate x) e =
     and_then (write_u8 1 e) (\<lambda>e. encode_Digest384 x e)"

definition decode_ActorBinding :: "decoder \<Rightarrow> decode_error + (ActorBinding \<times> decoder)" where
  "decode_ActorBinding d = and_then (read_u8 d) (\<lambda>(tag, d).
     if tag = 0 then and_then (decode_typed_id d) (\<lambda>(x, d). Inr (ActorPrincipal x, d))
     else if tag = 1 then and_then (decode_Digest384 d) (\<lambda>(x, d). Inr (ActorPrivate x, d))
     else Inl (InvalidEnumTag ''ActorBinding'' tag))"

datatype PolicyEffect = EffectPermit | EffectForbid

fun PolicyEffect_tag :: "PolicyEffect \<Rightarrow> u8" where
  "PolicyEffect_tag EffectPermit = 0"
| "PolicyEffect_tag EffectForbid = 1"

definition encode_PolicyEffect :: "PolicyEffect \<Rightarrow> encoder \<Rightarrow> encode_error + encoder" where
  "encode_PolicyEffect v e = write_u8 (PolicyEffect_tag v) e"

definition decode_PolicyEffect :: "decoder \<Rightarrow> decode_error + (PolicyEffect \<times> decoder)" where
  "decode_PolicyEffect d = and_then (read_u8 d) (\<lambda>(tag, d).
     if tag = 0 then Inr (EffectPermit, d)
     else if tag = 1 then Inr (EffectForbid, d)
     else Inl (InvalidEnumTag ''PolicyEffect'' tag))"

datatype PolicyPredicate =
    ActorIs ActorBinding
  | ActionIs ActionId
  | ResourceMatches ResourceSelector
  | ValueAtMost Amount
  | ValueAtLeast Amount
  | HeightAtLeast Height
  | HeightAtMost Height
  | HasCredentialSchema Digest384
  | HasCapability CapabilityId
  | ApprovalCountAtLeast Digest384 u8
  | FreezeStateIs FreezeState
  | DeclaredPurposeIs Digest384

fun encode_PolicyPredicate :: "PolicyPredicate \<Rightarrow> encoder \<Rightarrow> encode_error + encoder" where
  "encode_PolicyPredicate (ActorIs x) e =
     and_then (write_u8 0 e) (\<lambda>e. encode_ActorBinding x e)"
| "encode_PolicyPredicate (ActionIs x) e =
     and_then (write_u8 1 e) (\<lambda>e. encode_typed_id x e)"
| "encode_PolicyPredicate (ResourceMatches x) e =
     and_then (write_u8 2 e) (\<lambda>e. encode_ResourceSelector x e)"
| "encode_PolicyPredicate (ValueAtMost x) e =
     and_then (write_u8 3 e) (\<lambda>e. write_u128 x e)"
| "encode_PolicyPredicate (ValueAtLeast x) e =
     and_then (write_u8 4 e) (\<lambda>e. write_u128 x e)"
| "encode_PolicyPredicate (HeightAtLeast x) e =
     and_then (write_u8 5 e) (\<lambda>e. write_u64 x e)"
| "encode_PolicyPredicate (HeightAtMost x) e =
     and_then (write_u8 6 e) (\<lambda>e. write_u64 x e)"
| "encode_PolicyPredicate (HasCredentialSchema x) e =
     and_then (write_u8 7 e) (\<lambda>e. encode_Digest384 x e)"
| "encode_PolicyPredicate (HasCapability x) e =
     and_then (write_u8 8 e) (\<lambda>e. encode_typed_id x e)"
| "encode_PolicyPredicate (ApprovalCountAtLeast x0 x1) e =
     and_then (write_u8 9 e) (\<lambda>e. and_then (encode_Digest384 x0 e) (\<lambda>e. write_u8 x1 e))"
| "encode_PolicyPredicate (FreezeStateIs x) e =
     and_then (write_u8 10 e) (\<lambda>e. encode_FreezeState x e)"
| "encode_PolicyPredicate (DeclaredPurposeIs x) e =
     and_then (write_u8 11 e) (\<lambda>e. encode_Digest384 x e)"

definition decode_PolicyPredicate :: "decoder \<Rightarrow> decode_error + (PolicyPredicate \<times> decoder)" where
  "decode_PolicyPredicate d = and_then (read_u8 d) (\<lambda>(tag, d).
     if tag = 0 then and_then (decode_ActorBinding d) (\<lambda>(x, d). Inr (ActorIs x, d))
     else if tag = 1 then and_then (decode_typed_id d) (\<lambda>(x, d). Inr (ActionIs x, d))
     else if tag = 2 then and_then (decode_ResourceSelector d) (\<lambda>(x, d). Inr (ResourceMatches x, d))
     else if tag = 3 then and_then (read_u128 d) (\<lambda>(x, d). Inr (ValueAtMost x, d))
     else if tag = 4 then and_then (read_u128 d) (\<lambda>(x, d). Inr (ValueAtLeast x, d))
     else if tag = 5 then and_then (read_u64 d) (\<lambda>(x, d). Inr (HeightAtLeast x, d))
     else if tag = 6 then and_then (read_u64 d) (\<lambda>(x, d). Inr (HeightAtMost x, d))
     else if tag = 7 then and_then (decode_Digest384 d) (\<lambda>(x, d). Inr (HasCredentialSchema x, d))
     else if tag = 8 then and_then (decode_typed_id d) (\<lambda>(x, d). Inr (HasCapability x, d))
     else if tag = 9 then and_then (decode_Digest384 d) (\<lambda>(x0, d). and_then (read_u8 d) (\<lambda>(x1, d). if x1 = 0 then Inl (InvalidValue ''approval predicate minimum is zero'') else Inr (ApprovalCountAtLeast x0 x1, d)))
     else if tag = 10 then and_then (decode_FreezeState d) (\<lambda>(x, d). Inr (FreezeStateIs x, d))
     else if tag = 11 then and_then (decode_Digest384 d) (\<lambda>(x, d). Inr (DeclaredPurposeIs x, d))
     else Inl (InvalidEnumTag ''PolicyPredicate'' tag))"

datatype PolicyObligation =
    DecrementCapabilityBudget CapabilityId Amount
  | ObligationConsumeCapability CapabilityId
  | EmitAuditCommitment Digest384
  | RequireApproval Digest384 u8
  | DelaySettlementUntil Height
  | RestrictOutputDisclosure Digest384

fun encode_PolicyObligation :: "PolicyObligation \<Rightarrow> encoder \<Rightarrow> encode_error + encoder" where
  "encode_PolicyObligation (DecrementCapabilityBudget x0 x1) e =
     and_then (write_u8 0 e) (\<lambda>e. and_then (encode_typed_id x0 e) (\<lambda>e. write_u128 x1 e))"
| "encode_PolicyObligation (ObligationConsumeCapability x) e =
     and_then (write_u8 1 e) (\<lambda>e. encode_typed_id x e)"
| "encode_PolicyObligation (EmitAuditCommitment x) e =
     and_then (write_u8 2 e) (\<lambda>e. encode_Digest384 x e)"
| "encode_PolicyObligation (RequireApproval x0 x1) e =
     and_then (write_u8 3 e) (\<lambda>e. and_then (encode_Digest384 x0 e) (\<lambda>e. write_u8 x1 e))"
| "encode_PolicyObligation (DelaySettlementUntil x) e =
     and_then (write_u8 4 e) (\<lambda>e. write_u64 x e)"
| "encode_PolicyObligation (RestrictOutputDisclosure x) e =
     and_then (write_u8 5 e) (\<lambda>e. encode_Digest384 x e)"

definition decode_PolicyObligation :: "decoder \<Rightarrow> decode_error + (PolicyObligation \<times> decoder)" where
  "decode_PolicyObligation d = and_then (read_u8 d) (\<lambda>(tag, d).
     if tag = 0 then and_then (decode_typed_id d) (\<lambda>(x0, d). and_then (read_u128 d) (\<lambda>(x1, d). Inr (DecrementCapabilityBudget x0 x1, d)))
     else if tag = 1 then and_then (decode_typed_id d) (\<lambda>(x, d). Inr (ObligationConsumeCapability x, d))
     else if tag = 2 then and_then (decode_Digest384 d) (\<lambda>(x, d). Inr (EmitAuditCommitment x, d))
     else if tag = 3 then and_then (decode_Digest384 d) (\<lambda>(x0, d). and_then (read_u8 d) (\<lambda>(x1, d). if x1 = 0 then Inl (InvalidValue ''approval obligation minimum is zero'') else Inr (RequireApproval x0 x1, d)))
     else if tag = 4 then and_then (read_u64 d) (\<lambda>(x, d). Inr (DelaySettlementUntil x, d))
     else if tag = 5 then and_then (decode_Digest384 d) (\<lambda>(x, d). Inr (RestrictOutputDisclosure x, d))
     else Inl (InvalidEnumTag ''PolicyObligation'' tag))"

record PolicyRule =
  rule_effect :: PolicyEffect
  rule_predicates :: "PolicyPredicate list"
  rule_obligations :: "PolicyObligation list"

datatype PolicyRuleError =
    TooManyPredicates usize usize
  | TooManyObligations usize usize
  | ForbidHasObligations
  | ZeroApprovalThreshold

fun zero_approval_predicate :: "PolicyPredicate \<Rightarrow> bool" where
  "zero_approval_predicate (ApprovalCountAtLeast _ minimum) = (minimum = 0)"
| "zero_approval_predicate _ = False"

fun zero_approval_obligation :: "PolicyObligation \<Rightarrow> bool" where
  "zero_approval_obligation (RequireApproval _ minimum) = (minimum = 0)"
| "zero_approval_obligation _ = False"

definition PolicyRule_new :: "PolicyRule \<Rightarrow> PolicyRuleError + PolicyRule" where
  "PolicyRule_new r =
     (if length (rule_predicates r) > MAX_POLICY_PREDICATES
      then Inl (TooManyPredicates (length (rule_predicates r)) MAX_POLICY_PREDICATES)
      else if length (rule_obligations r) > MAX_OBLIGATIONS_PER_RULE
      then Inl (TooManyObligations (length (rule_obligations r)) MAX_OBLIGATIONS_PER_RULE)
      else if rule_effect r = EffectForbid \<and> rule_obligations r \<noteq> [] then Inl ForbidHasObligations
      else if list_ex zero_approval_predicate (rule_predicates r) \<or>
        list_ex zero_approval_obligation (rule_obligations r) then Inl ZeroApprovalThreshold
      else Inr r)"

definition encode_PolicyRule :: "PolicyRule \<Rightarrow> encoder \<Rightarrow> encode_error + encoder" where
  "encode_PolicyRule r e =
     and_then (encode_PolicyEffect (rule_effect r) e) (\<lambda>e.
     and_then (encode_vec encode_PolicyPredicate MAX_POLICY_PREDICATES (rule_predicates r) e) (\<lambda>e.
     encode_vec encode_PolicyObligation MAX_OBLIGATIONS_PER_RULE (rule_obligations r) e))"

fun policy_rule_decode_error :: "PolicyRuleError \<Rightarrow> decode_error" where
  "policy_rule_decode_error (TooManyPredicates _ _) = InvalidValue ''policy rule exceeds its predicate bound''"
| "policy_rule_decode_error (TooManyObligations _ _) = InvalidValue ''policy rule exceeds its obligation bound''"
| "policy_rule_decode_error ForbidHasObligations = InvalidValue ''forbid rule contains obligations''"
| "policy_rule_decode_error ZeroApprovalThreshold = InvalidValue ''approval threshold is zero''"

definition decode_PolicyRule :: "decoder \<Rightarrow> decode_error + (PolicyRule \<times> decoder)" where
  "decode_PolicyRule d =
     and_then (decode_PolicyEffect d) (\<lambda>(eff, d).
     and_then (decode_vec decode_PolicyPredicate MAX_POLICY_PREDICATES d) (\<lambda>(preds, d).
     and_then (decode_vec decode_PolicyObligation MAX_OBLIGATIONS_PER_RULE d) (\<lambda>(obls, d).
     and_then (map_err policy_rule_decode_error
       (PolicyRule_new \<lparr>rule_effect = eff, rule_predicates = preds, rule_obligations =
         obls\<rparr>)) (\<lambda>r. Inr (r, d)))))"

record PolicySet =
  language_version :: u16
  policy_rules :: "PolicyRule list"

datatype PolicySetError = UnsupportedLanguageVersion u16 | TooManyRules usize usize

definition PolicySet_new :: "PolicySet \<Rightarrow> PolicySetError + PolicySet" where
  "PolicySet_new s =
     (if language_version s \<noteq> APL_LANGUAGE_VERSION
      then Inl (UnsupportedLanguageVersion (language_version s))
      else if length (policy_rules s) > MAX_POLICY_RULES
      then Inl (TooManyRules (length (policy_rules s)) MAX_POLICY_RULES)
      else Inr s)"

definition encode_PolicySet :: "PolicySet \<Rightarrow> encoder \<Rightarrow> encode_error + encoder" where
  "encode_PolicySet r e =
     and_then (write_u16 (language_version r) e) (\<lambda>e.
     encode_vec encode_PolicyRule MAX_POLICY_RULES (policy_rules r) e)"

definition decode_PolicySet :: "decoder \<Rightarrow> decode_error + (PolicySet \<times> decoder)" where
  "decode_PolicySet d =
     and_then (read_u16 d) (\<lambda>(version, d).
     and_then (decode_vec decode_PolicyRule MAX_POLICY_RULES d) (\<lambda>(rules, d).
     and_then (map_err (\<lambda>error. case error of
          UnsupportedLanguageVersion _ \<Rightarrow> InvalidValue ''unsupported APL language version''
        | TooManyRules _ _ \<Rightarrow> InvalidValue ''policy exceeds its rule bound'')
       (PolicySet_new \<lparr>language_version = version, policy_rules = rules\<rparr>))
         (\<lambda>r. Inr (r, d))))"

definition PolicySet_type :: "PolicySet canonical_type" where
  "PolicySet_type = \<lparr>ct_encode = encode_PolicySet, ct_decode = decode_PolicySet, ct_type_tag = 0x0040,
     ct_schema_version = 1, ct_max_encoded_len = 2 + 1 + MAX_POLICY_RULES * MAX_RULE_ENCODED_LEN\<rparr>"

section \<open>Requests\<close>

definition MAX_CREDENTIAL_FACTS :: usize where "MAX_CREDENTIAL_FACTS = 32"
definition MAX_CAPABILITY_FACTS :: usize where "MAX_CAPABILITY_FACTS = 32"
definition MAX_APPROVAL_FACTS :: usize where "MAX_APPROVAL_FACTS = 16"

record ApprovalFact =
  fact_role :: Digest384
  fact_count :: u8

datatype ApprovalFactError = ZeroCount

definition ApprovalFact_new :: "ApprovalFact \<Rightarrow> ApprovalFactError + ApprovalFact" where
  "ApprovalFact_new f = (if fact_count f = 0 then Inl ZeroCount else Inr f)"

definition encode_ApprovalFact :: "ApprovalFact \<Rightarrow> encoder \<Rightarrow> encode_error + encoder" where
  "encode_ApprovalFact r e =
     and_then (encode_Digest384 (fact_role r) e) (\<lambda>e.
     write_u8 (fact_count r) e)"

definition decode_ApprovalFact :: "decoder \<Rightarrow> decode_error + (ApprovalFact \<times> decoder)" where
  "decode_ApprovalFact d =
     and_then (decode_Digest384 d) (\<lambda>(role, d).
     and_then (read_u8 d) (\<lambda>(count, d).
     and_then (map_err (\<lambda>_. InvalidValue ''approval fact count is zero'')
       (ApprovalFact_new \<lparr>fact_role = role, fact_count = count\<rparr>)) (\<lambda>r. Inr
         (r, d))))"

record PolicyRequest =
  req_actor :: ActorBinding
  req_action :: ActionId
  req_resource :: ObjectId
  req_height :: Height
  req_value :: Amount
  req_freeze_state :: FreezeState
  declared_purpose :: "Digest384 option"
  credential_schemas :: "Digest384 list"
  req_capabilities :: "CapabilityId list"
  approvals :: "ApprovalFact list"

datatype PolicyRequestError =
    TooManyCredentialFacts usize usize
  | TooManyCapabilityFacts usize usize
  | TooManyApprovalFacts usize usize
  | CredentialFactsNotStrictlyIncreasing
  | CapabilityFactsNotStrictlyIncreasing
  | ApprovalFactsNotStrictlyIncreasing

definition PolicyRequest_new :: "PolicyRequest \<Rightarrow> PolicyRequestError + PolicyRequest" where
  "PolicyRequest_new q =
     (if length (credential_schemas q) > MAX_CREDENTIAL_FACTS
      then Inl (TooManyCredentialFacts (length (credential_schemas q)) MAX_CREDENTIAL_FACTS)
      else if length (req_capabilities q) > MAX_CAPABILITY_FACTS
      then Inl (TooManyCapabilityFacts (length (req_capabilities q)) MAX_CAPABILITY_FACTS)
      else if length (approvals q) > MAX_APPROVAL_FACTS
      then Inl (TooManyApprovalFacts (length (approvals q)) MAX_APPROVAL_FACTS)
      else if \<not> strictly_increasing (credential_schemas q)
      then Inl CredentialFactsNotStrictlyIncreasing
      else if \<not> strictly_increasing (req_capabilities q)
      then Inl CapabilityFactsNotStrictlyIncreasing
      else if \<not> strictly_increasing_by fact_role (approvals q)
      then Inl ApprovalFactsNotStrictlyIncreasing
      else Inr q)"

definition contains_credential_schema :: "PolicyRequest \<Rightarrow> Digest384 \<Rightarrow> bool" where
  "contains_credential_schema q schema = (binary_search schema (credential_schemas q) \<noteq> None)"

definition contains_capability :: "PolicyRequest \<Rightarrow> CapabilityId \<Rightarrow> bool" where
  "contains_capability q capability = (binary_search capability (req_capabilities q) \<noteq> None)"

definition approval_count :: "PolicyRequest \<Rightarrow> Digest384 \<Rightarrow> u8" where
  "approval_count q role =
     (case binary_search_by_key fact_role role (approvals q) of
        None \<Rightarrow> 0 | Some index \<Rightarrow> fact_count (approvals q ! index))"

definition encode_PolicyRequest :: "PolicyRequest \<Rightarrow> encoder \<Rightarrow> encode_error + encoder" where
  "encode_PolicyRequest r e =
     and_then (encode_ActorBinding (req_actor r) e) (\<lambda>e.
     and_then (encode_typed_id (req_action r) e) (\<lambda>e.
     and_then (encode_typed_id (req_resource r) e) (\<lambda>e.
     and_then (write_u64 (req_height r) e) (\<lambda>e.
     and_then (write_u128 (req_value r) e) (\<lambda>e.
     and_then (encode_FreezeState (req_freeze_state r) e) (\<lambda>e.
     and_then (encode_option encode_Digest384 (declared_purpose r) e) (\<lambda>e.
     and_then (encode_vec encode_Digest384 MAX_CREDENTIAL_FACTS (credential_schemas r) e) (\<lambda>e.
     and_then (encode_vec encode_typed_id MAX_CAPABILITY_FACTS (req_capabilities r) e) (\<lambda>e.
     encode_vec encode_ApprovalFact MAX_APPROVAL_FACTS (approvals r) e)))))))))"

fun policy_request_decode_error :: "PolicyRequestError \<Rightarrow> decode_error" where
  "policy_request_decode_error (TooManyCredentialFacts _ _) =
     InvalidValue ''request exceeds its credential-fact bound''"
| "policy_request_decode_error (TooManyCapabilityFacts _ _) =
     InvalidValue ''request exceeds its capability-fact bound''"
| "policy_request_decode_error (TooManyApprovalFacts _ _) =
     InvalidValue ''request exceeds its approval-fact bound''"
| "policy_request_decode_error CredentialFactsNotStrictlyIncreasing =
     InvalidValue ''credential facts are not strictly increasing''"
| "policy_request_decode_error CapabilityFactsNotStrictlyIncreasing =
     InvalidValue ''capability facts are not strictly increasing''"
| "policy_request_decode_error ApprovalFactsNotStrictlyIncreasing =
     InvalidValue ''approval facts are not strictly increasing''"

definition decode_PolicyRequest :: "decoder \<Rightarrow> decode_error + (PolicyRequest \<times> decoder)" where
  "decode_PolicyRequest d =
     and_then (decode_ActorBinding d) (\<lambda>(actor, d).
     and_then (decode_typed_id d) (\<lambda>(action, d).
     and_then (decode_typed_id d) (\<lambda>(resource, d).
     and_then (read_u64 d) (\<lambda>(height, d).
     and_then (read_u128 d) (\<lambda>(val, d).
     and_then (decode_FreezeState d) (\<lambda>(freeze, d).
     and_then (decode_option decode_Digest384 d) (\<lambda>(purpose, d).
     and_then (decode_vec decode_Digest384 MAX_CREDENTIAL_FACTS d) (\<lambda>(schemas, d).
     and_then (decode_vec decode_typed_id MAX_CAPABILITY_FACTS d) (\<lambda>(caps, d).
     and_then (decode_vec decode_ApprovalFact MAX_APPROVAL_FACTS d) (\<lambda>(apps, d).
     and_then (map_err policy_request_decode_error
       (PolicyRequest_new \<lparr>req_actor = actor, req_action = action, req_resource = resource,
         req_height = height, req_value = val, req_freeze_state = freeze, declared_purpose =
         purpose, credential_schemas = schemas, req_capabilities = caps, approvals =
         apps\<rparr>)) (\<lambda>r. Inr (r, d))))))))))))"

definition PolicyRequest_type :: "PolicyRequest canonical_type" where
  "PolicyRequest_type = \<lparr>ct_encode = encode_PolicyRequest, ct_decode = decode_PolicyRequest, ct_type_tag = 0x0041,
     ct_schema_version = 1, ct_max_encoded_len = 4078\<rparr>"

section \<open>Decisions and evaluation\<close>

definition MAX_EVALUATION_STEPS :: u16 where
  "MAX_EVALUATION_STEPS = word_of_nat (MAX_POLICY_RULES * (1 + MAX_POLICY_PREDICATES))"

datatype DecisionResult = Deny | Permit

fun DecisionResult_tag :: "DecisionResult \<Rightarrow> u8" where
  "DecisionResult_tag Deny = 0"
| "DecisionResult_tag Permit = 1"

definition encode_DecisionResult :: "DecisionResult \<Rightarrow> encoder \<Rightarrow> encode_error + encoder" where
  "encode_DecisionResult v e = write_u8 (DecisionResult_tag v) e"

definition decode_DecisionResult :: "decoder \<Rightarrow> decode_error + (DecisionResult \<times> decoder)" where
  "decode_DecisionResult d = and_then (read_u8 d) (\<lambda>(tag, d).
     if tag = 0 then Inr (Deny, d)
     else if tag = 1 then Inr (Permit, d)
     else Inl (InvalidEnumTag ''DecisionResult'' tag))"

record PolicyDecision =
  decision_result :: DecisionResult
  matched_permit_rules :: u8
  matched_forbid_rules :: u8
  steps_used :: u16
  decision_obligations :: "PolicyObligation list"

datatype PolicyDecisionError =
    TooManyMatchedRules
  | DecisionInvalidStepCount
  | DecisionTooManyObligations usize usize
  | ResultDoesNotMatchEffects
  | DenyHasObligations

definition combine_effects :: "bool \<Rightarrow> bool \<Rightarrow> DecisionResult" where
  "combine_effects has_permit has_forbid = (if has_permit \<and> \<not> has_forbid then Permit else Deny)"

definition PolicyDecision_new :: "PolicyDecision \<Rightarrow> PolicyDecisionError + PolicyDecision" where
  "PolicyDecision_new r =
     and_then (ok_or TooManyMatchedRules
       (checked_add_usize (unat (matched_permit_rules r)) (unat (matched_forbid_rules r))))
     (\<lambda>matched_rule_count.
      if matched_rule_count > MAX_POLICY_RULES then Inl TooManyMatchedRules
      else if steps_used r > MAX_EVALUATION_STEPS \<or> unat (steps_used r) < matched_rule_count
      then Inl DecisionInvalidStepCount
      else if length (decision_obligations r) > MAX_POLICY_OBLIGATIONS
      then Inl (DecisionTooManyObligations (length (decision_obligations r)) MAX_POLICY_OBLIGATIONS)
      else if decision_result r \<noteq>
        combine_effects (matched_permit_rules r \<noteq> 0) (matched_forbid_rules r \<noteq> 0)
      then Inl ResultDoesNotMatchEffects
      else if decision_result r = Deny \<and> decision_obligations r \<noteq> [] then Inl DenyHasObligations
      else Inr r)"

definition encode_PolicyDecision :: "PolicyDecision \<Rightarrow> encoder \<Rightarrow> encode_error + encoder" where
  "encode_PolicyDecision r e =
     and_then (encode_DecisionResult (decision_result r) e) (\<lambda>e.
     and_then (write_u8 (matched_permit_rules r) e) (\<lambda>e.
     and_then (write_u8 (matched_forbid_rules r) e) (\<lambda>e.
     and_then (write_u16 (steps_used r) e) (\<lambda>e.
     encode_vec encode_PolicyObligation MAX_POLICY_OBLIGATIONS (decision_obligations r) e))))"

fun policy_decision_decode_error :: "PolicyDecisionError \<Rightarrow> decode_error" where
  "policy_decision_decode_error TooManyMatchedRules =
     InvalidValue ''decision exceeds the matching-rule bound''"
| "policy_decision_decode_error DecisionInvalidStepCount =
     InvalidValue ''decision has an invalid evaluation-step count''"
| "policy_decision_decode_error (DecisionTooManyObligations _ _) =
     InvalidValue ''decision exceeds the obligation bound''"
| "policy_decision_decode_error ResultDoesNotMatchEffects =
     InvalidValue ''decision result does not match rule effects''"
| "policy_decision_decode_error DenyHasObligations =
     InvalidValue ''denied decision contains obligations''"

definition decode_PolicyDecision :: "decoder \<Rightarrow> decode_error + (PolicyDecision \<times> decoder)" where
  "decode_PolicyDecision d =
     and_then (decode_DecisionResult d) (\<lambda>(result, d).
     and_then (read_u8 d) (\<lambda>(permits, d).
     and_then (read_u8 d) (\<lambda>(forbids, d).
     and_then (read_u16 d) (\<lambda>(steps, d).
     and_then (decode_vec decode_PolicyObligation MAX_POLICY_OBLIGATIONS d) (\<lambda>(obls, d).
     and_then (map_err policy_decision_decode_error
       (PolicyDecision_new \<lparr>decision_result = result, matched_permit_rules = permits,
         matched_forbid_rules = forbids, steps_used = steps, decision_obligations = obls\<rparr>))
         (\<lambda>r. Inr (r, d)))))))"

definition PolicyDecision_type :: "PolicyDecision canonical_type" where
  "PolicyDecision_type = \<lparr>ct_encode = encode_PolicyDecision, ct_decode = decode_PolicyDecision, ct_type_tag = 0x0042,
     ct_schema_version = 1, ct_max_encoded_len = 8327\<rparr>"

fun predicate_matches :: "PolicyPredicate \<Rightarrow> PolicyRequest \<Rightarrow> bool" where
  "predicate_matches (ActorIs actor) q = (req_actor q = actor)"
| "predicate_matches (ActionIs action) q = (req_action q = action)"
| "predicate_matches (ResourceMatches selector) q =
     resource_is_subset_of (resource_exact (req_resource q)) selector"
| "predicate_matches (ValueAtMost maximum) q = (req_value q \<le> maximum)"
| "predicate_matches (ValueAtLeast minimum) q = (req_value q \<ge> minimum)"
| "predicate_matches (HeightAtLeast minimum) q = (req_height q \<ge> minimum)"
| "predicate_matches (HeightAtMost maximum) q = (req_height q \<le> maximum)"
| "predicate_matches (HasCredentialSchema schema) q = contains_credential_schema q schema"
| "predicate_matches (HasCapability capability) q = contains_capability q capability"
| "predicate_matches (ApprovalCountAtLeast role minimum) q = (approval_count q role \<ge> minimum)"
| "predicate_matches (FreezeStateIs state) q = (req_freeze_state q = state)"
| "predicate_matches (DeclaredPurposeIs purp) q = (declared_purpose q = Some purp)"

record evaluation =
  eval_permits :: u8
  eval_forbids :: u8
  eval_steps :: u16
  eval_obligations :: "PolicyObligation list"

fun evaluate_predicates :: "PolicyRequest \<Rightarrow> PolicyPredicate list \<Rightarrow> u16 \<Rightarrow> bool \<Rightarrow> u16 \<times> bool" where
  "evaluate_predicates q [] steps rule_matches = (steps, rule_matches)"
| "evaluate_predicates q (p # ps) steps rule_matches =
     evaluate_predicates q ps (steps + 1) (rule_matches \<and> predicate_matches p q)"

fun evaluate_rules :: "PolicyRequest \<Rightarrow> PolicyRule list \<Rightarrow> evaluation \<Rightarrow> evaluation" where
  "evaluate_rules q [] s = s"
| "evaluate_rules q (rule # rules) s =
     (let (steps, rule_matches) =
            evaluate_predicates q (rule_predicates rule) (eval_steps s + 1) True;
          s = s\<lparr>eval_steps := steps\<rparr> in
      evaluate_rules q rules
        (if rule_matches then
           case rule_effect rule of
             EffectPermit \<Rightarrow> s\<lparr>eval_permits := eval_permits s + 1,
               eval_obligations := eval_obligations s @ rule_obligations rule\<rparr>
           | EffectForbid \<Rightarrow> s\<lparr>eval_forbids := eval_forbids s + 1\<rparr>
         else s))"

definition evaluate :: "PolicySet \<Rightarrow> PolicyRequest \<Rightarrow> PolicyDecision" where
  "evaluate policy q =
     (let s = evaluate_rules q (policy_rules policy)
            \<lparr>eval_permits = 0, eval_forbids = 0, eval_steps = 0, eval_obligations = []\<rparr>;
          result = combine_effects (eval_permits s \<noteq> 0) (eval_forbids s \<noteq> 0) in
      \<lparr>decision_result = result, matched_permit_rules = eval_permits s,
       matched_forbid_rules = eval_forbids s, steps_used = eval_steps s,
       decision_obligations = (if result = Deny then [] else eval_obligations s)\<rparr>)"

section \<open>Wire formats\<close>

lemmas policy_bounds = MAX_POLICY_RULES_def MAX_POLICY_PREDICATES_def MAX_OBLIGATIONS_PER_RULE_def
  MAX_POLICY_OBLIGATIONS_def MAX_CREDENTIAL_FACTS_def MAX_CAPABILITY_FACTS_def MAX_APPROVAL_FACTS_def

fun enc_ActorBinding :: "ActorBinding \<Rightarrow> u8 list" where
  "enc_ActorBinding (ActorPrincipal x) = 0 # enc_typed_id x"
| "enc_ActorBinding (ActorPrivate x) = 1 # enc_Digest384 x"

interpretation actor_binding: canonical_codec enc_ActorBinding encode_ActorBinding decode_ActorBinding "\<lambda>_. True"
proof
  fix v xs m
  assume "length (xs @ enc_ActorBinding v) \<le> m" "m \<le> usize_max"
  then show "encode_ActorBinding v (enc_at m xs) = Inr (enc_at m (xs @ enc_ActorBinding v))"
    by (cases v) (simp_all add: codec_simps)
next
  fix v xs m e
  assume "encode_ActorBinding v (enc_at m xs) = Inr e"
  then show "e = enc_at m (xs @ enc_ActorBinding v) \<and> length (xs @ enc_ActorBinding v) \<le> m"
    by (cases v) (auto dest!: codec_dests)
next
  fix v pre rest
  assume "slice (pre @ enc_ActorBinding v @ rest)"
  then show "decode_ActorBinding (dec_at pre (enc_ActorBinding v @ rest)) = Inr (v, dec_at (pre @ enc_ActorBinding v) rest)"
    by (cases v) (simp_all add: decode_ActorBinding_def codec_simps)
qed (auto simp: decode_ActorBinding_def dest!: codec_dests split: if_splits)

lemmas [codec_simps] = actor_binding.laws
lemmas [codec_dests] = actor_binding.inversions

definition enc_PolicyEffect :: "PolicyEffect \<Rightarrow> u8 list" where
  "enc_PolicyEffect v = [PolicyEffect_tag v]"

lemma length_enc_PolicyEffect [simp]: "length (enc_PolicyEffect v) = 1"
  by (simp add: enc_PolicyEffect_def)

interpretation policy_effect: canonical_codec enc_PolicyEffect encode_PolicyEffect decode_PolicyEffect "\<lambda>_. True"
proof
  fix v pre rest
  assume "slice (pre @ enc_PolicyEffect v @ rest)"
  then show "decode_PolicyEffect (dec_at pre (enc_PolicyEffect v @ rest)) = Inr (v, dec_at (pre @ enc_PolicyEffect v) rest)"
    by (cases v) (simp_all add: enc_PolicyEffect_def decode_PolicyEffect_def codec_simps)
qed (auto simp: enc_PolicyEffect_def encode_PolicyEffect_def decode_PolicyEffect_def codec_simps dest!: codec_dests split: if_splits)

lemmas [codec_simps] = policy_effect.laws
lemmas [codec_dests] = policy_effect.inversions

definition enc_DecisionResult :: "DecisionResult \<Rightarrow> u8 list" where
  "enc_DecisionResult v = [DecisionResult_tag v]"

lemma length_enc_DecisionResult [simp]: "length (enc_DecisionResult v) = 1"
  by (simp add: enc_DecisionResult_def)

interpretation decision_result: canonical_codec enc_DecisionResult encode_DecisionResult decode_DecisionResult "\<lambda>_. True"
proof
  fix v pre rest
  assume "slice (pre @ enc_DecisionResult v @ rest)"
  then show "decode_DecisionResult (dec_at pre (enc_DecisionResult v @ rest)) = Inr (v, dec_at (pre @ enc_DecisionResult v) rest)"
    by (cases v) (simp_all add: enc_DecisionResult_def decode_DecisionResult_def codec_simps)
qed (auto simp: enc_DecisionResult_def encode_DecisionResult_def decode_DecisionResult_def codec_simps dest!: codec_dests split: if_splits)

lemmas [codec_simps] = decision_result.laws
lemmas [codec_dests] = decision_result.inversions

fun enc_PolicyPredicate :: "PolicyPredicate \<Rightarrow> u8 list" where
  "enc_PolicyPredicate (ActorIs x) = 0 # enc_ActorBinding x"
| "enc_PolicyPredicate (ActionIs x) = 1 # enc_typed_id x"
| "enc_PolicyPredicate (ResourceMatches x) = 2 # enc_ResourceSelector x"
| "enc_PolicyPredicate (ValueAtMost x) = 3 # enc_u128 x"
| "enc_PolicyPredicate (ValueAtLeast x) = 4 # enc_u128 x"
| "enc_PolicyPredicate (HeightAtLeast x) = 5 # enc_u64 x"
| "enc_PolicyPredicate (HeightAtMost x) = 6 # enc_u64 x"
| "enc_PolicyPredicate (HasCredentialSchema x) = 7 # enc_Digest384 x"
| "enc_PolicyPredicate (HasCapability x) = 8 # enc_typed_id x"
| "enc_PolicyPredicate (ApprovalCountAtLeast x0 x1) = 9 # enc_Digest384 x0 @ [x1]"
| "enc_PolicyPredicate (FreezeStateIs x) = 10 # enc_FreezeState x"
| "enc_PolicyPredicate (DeclaredPurposeIs x) = 11 # enc_Digest384 x"

fun valid_PolicyPredicate :: "PolicyPredicate \<Rightarrow> bool" where
  "valid_PolicyPredicate (ResourceMatches x) \<longleftrightarrow> (\<lambda>s. valid_ScopeSelector (resource_as_scope s)) x"
| "valid_PolicyPredicate (ApprovalCountAtLeast x0 x1) \<longleftrightarrow> \<not> (x1 = 0)"
| "valid_PolicyPredicate _ \<longleftrightarrow> True"

interpretation policy_predicate: canonical_codec enc_PolicyPredicate encode_PolicyPredicate decode_PolicyPredicate valid_PolicyPredicate
proof
  fix v xs m
  assume "valid_PolicyPredicate v" "length (xs @ enc_PolicyPredicate v) \<le> m" "m \<le> usize_max"
  then show "encode_PolicyPredicate v (enc_at m xs) = Inr (enc_at m (xs @ enc_PolicyPredicate v))"
    by (cases v) (simp_all add: codec_simps)
next
  fix v xs m e
  assume "encode_PolicyPredicate v (enc_at m xs) = Inr e"
  then show "e = enc_at m (xs @ enc_PolicyPredicate v) \<and> length (xs @ enc_PolicyPredicate v) \<le> m"
    by (cases v) (auto dest!: codec_dests)
next
  fix v pre rest
  assume "valid_PolicyPredicate v" "slice (pre @ enc_PolicyPredicate v @ rest)"
  then show "decode_PolicyPredicate (dec_at pre (enc_PolicyPredicate v @ rest)) = Inr (v, dec_at (pre @ enc_PolicyPredicate v) rest)"
    by (cases v) (simp_all add: decode_PolicyPredicate_def codec_simps)
qed (auto simp: decode_PolicyPredicate_def dest!: codec_dests split: if_splits)

lemmas [codec_simps] = policy_predicate.laws
lemmas [codec_dests] = policy_predicate.inversions

fun enc_PolicyObligation :: "PolicyObligation \<Rightarrow> u8 list" where
  "enc_PolicyObligation (DecrementCapabilityBudget x0 x1) = 0 # enc_typed_id x0 @ enc_u128 x1"
| "enc_PolicyObligation (ObligationConsumeCapability x) = 1 # enc_typed_id x"
| "enc_PolicyObligation (EmitAuditCommitment x) = 2 # enc_Digest384 x"
| "enc_PolicyObligation (RequireApproval x0 x1) = 3 # enc_Digest384 x0 @ [x1]"
| "enc_PolicyObligation (DelaySettlementUntil x) = 4 # enc_u64 x"
| "enc_PolicyObligation (RestrictOutputDisclosure x) = 5 # enc_Digest384 x"

fun valid_PolicyObligation :: "PolicyObligation \<Rightarrow> bool" where
  "valid_PolicyObligation (RequireApproval x0 x1) \<longleftrightarrow> \<not> (x1 = 0)"
| "valid_PolicyObligation _ \<longleftrightarrow> True"

interpretation policy_obligation: canonical_codec enc_PolicyObligation encode_PolicyObligation decode_PolicyObligation valid_PolicyObligation
proof
  fix v xs m
  assume "valid_PolicyObligation v" "length (xs @ enc_PolicyObligation v) \<le> m" "m \<le> usize_max"
  then show "encode_PolicyObligation v (enc_at m xs) = Inr (enc_at m (xs @ enc_PolicyObligation v))"
    by (cases v) (simp_all add: codec_simps)
next
  fix v xs m e
  assume "encode_PolicyObligation v (enc_at m xs) = Inr e"
  then show "e = enc_at m (xs @ enc_PolicyObligation v) \<and> length (xs @ enc_PolicyObligation v) \<le> m"
    by (cases v) (auto dest!: codec_dests)
next
  fix v pre rest
  assume "valid_PolicyObligation v" "slice (pre @ enc_PolicyObligation v @ rest)"
  then show "decode_PolicyObligation (dec_at pre (enc_PolicyObligation v @ rest)) = Inr (v, dec_at (pre @ enc_PolicyObligation v) rest)"
    by (cases v) (simp_all add: decode_PolicyObligation_def codec_simps)
qed (auto simp: decode_PolicyObligation_def dest!: codec_dests split: if_splits)

lemmas [codec_simps] = policy_obligation.laws
lemmas [codec_dests] = policy_obligation.inversions

definition enc_PolicyRule :: "PolicyRule \<Rightarrow> u8 list" where
  "enc_PolicyRule r = enc_PolicyEffect (rule_effect r) @ enc_length (length (rule_predicates r)) @
    enc_each enc_PolicyPredicate (rule_predicates r) @ enc_length (length (rule_obligations r)) @
    enc_each enc_PolicyObligation (rule_obligations r)"

definition valid_PolicyRule :: "PolicyRule \<Rightarrow> bool" where
  "valid_PolicyRule r \<longleftrightarrow> list_all valid_PolicyPredicate (rule_predicates r)
    \<and> list_all valid_PolicyObligation (rule_obligations r) \<and> PolicyRule_new r = Inr r"

lemma PolicyRule_new_eq_Inr: "PolicyRule_new r = Inr r' \<longleftrightarrow> r' = r \<and>
  length (rule_predicates r) \<le> 16 \<and> length (rule_obligations r) \<le> 4 \<and>
  (rule_effect r = EffectForbid \<longrightarrow> rule_obligations r = []) \<and>
  list_all (\<lambda>p. \<not> zero_approval_predicate p) (rule_predicates r) \<and>
  list_all (\<lambda>p. \<not> zero_approval_obligation p) (rule_obligations r)"
  by (auto simp: PolicyRule_new_def policy_bounds list_ex_iff list_all_iff)

interpretation policy_rule: canonical_codec enc_PolicyRule encode_PolicyRule decode_PolicyRule valid_PolicyRule
  by unfold_locales
    (auto simp: enc_PolicyRule_def encode_PolicyRule_def decode_PolicyRule_def valid_PolicyRule_def
      PolicyRule_new_eq_Inr policy_bounds MAX_BODY_LENGTH_def codec_simps dest!: codec_dests)

lemmas [codec_simps] = policy_rule.laws
lemmas [codec_dests] = policy_rule.inversions

lemma length_enc_ActorBinding [simp]: "length (enc_ActorBinding v) = 49"
  by (cases v) simp_all

lemma length_enc_PolicyPredicate: "valid_PolicyPredicate p \<Longrightarrow> length (enc_PolicyPredicate p) \<le> 52"
  using length_enc_ScopeSelector by (cases p) (auto simp: enc_ResourceSelector_def)

lemma length_enc_PolicyObligation: "valid_PolicyObligation p \<Longrightarrow> length (enc_PolicyObligation p) \<le> 65"
  by (cases p) auto

lemma length_enc_PolicyRule:
  assumes "valid_PolicyRule r"
  shows "length (enc_PolicyRule r) \<le> 1095"
proof -
  have "length (enc_each enc_PolicyPredicate (rule_predicates r)) \<le> length (rule_predicates r) * 52"
    "length (enc_each enc_PolicyObligation (rule_obligations r)) \<le> length (rule_obligations r) * 65"
    using assms length_enc_PolicyPredicate length_enc_PolicyObligation
    by (auto simp: valid_PolicyRule_def intro!: length_enc_each_le)
  then show ?thesis
    using assms by (simp add: enc_PolicyRule_def valid_PolicyRule_def PolicyRule_new_eq_Inr enc_length_small)
qed

definition enc_PolicySet :: "PolicySet \<Rightarrow> u8 list" where
  "enc_PolicySet r = enc_u16 (language_version r) @ enc_length (length (policy_rules r)) @
    enc_each enc_PolicyRule (policy_rules r)"

definition valid_PolicySet :: "PolicySet \<Rightarrow> bool" where
  "valid_PolicySet r \<longleftrightarrow> list_all valid_PolicyRule (policy_rules r) \<and>
    PolicySet_new r = Inr r"

lemma PolicySet_new_eq_Inr: "PolicySet_new s = Inr s' \<longleftrightarrow>
  s' = s \<and> language_version s = 1 \<and> length (policy_rules s) \<le> 32"
  by (auto simp: PolicySet_new_def policy_bounds APL_LANGUAGE_VERSION_def)

lemma length_enc_PolicySet:
  assumes "valid_PolicySet s"
  shows "length (enc_PolicySet s) \<le> 35043"
proof -
  have "length (enc_each enc_PolicyRule (policy_rules s)) \<le> length (policy_rules s) * 1095"
    using assms length_enc_PolicyRule by (auto simp: valid_PolicySet_def intro!: length_enc_each_le)
  then show ?thesis
    using assms by (simp add: enc_PolicySet_def valid_PolicySet_def PolicySet_new_eq_Inr enc_length_small)
qed

interpretation policy_set: bounded_envelope enc_PolicySet PolicySet_type valid_PolicySet
proof
  fix v
  assume "valid_PolicySet v"
  then show "length (enc_PolicySet v) \<le> ct_max_encoded_len PolicySet_type"
    by (simp add: PolicySet_type_def MAX_RULE_ENCODED_LEN_def policy_bounds length_enc_PolicySet)
qed (auto simp: PolicySet_type_def enc_PolicySet_def encode_PolicySet_def decode_PolicySet_def valid_PolicySet_def
    MAX_BODY_LENGTH_def PolicySet_new_eq_Inr policy_bounds MAX_RULE_ENCODED_LEN_def codec_simps dest!: codec_dests)

lemma PolicySet_type_codec [simp]: "ct_encode PolicySet_type = encode_PolicySet" "ct_decode PolicySet_type = decode_PolicySet"
  by (simp_all add: PolicySet_type_def)

lemmas [codec_simps] = policy_set.laws [simplified]
lemmas [codec_dests] = policy_set.inversions [simplified]

definition enc_ApprovalFact :: "ApprovalFact \<Rightarrow> u8 list" where
  "enc_ApprovalFact r = enc_Digest384 (fact_role r) @ [fact_count r]"

definition valid_ApprovalFact :: "ApprovalFact \<Rightarrow> bool" where
  "valid_ApprovalFact r \<longleftrightarrow> ApprovalFact_new r = Inr r"

lemma ApprovalFact_new_eq_Inr: "ApprovalFact_new f = Inr f' \<longleftrightarrow> f' = f \<and> fact_count f \<noteq> 0"
  by (auto simp: ApprovalFact_new_def)

interpretation approval_fact: canonical_codec enc_ApprovalFact encode_ApprovalFact decode_ApprovalFact valid_ApprovalFact
  by unfold_locales
    (auto simp: enc_ApprovalFact_def encode_ApprovalFact_def decode_ApprovalFact_def valid_ApprovalFact_def
      ApprovalFact_new_eq_Inr codec_simps dest!: codec_dests)

lemmas [codec_simps] = approval_fact.laws
lemmas [codec_dests] = approval_fact.inversions

definition enc_PolicyRequest :: "PolicyRequest \<Rightarrow> u8 list" where
  "enc_PolicyRequest r = enc_ActorBinding (req_actor r) @ enc_typed_id (req_action r) @
    enc_typed_id (req_resource r) @ enc_u64 (req_height r) @ enc_u128 (req_value r) @
    enc_FreezeState (req_freeze_state r) @ enc_option enc_Digest384 (declared_purpose r) @
    enc_length (length (credential_schemas r)) @ enc_each enc_Digest384 (credential_schemas r) @
    enc_length (length (req_capabilities r)) @ enc_each enc_typed_id (req_capabilities r) @
    enc_length (length (approvals r)) @ enc_each enc_ApprovalFact (approvals r)"

definition valid_PolicyRequest :: "PolicyRequest \<Rightarrow> bool" where
  "valid_PolicyRequest r \<longleftrightarrow> list_all valid_ApprovalFact (approvals r) \<and>
    PolicyRequest_new r = Inr r"

lemma PolicyRequest_new_eq_Inr: "PolicyRequest_new q = Inr q' \<longleftrightarrow> q' = q \<and>
  length (credential_schemas q) \<le> 32 \<and> length (req_capabilities q) \<le> 32 \<and> length (approvals q) \<le> 16 \<and>
  strictly_increasing (credential_schemas q) \<and> strictly_increasing (req_capabilities q) \<and>
  strictly_increasing_by fact_role (approvals q)"
  by (auto simp: PolicyRequest_new_def policy_bounds)

lemma length_enc_PolicyRequest:
  assumes "valid_PolicyRequest q"
  shows "length (enc_PolicyRequest q) \<le> 4078"
proof -
  have counts: "length (credential_schemas q) \<le> 32" "length (req_capabilities q) \<le> 32"
    "length (approvals q) \<le> 16"
    using assms by (simp_all add: valid_PolicyRequest_def PolicyRequest_new_eq_Inr)
  have "length (enc_option enc_Digest384 (declared_purpose q)) \<le> 49"
    by (rule length_enc_option_le [of _ 48, simplified]) simp
  then show ?thesis
    using counts length_enc_each_bounded [OF counts(1), of enc_Digest384 48]
      length_enc_each_bounded [OF counts(2), of enc_typed_id 48]
      length_enc_each_bounded [OF counts(3), of enc_ApprovalFact 49]
    by (simp add: enc_PolicyRequest_def enc_length_small enc_ApprovalFact_def)
qed

interpretation policy_request: bounded_envelope enc_PolicyRequest PolicyRequest_type valid_PolicyRequest
proof
  fix v
  assume "valid_PolicyRequest v"
  then show "length (enc_PolicyRequest v) \<le> ct_max_encoded_len PolicyRequest_type"
    by (simp add: PolicyRequest_type_def length_enc_PolicyRequest)
qed (auto simp: PolicyRequest_type_def enc_PolicyRequest_def encode_PolicyRequest_def decode_PolicyRequest_def valid_PolicyRequest_def
    MAX_BODY_LENGTH_def PolicyRequest_new_eq_Inr policy_bounds codec_simps dest!: codec_dests)

lemma PolicyRequest_type_codec [simp]: "ct_encode PolicyRequest_type = encode_PolicyRequest" "ct_decode PolicyRequest_type = decode_PolicyRequest"
  by (simp_all add: PolicyRequest_type_def)

lemmas [codec_simps] = policy_request.laws [simplified]
lemmas [codec_dests] = policy_request.inversions [simplified]

definition enc_PolicyDecision :: "PolicyDecision \<Rightarrow> u8 list" where
  "enc_PolicyDecision r = enc_DecisionResult (decision_result r) @ [matched_permit_rules r] @
    [matched_forbid_rules r] @ enc_u16 (steps_used r) @ enc_length (length (decision_obligations
    r)) @ enc_each enc_PolicyObligation (decision_obligations r)"

definition valid_PolicyDecision :: "PolicyDecision \<Rightarrow> bool" where
  "valid_PolicyDecision r \<longleftrightarrow> list_all valid_PolicyObligation
    (decision_obligations r) \<and> PolicyDecision_new r = Inr r"

lemma PolicyDecision_new_eq_Inr: "PolicyDecision_new r = Inr r' \<longleftrightarrow> r' = r \<and>
  unat (matched_permit_rules r) + unat (matched_forbid_rules r) \<le> 32 \<and>
  unat (steps_used r) \<le> 544 \<and>
  unat (matched_permit_rules r) + unat (matched_forbid_rules r) \<le> unat (steps_used r) \<and>
  length (decision_obligations r) \<le> 128 \<and>
  decision_result r = combine_effects (matched_permit_rules r \<noteq> 0) (matched_forbid_rules r \<noteq> 0) \<and>
  (decision_result r = Deny \<longrightarrow> decision_obligations r = [])"
  by (auto simp: PolicyDecision_new_def policy_bounds MAX_EVALUATION_STEPS_def checked_add_usize_def
      usize_max_def word_less_nat_alt not_less)

lemma length_enc_PolicyDecision:
  assumes "valid_PolicyDecision r"
  shows "length (enc_PolicyDecision r) \<le> 8327"
proof -
  have len: "length (decision_obligations r) \<le> 128"
    using assms by (simp add: valid_PolicyDecision_def PolicyDecision_new_eq_Inr)
  have "length (enc_each enc_PolicyObligation (decision_obligations r)) \<le> length (decision_obligations r) * 65"
    using assms length_enc_PolicyObligation by (auto simp: valid_PolicyDecision_def intro!: length_enc_each_le)
  moreover have "length (enc_length (length (decision_obligations r))) \<le> 2"
    using len length_uleb_le [of "length (decision_obligations r)" 2] by (simp add: enc_length_def)
  ultimately show ?thesis
    using len by (simp add: enc_PolicyDecision_def)
qed

interpretation policy_decision: bounded_envelope enc_PolicyDecision PolicyDecision_type valid_PolicyDecision
proof
  fix v
  assume "valid_PolicyDecision v"
  then show "length (enc_PolicyDecision v) \<le> ct_max_encoded_len PolicyDecision_type"
    by (simp add: PolicyDecision_type_def length_enc_PolicyDecision)
qed (auto simp: PolicyDecision_type_def enc_PolicyDecision_def encode_PolicyDecision_def decode_PolicyDecision_def valid_PolicyDecision_def
    MAX_BODY_LENGTH_def PolicyDecision_new_eq_Inr policy_bounds codec_simps dest!: codec_dests)

lemma PolicyDecision_type_codec [simp]: "ct_encode PolicyDecision_type = encode_PolicyDecision" "ct_decode PolicyDecision_type = decode_PolicyDecision"
  by (simp_all add: PolicyDecision_type_def)

lemmas [codec_simps] = policy_decision.laws [simplified]
lemmas [codec_dests] = policy_decision.inversions [simplified]

end
