(* ===== verification/Policy_Semantics.thy ===== *)
theory Policy_Semantics
  imports Policy
begin

text \<open>
  What the policy evaluator of \<^verbatim>\<open>policy-kernel/src/eval.rs\<close> computes: default deny with overriding
  forbid rules, obligations of exactly the matching permit rules, and a step count that does not
  depend on the request.
\<close>

section \<open>Meaning of predicates and rules\<close>

fun satisfies :: "PolicyRequest \<Rightarrow> PolicyPredicate \<Rightarrow> bool" where
  "satisfies q (ResourceMatches s) \<longleftrightarrow>
     into_digest (req_resource q) \<in> scope_set (resource_as_scope s)"
| "satisfies q (HasCredentialSchema schema) \<longleftrightarrow> schema \<in> set (credential_schemas q)"
| "satisfies q (HasCapability capability) \<longleftrightarrow> capability \<in> set (req_capabilities q)"
| "satisfies q (ApprovalCountAtLeast role minimum) \<longleftrightarrow>
     (\<exists>f \<in> set (approvals q). fact_role f = role \<and> minimum \<le> fact_count f)"
| "satisfies q p \<longleftrightarrow> predicate_matches p q"

definition rule_applies :: "PolicyRequest \<Rightarrow> PolicyRule \<Rightarrow> bool" where
  "rule_applies q r \<longleftrightarrow> (\<forall>p \<in> set (rule_predicates r). satisfies q p)"

definition permits :: "PolicySet \<Rightarrow> PolicyRequest \<Rightarrow> bool" where
  "permits policy q \<longleftrightarrow>
     (\<exists>r \<in> set (policy_rules policy). rule_effect r = EffectPermit \<and> rule_applies q r) \<and>
     (\<forall>r \<in> set (policy_rules policy). rule_effect r = EffectForbid \<longrightarrow> \<not> rule_applies q r)"

lemma approval_count_ge_iff:
  assumes "valid_PolicyRequest q" "minimum \<noteq> 0"
  shows "minimum \<le> approval_count q role \<longleftrightarrow>
    (\<exists>f \<in> set (approvals q). fact_role f = role \<and> minimum \<le> fact_count f)"
proof (cases "binary_search_by_key fact_role role (approvals q)")
  case None
  then have "\<forall>f \<in> set (approvals q). fact_role f \<noteq> role"
    using binary_search_lookup_None [of fact_role "approvals q" role] assms(1)
    by (auto simp: valid_PolicyRequest_def PolicyRequest_new_eq_Inr)
  then show ?thesis using None assms(2) by (auto simp: approval_count_def)
next
  case (Some i)
  have inc: "strictly_increasing_by fact_role (approvals q)"
    using assms(1) by (simp add: valid_PolicyRequest_def PolicyRequest_new_eq_Inr)
  have i: "i < length (approvals q)" "fact_role (approvals q ! i) = role"
    using Some binary_search_eq_Some_iff [OF inc] by auto
  have "f = approvals q ! i" if "f \<in> set (approvals q)" "fact_role f = role" for f
    using that i strictly_increasing_by_nth_eq_iff [OF inc] by (metis in_set_conv_nth)
  then show ?thesis using Some i by (auto simp: approval_count_def)
qed

lemma predicate_matches_iff:
  assumes "valid_PolicyRequest q" "valid_PolicyPredicate p"
  shows "predicate_matches p q \<longleftrightarrow> satisfies q p"
proof -
  have "strictly_increasing (credential_schemas q)" "strictly_increasing (req_capabilities q)"
    using assms(1) by (simp_all add: valid_PolicyRequest_def PolicyRequest_new_eq_Inr)
  note search = this [THEN binary_search_is_some_iff]
  show ?thesis
    using assms(2)
    by (cases p)
      (simp_all add: approval_count_ge_iff [OF assms(1)] resource_is_subset_of_def resource_exact_def
        scope_subset_iff contains_credential_schema_def contains_capability_def search
        del: not_None_eq)
qed

section \<open>The evaluator\<close>

lemma evaluate_predicates_eq:
  "evaluate_predicates q ps steps m =
     (steps + word_of_nat (length ps), m \<and> list_all (\<lambda>p. predicate_matches p q) ps)"
  by (induction ps arbitrary: steps m) (auto simp: algebra_simps)

abbreviation matching :: "PolicyRequest \<Rightarrow> PolicyEffect \<Rightarrow> PolicyRule list \<Rightarrow> PolicyRule list" where
  "matching q e rules \<equiv> filter (\<lambda>r. rule_effect r = e \<and> rule_applies q r) rules"

definition rule_steps :: "PolicyRule list \<Rightarrow> nat" where
  "rule_steps rules = sum_list (map (\<lambda>r. 1 + length (rule_predicates r)) rules)"

lemma list_matches_iff:
  "valid_PolicyRequest q \<Longrightarrow> valid_PolicyRule r \<Longrightarrow>
   list_all (\<lambda>p. predicate_matches p q) (rule_predicates r) \<longleftrightarrow> rule_applies q r"
  by (auto simp: rule_applies_def valid_PolicyRule_def list_all_iff predicate_matches_iff)

lemma evaluate_rules_eq:
  assumes "valid_PolicyRequest q" "list_all valid_PolicyRule rules"
  shows "evaluate_rules q rules s =
    \<lparr>eval_permits = eval_permits s + word_of_nat (length (matching q EffectPermit rules)),
     eval_forbids = eval_forbids s + word_of_nat (length (matching q EffectForbid rules)),
     eval_steps = eval_steps s + word_of_nat (rule_steps rules),
     eval_obligations = eval_obligations s
       @ concat (map rule_obligations (matching q EffectPermit rules))\<rparr>"
  using assms(2)
proof (induction rules arbitrary: s)
  case Nil
  then show ?case by (simp add: rule_steps_def)
next
  case (Cons r rules)
  then have r: "valid_PolicyRule r" and rules: "list_all valid_PolicyRule rules" by simp_all
  show ?case
    using Cons.IH [OF rules] list_matches_iff [OF assms(1) r]
    by (cases "rule_effect r")
      (auto simp: evaluate_predicates_eq rule_steps_def Let_def algebra_simps)
qed

lemma rule_steps_le:
  assumes "list_all valid_PolicyRule rules"
  shows "rule_steps rules \<le> length rules * 17"
  using assms
  by (induction rules) (auto simp: rule_steps_def valid_PolicyRule_def PolicyRule_new_eq_Inr)

lemma rule_steps_ge: "length rules \<le> rule_steps rules"
  by (induction rules) (simp_all add: rule_steps_def)

lemma matching_count_zero:
  assumes "length rules \<le> 32"
  shows "(word_of_nat (length (matching q e rules)) :: u8) = 0 \<longleftrightarrow> matching q e rules = []"
proof -
  have "length (matching q e rules) \<le> 32" by (rule order_trans [OF length_filter_le assms])
  then have "unat (word_of_nat (length (matching q e rules)) :: u8) = length (matching q e rules)"
    by (simp add: unat_of_nat)
  then show ?thesis by (metis length_0_conv unat_eq_zero)
qed

lemma matching_lengths:
  "length (matching q EffectPermit rules) + length (matching q EffectForbid rules) \<le> length rules"
  by (induction rules) auto

definition decision_of :: "PolicySet \<Rightarrow> PolicyRequest \<Rightarrow> PolicyDecision" where
  "decision_of policy q =
     \<lparr>decision_result = (if permits policy q then Permit else Deny),
      matched_permit_rules = word_of_nat (length (matching q EffectPermit (policy_rules policy))),
      matched_forbid_rules = word_of_nat (length (matching q EffectForbid (policy_rules policy))),
      steps_used = word_of_nat (rule_steps (policy_rules policy)),
      decision_obligations = (if permits policy q
        then concat (map rule_obligations (matching q EffectPermit (policy_rules policy))) else [])\<rparr>"

lemma permits_iff_matching: "permits policy q \<longleftrightarrow>
  matching q EffectPermit (policy_rules policy) \<noteq> [] \<and> matching q EffectForbid (policy_rules policy) = []"
  by (auto simp: permits_def filter_empty_conv)

lemma evaluate_eq:
  assumes "valid_PolicySet policy" "valid_PolicyRequest q"
  shows "evaluate policy q = decision_of policy q"
proof -
  let ?rules = "policy_rules policy"
  have rules: "list_all valid_PolicyRule ?rules" "length ?rules \<le> 32"
    using assms(1) by (simp_all add: valid_PolicySet_def PolicySet_new_eq_Inr)
  note zero = matching_count_zero [OF rules(2)]
  show ?thesis
    unfolding evaluate_def evaluate_rules_eq [OF assms(2) rules(1)] decision_of_def permits_iff_matching
    by (simp add: Let_def combine_effects_def zero)
qed

lemma matching_obligations:
  assumes "list_all valid_PolicyRule rules"
  shows "length (concat (map rule_obligations (matching q EffectPermit rules))) \<le> length rules * 4"
    and "list_all valid_PolicyObligation (concat (map rule_obligations (matching q EffectPermit rules)))"
  using assms by (induction rules) (auto simp: valid_PolicyRule_def PolicyRule_new_eq_Inr)

lemma decision_of_valid:
  assumes "valid_PolicySet policy"
  shows "valid_PolicyDecision (decision_of policy q)"
proof -
  let ?rules = "policy_rules policy"
  have rules: "list_all valid_PolicyRule ?rules" "length ?rules \<le> 32"
    using assms by (simp_all add: valid_PolicySet_def PolicySet_new_eq_Inr)
  have m: "length (matching q EffectPermit ?rules) + length (matching q EffectForbid ?rules) \<le> length ?rules"
    by (rule matching_lengths)
  have steps: "rule_steps ?rules \<le> 544" "length ?rules \<le> rule_steps ?rules"
    using rule_steps_le [OF rules(1)] rules(2) rule_steps_ge by auto
  have obligations: "length (concat (map rule_obligations (matching q EffectPermit ?rules))) \<le> length ?rules * 4"
    "list_all valid_PolicyObligation (concat (map rule_obligations (matching q EffectPermit ?rules)))"
    using matching_obligations [OF rules(1)] by simp_all
  have u8: "unat (word_of_nat n :: u8) = n" if "n \<le> 32" for n using that by (simp add: unat_of_nat)
  have small: "length (matching q EffectPermit ?rules) \<le> 32" "length (matching q EffectForbid ?rules) \<le> 32"
    using m rules(2) by linarith+
  have u16: "unat (word_of_nat (rule_steps ?rules) :: u16) = rule_steps ?rules"
    using steps(1) by (simp add: unat_of_nat)
  note zero = matching_count_zero [OF rules(2)]
  have counts: "length (matching q EffectPermit ?rules) + length (matching q EffectForbid ?rules) \<le> 32"
    "length (matching q EffectPermit ?rules) + length (matching q EffectForbid ?rules) \<le> rule_steps ?rules"
    using m rules(2) steps by linarith+
  show ?thesis
    unfolding valid_PolicyDecision_def PolicyDecision_new_eq_Inr decision_of_def
    using counts steps(1) obligations rules(2)
    by (simp add: u8 small u16 zero permits_iff_matching combine_effects_def)
qed

lemma decision_of_steps:
  assumes "valid_PolicySet policy"
  shows "unat (steps_used (decision_of policy q)) = rule_steps (policy_rules policy)"
proof -
  have "rule_steps (policy_rules policy) \<le> 544"
    using rule_steps_le [of "policy_rules policy"] assms
    by (auto simp: valid_PolicySet_def PolicySet_new_eq_Inr)
  then show ?thesis by (simp add: decision_of_def unat_of_nat)
qed

end
