(* ===== verification/Commitment.thy ===== *)
theory Commitment
  imports Protocol_Types
begin

text \<open>
  Domain-separated commitments over canonical bodies (\<^verbatim>\<open>protocol-commitment/src/lib.rs\<close>).  The hash
  function, SHAKE256 with 48 bytes of output, is a parameter.
\<close>

section \<open>Transcripts and commitments\<close>

definition TRANSCRIPT_PREFIX :: "u8 list" where
  "TRANSCRIPT_PREFIX = ascii ''ACTIVECHAIN-COMMITMENT''"

definition TRANSCRIPT_VERSION :: u16 where "TRANSCRIPT_VERSION = 1"

datatype DomainTag = DomainTag (as_u16: u16)

definition CANONICAL_VALUE :: DomainTag where "CANONICAL_VALUE = DomainTag 0x0001"
definition OBJECT_ID_DERIVATION :: DomainTag where "OBJECT_ID_DERIVATION = DomainTag 0x0002"
definition SIGNING_PAYLOAD :: DomainTag where "SIGNING_PAYLOAD = DomainTag 0x0003"
definition STATE_LEAF :: DomainTag where "STATE_LEAF = DomainTag 0x0004"
definition ACTION_ID :: DomainTag where "ACTION_ID = DomainTag 0x0005"
definition BLOCK_ID :: DomainTag where "BLOCK_ID = DomainTag 0x0006"
definition CREDENTIAL_ID :: DomainTag where "CREDENTIAL_ID = DomainTag 0x0007"
definition CREDENTIAL_ISSUANCE :: DomainTag where "CREDENTIAL_ISSUANCE = DomainTag 0x0008"
definition PACKAGE_ID :: DomainTag where "PACKAGE_ID = DomainTag 0x0009"
definition NATIVE_ASSET_ID :: DomainTag where "NATIVE_ASSET_ID = DomainTag 0x000a"
definition CASH_TRANSITION_ID :: DomainTag where "CASH_TRANSITION_ID = DomainTag 0x000b"
definition COIN_CELL_ID :: DomainTag where "COIN_CELL_ID = DomainTag 0x000c"
definition COIN_CELL_SET_ROOT :: DomainTag where "COIN_CELL_SET_ROOT = DomainTag 0x000d"
definition SUPPLY_ROOT :: DomainTag where "SUPPLY_ROOT = DomainTag 0x000e"
definition GENESIS_ALLOCATION_ROOT :: DomainTag where "GENESIS_ALLOCATION_ROOT = DomainTag 0x000f"
definition SHIELDED_NOTE :: DomainTag where "SHIELDED_NOTE = DomainTag 0x0010"
definition NULLIFIER :: DomainTag where "NULLIFIER = DomainTag 0x0011"
definition PRIVACY_PUBLIC_INPUTS :: DomainTag where "PRIVACY_PUBLIC_INPUTS = DomainTag 0x0012"
definition DOMAIN_PSEUDONYM :: DomainTag where "DOMAIN_PSEUDONYM = DomainTag 0x0013"
definition PRIVATE_CREDENTIAL_PRESENTATION :: DomainTag where
  "PRIVATE_CREDENTIAL_PRESENTATION = DomainTag 0x0014"
definition PRIVATE_OBJECT_TRANSITION :: DomainTag where "PRIVATE_OBJECT_TRANSITION = DomainTag 0x0015"
definition PROTECTED_ORDER_KEY :: DomainTag where "PROTECTED_ORDER_KEY = DomainTag 0x0016"

definition commitment_transcript ::
    "DomainTag \<Rightarrow> u16 \<Rightarrow> u16 \<Rightarrow> u8 list \<Rightarrow> encode_error + u8 list" where
  "commitment_transcript domain type_tag schema_version body =
     (if length body \<ge> 2 ^ 64 then Inl EncLengthOverflow
      else Inr (TRANSCRIPT_PREFIX @ to_be_bytes 2 (unat TRANSCRIPT_VERSION)
        @ to_be_bytes 2 (unat (as_u16 domain)) @ to_be_bytes 2 (unat type_tag)
        @ to_be_bytes 2 (unat schema_version) @ to_be_bytes 8 (length body) @ body))"

type_synonym hash = "u8 list \<Rightarrow> Digest384"

definition commit :: "hash \<Rightarrow> DomainTag \<Rightarrow> 'a canonical_type \<Rightarrow> 'a \<Rightarrow> encode_error + Digest384" where
  "commit shake256 domain T v =
     and_then (encode_body T v) (\<lambda>body.
     and_then (commitment_transcript domain (ct_type_tag T) (ct_schema_version T) body) (\<lambda>transcript.
     Inr (shake256 transcript)))"

text \<open>Identifiers derived from canonical values.\<close>

definition commit_id :: "hash \<Rightarrow> DomainTag \<Rightarrow> 'a canonical_type \<Rightarrow> 'a \<Rightarrow> encode_error + 'tag typed_id" where
  "commit_id shake256 domain T v = and_then (commit shake256 domain T v) (\<lambda>d. Inr (TypedId d))"

definition native_asset_id :: "hash \<Rightarrow> 'a canonical_type \<Rightarrow> 'a \<Rightarrow> encode_error + AssetId" where
  "native_asset_id shake256 T v = commit_id shake256 NATIVE_ASSET_ID T v"

definition coin_cell_id :: "hash \<Rightarrow> 'a canonical_type \<Rightarrow> 'a \<Rightarrow> encode_error + CoinCellId" where
  "coin_cell_id shake256 T v = commit_id shake256 COIN_CELL_ID T v"

definition cash_transition_id :: "hash \<Rightarrow> 'a canonical_type \<Rightarrow> 'a \<Rightarrow> encode_error + TransactionId" where
  "cash_transition_id shake256 T v = commit_id shake256 CASH_TRANSITION_ID T v"

definition coin_cell_set_root :: "hash \<Rightarrow> 'a canonical_type \<Rightarrow> 'a \<Rightarrow> encode_error + CoinCellSetRoot" where
  "coin_cell_set_root shake256 T v = commit_id shake256 COIN_CELL_SET_ROOT T v"

definition supply_root :: "hash \<Rightarrow> 'a canonical_type \<Rightarrow> 'a \<Rightarrow> encode_error + SupplyRoot" where
  "supply_root shake256 T v = commit_id shake256 SUPPLY_ROOT T v"

definition genesis_allocation_root ::
    "hash \<Rightarrow> 'a canonical_type \<Rightarrow> 'a \<Rightarrow> encode_error + GenesisAllocationRoot" where
  "genesis_allocation_root shake256 T v = commit_id shake256 GENESIS_ALLOCATION_ROOT T v"

section \<open>Binding\<close>

lemma to_be_bytes_u16 [simp]: "to_be_bytes 2 (unat (a :: u16)) = to_be_bytes 2 (unat b) \<longleftrightarrow> a = b"
  using to_be_bytes_eq_iff [of "unat a" 2 "unat b"] unat_less_pow [of a] unat_less_pow [of b]
  by (simp flip: word_unat_eq_iff)

lemma transcript_injective:
  assumes "commitment_transcript d t s body = Inr x" "commitment_transcript d' t' s' body' = Inr x"
  shows "d = d' \<and> t = t' \<and> s = s' \<and> body = body'"
  using assms
  by (cases d; cases d') (auto simp: commitment_transcript_def split: if_splits)

text \<open>
  The transcript a commitment hashes, and a collision of the hash at two given transcripts: the
  only way in which commitments to different values can agree.
\<close>

definition commitment_input :: "DomainTag \<Rightarrow> 'a canonical_type \<Rightarrow> 'a \<Rightarrow> encode_error + u8 list" where
  "commitment_input domain T v =
     and_then (encode_body T v) (commitment_transcript domain (ct_type_tag T) (ct_schema_version T))"

definition collide :: "hash \<Rightarrow> encode_error + u8 list \<Rightarrow> encode_error + u8 list \<Rightarrow> bool" where
  "collide h a b \<longleftrightarrow> (\<exists>x y. a = Inr x \<and> b = Inr y \<and> x \<noteq> y \<and> h x = h y)"

text \<open>A collision of the hash between two sets of hashed byte strings.\<close>

definition clash :: "hash \<Rightarrow> u8 list set \<Rightarrow> u8 list set \<Rightarrow> bool" where
  "clash h A B \<longleftrightarrow> (\<exists>x \<in> A. \<exists>y \<in> B. x \<noteq> y \<and> h x = h y)"

lemma no_clashD: "\<not> clash h A B \<Longrightarrow> x \<in> A \<Longrightarrow> y \<in> B \<Longrightarrow> h x = h y \<Longrightarrow> x = y"
  unfolding clash_def by blast

lemma clash_mono: "clash h A B \<Longrightarrow> A \<subseteq> A' \<Longrightarrow> B \<subseteq> B' \<Longrightarrow> clash h A' B'"
  unfolding clash_def by blast

lemma commit_eq_input:
  "commit h domain T v = and_then (commitment_input domain T v) (\<lambda>x. Inr (h x))"
  by (cases "encode_body T v") (simp_all add: commit_def commitment_input_def)

context canonical_envelope
begin

lemma commitment_input_fits:
  assumes "valid v" "length (enc v) \<le> ct_max_encoded_len T"
  shows "\<exists>x. commitment_input domain T v = Inr x"
  using encode_body_fits [OF assms] assms(2) max_le_usize
  by (simp add: commitment_input_def commitment_transcript_def usize_max_def)

lemma commitment_input_inj:
  assumes "commitment_input domain T v = Inr x" "commitment_input domain' T w = Inr x"
    "valid v" "valid w"
  shows "domain = domain' \<and> v = w"
proof -
  have v: "encode_body T v = Inr (enc v)" "length (enc v) \<le> ct_max_encoded_len T"
    and w: "encode_body T w = Inr (enc w)" "length (enc w) \<le> ct_max_encoded_len T"
    using assms(1,2) by (auto simp: commitment_input_def dest: encode_bodyD)
  then have "domain = domain'" "enc v = enc w"
    using transcript_injective assms(1,2) by (auto simp: commitment_input_def)
  then show ?thesis
    using envelope_injective [OF assms(3,4)] encode_envelope_fits [OF assms(3) v(2)]
      encode_envelope_fits [OF assms(4) w(2)] by simp
qed

end

context bounded_envelope
begin

lemma commit_total: "valid v \<Longrightarrow> \<exists>d. commit h domain T v = Inr d"
  using commitment_input_fits encoded_len_bound by (fastforce simp: commit_eq_input)

lemma commit_binds:
  assumes "valid v" "valid w" "commit h domain T v = commit h domain' T w"
  shows "domain = domain' \<and> v = w \<or>
    collide h (commitment_input domain T v) (commitment_input domain' T w)"
  using assms commitment_input_fits [OF assms(1) encoded_len_bound [OF assms(1)], of domain]
    commitment_input_fits [OF assms(2) encoded_len_bound [OF assms(2)], of domain']
    commitment_input_inj [OF _ _ assms(1,2)]
  by (auto simp: commit_eq_input collide_def)

end

end
