(* ===== verification/Transition.thy ===== *)
theory Transition
  imports Access_Manifest Policy_Semantics Commitment
begin

text \<open>
  The transfer transition (\<^verbatim>\<open>transition/src/types.rs\<close> and \<^verbatim>\<open>apply.rs\<close>): transactions, the explicit
  object state, receipts, and the atomic execution of a transaction on scratch state.
\<close>

section \<open>Transactions\<close>

definition MAX_TRANSFER_COMMANDS :: usize where "MAX_TRANSFER_COMMANDS = 32"
definition MAX_OBJECT_STATE_OBJECTS :: usize where "MAX_OBJECT_STATE_OBJECTS = 64"
definition MAX_TRANSACTION_POLICY_STEPS :: u32 where
  "MAX_TRANSACTION_POLICY_STEPS = word_of_nat MAX_TRANSFER_COMMANDS * ucast MAX_EVALUATION_STEPS"

definition TRANSFER_OBJECT_ACTION_ID :: ActionId where
  "TRANSFER_OBJECT_ACTION_ID = TypedId (digest_new (replicate 47 0 @ [1]))"

record TransferCommand =
  cmd_input :: ObjectVersionRef
  cmd_new_owner :: ObjectOwner
  cmd_control_policy :: PolicySet
  cmd_request :: PolicyRequest

definition encode_TransferCommand :: "TransferCommand \<Rightarrow> encoder \<Rightarrow> encode_error + encoder" where
  "encode_TransferCommand r e =
     and_then (encode_ObjectVersionRef (cmd_input r) e) (\<lambda>e.
     and_then (encode_ObjectOwner (cmd_new_owner r) e) (\<lambda>e.
     and_then (encode_PolicySet (cmd_control_policy r) e) (\<lambda>e.
     encode_PolicyRequest (cmd_request r) e)))"

definition decode_TransferCommand :: "decoder \<Rightarrow> decode_error + (TransferCommand \<times> decoder)" where
  "decode_TransferCommand d =
     and_then (decode_ObjectVersionRef d) (\<lambda>(inp, d).
     and_then (decode_ObjectOwner d) (\<lambda>(new_owner, d).
     and_then (decode_PolicySet d) (\<lambda>(policy, d).
     and_then (decode_PolicyRequest d) (\<lambda>(request, d).
     Inr (\<lparr>cmd_input = inp, cmd_new_owner = new_owner, cmd_control_policy = policy,
       cmd_request = request\<rparr>, d)))))"

record TransferTransaction =
  tx_height :: Height
  tx_access_manifest :: AccessManifest
  tx_commands :: "TransferCommand list"

datatype TransferTransactionError =
  EmptyCommands | TooManyCommands usize usize | CommandsNotStrictlyIncreasing

definition TransferTransaction_new ::
    "TransferTransaction \<Rightarrow> TransferTransactionError + TransferTransaction" where
  "TransferTransaction_new t =
     (if tx_commands t = [] then Inl EmptyCommands
      else if length (tx_commands t) > MAX_TRANSFER_COMMANDS
      then Inl (TooManyCommands (length (tx_commands t)) MAX_TRANSFER_COMMANDS)
      else if \<not> strictly_increasing_by (\<lambda>c. ref_object_id (cmd_input c)) (tx_commands t)
      then Inl CommandsNotStrictlyIncreasing
      else Inr t)"

definition encode_TransferTransaction :: "TransferTransaction \<Rightarrow> encoder \<Rightarrow> encode_error + encoder" where
  "encode_TransferTransaction r e =
     and_then (write_u64 (tx_height r) e) (\<lambda>e.
     and_then (encode_AccessManifest (tx_access_manifest r) e) (\<lambda>e.
     encode_vec encode_TransferCommand MAX_TRANSFER_COMMANDS (tx_commands r) e))"

definition decode_TransferTransaction :: "decoder \<Rightarrow> decode_error + (TransferTransaction \<times> decoder)" where
  "decode_TransferTransaction d =
     and_then (read_u64 d) (\<lambda>(height, d).
     and_then (decode_AccessManifest d) (\<lambda>(manifest, d).
     and_then (decode_vec decode_TransferCommand MAX_TRANSFER_COMMANDS d) (\<lambda>(commands, d).
     and_then (map_err (\<lambda>error. case error of
          EmptyCommands \<Rightarrow> InvalidValue ''transfer transaction has no commands''
        | TooManyCommands _ _ \<Rightarrow> InvalidValue ''transfer transaction exceeds its command bound''
        | CommandsNotStrictlyIncreasing \<Rightarrow> InvalidValue ''transfer commands are not strictly increasing'')
       (TransferTransaction_new \<lparr>tx_height = height, tx_access_manifest = manifest,
         tx_commands = commands\<rparr>)) (\<lambda>r. Inr (r, d)))))"

definition TransferTransaction_type :: "TransferTransaction canonical_type" where
  "TransferTransaction_type = \<lparr>ct_encode = encode_TransferTransaction, ct_decode = decode_TransferTransaction, ct_type_tag = 0x0052,
     ct_schema_version = 1, ct_max_encoded_len = 1265334\<rparr>"

section \<open>State\<close>

record ObjectState =
  state_objects :: "Object list"

datatype ObjectStateError = TooManyObjects usize usize | ObjectsNotStrictlyIncreasing

definition ObjectState_new :: "ObjectState \<Rightarrow> ObjectStateError + ObjectState" where
  "ObjectState_new s =
     (if length (state_objects s) > MAX_OBJECT_STATE_OBJECTS
      then Inl (TooManyObjects (length (state_objects s)) MAX_OBJECT_STATE_OBJECTS)
      else if \<not> strictly_increasing_by object_id (state_objects s)
      then Inl ObjectsNotStrictlyIncreasing
      else Inr s)"

definition find_object :: "ObjectState \<Rightarrow> ObjectId \<Rightarrow> Object option" where
  "find_object s oid =
     map_option (\<lambda>index. state_objects s ! index)
       (binary_search_by_key object_id oid (state_objects s))"

definition encode_ObjectState :: "ObjectState \<Rightarrow> encoder \<Rightarrow> encode_error + encoder" where
  "encode_ObjectState r e =
     encode_vec encode_Object MAX_OBJECT_STATE_OBJECTS (state_objects r) e"

definition decode_ObjectState :: "decoder \<Rightarrow> decode_error + (ObjectState \<times> decoder)" where
  "decode_ObjectState d =
     and_then (decode_vec decode_Object MAX_OBJECT_STATE_OBJECTS d) (\<lambda>(objects, d).
     and_then (map_err (\<lambda>error. case error of
          TooManyObjects _ _ \<Rightarrow> InvalidValue ''object state exceeds its object bound''
        | ObjectsNotStrictlyIncreasing \<Rightarrow> InvalidValue ''state objects are not strictly increasing'')
       (ObjectState_new \<lparr>state_objects = objects\<rparr>)) (\<lambda>r. Inr (r, d)))"

definition ObjectState_type :: "ObjectState canonical_type" where
  "ObjectState_type = \<lparr>ct_encode = encode_ObjectState, ct_decode = decode_ObjectState, ct_type_tag = 0x0054,
     ct_schema_version = 1, ct_max_encoded_len = 1078785\<rparr>"

section \<open>Receipts\<close>

datatype ReceiptResult = ReceiptSuccess | ReceiptRequestContextMismatch |
  ReceiptAccessManifestViolation | ReceiptObjectNotFound | ReceiptStaleObjectVersion |
  ReceiptControlPolicyMismatch | ReceiptAuthorizationDenied | ReceiptUnsupportedObligation |
  ReceiptImmutableObject | ReceiptTransferDisabled | ReceiptOwnerUnchanged |
  ReceiptVersionExhausted

fun ReceiptResult_tag :: "ReceiptResult \<Rightarrow> u8" where
  "ReceiptResult_tag ReceiptSuccess = 0"
| "ReceiptResult_tag ReceiptRequestContextMismatch = 1"
| "ReceiptResult_tag ReceiptAccessManifestViolation = 2"
| "ReceiptResult_tag ReceiptObjectNotFound = 3"
| "ReceiptResult_tag ReceiptStaleObjectVersion = 4"
| "ReceiptResult_tag ReceiptControlPolicyMismatch = 5"
| "ReceiptResult_tag ReceiptAuthorizationDenied = 6"
| "ReceiptResult_tag ReceiptUnsupportedObligation = 7"
| "ReceiptResult_tag ReceiptImmutableObject = 8"
| "ReceiptResult_tag ReceiptTransferDisabled = 9"
| "ReceiptResult_tag ReceiptOwnerUnchanged = 10"
| "ReceiptResult_tag ReceiptVersionExhausted = 11"

definition encode_ReceiptResult :: "ReceiptResult \<Rightarrow> encoder \<Rightarrow> encode_error + encoder" where
  "encode_ReceiptResult v e = write_u8 (ReceiptResult_tag v) e"

definition decode_ReceiptResult :: "decoder \<Rightarrow> decode_error + (ReceiptResult \<times> decoder)" where
  "decode_ReceiptResult d = and_then (read_u8 d) (\<lambda>(tag, d).
     if tag = 0 then Inr (ReceiptSuccess, d)
     else if tag = 1 then Inr (ReceiptRequestContextMismatch, d)
     else if tag = 2 then Inr (ReceiptAccessManifestViolation, d)
     else if tag = 3 then Inr (ReceiptObjectNotFound, d)
     else if tag = 4 then Inr (ReceiptStaleObjectVersion, d)
     else if tag = 5 then Inr (ReceiptControlPolicyMismatch, d)
     else if tag = 6 then Inr (ReceiptAuthorizationDenied, d)
     else if tag = 7 then Inr (ReceiptUnsupportedObligation, d)
     else if tag = 8 then Inr (ReceiptImmutableObject, d)
     else if tag = 9 then Inr (ReceiptTransferDisabled, d)
     else if tag = 10 then Inr (ReceiptOwnerUnchanged, d)
     else if tag = 11 then Inr (ReceiptVersionExhausted, d)
     else Inl (InvalidEnumTag ''ReceiptResult'' tag))"

record TransitionReceipt =
  receipt_result :: ReceiptResult
  failed_command :: "u8 option"
  objects_updated :: u8
  policy_steps :: u32
  pre_state_commitment :: Digest384
  post_state_commitment :: Digest384

datatype TransitionReceiptError =
    TooManyUpdatedObjects u8
  | TooManyPolicySteps u32
  | InvalidSuccessShape
  | InvalidFailureShape

definition TransitionReceipt_new :: "TransitionReceipt \<Rightarrow> TransitionReceiptError + TransitionReceipt" where
  "TransitionReceipt_new r =
     (if unat (objects_updated r) > MAX_TRANSFER_COMMANDS
      then Inl (TooManyUpdatedObjects (objects_updated r))
      else if policy_steps r > MAX_TRANSACTION_POLICY_STEPS
      then Inl (TooManyPolicySteps (policy_steps r))
      else if receipt_result r = ReceiptSuccess then
        if failed_command r \<noteq> None \<or> objects_updated r = 0 then Inl InvalidSuccessShape else Inr r
      else case failed_command r of
        None \<Rightarrow> Inl InvalidFailureShape
      | Some failed_index \<Rightarrow>
          if unat failed_index \<ge> MAX_TRANSFER_COMMANDS \<or> objects_updated r \<noteq> 0 \<or>
            pre_state_commitment r \<noteq> post_state_commitment r
          then Inl InvalidFailureShape else Inr r)"

definition encode_TransitionReceipt :: "TransitionReceipt \<Rightarrow> encoder \<Rightarrow> encode_error + encoder" where
  "encode_TransitionReceipt r e =
     and_then (encode_ReceiptResult (receipt_result r) e) (\<lambda>e.
     and_then (encode_option write_u8 (failed_command r) e) (\<lambda>e.
     and_then (write_u8 (objects_updated r) e) (\<lambda>e.
     and_then (write_u32 (policy_steps r) e) (\<lambda>e.
     and_then (encode_Digest384 (pre_state_commitment r) e) (\<lambda>e.
     encode_Digest384 (post_state_commitment r) e)))))"

definition decode_TransitionReceipt :: "decoder \<Rightarrow> decode_error + (TransitionReceipt \<times> decoder)" where
  "decode_TransitionReceipt d =
     and_then (decode_ReceiptResult d) (\<lambda>(result, d).
     and_then (decode_option read_u8 d) (\<lambda>(failed, d).
     and_then (read_u8 d) (\<lambda>(updated, d).
     and_then (read_u32 d) (\<lambda>(steps, d).
     and_then (decode_Digest384 d) (\<lambda>(pre, d).
     and_then (decode_Digest384 d) (\<lambda>(post, d).
     and_then (map_err (\<lambda>error. case error of
          TooManyUpdatedObjects _ \<Rightarrow> InvalidValue ''receipt exceeds the updated-object bound''
        | TooManyPolicySteps _ \<Rightarrow> InvalidValue ''receipt exceeds the policy-work bound''
        | InvalidSuccessShape \<Rightarrow> InvalidValue ''receipt has an invalid success shape''
        | InvalidFailureShape \<Rightarrow> InvalidValue ''receipt has an invalid failure shape'')
       (TransitionReceipt_new \<lparr>receipt_result = result, failed_command = failed,
         objects_updated = updated, policy_steps = steps, pre_state_commitment = pre,
         post_state_commitment = post\<rparr>)) (\<lambda>r. Inr (r, d))))))))"

definition TransitionReceipt_type :: "TransitionReceipt canonical_type" where
  "TransitionReceipt_type = \<lparr>ct_encode = encode_TransitionReceipt, ct_decode = decode_TransitionReceipt, ct_type_tag = 0x0053,
     ct_schema_version = 1, ct_max_encoded_len = 104\<rparr>"

section \<open>Execution\<close>

record TransitionOutput =
  output_state :: ObjectState
  output_receipt :: TransitionReceipt

datatype TransitionError =
    CommitmentEncoding encode_error
  | InvalidCommandIndex
  | PolicyStepOverflow
  | InvalidScratchState ObjectStateError
  | InvalidObjectResult ObjectValidationError
  | ObjectIdInvariant
  | InvalidReceipt TransitionReceiptError

definition failure_output ::
    "ObjectState \<Rightarrow> Digest384 \<Rightarrow> ReceiptResult \<Rightarrow> u8 \<Rightarrow> u32 \<Rightarrow> TransitionError + TransitionOutput" where
  "failure_output pre_state pre_commitment result failed steps =
     and_then (map_err InvalidReceipt (TransitionReceipt_new
       \<lparr>receipt_result = result, failed_command = Some failed, objects_updated = 0,
        policy_steps = steps, pre_state_commitment = pre_commitment,
        post_state_commitment = pre_commitment\<rparr>)) (\<lambda>receipt.
     Inr \<lparr>output_state = pre_state, output_receipt = receipt\<rparr>)"

text \<open>
  A command either updates the scratch state and the accumulated policy work, or makes the whole
  transaction return a failure receipt.
\<close>

datatype command_outcome =
    Updated "Object list" u32
  | Failed ReceiptResult u32

definition apply_command ::
    "hash \<Rightarrow> TransferTransaction \<Rightarrow> TransferCommand \<Rightarrow> Object list \<Rightarrow> u32
     \<Rightarrow> TransitionError + command_outcome" where
  "apply_command shake256 t c scratch steps =
     (let request = cmd_request c in
      if req_height request \<noteq> tx_height t \<or> req_action request \<noteq> TRANSFER_OBJECT_ACTION_ID \<or>
        req_resource request \<noteq> ref_object_id (cmd_input c)
      then Inr (Failed ReceiptRequestContextMismatch steps)
      else if \<not> permits_exact_write (tx_access_manifest t) (cmd_input c)
      then Inr (Failed ReceiptAccessManifestViolation steps)
      else case binary_search_by_key object_id (ref_object_id (cmd_input c)) scratch of
        None \<Rightarrow> Inr (Failed ReceiptObjectNotFound steps)
      | Some object_index \<Rightarrow>
      (let ob = scratch ! object_index in
      if object_version ob \<noteq> ref_version (cmd_input c)
      then Inr (Failed ReceiptStaleObjectVersion steps)
      else
        and_then (map_err CommitmentEncoding
          (commit shake256 CANONICAL_VALUE PolicySet_type (cmd_control_policy c))) (\<lambda>policy_commitment.
        if policy_commitment \<noteq> control_policy_hash ob
        then Inr (Failed ReceiptControlPolicyMismatch steps)
        else
          (let decision = evaluate (cmd_control_policy c) request in
          and_then (ok_or PolicyStepOverflow (checked_add steps (ucast (steps_used decision)))) (\<lambda>steps.
          if decision_result decision \<noteq> Permit then Inr (Failed ReceiptAuthorizationDenied steps)
          else if decision_obligations decision \<noteq> [] then Inr (Failed ReceiptUnsupportedObligation steps)
          else case transfer_object ob (cmd_input c) (cmd_new_owner c) of
            Inr updated \<Rightarrow> Inr (Updated (scratch[object_index := updated]) steps)
          | Inl ObjectIdMismatch \<Rightarrow> Inl ObjectIdInvariant
          | Inl (StaleObjectVersion _ _) \<Rightarrow> Inr (Failed ReceiptStaleObjectVersion steps)
          | Inl ImmutableObject \<Rightarrow> Inr (Failed ReceiptImmutableObject steps)
          | Inl TransferDisabled \<Rightarrow> Inr (Failed ReceiptTransferDisabled steps)
          | Inl OwnerUnchanged \<Rightarrow> Inr (Failed ReceiptOwnerUnchanged steps)
          | Inl VersionExhausted \<Rightarrow> Inr (Failed ReceiptVersionExhausted steps)
          | Inl (InvalidResult error) \<Rightarrow> Inl (InvalidObjectResult error))))))"

fun apply_commands ::
    "hash \<Rightarrow> ObjectState \<Rightarrow> Digest384 \<Rightarrow> TransferTransaction \<Rightarrow> (usize \<times> TransferCommand) list
     \<Rightarrow> Object list \<Rightarrow> u32 \<Rightarrow> TransitionError + (TransitionOutput + Object list \<times> u32)" where
  "apply_commands shake256 pre_state pre_commitment t [] scratch steps = Inr (Inr (scratch, steps))"
| "apply_commands shake256 pre_state pre_commitment t ((command_index, c) # rest) scratch steps =
     (if command_index \<ge> 256 then Inl InvalidCommandIndex
      else
        and_then (apply_command shake256 t c scratch steps) (\<lambda>outcome.
        case outcome of
          Failed result steps \<Rightarrow>
            and_then (failure_output pre_state pre_commitment result (word_of_nat command_index) steps)
              (\<lambda>output. Inr (Inl output))
        | Updated scratch steps \<Rightarrow>
            apply_commands shake256 pre_state pre_commitment t rest scratch steps))"

definition apply_transfer_transaction ::
    "hash \<Rightarrow> ObjectState \<Rightarrow> TransferTransaction \<Rightarrow> TransitionError + TransitionOutput" where
  "apply_transfer_transaction shake256 pre_state t =
     and_then (map_err CommitmentEncoding
       (commit shake256 CANONICAL_VALUE ObjectState_type pre_state)) (\<lambda>pre_commitment.
     and_then (apply_commands shake256 pre_state pre_commitment t (enumerate 0 (tx_commands t))
       (state_objects pre_state) 0) (\<lambda>loop.
     case loop of
       Inl output \<Rightarrow> Inr output
     | Inr (scratch, steps) \<Rightarrow>
         and_then (map_err InvalidScratchState (ObjectState_new \<lparr>state_objects = scratch\<rparr>)) (\<lambda>state.
         and_then (map_err CommitmentEncoding
           (commit shake256 CANONICAL_VALUE ObjectState_type state)) (\<lambda>post_commitment.
         and_then (if length (tx_commands t) \<ge> 256 then Inl InvalidCommandIndex
           else Inr (word_of_nat (length (tx_commands t)))) (\<lambda>updated.
         and_then (map_err InvalidReceipt (TransitionReceipt_new
           \<lparr>receipt_result = ReceiptSuccess, failed_command = None, objects_updated = updated,
            policy_steps = steps, pre_state_commitment = pre_commitment,
            post_state_commitment = post_commitment\<rparr>)) (\<lambda>receipt.
         Inr \<lparr>output_state = state, output_receipt = receipt\<rparr>))))))"

section \<open>Wire formats\<close>

lemmas transition_bounds = MAX_TRANSFER_COMMANDS_def MAX_OBJECT_STATE_OBJECTS_def

definition enc_TransferCommand :: "TransferCommand \<Rightarrow> u8 list" where
  "enc_TransferCommand r = enc_ObjectVersionRef (cmd_input r) @ enc_ObjectOwner (cmd_new_owner r)
    @ enc_PolicySet (cmd_control_policy r) @ enc_PolicyRequest (cmd_request r)"

definition valid_TransferCommand :: "TransferCommand \<Rightarrow> bool" where
  "valid_TransferCommand r \<longleftrightarrow> valid_PolicySet (cmd_control_policy r) \<and>
    valid_PolicyRequest (cmd_request r)"

interpretation transfer_command: canonical_codec enc_TransferCommand encode_TransferCommand decode_TransferCommand valid_TransferCommand
  by unfold_locales
    (auto simp: enc_TransferCommand_def encode_TransferCommand_def decode_TransferCommand_def valid_TransferCommand_def
       codec_simps dest!: codec_dests)

lemmas [codec_simps] = transfer_command.laws
lemmas [codec_dests] = transfer_command.inversions

lemma length_enc_TransferCommand:
  "valid_TransferCommand c \<Longrightarrow> length (enc_TransferCommand c) \<le> 39226"
  using length_enc_PolicySet [of "cmd_control_policy c"] length_enc_PolicyRequest [of "cmd_request c"]
    length_enc_ObjectOwner [of "cmd_new_owner c"]
  by (simp add: enc_TransferCommand_def valid_TransferCommand_def enc_ObjectVersionRef_def)

definition enc_TransferTransaction :: "TransferTransaction \<Rightarrow> u8 list" where
  "enc_TransferTransaction r = enc_u64 (tx_height r) @ enc_AccessManifest (tx_access_manifest r) @
    enc_length (length (tx_commands r)) @ enc_each enc_TransferCommand (tx_commands r)"

definition valid_TransferTransaction :: "TransferTransaction \<Rightarrow> bool" where
  "valid_TransferTransaction r \<longleftrightarrow> valid_AccessManifest (tx_access_manifest r)
    \<and> list_all valid_TransferCommand (tx_commands r) \<and> TransferTransaction_new r = Inr
    r"

lemma TransferTransaction_new_eq_Inr: "TransferTransaction_new t = Inr t' \<longleftrightarrow> t' = t \<and>
  tx_commands t \<noteq> [] \<and> length (tx_commands t) \<le> 32 \<and>
  strictly_increasing_by (\<lambda>c. ref_object_id (cmd_input c)) (tx_commands t)"
  by (auto simp: TransferTransaction_new_def transition_bounds)

lemma length_enc_TransferTransaction:
  assumes "valid_TransferTransaction t"
  shows "length (enc_TransferTransaction t) \<le> 1265334"
proof -
  have "length (enc_each enc_TransferCommand (tx_commands t)) \<le> length (tx_commands t) * 39226"
    using assms length_enc_TransferCommand
    by (auto simp: valid_TransferTransaction_def intro!: length_enc_each_le)
  moreover have "length (enc_AccessManifest (tx_access_manifest t)) \<le> 10093"
    using assms manifest.encoded_len_bound [of "tx_access_manifest t"]
    by (simp add: valid_TransferTransaction_def AccessManifest_type_def)
  ultimately show ?thesis
    using assms
    by (simp add: enc_TransferTransaction_def valid_TransferTransaction_def
        TransferTransaction_new_eq_Inr enc_length_small)
qed

interpretation transfer_transaction: bounded_envelope enc_TransferTransaction TransferTransaction_type valid_TransferTransaction
proof
  fix v
  assume "valid_TransferTransaction v"
  then show "length (enc_TransferTransaction v) \<le> ct_max_encoded_len TransferTransaction_type"
    by (simp add: TransferTransaction_type_def length_enc_TransferTransaction)
qed (auto simp: TransferTransaction_type_def enc_TransferTransaction_def encode_TransferTransaction_def decode_TransferTransaction_def valid_TransferTransaction_def
    MAX_BODY_LENGTH_def TransferTransaction_new_eq_Inr transition_bounds codec_simps dest!: codec_dests)

definition enc_ObjectState :: "ObjectState \<Rightarrow> u8 list" where
  "enc_ObjectState r = enc_length (length (state_objects r)) @ enc_each enc_Object (state_objects
    r)"

definition valid_ObjectState :: "ObjectState \<Rightarrow> bool" where
  "valid_ObjectState r \<longleftrightarrow> list_all valid_Object (state_objects r) \<and>
    ObjectState_new r = Inr r"

lemma ObjectState_new_eq_Inr: "ObjectState_new s = Inr s' \<longleftrightarrow> s' = s \<and>
  length (state_objects s) \<le> 64 \<and> strictly_increasing_by object_id (state_objects s)"
  by (auto simp: ObjectState_new_def transition_bounds)

lemma length_enc_ObjectState:
  assumes "valid_ObjectState s"
  shows "length (enc_ObjectState s) \<le> 1078785"
proof -
  have "length (enc_each enc_Object (state_objects s)) \<le> length (state_objects s) * 16856"
    using assms object.encoded_len_bound
    by (auto simp: valid_ObjectState_def Object_type_def intro!: length_enc_each_le)
  then show ?thesis
    using assms by (simp add: enc_ObjectState_def valid_ObjectState_def ObjectState_new_eq_Inr enc_length_small)
qed

interpretation object_state: bounded_envelope enc_ObjectState ObjectState_type valid_ObjectState
proof
  fix v
  assume "valid_ObjectState v"
  then show "length (enc_ObjectState v) \<le> ct_max_encoded_len ObjectState_type"
    by (simp add: ObjectState_type_def length_enc_ObjectState)
qed (auto simp: ObjectState_type_def enc_ObjectState_def encode_ObjectState_def decode_ObjectState_def valid_ObjectState_def
    MAX_BODY_LENGTH_def ObjectState_new_eq_Inr transition_bounds codec_simps dest!: codec_dests)

definition enc_ReceiptResult :: "ReceiptResult \<Rightarrow> u8 list" where
  "enc_ReceiptResult v = [ReceiptResult_tag v]"

lemma length_enc_ReceiptResult [simp]: "length (enc_ReceiptResult v) = 1"
  by (simp add: enc_ReceiptResult_def)

interpretation receipt_result: canonical_codec enc_ReceiptResult encode_ReceiptResult decode_ReceiptResult "\<lambda>_. True"
proof
  fix v pre rest
  assume "slice (pre @ enc_ReceiptResult v @ rest)"
  then show "decode_ReceiptResult (dec_at pre (enc_ReceiptResult v @ rest)) = Inr (v, dec_at (pre @ enc_ReceiptResult v) rest)"
    by (cases v) (simp_all add: enc_ReceiptResult_def decode_ReceiptResult_def codec_simps)
qed (auto simp: enc_ReceiptResult_def encode_ReceiptResult_def decode_ReceiptResult_def codec_simps dest!: codec_dests split: if_splits)

lemmas [codec_simps] = receipt_result.laws
lemmas [codec_dests] = receipt_result.inversions

definition enc_TransitionReceipt :: "TransitionReceipt \<Rightarrow> u8 list" where
  "enc_TransitionReceipt r = enc_ReceiptResult (receipt_result r) @ enc_option enc_u8
    (failed_command r) @ [objects_updated r] @ enc_u32 (policy_steps r) @ enc_Digest384
    (pre_state_commitment r) @ enc_Digest384 (post_state_commitment r)"

definition valid_TransitionReceipt :: "TransitionReceipt \<Rightarrow> bool" where
  "valid_TransitionReceipt r \<longleftrightarrow> TransitionReceipt_new r = Inr r"

lemma TransitionReceipt_new_eq_Inr: "TransitionReceipt_new r = Inr r' \<longleftrightarrow> r' = r \<and>
  unat (objects_updated r) \<le> 32 \<and> unat (policy_steps r) \<le> 17408 \<and>
  (if receipt_result r = ReceiptSuccess then failed_command r = None \<and> objects_updated r \<noteq> 0
   else (\<exists>i. failed_command r = Some i \<and> unat i < 32) \<and> objects_updated r = 0 \<and>
     pre_state_commitment r = post_state_commitment r)"
  by (auto simp: TransitionReceipt_new_def transition_bounds MAX_TRANSACTION_POLICY_STEPS_def
      MAX_EVALUATION_STEPS_def policy_bounds word_less_nat_alt not_less split: option.splits)

lemma length_enc_TransitionReceipt: "length (enc_TransitionReceipt r) \<le> 104"
  using length_enc_option_le [of enc_u8 1 "failed_command r"]
  by (simp add: enc_TransitionReceipt_def enc_u8_def)

interpretation transition_receipt: bounded_envelope enc_TransitionReceipt TransitionReceipt_type valid_TransitionReceipt
proof
  fix v
  assume "valid_TransitionReceipt v"
  then show "length (enc_TransitionReceipt v) \<le> ct_max_encoded_len TransitionReceipt_type"
    by (simp add: TransitionReceipt_type_def length_enc_TransitionReceipt)
qed (auto simp: TransitionReceipt_type_def enc_TransitionReceipt_def encode_TransitionReceipt_def decode_TransitionReceipt_def valid_TransitionReceipt_def
    MAX_BODY_LENGTH_def TransitionReceipt_new_eq_Inr codec_simps dest!: codec_dests)

end
