(* ===== verification/Transition_Correct.thy ===== *)
theory Transition_Correct
  imports Transition
begin

text \<open>
  Correctness of \<^verbatim>\<open>transition/src/apply.rs\<close> against an abstract specification: a transaction is a
  set of independent transfers, each authorized against the object it moves; all of them are
  published or none, and the transition is total on well-formed input.
\<close>

section \<open>Specification\<close>

text \<open>One command may turn an object into another.\<close>

definition transfers_to :: "hash \<Rightarrow> TransferTransaction \<Rightarrow> TransferCommand \<Rightarrow> Object \<Rightarrow> Object \<Rightarrow> bool" where
  "transfers_to h t c ob ob' \<longleftrightarrow>
     req_height (cmd_request c) = tx_height t \<and> req_action (cmd_request c) = TRANSFER_OBJECT_ACTION_ID \<and>
     req_resource (cmd_request c) = object_id ob \<and>
     cmd_input c \<in> set (exact_writes (tx_access_manifest t)) \<and>
     commit h CANONICAL_VALUE PolicySet_type (cmd_control_policy c) = Inr (control_policy_hash ob) \<and>
     permits (cmd_control_policy c) (cmd_request c) \<and>
     decision_obligations (decision_of (cmd_control_policy c) (cmd_request c)) = [] \<and>
     transfer_object ob (cmd_input c) (cmd_new_owner c) = Inr ob'"

text \<open>A sequence of commands, each applied to one object of the state.\<close>

inductive transfers :: "hash \<Rightarrow> TransferTransaction \<Rightarrow> TransferCommand list \<Rightarrow> Object list \<Rightarrow> Object list \<Rightarrow> bool"
  for h t where
  transfers_Nil: "transfers h t [] s s"
| transfers_Cons: "i < length s \<Longrightarrow> transfers_to h t c (s ! i) ob' \<Longrightarrow>
    transfers h t cs (s[i := ob']) s' \<Longrightarrow> transfers h t (c # cs) s s'"

inductive_cases transfers_NilE: "transfers h t [] s s'"
inductive_cases transfers_ConsE: "transfers h t (c # cs) s s'"

definition objects_ok :: "Object list \<Rightarrow> bool" where
  "objects_ok s \<longleftrightarrow> list_all valid_Object s \<and> length s \<le> 64 \<and> strictly_increasing_by object_id s"

lemma valid_ObjectState_iff: "valid_ObjectState s \<longleftrightarrow> objects_ok (state_objects s)"
  by (auto simp: valid_ObjectState_def objects_ok_def ObjectState_new_eq_Inr)

lemma transfers_to_object:
  assumes "transfers_to h t c ob ob'" "valid_Object ob"
  shows "ob' = ob\<lparr>object_version := object_version ob + 1, owner := cmd_new_owner c\<rparr>"
    "object_id ob = ref_object_id (cmd_input c)" "object_version ob = ref_version (cmd_input c)"
    "valid_Object ob'" "object_id ob' = object_id ob"
  using assms transfer_object_valid [OF assms(2)]
  by (auto simp: transfers_to_def transfer_object_eq_Inr [OF assms(2)])

lemma objects_ok_update:
  assumes "objects_ok s" "i < length s" "valid_Object ob'" "object_id ob' = object_id (s ! i)"
  shows "objects_ok (s[i := ob'])"
proof -
  have "map object_id (s[i := ob']) = map object_id s"
    using assms(2,4) by (simp add: map_update list_update_same_conv)
  then have "strictly_increasing_by object_id (s[i := ob'])"
    using assms(1) unfolding objects_ok_def strictly_increasing_by_iff
    by (metis sorted_wrt_map)
  moreover have "list_all valid_Object (s[i := ob'])"
    using assms set_update_subset_insert [of s i ob'] by (auto simp: objects_ok_def list_all_iff)
  ultimately show ?thesis using assms(1) by (simp add: objects_ok_def)
qed

lemma binary_search_cong_keys:
  assumes "strictly_increasing_by key xs" "map key xs = map key ys"
  shows "binary_search_by_key key k xs = binary_search_by_key key k ys"
proof -
  have ys: "strictly_increasing_by key ys" using assms strictly_increasing_by_cong_keys by blast
  have len: "length xs = length ys" using assms(2) by (metis length_map)
  have nth: "key (xs ! i) = key (ys ! i)" if "i < length ys" for i
    using that assms(2) len by (metis nth_map)
  have "binary_search_by_key key k xs = Some i \<longleftrightarrow> binary_search_by_key key k ys = Some i" for i
    using binary_search_eq_Some_iff [OF assms(1)] binary_search_eq_Some_iff [OF ys] len nth by auto
  then show ?thesis by (metis not_None_eq)
qed

section \<open>One command\<close>

definition command_ready :: "TransferTransaction \<Rightarrow> TransferCommand \<Rightarrow> Object list \<Rightarrow> u32 \<Rightarrow> bool" where
  "command_ready t c s steps \<longleftrightarrow> objects_ok s \<and> valid_TransferCommand c \<and>
     valid_AccessManifest (tx_access_manifest t) \<and> unat steps + 544 < 2 ^ 32"

lemma steps_used_le:
  assumes "valid_PolicySet p"
  shows "unat (steps_used (decision_of p q)) \<le> 544"
  using decision_of_valid [OF assms, of q] by (simp add: valid_PolicyDecision_def PolicyDecision_new_eq_Inr)

lemma steps_add:
  assumes "valid_PolicySet p" "unat (steps :: u32) + 544 < 2 ^ 32"
  obtains n where "checked_add steps (ucast (steps_used (decision_of p q))) = Some n"
    "unat n \<le> unat steps + 544"
proof
  let ?n = "ucast (steps_used (decision_of p q)) :: u32"
  have n: "unat ?n \<le> 544"
    using steps_used_le [OF assms(1), of q] by (simp only: unsigned_ucast_eq take_bit_eq_mod) simp
  then have "unat steps + unat ?n < 2 ^ 32" using assms(2) by linarith
  then show "checked_add steps ?n = Some (steps + ?n)" "unat (steps + ?n) \<le> unat steps + 544"
    using n by (simp_all add: checked_add_def unat_add_lem [THEN iffD1])
qed

lemma object_found:
  assumes "objects_ok s" "binary_search_by_key object_id oid s = Some i"
  shows "i < length s" "object_id (s ! i) = oid" "valid_Object (s ! i)"
  using assms binary_search_eq_Some_iff [of object_id s oid i]
  by (auto simp: objects_ok_def list_all_length)

lemma transfers_to_index:
  assumes "objects_ok s" "j < length s" "transfers_to h t c (s ! j) ob'"
  shows "binary_search_by_key object_id (ref_object_id (cmd_input c)) s = Some j"
proof -
  have "object_id (s ! j) = ref_object_id (cmd_input c)"
    using transfers_to_object(2) [OF assms(3)] assms by (simp add: objects_ok_def list_all_length)
  then show ?thesis
    using assms(1,2) binary_search_eq_Some_iff [of object_id s] by (simp add: objects_ok_def)
qed

lemmas policy_commit_total = bounded_envelope.commit_total [OF policy_set.bounded_envelope_axioms]
lemmas state_commit_binds = bounded_envelope.commit_binds [OF object_state.bounded_envelope_axioms]
lemmas state_commit_total = bounded_envelope.commit_total [OF object_state.bounded_envelope_axioms]

lemma transfer_object_cases:
  assumes "valid_Object ob" "object_id ob = ref_object_id input"
  obtains ob' where "transfer_object ob input o' = Inr ob'"
  | e where "transfer_object ob input o' = Inl e" "e \<noteq> ObjectIdMismatch" "\<And>x. e \<noteq> InvalidResult x"
proof (cases "transfer_object ob input o'")
  case (Inl e)
  have "e \<noteq> ObjectIdMismatch"
    using Inl assms by (auto simp: transfer_object_def and_then_eq_Inl Object_new_transferred split: if_splits)
  moreover have "e \<noteq> InvalidResult x" for x
    using Inl transfer_object_no_invalid_result [OF assms(1)] by blast
  ultimately show ?thesis using that Inl by blast
qed (use that in blast)

text \<open>Authorization of the object a command names: policy commitment, decision, transfer rule.\<close>

lemma apply_command_found:
  assumes r: "command_ready t c s steps"
    and ctx: "req_height (cmd_request c) = tx_height t" "req_action (cmd_request c) = TRANSFER_OBJECT_ACTION_ID"
      "req_resource (cmd_request c) = ref_object_id (cmd_input c)"
      "permits_exact_write (tx_access_manifest t) (cmd_input c)"
    and i: "binary_search_by_key object_id (ref_object_id (cmd_input c)) s = Some i"
  shows "\<exists>n. unat n \<le> unat steps + 544 \<and>
    ((\<exists>ob'. transfers_to h t c (s ! i) ob' \<and> apply_command h t c s steps = Inr (Updated (s[i := ob']) n)) \<or>
     (\<exists>r. apply_command h t c s steps = Inr (Failed r n) \<and> r \<noteq> ReceiptSuccess \<and>
       (\<forall>ob'. \<not> transfers_to h t c (s ! i) ob')))"
proof -
  let ?p = "cmd_control_policy c" and ?q = "cmd_request c" and ?ob = "s ! i"
  have s: "objects_ok s" and p: "valid_PolicySet ?p" and q: "valid_PolicyRequest ?q"
    and m: "valid_AccessManifest (tx_access_manifest t)" and b: "unat steps + 544 < 2 ^ 32"
    using r by (auto simp: command_ready_def valid_TransferCommand_def)
  note ob = object_found [OF s i]
  obtain d where d: "commit h CANONICAL_VALUE PolicySet_type ?p = Inr d"
    using policy_commit_total [OF p] by blast
  obtain n where n: "checked_add steps (ucast (steps_used (decision_of ?p ?q))) = Some n"
    "unat n \<le> unat steps + 544"
    using steps_add [OF p b] .
  have w: "cmd_input c \<in> set (exact_writes (tx_access_manifest t))"
    using ctx(4) permits_exact_write_iff [OF m] by simp
  note app = apply_command_def Let_def ctx i d n(1) evaluate_eq [OF p q]
  have permit: "decision_result (decision_of ?p ?q) = Permit \<longleftrightarrow> permits ?p ?q"
    by (simp add: decision_of_def)
  consider (stale) "object_version ?ob \<noteq> ref_version (cmd_input c)"
    | (denied) "object_version ?ob = ref_version (cmd_input c)"
        "d \<noteq> control_policy_hash ?ob \<or> \<not> permits ?p ?q \<or> decision_obligations (decision_of ?p ?q) \<noteq> []"
    | (allowed) "object_version ?ob = ref_version (cmd_input c)"
        "d = control_policy_hash ?ob" "permits ?p ?q" "decision_obligations (decision_of ?p ?q) = []"
    by blast
  then show ?thesis
  proof cases
    case stale
    then show ?thesis
      using transfers_to_object(3) [OF _ ob(3)] by (fastforce simp: app)
  next
    case denied
    then show ?thesis
      using n(2) by (auto simp: app permit transfers_to_def intro: exI [of _ steps] exI [of _ n])
  next
    case allowed
    note allowed [simp]
    show ?thesis
    proof (cases rule: transfer_object_cases [OF ob(3,2), of "cmd_new_owner c"])
      case (1 ob')
      then show ?thesis using n(2) by (auto simp: app permit transfers_to_def ob w)
    next
      case (2 e)
      then show ?thesis using n(2) by (cases e) (auto simp: app permit transfers_to_def)
    qed
  qed
qed

text \<open>The outcome of one command decides the specification, and no command aborts.\<close>

lemma apply_command_cases:
  assumes r: "command_ready t c s steps"
  shows "(\<exists>i ob' n. i < length s \<and> transfers_to h t c (s ! i) ob' \<and>
      apply_command h t c s steps = Inr (Updated (s[i := ob']) n) \<and> unat n \<le> unat steps + 544) \<or>
    (\<exists>r n. apply_command h t c s steps = Inr (Failed r n) \<and> r \<noteq> ReceiptSuccess \<and>
      unat n \<le> unat steps + 544 \<and> (\<forall>i < length s. \<forall>ob'. \<not> transfers_to h t c (s ! i) ob'))"
proof -
  let ?q = "cmd_request c" and ?oid = "ref_object_id (cmd_input c)"
  have s: "objects_ok s" and m: "valid_AccessManifest (tx_access_manifest t)"
    using r by (auto simp: command_ready_def)
  show ?thesis
  proof (cases "req_height ?q = tx_height t \<and> req_action ?q = TRANSFER_OBJECT_ACTION_ID \<and>
      req_resource ?q = ?oid \<and> permits_exact_write (tx_access_manifest t) (cmd_input c) \<and>
      binary_search_by_key object_id ?oid s \<noteq> None")
    case False
    then have "\<exists>r. apply_command h t c s steps = Inr (Failed r steps) \<and> r \<noteq> ReceiptSuccess"
      by (auto simp: apply_command_def Let_def)
    moreover have "\<not> transfers_to h t c (s ! i) ob'" if "i < length s" for i ob'
    proof
      assume tr: "transfers_to h t c (s ! i) ob'"
      note ix = transfers_to_index [OF s that tr]
      show False
        using False tr ix object_found [OF s ix] permits_exact_write_iff [OF m]
        by (auto simp: transfers_to_def)
    qed
    ultimately show ?thesis by fastforce
  next
    case True
    then obtain i where i: "binary_search_by_key object_id ?oid s = Some i" by blast
    obtain n where n: "unat n \<le> unat steps + 544"
      "(\<exists>ob'. transfers_to h t c (s ! i) ob' \<and> apply_command h t c s steps = Inr (Updated (s[i := ob']) n)) \<or>
       (\<exists>r. apply_command h t c s steps = Inr (Failed r n) \<and> r \<noteq> ReceiptSuccess \<and>
         (\<forall>ob'. \<not> transfers_to h t c (s ! i) ob'))"
      using apply_command_found [OF r _ _ _ _ i] True by blast
    from n(2) show ?thesis
    proof
      assume "\<exists>ob'. transfers_to h t c (s ! i) ob' \<and> apply_command h t c s steps = Inr (Updated (s[i := ob']) n)"
      then show ?thesis using n(1) object_found(1) [OF s i] by blast
    next
      assume f: "\<exists>r. apply_command h t c s steps = Inr (Failed r n) \<and> r \<noteq> ReceiptSuccess \<and>
        (\<forall>ob'. \<not> transfers_to h t c (s ! i) ob')"
      have "j = i" if "j < length s" "transfers_to h t c (s ! j) ob'" for j ob'
        using transfers_to_index [OF s that] i by simp
      then show ?thesis using f n(1) by blast
    qed
  qed
qed

section \<open>Sequences of commands\<close>

abbreviation command_object :: "TransferCommand \<Rightarrow> ObjectId" where
  "command_object c \<equiv> ref_object_id (cmd_input c)"

lemma transfers_ok:
  "transfers h t cs s s' \<Longrightarrow> objects_ok s \<Longrightarrow>
   objects_ok s' \<and> length s' = length s \<and> map object_id s' = map object_id s"
proof (induction rule: transfers.induct)
  case (transfers_Cons i s c ob' cs s')
  have ob: "valid_Object (s ! i)"
    using transfers_Cons by (simp add: objects_ok_def list_all_length)
  note new = transfers_to_object [OF transfers_Cons.hyps(2) ob]
  have "objects_ok (s[i := ob'])"
    using objects_ok_update transfers_Cons new by blast
  moreover have "map object_id (s[i := ob']) = map object_id s"
    using transfers_Cons.hyps(1) new(5) by (simp add: map_update list_update_same_conv)
  ultimately show ?case using transfers_Cons.IH by simp
qed simp

text \<open>Commands on distinct objects do not interfere: each acts on the object the state had before.\<close>

lemma transfers_effect:
  "transfers h t cs s s' \<Longrightarrow> objects_ok s \<Longrightarrow> distinct (map command_object cs) \<Longrightarrow>
   (\<forall>c \<in> set cs. \<exists>j < length s. transfers_to h t c (s ! j) (s' ! j)) \<and>
   (\<forall>j < length s. object_id (s ! j) \<notin> command_object ` set cs \<longrightarrow> s' ! j = s ! j)"
proof (induction rule: transfers.induct)
  case (transfers_Cons i s c ob' cs s')
  let ?s = "s[i := ob']"
  have ob: "valid_Object (s ! i)"
    using transfers_Cons by (simp add: objects_ok_def list_all_length)
  note new = transfers_to_object [OF transfers_Cons.hyps(2) ob]
  have ok: "objects_ok ?s"
    using objects_ok_update transfers_Cons new by blast
  note IH = transfers_Cons.IH [OF ok]
  have same: "s' ! j = ?s ! j" if "j < length s" "object_id (?s ! j) \<notin> command_object ` set cs" for j
    using IH that transfers_Cons.prems(2) by simp
  have "transfers_to h t c (s ! i) (s' ! i)"
    using same [of i] transfers_Cons.hyps(1,2) transfers_Cons.prems(2) new(2,5) by auto
  moreover have "\<exists>j < length s. transfers_to h t c' (s ! j) (s' ! j)" if c': "c' \<in> set cs" for c'
  proof -
    obtain j where j: "j < length s" "transfers_to h t c' (?s ! j) (s' ! j)"
      using IH c' transfers_Cons.prems(2) by auto
    have "valid_Object (?s ! j)" using ok j(1) by (simp add: objects_ok_def list_all_length)
    then have "object_id (?s ! j) = command_object c'" using transfers_to_object(2) [OF j(2)] by simp
    moreover have "command_object c' \<noteq> command_object c"
      using c' transfers_Cons.prems(2) by (auto simp: image_iff)
    ultimately have "j \<noteq> i" using new(2,5) transfers_Cons.hyps(1) by auto
    then show ?thesis using j by auto
  qed
  moreover have "s' ! j = s ! j" if "j < length s" "object_id (s ! j) \<notin> command_object ` set (c # cs)" for j
    using same [of j] that new(2,5) transfers_Cons.hyps(1) by (cases "j = i") auto
  ultimately show ?case using transfers_Cons.hyps(1) by auto
qed simp

lemma transfers_exists:
  "objects_ok s \<Longrightarrow> distinct (map command_object cs) \<Longrightarrow>
   (\<forall>c \<in> set cs. \<exists>j < length s. \<exists>ob'. transfers_to h t c (s ! j) ob') \<Longrightarrow> \<exists>s'. transfers h t cs s s'"
proof (induction cs arbitrary: s)
  case Nil
  show ?case by (blast intro: transfers_Nil)
next
  case (Cons c cs)
  obtain i ob' where i: "i < length s" "transfers_to h t c (s ! i) ob'"
    using Cons.prems by auto
  have ob: "valid_Object (s ! i)" using Cons.prems(1) i by (simp add: objects_ok_def list_all_length)
  note new = transfers_to_object [OF i(2) ob]
  have "objects_ok (s[i := ob'])" using objects_ok_update Cons.prems(1) i new by blast
  moreover have "\<exists>j < length (s[i := ob']). \<exists>ob''. transfers_to h t c' (s[i := ob'] ! j) ob''" if c': "c' \<in> set cs" for c'
  proof -
    obtain j ob'' where j: "j < length s" "transfers_to h t c' (s ! j) ob''"
      using Cons.prems(3) c' by auto
    have "valid_Object (s ! j)" using Cons.prems(1) j by (simp add: objects_ok_def list_all_length)
    then have "object_id (s ! j) = command_object c'" using transfers_to_object(2) [OF j(2)] by simp
    then have "j \<noteq> i" using Cons.prems(2) c' new(2) by (auto simp: image_iff)
    then have "transfers_to h t c' (s[i := ob'] ! j) ob''" using j by simp
    then show ?thesis using j(1) by auto
  qed
  ultimately obtain s' where "transfers h t cs (s[i := ob']) s'"
    using Cons.IH [of "s[i := ob']"] Cons.prems(2) by auto
  then show ?case using transfers_Cons [OF i] by blast
qed

lemma transfers_possible:
  assumes "transfers h t cs s s'" "objects_ok s" "distinct (map command_object cs)" "c \<in> set cs"
  shows "\<exists>j < length s. \<exists>ob'. transfers_to h t c (s ! j) ob'"
  using transfers_effect [OF assms(1-3)] assms(4) by blast

section \<open>Whole transactions\<close>

lemma failure_output_eq:
  assumes "r \<noteq> ReceiptSuccess" "k < 32" "unat steps \<le> 17408"
  shows "\<exists>out. failure_output pre d r (word_of_nat k) steps = Inr out \<and> output_state out = pre \<and>
    receipt_result (output_receipt out) = r \<and> valid_TransitionReceipt (output_receipt out)"
proof -
  have "unat (word_of_nat k :: u8) < 32" using assms(2) by (simp add: unat_of_nat)
  then show ?thesis
    using assms by (simp add: failure_output_def valid_TransitionReceipt_def and_then_eq_Inr
        map_err_eq_Inr TransitionReceipt_new_eq_Inr)
qed

lemma transfers_unique_step:
  assumes "objects_ok s" "i < length s" "transfers_to h t c (s ! i) ob'" "transfers h t (c # cs) s s'"
  shows "transfers h t cs (s[i := ob']) s'"
proof -
  obtain j ob'' where j: "j < length s" "transfers_to h t c (s ! j) ob''" "transfers h t cs (s[j := ob'']) s'"
    using assms(4) by (auto elim: transfers_ConsE)
  have "j = i"
    using transfers_to_index [OF assms(1) j(1,2)] transfers_to_index [OF assms(1-3)] by simp
  moreover have "ob'' = ob'" using j(2) assms(3) \<open>j = i\<close> by (simp add: transfers_to_def)
  ultimately show ?thesis using j(3) by simp
qed

lemma apply_commands_cases:
  assumes "valid_AccessManifest (tx_access_manifest t)" "objects_ok s" "list_all valid_TransferCommand cs"
    "k + length cs \<le> 32" "unat steps \<le> 544 * k"
  shows "(\<exists>s' n. apply_commands h pre d t (enumerate k cs) s steps = Inr (Inr (s', n)) \<and>
      transfers h t cs s s' \<and> unat n \<le> 544 * (k + length cs)) \<or>
    (\<exists>out. apply_commands h pre d t (enumerate k cs) s steps = Inr (Inl out) \<and> output_state out = pre \<and>
      receipt_result (output_receipt out) \<noteq> ReceiptSuccess \<and>
      valid_TransitionReceipt (output_receipt out) \<and> \<not> (\<exists>s'. transfers h t cs s s'))"
  using assms(2-5)
proof (induction cs arbitrary: s k steps)
  case Nil
  then show ?case by (auto intro: transfers_Nil)
next
  case (Cons c cs)
  have k: "k < 32" "k < 256" using Cons.prems(3) by auto
  have ready: "command_ready t c s steps"
    using Cons.prems assms(1) by (simp add: command_ready_def)
  from apply_command_cases [OF ready, of h] show ?case
  proof
    assume "\<exists>i ob' n. i < length s \<and> transfers_to h t c (s ! i) ob' \<and>
      apply_command h t c s steps = Inr (Updated (s[i := ob']) n) \<and> unat n \<le> unat steps + 544"
    then obtain i ob' n where i: "i < length s" "transfers_to h t c (s ! i) ob'"
      and app: "apply_command h t c s steps = Inr (Updated (s[i := ob']) n)" "unat n \<le> unat steps + 544"
      by blast
    have "valid_Object (s ! i)" using Cons.prems(1) i by (simp add: objects_ok_def list_all_length)
    then have "objects_ok (s[i := ob'])"
      using objects_ok_update [OF Cons.prems(1) i(1)] transfers_to_object [OF i(2)] by blast
    then have IH: "(\<exists>s' m. apply_commands h pre d t (enumerate (Suc k) cs) (s[i := ob']) n = Inr (Inr (s', m)) \<and>
        transfers h t cs (s[i := ob']) s' \<and> unat m \<le> 544 * (Suc k + length cs)) \<or>
      (\<exists>out. apply_commands h pre d t (enumerate (Suc k) cs) (s[i := ob']) n = Inr (Inl out) \<and>
        output_state out = pre \<and> receipt_result (output_receipt out) \<noteq> ReceiptSuccess \<and>
        valid_TransitionReceipt (output_receipt out) \<and> \<not> (\<exists>s'. transfers h t cs (s[i := ob']) s'))"
      using Cons.IH [of "s[i := ob']" "Suc k" n] Cons.prems app(2) by simp
    have run: "apply_commands h pre d t (enumerate k (c # cs)) s steps =
        apply_commands h pre d t (enumerate (Suc k) cs) (s[i := ob']) n"
      using app(1) k by simp
    have step: "transfers h t (c # cs) s s' \<longleftrightarrow> transfers h t cs (s[i := ob']) s'" for s'
      using transfers_Cons [OF i] transfers_unique_step [OF Cons.prems(1) i] by blast
    have len: "k + length (c # cs) = Suc k + length cs" by simp
    show ?thesis using IH unfolding run step len .
  next
    assume "\<exists>r n. apply_command h t c s steps = Inr (Failed r n) \<and> r \<noteq> ReceiptSuccess \<and>
      unat n \<le> unat steps + 544 \<and> (\<forall>i < length s. \<forall>ob'. \<not> transfers_to h t c (s ! i) ob')"
    then obtain r n where app: "apply_command h t c s steps = Inr (Failed r n)" "r \<noteq> ReceiptSuccess"
      "unat n \<le> unat steps + 544" "\<forall>i < length s. \<forall>ob'. \<not> transfers_to h t c (s ! i) ob'" by blast
    have "unat n \<le> 17408" using app(3) Cons.prems(3,4) by simp
    then obtain out where "failure_output pre d r (word_of_nat k) n = Inr out" "output_state out = pre"
      "receipt_result (output_receipt out) = r" "valid_TransitionReceipt (output_receipt out)"
      using failure_output_eq [OF app(2) k(1)] by blast
    moreover have "\<not> transfers h t (c # cs) s s'" for s'
      using app(4) by (auto elim: transfers_ConsE)
    ultimately show ?thesis using app(1,2) k by simp
  qed
qed

text \<open>
  The transition is total: it always produces a receipt, and the receipt reports success exactly
  when the commands transfer in sequence; otherwise the state is returned untouched.
\<close>

lemma apply_transfer_transaction_cases:
  assumes "valid_ObjectState pre" "valid_TransferTransaction t"
  shows "\<exists>out. apply_transfer_transaction h pre t = Inr out \<and>
    valid_ObjectState (output_state out) \<and> valid_TransitionReceipt (output_receipt out) \<and>
    (if receipt_result (output_receipt out) = ReceiptSuccess
     then transfers h t (tx_commands t) (state_objects pre) (state_objects (output_state out)) \<and>
       objects_updated (output_receipt out) = word_of_nat (length (tx_commands t))
     else output_state out = pre \<and> \<not> (\<exists>s'. transfers h t (tx_commands t) (state_objects pre) s'))"
proof -
  let ?cs = "tx_commands t" and ?s = "state_objects pre"
  have t: "valid_AccessManifest (tx_access_manifest t)" "list_all valid_TransferCommand ?cs"
    "?cs \<noteq> []" "length ?cs \<le> 32"
    using assms(2) by (auto simp: valid_TransferTransaction_def TransferTransaction_new_eq_Inr)
  have s: "objects_ok ?s" using assms(1) by (simp add: valid_ObjectState_iff)
  obtain d where d: "commit h CANONICAL_VALUE ObjectState_type pre = Inr d"
    using state_commit_total [OF assms(1)] by blast
  have loop: "(\<exists>s' n. apply_commands h pre d t (enumerate 0 ?cs) ?s 0 = Inr (Inr (s', n)) \<and>
      transfers h t ?cs ?s s' \<and> unat n \<le> 544 * length ?cs) \<or>
    (\<exists>out. apply_commands h pre d t (enumerate 0 ?cs) ?s 0 = Inr (Inl out) \<and> output_state out = pre \<and>
      receipt_result (output_receipt out) \<noteq> ReceiptSuccess \<and>
      valid_TransitionReceipt (output_receipt out) \<and> \<not> (\<exists>s'. transfers h t ?cs ?s s'))"
    using apply_commands_cases [OF t(1) s t(2), of 0 0 h pre d] t(4) by simp
  then show ?thesis
  proof (elim disjE exE conjE)
    fix s' n
    assume run: "apply_commands h pre d t (enumerate 0 ?cs) ?s 0 = Inr (Inr (s', n))"
      "transfers h t ?cs ?s s'" "unat n \<le> 544 * length ?cs"
    have post: "valid_ObjectState \<lparr>state_objects = s'\<rparr>"
      using transfers_ok [OF run(2) s] by (simp add: valid_ObjectState_iff)
    obtain d' where d': "commit h CANONICAL_VALUE ObjectState_type \<lparr>state_objects = s'\<rparr> = Inr d'"
      using state_commit_total [OF post] by blast
    let ?n = "word_of_nat (length ?cs) :: u8"
    have u: "unat ?n = length ?cs" using t(4) by (simp add: unat_of_nat)
    then have u0: "?n \<noteq> 0" using t(3) by (metis length_0_conv unat_0)
    have "ObjectState_new \<lparr>state_objects = s'\<rparr> = Inr \<lparr>state_objects = s'\<rparr>"
      using post by (simp add: valid_ObjectState_def)
    then have "apply_transfer_transaction h pre t = and_then (map_err InvalidReceipt (TransitionReceipt_new
           \<lparr>receipt_result = ReceiptSuccess, failed_command = None, objects_updated = ?n,
            policy_steps = n, pre_state_commitment = d, post_state_commitment = d'\<rparr>)) (\<lambda>receipt.
         Inr \<lparr>output_state = \<lparr>state_objects = s'\<rparr>, output_receipt = receipt\<rparr>)"
      using d d' run(1) t(4) by (simp add: apply_transfer_transaction_def)
    then show ?thesis
      using u u0 t(4) run(2,3) post
      by (simp add: TransitionReceipt_new_eq_Inr valid_TransitionReceipt_def and_then_eq_Inr map_err_eq_Inr)
  qed (use d assms(1) in \<open>simp add: apply_transfer_transaction_def\<close>)
qed

text \<open>Success is decided command by command on the state before the transaction.\<close>

definition authorized :: "hash \<Rightarrow> TransferTransaction \<Rightarrow> ObjectState \<Rightarrow> TransferCommand \<Rightarrow> bool" where
  "authorized h t pre c \<longleftrightarrow>
     (\<exists>ob ob'. find_object pre (command_object c) = Some ob \<and> transfers_to h t c ob ob')"

lemma find_object_iff:
  assumes "objects_ok (state_objects pre)"
  shows "find_object pre oid = Some ob \<longleftrightarrow> (\<exists>j < length (state_objects pre). state_objects pre ! j = ob \<and> object_id ob = oid)"
  using assms binary_search_eq_Some_iff [of object_id "state_objects pre" oid]
  by (auto simp: find_object_def objects_ok_def)

lemma authorized_iff:
  assumes "objects_ok (state_objects pre)"
  shows "authorized h t pre c \<longleftrightarrow>
    (\<exists>j < length (state_objects pre). \<exists>ob'. transfers_to h t c (state_objects pre ! j) ob')"
proof -
  have "object_id (state_objects pre ! j) = command_object c"
    if "j < length (state_objects pre)" "transfers_to h t c (state_objects pre ! j) ob'" for j ob'
    using transfers_to_object(2) [OF that(2)] that(1) assms by (simp add: objects_ok_def list_all_length)
  then show ?thesis by (auto simp: authorized_def find_object_iff [OF assms])
qed

lemma commands_distinct:
  assumes "valid_TransferTransaction t"
  shows "distinct (map command_object (tx_commands t))"
  using assms strictly_increasing_by_distinct
  by (auto simp: valid_TransferTransaction_def TransferTransaction_new_eq_Inr)

lemma transfers_iff_authorized:
  assumes "valid_ObjectState pre" "valid_TransferTransaction t"
  shows "(\<exists>s'. transfers h t (tx_commands t) (state_objects pre) s') \<longleftrightarrow>
    (\<forall>c \<in> set (tx_commands t). authorized h t pre c)"
proof -
  have s: "objects_ok (state_objects pre)" using assms(1) by (simp add: valid_ObjectState_iff)
  show ?thesis
    using transfers_possible [OF _ s commands_distinct [OF assms(2)]]
      transfers_exists [OF s commands_distinct [OF assms(2)]] authorized_iff [OF s] by metis
qed

text \<open>What a successful transaction does to every object of the state.\<close>

lemma transfers_lookup:
  assumes "valid_ObjectState pre" "valid_TransferTransaction t"
    "transfers h t (tx_commands t) (state_objects pre) (state_objects post)"
  shows "find_object post oid =
    (case find (\<lambda>c. command_object c = oid) (tx_commands t) of
       None \<Rightarrow> find_object pre oid
     | Some c \<Rightarrow> map_option (\<lambda>ob. ob\<lparr>object_version := object_version ob + 1, owner := cmd_new_owner c\<rparr>)
         (find_object pre oid))"
proof -
  let ?s = "state_objects pre" and ?s' = "state_objects post" and ?cs = "tx_commands t"
  have s: "objects_ok ?s" using assms(1) by (simp add: valid_ObjectState_iff)
  note ok = transfers_ok [OF assms(3) s]
  note eff = transfers_effect [OF assms(3) s commands_distinct [OF assms(2)]]
  have id: "object_id (?s' ! j) = object_id (?s ! j)" if "j < length ?s" for j
    using ok that by (metis nth_map)
  have ix: "binary_search_by_key object_id oid ?s' = binary_search_by_key object_id oid ?s"
    using binary_search_cong_keys [of object_id ?s ?s'] ok s by (simp add: objects_ok_def)
  show ?thesis
  proof (cases "binary_search_by_key object_id oid ?s")
    case None
    then show ?thesis using ix by (simp add: find_object_def split: option.splits)
  next
    case (Some j)
    note j = object_found [OF s Some]
    show ?thesis
    proof (cases "find (\<lambda>c. command_object c = oid) ?cs")
      case None
      then have "oid \<notin> command_object ` set ?cs" by (auto simp: find_None_iff)
      then have "?s' ! j = ?s ! j" using eff j by blast
      then show ?thesis using None Some ix by (simp add: find_object_def)
    next
      case c: (Some c)
      then have c': "c \<in> set ?cs" "command_object c = oid" by (auto simp: find_Some_iff)
      then obtain i where i: "i < length ?s" "transfers_to h t c (?s ! i) (?s' ! i)" using eff by blast
      have "i = j" using transfers_to_index [OF s i] c'(2) Some by simp
      then show ?thesis using transfers_to_object(1) [OF i(2)] j c Some ix by (simp add: find_object_def)
    qed
  qed
qed

text \<open>A transaction that succeeded cannot be applied again: its first input has become stale.\<close>

lemma transfers_replay:
  assumes "valid_ObjectState pre" "valid_TransferTransaction t" "valid_ObjectState post"
    "transfers h t (tx_commands t) (state_objects pre) (state_objects post)"
  shows "\<exists>out. apply_transfer_transaction h post t = Inr out \<and> output_state out = post \<and>
    receipt_result (output_receipt out) = ReceiptStaleObjectVersion \<and>
    failed_command (output_receipt out) = Some 0"
proof -
  let ?s = "state_objects pre" and ?s' = "state_objects post"
  have t: "tx_commands t \<noteq> []" "valid_AccessManifest (tx_access_manifest t)"
    using assms(2) by (auto simp: valid_TransferTransaction_def TransferTransaction_new_eq_Inr)
  then obtain c cs where cs: "tx_commands t = c # cs" by (cases "tx_commands t") auto
  have s: "objects_ok ?s" using assms(1) by (simp add: valid_ObjectState_iff)
  obtain j where j: "j < length ?s" "transfers_to h t c (?s ! j) (?s' ! j)"
    using transfers_effect [OF assms(4) s commands_distinct [OF assms(2)]] cs by auto
  have ob: "valid_Object (?s ! j)" using s j by (simp add: objects_ok_def list_all_length)
  note new = transfers_to_object [OF j(2) ob]
  have ix: "binary_search_by_key object_id (command_object c) ?s' = Some j"
    using binary_search_cong_keys [of object_id ?s ?s'] transfers_ok [OF assms(4) s]
      transfers_to_index [OF s j] s by (simp add: objects_ok_def)
  have "apply_command h t c ?s' 0 = Inr (Failed ReceiptStaleObjectVersion 0)"
    using j(2) new(2,3) ix permits_exact_write_iff [OF t(2)]
    by (simp add: apply_command_def transfers_to_def Let_def new(1))
  moreover obtain d where "commit h CANONICAL_VALUE ObjectState_type post = Inr d"
    using state_commit_total [OF assms(3)] by blast
  ultimately show ?thesis
    by (simp add: apply_transfer_transaction_def cs failure_output_def and_then_eq_Inr map_err_eq_Inr
        TransitionReceipt_new_eq_Inr)
qed

section \<open>Receipts\<close>

lemma failure_output_receipt:
  "failure_output pre d r k n = Inr out \<Longrightarrow> output_state out = pre \<and> post_state_commitment (output_receipt out) = d"
  by (auto simp: failure_output_def and_then_eq_Inr map_err_eq_Inr TransitionReceipt_new_eq_Inr)

lemma apply_commands_receipt:
  "apply_commands h pre d t cs s n = Inr (Inl out) \<Longrightarrow>
   output_state out = pre \<and> post_state_commitment (output_receipt out) = d"
proof (induction cs arbitrary: s n)
  case (Cons x cs)
  obtain k c where x: "x = (k, c)" by (cases x)
  obtain r where r: "apply_command h t c s n = Inr r"
    using Cons.prems x by (auto simp: and_then_eq_Inr split: if_splits)
  show ?case
    using Cons r x by (cases r) (auto simp: and_then_eq_Inr dest!: failure_output_receipt split: if_splits)
qed simp

text \<open>The post-state commitment of a receipt is the commitment of the published state.\<close>

lemma receipt_commits:
  assumes "valid_ObjectState pre" "valid_TransferTransaction t" "apply_transfer_transaction h pre t = Inr out"
  shows "commit h CANONICAL_VALUE ObjectState_type (output_state out) =
    Inr (post_state_commitment (output_receipt out))"
proof -
  obtain d where d: "commit h CANONICAL_VALUE ObjectState_type pre = Inr d"
    using state_commit_total [OF assms(1)] by blast
  obtain r where r: "apply_commands h pre d t (enumerate 0 (tx_commands t)) (state_objects pre) 0 = Inr r"
    using assms(3) d by (auto simp: apply_transfer_transaction_def and_then_eq_Inr)
  show ?thesis
  proof (cases r)
    case (Inl out')
    then show ?thesis
      using assms(3) d r apply_commands_receipt [of h pre d t] by (auto simp: apply_transfer_transaction_def)
  next
    case (Inr p)
    then show ?thesis
      using assms(3) d r
      by (cases p) (auto simp: apply_transfer_transaction_def and_then_eq_Inr map_err_eq_Inr
          ObjectState_new_eq_Inr TransitionReceipt_new_eq_Inr)
  qed
qed

end
