(* ===== verification/State_Tree.thy ===== *)
theory State_Tree
  imports Objects Commitment
begin

text \<open>
  The authenticated state tree of \<^verbatim>\<open>state-tree/src\<close>: transcripts (\<^verbatim>\<open>hash.rs\<close>), the sparse
  96-level tree over object identifiers and its witnesses (\<^verbatim>\<open>tree.rs\<close>), and bottom-up verification
  (\<^verbatim>\<open>proof.rs\<close>).  The hash \<^verbatim>\<open>SHAKE256\<close> is a parameter.
\<close>

unbundle bit_operations_syntax

section \<open>Transcripts\<close>

definition STATE_TREE_DEPTH :: usize where "STATE_TREE_DEPTH = 96"
definition STATE_TREE_ARITY :: usize where "STATE_TREE_ARITY = 16"
definition MAX_REFERENCE_STATE_OBJECTS :: usize where "MAX_REFERENCE_STATE_OBJECTS = 64"

definition state_transcript :: "u8 \<Rightarrow> u8 list" where
  "state_transcript kind = ascii ''ACTIVECHAIN-STATE-TREE'' @ to_be_bytes 2 1 @ [kind]"

definition hash_leaf :: "hash \<Rightarrow> Object \<Rightarrow> encode_error + Digest384" where
  "hash_leaf shake256 ob =
     and_then (encode_envelope Object_type ob) (\<lambda>envelope.
     if length envelope \<ge> 2 ^ 32 then Inl EncLengthOverflow
     else Inr (shake256 (state_transcript 0 @ as_bytes (into_digest (object_id ob))
       @ to_be_bytes 4 (length envelope) @ envelope)))"

definition hash_empty_leaf :: "hash \<Rightarrow> Digest384" where
  "hash_empty_leaf shake256 = shake256 (state_transcript 1)"

definition hash_node :: "hash \<Rightarrow> usize \<Rightarrow> Digest384 list \<Rightarrow> Digest384" where
  "hash_node shake256 depth children =
     shake256 (state_transcript 2 @ [word_of_nat depth] @ concat (map as_bytes children))"

definition hash_state_root :: "hash \<Rightarrow> u64 \<Rightarrow> Digest384 \<Rightarrow> Digest384" where
  "hash_state_root shake256 object_count tree_root =
     shake256 (state_transcript 3 @ to_be_bytes 8 (unat object_count) @ as_bytes tree_root)"

text \<open>The default hashes of depths \<open>96 - levels\<close> to 96, filled from the leaf upwards.\<close>

primrec empty_hashes_loop :: "hash \<Rightarrow> nat \<Rightarrow> Digest384 list" where
  "empty_hashes_loop shake256 0 = [hash_empty_leaf shake256]"
| "empty_hashes_loop shake256 (Suc levels) =
     (let hashes = empty_hashes_loop shake256 levels in
      hash_node shake256 (STATE_TREE_DEPTH - Suc levels) (replicate STATE_TREE_ARITY (hd hashes)) # hashes)"

definition empty_hashes :: "hash \<Rightarrow> Digest384 list" where
  "empty_hashes shake256 = empty_hashes_loop shake256 STATE_TREE_DEPTH"

section \<open>The tree\<close>

definition path_nibble_at :: "ObjectId \<Rightarrow> usize \<Rightarrow> u8" where
  "path_nibble_at oid depth =
     (let byte = as_bytes (into_digest oid) ! (depth div 2) in
      if depth mod 2 = 0 then drop_bit 4 byte else byte AND 0x0f)"

definition path_nibble :: "ObjectId \<Rightarrow> usize \<Rightarrow> u8 option" where
  "path_nibble oid depth =
     (if depth < STATE_TREE_DEPTH then Some (path_nibble_at oid depth) else None)"

definition partition_id :: "ObjectId \<Rightarrow> u16" where
  "partition_id oid =
     (let bytes = as_bytes (into_digest oid) in
      push_bit 4 (ucast (bytes ! 0)) OR drop_bit 4 (ucast (bytes ! 1)))"

datatype StateProofValidationError =
    WrongLevelCount usize usize
  | TooManySiblings usize
  | SiblingCountMismatch usize usize
  | PathChildEncoded usize
  | DefaultSiblingEncoded usize

datatype StateTreeError =
    TreeTooManyObjects usize usize
  | TreeObjectsNotStrictlyIncreasing
  | TreeObjectEncoding encode_error
  | TreeObjectCountOverflow
  | InvalidLeafMultiplicity
  | InvalidGeneratedProof StateProofValidationError

definition validate_objects :: "Object list \<Rightarrow> StateTreeError + unit" where
  "validate_objects objects =
     (if length objects > MAX_REFERENCE_STATE_OBJECTS
      then Inl (TreeTooManyObjects (length objects) MAX_REFERENCE_STATE_OBJECTS)
      else if \<not> strictly_increasing_by object_id objects then Inl TreeObjectsNotStrictlyIncreasing
      else Inr ())"

abbreviation sub_slice :: "'a list \<Rightarrow> usize \<Rightarrow> usize \<Rightarrow> 'a list" where
  "sub_slice xs start stop \<equiv> take (stop - start) (drop start xs)"

function advance_cursor :: "Object list \<Rightarrow> usize \<Rightarrow> usize \<Rightarrow> usize \<Rightarrow> usize" where
  "advance_cursor objects depth child cursor =
     (if cursor < length objects \<and> unat (path_nibble_at (object_id (objects ! cursor)) depth) = child
      then advance_cursor objects depth child (cursor + 1)
      else cursor)"
  by pat_completeness auto
termination
  by (relation "measure (\<lambda>(objects, depth, child, cursor). length objects - cursor)") auto

declare advance_cursor.simps [simp del]

primrec child_ranges_loop :: "Object list \<Rightarrow> usize \<Rightarrow> usize list \<Rightarrow> usize \<Rightarrow> (usize \<times> usize) list" where
  "child_ranges_loop objects depth [] cursor = []"
| "child_ranges_loop objects depth (child # rest) cursor =
     (let stop = advance_cursor objects depth child cursor in
      (cursor, stop) # child_ranges_loop objects depth rest stop)"

definition child_ranges :: "Object list \<Rightarrow> usize \<Rightarrow> (usize \<times> usize) list" where
  "child_ranges objects depth = child_ranges_loop objects depth [0..<STATE_TREE_ARITY] 0"

text \<open>A loop over an array whose body may return early with an error.\<close>

primrec try_map :: "('a \<Rightarrow> 'e + 'b) \<Rightarrow> 'a list \<Rightarrow> 'e + 'b list" where
  "try_map f [] = Inr []"
| "try_map f (x # xs) = and_then (f x) (\<lambda>y. and_then (try_map f xs) (\<lambda>ys. Inr (y # ys)))"

text \<open>
  The depth never exceeds 96 (the index into \<open>defaults\<close> would panic); the recursion ends there.
\<close>

function subtree_hash :: "hash \<Rightarrow> Object list \<Rightarrow> usize \<Rightarrow> Digest384 list \<Rightarrow> StateTreeError + Digest384" where
  "subtree_hash shake256 objects depth defaults =
     (if objects = [] then Inr (defaults ! depth)
      else if depth \<ge> STATE_TREE_DEPTH then
        if length objects \<noteq> 1 then Inl InvalidLeafMultiplicity
        else map_err TreeObjectEncoding (hash_leaf shake256 (objects ! 0))
      else
        and_then (try_map (\<lambda>(start, stop).
            if start \<noteq> stop then subtree_hash shake256 (sub_slice objects start stop) (depth + 1) defaults
            else Inr (defaults ! (depth + 1)))
          (child_ranges objects depth)) (\<lambda>children.
        Inr (hash_node shake256 depth children)))"
  by pat_completeness auto
termination
  by (relation "measure (\<lambda>(shake256, objects, depth, defaults). STATE_TREE_DEPTH - depth)") auto

declare subtree_hash.simps [simp del]

record StateCommitment =
  state_root :: Digest384
  object_count :: u64

definition commit_objects :: "hash \<Rightarrow> Object list \<Rightarrow> StateTreeError + StateCommitment" where
  "commit_objects shake256 objects =
     and_then (validate_objects objects) (\<lambda>_.
     let defaults = empty_hashes shake256 in
     and_then (subtree_hash shake256 objects 0 defaults) (\<lambda>tree_root.
     if length objects \<ge> 2 ^ 64 then Inl TreeObjectCountOverflow
     else let count = word_of_nat (length objects) in
       Inr \<lparr>state_root = hash_state_root shake256 count tree_root, object_count = count\<rparr>))"

section \<open>Proofs\<close>

datatype StateProofKind = Membership | NonMembership

record StateProofLevel =
  sibling_bitmap :: u16
  siblings :: "Digest384 list"

definition count_ones :: "u16 \<Rightarrow> usize" where
  "count_ones w = length (filter (bit w) [0..<16])"

definition StateProofLevel_new :: "StateProofLevel \<Rightarrow> StateProofValidationError + StateProofLevel" where
  "StateProofLevel_new l =
     (let expected = count_ones (sibling_bitmap l) in
      if expected > STATE_TREE_ARITY - 1 then Inl (TooManySiblings expected)
      else if length (siblings l) \<noteq> expected then Inl (SiblingCountMismatch expected (length (siblings l)))
      else Inr l)"

record StateProof =
  proof_kind :: StateProofKind
  proof_object_id :: ObjectId
  proof_levels :: "StateProofLevel list"

primrec validate_levels ::
    "Digest384 list \<Rightarrow> ObjectId \<Rightarrow> (usize \<times> StateProofLevel) list \<Rightarrow> StateProofValidationError + unit" where
  "validate_levels defaults oid [] = Inr ()"
| "validate_levels defaults oid (entry # rest) =
     (let (depth, level) = entry;
          path_child = unat (path_nibble_at oid depth);
          path_bit = push_bit path_child 1 in
      if sibling_bitmap level AND path_bit \<noteq> 0 then Inl (PathChildEncoded depth)
      else if length (siblings level) \<noteq> count_ones (sibling_bitmap level)
      then Inl (SiblingCountMismatch (count_ones (sibling_bitmap level)) (length (siblings level)))
      else if list_ex (\<lambda>sibling. sibling = defaults ! (depth + 1)) (siblings level)
      then Inl (DefaultSiblingEncoded depth)
      else validate_levels defaults oid rest)"

definition StateProof_new :: "hash \<Rightarrow> StateProof \<Rightarrow> StateProofValidationError + StateProof" where
  "StateProof_new shake256 p =
     (if length (proof_levels p) \<noteq> STATE_TREE_DEPTH
      then Inl (WrongLevelCount (length (proof_levels p)) STATE_TREE_DEPTH)
      else and_then (validate_levels (empty_hashes shake256) (proof_object_id p)
          (enumerate 0 (proof_levels p))) (\<lambda>_.
        Inr p))"

primrec collect_siblings ::
    "hash \<Rightarrow> Object list \<Rightarrow> usize \<Rightarrow> usize \<Rightarrow> Digest384 list \<Rightarrow> (usize \<times> usize \<times> usize) list
     \<Rightarrow> u16 \<Rightarrow> Digest384 list \<Rightarrow> StateTreeError + u16 \<times> Digest384 list" where
  "collect_siblings shake256 current depth path_child defaults [] bitmap sibs = Inr (bitmap, sibs)"
| "collect_siblings shake256 current depth path_child defaults (entry # rest) bitmap sibs =
     (let (child, start, stop) = entry in
      if child = path_child \<or> start = stop
      then collect_siblings shake256 current depth path_child defaults rest bitmap sibs
      else
        and_then (subtree_hash shake256 (sub_slice current start stop) (depth + 1) defaults) (\<lambda>sibling.
        if sibling \<noteq> defaults ! (depth + 1)
        then collect_siblings shake256 current depth path_child defaults rest
          (bitmap OR push_bit child 1) (sibs @ [sibling])
        else collect_siblings shake256 current depth path_child defaults rest bitmap sibs))"

primrec prove_levels ::
    "hash \<Rightarrow> ObjectId \<Rightarrow> Digest384 list \<Rightarrow> usize list \<Rightarrow> Object list \<Rightarrow> StateProofLevel list
     \<Rightarrow> StateTreeError + Object list \<times> StateProofLevel list" where
  "prove_levels shake256 oid defaults [] current levels = Inr (current, levels)"
| "prove_levels shake256 oid defaults (depth # depths) current levels =
     (let ranges = child_ranges current depth;
          path_child = unat (path_nibble_at oid depth) in
      and_then (collect_siblings shake256 current depth path_child defaults (enumerate 0 ranges) 0 [])
        (\<lambda>(bitmap, sibs).
      and_then (map_err InvalidGeneratedProof
        (StateProofLevel_new \<lparr>sibling_bitmap = bitmap, siblings = sibs\<rparr>)) (\<lambda>level.
      let (start, stop) = ranges ! path_child in
      prove_levels shake256 oid defaults depths (sub_slice current start stop) (levels @ [level]))))"

definition prove_object :: "hash \<Rightarrow> Object list \<Rightarrow> ObjectId \<Rightarrow> StateTreeError + StateProof" where
  "prove_object shake256 objects oid =
     and_then (validate_objects objects) (\<lambda>_.
     let defaults = empty_hashes shake256 in
     and_then (prove_levels shake256 oid defaults [0..<STATE_TREE_DEPTH] objects []) (\<lambda>(current, levels).
     let kind = (if length current = 1 \<and> object_id (current ! 0) = oid then Membership else NonMembership) in
     map_err InvalidGeneratedProof (StateProof_new shake256
       \<lparr>proof_kind = kind, proof_object_id = oid, proof_levels = levels\<rparr>)))"

section \<open>Verification and update\<close>

text \<open>The children of a level: the encoded siblings in ascending position, the default elsewhere.\<close>

primrec place_siblings :: "StateProofLevel \<Rightarrow> Digest384 \<Rightarrow> usize list \<Rightarrow> usize \<Rightarrow> Digest384 list" where
  "place_siblings level default_hash [] sibling_index = []"
| "place_siblings level default_hash (child # rest) sibling_index =
     (if sibling_bitmap level AND push_bit child 1 \<noteq> 0
      then siblings level ! sibling_index # place_siblings level default_hash rest (sibling_index + 1)
      else default_hash # place_siblings level default_hash rest sibling_index)"

primrec reconstruct_loop :: "hash \<Rightarrow> Digest384 list \<Rightarrow> StateProof \<Rightarrow> usize list \<Rightarrow> Digest384 \<Rightarrow> Digest384" where
  "reconstruct_loop shake256 defaults p [] accumulator = accumulator"
| "reconstruct_loop shake256 defaults p (depth # depths) accumulator =
     (let level = proof_levels p ! depth;
          path_child = unat (path_nibble_at (proof_object_id p) depth);
          children = place_siblings level (defaults ! (depth + 1)) [0..<STATE_TREE_ARITY] 0 in
      reconstruct_loop shake256 defaults p depths
        (hash_node shake256 depth (children[path_child := accumulator])))"

definition reconstruct_tree_root :: "hash \<Rightarrow> StateProof \<Rightarrow> Digest384 \<Rightarrow> Digest384" where
  "reconstruct_tree_root shake256 p accumulator =
     reconstruct_loop shake256 (empty_hashes shake256) p (rev [0..<STATE_TREE_DEPTH]) accumulator"

datatype StateProofVerificationError =
    WrongProofKind
  | ProofObjectIdMismatch
  | ProofObjectEncoding encode_error
  | RootMismatch

datatype StateProofUpdateError =
    InvalidPreState StateProofVerificationError
  | AfterObjectIdMismatch
  | UpdateObjectEncoding encode_error
  | UpdateObjectCountOverflow
  | UpdateObjectCountUnderflow

definition verify_fold ::
    "hash \<Rightarrow> StateCommitment \<Rightarrow> StateProof \<Rightarrow> Digest384 \<Rightarrow> StateProofVerificationError + unit" where
  "verify_fold shake256 c p accumulator =
     (let accumulator = reconstruct_tree_root shake256 p accumulator;
          root = hash_state_root shake256 (object_count c) accumulator in
      if root = state_root c then Inr () else Inl RootMismatch)"

definition verify_membership ::
    "hash \<Rightarrow> StateCommitment \<Rightarrow> Object \<Rightarrow> StateProof \<Rightarrow> StateProofVerificationError + unit" where
  "verify_membership shake256 c ob p =
     (if proof_kind p \<noteq> Membership then Inl WrongProofKind
      else if proof_object_id p \<noteq> object_id ob then Inl ProofObjectIdMismatch
      else and_then (map_err ProofObjectEncoding (hash_leaf shake256 ob)) (verify_fold shake256 c p))"

definition verify_non_membership ::
    "hash \<Rightarrow> StateCommitment \<Rightarrow> ObjectId \<Rightarrow> StateProof \<Rightarrow> StateProofVerificationError + unit" where
  "verify_non_membership shake256 c oid p =
     (if proof_kind p \<noteq> NonMembership then Inl WrongProofKind
      else if proof_object_id p \<noteq> oid then Inl ProofObjectIdMismatch
      else verify_fold shake256 c p (empty_hashes shake256 ! STATE_TREE_DEPTH))"

definition apply_single_key_update ::
    "hash \<Rightarrow> StateCommitment \<Rightarrow> StateProof \<Rightarrow> Object option \<Rightarrow> Object option
     \<Rightarrow> StateProofUpdateError + StateCommitment" where
  "apply_single_key_update shake256 c p before after =
     and_then (map_err InvalidPreState (case before of
         Some ob \<Rightarrow> verify_membership shake256 c ob p
       | None \<Rightarrow> verify_non_membership shake256 c (proof_object_id p) p)) (\<lambda>_.
     if is_some_and (\<lambda>ob. object_id ob \<noteq> proof_object_id p) after then Inl AfterObjectIdMismatch
     else
       and_then (case (before, after) of
           (None, Some _) \<Rightarrow> ok_or UpdateObjectCountOverflow (checked_add (object_count c) 1)
         | (Some _, None) \<Rightarrow> ok_or UpdateObjectCountUnderflow (checked_sub (object_count c) 1)
         | _ \<Rightarrow> Inr (object_count c)) (\<lambda>count.
       and_then (case after of
           Some ob \<Rightarrow> map_err UpdateObjectEncoding (hash_leaf shake256 ob)
         | None \<Rightarrow> Inr (empty_hashes shake256 ! STATE_TREE_DEPTH)) (\<lambda>replacement_leaf.
       let tree_root = reconstruct_tree_root shake256 p replacement_leaf in
       Inr \<lparr>state_root = hash_state_root shake256 count tree_root, object_count = count\<rparr>)))"

end
