(* ===== verification/State_Tree_Spec.thy ===== *)
theory State_Tree_Spec
  imports State_Tree
begin

text \<open>
  What the state tree commits to: a Merkle tree over the nibbles of object identifiers, written
  without the shortcuts of \<^verbatim>\<open>tree.rs\<close> for empty subtrees, contiguous ranges and default siblings.
  \<open>subtree_hash\<close> and \<open>reconstruct_tree_root\<close> compute it.
\<close>

section \<open>Paths\<close>

abbreviation nibble :: "ObjectId \<Rightarrow> nat \<Rightarrow> nat" where
  "nibble oid depth \<equiv> unat (path_nibble_at oid depth)"

definition key_prefix :: "ObjectId \<Rightarrow> nat \<Rightarrow> nat" where
  "key_prefix oid depth = unat (into_digest oid) div 16 ^ (96 - depth)"

lemma to_be_bytes_nth:
  "i < n \<Longrightarrow> unat (to_be_bytes n x ! i) = x div 256 ^ (n - 1 - i) mod 256"
proof (induction n arbitrary: x)
  case (Suc n)
  show ?case
  proof (cases "i < n")
    case True
    then have "256 * 256 ^ (n - 1 - i) = (256 :: nat) ^ (n - i)"
      by (metis Suc_diff_1 Suc_diff_Suc diff_Suc_eq_diff_pred power_Suc zero_less_diff)
    then show ?thesis using Suc True by (simp add: nth_append div_mult2_eq [symmetric])
  next
    case False
    then have "i = n" using Suc.prems by simp
    then show ?thesis by (simp add: nth_append unat_of_nat)
  qed
qed simp

lemma and_low_nibble: "unat ((b :: u8) AND 15) = unat b mod 16"
proof -
  have "b AND 15 = take_bit 4 b" by (simp add: take_bit_eq_mask mask_eq_exp_minus_1)
  then show ?thesis by (simp add: take_bit_eq_mod unat_mod)
qed

lemma nibble_eq:
  assumes "d < 96"
  shows "nibble oid d = unat (into_digest oid) div 16 ^ (95 - d) mod 16"
proof -
  let ?x = "unat (into_digest oid)"
  have i: "d div 2 < 48" using assms by simp
  have byte: "unat (as_bytes (into_digest oid) ! (d div 2)) = ?x div 256 ^ (47 - d div 2) mod 256"
    using to_be_bytes_nth [OF i] by (simp add: as_bytes_def DIGEST_LENGTH_def)
  have pow: "(256 :: nat) ^ n = 16 ^ (2 * n)" for n by (simp add: power_mult)
  show ?thesis
  proof (cases "d mod 2 = 0")
    case True
    then have e: "95 - d = Suc (2 * (47 - d div 2))" using assms by presburger
    have "nibble oid d = ?x div 256 ^ (47 - d div 2) mod 256 div 16"
      using True byte by (simp add: path_nibble_at_def drop_bit_eq_div unat_div)
    also have "\<dots> = ?x div 256 ^ (47 - d div 2) div 16 mod 16"
      by (simp add: mod_mult2_eq [of _ 16 16, simplified])
    also have "\<dots> = ?x div 16 ^ (95 - d) mod 16"
      unfolding e pow power_Suc2 by (simp only: div_mult2_eq)
    finally show ?thesis .
  next
    case False
    then have e: "95 - d = 2 * (47 - d div 2)" using assms by presburger
    have "nibble oid d = ?x div 256 ^ (47 - d div 2) mod 256 mod 16"
      using False byte and_low_nibble by (simp add: path_nibble_at_def)
    then show ?thesis by (simp add: e pow mod_mod_cancel)
  qed
qed

lemma nibble_less [simp]: "d < 96 \<Longrightarrow> nibble oid d < STATE_TREE_ARITY"
  by (simp add: nibble_eq STATE_TREE_ARITY_def)

lemma key_prefix_0 [simp]: "key_prefix oid 0 = 0"
  using unat_less_pow [of "into_digest oid"] by (simp add: key_prefix_def)

lemma key_prefix_Suc: "d < 96 \<Longrightarrow> key_prefix oid (Suc d) = key_prefix oid d * 16 + nibble oid d"
proof -
  assume d: "d < 96"
  then have e: "96 - d = Suc (95 - d)" "96 - Suc d = 95 - d" by simp_all
  let ?y = "unat (into_digest oid) div 16 ^ (95 - d)"
  have "key_prefix oid d = ?y div 16"
    unfolding key_prefix_def e power_Suc2 by (simp only: div_mult2_eq)
  then show ?thesis
    unfolding nibble_eq [OF d] key_prefix_def [of oid "Suc d"] e by simp
qed

lemma key_prefix_full: "key_prefix oid 96 = key_prefix oid' 96 \<longleftrightarrow> oid = oid'"
  by (cases oid; cases oid') (simp add: key_prefix_def flip: word_unat_eq_iff)

lemma key_prefix_mono: "oid \<le> oid' \<Longrightarrow> key_prefix oid d \<le> key_prefix oid' d"
  by (cases oid; cases oid')
    (simp add: key_prefix_def div_le_mono less_eq_typed_id_def word_le_nat_alt)

text \<open>The path of an identifier determines it.\<close>

lemma nibbles_determine: "(\<forall>d < 96. nibble a d = nibble b d) \<longleftrightarrow> a = b"
proof
  assume eq: "\<forall>d < 96. nibble a d = nibble b d"
  have "d \<le> 96 \<Longrightarrow> key_prefix a d = key_prefix b d" for d
    by (induction d) (simp_all add: key_prefix_Suc eq)
  then show "a = b" using key_prefix_full [of a b] by simp
qed simp

section \<open>Ranges of children\<close>

lemma advance_cursor_eq:
  "advance_cursor objs d c i =
     i + length (takeWhile (\<lambda>ob. nibble (object_id ob) d = c) (drop i objs))"
proof (induction objs d c i rule: advance_cursor.induct)
  case (1 objs d c i)
  show ?case
  proof (cases "i < length objs")
    case True
    then have "drop i objs = objs ! i # drop (i + 1) objs" by (simp add: Cons_nth_drop_Suc)
    then show ?thesis using 1 True by (subst advance_cursor.simps) simp
  next
    case False
    then show ?thesis by (subst advance_cursor.simps) simp
  qed
qed

abbreviation child_objects :: "nat \<Rightarrow> nat \<Rightarrow> Object list \<Rightarrow> Object list" where
  "child_objects d c objs \<equiv> filter (\<lambda>ob. nibble (object_id ob) d = c) objs"

lemma takeWhile_sorted:
  assumes "sorted (map f xs)" "\<forall>x \<in> set xs. c \<le> f x"
  shows "takeWhile (\<lambda>x. f x = c) xs = filter (\<lambda>x. f x = c) xs \<and>
    filter (\<lambda>x. f x = c) (dropWhile (\<lambda>x. f x = c) xs) = []"
  using assms
proof (induction xs)
  case (Cons x xs)
  have "filter (\<lambda>x. f x = c) xs = []" if "f x \<noteq> c"
    using Cons.prems that by (fastforce simp: filter_empty_conv)
  then show ?case using Cons by auto
qed simp

lemma takeWhile_least:
  fixes c :: nat
  assumes "sorted (map f xs)" "\<forall>x \<in> set xs. c \<le> f x"
  shows "takeWhile (\<lambda>x. f x = c) xs = filter (\<lambda>x. f x = c) xs"
    "\<forall>x \<in> set (drop (length (filter (\<lambda>x. f x = c) xs)) xs). Suc c \<le> f x"
    "c \<noteq> c' \<Longrightarrow> filter (\<lambda>x. f x = c') (drop (length (filter (\<lambda>x. f x = c) xs)) xs) = filter (\<lambda>x. f x = c') xs"
proof -
  let ?P = "\<lambda>x. f x = c"
  show tw: "takeWhile ?P xs = filter ?P xs" using takeWhile_sorted [OF assms] by blast
  then have dw: "drop (length (filter ?P xs)) xs = dropWhile ?P xs" by (simp add: dropWhile_eq_drop)
  have xs: "xs = filter ?P xs @ dropWhile ?P xs" unfolding tw [symmetric] by simp
  have "filter ?P (dropWhile ?P xs) = []" using takeWhile_sorted [OF assms] by blast
  then show "\<forall>x \<in> set (drop (length (filter ?P xs)) xs). Suc c \<le> f x"
    using assms(2) unfolding dw filter_empty_conv Suc_le_eq order_less_le by (blast dest: set_dropWhileD)
  assume "c \<noteq> c'"
  then have "filter (\<lambda>x. f x = c') (filter ?P xs) = []" by (auto simp: filter_empty_conv)
  then have eq: "filter (\<lambda>x. f x = c') (filter ?P xs @ dropWhile ?P xs) = filter (\<lambda>x. f x = c') (dropWhile ?P xs)"
    by (simp del: filter_filter)
  show "filter (\<lambda>x. f x = c') (drop (length (filter ?P xs)) xs) = filter (\<lambda>x. f x = c') xs"
    unfolding dw by (rule trans [OF arg_cong [OF xs, of "filter (\<lambda>x. f x = c')"] eq, symmetric])
qed

lemma child_ranges_loop_eq:
  assumes "sorted (map (\<lambda>ob. nibble (object_id ob) d) (drop i objs))"
    "\<forall>ob \<in> set (drop i objs). c \<le> nibble (object_id ob) d"
  shows "map (\<lambda>(s, e). (sub_slice objs s e, s = e)) (child_ranges_loop objs d [c..<c + n] i) =
    map (\<lambda>c. (child_objects d c (drop i objs), child_objects d c (drop i objs) = [])) [c..<c + n]"
  using assms
proof (induction n arbitrary: c i)
  case (Suc n)
  let ?xs = "drop i objs" and ?f = "\<lambda>ob. nibble (object_id ob) d"
  let ?j = "i + length (child_objects d c ?xs)"
  note least = takeWhile_least [OF Suc.prems]
  have j: "advance_cursor objs d c i = ?j"
    using least(1) by (simp add: advance_cursor_eq)
  have rest: "drop ?j objs = drop (length (child_objects d c ?xs)) ?xs" by (simp add: add.commute)
  have s: "sorted (map ?f (drop ?j objs))"
    using Suc.prems(1) sorted_wrt_drop unfolding rest drop_map [symmetric] by blast
  have "\<forall>ob \<in> set (drop ?j objs). Suc c \<le> ?f ob" using least(2) unfolding rest .
  with s have IH: "map (\<lambda>(s, e). (sub_slice objs s e, s = e)) (child_ranges_loop objs d [Suc c..<Suc c + n] ?j) =
      map (\<lambda>c. (child_objects d c (drop ?j objs), child_objects d c (drop ?j objs) = [])) [Suc c..<Suc c + n]"
    by (rule Suc.IH)
  have same: "child_objects d c' (drop ?j objs) = child_objects d c' ?xs" if "c' \<in> set [Suc c..<Suc c + n]" for c'
    unfolding rest by (rule least(3)) (use that in auto)
  have "sub_slice objs i ?j = takeWhile (\<lambda>ob. ?f ob = c) ?xs"
    using least(1) by (metis add_diff_cancel_left' takeWhile_eq_take)
  then have first: "sub_slice objs i ?j = child_objects d c ?xs" using least(1) by simp
  have cons: "[c..<c + Suc n] = c # [Suc c..<Suc c + n]" by (simp add: upt_rec)
  show ?case
    unfolding cons using IH first same j by (simp add: Let_def cong: map_cong)
qed simp

lemma child_ranges_eq:
  assumes "sorted (map (\<lambda>ob. nibble (object_id ob) d) objs)"
  shows "map (\<lambda>(s, e). (sub_slice objs s e, s = e)) (child_ranges objs d) =
    map (\<lambda>c. (child_objects d c objs, child_objects d c objs = [])) [0..<STATE_TREE_ARITY]"
  using child_ranges_loop_eq [of d 0 objs 0 STATE_TREE_ARITY] assms by (simp add: child_ranges_def)

section \<open>The specified tree\<close>

text \<open>The byte strings that are hashed for a leaf and for an internal node.\<close>

definition leaf_input :: "Object list \<Rightarrow> u8 list" where
  "leaf_input s = (case s of [] \<Rightarrow> state_transcript 1
     | ob # _ \<Rightarrow> (case encode_envelope Object_type ob of
         Inl _ \<Rightarrow> []
       | Inr envelope \<Rightarrow> state_transcript 0 @ as_bytes (into_digest (object_id ob))
           @ to_be_bytes 4 (length envelope) @ envelope))"

definition node_input :: "nat \<Rightarrow> Digest384 list \<Rightarrow> u8 list" where
  "node_input depth children =
     state_transcript 2 @ [word_of_nat depth] @ concat (map as_bytes children)"

text \<open>The hash of the objects below a node with \<open>k\<close> levels under it.\<close>

primrec spec_tree :: "hash \<Rightarrow> nat \<Rightarrow> Object list \<Rightarrow> Digest384" where
  "spec_tree h 0 s = h (leaf_input s)"
| "spec_tree h (Suc k) s = h (node_input (95 - k) (map (\<lambda>c. spec_tree h k (child_objects (95 - k) c s)) [0..<STATE_TREE_ARITY]))"

lemma hash_node_eq: "hash_node h d cs = h (node_input d cs)"
  by (simp add: hash_node_def node_input_def)

lemma length_concat_as_bytes: "length (concat (map as_bytes cs)) = 48 * length cs"
  by (induction cs) simp_all

lemma concat_as_bytes_inject:
  "length cs = length ds \<Longrightarrow> concat (map as_bytes cs) = concat (map as_bytes ds) \<longleftrightarrow> cs = ds"
  by (induction cs ds rule: list_induct2) simp_all

lemma node_input_inject:
  "length cs = length ds \<Longrightarrow> node_input d cs = node_input d ds \<longleftrightarrow> cs = ds"
  by (simp add: node_input_def concat_as_bytes_inject)

lemma length_empty_hashes_loop [simp]: "length (empty_hashes_loop h n) = Suc n"
  by (induction n) (simp_all add: Let_def)

lemma empty_hashes_loop_nth: "i \<le> n \<Longrightarrow> n \<le> 96 \<Longrightarrow> empty_hashes_loop h n ! (n - i) = spec_tree h i []"
proof (induction n arbitrary: i)
  case 0
  then show ?case by (simp add: hash_empty_leaf_def leaf_input_def)
next
  case (Suc n)
  have hd: "hd (empty_hashes_loop h n) = spec_tree h n []"
    using Suc.IH [of n] Suc.prems(2) by (simp add: hd_conv_nth flip: length_greater_0_conv)
  show ?case
  proof (cases "i = Suc n")
    case True
    then show ?thesis
      by (simp add: Let_def hash_node_eq STATE_TREE_DEPTH_def hd map_replicate_const)
  next
    case False
    then show ?thesis using Suc by (simp add: Let_def Suc_diff_le)
  qed
qed

lemma empty_hashes_nth: "k \<le> 96 \<Longrightarrow> empty_hashes h ! (96 - k) = spec_tree h k []"
  using empty_hashes_loop_nth [of k 96 h] by (simp add: empty_hashes_def STATE_TREE_DEPTH_def)

section \<open>Subtrees\<close>

text \<open>Objects that can stand below one node with \<open>k\<close> levels under it.\<close>

definition subtree_ok :: "nat \<Rightarrow> Object list \<Rightarrow> bool" where
  "subtree_ok k s \<longleftrightarrow> list_all valid_Object s \<and> strictly_increasing_by object_id s \<and>
     (\<forall>a \<in> set s. \<forall>b \<in> set s. key_prefix (object_id a) (96 - k) = key_prefix (object_id b) (96 - k))"

lemma strictly_increasing_by_filter:
  "strictly_increasing_by key xs \<Longrightarrow> strictly_increasing_by key (filter P xs)"
  by (simp add: strictly_increasing_by_iff sorted_wrt_filter)

lemma subtree_ok_child:
  assumes "subtree_ok (Suc k) s" "k < 96"
  shows "subtree_ok k (child_objects (95 - k) c s)"
proof -
  have e: "96 - k = Suc (95 - k)" "95 - k < 96" "96 - Suc k = 95 - k" using assms(2) by simp_all
  show ?thesis
    using assms(1) strictly_increasing_by_filter
    by (auto simp: subtree_ok_def e key_prefix_Suc list_all_iff)
qed

lemma subtree_ok_sorted:
  assumes "subtree_ok (Suc k) s" "k < 96"
  shows "sorted (map (\<lambda>ob. nibble (object_id ob) (95 - k)) s)"
proof -
  have e: "96 - Suc k = 95 - k" "95 - k < 96" using assms(2) by simp_all
  have "nibble (object_id a) (95 - k) \<le> nibble (object_id b) (95 - k)"
    if "a \<in> set s" "b \<in> set s" "object_id a < object_id b" for a b
  proof -
    have "key_prefix (object_id a) (95 - k) = key_prefix (object_id b) (95 - k)"
      using assms(1) that(1,2) unfolding subtree_ok_def e(1) by blast
    then show ?thesis
      using key_prefix_mono [OF less_imp_le [OF that(3)], of "Suc (95 - k)"]
      unfolding key_prefix_Suc [OF e(2)] by linarith
  qed
  moreover have "sorted_wrt (\<lambda>a b. object_id a < object_id b) s"
    using assms(1) by (simp add: subtree_ok_def strictly_increasing_by_iff)
  ultimately show ?thesis
    unfolding sorted_map by (rule sorted_wrt_mono_rel)
qed

lemma subtree_ok_same_prefix:
  "subtree_ok k s \<Longrightarrow> a \<in> set s \<Longrightarrow> b \<in> set s \<Longrightarrow>
   key_prefix (object_id a) (96 - k) = key_prefix (object_id b) (96 - k)"
  unfolding subtree_ok_def by blast

lemma subtree_ok_leaf:
  assumes "subtree_ok 0 s" "s \<noteq> []"
  obtains ob where "s = [ob]" "valid_Object ob"
proof (cases s)
  case s: (Cons ob rest)
  have "rest = []"
  proof (cases rest)
    case (Cons ob' rest')
    then have "object_id ob < object_id ob'"
      using assms(1) s by (simp add: subtree_ok_def strictly_increasing_by_iff)
    moreover have "object_id ob = object_id ob'"
      using subtree_ok_same_prefix [OF assms(1), of ob ob'] s Cons key_prefix_full by simp
    ultimately show ?thesis by simp
  qed
  then show ?thesis using that s assms(1) by (simp add: subtree_ok_def)
qed (use assms(2) in simp)

lemma subtree_ok_top:
  "list_all valid_Object s \<Longrightarrow> strictly_increasing_by object_id s \<Longrightarrow> subtree_ok 96 s"
  by (simp add: subtree_ok_def)

lemma hash_leaf_eq:
  assumes "valid_Object ob"
  shows "hash_leaf h ob = Inr (h (leaf_input (ob # s)))"
proof -
  obtain envelope where e: "encode_envelope Object_type ob = Inr envelope"
    using object.encode_envelope_total [OF assms] by blast
  have "length envelope < 2 ^ 32"
    using object.encode_envelopeD [OF e] object.encoded_len_bound [OF assms]
      length_enc_length [of "length (enc_Object ob)"]
    by (simp add: enc_envelope_def Object_type_def MAX_BODY_LENGTH_def)
  then show ?thesis using e by (simp add: hash_leaf_def leaf_input_def)
qed

lemma try_map_eq:
  "(\<And>c. c < length xs \<Longrightarrow> f (xs ! c) = Inr (g c)) \<Longrightarrow> try_map f xs = Inr (map g [0..<length xs])"
proof (induction xs arbitrary: g)
  case (Cons x xs)
  have "try_map f xs = Inr (map (\<lambda>c. g (Suc c)) [0..<length xs])"
    using Cons.prems [of "Suc _"] by (intro Cons.IH) simp
  then show ?case using Cons.prems [of 0] by (simp add: map_upt_Suc del: upt_Suc)
qed simp

lemma range_children:
  assumes "subtree_ok (Suc k) s" "k < 96" "c < STATE_TREE_ARITY"
  obtains start stop where "child_ranges s (95 - k) ! c = (start, stop)"
    "sub_slice s start stop = child_objects (95 - k) c s" "start = stop \<longleftrightarrow> child_objects (95 - k) c s = []"
proof (cases "child_ranges s (95 - k) ! c")
  case (Pair start stop)
  let ?r = "child_ranges s (95 - k)"
  note eq = child_ranges_eq [OF subtree_ok_sorted [OF assms(1,2)]]
  have "length ?r = STATE_TREE_ARITY" using arg_cong [OF eq, of length] by simp
  then have "(\<lambda>(s', e). (sub_slice s s' e, s' = e)) (?r ! c) = (child_objects (95 - k) c s, child_objects (95 - k) c s = [])"
    using arg_cong [OF eq, of "\<lambda>xs. xs ! c"] assms(3) by simp
  then show ?thesis using that Pair by auto
qed

lemma length_child_ranges [simp]: "length (child_ranges s d) = STATE_TREE_ARITY"
proof -
  have "length (child_ranges_loop s d cs i) = length cs" for cs i
    by (induction cs arbitrary: i) (simp_all add: Let_def)
  then show ?thesis by (simp add: child_ranges_def)
qed

text \<open>\<open>subtree_hash\<close> computes the specified tree.\<close>

lemma subtree_hash_eq:
  "subtree_ok k s \<Longrightarrow> k \<le> 96 \<Longrightarrow>
   subtree_hash h s (96 - k) (empty_hashes h) = Inr (spec_tree h k s)"
proof (induction k arbitrary: s)
  case 0
  show ?case
  proof (cases "s = []")
    case True
    then show ?thesis using empty_hashes_nth [of 0 h] by (subst subtree_hash.simps) simp
  next
    case False
    obtain ob where ob: "s = [ob]" "valid_Object ob" using subtree_ok_leaf [OF 0(1) False] .
    then show ?thesis
      by (subst subtree_hash.simps) (simp add: STATE_TREE_DEPTH_def hash_leaf_eq [of ob h "[]"])
  qed
next
  case (Suc k)
  have k: "k < 96" "96 - Suc k = 95 - k" "95 - k + 1 = 96 - k" using Suc.prems(2) by simp_all
  show ?case
  proof (cases "s = []")
    case True
    then show ?thesis using empty_hashes_nth [OF Suc.prems(2), of h] by (subst subtree_hash.simps) simp
  next
    case False
    let ?body = "\<lambda>(start, stop). if start \<noteq> stop
      then subtree_hash h (sub_slice s start stop) (95 - k + 1) (empty_hashes h)
      else Inr (empty_hashes h ! (95 - k + 1))"
    have body: "?body (child_ranges s (95 - k) ! c) = Inr (spec_tree h k (child_objects (95 - k) c s))"
      if c: "c < STATE_TREE_ARITY" for c
    proof -
      obtain start stop where r: "child_ranges s (95 - k) ! c = (start, stop)"
        "sub_slice s start stop = child_objects (95 - k) c s" "start = stop \<longleftrightarrow> child_objects (95 - k) c s = []"
        using range_children [OF Suc.prems(1) k(1) c] .
      show ?thesis
        using Suc.IH [OF subtree_ok_child [OF Suc.prems(1) k(1)], of c] empty_hashes_nth [of k h] k r by auto
    qed
    have "try_map ?body (child_ranges s (95 - k)) =
        Inr (map (\<lambda>c. spec_tree h k (child_objects (95 - k) c s)) [0..<STATE_TREE_ARITY])"
      using try_map_eq [of "child_ranges s (95 - k)" ?body] body by simp
    moreover have "\<not> 96 \<le> 95 - k" by simp
    ultimately show ?thesis
      using False unfolding k(2)
      by (subst subtree_hash.simps) (simp add: STATE_TREE_DEPTH_def hash_node_eq)
  qed
qed

text \<open>The commitment of a list of objects.\<close>

definition tree_objects :: "Object list \<Rightarrow> bool" where
  "tree_objects s \<longleftrightarrow> list_all valid_Object s \<and> strictly_increasing_by object_id s \<and> length s \<le> 64"

definition root_input :: "u64 \<Rightarrow> Digest384 \<Rightarrow> u8 list" where
  "root_input count root = state_transcript 3 @ to_be_bytes 8 (unat count) @ as_bytes root"

lemma hash_state_root_eq: "hash_state_root h count root = h (root_input count root)"
  by (simp add: hash_state_root_def root_input_def)

lemma validate_objects_eq: "tree_objects s \<Longrightarrow> validate_objects s = Inr ()"
  by (simp add: tree_objects_def validate_objects_def MAX_REFERENCE_STATE_OBJECTS_def)

lemma tree_objects_subtree: "tree_objects s \<Longrightarrow> subtree_ok 96 s"
  by (simp add: tree_objects_def subtree_ok_top)

lemma commit_objects_eq:
  assumes "tree_objects s"
  shows "commit_objects h s = Inr \<lparr>
    state_root = hash_state_root h (word_of_nat (length s)) (spec_tree h 96 s),
    object_count = word_of_nat (length s)\<rparr>"
  using subtree_hash_eq [OF tree_objects_subtree [OF assms], of h] assms
  by (simp add: commit_objects_def validate_objects_eq tree_objects_def Let_def)

end
