(* ===== verification/State_Tree_Codec.thy ===== *)
theory State_Tree_Codec
  imports State_Tree
begin

text \<open>
  Wire formats of state proofs and state commitments (\<^verbatim>\<open>state-tree/src/proof.rs\<close>).  A level encodes
  its bitmap and as many digests as the bitmap has ones; a proof encodes exactly 96 levels.  Both
  carry no length prefix.
\<close>

section \<open>Codecs\<close>

fun StateProofKind_tag :: "StateProofKind \<Rightarrow> u8" where
  "StateProofKind_tag Membership = 0"
| "StateProofKind_tag NonMembership = 1"

definition encode_StateProofKind :: "StateProofKind \<Rightarrow> encoder \<Rightarrow> encode_error + encoder" where
  "encode_StateProofKind v e = write_u8 (StateProofKind_tag v) e"

definition decode_StateProofKind :: "decoder \<Rightarrow> decode_error + (StateProofKind \<times> decoder)" where
  "decode_StateProofKind d = and_then (read_u8 d) (\<lambda>(tag, d).
     if tag = 0 then Inr (Membership, d)
     else if tag = 1 then Inr (NonMembership, d)
     else Inl (InvalidEnumTag ''StateProofKind'' tag))"

definition encode_StateProofLevel :: "StateProofLevel \<Rightarrow> encoder \<Rightarrow> encode_error + encoder" where
  "encode_StateProofLevel l e =
     and_then (write_u16 (sibling_bitmap l) e) (\<lambda>e.
     encode_each encode_Digest384 (siblings l) e)"

definition decode_StateProofLevel :: "decoder \<Rightarrow> decode_error + (StateProofLevel \<times> decoder)" where
  "decode_StateProofLevel d =
     and_then (read_u16 d) (\<lambda>(bitmap, d).
     let sibling_count = count_ones bitmap in
     if sibling_count > STATE_TREE_ARITY - 1
     then Inl (InvalidValue ''proof level encodes all sixteen children'')
     else
       and_then (decode_each decode_Digest384 sibling_count d) (\<lambda>(sibs, d).
       and_then (map_err (\<lambda>_. InvalidValue ''proof sibling bitmap and values disagree'')
         (StateProofLevel_new \<lparr>sibling_bitmap = bitmap, siblings = sibs\<rparr>)) (\<lambda>l. Inr (l, d))))"

fun proof_validation_decode_error :: "StateProofValidationError \<Rightarrow> decode_error" where
  "proof_validation_decode_error (WrongLevelCount _ _) =
     InvalidValue ''state proof has the wrong fixed depth''"
| "proof_validation_decode_error (TooManySiblings _) =
     InvalidValue ''state proof level has too many siblings''"
| "proof_validation_decode_error (SiblingCountMismatch _ _) =
     InvalidValue ''state proof sibling bitmap and values disagree''"
| "proof_validation_decode_error (PathChildEncoded _) =
     InvalidValue ''state proof bitmap contains the queried path child''"
| "proof_validation_decode_error (DefaultSiblingEncoded _) =
     InvalidValue ''state proof explicitly encodes a default sibling''"

definition encode_StateProof :: "StateProof \<Rightarrow> encoder \<Rightarrow> encode_error + encoder" where
  "encode_StateProof p e =
     and_then (encode_StateProofKind (proof_kind p) e) (\<lambda>e.
     and_then (encode_typed_id (proof_object_id p) e) (\<lambda>e.
     encode_each encode_StateProofLevel (proof_levels p) e))"

definition decode_StateProof :: "hash \<Rightarrow> decoder \<Rightarrow> decode_error + (StateProof \<times> decoder)" where
  "decode_StateProof shake256 d =
     and_then (decode_StateProofKind d) (\<lambda>(kind, d).
     and_then (decode_typed_id d) (\<lambda>(oid, d).
     and_then (decode_each decode_StateProofLevel STATE_TREE_DEPTH d) (\<lambda>(levels, d).
     and_then (map_err proof_validation_decode_error (StateProof_new shake256
       \<lparr>proof_kind = kind, proof_object_id = oid, proof_levels = levels\<rparr>)) (\<lambda>p. Inr (p, d)))))"

definition StateProof_type :: "hash \<Rightarrow> StateProof canonical_type" where
  "StateProof_type shake256 = \<lparr>ct_encode = encode_StateProof, ct_decode = decode_StateProof shake256,
     ct_type_tag = 0x0055, ct_schema_version = 1, ct_max_encoded_len = 69361\<rparr>"

definition encode_StateCommitment :: "StateCommitment \<Rightarrow> encoder \<Rightarrow> encode_error + encoder" where
  "encode_StateCommitment c e =
     and_then (encode_Digest384 (state_root c) e) (\<lambda>e. write_u64 (object_count c) e)"

definition decode_StateCommitment :: "decoder \<Rightarrow> decode_error + (StateCommitment \<times> decoder)" where
  "decode_StateCommitment d =
     and_then (decode_Digest384 d) (\<lambda>(root, d).
     and_then (read_u64 d) (\<lambda>(count, d).
     Inr (\<lparr>state_root = root, object_count = count\<rparr>, d)))"

definition StateCommitment_type :: "StateCommitment canonical_type" where
  "StateCommitment_type = \<lparr>ct_encode = encode_StateCommitment, ct_decode = decode_StateCommitment,
     ct_type_tag = 0x0056, ct_schema_version = 1, ct_max_encoded_len = 56\<rparr>"

section \<open>Laws\<close>

definition enc_StateProofKind :: "StateProofKind \<Rightarrow> u8 list" where
  "enc_StateProofKind v = [StateProofKind_tag v]"

lemma length_enc_StateProofKind [simp]: "length (enc_StateProofKind v) = 1"
  by (simp add: enc_StateProofKind_def)

interpretation state_proof_kind: canonical_codec enc_StateProofKind encode_StateProofKind decode_StateProofKind "\<lambda>_. True"
proof
  fix pre v rest
  assume "slice (pre @ enc_StateProofKind v @ rest)"
  then show "decode_StateProofKind (dec_at pre (enc_StateProofKind v @ rest)) = Inr (v, dec_at (pre @ enc_StateProofKind v) rest)"
    by (cases v) (simp_all add: enc_StateProofKind_def decode_StateProofKind_def codec_simps)
qed (auto simp: enc_StateProofKind_def encode_StateProofKind_def decode_StateProofKind_def codec_simps dest!: codec_dests split: if_splits)

lemmas [codec_simps] = state_proof_kind.laws
lemmas [codec_dests] = state_proof_kind.inversions

definition enc_StateProofLevel :: "StateProofLevel \<Rightarrow> u8 list" where
  "enc_StateProofLevel l = enc_u16 (sibling_bitmap l) @ enc_each enc_Digest384 (siblings l)"

definition valid_StateProofLevel :: "StateProofLevel \<Rightarrow> bool" where
  "valid_StateProofLevel l \<longleftrightarrow> StateProofLevel_new l = Inr l"

lemma StateProofLevel_new_eq_Inr: "StateProofLevel_new l = Inr l' \<longleftrightarrow> l' = l \<and>
  length (siblings l) = count_ones (sibling_bitmap l) \<and> length (siblings l) \<le> 15"
  by (auto simp: StateProofLevel_new_def STATE_TREE_ARITY_def Let_def)

interpretation state_proof_level: canonical_codec enc_StateProofLevel encode_StateProofLevel decode_StateProofLevel valid_StateProofLevel
  by unfold_locales
    (auto simp: enc_StateProofLevel_def encode_StateProofLevel_def decode_StateProofLevel_def
      valid_StateProofLevel_def StateProofLevel_new_eq_Inr STATE_TREE_ARITY_def Let_def list_all_iff
      digest.encode_each_at digest.decode_each_at codec_simps
      dest!: digest.encode_each_atD digest.decode_each_atD codec_dests split: if_splits)

lemma length_enc_StateProofLevel: "valid_StateProofLevel l \<Longrightarrow> length (enc_StateProofLevel l) \<le> 722"
  using length_enc_each_bounded [of "siblings l" 15 enc_Digest384 48]
  by (simp add: enc_StateProofLevel_def valid_StateProofLevel_def StateProofLevel_new_eq_Inr)

definition enc_StateProof :: "StateProof \<Rightarrow> u8 list" where
  "enc_StateProof p = enc_StateProofKind (proof_kind p) @ enc_typed_id (proof_object_id p) @
     enc_each enc_StateProofLevel (proof_levels p)"

definition valid_StateProof :: "hash \<Rightarrow> StateProof \<Rightarrow> bool" where
  "valid_StateProof h p \<longleftrightarrow> list_all valid_StateProofLevel (proof_levels p) \<and> StateProof_new h p = Inr p"

lemma StateProof_new_eq_Inr: "StateProof_new h p = Inr p' \<longleftrightarrow> p' = p \<and>
  length (proof_levels p) = STATE_TREE_DEPTH \<and>
  validate_levels (empty_hashes h) (proof_object_id p) (enumerate 0 (proof_levels p)) = Inr ()"
  by (auto simp: StateProof_new_def)

lemma StateProof_new_length: "StateProof_new h p = Inr p' \<Longrightarrow> length (proof_levels p) = STATE_TREE_DEPTH"
  by (auto simp: StateProof_new_def)

lemma length_enc_StateProof:
  assumes "valid_StateProof h p"
  shows "length (enc_StateProof p) \<le> 69361"
proof -
  have "length (enc_each enc_StateProofLevel (proof_levels p)) \<le> length (proof_levels p) * 722"
    using assms length_enc_StateProofLevel
    by (intro length_enc_each_le [of valid_StateProofLevel]) (auto simp: valid_StateProof_def)
  moreover have "length (proof_levels p) = 96"
    using assms StateProof_new_length by (auto simp: valid_StateProof_def STATE_TREE_DEPTH_def)
  ultimately show ?thesis by (simp add: enc_StateProof_def)
qed

interpretation state_proof: bounded_envelope enc_StateProof "StateProof_type h" "valid_StateProof h" for h
proof
  fix v
  assume "valid_StateProof h v"
  then show "length (enc_StateProof v) \<le> ct_max_encoded_len (StateProof_type h)"
    by (simp add: StateProof_type_def length_enc_StateProof)
next
  fix pre v rest
  assume "valid_StateProof h v" "slice (pre @ enc_StateProof v @ rest)"
  then show "ct_decode (StateProof_type h) (dec_at pre (enc_StateProof v @ rest)) = Inr (v, dec_at (pre @ enc_StateProof v) rest)"
    using StateProof_new_length [of h v v]
    by (cases v) (simp add: StateProof_type_def enc_StateProof_def decode_StateProof_def valid_StateProof_def
        state_proof_level.decode_each_at codec_simps)
qed (auto simp: StateProof_type_def enc_StateProof_def encode_StateProof_def decode_StateProof_def valid_StateProof_def
    MAX_BODY_LENGTH_def StateProof_new_eq_Inr state_proof_level.encode_each_at codec_simps
    dest!: state_proof_level.encode_each_atD state_proof_level.decode_each_atD codec_dests)

definition enc_StateCommitment :: "StateCommitment \<Rightarrow> u8 list" where
  "enc_StateCommitment c = enc_Digest384 (state_root c) @ enc_u64 (object_count c)"

interpretation state_commitment: bounded_envelope enc_StateCommitment StateCommitment_type "\<lambda>_. True"
  by unfold_locales
    (auto simp: StateCommitment_type_def enc_StateCommitment_def encode_StateCommitment_def
      decode_StateCommitment_def MAX_BODY_LENGTH_def codec_simps dest!: codec_dests)

end
