(* ===== verification/State_Tree_Proofs.thy ===== *)
theory State_Tree_Proofs
  imports State_Tree_Spec State_Tree_Codec
begin

text \<open>
  State proofs: the witnesses that \<open>prove_object\<close> generates are accepted, an accepted witness is
  truthful unless the hash collides on byte strings that were actually hashed, and a proof-driven
  update yields the commitment of the updated objects.
\<close>

section \<open>Folding a path\<close>

definition level_children :: "hash \<Rightarrow> nat \<Rightarrow> StateProofLevel \<Rightarrow> Digest384 list" where
  "level_children h k l = place_siblings l (spec_tree h k []) [0..<STATE_TREE_ARITY] 0"

primrec fold_path :: "hash \<Rightarrow> ObjectId \<Rightarrow> StateProofLevel list \<Rightarrow> Digest384 \<Rightarrow> Digest384" where
  "fold_path h oid [] acc = acc"
| "fold_path h oid (l # ls) acc =
     h (node_input (95 - length ls)
       ((level_children h (length ls) l)[nibble oid (95 - length ls) := fold_path h oid ls acc]))"

lemma length_place_siblings [simp]: "length (place_siblings l d cs i) = length cs"
  by (induction cs arbitrary: i) simp_all

lemma length_level_children [simp]: "length (level_children h k l) = STATE_TREE_ARITY"
  by (simp add: level_children_def)

lemma reconstruct_loop_append:
  "reconstruct_loop h e p (xs @ ys) acc = reconstruct_loop h e p ys (reconstruct_loop h e p xs acc)"
  by (induction xs arbitrary: acc) (simp_all add: Let_def)

lemma reconstruct_loop_eq:
  assumes "length (proof_levels p) = 96"
  shows "n \<le> 96 \<Longrightarrow> reconstruct_loop h (empty_hashes h) p (rev [96 - n..<96]) acc =
    fold_path h (proof_object_id p) (drop (96 - n) (proof_levels p)) acc"
proof (induction n arbitrary: acc)
  case 0
  then show ?case using assms by simp
next
  case (Suc n)
  let ?j = "96 - Suc n"
  have j: "?j < 96" "Suc ?j = 96 - n" "95 - n = ?j" using Suc.prems by simp_all
  have upt: "rev [?j..<96] = rev [96 - n..<96] @ [?j]"
    using upt_conv_Cons [OF j(1)] unfolding j(2) by simp
  have drop: "drop ?j (proof_levels p) = proof_levels p ! ?j # drop (96 - n) (proof_levels p)"
    using Cons_nth_drop_Suc [of ?j "proof_levels p"] assms j(1) unfolding j(2) by simp
  have len: "length (drop (96 - n) (proof_levels p)) = n" using Suc.prems assms by simp
  moreover have "empty_hashes h ! (?j + 1) = spec_tree h n []"
    using empty_hashes_nth [of n h] Suc.prems j(2) by simp
  ultimately have step: "reconstruct_loop h (empty_hashes h) p [?j] x =
      h (node_input ?j ((level_children h n (proof_levels p ! ?j))[nibble (proof_object_id p) ?j := x]))" for x
    by (simp add: hash_node_eq level_children_def Let_def)
  have IH: "reconstruct_loop h (empty_hashes h) p (rev [96 - n..<96]) acc =
      fold_path h (proof_object_id p) (drop (96 - n) (proof_levels p)) acc"
    using Suc.prems by (intro Suc.IH) simp
  show ?case
    unfolding upt drop reconstruct_loop_append IH step fold_path.simps len j(3) ..
qed

lemma reconstruct_tree_root_eq:
  assumes "length (proof_levels p) = 96"
  shows "reconstruct_tree_root h p acc = fold_path h (proof_object_id p) (proof_levels p) acc"
  using reconstruct_loop_eq [OF assms, of 96 h acc]
  unfolding reconstruct_tree_root_def STATE_TREE_DEPTH_def by (simp only: diff_self_eq_0 drop_0 order_refl)

text \<open>The objects at the end of a path.\<close>

definition on_path :: "ObjectId \<Rightarrow> nat \<Rightarrow> ObjectId \<Rightarrow> bool" where
  "on_path oid k i \<longleftrightarrow> (\<forall>d. 96 - k \<le> d \<and> d < 96 \<longrightarrow> nibble i d = nibble oid d)"

abbreviation path_objects :: "ObjectId \<Rightarrow> nat \<Rightarrow> Object list \<Rightarrow> Object list" where
  "path_objects oid k s \<equiv> filter (\<lambda>ob. on_path oid k (object_id ob)) s"

abbreviation off_path :: "ObjectId \<Rightarrow> nat \<Rightarrow> Object list \<Rightarrow> Object list" where
  "off_path oid k s \<equiv> filter (\<lambda>ob. \<not> on_path oid k (object_id ob)) s"

lemma on_path_0 [simp]: "on_path oid 0 i"
  by (simp add: on_path_def)

lemma on_path_Suc:
  assumes "k < 96"
  shows "on_path oid (Suc k) i \<longleftrightarrow> nibble i (95 - k) = nibble oid (95 - k) \<and> on_path oid k i"
proof -
  have "96 - Suc k \<le> d \<longleftrightarrow> d = 95 - k \<or> 96 - k \<le> d" for d using assms by auto
  then show ?thesis using assms unfolding on_path_def by auto
qed

lemma on_path_full: "on_path oid 96 i \<longleftrightarrow> i = oid"
  using nibbles_determine [of i oid] by (simp add: on_path_def)

lemma path_objects_Suc:
  assumes "k < 96"
  shows "path_objects oid (Suc k) s = path_objects oid k (child_objects (95 - k) (nibble oid (95 - k)) s)"
  using assms by (simp add: on_path_Suc conj_commute)

lemma off_path_child:
  assumes "k < 96" "off_path oid (Suc k) s' = off_path oid (Suc k) s"
  shows "c \<noteq> nibble oid (95 - k) \<Longrightarrow> child_objects (95 - k) c s' = child_objects (95 - k) c s"
    "off_path oid k (child_objects (95 - k) (nibble oid (95 - k)) s') =
     off_path oid k (child_objects (95 - k) (nibble oid (95 - k)) s)"
proof -
  have sub: "child_objects (95 - k) c s = child_objects (95 - k) c (off_path oid (Suc k) s)"
    if "c \<noteq> nibble oid (95 - k)" for c s
    using that assms(1) by (auto simp: on_path_Suc intro: filter_cong)
  show "child_objects (95 - k) c s' = child_objects (95 - k) c s" if "c \<noteq> nibble oid (95 - k)"
    using sub [OF that, of s] sub [OF that, of s'] assms(2) by metis
  have "off_path oid k (child_objects (95 - k) (nibble oid (95 - k)) s) =
      child_objects (95 - k) (nibble oid (95 - k)) (off_path oid (Suc k) s)" for s
    using assms(1) by (auto simp: on_path_Suc intro: filter_cong)
  then show "off_path oid k (child_objects (95 - k) (nibble oid (95 - k)) s') =
     off_path oid k (child_objects (95 - k) (nibble oid (95 - k)) s)"
    using assms(2) by metis
qed

section \<open>Soundness\<close>

text \<open>The byte strings hashed for a tree, and those hashed when a path is folded.\<close>

primrec tree_inputs :: "hash \<Rightarrow> nat \<Rightarrow> Object list \<Rightarrow> u8 list set" where
  "tree_inputs h 0 s = {leaf_input s}"
| "tree_inputs h (Suc k) s =
     insert (node_input (95 - k) (map (\<lambda>c. spec_tree h k (child_objects (95 - k) c s)) [0..<STATE_TREE_ARITY]))
       (\<Union>c \<in> {0..<STATE_TREE_ARITY}. tree_inputs h k (child_objects (95 - k) c s))"

primrec path_inputs :: "hash \<Rightarrow> ObjectId \<Rightarrow> StateProofLevel list \<Rightarrow> Digest384 \<Rightarrow> u8 list set" where
  "path_inputs h oid [] acc = {}"
| "path_inputs h oid (l # ls) acc =
     insert (node_input (95 - length ls)
       ((level_children h (length ls) l)[nibble oid (95 - length ls) := fold_path h oid ls acc]))
       (path_inputs h oid ls acc)"

text \<open>
  Without a collision, a fold that reaches the root of a tree ends in the leaf of that tree, and
  its siblings are those of every tree with the same objects off the path.
\<close>

lemma fold_path_sound:
  assumes "length ls \<le> 96" "fold_path h oid ls acc = spec_tree h (length ls) s"
    "\<not> clash h (tree_inputs h (length ls) s) (path_inputs h oid ls acc)"
  shows "acc = spec_tree h 0 (path_objects oid (length ls) s) \<and>
    (\<forall>s'. off_path oid (length ls) s' = off_path oid (length ls) s \<longrightarrow>
      fold_path h oid ls (spec_tree h 0 (path_objects oid (length ls) s')) = spec_tree h (length ls) s')"
  using assms
proof (induction ls arbitrary: s)
  case (Cons l ls)
  let ?k = "length ls" and ?n = "nibble oid (95 - length ls)"
  let ?T = "\<lambda>s c. spec_tree h ?k (child_objects (95 - ?k) c s)"
  have k: "?k < 96" "?k \<le> 96" and n: "?n < STATE_TREE_ARITY" using Cons.prems(1) by simp_all
  let ?L = "(level_children h ?k l)[?n := fold_path h oid ls acc]" and ?R = "map (?T s) [0..<STATE_TREE_ARITY]"
  have no_clash: "\<not> clash h (insert (node_input (95 - ?k) ?R) (\<Union>c \<in> {0..<STATE_TREE_ARITY}. tree_inputs h ?k (child_objects (95 - ?k) c s)))
      (insert (node_input (95 - ?k) ?L) (path_inputs h oid ls acc))"
    using Cons.prems(3) by simp
  have "h (node_input (95 - ?k) ?L) = h (node_input (95 - ?k) ?R)" using Cons.prems(2) by simp
  then have "node_input (95 - ?k) ?L = node_input (95 - ?k) ?R"
    using no_clash unfolding clash_def by (metis insertI1)
  then have eq: "?L = ?R" by (simp add: node_input_inject)
  have "?L ! ?n = fold_path h oid ls acc" "?R ! ?n = ?T s ?n" using n by simp_all
  then have step: "fold_path h oid ls acc = ?T s ?n" unfolding eq by (rule trans [OF sym])
  moreover have "\<not> clash h (tree_inputs h ?k (child_objects (95 - ?k) ?n s)) (path_inputs h oid ls acc)"
    using no_clash n unfolding clash_def by (meson UN_I atLeastLessThan_iff insertI2 le0)
  ultimately have IH: "acc = spec_tree h 0 (path_objects oid ?k (child_objects (95 - ?k) ?n s))"
    "\<And>s'. off_path oid ?k s' = off_path oid ?k (child_objects (95 - ?k) ?n s) \<Longrightarrow>
      fold_path h oid ls (spec_tree h 0 (path_objects oid ?k s')) = spec_tree h ?k s'"
    using Cons.IH [OF k(2)] by blast+
  have "fold_path h oid (l # ls) (spec_tree h 0 (path_objects oid (Suc ?k) s')) = spec_tree h (Suc ?k) s'"
    if off: "off_path oid (Suc ?k) s' = off_path oid (Suc ?k) s" for s'
  proof -
    note child_objects = off_path_child [OF k(1) off]
    have "fold_path h oid ls (spec_tree h 0 (path_objects oid (Suc ?k) s')) = ?T s' ?n"
      using IH(2) [OF child_objects(2)] unfolding path_objects_Suc [OF k(1)] .
    moreover have "(level_children h ?k l)[?n := x] = (map (?T s) [0..<STATE_TREE_ARITY])[?n := x]" for x
      using eq by (metis list_update_overwrite)
    moreover have "(map (?T s) [0..<STATE_TREE_ARITY])[?n := ?T s' ?n] = map (?T s') [0..<STATE_TREE_ARITY]"
      using child_objects(1) by (intro nth_equalityI) (auto simp: nth_list_update)
    ultimately show ?thesis by simp
  qed
  then show ?case using IH(1) path_objects_Suc [OF k(1)] by simp
qed simp

text \<open>Leaves: a leaf transcript determines the object, and differs from the empty leaf.\<close>

lemma state_transcript_append: "state_transcript k @ xs = state_transcript k' @ ys \<longleftrightarrow> k = k' \<and> xs = ys"
  by (simp add: state_transcript_def)

lemma leaf_input_inject:
  assumes "list_all valid_Object s" "list_all valid_Object s'" "length s \<le> 1" "length s' \<le> 1"
  shows "leaf_input s = leaf_input s' \<longleftrightarrow> s = s'"
proof -
  have input: "\<exists>e. encode_envelope Object_type ob = Inr e \<and> leaf_input [ob] =
      state_transcript 0 @ as_bytes (into_digest (object_id ob)) @ to_be_bytes 4 (length e) @ e"
    if "valid_Object ob" for ob
    using object.encode_envelope_total [OF that] by (auto simp: leaf_input_def)
  have nil: "leaf_input [] = state_transcript 1 @ []" by (simp add: leaf_input_def)
  have "leaf_input [] \<noteq> leaf_input [ob]" if "valid_Object ob" for ob
    using input [OF that] unfolding nil by (force simp: state_transcript_append simp del: append_Nil2)
  moreover have "a = b" if v: "valid_Object a" "valid_Object b" and eq: "leaf_input [a] = leaf_input [b]" for a b
  proof -
    obtain x where x: "encode_envelope Object_type a = Inr x" "leaf_input [a] =
        state_transcript 0 @ as_bytes (into_digest (object_id a)) @ to_be_bytes 4 (length x) @ x"
      using input [OF v(1)] by blast
    obtain y where y: "encode_envelope Object_type b = Inr y" "leaf_input [b] =
        state_transcript 0 @ as_bytes (into_digest (object_id b)) @ to_be_bytes 4 (length y) @ y"
      using input [OF v(2)] by blast
    have "x = y" using eq unfolding x(2) y(2) by simp
    then show ?thesis using object.envelope_injective [OF v] x(1) y(1) by simp
  qed
  ultimately have leaves: "leaf_input [] \<noteq> leaf_input [ob]" "leaf_input [a] = leaf_input [b] \<Longrightarrow> a = b"
    if "valid_Object ob" "valid_Object a" "valid_Object b" for ob a b
    using that by blast+
  consider "s = []" | a where "s = [a]" "valid_Object a"
    using assms(1,3) by (cases s) auto
  moreover consider "s' = []" | b where "s' = [b]" "valid_Object b"
    using assms(2,4) by (cases s') auto
  ultimately show ?thesis using leaves by (metis list.inject)
qed

text \<open>The byte strings hashed by \<open>commit_objects\<close> and by \<open>verify_fold\<close> from a given leaf.\<close>

definition committed_inputs :: "hash \<Rightarrow> Object list \<Rightarrow> u8 list set" where
  "committed_inputs h s =
     insert (root_input (word_of_nat (length s)) (spec_tree h 96 s)) (tree_inputs h 96 s)"

definition verified_inputs :: "hash \<Rightarrow> StateCommitment \<Rightarrow> StateProof \<Rightarrow> u8 list \<Rightarrow> u8 list set" where
  "verified_inputs h c p leaf =
     {leaf, root_input (object_count c) (fold_path h (proof_object_id p) (proof_levels p) (h leaf))} \<union>
     path_inputs h (proof_object_id p) (proof_levels p) (h leaf)"

lemma StateProof_levels: "StateProof_new h p = Inr p' \<Longrightarrow> length (proof_levels p) = 96"
  by (auto simp: StateProof_new_def STATE_TREE_DEPTH_def)

lemma tree_inputs_leaf: "k \<le> 96 \<Longrightarrow> leaf_input (path_objects oid k s) \<in> tree_inputs h k s"
proof (induction k arbitrary: s)
  case (Suc k)
  have k: "k < 96" "95 - k < 96" using Suc.prems by simp_all
  have "leaf_input (path_objects oid k (child_objects (95 - k) (nibble oid (95 - k)) s)) \<in>
      tree_inputs h k (child_objects (95 - k) (nibble oid (95 - k)) s)"
    by (rule Suc.IH) (use Suc.prems in simp)
  then show ?case
    using nibble_less [OF k(2), of oid] unfolding path_objects_Suc [OF k(1)] by auto
qed simp

lemma path_objects_full: "path_objects oid 96 s = filter (\<lambda>ob. object_id ob = oid) s"
  by (simp add: on_path_full)

lemma verify_fold_sound:
  assumes "tree_objects s" "commit_objects h s = Inr c" "length (proof_levels p) = 96"
    "verify_fold h c p (h leaf) = Inr ()"
    "\<not> clash h (committed_inputs h s) (verified_inputs h c p leaf)"
  shows "leaf = leaf_input (filter (\<lambda>ob. object_id ob = proof_object_id p) s)" (is "leaf = leaf_input ?here")
    "\<And>s'. filter (\<lambda>ob. object_id ob \<noteq> proof_object_id p) s' = filter (\<lambda>ob. object_id ob \<noteq> proof_object_id p) s \<Longrightarrow>
      fold_path h (proof_object_id p) (proof_levels p)
        (h (leaf_input (filter (\<lambda>ob. object_id ob = proof_object_id p) s'))) = spec_tree h 96 s'"
proof -
  let ?oid = "proof_object_id p" and ?ls = "proof_levels p"
  have c: "state_root c = h (root_input (word_of_nat (length s)) (spec_tree h 96 s))"
    "object_count c = word_of_nat (length s)"
    using assms(2) by (auto simp: commit_objects_eq [OF assms(1)] hash_state_root_eq)
  have "h (root_input (object_count c) (fold_path h ?oid ?ls (h leaf))) = state_root c"
    using assms(4) by (simp add: verify_fold_def hash_state_root_eq reconstruct_tree_root_eq [OF assms(3)] Let_def split: if_splits)
  then have "root_input (object_count c) (spec_tree h 96 s) =
      root_input (object_count c) (fold_path h ?oid ?ls (h leaf))"
    using c by (intro no_clashD [OF assms(5)]) (simp_all add: committed_inputs_def verified_inputs_def)
  then have root: "fold_path h ?oid ?ls (h leaf) = spec_tree h (length ?ls) s"
    using assms(3) by (simp add: root_input_def)
  have no_clash: "\<not> clash h (tree_inputs h (length ?ls) s) (path_inputs h ?oid ?ls (h leaf))"
    using assms(5) clash_mono [where A' = "committed_inputs h s" and B' = "verified_inputs h c p leaf"]
    unfolding assms(3) committed_inputs_def verified_inputs_def by blast
  note sound = fold_path_sound [OF eq_refl [OF assms(3)] root no_clash, unfolded assms(3) path_objects_full]
  have "h leaf = h (leaf_input ?here)" using sound by (simp add: on_path_full)
  moreover have "leaf_input ?here \<in> committed_inputs h s"
    using tree_inputs_leaf [of 96 ?oid s h] by (simp add: committed_inputs_def path_objects_full)
  moreover have "leaf \<in> verified_inputs h c p leaf" by (simp add: verified_inputs_def)
  ultimately show "leaf = leaf_input ?here" using no_clashD [OF assms(5)] by metis
  show "fold_path h ?oid ?ls (h (leaf_input (filter (\<lambda>ob. object_id ob = ?oid) s'))) = spec_tree h 96 s'"
    if "filter (\<lambda>ob. object_id ob \<noteq> ?oid) s' = filter (\<lambda>ob. object_id ob \<noteq> ?oid) s" for s'
    using sound that by (simp add: on_path_full)
qed

lemma same_id_unique:
  assumes "tree_objects s"
  shows "length (filter (\<lambda>ob. object_id ob = oid) s) \<le> 1"
    "ob \<in> set s \<Longrightarrow> filter (\<lambda>o'. object_id o' = object_id ob) s = [ob]"
proof -
  have d: "distinct (map object_id s)"
    using assms strictly_increasing_by_distinct by (auto simp: tree_objects_def)
  then show len: "length (filter (\<lambda>ob. object_id ob = oid) s) \<le> 1" for oid
    by (induction s) (auto simp: filter_empty_conv image_iff)
  assume "ob \<in> set s"
  then have "ob \<in> set (filter (\<lambda>o'. object_id o' = object_id ob) s)" by simp
  then show "filter (\<lambda>o'. object_id o' = object_id ob) s = [ob]"
    using len [of "object_id ob"] by (cases "filter (\<lambda>o'. object_id o' = object_id ob) s") auto
qed

lemma tree_objects_filter_valid: "tree_objects s \<Longrightarrow> list_all valid_Object (filter P s)"
  by (auto simp: tree_objects_def list_all_iff)

text \<open>The pre-state leaf an update opens, and the transcripts hashed to open it.\<close>

abbreviation leaf_objects :: "Object option \<Rightarrow> Object list" where
  "leaf_objects x \<equiv> (case x of None \<Rightarrow> [] | Some ob \<Rightarrow> [ob])"

definition verify_leaf ::
    "hash \<Rightarrow> StateCommitment \<Rightarrow> StateProof \<Rightarrow> Object option \<Rightarrow> StateProofVerificationError + unit" where
  "verify_leaf h c p x = (case x of
     Some ob \<Rightarrow> verify_membership h c ob p
   | None \<Rightarrow> verify_non_membership h c (proof_object_id p) p)"

lemma verify_leafD:
  assumes "pred_option valid_Object x" "verify_leaf h c p x = Inr ()"
  shows "verify_fold h c p (h (leaf_input (leaf_objects x))) = Inr ()"
    "\<And>ob. x = Some ob \<Longrightarrow> object_id ob = proof_object_id p"
  using assms empty_hashes_nth [of 0 h] hash_leaf_eq [of _ h "[]"]
  by (auto simp: verify_leaf_def verify_membership_def verify_non_membership_def STATE_TREE_DEPTH_def
      split: option.splits if_splits)

lemma verify_leaf_sound:
  assumes "tree_objects s" "commit_objects h s = Inr c" "length (proof_levels p) = 96"
    "pred_option valid_Object x" "verify_leaf h c p x = Inr ()"
    "\<not> clash h (committed_inputs h s) (verified_inputs h c p (leaf_input (leaf_objects x)))"
  shows "filter (\<lambda>ob. object_id ob = proof_object_id p) s = leaf_objects x"
proof -
  have "leaf_input (leaf_objects x) = leaf_input (filter (\<lambda>ob. object_id ob = proof_object_id p) s)"
    using verify_fold_sound(1) [OF assms(1-3) verify_leafD(1) [OF assms(4,5)] assms(6)] .
  then show ?thesis
    using leaf_input_inject [OF tree_objects_filter_valid [OF assms(1)], of "leaf_objects x"
        "\<lambda>ob. object_id ob = proof_object_id p"] same_id_unique(1) [OF assms(1)] assms(4)
    by (cases x) auto
qed

section \<open>Updates\<close>

definition agree_off :: "ObjectId \<Rightarrow> Object list \<Rightarrow> Object list \<Rightarrow> bool" where
  "agree_off oid s s' \<longleftrightarrow>
     filter (\<lambda>ob. object_id ob \<noteq> oid) s' = filter (\<lambda>ob. object_id ob \<noteq> oid) s"

lemma length_split_id:
  "length s = length (filter (\<lambda>ob. object_id ob = oid) s) + length (filter (\<lambda>ob. object_id ob \<noteq> oid) s)"
  by (rule sum_length_filter_compl [symmetric])

lemma update_count:
  assumes "agree_off oid s s'" "filter (\<lambda>ob. object_id ob = oid) s = leaf_objects before"
    "filter (\<lambda>ob. object_id ob = oid) s' = leaf_objects after" "length s \<le> 64" "length s' \<le> 64"
  shows "(case (before, after) of
      (None, Some _) \<Rightarrow> ok_or UpdateObjectCountOverflow (checked_add (word_of_nat (length s)) 1)
    | (Some _, None) \<Rightarrow> ok_or UpdateObjectCountUnderflow (checked_sub (word_of_nat (length s)) 1)
    | _ \<Rightarrow> Inr (word_of_nat (length s))) = Inr (word_of_nat (length s') :: u64)"
proof -
  let ?n = "length (filter (\<lambda>ob. object_id ob \<noteq> oid) s)"
  have len: "length s = length (leaf_objects before) + ?n" "length s' = length (leaf_objects after) + ?n"
    using length_split_id [of s oid] length_split_id [of s' oid] assms(1-3) by (simp_all add: agree_off_def)
  have u: "unat (word_of_nat k :: u64) = k" if "k \<le> 64" for k using that by (simp add: unat_of_nat)
  have add: "checked_add (word_of_nat k :: u64) 1 = Some (word_of_nat (Suc k))" if "Suc k \<le> 64" for k
    using that u [of k] by (simp add: checked_add_def)
  have sub: "checked_sub (word_of_nat (Suc k) :: u64) 1 = Some (word_of_nat k)" if "Suc k \<le> 64" for k
    using u [OF that] by (simp add: checked_sub_def word_le_nat_alt del: of_nat_Suc) simp
  show ?thesis
    using len assms(4,5) add sub by (auto simp del: of_nat_Suc of_nat_add split: option.splits)
qed

text \<open>
  An update with an accepted proof yields the commitment of the objects with the key's entry
  replaced.
\<close>

lemma apply_update_sound:
  assumes "tree_objects s" "tree_objects s'" "commit_objects h s = Inr c" "length (proof_levels p) = 96"
    "pred_option valid_Object before" "pred_option valid_Object after"
    "apply_single_key_update h c p before after = Inr c'"
    "agree_off (proof_object_id p) s s'"
    "filter (\<lambda>ob. object_id ob = proof_object_id p) s' = leaf_objects after"
    "\<not> clash h (committed_inputs h s) (verified_inputs h c p (leaf_input (leaf_objects before)))"
  shows "commit_objects h s' = Inr c'"
proof -
  have v: "verify_leaf h c p before = Inr ()"
    using assms(7) by (auto simp: apply_single_key_update_def verify_leaf_def split: option.splits)
  note here = verify_leaf_sound [OF assms(1,3,4,5) v assms(10)]
  have fold: "fold_path h (proof_object_id p) (proof_levels p) (h (leaf_input (leaf_objects after))) = spec_tree h 96 s'"
    using verify_fold_sound(2) [OF assms(1,3,4) verify_leafD(1) [OF assms(5) v] assms(10)
        assms(8) [unfolded agree_off_def]] unfolding assms(9) .
  have count: "object_count c = word_of_nat (length s)"
    using assms(3) by (auto simp: commit_objects_eq [OF assms(1)])
  have leaf: "(case after of Some ob \<Rightarrow> map_err UpdateObjectEncoding (hash_leaf h ob)
      | None \<Rightarrow> Inr (empty_hashes h ! STATE_TREE_DEPTH)) = Inr (h (leaf_input (leaf_objects after)))"
    using assms(6) empty_hashes_nth [of 0 h] hash_leaf_eq [of _ h "[]"]
    by (auto simp: STATE_TREE_DEPTH_def split: option.splits)
  have "length s \<le> 64" "length s' \<le> 64" using assms(1,2) by (simp_all add: tree_objects_def)
  note update = update_count [OF assms(8) here assms(9) this]
  show ?thesis
    using assms(7) unfolding apply_single_key_update_def count update leaf
    by (auto simp: commit_objects_eq [OF assms(2)] Let_def reconstruct_tree_root_eq [OF assms(4)] fold)
qed

section \<open>Completeness\<close>

text \<open>The siblings \<open>prove_object\<close> collects at one level: the children off the path with objects.\<close>

lemma collect_siblings_eq:
  fixes h :: hash and n :: nat
  assumes "subtree_ok (Suc k) s" "k < 96"
  defines "T \<equiv> \<lambda>c. spec_tree h k (child_objects (95 - k) c s)"
  defines "keep \<equiv> \<lambda>c. c \<noteq> n \<and> T c \<noteq> spec_tree h k []"
  shows "c + m = STATE_TREE_ARITY \<Longrightarrow> \<exists>bitmap'. collect_siblings h s (95 - k) n (empty_hashes h)
      (enumerate c (drop c (child_ranges s (95 - k)))) bitmap sibs =
        Inr (bitmap', sibs @ map T (filter keep [c..<STATE_TREE_ARITY])) \<and>
      (\<forall>i. bit bitmap' i \<longleftrightarrow> bit bitmap i \<or> (c \<le> i \<and> i < STATE_TREE_ARITY \<and> keep i))"
proof (induction m arbitrary: c bitmap sibs)
  case (Suc m)
  have c: "c < STATE_TREE_ARITY" "c < 16" "Suc c + m = STATE_TREE_ARITY"
    using Suc.prems by (simp_all add: STATE_TREE_ARITY_def)
  have e: "Suc (95 - k) = 96 - k" using assms(2) by simp
  obtain start stop where r: "child_ranges s (95 - k) ! c = (start, stop)"
    "sub_slice s start stop = child_objects (95 - k) c s" "start = stop \<longleftrightarrow> child_objects (95 - k) c s = []"
    using range_children [OF assms(1,2) c(1)] .
  have drop: "drop c (child_ranges s (95 - k)) = (start, stop) # drop (Suc c) (child_ranges s (95 - k))"
    using Cons_nth_drop_Suc [of c "child_ranges s (95 - k)"] c(1) r(1) by simp
  have upt: "[c..<STATE_TREE_ARITY] = c # [Suc c..<STATE_TREE_ARITY]" by (rule upt_conv_Cons [OF c(1)])
  have hash: "subtree_hash h (sub_slice s start stop) (Suc (95 - k)) (empty_hashes h) = Inr (T c)"
    using subtree_hash_eq [OF subtree_ok_child [OF assms(1,2)]] assms(2) unfolding r(2) e T_def by simp
  have default: "empty_hashes h ! Suc (95 - k) = spec_tree h k []"
    using empty_hashes_nth [of k h] assms(2) unfolding e by simp
  have empty: "start = stop \<Longrightarrow> T c = spec_tree h k []" using r(3) by (simp add: T_def)
  let ?run = "\<lambda>c. collect_siblings h s (95 - k) n (empty_hashes h) (enumerate c (drop c (child_ranges s (95 - k))))"
  have run: "?run c bitmap sibs = (if keep c then ?run (Suc c) (bitmap OR push_bit c 1) (sibs @ [T c])
      else ?run (Suc c) bitmap sibs)"
    using empty unfolding drop by (auto simp: hash default keep_def)
  have bits: "bit (bitmap OR push_bit c 1) i \<longleftrightarrow> bit bitmap i \<or> i = c" for i
    using c(2) by (auto simp: bit_or_iff bit_exp_iff)
  have range: "c \<le> i \<and> i < STATE_TREE_ARITY \<and> keep i \<longleftrightarrow>
      (i = c \<and> keep c) \<or> (Suc c \<le> i \<and> i < STATE_TREE_ARITY \<and> keep i)" for i
    using c(1) by (auto simp: le_eq_less_or_eq)
  show ?case
  proof (cases "keep c")
    case True
    then show ?thesis
      using Suc.IH [OF c(3), of "bitmap OR push_bit c 1" "sibs @ [T c]"]
      unfolding run upt range bits by auto
  next
    case False
    then show ?thesis
      using Suc.IH [OF c(3), of bitmap sibs] unfolding run upt range by auto
  qed
qed auto

lemma place_siblings_eq:
  "siblings l = pre @ map f (filter (bit (sibling_bitmap l)) cs) \<Longrightarrow>
   place_siblings l d cs (length pre) = map (\<lambda>c. if bit (sibling_bitmap l) c then f c else d) cs"
proof (induction cs arbitrary: pre)
  case (Cons c cs)
  show ?case
  proof (cases "bit (sibling_bitmap l) c")
    case True
    then show ?thesis
      using Cons.prems Cons.IH [of "pre @ [f c]"] by (simp add: bit_iff_and_push_bit_not_eq_0 nth_append)
  next
    case False
    then show ?thesis
      using Cons.prems Cons.IH [of pre] by (simp add: bit_iff_and_push_bit_not_eq_0)
  qed
qed simp

definition level_ok :: "hash \<Rightarrow> ObjectId \<Rightarrow> nat \<Rightarrow> StateProofLevel \<Rightarrow> bool" where
  "level_ok h oid depth l \<longleftrightarrow> \<not> bit (sibling_bitmap l) (nibble oid depth) \<and>
     length (siblings l) = count_ones (sibling_bitmap l) \<and> empty_hashes h ! (depth + 1) \<notin> set (siblings l)"

lemma validate_levels_eq:
  "validate_levels (empty_hashes h) oid (enumerate d ls) = Inr () \<longleftrightarrow>
   (\<forall>i < length ls. level_ok h oid (d + i) (ls ! i))"
proof (induction ls arbitrary: d)
  case (Cons l ls)
  have "(\<forall>i < length (l # ls). level_ok h oid (d + i) ((l # ls) ! i)) \<longleftrightarrow>
      level_ok h oid d l \<and> (\<forall>i < length ls. level_ok h oid (Suc d + i) (ls ! i))"
    by (simp add: All_less_Suc2)
  then show ?case
    using Cons.IH [of "Suc d"]
    by (simp add: level_ok_def list_ex_iff bit_iff_and_push_bit_not_eq_0)
qed simp

text \<open>One level of a generated proof.\<close>

lemma generated_level:
  assumes "subtree_ok (Suc k) s" "k < 96"
  obtains l where "collect_siblings h s (95 - k) (nibble oid (95 - k)) (empty_hashes h)
      (enumerate 0 (child_ranges s (95 - k))) 0 [] = Inr (sibling_bitmap l, siblings l)"
    "StateProofLevel_new l = Inr l" "level_ok h oid (95 - k) l"
    "(level_children h k l)[nibble oid (95 - k) := spec_tree h k (child_objects (95 - k) (nibble oid (95 - k)) s)] =
     map (\<lambda>c. spec_tree h k (child_objects (95 - k) c s)) [0..<STATE_TREE_ARITY]"
proof -
  let ?n = "nibble oid (95 - k)" and ?T = "\<lambda>c. spec_tree h k (child_objects (95 - k) c s)"
  let ?keep = "\<lambda>c. c \<noteq> ?n \<and> ?T c \<noteq> spec_tree h k []"
  have n: "?n < STATE_TREE_ARITY" using assms(2) by simp
  obtain bm where bm: "collect_siblings h s (95 - k) ?n (empty_hashes h) (enumerate 0 (child_ranges s (95 - k))) 0 [] =
      Inr (bm, map ?T (filter ?keep [0..<STATE_TREE_ARITY]))"
    "\<And>i. bit bm i \<longleftrightarrow> i < STATE_TREE_ARITY \<and> ?keep i"
    using collect_siblings_eq [OF assms, of 0 STATE_TREE_ARITY h ?n 0 "[]"] by auto
  have filt: "filter (bit bm) [0..<STATE_TREE_ARITY] = filter ?keep [0..<STATE_TREE_ARITY]"
    by (rule filter_cong [OF refl]) (simp add: bm(2))
  let ?l = "\<lparr>sibling_bitmap = bm, siblings = map ?T (filter ?keep [0..<STATE_TREE_ARITY])\<rparr>"
  have count: "count_ones bm = length (filter ?keep [0..<STATE_TREE_ARITY])"
    using filt by (simp add: count_ones_def STATE_TREE_ARITY_def)
  have "length (filter ?keep [0..<STATE_TREE_ARITY]) < length [0..<STATE_TREE_ARITY]"
    using n by (intro length_filter_less [of ?n]) simp_all
  then have new: "StateProofLevel_new ?l = Inr ?l"
    by (simp add: StateProofLevel_new_def count Let_def)
  have e: "95 - k + 1 = 96 - k" using assms(2) by simp
  have default: "empty_hashes h ! (95 - k + 1) = spec_tree h k []"
    unfolding e using assms(2) by (intro empty_hashes_nth) simp
  have "\<not> bit bm ?n" using bm(2) [of ?n] by blast
  moreover have "spec_tree h k [] \<notin> set (siblings ?l)" by auto
  ultimately have ok: "level_ok h oid (95 - k) ?l"
    unfolding level_ok_def default by (simp only: StateProofLevel.select_convs count length_map simp_thms)
  have "level_children h k ?l = map (\<lambda>c. if bit bm c then ?T c else spec_tree h k []) [0..<STATE_TREE_ARITY]"
    using place_siblings_eq [of ?l "[]" ?T "[0..<STATE_TREE_ARITY]" "spec_tree h k []"] filt
    by (simp add: level_children_def)
  then have "(level_children h k ?l)[?n := ?T ?n] = map ?T [0..<STATE_TREE_ARITY]"
    using bm(2) by (intro nth_equalityI) (auto simp: nth_list_update)
  then show ?thesis using that [of ?l] bm(1) new ok by simp
qed

lemma prove_levels_eq:
  "subtree_ok k s \<Longrightarrow> k \<le> 96 \<Longrightarrow> \<exists>ls. prove_levels h oid (empty_hashes h) [96 - k..<96] s acc =
      Inr (path_objects oid k s, acc @ ls) \<and> length ls = k \<and>
      fold_path h oid ls (h (leaf_input (path_objects oid k s))) = spec_tree h k s \<and>
      (\<forall>i < k. level_ok h oid (96 - k + i) (ls ! i))"
proof (induction k arbitrary: s acc)
  case (Suc k)
  let ?n = "nibble oid (95 - k)" and ?d = "95 - k"
  have k: "k < 96" "96 - Suc k = ?d" "96 - k = Suc ?d" using Suc.prems(2) by simp_all
  have n: "?n < STATE_TREE_ARITY" by simp
  have upt: "[96 - Suc k..<96] = ?d # [96 - k..<96]" using k by (simp add: upt_rec [of ?d])
  obtain l where l: "collect_siblings h s ?d ?n (empty_hashes h) (enumerate 0 (child_ranges s ?d)) 0 [] =
      Inr (sibling_bitmap l, siblings l)" "StateProofLevel_new l = Inr l" "level_ok h oid ?d l"
    "(level_children h k l)[?n := spec_tree h k (child_objects ?d ?n s)] =
     map (\<lambda>c. spec_tree h k (child_objects ?d c s)) [0..<STATE_TREE_ARITY]"
    using generated_level [OF Suc.prems(1) k(1)] .
  obtain start stop where r: "child_ranges s ?d ! ?n = (start, stop)" "sub_slice s start stop = child_objects ?d ?n s"
    "start = stop \<longleftrightarrow> child_objects ?d ?n s = []"
    using range_children [OF Suc.prems(1) k(1) n] .
  obtain ls where ls: "prove_levels h oid (empty_hashes h) [96 - k..<96] (child_objects ?d ?n s) (acc @ [l]) =
      Inr (path_objects oid k (child_objects ?d ?n s), (acc @ [l]) @ ls)" "length ls = k"
    "fold_path h oid ls (h (leaf_input (path_objects oid k (child_objects ?d ?n s)))) = spec_tree h k (child_objects ?d ?n s)"
    "\<forall>i < k. level_ok h oid (96 - k + i) (ls ! i)"
    using Suc.IH [OF subtree_ok_child [OF Suc.prems(1) k(1)], of ?n "acc @ [l]"] k(1) by auto
  have run: "prove_levels h oid (empty_hashes h) (?d # [96 - k..<96]) s acc =
      prove_levels h oid (empty_hashes h) [96 - k..<96] (child_objects ?d ?n s) (acc @ [l])"
    using l(1,2) r by (cases l) (simp add: Let_def)
  have fold: "fold_path h oid (l # ls) (h (leaf_input (path_objects oid (Suc k) s))) = spec_tree h (Suc k) s"
    unfolding path_objects_Suc [OF k(1)] fold_path.simps ls(2,3) l(4) by simp
  have ok: "\<forall>i < Suc k. level_ok h oid (?d + i) ((l # ls) ! i)"
  proof -
    have "\<forall>i < k. level_ok h oid (?d + Suc i) (ls ! i)"
      using ls(4) unfolding k(3) by (simp only: add_Suc add_Suc_right)
    then show ?thesis using l(3) unfolding All_less_Suc2 by simp
  qed
  have "prove_levels h oid (empty_hashes h) [96 - Suc k..<96] s acc =
      Inr (path_objects oid (Suc k) s, acc @ (l # ls))" "length (l # ls) = Suc k"
    unfolding upt run ls(1) path_objects_Suc [OF k(1)] using ls(2) by simp_all
  then show ?case using fold ok unfolding k(2) by blast
qed simp

text \<open>A generated proof states the truth about the key and verifies against the commitment.\<close>

lemma prove_object_eq:
  assumes "tree_objects s" "commit_objects h s = Inr c"
  obtains p where "prove_object h s oid = Inr p" "StateProof_new h p = Inr p" "proof_object_id p = oid"
    "verify_fold h c p (h (leaf_input (filter (\<lambda>ob. object_id ob = oid) s))) = Inr ()"
    "proof_kind p = (if oid \<in> object_id ` set s then Membership else NonMembership)"
proof -
  let ?here = "filter (\<lambda>ob. object_id ob = oid) s"
  obtain ls where ls: "prove_levels h oid (empty_hashes h) [0..<96] s [] = Inr (?here, ls)" "length ls = 96"
    "fold_path h oid ls (h (leaf_input ?here)) = spec_tree h 96 s" "\<forall>i < 96. level_ok h oid i (ls ! i)"
    using prove_levels_eq [OF tree_objects_subtree [OF assms(1)] order_refl, of h oid "[]"]
    unfolding path_objects_full diff_self_eq_0 add_0 append_Nil by blast
  have kind: "length ?here = 1 \<and> object_id (?here ! 0) = oid \<longleftrightarrow> oid \<in> object_id ` set s"
    using same_id_unique(1) [OF assms(1), of oid]
    by (cases ?here) (auto simp: filter_empty_conv filter_eq_Cons_iff)
  let ?p = "\<lparr>proof_kind = (if oid \<in> object_id ` set s then Membership else NonMembership),
    proof_object_id = oid, proof_levels = ls\<rparr>"
  have new: "StateProof_new h ?p = Inr ?p"
    using ls(2,4) validate_levels_eq [of h oid 0 ls] by (simp add: StateProof_new_def STATE_TREE_DEPTH_def)
  have prove: "prove_object h s oid = Inr ?p"
    using new unfolding prove_object_def validate_objects_eq [OF assms(1)] STATE_TREE_DEPTH_def and_then_simps
      Let_def ls(1) case_prod_conv kind map_err_eq_Inr .
  have "verify_fold h c ?p (h (leaf_input ?here)) = Inr ()"
    using ls(2,3) assms
    by (auto simp: verify_fold_def reconstruct_tree_root_eq commit_objects_eq Let_def)
  then show ?thesis using that [OF prove new] by simp
qed

lemma verify_generated:
  assumes "tree_objects s" "commit_objects h s = Inr c" "prove_object h s oid = Inr p"
    "filter (\<lambda>ob. object_id ob = oid) s = leaf_objects x"
  shows "verify_leaf h c p x = Inr ()" "StateProof_new h p = Inr p" "proof_object_id p = oid"
proof -
  obtain q where q: "prove_object h s oid = Inr q" "StateProof_new h q = Inr q" "proof_object_id q = oid"
    "verify_fold h c q (h (leaf_input (filter (\<lambda>ob. object_id ob = oid) s))) = Inr ()"
    "proof_kind q = (if oid \<in> object_id ` set s then Membership else NonMembership)"
    using prove_object_eq [OF assms(1,2)] .
  then have p: "p = q" using assms(3) by simp
  show "StateProof_new h p = Inr p" "proof_object_id p = oid" using q p by simp_all
  show "verify_leaf h c p x = Inr ()"
  proof (cases x)
    case None
    then have "oid \<notin> object_id ` set s" using assms(4) by (auto simp: filter_empty_conv)
    then show ?thesis
      using None q p assms(4) empty_hashes_nth [of 0 h]
      by (simp add: verify_leaf_def verify_non_membership_def STATE_TREE_DEPTH_def)
  next
    case (Some ob)
    then have "ob \<in> set (filter (\<lambda>ob. object_id ob = oid) s)" using assms(4) by simp
    then have ob: "object_id ob = oid" "ob \<in> set s" by auto
    then have "valid_Object ob" using assms(1) by (simp add: tree_objects_def list_all_iff)
    then show ?thesis
      using Some ob q p assms(4) hash_leaf_eq [of ob h "[]"]
      by (auto simp: verify_leaf_def verify_membership_def)
  qed
qed

section \<open>Binding\<close>

text \<open>Without a collision, equal trees hold equal objects.\<close>

lemma spec_tree_binds:
  "k \<le> 96 \<Longrightarrow> subtree_ok k s \<Longrightarrow> subtree_ok k s' \<Longrightarrow> spec_tree h k s = spec_tree h k s' \<Longrightarrow>
   \<not> clash h (tree_inputs h k s) (tree_inputs h k s') \<Longrightarrow> set s = set s'"
proof (induction k arbitrary: s s')
  case 0
  then have "leaf_input s = leaf_input s'" by (intro no_clashD [OF 0(5)]) simp_all
  moreover have "length t \<le> 1" if "subtree_ok 0 t" for t
    by (cases "t = []") (auto elim: subtree_ok_leaf [OF that])
  moreover have "list_all valid_Object t" if "subtree_ok 0 t" for t
    using that unfolding subtree_ok_def by blast
  ultimately have "s = s'" using leaf_input_inject 0(2,3) by blast
  then show ?case by simp
next
  case (Suc k)
  have k: "k < 96" "k \<le> 96" using Suc.prems(1) by simp_all
  let ?T = "\<lambda>s c. spec_tree h k (child_objects (95 - k) c s)"
  have "node_input (95 - k) (map (?T s) [0..<STATE_TREE_ARITY]) = node_input (95 - k) (map (?T s') [0..<STATE_TREE_ARITY])"
    using Suc.prems(4) by (intro no_clashD [OF Suc.prems(5)]) simp_all
  then have T: "?T s c = ?T s' c" if "c < STATE_TREE_ARITY" for c
    using that by (simp add: node_input_inject)
  have "set (child_objects (95 - k) c s) = set (child_objects (95 - k) c s')" if c: "c < STATE_TREE_ARITY" for c
  proof (rule Suc.IH [OF k(2) subtree_ok_child [OF Suc.prems(2) k(1)] subtree_ok_child [OF Suc.prems(3) k(1)] T [OF c]])
    have sub: "tree_inputs h k (child_objects (95 - k) c t) \<subseteq> tree_inputs h (Suc k) t" for t
      using c by auto
    show "\<not> clash h (tree_inputs h k (child_objects (95 - k) c s)) (tree_inputs h k (child_objects (95 - k) c s'))"
      using Suc.prems(5) clash_mono [OF _ sub sub] by blast
  qed
  then have "ob \<in> set (child_objects (95 - k) (nibble (object_id ob) (95 - k)) s) \<longleftrightarrow>
      ob \<in> set (child_objects (95 - k) (nibble (object_id ob) (95 - k)) s')" for ob by simp
  then have "ob \<in> set s \<longleftrightarrow> ob \<in> set s'" for ob by simp
  then show ?case by blast
qed

lemma strictly_increasing_by_set_eq:
  assumes "strictly_increasing_by key xs" "strictly_increasing_by key ys" "set xs = set ys"
  shows "xs = ys"
proof -
  have sorted: "sorted (map key zs)" if "strictly_increasing_by key zs" for zs
    using that by (auto simp: strictly_increasing_by_iff sorted_map elim: sorted_wrt_mono_rel [rotated])
  note d = strictly_increasing_by_distinct [OF assms(1)] strictly_increasing_by_distinct [OF assms(2)]
  have "map key xs = map key ys"
    using sorted_distinct_set_unique [OF sorted [OF assms(1)] d(1) sorted [OF assms(2)] d(2)] assms(3) by simp
  then show ?thesis
    using d(1) assms(3) by (intro map_inj_on [of key]) (simp_all add: distinct_map)
qed

lemma commit_objects_binds:
  assumes "tree_objects s" "tree_objects s'" "commit_objects h s = commit_objects h s'"
    "\<not> clash h (committed_inputs h s) (committed_inputs h s')"
  shows "s = s'"
proof -
  have "h (root_input (word_of_nat (length s)) (spec_tree h 96 s)) =
      h (root_input (word_of_nat (length s')) (spec_tree h 96 s'))"
    using assms(3) unfolding commit_objects_eq [OF assms(1)] commit_objects_eq [OF assms(2)] hash_state_root_eq
      sum.inject StateCommitment.ext_inject by blast
  then have "root_input (word_of_nat (length s)) (spec_tree h 96 s) =
      root_input (word_of_nat (length s')) (spec_tree h 96 s')"
    by (intro no_clashD [OF assms(4)]) (simp_all add: committed_inputs_def)
  then have "spec_tree h 96 s = spec_tree h 96 s'" by (simp add: root_input_def)
  moreover have "\<not> clash h (tree_inputs h 96 s) (tree_inputs h 96 s')"
    using assms(4) clash_mono [OF _ subset_insertI subset_insertI] unfolding committed_inputs_def by blast
  ultimately have "set s = set s'"
    using spec_tree_binds tree_objects_subtree assms(1,2) by blast
  then show ?thesis
    using strictly_increasing_by_set_eq assms(1,2) by (auto simp: tree_objects_def)
qed

text \<open>Every accepted proof can be sent: it has a canonical envelope.\<close>

lemma level_ok_valid: "depth < 96 \<Longrightarrow> level_ok h oid depth l \<Longrightarrow> valid_StateProofLevel l"
proof -
  assume l: "depth < 96" "level_ok h oid depth l"
  have "length (filter (bit (sibling_bitmap l)) [0..<STATE_TREE_ARITY]) < length [0..<STATE_TREE_ARITY]"
    using l nibble_less [OF l(1), of oid] by (intro length_filter_less [of "nibble oid depth"]) (auto simp: level_ok_def)
  then show ?thesis
    using l(2) by (simp add: level_ok_def valid_StateProofLevel_def StateProofLevel_new_eq_Inr count_ones_def STATE_TREE_ARITY_def)
qed

lemma valid_StateProof_iff: "valid_StateProof h p \<longleftrightarrow> StateProof_new h p = Inr p"
  using validate_levels_eq [of h "proof_object_id p" 0 "proof_levels p"] level_ok_valid
  unfolding valid_StateProof_def StateProof_new_eq_Inr STATE_TREE_DEPTH_def list_all_length add_0
  by (metis (full_types))

end
