(* ===== verification/Transition_Samples.thy ===== *)
theory Transition_Samples
  imports Samples Transition_Correct State_Tree_Proofs
begin

text \<open>
  Concrete policies, requests and transfer transactions: one object, a policy that permits its
  transfer and forbids it late, a transaction that moves the object to another principal, and the
  state tree of that object.
\<close>

definition sample_hash :: hash where "sample_hash bytes = 2"

definition sample_policy :: PolicySet where
  "sample_policy = \<lparr>language_version = 1, policy_rules = [
     \<lparr>rule_effect = EffectPermit,
      rule_predicates = [ActionIs TRANSFER_OBJECT_ACTION_ID, ActorIs (ActorPrincipal (TypedId 11))],
      rule_obligations = []\<rparr>,
     \<lparr>rule_effect = EffectForbid, rule_predicates = [HeightAtLeast 1000], rule_obligations = []\<rparr>]\<rparr>"

definition sample_request :: PolicyRequest where
  "sample_request = \<lparr>req_actor = ActorPrincipal (TypedId 11), req_action = TRANSFER_OBJECT_ACTION_ID,
     req_resource = TypedId 7, req_height = 50, req_value = 0, req_freeze_state = Active,
     declared_purpose = None, credential_schemas = [3], req_capabilities = [TypedId 9],
     approvals = [\<lparr>fact_role = 8, fact_count = 2\<rparr>]\<rparr>"

definition sample_command :: TransferCommand where
  "sample_command = \<lparr>cmd_input = ObjectVersionRef (TypedId 7) 3,
     cmd_new_owner = OwnerPrincipal (TypedId 12), cmd_control_policy = sample_policy,
     cmd_request = sample_request\<rparr>"

definition sample_transaction :: TransferTransaction where
  "sample_transaction = \<lparr>tx_height = 50, tx_access_manifest = sample_manifest,
     tx_commands = [sample_command]\<rparr>"

definition sample_state :: ObjectState where
  "sample_state = \<lparr>state_objects = [sample_object]\<rparr>"

lemma sample_policy_valid: "valid_PolicySet sample_policy"
  by (simp add: valid_PolicySet_def PolicySet_new_eq_Inr valid_PolicyRule_def PolicyRule_new_eq_Inr
      sample_policy_def)

lemma sample_request_valid: "valid_PolicyRequest sample_request"
  by (simp add: valid_PolicyRequest_def PolicyRequest_new_eq_Inr valid_ApprovalFact_def
      ApprovalFact_new_eq_Inr sample_request_def strictly_increasing_by_iff)

lemma sample_transaction_valid: "valid_TransferTransaction sample_transaction"
  by (simp add: valid_TransferTransaction_def TransferTransaction_new_eq_Inr valid_TransferCommand_def
      sample_transaction_def sample_command_def sample_policy_valid sample_request_valid
      sample_manifest_valid strictly_increasing_by_iff)

lemma sample_state_valid: "valid_ObjectState sample_state"
  using sample_object_valid
  by (simp add: valid_ObjectState_iff objects_ok_def sample_state_def strictly_increasing_by_iff)

lemma sample_commit: "commit sample_hash CANONICAL_VALUE PolicySet_type sample_policy = Inr 2"
  using policy_commit_total [OF sample_policy_valid, of sample_hash CANONICAL_VALUE]
  by (auto simp: commit_eq_input sample_hash_def and_then_eq_Inr)

lemma sample_decision:
  "permits sample_policy sample_request"
  "decision_obligations (decision_of sample_policy sample_request) = []"
  by (simp_all add: permits_def sample_policy_def sample_request_def rule_applies_def
      predicate_matches.simps decision_of_def)

lemma sample_authorized: "authorized sample_hash sample_transaction sample_state sample_command"
proof -
  have ok: "objects_ok (state_objects sample_state)"
    using sample_state_valid by (simp add: valid_ObjectState_iff)
  have "find_object sample_state (TypedId 7) = Some sample_object"
    by (simp add: find_object_iff [OF ok]) (simp add: sample_state_def sample_object_def)
  moreover have "transfers_to sample_hash sample_transaction sample_command sample_object
      (sample_object\<lparr>object_version := 4, owner := OwnerPrincipal (TypedId 12)\<rparr>)"
    using sample_commit sample_decision
    by (simp add: transfers_to_def sample_command_def sample_transaction_def
        transfer_object_eq_Inr [OF sample_object_valid])
      (simp add: sample_request_def sample_manifest_def sample_object_def flags_contains_def
        TRANSFERABLE_def)
  ultimately show ?thesis by (auto simp: authorized_def sample_command_def)
qed

lemma sample_transition:
  obtains out where "apply_transfer_transaction sample_hash sample_state sample_transaction = Inr out"
    "receipt_result (output_receipt out) = ReceiptSuccess"
  using apply_transfer_transaction_cases [OF sample_state_valid sample_transaction_valid, of sample_hash]
    transfers_iff_authorized [OF sample_state_valid sample_transaction_valid, of sample_hash] sample_authorized
  by (auto simp: sample_transaction_def split: if_splits)

section \<open>State tree\<close>

lemma sample_tree: "tree_objects [sample_object]"
  using sample_object_valid by (simp add: tree_objects_def strictly_increasing_by_iff)

lemma empty_tree: "tree_objects []"
  by (simp add: tree_objects_def strictly_increasing_by_iff)

lemma sample_object_id: "object_id sample_object = TypedId 7"
  by (simp add: sample_object_def)

lemma sample_proof:
  assumes "x = (if oid = TypedId 7 then Some sample_object else None)"
  obtains c p where "commit_objects sample_hash [sample_object] = Inr c"
    "prove_object sample_hash [sample_object] oid = Inr p" "StateProof_new sample_hash p = Inr p"
    "proof_object_id p = oid" "verify_leaf sample_hash c p x = Inr ()"
proof -
  obtain c where c: "commit_objects sample_hash [sample_object] = Inr c"
    using commit_objects_eq [OF sample_tree, of sample_hash] by blast
  obtain p where p: "prove_object sample_hash [sample_object] oid = Inr p"
    using prove_object_eq [OF sample_tree c, of oid] by blast
  have "filter (\<lambda>ob. object_id ob = oid) [sample_object] = leaf_objects x"
    using assms by (auto simp: sample_object_id)
  then show ?thesis using that c p verify_generated [OF sample_tree c p] by blast
qed

end
