(* ===== verification/Sparse_Merkle.thy ===== *)
theory Sparse_Merkle
  imports Commitment
begin

text \<open>
  Binary Merkle trees of a fixed depth over the bits of a key, the shape that the set accumulator
  and the history accumulator of \<^verbatim>\<open>accumulator/src/lib.rs\<close> share.  A tree is given by what its leaves
  hash, as a function of the key; an absent key hashes the empty-leaf transcript, so the tree is
  defined for every set of entries.  The locale states what an accumulator has to provide (bits
  that determine the key, injective node transcripts), and its lemmas say that a path of siblings
  proves the leaf of its key and survives an update of that leaf.
\<close>

section \<open>Trees and paths\<close>

record 'k merkle =
  mk_depth :: nat
  mk_bit :: "'k \<Rightarrow> nat \<Rightarrow> bool"
  mk_put :: "'k \<Rightarrow> nat \<Rightarrow> bool \<Rightarrow> 'k"
  mk_node :: "nat \<Rightarrow> Digest384 \<Rightarrow> Digest384 \<Rightarrow> u8 list"

text \<open>The subtree of height \<open>n\<close> that holds the key \<open>k\<close>; only the first \<open>depth - n\<close> bits of \<open>k\<close> matter.\<close>

primrec merkle_subtree :: "'k merkle \<Rightarrow> hash \<Rightarrow> ('k \<Rightarrow> u8 list) \<Rightarrow> nat \<Rightarrow> 'k \<Rightarrow> Digest384" where
  "merkle_subtree M h leaf 0 k = h (leaf k)"
| "merkle_subtree M h leaf (Suc n) k =
     (let d = mk_depth M - Suc n in
      h (mk_node M d (merkle_subtree M h leaf n (mk_put M k d False))
        (merkle_subtree M h leaf n (mk_put M k d True))))"

primrec merkle_path :: "'k merkle \<Rightarrow> hash \<Rightarrow> 'k \<Rightarrow> Digest384 list \<Rightarrow> Digest384 \<Rightarrow> Digest384" where
  "merkle_path M h k [] acc = acc"
| "merkle_path M h k (s # ss) acc =
     (let d = mk_depth M - Suc (length ss); below = merkle_path M h k ss acc in
      h (if mk_bit M k d then mk_node M d s below else mk_node M d below s))"

primrec merkle_siblings :: "'k merkle \<Rightarrow> hash \<Rightarrow> ('k \<Rightarrow> u8 list) \<Rightarrow> nat \<Rightarrow> 'k \<Rightarrow> Digest384 list" where
  "merkle_siblings M h leaf 0 k = []"
| "merkle_siblings M h leaf (Suc n) k =
     (let d = mk_depth M - Suc n in
      merkle_subtree M h leaf n (mk_put M k d (\<not> mk_bit M k d)) # merkle_siblings M h leaf n k)"

text \<open>The hashes of the empty subtrees of heights \<open>n\<close> down to 0.\<close>

primrec merkle_empty_hashes :: "'k merkle \<Rightarrow> hash \<Rightarrow> u8 list \<Rightarrow> nat \<Rightarrow> Digest384 list" where
  "merkle_empty_hashes M h e 0 = [h e]"
| "merkle_empty_hashes M h e (Suc n) =
     (let hashes = merkle_empty_hashes M h e n in
      h (mk_node M (mk_depth M - Suc n) (hd hashes) (hd hashes)) # hashes)"

text \<open>The byte strings hashed for a subtree and along a path.\<close>

primrec merkle_inputs :: "'k merkle \<Rightarrow> hash \<Rightarrow> ('k \<Rightarrow> u8 list) \<Rightarrow> nat \<Rightarrow> 'k \<Rightarrow> u8 list set" where
  "merkle_inputs M h leaf 0 k = {leaf k}"
| "merkle_inputs M h leaf (Suc n) k =
     (let d = mk_depth M - Suc n; l = mk_put M k d False; r = mk_put M k d True in
      insert (mk_node M d (merkle_subtree M h leaf n l) (merkle_subtree M h leaf n r))
        (merkle_inputs M h leaf n l \<union> merkle_inputs M h leaf n r))"

primrec merkle_path_inputs :: "'k merkle \<Rightarrow> hash \<Rightarrow> 'k \<Rightarrow> Digest384 list \<Rightarrow> Digest384 \<Rightarrow> u8 list set" where
  "merkle_path_inputs M h k [] acc = {}"
| "merkle_path_inputs M h k (s # ss) acc =
     (let d = mk_depth M - Suc (length ss); below = merkle_path M h k ss acc in
      insert (if mk_bit M k d then mk_node M d s below else mk_node M d below s)
        (merkle_path_inputs M h k ss acc))"

text \<open>The bottom-up loop \<open>for depth in (0..depth).rev()\<close> over an indexed list of siblings.\<close>

definition merkle_step :: "'k merkle \<Rightarrow> hash \<Rightarrow> 'k \<Rightarrow> Digest384 list \<Rightarrow> nat \<Rightarrow> Digest384 \<Rightarrow> Digest384" where
  "merkle_step M h k ss d acc =
     h (if mk_bit M k d then mk_node M d (ss ! d) acc else mk_node M d acc (ss ! d))"

lemma length_merkle_siblings [simp]: "length (merkle_siblings M h leaf n k) = n"
  by (induction n) (simp_all add: Let_def)

lemma merkle_empty_hashes_nth:
  "i \<le> n \<Longrightarrow> merkle_empty_hashes M h e n ! i = merkle_subtree M h (\<lambda>_. e) (n - i) k"
proof (induction n arbitrary: i k)
  case (Suc n)
  have head: "hd (merkle_empty_hashes M h e n) = merkle_subtree M h (\<lambda>_. e) n k'" for k'
    using Suc.IH [of 0 k'] by (cases n) (simp_all add: Let_def)
  show ?case
  proof (cases i)
    case 0
    with head [of "mk_put M k (mk_depth M - Suc n) False"] head [of "mk_put M k (mk_depth M - Suc n) True"]
    show ?thesis by (simp add: Let_def)
  next
    case (Suc j)
    with Suc.IH [of j k] Suc.prems show ?thesis by (simp add: Let_def)
  qed
qed simp

lemma merkle_siblings_nth:
  "i < n \<Longrightarrow> merkle_siblings M h leaf n k ! i =
   (let d = mk_depth M - (n - i) in merkle_subtree M h leaf (n - Suc i) (mk_put M k d (\<not> mk_bit M k d)))"
proof (induction n arbitrary: i)
  case (Suc n)
  then show ?case by (cases i) (simp_all add: Let_def)
qed simp

lemma merkle_loop_eq:
  assumes "length ss = mk_depth M" "n \<le> mk_depth M"
  shows "fold (merkle_step M h k ss) (rev [mk_depth M - n..<mk_depth M]) acc =
    merkle_path M h k (drop (mk_depth M - n) ss) acc"
  using assms(2)
proof (induction n)
  case (Suc n)
  let ?d = "mk_depth M - Suc n"
  have d: "?d < mk_depth M" "Suc ?d = mk_depth M - n" using Suc.prems by simp_all
  have upt: "[?d..<mk_depth M] = ?d # [mk_depth M - n..<mk_depth M]"
    using d upt_conv_Cons [of ?d "mk_depth M"] by simp
  have drop: "drop ?d ss = ss ! ?d # drop (mk_depth M - n) ss"
    using Cons_nth_drop_Suc [of ?d ss] d assms(1) by simp
  have len: "length (drop (mk_depth M - n) ss) = n" using assms(1) Suc.prems by simp
  have IH: "fold (merkle_step M h k ss) (rev [mk_depth M - n..<mk_depth M]) acc =
      merkle_path M h k (drop (mk_depth M - n) ss) acc"
    using Suc by simp
  show ?case unfolding upt drop merkle_path.simps len
    by (simp only: rev.simps fold_append o_apply IH fold.simps id_apply) (simp add: merkle_step_def Let_def)
qed (use assms(1) in simp)

section \<open>What an accumulator provides\<close>

locale merkle_laws =
  fixes M :: "'k merkle"
  assumes put_bit: "i < mk_depth M \<Longrightarrow> j < mk_depth M \<Longrightarrow>
      mk_bit M (mk_put M k i b) j = (if j = i then b else mk_bit M k j)"
    and bits_determine: "(\<And>i. i < mk_depth M \<Longrightarrow> mk_bit M k i = mk_bit M k' i) \<Longrightarrow> k = k'"
    and node_inj: "mk_node M d l r = mk_node M d l' r' \<Longrightarrow> l = l' \<and> r = r'"
begin

definition same_subtree :: "nat \<Rightarrow> 'k \<Rightarrow> 'k \<Rightarrow> bool" where
  "same_subtree n k k' \<longleftrightarrow> (\<forall>i < mk_depth M - n. mk_bit M k i = mk_bit M k' i)"

lemma same_subtree_leaf: "same_subtree 0 k k' \<longleftrightarrow> k = k'"
  unfolding same_subtree_def using bits_determine by auto

lemma same_subtree_top: "same_subtree (mk_depth M) k k'"
  by (simp add: same_subtree_def)

lemma same_subtree_put:
  assumes "n < mk_depth M"
  shows "same_subtree n (mk_put M k (mk_depth M - Suc n) b) j \<longleftrightarrow>
    same_subtree (Suc n) k j \<and> mk_bit M j (mk_depth M - Suc n) = b"
proof -
  have split: "i < mk_depth M - n \<longleftrightarrow> i < mk_depth M - Suc n \<or> i = mk_depth M - Suc n" for i
    using assms by linarith
  show ?thesis using assms by (auto simp: same_subtree_def split put_bit)
qed

lemma put_same: "d < mk_depth M \<Longrightarrow> mk_put M k d (mk_bit M k d) = k"
  by (rule bits_determine) (simp add: put_bit)

lemma merkle_subtree_cong:
  assumes "n \<le> mk_depth M" "same_subtree n k k'" "\<And>j. same_subtree n k j \<Longrightarrow> leaf j = leaf' j"
  shows "merkle_subtree M h leaf n k = merkle_subtree M h leaf' n k'"
  using assms
proof (induction n arbitrary: k k')
  case 0
  then show ?case by (simp add: same_subtree_leaf)
next
  case (Suc n)
  let ?d = "mk_depth M - Suc n"
  have "merkle_subtree M h leaf n (mk_put M k ?d b) = merkle_subtree M h leaf' n (mk_put M k' ?d b)" for b
  proof (rule Suc.IH)
    show "same_subtree n (mk_put M k ?d b) (mk_put M k' ?d b)"
      using Suc.prems(1,2) by (auto simp: same_subtree_def put_bit)
  qed (use Suc.prems same_subtree_put [of n k b] in auto)
  then show ?case by (simp add: Let_def)
qed

lemma merkle_siblings_update:
  assumes "n \<le> mk_depth M"
  shows "merkle_siblings M h (leaf(k := x)) n k = merkle_siblings M h leaf n k"
  using assms
proof (induction n)
  case (Suc n)
  let ?d = "mk_depth M - Suc n"
  let ?other = "mk_put M k ?d (\<not> mk_bit M k ?d)"
  have "merkle_subtree M h (leaf(k := x)) n ?other = merkle_subtree M h leaf n ?other"
  proof (rule merkle_subtree_cong)
    show "same_subtree n ?other ?other" by (simp add: same_subtree_def)
    show "(leaf(k := x)) j = leaf j" if "same_subtree n ?other j" for j
      using that Suc.prems same_subtree_put [of n k "\<not> mk_bit M k ?d" j] by auto
  qed (use Suc.prems in simp)
  with Suc show ?case by (simp add: Let_def del: fun_upd_apply)
qed simp

lemma merkle_path_siblings:
  assumes "n \<le> mk_depth M"
  shows "merkle_path M h k (merkle_siblings M h leaf n k) (h (leaf k)) = merkle_subtree M h leaf n k"
  using assms
proof (induction n)
  case (Suc n)
  then have d: "mk_depth M - Suc n < mk_depth M" by simp
  from put_same [OF this, of k] Suc show ?case
    by (cases "mk_bit M k (mk_depth M - Suc n)") (simp_all add: Let_def)
qed simp

lemma merkle_path_update:
  assumes "n \<le> mk_depth M"
  shows "merkle_path M h k (merkle_siblings M h leaf n k) (h x) = merkle_subtree M h (leaf(k := x)) n k"
  using merkle_path_siblings [OF assms, of h k "leaf(k := x)"] merkle_siblings_update [OF assms] by simp

lemma merkle_path_sound:
  assumes "length ss \<le> mk_depth M" "merkle_path M h k ss acc = merkle_subtree M h leaf (length ss) k"
    "\<not> clash h (merkle_inputs M h leaf (length ss) k) (merkle_path_inputs M h k ss acc)"
  shows "acc = h (leaf k) \<and> ss = merkle_siblings M h leaf (length ss) k"
  using assms
proof (induction ss)
  case (Cons s ss)
  let ?n = "length ss" and ?d = "mk_depth M - Suc (length ss)"
  let ?b = "mk_bit M k ?d" and ?below = "merkle_path M h k ss acc"
  let ?T = "\<lambda>b. merkle_subtree M h leaf ?n (mk_put M k ?d b)"
  have d: "?d < mk_depth M" using Cons.prems(1) by simp
  have inputs: "merkle_inputs M h leaf (length (s # ss)) k =
      insert (mk_node M ?d (?T False) (?T True))
        (merkle_inputs M h leaf ?n (mk_put M k ?d False) \<union> merkle_inputs M h leaf ?n (mk_put M k ?d True))"
    and path: "merkle_path_inputs M h k (s # ss) acc =
      insert (if ?b then mk_node M ?d s ?below else mk_node M ?d ?below s) (merkle_path_inputs M h k ss acc)"
    by (simp_all add: Let_def)
  have "mk_node M ?d (?T False) (?T True) = (if ?b then mk_node M ?d s ?below else mk_node M ?d ?below s)"
    using Cons.prems(2) unfolding inputs path
    by (intro no_clashD [OF Cons.prems(3)]) (simp_all add: Let_def)
  then have node: "?T ?b = ?below" "?T (\<not> ?b) = s"
    by (cases ?b; auto dest!: node_inj)+
  have "merkle_inputs M h leaf ?n k \<subseteq> merkle_inputs M h leaf (length (s # ss)) k"
    unfolding inputs using put_same [OF d, of k] by (cases ?b) auto
  moreover have "merkle_path_inputs M h k ss acc \<subseteq> merkle_path_inputs M h k (s # ss) acc"
    unfolding path by auto
  ultimately have "\<not> clash h (merkle_inputs M h leaf ?n k) (merkle_path_inputs M h k ss acc)"
    using Cons.prems(3) clash_mono by blast
  moreover have "?below = merkle_subtree M h leaf ?n k" using node(1) put_same [OF d] by simp
  ultimately have "acc = h (leaf k) \<and> ss = merkle_siblings M h leaf ?n k"
    using Cons.IH Cons.prems(1) by simp
  then show ?case using node(2) by (simp add: Let_def)
qed simp

text \<open>The root of a whole tree, whatever key the recursion starts from.\<close>

lemma merkle_root_eq:
  "merkle_subtree M h leaf (mk_depth M) k = merkle_subtree M h leaf (mk_depth M) k'"
  by (rule merkle_subtree_cong) (simp_all add: same_subtree_top)

lemma merkle_inputs_cong:
  assumes "n \<le> mk_depth M" "same_subtree n k k'"
  shows "merkle_inputs M h leaf n k = merkle_inputs M h leaf n k'"
  using assms
proof (induction n arbitrary: k k')
  case 0
  then show ?case by (simp add: same_subtree_leaf)
next
  case (Suc n)
  let ?d = "mk_depth M - Suc n"
  have "same_subtree n (mk_put M k ?d b) (mk_put M k' ?d b)" for b
    using Suc.prems by (auto simp: same_subtree_def put_bit)
  then have "merkle_inputs M h leaf n (mk_put M k ?d b) = merkle_inputs M h leaf n (mk_put M k' ?d b)"
    "merkle_subtree M h leaf n (mk_put M k ?d b) = merkle_subtree M h leaf n (mk_put M k' ?d b)" for b
    using Suc.IH [of "mk_put M k ?d b" "mk_put M k' ?d b"] Suc.prems(1)
      merkle_subtree_cong [of n "mk_put M k ?d b" "mk_put M k' ?d b" leaf leaf] by simp_all
  then show ?case by (simp add: Let_def)
qed

text \<open>
  A path that folds to the root of a tree proves the leaf of its key, and folding another leaf
  along it gives the root of the updated tree.
\<close>

lemma merkle_path_proves:
  assumes "length ss = mk_depth M" "merkle_path M h k ss (h x) = merkle_subtree M h leaf (mk_depth M) k0"
    "\<not> clash h (merkle_inputs M h leaf (mk_depth M) k0) (insert x (merkle_path_inputs M h k ss (h x)))"
  shows "leaf k = x \<and> (\<forall>y. merkle_path M h k ss (h y) = merkle_subtree M h (leaf(k := y)) (mk_depth M) k0)"
proof -
  have inputs: "merkle_inputs M h leaf (mk_depth M) k0 = merkle_inputs M h leaf (mk_depth M) k"
    by (rule merkle_inputs_cong) (simp_all add: same_subtree_top)
  have "\<not> clash h (merkle_inputs M h leaf (mk_depth M) k) (merkle_path_inputs M h k ss (h x))"
    using assms(3) clash_mono unfolding inputs by blast
  then have sound: "h x = h (leaf k)" "ss = merkle_siblings M h leaf (mk_depth M) k"
    using merkle_path_sound [of ss h k "h x" leaf] assms(1,2) merkle_root_eq [of h leaf k0 k] by simp_all
  have "leaf k \<in> merkle_inputs M h leaf n k" if "n \<le> mk_depth M" for n
    using that
  proof (induction n)
    case (Suc n)
    with put_same [of "mk_depth M - Suc n" k] show ?case
      by (cases "mk_bit M k (mk_depth M - Suc n)") (simp_all add: Let_def)
  qed simp
  then have "leaf k = x"
    using no_clashD [OF assms(3)] sound(1) unfolding inputs by (metis insertI1 order_refl)
  moreover have "merkle_path M h k ss (h y) = merkle_subtree M h (leaf(k := y)) (mk_depth M) k0" for y
    using merkle_path_update [of "mk_depth M" h k leaf y] sound(2) merkle_root_eq [of h "leaf(k := y)" k0 k]
    by simp
  ultimately show ?thesis by simp
qed

end

end
