(* ===== verification/Accumulator.thy ===== *)
theory Accumulator
  imports Sparse_Merkle
begin

text \<open>
  The accumulators of \<^verbatim>\<open>accumulator/src/lib.rs\<close>: a sparse Merkle set of 384-bit keys with witnessed
  insertion, an append-only history of headers, and the reference structures that recompute both
  from their contents.  A \<open>Root\<close> is 48 bytes, the value a digest carries.
\<close>

section \<open>Values\<close>

type_synonym Root = Digest384

definition KEY_BITS :: usize where "KEY_BITS = 384"
definition HISTORY_BITS :: usize where "HISTORY_BITS = 32"
definition PARTITION_BITS :: usize where "PARTITION_BITS = 12"

datatype AccumulatorError = Bounds | Duplicate | WrongRoot | WrongKey | Overflow

datatype AccumulatorDomain =
  Nullifier | SpentInput | Revocation | RetiredValidatorSet | AuthorizationInvocation

fun domain_byte :: "AccumulatorDomain \<Rightarrow> u8" where
  "domain_byte Nullifier = 1"
| "domain_byte SpentInput = 2"
| "domain_byte Revocation = 3"
| "domain_byte RetiredValidatorSet = 4"
| "domain_byte AuthorizationInvocation = 5"

record SetCommitment =
  set_domain :: AccumulatorDomain
  set_root :: Root
  set_count :: u64

record NonMembershipWitness =
  witness_key :: Root
  witness_siblings :: "Root list"

section \<open>Keys and hashes\<close>

definition key_bit :: "Root \<Rightarrow> usize \<Rightarrow> bool" where
  "key_bit key depth \<longleftrightarrow> (as_bytes key ! (depth div 8)) AND push_bit (7 - depth mod 8) 1 \<noteq> 0"

definition set_key_prefix :: "Root \<Rightarrow> usize \<Rightarrow> Root" where
  "set_key_prefix key depth =
     (if depth = KEY_BITS then key
      else
        let bytes = as_bytes key; byte = depth div 8; retained = depth mod 8;
            b = (if retained = 0 then 0 else (bytes ! byte) AND push_bit (8 - retained) 0xff)
        in digest_new (take byte bytes @ [b] @ replicate (47 - byte) 0))"

definition toggle_key_bit :: "Root \<Rightarrow> usize \<Rightarrow> Root" where
  "toggle_key_bit key depth =
     (let bytes = as_bytes key; i = depth div 8 in
      digest_new (bytes[i := (bytes ! i) XOR push_bit (7 - depth mod 8) 1]))"

definition set_key_bit :: "Root \<Rightarrow> usize \<Rightarrow> bool \<Rightarrow> Root" where
  "set_key_bit key depth v =
     (let mask = push_bit (7 - depth mod 8) 1; bytes = as_bytes key; i = depth div 8 in
      if v then digest_new (bytes[i := (bytes ! i) OR mask])
      else digest_new (bytes[i := (bytes ! i) AND (NOT mask)]))"

definition accumulator_partition_id :: "Root \<Rightarrow> u16" where
  "accumulator_partition_id key =
     (let bytes = as_bytes key in
      drop_bit 4 (word_of_nat (from_be_bytes [bytes ! 0, bytes ! 1])) AND 0x0fff)"

definition index_bit :: "u32 \<Rightarrow> usize \<Rightarrow> bool" where
  "index_bit index depth \<longleftrightarrow> index AND push_bit (31 - depth) 1 \<noteq> 0"

text \<open>The hashed byte strings, and their hashes.\<close>

definition empty_set_input :: "AccumulatorDomain \<Rightarrow> u8 list" where
  "empty_set_input domain = ascii ''ACTIVECHAIN-SPARSE-SET-EMPTY-V1'' @ [domain_byte domain]"

definition set_leaf_input :: "AccumulatorDomain \<Rightarrow> Root \<Rightarrow> u8 list" where
  "set_leaf_input domain key =
     ascii ''ACTIVECHAIN-SPARSE-SET-LEAF-V1'' @ [domain_byte domain] @ as_bytes key"

definition set_node_input :: "AccumulatorDomain \<Rightarrow> usize \<Rightarrow> Root \<Rightarrow> Root \<Rightarrow> u8 list" where
  "set_node_input domain depth left right =
     ascii ''ACTIVECHAIN-SPARSE-SET-NODE-V1'' @ [domain_byte domain]
       @ to_be_bytes 2 (unat (word_of_nat depth :: u16)) @ as_bytes left @ as_bytes right"

definition set_root_input :: "AccumulatorDomain \<Rightarrow> u64 \<Rightarrow> Root \<Rightarrow> u8 list" where
  "set_root_input domain count tree_root =
     ascii ''ACTIVECHAIN-SPARSE-SET-ROOT-V1'' @ [domain_byte domain]
       @ to_be_bytes 8 (unat count) @ as_bytes tree_root"

definition history_leaf_input :: "u32 \<Rightarrow> Root \<Rightarrow> u8 list" where
  "history_leaf_input index header =
     ascii ''ACTIVECHAIN-HISTORY-LEAF-V1'' @ to_be_bytes 4 (unat index) @ as_bytes header"

definition history_node_input :: "usize \<Rightarrow> Root \<Rightarrow> Root \<Rightarrow> u8 list" where
  "history_node_input depth left right =
     ascii ''ACTIVECHAIN-HISTORY-NODE-V1'' @ to_be_bytes 2 (unat (word_of_nat depth :: u16))
       @ as_bytes left @ as_bytes right"

definition history_root_input :: "u32 \<Rightarrow> Root \<Rightarrow> u8 list" where
  "history_root_input count tree_root =
     ascii ''ACTIVECHAIN-HISTORY-ROOT-V1'' @ to_be_bytes 4 (unat count) @ as_bytes tree_root"

definition empty_set_leaf :: "hash \<Rightarrow> AccumulatorDomain \<Rightarrow> Root" where
  "empty_set_leaf shake256 domain = shake256 (empty_set_input domain)"

definition set_leaf :: "hash \<Rightarrow> AccumulatorDomain \<Rightarrow> Root \<Rightarrow> Root" where
  "set_leaf shake256 domain key = shake256 (set_leaf_input domain key)"

definition set_node :: "hash \<Rightarrow> AccumulatorDomain \<Rightarrow> usize \<Rightarrow> Root \<Rightarrow> Root \<Rightarrow> Root" where
  "set_node shake256 domain depth left right = shake256 (set_node_input domain depth left right)"

definition set_commitment_root :: "hash \<Rightarrow> AccumulatorDomain \<Rightarrow> u64 \<Rightarrow> Root \<Rightarrow> Root" where
  "set_commitment_root shake256 domain count tree_root = shake256 (set_root_input domain count tree_root)"

definition empty_history_leaf :: "hash \<Rightarrow> Root" where
  "empty_history_leaf shake256 = shake256 (ascii ''ACTIVECHAIN-HISTORY-EMPTY-V1'')"

definition history_leaf :: "hash \<Rightarrow> u32 \<Rightarrow> Root \<Rightarrow> Root" where
  "history_leaf shake256 index header = shake256 (history_leaf_input index header)"

definition history_node :: "hash \<Rightarrow> usize \<Rightarrow> Root \<Rightarrow> Root \<Rightarrow> Root" where
  "history_node shake256 depth left right = shake256 (history_node_input depth left right)"

definition history_commitment_root :: "hash \<Rightarrow> u32 \<Rightarrow> Root \<Rightarrow> Root" where
  "history_commitment_root shake256 count tree_root = shake256 (history_root_input count tree_root)"

section \<open>The sparse set\<close>

definition fold_key :: "hash \<Rightarrow> AccumulatorDomain \<Rightarrow> Root \<Rightarrow> Root \<Rightarrow> Root list \<Rightarrow> Root" where
  "fold_key shake256 domain key leaf siblings =
     fold (\<lambda>depth leaf.
         if key_bit key depth then set_node shake256 domain depth (siblings ! depth) leaf
         else set_node shake256 domain depth leaf (siblings ! depth))
       (rev [0..<KEY_BITS]) leaf"

text \<open>The hashes of the empty subtrees of depths \<open>384 - levels\<close> to 384, filled from the leaf upwards.\<close>

primrec set_empty_hashes_loop :: "hash \<Rightarrow> AccumulatorDomain \<Rightarrow> nat \<Rightarrow> Root list" where
  "set_empty_hashes_loop shake256 domain 0 = [empty_set_leaf shake256 domain]"
| "set_empty_hashes_loop shake256 domain (Suc levels) =
     (let hashes = set_empty_hashes_loop shake256 domain levels in
      set_node shake256 domain (KEY_BITS - Suc levels) (hd hashes) (hd hashes) # hashes)"

definition set_empty_hashes :: "hash \<Rightarrow> AccumulatorDomain \<Rightarrow> Root list" where
  "set_empty_hashes shake256 domain = set_empty_hashes_loop shake256 domain KEY_BITS"

definition SetCommitment_empty :: "hash \<Rightarrow> AccumulatorDomain \<Rightarrow> SetCommitment" where
  "SetCommitment_empty shake256 domain =
     (let tree_root = set_empty_hashes shake256 domain ! 0 in
      \<lparr>set_domain = domain, set_root = set_commitment_root shake256 domain 0 tree_root, set_count = 0\<rparr>)"

definition SetCommitment_insert ::
    "hash \<Rightarrow> SetCommitment \<Rightarrow> Root \<Rightarrow> NonMembershipWitness \<Rightarrow> AccumulatorError + SetCommitment" where
  "SetCommitment_insert shake256 c key witness =
     (if key = 0 \<or> witness_key witness \<noteq> key \<or> length (witness_siblings witness) \<noteq> KEY_BITS
      then Inl WrongKey
      else
        let empty_tree_root = fold_key shake256 (set_domain c) key
              (empty_set_leaf shake256 (set_domain c)) (witness_siblings witness)
        in if set_commitment_root shake256 (set_domain c) (set_count c) empty_tree_root \<noteq> set_root c
        then Inl WrongRoot
        else
          and_then (ok_or Overflow (checked_add (set_count c) 1)) (\<lambda>count.
          let tree_root = fold_key shake256 (set_domain c) key
                (set_leaf shake256 (set_domain c) key) (witness_siblings witness)
          in Inr \<lparr>set_domain = set_domain c,
               set_root = set_commitment_root shake256 (set_domain c) count tree_root,
               set_count = count\<rparr>))"

record ReferenceSet =
  ref_domain :: AccumulatorDomain
  ref_keys :: "Root set"
  ref_nodes :: "usize \<times> Root \<rightharpoonup> Root"
  ref_empty :: "Root list"
  ref_commitment :: SetCommitment

definition ReferenceSet_new :: "hash \<Rightarrow> AccumulatorDomain \<Rightarrow> ReferenceSet" where
  "ReferenceSet_new shake256 domain =
     \<lparr>ref_domain = domain, ref_keys = {}, ref_nodes = Map.empty,
      ref_empty = set_empty_hashes shake256 domain,
      ref_commitment = SetCommitment_empty shake256 domain\<rparr>"

definition node_or_empty :: "(usize \<times> Root \<rightharpoonup> Root) \<Rightarrow> Root list \<Rightarrow> usize \<Rightarrow> Root \<Rightarrow> Root" where
  "node_or_empty nodes empty_hashes depth prefix =
     (case nodes (depth, prefix) of Some node \<Rightarrow> node | None \<Rightarrow> empty_hashes ! depth)"

definition non_membership_witness :: "ReferenceSet \<Rightarrow> Root \<Rightarrow> AccumulatorError + NonMembershipWitness" where
  "non_membership_witness r key =
     (if key = 0 \<or> key \<in> ref_keys r then Inl Duplicate
      else Inr \<lparr>witness_key = key,
        witness_siblings = map (\<lambda>depth.
            node_or_empty (ref_nodes r) (ref_empty r) (depth + 1)
              (set_key_prefix (toggle_key_bit key depth) (depth + 1)))
          [0..<KEY_BITS]\<rparr>)"

definition insert_node ::
    "hash \<Rightarrow> AccumulatorDomain \<Rightarrow> Root list \<Rightarrow> Root \<Rightarrow> usize
     \<Rightarrow> (usize \<times> Root \<rightharpoonup> Root) \<Rightarrow> (usize \<times> Root \<rightharpoonup> Root)" where
  "insert_node shake256 domain empty_hashes key depth nodes =
     (let parent = set_key_prefix key depth;
          left = set_key_prefix parent (depth + 1);
          right = set_key_prefix (set_key_bit parent depth True) (depth + 1);
          left_hash = node_or_empty nodes empty_hashes (depth + 1) left;
          right_hash = node_or_empty nodes empty_hashes (depth + 1) right
      in nodes((depth, parent) \<mapsto> set_node shake256 domain depth left_hash right_hash))"

definition ReferenceSet_insert :: "hash \<Rightarrow> ReferenceSet \<Rightarrow> Root \<Rightarrow> AccumulatorError + ReferenceSet" where
  "ReferenceSet_insert shake256 r key =
     (if key = 0 \<or> key \<in> ref_keys r then Inl Duplicate
      else
        let keys = insert key (ref_keys r);
            nodes = fold (insert_node shake256 (ref_domain r) (ref_empty r) key) (rev [0..<KEY_BITS])
              ((ref_nodes r)((KEY_BITS, key) \<mapsto> set_leaf shake256 (ref_domain r) key))
        in if card keys \<ge> 2 ^ 64 then Inl Overflow
        else
          let count = word_of_nat (card keys);
              tree_root = node_or_empty nodes (ref_empty r) 0 0
          in Inr (r\<lparr>ref_keys := keys, ref_nodes := nodes,
               ref_commitment := \<lparr>set_domain = ref_domain r,
                 set_root = set_commitment_root shake256 (ref_domain r) count tree_root,
                 set_count = count\<rparr>\<rparr>))"

section \<open>The history\<close>

record HistoryCommitment =
  history_root :: Root
  history_count :: u32

record HistoryProof =
  history_index :: u32
  header_digest :: Root
  history_siblings :: "Root list"

definition fold_history :: "hash \<Rightarrow> u32 \<Rightarrow> Root \<Rightarrow> Root list \<Rightarrow> Root" where
  "fold_history shake256 index leaf siblings =
     fold (\<lambda>depth leaf.
         if index_bit index depth then history_node shake256 depth (siblings ! depth) leaf
         else history_node shake256 depth leaf (siblings ! depth))
       (rev [0..<HISTORY_BITS]) leaf"

definition HistoryCommitment_append ::
    "hash \<Rightarrow> HistoryCommitment \<Rightarrow> Root \<Rightarrow> HistoryProof \<Rightarrow> AccumulatorError + HistoryCommitment" where
  "HistoryCommitment_append shake256 c header witness =
     (if header = 0 \<or> history_index witness \<noteq> history_count c \<or> header_digest witness \<noteq> 0
        \<or> length (history_siblings witness) \<noteq> HISTORY_BITS
      then Inl Bounds
      else
        let empty_tree = fold_history shake256 (history_count c) (empty_history_leaf shake256)
              (history_siblings witness)
        in if history_commitment_root shake256 (history_count c) empty_tree \<noteq> history_root c
        then Inl WrongRoot
        else
          and_then (ok_or Overflow (checked_add (history_count c) 1)) (\<lambda>count.
          let tree = fold_history shake256 (history_count c)
                (history_leaf shake256 (history_count c) header) (history_siblings witness)
          in Inr \<lparr>history_root = history_commitment_root shake256 count tree, history_count = count\<rparr>))"

definition HistoryCommitment_verify ::
    "hash \<Rightarrow> HistoryCommitment \<Rightarrow> HistoryProof \<Rightarrow> AccumulatorError + unit" where
  "HistoryCommitment_verify shake256 c p =
     (if history_index p \<ge> history_count c \<or> header_digest p = 0
        \<or> length (history_siblings p) \<noteq> HISTORY_BITS
      then Inl Bounds
      else
        let tree = fold_history shake256 (history_index p)
              (history_leaf shake256 (history_index p) (header_digest p)) (history_siblings p)
        in if history_commitment_root shake256 (history_count c) tree \<noteq> history_root c
        then Inl WrongRoot
        else Inr ())"

primrec history_empty_hashes_loop :: "hash \<Rightarrow> nat \<Rightarrow> Root list" where
  "history_empty_hashes_loop shake256 0 = [empty_history_leaf shake256]"
| "history_empty_hashes_loop shake256 (Suc levels) =
     (let hashes = history_empty_hashes_loop shake256 levels in
      history_node shake256 (HISTORY_BITS - Suc levels) (hd hashes) (hd hashes) # hashes)"

definition history_empty_hashes :: "hash \<Rightarrow> Root list" where
  "history_empty_hashes shake256 = history_empty_hashes_loop shake256 HISTORY_BITS"

text \<open>
  \<open>partition_point\<close> is called on entries that are sorted by index and share the bits above
  \<open>depth\<close>; it returns the number of leading entries whose bit is clear.
\<close>

function history_subtree :: "hash \<Rightarrow> (usize \<times> Root) list \<Rightarrow> usize \<Rightarrow> Root list \<Rightarrow> Root" where
  "history_subtree shake256 entries depth empty_hashes =
     (if entries = [] then empty_hashes ! depth
      else if depth \<ge> HISTORY_BITS
      then history_leaf shake256 (word_of_nat (fst (hd entries))) (snd (hd entries))
      else
        let split = length (takeWhile (\<lambda>(index, _). \<not> index_bit (word_of_nat index) depth) entries)
        in history_node shake256 depth
          (history_subtree shake256 (take split entries) (depth + 1) empty_hashes)
          (history_subtree shake256 (drop split entries) (depth + 1) empty_hashes))"
  by pat_completeness auto
termination
  by (relation "measure (\<lambda>(_, _, depth, _). HISTORY_BITS - depth)") (auto simp: HISTORY_BITS_def)

declare history_subtree.simps [simp del]

record ReferenceHistory =
  headers :: "Root list"

definition ReferenceHistory_commitment :: "hash \<Rightarrow> ReferenceHistory \<Rightarrow> HistoryCommitment" where
  "ReferenceHistory_commitment shake256 r =
     (let tree = history_subtree shake256 (enumerate 0 (headers r)) 0 (history_empty_hashes shake256) in
      \<lparr>history_root = history_commitment_root shake256 (word_of_nat (length (headers r))) tree,
       history_count = word_of_nat (length (headers r))\<rparr>)"

fun history_proof_loop ::
    "hash \<Rightarrow> u32 \<Rightarrow> Root list \<Rightarrow> usize list \<Rightarrow> (usize \<times> Root) list \<Rightarrow> Root list" where
  "history_proof_loop shake256 index empty_hashes [] candidates = []"
| "history_proof_loop shake256 index empty_hashes (depth # depths) candidates =
     (let left = filter (\<lambda>(candidate, _). \<not> index_bit (word_of_nat candidate) depth) candidates;
          right = filter (\<lambda>(candidate, _). index_bit (word_of_nat candidate) depth) candidates
      in if index_bit index depth
      then history_subtree shake256 left (depth + 1) empty_hashes
        # history_proof_loop shake256 index empty_hashes depths right
      else history_subtree shake256 right (depth + 1) empty_hashes
        # history_proof_loop shake256 index empty_hashes depths left)"

definition history_proof :: "hash \<Rightarrow> Root list \<Rightarrow> u32 \<Rightarrow> Root \<Rightarrow> HistoryProof" where
  "history_proof shake256 hs index digest =
     \<lparr>history_index = index, header_digest = digest,
      history_siblings = history_proof_loop shake256 index (history_empty_hashes shake256)
        [0..<HISTORY_BITS] (enumerate 0 hs)\<rparr>"

definition absence_witness :: "hash \<Rightarrow> ReferenceHistory \<Rightarrow> AccumulatorError + HistoryProof" where
  "absence_witness shake256 r =
     (if length (headers r) \<ge> 2 ^ 32 then Inl Overflow
      else Inr (history_proof shake256 (headers r) (word_of_nat (length (headers r))) 0))"

definition ReferenceHistory_proof :: "hash \<Rightarrow> ReferenceHistory \<Rightarrow> u32 \<Rightarrow> AccumulatorError + HistoryProof" where
  "ReferenceHistory_proof shake256 r index =
     (if unat index \<ge> length (headers r) then Inl Bounds
      else Inr (history_proof shake256 (headers r) index (headers r ! unat index)))"

definition ReferenceHistory_append :: "ReferenceHistory \<Rightarrow> Root \<Rightarrow> AccumulatorError + ReferenceHistory" where
  "ReferenceHistory_append r header =
     (if header = 0 \<or> length (headers r) = 2 ^ 32 - 1 then Inl Bounds
      else Inr (r\<lparr>headers := headers r @ [header]\<rparr>))"

end
