(* ===== verification/Privacy_State.thy ===== *)
theory Privacy_State
  imports Accumulator
begin

text \<open>
  The consensus-facing values of the privacy kernel (\<^verbatim>\<open>privacy-kernel/src/lib.rs\<close>): notes, viewing
  and disclosure capabilities, credential presentations, private-object statements, the intents
  that move native value into and out of the shielded pool, the nullifier set and the pool.  A
  proof verifier's verdict arrives as a value; the kernel checks what it is bound to.
\<close>

section \<open>Statements and capabilities\<close>

definition MAX_SHIELDED_ITEMS :: usize where "MAX_SHIELDED_ITEMS = 16"
definition LEGACY_MAX_SPENT_NULLIFIERS :: usize where "LEGACY_MAX_SPENT_NULLIFIERS = 4096"
definition MAX_DISCLOSED_FIELDS :: usize where "MAX_DISCLOSED_FIELDS = 64"

datatype PrivacyError =
    EmptyTransfer | TooManyItems | ZeroValue | InvalidValidityWindow | InvalidViewingScope
  | NonCanonicalOrder | DuplicateNullifier | NullifierAlreadySpent | InvalidNullifierWitness
  | WrongChain | WrongAnchor | PrivacyExpired | PublicInputMismatch | ProofNotVerified
  | PrivacyCommitmentEncoding | ScopeEscalation

text \<open>Decoders report every constructor error of this crate as one message.\<close>

definition privacy_decode_error :: "PrivacyError \<Rightarrow> decode_error" where
  "privacy_decode_error _ = InvalidValue ''invalid privacy value''"

record VerifiedPrivacyProof =
  public_inputs_commitment :: Digest384
  proof_verified :: bool

record ShieldedNote =
  note_chain_id :: ChainId
  note_asset_id :: AssetId
  owner_key :: Digest384
  note_value :: u128
  blinding :: Digest384
  rho :: Digest384

definition ShieldedNote_new :: "ShieldedNote \<Rightarrow> PrivacyError + ShieldedNote" where
  "ShieldedNote_new r =
     (if note_value r = 0 then Inl ZeroValue else Inr r)"

definition encode_ShieldedNote :: "ShieldedNote \<Rightarrow> encoder \<Rightarrow> encode_error + encoder" where
  "encode_ShieldedNote r e =
     and_then (encode_typed_id (note_chain_id r) e) (\<lambda>e.
     and_then (encode_typed_id (note_asset_id r) e) (\<lambda>e.
     and_then (encode_Digest384 (owner_key r) e) (\<lambda>e.
     and_then (write_u128 (note_value r) e) (\<lambda>e.
     and_then (encode_Digest384 (blinding r) e) (\<lambda>e.
     encode_Digest384 (rho r) e)))))"

definition decode_ShieldedNote :: "decoder \<Rightarrow> decode_error + (ShieldedNote \<times> decoder)" where
  "decode_ShieldedNote d =
     and_then (decode_typed_id d) (\<lambda>(x0, d).
     and_then (decode_typed_id d) (\<lambda>(x1, d).
     and_then (decode_Digest384 d) (\<lambda>(x2, d).
     and_then (read_u128 d) (\<lambda>(x3, d).
     and_then (decode_Digest384 d) (\<lambda>(x4, d).
     and_then (decode_Digest384 d) (\<lambda>(x5, d).
     and_then (map_err privacy_decode_error
       (ShieldedNote_new \<lparr>note_chain_id = x0, note_asset_id = x1, owner_key = x2,
         note_value = x3, blinding = x4, rho = x5\<rparr>)) (\<lambda>r. Inr (r, d))))))))"

definition ShieldedNote_type :: "ShieldedNote canonical_type" where
  "ShieldedNote_type = \<lparr>ct_encode = encode_ShieldedNote, ct_decode = decode_ShieldedNote, ct_type_tag = 0x00a0,
     ct_schema_version = 1, ct_max_encoded_len = 48 * 5 + 16\<rparr>"

definition ShieldedNote_commitment :: "hash \<Rightarrow> ShieldedNote \<Rightarrow> PrivacyError + Digest384" where
  "ShieldedNote_commitment shake256 r = map_err (\<lambda>_. PrivacyCommitmentEncoding) (commit shake256 SHIELDED_NOTE ShieldedNote_type r)"

record NullifierOpening =
  opening_chain_id :: ChainId
  note_commitment :: Digest384
  nullifier_key :: Digest384
  note_position :: u64

definition encode_NullifierOpening :: "NullifierOpening \<Rightarrow> encoder \<Rightarrow> encode_error + encoder" where
  "encode_NullifierOpening r e =
     and_then (encode_typed_id (opening_chain_id r) e) (\<lambda>e.
     and_then (encode_Digest384 (note_commitment r) e) (\<lambda>e.
     and_then (encode_Digest384 (nullifier_key r) e) (\<lambda>e.
     write_u64 (note_position r) e)))"

definition decode_NullifierOpening :: "decoder \<Rightarrow> decode_error + (NullifierOpening \<times> decoder)" where
  "decode_NullifierOpening d =
     and_then (decode_typed_id d) (\<lambda>(x0, d).
     and_then (decode_Digest384 d) (\<lambda>(x1, d).
     and_then (decode_Digest384 d) (\<lambda>(x2, d).
     and_then (read_u64 d) (\<lambda>(x3, d).
     Inr (\<lparr>opening_chain_id = x0, note_commitment = x1, nullifier_key = x2, note_position =
       x3\<rparr>, d)))))"

definition NullifierOpening_type :: "NullifierOpening canonical_type" where
  "NullifierOpening_type = \<lparr>ct_encode = encode_NullifierOpening, ct_decode = decode_NullifierOpening, ct_type_tag = 0x00a1,
     ct_schema_version = 1, ct_max_encoded_len = 48 * 4 + 8\<rparr>"

definition nullifier :: "hash \<Rightarrow> NullifierOpening \<Rightarrow> PrivacyError + Digest384" where
  "nullifier shake256 r = map_err (\<lambda>_. PrivacyCommitmentEncoding) (commit shake256 NULLIFIER NullifierOpening_type r)"

record ViewingCapability =
  view_chain_id :: ChainId
  view_asset_id :: AssetId
  view_viewer :: PrincipalId
  view_key_commitment :: Digest384
  scope_commitment :: Digest384
  view_not_before :: u64
  view_expires_at :: u64

definition ViewingCapability_new :: "ViewingCapability \<Rightarrow> PrivacyError + ViewingCapability" where
  "ViewingCapability_new r =
     (if view_not_before r > view_expires_at r then Inl InvalidValidityWindow
      else if scope_commitment r = 0 then Inl InvalidViewingScope
      else Inr r)"

definition ViewingCapability_is_valid_at :: "ViewingCapability \<Rightarrow> u64 \<Rightarrow> bool" where
  "ViewingCapability_is_valid_at r height \<longleftrightarrow> view_not_before r \<le> height \<and> height \<le> view_expires_at r"

definition encode_ViewingCapability :: "ViewingCapability \<Rightarrow> encoder \<Rightarrow> encode_error + encoder" where
  "encode_ViewingCapability r e =
     and_then (encode_typed_id (view_chain_id r) e) (\<lambda>e.
     and_then (encode_typed_id (view_asset_id r) e) (\<lambda>e.
     and_then (encode_typed_id (view_viewer r) e) (\<lambda>e.
     and_then (encode_Digest384 (view_key_commitment r) e) (\<lambda>e.
     and_then (encode_Digest384 (scope_commitment r) e) (\<lambda>e.
     and_then (write_u64 (view_not_before r) e) (\<lambda>e.
     write_u64 (view_expires_at r) e))))))"

definition decode_ViewingCapability :: "decoder \<Rightarrow> decode_error + (ViewingCapability \<times> decoder)" where
  "decode_ViewingCapability d =
     and_then (decode_typed_id d) (\<lambda>(x0, d).
     and_then (decode_typed_id d) (\<lambda>(x1, d).
     and_then (decode_typed_id d) (\<lambda>(x2, d).
     and_then (decode_Digest384 d) (\<lambda>(x3, d).
     and_then (decode_Digest384 d) (\<lambda>(x4, d).
     and_then (read_u64 d) (\<lambda>(x5, d).
     and_then (read_u64 d) (\<lambda>(x6, d).
     and_then (map_err privacy_decode_error
       (ViewingCapability_new \<lparr>view_chain_id = x0, view_asset_id = x1, view_viewer = x2,
         view_key_commitment = x3, scope_commitment = x4, view_not_before = x5, view_expires_at =
         x6\<rparr>)) (\<lambda>r. Inr (r, d)))))))))"

definition ViewingCapability_type :: "ViewingCapability canonical_type" where
  "ViewingCapability_type = \<lparr>ct_encode = encode_ViewingCapability, ct_decode = decode_ViewingCapability, ct_type_tag = 0x00a2,
     ct_schema_version = 1, ct_max_encoded_len = 48 * 5 + 16\<rparr>"

record DomainPseudonymOpening =
  pseudonym_chain_id :: ChainId
  pseudonym_domain :: Digest384
  holder_secret_commitment :: Digest384
  pseudonym_epoch :: u64

definition DomainPseudonymOpening_new :: "DomainPseudonymOpening \<Rightarrow> PrivacyError + DomainPseudonymOpening" where
  "DomainPseudonymOpening_new r =
     (if pseudonym_domain r = ZERO \<or> holder_secret_commitment r = ZERO then Inl InvalidViewingScope
      else Inr r)"

definition encode_DomainPseudonymOpening :: "DomainPseudonymOpening \<Rightarrow> encoder \<Rightarrow> encode_error + encoder" where
  "encode_DomainPseudonymOpening r e =
     and_then (encode_typed_id (pseudonym_chain_id r) e) (\<lambda>e.
     and_then (encode_Digest384 (pseudonym_domain r) e) (\<lambda>e.
     and_then (encode_Digest384 (holder_secret_commitment r) e) (\<lambda>e.
     write_u64 (pseudonym_epoch r) e)))"

definition decode_DomainPseudonymOpening :: "decoder \<Rightarrow> decode_error + (DomainPseudonymOpening \<times> decoder)" where
  "decode_DomainPseudonymOpening d =
     and_then (decode_typed_id d) (\<lambda>(x0, d).
     and_then (decode_Digest384 d) (\<lambda>(x1, d).
     and_then (decode_Digest384 d) (\<lambda>(x2, d).
     and_then (read_u64 d) (\<lambda>(x3, d).
     and_then (map_err privacy_decode_error
       (DomainPseudonymOpening_new \<lparr>pseudonym_chain_id = x0, pseudonym_domain = x1,
         holder_secret_commitment = x2, pseudonym_epoch = x3\<rparr>)) (\<lambda>r. Inr (r,
         d))))))"

definition DomainPseudonymOpening_type :: "DomainPseudonymOpening canonical_type" where
  "DomainPseudonymOpening_type = \<lparr>ct_encode = encode_DomainPseudonymOpening, ct_decode = decode_DomainPseudonymOpening, ct_type_tag = 0x00a8,
     ct_schema_version = 1, ct_max_encoded_len = 48 * 3 + 8\<rparr>"

definition pseudonym :: "hash \<Rightarrow> DomainPseudonymOpening \<Rightarrow> PrivacyError + Digest384" where
  "pseudonym shake256 r = map_err (\<lambda>_. PrivacyCommitmentEncoding) (commit shake256 DOMAIN_PSEUDONYM DomainPseudonymOpening_type r)"

record PrivateCredentialPresentation =
  pres_chain_id :: ChainId
  pres_domain :: Digest384
  pres_pseudonym :: Digest384
  pres_issuer :: PrincipalId
  pres_schema :: Digest384
  credential_commitment :: Digest384
  status_registry_root :: Digest384
  status_sequence :: u64
  status_effective_height :: u64
  maximum_status_age :: u64
  non_revocation_commitment :: Digest384
  predicate_commitment :: Digest384
  pres_expires_at :: u64

definition PrivateCredentialPresentation_new :: "PrivateCredentialPresentation \<Rightarrow> PrivacyError + PrivateCredentialPresentation" where
  "PrivateCredentialPresentation_new r =
     (if pres_domain r = ZERO \<or> pres_pseudonym r = ZERO \<or> status_registry_root r = ZERO
        \<or> non_revocation_commitment r = ZERO \<or> predicate_commitment r = ZERO
      then Inl InvalidViewingScope
      else if status_sequence r = 0 \<or> maximum_status_age r = 0 \<or> status_effective_height r > pres_expires_at r
      then Inl InvalidValidityWindow
      else Inr r)"

definition encode_PrivateCredentialPresentation :: "PrivateCredentialPresentation \<Rightarrow> encoder \<Rightarrow> encode_error + encoder" where
  "encode_PrivateCredentialPresentation r e =
     and_then (encode_typed_id (pres_chain_id r) e) (\<lambda>e.
     and_then (encode_Digest384 (pres_domain r) e) (\<lambda>e.
     and_then (encode_Digest384 (pres_pseudonym r) e) (\<lambda>e.
     and_then (encode_typed_id (pres_issuer r) e) (\<lambda>e.
     and_then (encode_Digest384 (pres_schema r) e) (\<lambda>e.
     and_then (encode_Digest384 (credential_commitment r) e) (\<lambda>e.
     and_then (encode_Digest384 (status_registry_root r) e) (\<lambda>e.
     and_then (write_u64 (status_sequence r) e) (\<lambda>e.
     and_then (write_u64 (status_effective_height r) e) (\<lambda>e.
     and_then (write_u64 (maximum_status_age r) e) (\<lambda>e.
     and_then (encode_Digest384 (non_revocation_commitment r) e) (\<lambda>e.
     and_then (encode_Digest384 (predicate_commitment r) e) (\<lambda>e.
     write_u64 (pres_expires_at r) e))))))))))))"

definition decode_PrivateCredentialPresentation :: "decoder \<Rightarrow> decode_error + (PrivateCredentialPresentation \<times> decoder)" where
  "decode_PrivateCredentialPresentation d =
     and_then (decode_typed_id d) (\<lambda>(x0, d).
     and_then (decode_Digest384 d) (\<lambda>(x1, d).
     and_then (decode_Digest384 d) (\<lambda>(x2, d).
     and_then (decode_typed_id d) (\<lambda>(x3, d).
     and_then (decode_Digest384 d) (\<lambda>(x4, d).
     and_then (decode_Digest384 d) (\<lambda>(x5, d).
     and_then (decode_Digest384 d) (\<lambda>(x6, d).
     and_then (read_u64 d) (\<lambda>(x7, d).
     and_then (read_u64 d) (\<lambda>(x8, d).
     and_then (read_u64 d) (\<lambda>(x9, d).
     and_then (decode_Digest384 d) (\<lambda>(x10, d).
     and_then (decode_Digest384 d) (\<lambda>(x11, d).
     and_then (read_u64 d) (\<lambda>(x12, d).
     and_then (map_err privacy_decode_error
       (PrivateCredentialPresentation_new \<lparr>pres_chain_id = x0, pres_domain = x1,
         pres_pseudonym = x2, pres_issuer = x3, pres_schema = x4, credential_commitment = x5,
         status_registry_root = x6, status_sequence = x7, status_effective_height = x8,
         maximum_status_age = x9, non_revocation_commitment = x10, predicate_commitment = x11,
         pres_expires_at = x12\<rparr>)) (\<lambda>r. Inr (r, d)))))))))))))))"

definition PrivateCredentialPresentation_type :: "PrivateCredentialPresentation canonical_type" where
  "PrivateCredentialPresentation_type = \<lparr>ct_encode = encode_PrivateCredentialPresentation, ct_decode = decode_PrivateCredentialPresentation, ct_type_tag = 0x00a9,
     ct_schema_version = 1, ct_max_encoded_len = 48 * 9 + 8 * 4\<rparr>"

definition PrivateCredentialPresentation_commitment :: "hash \<Rightarrow> PrivateCredentialPresentation \<Rightarrow> PrivacyError + Digest384" where
  "PrivateCredentialPresentation_commitment shake256 r = map_err (\<lambda>_. PrivacyCommitmentEncoding) (commit shake256 PRIVATE_CREDENTIAL_PRESENTATION PrivateCredentialPresentation_type r)"

definition PrivateCredentialPresentation_verify ::
    "hash \<Rightarrow> PrivateCredentialPresentation \<Rightarrow> VerifiedPrivacyProof \<Rightarrow> ChainId \<Rightarrow> Digest384 \<Rightarrow> Digest384
     \<Rightarrow> u64 \<Rightarrow> u64 \<Rightarrow> PrivacyError + unit" where
  "PrivateCredentialPresentation_verify shake256 r proof_result expected_chain expected_domain
       finalized_registry_root minimum_status_sequence current_height =
     (if pres_chain_id r \<noteq> expected_chain then Inl WrongChain
      else if pres_domain r \<noteq> expected_domain \<or> status_registry_root r \<noteq> finalized_registry_root
        \<or> status_sequence r < minimum_status_sequence
      then Inl PublicInputMismatch
      else if current_height > pres_expires_at r \<or> current_height < status_effective_height r
        \<or> current_height - status_effective_height r > maximum_status_age r
      then Inl PrivacyExpired
      else if \<not> proof_verified proof_result then Inl ProofNotVerified
      else
        and_then (PrivateCredentialPresentation_commitment shake256 r) (\<lambda>commitment.
        if public_inputs_commitment proof_result \<noteq> commitment then Inl PublicInputMismatch else Inr ()))"

record DisclosureCapability =
  disc_chain_id :: ChainId
  object_commitment :: Digest384
  disc_viewer :: PrincipalId
  disc_key_commitment :: Digest384
  disc_purpose :: Digest384
  disc_fields :: "u16 list"
  disc_not_before :: u64
  disc_expires_at :: u64

definition DisclosureCapability_new :: "DisclosureCapability \<Rightarrow> PrivacyError + DisclosureCapability" where
  "DisclosureCapability_new r =
     (if object_commitment r = ZERO \<or> disc_key_commitment r = ZERO \<or> disc_purpose r = ZERO
        \<or> disc_fields r = [] \<or> length (disc_fields r) > MAX_DISCLOSED_FIELDS
      then Inl InvalidViewingScope
      else if \<not> strictly_increasing (disc_fields r) then Inl NonCanonicalOrder
      else if disc_not_before r > disc_expires_at r then Inl InvalidValidityWindow
      else Inr r)"

definition DisclosureCapability_is_valid_at :: "DisclosureCapability \<Rightarrow> u64 \<Rightarrow> bool" where
  "DisclosureCapability_is_valid_at r height \<longleftrightarrow> disc_not_before r \<le> height \<and> height \<le> disc_expires_at r"

definition DisclosureCapability_verify_attenuation ::
    "DisclosureCapability \<Rightarrow> DisclosureCapability \<Rightarrow> PrivacyError + unit" where
  "DisclosureCapability_verify_attenuation parent c =
     (if disc_chain_id c \<noteq> disc_chain_id parent
        \<or> object_commitment c \<noteq> object_commitment parent
        \<or> disc_viewer c \<noteq> disc_viewer parent
        \<or> disc_key_commitment c \<noteq> disc_key_commitment parent
        \<or> disc_purpose c \<noteq> disc_purpose parent
        \<or> disc_not_before c < disc_not_before parent
        \<or> disc_expires_at c > disc_expires_at parent
        \<or> \<not> list_all (\<lambda>field. binary_search field (disc_fields parent) \<noteq> None) (disc_fields c)
      then Inl ScopeEscalation
      else Inr ())"

definition encode_DisclosureCapability :: "DisclosureCapability \<Rightarrow> encoder \<Rightarrow> encode_error + encoder" where
  "encode_DisclosureCapability r e =
     and_then (encode_typed_id (disc_chain_id r) e) (\<lambda>e.
     and_then (encode_Digest384 (object_commitment r) e) (\<lambda>e.
     and_then (encode_typed_id (disc_viewer r) e) (\<lambda>e.
     and_then (encode_Digest384 (disc_key_commitment r) e) (\<lambda>e.
     and_then (encode_Digest384 (disc_purpose r) e) (\<lambda>e.
     and_then (encode_vec write_u16 MAX_DISCLOSED_FIELDS (disc_fields r) e) (\<lambda>e.
     and_then (write_u64 (disc_not_before r) e) (\<lambda>e.
     write_u64 (disc_expires_at r) e)))))))"

definition decode_DisclosureCapability :: "decoder \<Rightarrow> decode_error + (DisclosureCapability \<times> decoder)" where
  "decode_DisclosureCapability d =
     and_then (decode_typed_id d) (\<lambda>(x0, d).
     and_then (decode_Digest384 d) (\<lambda>(x1, d).
     and_then (decode_typed_id d) (\<lambda>(x2, d).
     and_then (decode_Digest384 d) (\<lambda>(x3, d).
     and_then (decode_Digest384 d) (\<lambda>(x4, d).
     and_then (decode_vec read_u16 MAX_DISCLOSED_FIELDS d) (\<lambda>(x5, d).
     and_then (read_u64 d) (\<lambda>(x6, d).
     and_then (read_u64 d) (\<lambda>(x7, d).
     and_then (map_err privacy_decode_error
       (DisclosureCapability_new \<lparr>disc_chain_id = x0, object_commitment = x1, disc_viewer =
         x2, disc_key_commitment = x3, disc_purpose = x4, disc_fields = x5, disc_not_before = x6,
         disc_expires_at = x7\<rparr>)) (\<lambda>r. Inr (r, d))))))))))"

definition DisclosureCapability_type :: "DisclosureCapability canonical_type" where
  "DisclosureCapability_type = \<lparr>ct_encode = encode_DisclosureCapability, ct_decode = decode_DisclosureCapability, ct_type_tag = 0x00aa,
     ct_schema_version = 1, ct_max_encoded_len = 48 * 5 + 1 + MAX_DISCLOSED_FIELDS * 2 + 16\<rparr>"

record PrivateObjectTransition =
  ptr_chain_id :: ChainId
  pre_state_root :: Digest384
  post_state_root :: Digest384
  object_class :: Digest384
  prior_object_commitment :: Digest384
  output_object_commitment :: Digest384
  authorization_commitment :: Digest384
  policy_decision_commitment :: Digest384
  program_commitment :: Digest384
  access_manifest_commitment :: Digest384
  disclosure_root :: Digest384
  ptr_expires_at :: u64

definition PrivateObjectTransition_new :: "PrivateObjectTransition \<Rightarrow> PrivacyError + PrivateObjectTransition" where
  "PrivateObjectTransition_new r =
     (if ZERO \<in> set [pre_state_root r, post_state_root r, object_class r, prior_object_commitment r,
          output_object_commitment r, authorization_commitment r, policy_decision_commitment r,
          program_commitment r, access_manifest_commitment r, disclosure_root r]
        \<or> pre_state_root r = post_state_root r
      then Inl PublicInputMismatch
      else Inr r)"

definition encode_PrivateObjectTransition :: "PrivateObjectTransition \<Rightarrow> encoder \<Rightarrow> encode_error + encoder" where
  "encode_PrivateObjectTransition r e =
     and_then (encode_typed_id (ptr_chain_id r) e) (\<lambda>e.
     and_then (encode_Digest384 (pre_state_root r) e) (\<lambda>e.
     and_then (encode_Digest384 (post_state_root r) e) (\<lambda>e.
     and_then (encode_Digest384 (object_class r) e) (\<lambda>e.
     and_then (encode_Digest384 (prior_object_commitment r) e) (\<lambda>e.
     and_then (encode_Digest384 (output_object_commitment r) e) (\<lambda>e.
     and_then (encode_Digest384 (authorization_commitment r) e) (\<lambda>e.
     and_then (encode_Digest384 (policy_decision_commitment r) e) (\<lambda>e.
     and_then (encode_Digest384 (program_commitment r) e) (\<lambda>e.
     and_then (encode_Digest384 (access_manifest_commitment r) e) (\<lambda>e.
     and_then (encode_Digest384 (disclosure_root r) e) (\<lambda>e.
     write_u64 (ptr_expires_at r) e)))))))))))"

definition decode_PrivateObjectTransition :: "decoder \<Rightarrow> decode_error + (PrivateObjectTransition \<times> decoder)" where
  "decode_PrivateObjectTransition d =
     and_then (decode_typed_id d) (\<lambda>(x0, d).
     and_then (decode_Digest384 d) (\<lambda>(x1, d).
     and_then (decode_Digest384 d) (\<lambda>(x2, d).
     and_then (decode_Digest384 d) (\<lambda>(x3, d).
     and_then (decode_Digest384 d) (\<lambda>(x4, d).
     and_then (decode_Digest384 d) (\<lambda>(x5, d).
     and_then (decode_Digest384 d) (\<lambda>(x6, d).
     and_then (decode_Digest384 d) (\<lambda>(x7, d).
     and_then (decode_Digest384 d) (\<lambda>(x8, d).
     and_then (decode_Digest384 d) (\<lambda>(x9, d).
     and_then (decode_Digest384 d) (\<lambda>(x10, d).
     and_then (read_u64 d) (\<lambda>(x11, d).
     and_then (map_err privacy_decode_error
       (PrivateObjectTransition_new \<lparr>ptr_chain_id = x0, pre_state_root = x1,
         post_state_root = x2, object_class = x3, prior_object_commitment = x4,
         output_object_commitment = x5, authorization_commitment = x6, policy_decision_commitment
         = x7, program_commitment = x8, access_manifest_commitment = x9, disclosure_root = x10,
         ptr_expires_at = x11\<rparr>)) (\<lambda>r. Inr (r, d))))))))))))))"

definition PrivateObjectTransition_type :: "PrivateObjectTransition canonical_type" where
  "PrivateObjectTransition_type = \<lparr>ct_encode = encode_PrivateObjectTransition, ct_decode = decode_PrivateObjectTransition, ct_type_tag = 0x00ab,
     ct_schema_version = 1, ct_max_encoded_len = 48 * 11 + 8\<rparr>"

definition PrivateObjectTransition_commitment :: "hash \<Rightarrow> PrivateObjectTransition \<Rightarrow> PrivacyError + Digest384" where
  "PrivateObjectTransition_commitment shake256 r = map_err (\<lambda>_. PrivacyCommitmentEncoding) (commit shake256 PRIVATE_OBJECT_TRANSITION PrivateObjectTransition_type r)"

definition PrivateObjectTransition_verify ::
    "hash \<Rightarrow> PrivateObjectTransition \<Rightarrow> VerifiedPrivacyProof \<Rightarrow> ChainId \<Rightarrow> Digest384 \<Rightarrow> u64
     \<Rightarrow> PrivacyError + Digest384" where
  "PrivateObjectTransition_verify shake256 r proof_result expected_chain expected_pre_state_root current_height =
     (if ptr_chain_id r \<noteq> expected_chain then Inl WrongChain
      else if pre_state_root r \<noteq> expected_pre_state_root then Inl WrongAnchor
      else if current_height > ptr_expires_at r then Inl PrivacyExpired
      else if \<not> proof_verified proof_result then Inl ProofNotVerified
      else
        and_then (PrivateObjectTransition_commitment shake256 r) (\<lambda>commitment.
        if public_inputs_commitment proof_result \<noteq> commitment then Inl PublicInputMismatch
        else Inr (post_state_root r)))"

section \<open>Shielded transfers and the cash boundary\<close>

text \<open>The byte comparison of \<open>strictly_sorted\<close> is the order of digests.\<close>

definition strictly_sorted :: "Digest384 list \<Rightarrow> bool" where
  "strictly_sorted digests = strictly_increasing digests"

record ShieldedTransferPublicInputs =
  sti_chain_id :: ChainId
  sti_anchor :: Digest384
  sti_asset_id :: AssetId
  balance_commitment :: Digest384
  sti_nullifiers :: "Digest384 list"
  sti_output_commitments :: "Digest384 list"
  sti_fee :: u128
  sti_expires_at :: u64

definition ShieldedTransferPublicInputs_new :: "ShieldedTransferPublicInputs \<Rightarrow> PrivacyError + ShieldedTransferPublicInputs" where
  "ShieldedTransferPublicInputs_new r =
     (if sti_nullifiers r = [] \<or> sti_output_commitments r = [] then Inl EmptyTransfer
      else if length (sti_nullifiers r) > MAX_SHIELDED_ITEMS
        \<or> length (sti_output_commitments r) > MAX_SHIELDED_ITEMS
      then Inl TooManyItems
      else if \<not> strictly_sorted (sti_nullifiers r) \<or> \<not> strictly_sorted (sti_output_commitments r)
      then Inl NonCanonicalOrder
      else Inr r)"

definition encode_ShieldedTransferPublicInputs :: "ShieldedTransferPublicInputs \<Rightarrow> encoder \<Rightarrow> encode_error + encoder" where
  "encode_ShieldedTransferPublicInputs r e =
     and_then (encode_typed_id (sti_chain_id r) e) (\<lambda>e.
     and_then (encode_Digest384 (sti_anchor r) e) (\<lambda>e.
     and_then (encode_typed_id (sti_asset_id r) e) (\<lambda>e.
     and_then (encode_Digest384 (balance_commitment r) e) (\<lambda>e.
     and_then (encode_vec encode_Digest384 MAX_SHIELDED_ITEMS (sti_nullifiers r) e) (\<lambda>e.
     and_then (encode_vec encode_Digest384 MAX_SHIELDED_ITEMS (sti_output_commitments r) e) (\<lambda>e.
     and_then (write_u128 (sti_fee r) e) (\<lambda>e.
     write_u64 (sti_expires_at r) e)))))))"

definition decode_ShieldedTransferPublicInputs :: "decoder \<Rightarrow> decode_error + (ShieldedTransferPublicInputs \<times> decoder)" where
  "decode_ShieldedTransferPublicInputs d =
     and_then (decode_typed_id d) (\<lambda>(x0, d).
     and_then (decode_Digest384 d) (\<lambda>(x1, d).
     and_then (decode_typed_id d) (\<lambda>(x2, d).
     and_then (decode_Digest384 d) (\<lambda>(x3, d).
     and_then (decode_vec decode_Digest384 MAX_SHIELDED_ITEMS d) (\<lambda>(x4, d).
     and_then (decode_vec decode_Digest384 MAX_SHIELDED_ITEMS d) (\<lambda>(x5, d).
     and_then (read_u128 d) (\<lambda>(x6, d).
     and_then (read_u64 d) (\<lambda>(x7, d).
     and_then (map_err privacy_decode_error
       (ShieldedTransferPublicInputs_new \<lparr>sti_chain_id = x0, sti_anchor = x1, sti_asset_id
         = x2, balance_commitment = x3, sti_nullifiers = x4, sti_output_commitments = x5, sti_fee
         = x6, sti_expires_at = x7\<rparr>)) (\<lambda>r. Inr (r, d))))))))))"

definition ShieldedTransferPublicInputs_type :: "ShieldedTransferPublicInputs canonical_type" where
  "ShieldedTransferPublicInputs_type = \<lparr>ct_encode = encode_ShieldedTransferPublicInputs, ct_decode = decode_ShieldedTransferPublicInputs, ct_type_tag = 0x00a3,
     ct_schema_version = 1, ct_max_encoded_len = 48 * (4 + MAX_SHIELDED_ITEMS * 2) + 2 + 16 + 8\<rparr>"

definition ShieldedTransferPublicInputs_commitment :: "hash \<Rightarrow> ShieldedTransferPublicInputs \<Rightarrow> PrivacyError + Digest384" where
  "ShieldedTransferPublicInputs_commitment shake256 r = map_err (\<lambda>_. PrivacyCommitmentEncoding) (commit shake256 PRIVACY_PUBLIC_INPUTS ShieldedTransferPublicInputs_type r)"

record ShieldIntent =
  shield_chain_id :: ChainId
  shield_asset_id :: AssetId
  shield_owner :: PrincipalId
  shield_inputs :: "CoinCellId list"
  shield_fee_reserve :: CoinCellId
  shield_amount :: u128
  shield_fee :: u128
  shield_output_commitments :: "Digest384 list"
  shield_valid_until :: u64

definition ShieldIntent_new :: "ShieldIntent \<Rightarrow> PrivacyError + ShieldIntent" where
  "ShieldIntent_new r =
     (if shield_amount r = 0 then Inl ZeroValue
      else if shield_inputs r = [] \<or> length (shield_inputs r) > MAX_SHIELDED_ITEMS
        \<or> shield_output_commitments r = [] \<or> length (shield_output_commitments r) > MAX_SHIELDED_ITEMS
      then Inl TooManyItems
      else if \<not> strictly_increasing (shield_inputs r)
        \<or> binary_search (shield_fee_reserve r) (shield_inputs r) \<noteq> None
        \<or> \<not> strictly_sorted (shield_output_commitments r)
      then Inl NonCanonicalOrder
      else Inr r)"

definition encode_ShieldIntent :: "ShieldIntent \<Rightarrow> encoder \<Rightarrow> encode_error + encoder" where
  "encode_ShieldIntent r e =
     and_then (encode_typed_id (shield_chain_id r) e) (\<lambda>e.
     and_then (encode_typed_id (shield_asset_id r) e) (\<lambda>e.
     and_then (encode_typed_id (shield_owner r) e) (\<lambda>e.
     and_then (encode_vec encode_typed_id MAX_SHIELDED_ITEMS (shield_inputs r) e) (\<lambda>e.
     and_then (encode_typed_id (shield_fee_reserve r) e) (\<lambda>e.
     and_then (write_u128 (shield_amount r) e) (\<lambda>e.
     and_then (write_u128 (shield_fee r) e) (\<lambda>e.
     and_then (encode_vec encode_Digest384 MAX_SHIELDED_ITEMS (shield_output_commitments r) e) (\<lambda>e.
     write_u64 (shield_valid_until r) e))))))))"

definition decode_ShieldIntent :: "decoder \<Rightarrow> decode_error + (ShieldIntent \<times> decoder)" where
  "decode_ShieldIntent d =
     and_then (decode_typed_id d) (\<lambda>(x0, d).
     and_then (decode_typed_id d) (\<lambda>(x1, d).
     and_then (decode_typed_id d) (\<lambda>(x2, d).
     and_then (decode_vec decode_typed_id MAX_SHIELDED_ITEMS d) (\<lambda>(x3, d).
     and_then (decode_typed_id d) (\<lambda>(x4, d).
     and_then (read_u128 d) (\<lambda>(x5, d).
     and_then (read_u128 d) (\<lambda>(x6, d).
     and_then (decode_vec decode_Digest384 MAX_SHIELDED_ITEMS d) (\<lambda>(x7, d).
     and_then (read_u64 d) (\<lambda>(x8, d).
     and_then (map_err privacy_decode_error
       (ShieldIntent_new \<lparr>shield_chain_id = x0, shield_asset_id = x1, shield_owner = x2,
         shield_inputs = x3, shield_fee_reserve = x4, shield_amount = x5, shield_fee = x6,
         shield_output_commitments = x7, shield_valid_until = x8\<rparr>)) (\<lambda>r. Inr (r,
         d)))))))))))"

definition ShieldIntent_type :: "ShieldIntent canonical_type" where
  "ShieldIntent_type = \<lparr>ct_encode = encode_ShieldIntent, ct_decode = decode_ShieldIntent, ct_type_tag = 0x00a6,
     ct_schema_version = 1, ct_max_encoded_len = 48 * (4 + MAX_SHIELDED_ITEMS * 2) + 2 + 16 * 2 + 8\<rparr>"

record NullifierWitness =
  nw_nullifier :: Digest384
  nw_siblings :: "Digest384 list"

definition NullifierWitness_new :: "NullifierWitness \<Rightarrow> PrivacyError + NullifierWitness" where
  "NullifierWitness_new r =
     (if nw_nullifier r = ZERO \<or> length (nw_siblings r) \<noteq> KEY_BITS then Inl InvalidNullifierWitness
      else Inr r)"

definition encode_NullifierWitness :: "NullifierWitness \<Rightarrow> encoder \<Rightarrow> encode_error + encoder" where
  "encode_NullifierWitness r e =
     and_then (encode_Digest384 (nw_nullifier r) e) (\<lambda>e.
     encode_each encode_Digest384 (nw_siblings r) e)"

definition decode_NullifierWitness :: "decoder \<Rightarrow> decode_error + (NullifierWitness \<times> decoder)" where
  "decode_NullifierWitness d =
     and_then (decode_Digest384 d) (\<lambda>(x0, d).
     and_then (decode_each decode_Digest384 KEY_BITS d) (\<lambda>(x1, d).
     and_then (map_err privacy_decode_error
       (NullifierWitness_new \<lparr>nw_nullifier = x0, nw_siblings = x1\<rparr>)) (\<lambda>r.
         Inr (r, d))))"

definition NullifierWitness_type :: "NullifierWitness canonical_type" where
  "NullifierWitness_type = \<lparr>ct_encode = encode_NullifierWitness, ct_decode = decode_NullifierWitness, ct_type_tag = 0x014e,
     ct_schema_version = 1, ct_max_encoded_len = 48 * (1 + KEY_BITS)\<rparr>"

definition accumulator_witness :: "NullifierWitness \<Rightarrow> NonMembershipWitness" where
  "accumulator_witness r = \<lparr>witness_key = nw_nullifier r, witness_siblings = nw_siblings r\<rparr>"

record UnshieldIntent =
  unshield_chain_id :: ChainId
  unshield_asset_id :: AssetId
  unshield_anchor :: Digest384
  unshield_recipient :: PrincipalId
  unshield_amount :: u128
  unshield_fee :: u128
  unshield_nullifiers :: "Digest384 list"
  nullifier_witnesses :: "NullifierWitness list"
  change_commitments :: "Digest384 list"
  unshield_valid_until :: u64

definition UnshieldIntent_new :: "UnshieldIntent \<Rightarrow> PrivacyError + UnshieldIntent" where
  "UnshieldIntent_new r =
     (if unshield_amount r = 0 then Inl ZeroValue
      else if unshield_nullifiers r = [] \<or> length (unshield_nullifiers r) > MAX_SHIELDED_ITEMS
        \<or> length (nullifier_witnesses r) \<noteq> length (unshield_nullifiers r)
        \<or> length (change_commitments r) > MAX_SHIELDED_ITEMS
      then Inl TooManyItems
      else if \<not> strictly_sorted (unshield_nullifiers r) \<or> \<not> strictly_sorted (change_commitments r)
      then Inl NonCanonicalOrder
      else if \<not> list_all (\<lambda>(n, witness). n = nw_nullifier witness)
          (zip (unshield_nullifiers r) (nullifier_witnesses r))
      then Inl InvalidNullifierWitness
      else Inr r)"

definition encode_UnshieldIntent :: "UnshieldIntent \<Rightarrow> encoder \<Rightarrow> encode_error + encoder" where
  "encode_UnshieldIntent r e =
     and_then (encode_typed_id (unshield_chain_id r) e) (\<lambda>e.
     and_then (encode_typed_id (unshield_asset_id r) e) (\<lambda>e.
     and_then (encode_Digest384 (unshield_anchor r) e) (\<lambda>e.
     and_then (encode_typed_id (unshield_recipient r) e) (\<lambda>e.
     and_then (write_u128 (unshield_amount r) e) (\<lambda>e.
     and_then (write_u128 (unshield_fee r) e) (\<lambda>e.
     and_then (encode_vec encode_Digest384 MAX_SHIELDED_ITEMS (unshield_nullifiers r) e) (\<lambda>e.
     and_then (encode_each encode_NullifierWitness (nullifier_witnesses r) e) (\<lambda>e.
     and_then (encode_vec encode_Digest384 MAX_SHIELDED_ITEMS (change_commitments r) e) (\<lambda>e.
     write_u64 (unshield_valid_until r) e)))))))))"

definition decode_UnshieldIntent :: "decoder \<Rightarrow> decode_error + (UnshieldIntent \<times> decoder)" where
  "decode_UnshieldIntent d =
     and_then (decode_typed_id d) (\<lambda>(x0, d).
     and_then (decode_typed_id d) (\<lambda>(x1, d).
     and_then (decode_Digest384 d) (\<lambda>(x2, d).
     and_then (decode_typed_id d) (\<lambda>(x3, d).
     and_then (read_u128 d) (\<lambda>(x4, d).
     and_then (read_u128 d) (\<lambda>(x5, d).
     and_then (decode_vec decode_Digest384 MAX_SHIELDED_ITEMS d) (\<lambda>(x6, d).
     and_then (decode_each decode_NullifierWitness (length x6) d) (\<lambda>(x7, d).
     and_then (decode_vec decode_Digest384 MAX_SHIELDED_ITEMS d) (\<lambda>(x8, d).
     and_then (read_u64 d) (\<lambda>(x9, d).
     and_then (map_err privacy_decode_error
       (UnshieldIntent_new \<lparr>unshield_chain_id = x0, unshield_asset_id = x1, unshield_anchor
         = x2, unshield_recipient = x3, unshield_amount = x4, unshield_fee = x5,
         unshield_nullifiers = x6, nullifier_witnesses = x7, change_commitments = x8,
         unshield_valid_until = x9\<rparr>)) (\<lambda>r. Inr (r, d))))))))))))"

definition UnshieldIntent_type :: "UnshieldIntent canonical_type" where
  "UnshieldIntent_type = \<lparr>ct_encode = encode_UnshieldIntent, ct_decode = decode_UnshieldIntent, ct_type_tag = 0x00a7,
     ct_schema_version = 2, ct_max_encoded_len = 48 * (4 + MAX_SHIELDED_ITEMS * 2) + 18480 * MAX_SHIELDED_ITEMS + 2 + 16 * 2 + 8\<rparr>"

section \<open>Nullifiers and the shielded pool\<close>

record NullifierSet =
  nullifier_root :: Digest384
  nullifier_count :: u64

definition NullifierSet_new :: "NullifierSet \<Rightarrow> PrivacyError + NullifierSet" where
  "NullifierSet_new r =
     (if nullifier_root r = ZERO then Inl InvalidNullifierWitness else Inr r)"

definition encode_NullifierSet :: "NullifierSet \<Rightarrow> encoder \<Rightarrow> encode_error + encoder" where
  "encode_NullifierSet r e =
     and_then (encode_Digest384 (nullifier_root r) e) (\<lambda>e.
     write_u64 (nullifier_count r) e)"

definition decode_NullifierSet :: "decoder \<Rightarrow> decode_error + (NullifierSet \<times> decoder)" where
  "decode_NullifierSet d =
     and_then (decode_Digest384 d) (\<lambda>(x0, d).
     and_then (read_u64 d) (\<lambda>(x1, d).
     and_then (map_err privacy_decode_error
       (NullifierSet_new \<lparr>nullifier_root = x0, nullifier_count = x1\<rparr>)) (\<lambda>r.
         Inr (r, d))))"

definition NullifierSet_type :: "NullifierSet canonical_type" where
  "NullifierSet_type = \<lparr>ct_encode = encode_NullifierSet, ct_decode = decode_NullifierSet, ct_type_tag = 0x00a4,
     ct_schema_version = 2, ct_max_encoded_len = 48 + 8\<rparr>"

definition NullifierSet_from_commitment :: "SetCommitment \<Rightarrow> NullifierSet" where
  "NullifierSet_from_commitment c = \<lparr>nullifier_root = set_root c, nullifier_count = set_count c\<rparr>"

definition NullifierSet_commitment :: "NullifierSet \<Rightarrow> SetCommitment" where
  "NullifierSet_commitment r =
     \<lparr>set_domain = Nullifier, set_root = nullifier_root r, set_count = nullifier_count r\<rparr>"

definition NullifierSet_empty :: "hash \<Rightarrow> NullifierSet" where
  "NullifierSet_empty shake256 = NullifierSet_from_commitment (SetCommitment_empty shake256 Nullifier)"

text \<open>
  The loop that rebuilds an accumulator from the strictly ordered key list of a schema-v1
  snapshot; the reward ledger uses the same loop with its own messages.
\<close>

primrec decode_legacy_keys ::
    "hash \<Rightarrow> string \<Rightarrow> string \<Rightarrow> nat \<Rightarrow> ReferenceSet \<Rightarrow> Digest384 option \<Rightarrow> decoder
     \<Rightarrow> decode_error + (ReferenceSet \<times> decoder)" where
  "decode_legacy_keys shake256 order_message insert_message 0 reference previous d = Inr (reference, d)"
| "decode_legacy_keys shake256 order_message insert_message (Suc n) reference previous d =
     and_then (decode_Digest384 d) (\<lambda>(key, d).
     if is_some_and (\<lambda>prior. prior \<ge> key) previous then Inl (InvalidValue order_message)
     else
       and_then (map_err (\<lambda>_. InvalidValue insert_message) (ReferenceSet_insert shake256 reference key))
         (\<lambda>reference.
       decode_legacy_keys shake256 order_message insert_message n reference (Some key) d))"

definition NullifierSet_decode_legacy_v1 :: "hash \<Rightarrow> decoder \<Rightarrow> decode_error + (NullifierSet \<times> decoder)" where
  "NullifierSet_decode_legacy_v1 shake256 d =
     and_then (read_length LEGACY_MAX_SPENT_NULLIFIERS d) (\<lambda>(n, d).
     and_then (decode_legacy_keys shake256 ''legacy nullifiers are not strictly ordered''
       ''invalid legacy nullifier set'' n (ReferenceSet_new shake256 Nullifier) None d) (\<lambda>(reference, d).
     Inr (NullifierSet_from_commitment (ref_commitment reference), d)))"

fun consume_loop ::
    "hash \<Rightarrow> SetCommitment \<Rightarrow> (Digest384 \<times> NullifierWitness) list \<Rightarrow> PrivacyError + SetCommitment" where
  "consume_loop shake256 c [] = Inr c"
| "consume_loop shake256 c ((n, witness) # rest) =
     (if nw_nullifier witness \<noteq> n then Inl InvalidNullifierWitness
      else
        and_then (map_err (\<lambda>_. InvalidNullifierWitness)
          (SetCommitment_insert shake256 c n (accumulator_witness witness))) (\<lambda>c.
        consume_loop shake256 c rest))"

definition consume_verified ::
    "hash \<Rightarrow> NullifierSet \<Rightarrow> Digest384 list \<Rightarrow> NullifierWitness list \<Rightarrow> PrivacyError + NullifierSet" where
  "consume_verified shake256 r nullifiers witnesses =
     (if nullifiers = [] \<or> length nullifiers > MAX_SHIELDED_ITEMS then Inl EmptyTransfer
      else if \<not> strictly_sorted nullifiers then Inl NonCanonicalOrder
      else if length witnesses \<noteq> length nullifiers then Inl InvalidNullifierWitness
      else
        and_then (consume_loop shake256 (NullifierSet_commitment r) (zip nullifiers witnesses))
          (\<lambda>c. Inr (NullifierSet_from_commitment c)))"

definition NullifierSet_admit ::
    "hash \<Rightarrow> NullifierSet \<Rightarrow> ShieldedTransferPublicInputs \<Rightarrow> VerifiedPrivacyProof \<Rightarrow> ChainId \<Rightarrow> Digest384 \<Rightarrow> u64
     \<Rightarrow> NullifierWitness list \<Rightarrow> PrivacyError + NullifierSet" where
  "NullifierSet_admit shake256 r inputs proof_result expected_chain expected_anchor current_height witnesses =
     (if sti_chain_id inputs \<noteq> expected_chain then Inl WrongChain
      else if sti_anchor inputs \<noteq> expected_anchor then Inl WrongAnchor
      else if current_height > sti_expires_at inputs then Inl PrivacyExpired
      else if \<not> proof_verified proof_result then Inl ProofNotVerified
      else
        and_then (ShieldedTransferPublicInputs_commitment shake256 inputs) (\<lambda>commitment.
        if public_inputs_commitment proof_result \<noteq> commitment then Inl PublicInputMismatch
        else consume_verified shake256 r (sti_nullifiers inputs) witnesses))"

record ShieldedCashState =
  pool_balance :: u128
  cash_anchor :: Digest384
  cash_nullifiers :: NullifierSet

definition ShieldedCashState_new :: "ShieldedCashState \<Rightarrow> PrivacyError + ShieldedCashState" where
  "ShieldedCashState_new r =
     (if pool_balance r = 0 \<and> cash_anchor r \<noteq> ZERO then Inl WrongAnchor else Inr r)"

definition encode_ShieldedCashState :: "ShieldedCashState \<Rightarrow> encoder \<Rightarrow> encode_error + encoder" where
  "encode_ShieldedCashState r e =
     and_then (write_u128 (pool_balance r) e) (\<lambda>e.
     and_then (encode_Digest384 (cash_anchor r) e) (\<lambda>e.
     encode_NullifierSet (cash_nullifiers r) e))"

definition decode_ShieldedCashState :: "decoder \<Rightarrow> decode_error + (ShieldedCashState \<times> decoder)" where
  "decode_ShieldedCashState d =
     and_then (read_u128 d) (\<lambda>(x0, d).
     and_then (decode_Digest384 d) (\<lambda>(x1, d).
     and_then (decode_NullifierSet d) (\<lambda>(x2, d).
     and_then (map_err privacy_decode_error
       (ShieldedCashState_new \<lparr>pool_balance = x0, cash_anchor = x1, cash_nullifiers =
         x2\<rparr>)) (\<lambda>r. Inr (r, d)))))"

definition ShieldedCashState_type :: "ShieldedCashState canonical_type" where
  "ShieldedCashState_type = \<lparr>ct_encode = encode_ShieldedCashState, ct_decode = decode_ShieldedCashState, ct_type_tag = 0x00a5,
     ct_schema_version = 2, ct_max_encoded_len = 16 + 48 + 56\<rparr>"

definition ShieldedCashState_default :: "hash \<Rightarrow> ShieldedCashState" where
  "ShieldedCashState_default shake256 =
     \<lparr>pool_balance = 0, cash_anchor = ZERO, cash_nullifiers = NullifierSet_empty shake256\<rparr>"

definition credit :: "ShieldedCashState \<Rightarrow> u128 \<Rightarrow> Digest384 \<Rightarrow> PrivacyError + ShieldedCashState" where
  "credit r amount next_anchor =
     (if amount = 0 \<or> next_anchor = ZERO then Inl ZeroValue
      else
        and_then (ok_or ZeroValue (checked_add (pool_balance r) amount)) (\<lambda>balance.
        Inr (r\<lparr>pool_balance := balance, cash_anchor := next_anchor\<rparr>)))"

definition debit ::
    "hash \<Rightarrow> ShieldedCashState \<Rightarrow> u128 \<Rightarrow> Digest384 list \<Rightarrow> NullifierWitness list \<Rightarrow> Digest384
     \<Rightarrow> PrivacyError + ShieldedCashState" where
  "debit shake256 r amount nullifiers witnesses next_anchor =
     (if amount = 0 \<or> amount > pool_balance r \<or> next_anchor = ZERO then Inl ZeroValue
      else
        and_then (consume_verified shake256 (cash_nullifiers r) nullifiers witnesses) (\<lambda>next_nullifiers.
        let balance = pool_balance r - amount in
        Inr (r\<lparr>pool_balance := balance, cash_nullifiers := next_nullifiers,
          cash_anchor := if balance = 0 then ZERO else next_anchor\<rparr>)))"

definition encode_legacy_ShieldedCashState ::
    "ShieldedCashState \<Rightarrow> encoder \<Rightarrow> encode_error + encoder" where
  "encode_legacy_ShieldedCashState r e =
     (if nullifier_count (cash_nullifiers r) \<noteq> 0
      then Inl (EncLengthLimitExceeded (unat (nullifier_count (cash_nullifiers r))) 0)
      else
        and_then (write_u128 (pool_balance r) e) (\<lambda>e.
        and_then (encode_Digest384 (cash_anchor r) e) (\<lambda>e.
        write_length 0 LEGACY_MAX_SPENT_NULLIFIERS e)))"

definition decode_legacy_ShieldedCashState ::
    "hash \<Rightarrow> decoder \<Rightarrow> decode_error + (ShieldedCashState \<times> decoder)" where
  "decode_legacy_ShieldedCashState shake256 d =
     and_then (read_u128 d) (\<lambda>(balance, d).
     and_then (decode_Digest384 d) (\<lambda>(anchor, d).
     and_then (NullifierSet_decode_legacy_v1 shake256 d) (\<lambda>(nullifiers, d).
     and_then (map_err privacy_decode_error (ShieldedCashState_new
       \<lparr>pool_balance = balance, cash_anchor = anchor, cash_nullifiers = nullifiers\<rparr>))
       (\<lambda>r. Inr (r, d)))))"

section \<open>Wire formats\<close>

lemmas privacy_bounds = MAX_SHIELDED_ITEMS_def MAX_DISCLOSED_FIELDS_def KEY_BITS_def

definition enc_ShieldedNote :: "ShieldedNote \<Rightarrow> u8 list" where
  "enc_ShieldedNote r = enc_typed_id (note_chain_id r) @ enc_typed_id (note_asset_id r) @
    enc_Digest384 (owner_key r) @ enc_u128 (note_value r) @ enc_Digest384 (blinding r) @
    enc_Digest384 (rho r)"

definition valid_ShieldedNote :: "ShieldedNote \<Rightarrow> bool" where
  "valid_ShieldedNote r \<longleftrightarrow> ShieldedNote_new r = Inr r"

interpretation shielded_note: bounded_envelope enc_ShieldedNote ShieldedNote_type valid_ShieldedNote
proof
  fix v
  assume "valid_ShieldedNote v"
  then show "length (enc_ShieldedNote v) \<le> ct_max_encoded_len ShieldedNote_type"
    by (simp add: ShieldedNote_type_def enc_ShieldedNote_def)
qed (auto simp: ShieldedNote_type_def enc_ShieldedNote_def encode_ShieldedNote_def decode_ShieldedNote_def valid_ShieldedNote_def
    MAX_BODY_LENGTH_def ShieldedNote_new_def privacy_bounds  codec_simps dest!: codec_dests)

lemma ShieldedNote_type_codec [simp]: "ct_encode ShieldedNote_type = encode_ShieldedNote" "ct_decode ShieldedNote_type = decode_ShieldedNote"
  by (simp_all add: ShieldedNote_type_def)

lemmas [codec_simps] = shielded_note.laws [simplified]
lemmas [codec_dests] = shielded_note.inversions [simplified]

definition enc_NullifierOpening :: "NullifierOpening \<Rightarrow> u8 list" where
  "enc_NullifierOpening r = enc_typed_id (opening_chain_id r) @ enc_Digest384 (note_commitment r)
    @ enc_Digest384 (nullifier_key r) @ enc_u64 (note_position r)"

definition valid_NullifierOpening :: "NullifierOpening \<Rightarrow> bool" where
  "valid_NullifierOpening r \<longleftrightarrow> True"

interpretation nullifier_opening: bounded_envelope enc_NullifierOpening NullifierOpening_type valid_NullifierOpening
proof
  fix v
  assume "valid_NullifierOpening v"
  then show "length (enc_NullifierOpening v) \<le> ct_max_encoded_len NullifierOpening_type"
    by (simp add: NullifierOpening_type_def enc_NullifierOpening_def)
qed (auto simp: NullifierOpening_type_def enc_NullifierOpening_def encode_NullifierOpening_def decode_NullifierOpening_def valid_NullifierOpening_def
    MAX_BODY_LENGTH_def privacy_bounds  codec_simps dest!: codec_dests)

lemma NullifierOpening_type_codec [simp]: "ct_encode NullifierOpening_type = encode_NullifierOpening" "ct_decode NullifierOpening_type = decode_NullifierOpening"
  by (simp_all add: NullifierOpening_type_def)

lemmas [codec_simps] = nullifier_opening.laws [simplified]
lemmas [codec_dests] = nullifier_opening.inversions [simplified]

definition enc_ViewingCapability :: "ViewingCapability \<Rightarrow> u8 list" where
  "enc_ViewingCapability r = enc_typed_id (view_chain_id r) @ enc_typed_id (view_asset_id r) @
    enc_typed_id (view_viewer r) @ enc_Digest384 (view_key_commitment r) @ enc_Digest384
    (scope_commitment r) @ enc_u64 (view_not_before r) @ enc_u64 (view_expires_at r)"

definition valid_ViewingCapability :: "ViewingCapability \<Rightarrow> bool" where
  "valid_ViewingCapability r \<longleftrightarrow> ViewingCapability_new r = Inr r"

interpretation viewing_capability: bounded_envelope enc_ViewingCapability ViewingCapability_type valid_ViewingCapability
proof
  fix v
  assume "valid_ViewingCapability v"
  then show "length (enc_ViewingCapability v) \<le> ct_max_encoded_len ViewingCapability_type"
    by (simp add: ViewingCapability_type_def enc_ViewingCapability_def)
qed (auto simp: ViewingCapability_type_def enc_ViewingCapability_def encode_ViewingCapability_def decode_ViewingCapability_def valid_ViewingCapability_def
    MAX_BODY_LENGTH_def ViewingCapability_new_def privacy_bounds  codec_simps dest!: codec_dests)

lemma ViewingCapability_type_codec [simp]: "ct_encode ViewingCapability_type = encode_ViewingCapability" "ct_decode ViewingCapability_type = decode_ViewingCapability"
  by (simp_all add: ViewingCapability_type_def)

lemmas [codec_simps] = viewing_capability.laws [simplified]
lemmas [codec_dests] = viewing_capability.inversions [simplified]

definition enc_DomainPseudonymOpening :: "DomainPseudonymOpening \<Rightarrow> u8 list" where
  "enc_DomainPseudonymOpening r = enc_typed_id (pseudonym_chain_id r) @ enc_Digest384
    (pseudonym_domain r) @ enc_Digest384 (holder_secret_commitment r) @ enc_u64 (pseudonym_epoch
    r)"

definition valid_DomainPseudonymOpening :: "DomainPseudonymOpening \<Rightarrow> bool" where
  "valid_DomainPseudonymOpening r \<longleftrightarrow> DomainPseudonymOpening_new r = Inr r"

interpretation domain_pseudonym: bounded_envelope enc_DomainPseudonymOpening DomainPseudonymOpening_type valid_DomainPseudonymOpening
proof
  fix v
  assume "valid_DomainPseudonymOpening v"
  then show "length (enc_DomainPseudonymOpening v) \<le> ct_max_encoded_len DomainPseudonymOpening_type"
    by (simp add: DomainPseudonymOpening_type_def enc_DomainPseudonymOpening_def)
qed (auto simp: DomainPseudonymOpening_type_def enc_DomainPseudonymOpening_def encode_DomainPseudonymOpening_def decode_DomainPseudonymOpening_def valid_DomainPseudonymOpening_def
    MAX_BODY_LENGTH_def DomainPseudonymOpening_new_def privacy_bounds  codec_simps dest!: codec_dests)

lemma DomainPseudonymOpening_type_codec [simp]: "ct_encode DomainPseudonymOpening_type = encode_DomainPseudonymOpening" "ct_decode DomainPseudonymOpening_type = decode_DomainPseudonymOpening"
  by (simp_all add: DomainPseudonymOpening_type_def)

lemmas [codec_simps] = domain_pseudonym.laws [simplified]
lemmas [codec_dests] = domain_pseudonym.inversions [simplified]

definition enc_PrivateCredentialPresentation :: "PrivateCredentialPresentation \<Rightarrow> u8 list" where
  "enc_PrivateCredentialPresentation r = enc_typed_id (pres_chain_id r) @ enc_Digest384
    (pres_domain r) @ enc_Digest384 (pres_pseudonym r) @ enc_typed_id (pres_issuer r) @
    enc_Digest384 (pres_schema r) @ enc_Digest384 (credential_commitment r) @ enc_Digest384
    (status_registry_root r) @ enc_u64 (status_sequence r) @ enc_u64 (status_effective_height r) @
    enc_u64 (maximum_status_age r) @ enc_Digest384 (non_revocation_commitment r) @ enc_Digest384
    (predicate_commitment r) @ enc_u64 (pres_expires_at r)"

definition valid_PrivateCredentialPresentation :: "PrivateCredentialPresentation \<Rightarrow> bool" where
  "valid_PrivateCredentialPresentation r \<longleftrightarrow> PrivateCredentialPresentation_new r
    = Inr r"

interpretation credential_presentation: bounded_envelope enc_PrivateCredentialPresentation PrivateCredentialPresentation_type valid_PrivateCredentialPresentation
proof
  fix v
  assume "valid_PrivateCredentialPresentation v"
  then show "length (enc_PrivateCredentialPresentation v) \<le> ct_max_encoded_len PrivateCredentialPresentation_type"
    by (simp add: PrivateCredentialPresentation_type_def enc_PrivateCredentialPresentation_def)
qed (auto simp: PrivateCredentialPresentation_type_def enc_PrivateCredentialPresentation_def encode_PrivateCredentialPresentation_def decode_PrivateCredentialPresentation_def valid_PrivateCredentialPresentation_def
    MAX_BODY_LENGTH_def PrivateCredentialPresentation_new_def privacy_bounds  codec_simps dest!: codec_dests)

lemma PrivateCredentialPresentation_type_codec [simp]: "ct_encode PrivateCredentialPresentation_type = encode_PrivateCredentialPresentation" "ct_decode PrivateCredentialPresentation_type = decode_PrivateCredentialPresentation"
  by (simp_all add: PrivateCredentialPresentation_type_def)

lemmas [codec_simps] = credential_presentation.laws [simplified]
lemmas [codec_dests] = credential_presentation.inversions [simplified]

definition enc_DisclosureCapability :: "DisclosureCapability \<Rightarrow> u8 list" where
  "enc_DisclosureCapability r = enc_typed_id (disc_chain_id r) @ enc_Digest384 (object_commitment
    r) @ enc_typed_id (disc_viewer r) @ enc_Digest384 (disc_key_commitment r) @ enc_Digest384
    (disc_purpose r) @ enc_length (length (disc_fields r)) @ enc_each enc_u16 (disc_fields r) @
    enc_u64 (disc_not_before r) @ enc_u64 (disc_expires_at r)"

definition valid_DisclosureCapability :: "DisclosureCapability \<Rightarrow> bool" where
  "valid_DisclosureCapability r \<longleftrightarrow> length (disc_fields r) \<le>
    MAX_DISCLOSED_FIELDS \<and> DisclosureCapability_new r = Inr r"

lemma length_enc_DisclosureCapability:
  "valid_DisclosureCapability r \<Longrightarrow> length (enc_DisclosureCapability r) \<le> 385"
  using length_enc_each_le [of "\<lambda>_. True" "disc_fields r" enc_u16 2]
  by (simp add: enc_DisclosureCapability_def valid_DisclosureCapability_def enc_length_small privacy_bounds)

interpretation disclosure_capability: bounded_envelope enc_DisclosureCapability DisclosureCapability_type valid_DisclosureCapability
proof
  fix v
  assume "valid_DisclosureCapability v"
  then show "length (enc_DisclosureCapability v) \<le> ct_max_encoded_len DisclosureCapability_type"
    by (simp add: DisclosureCapability_type_def length_enc_DisclosureCapability privacy_bounds)
qed (auto simp: DisclosureCapability_type_def enc_DisclosureCapability_def encode_DisclosureCapability_def decode_DisclosureCapability_def valid_DisclosureCapability_def
    MAX_BODY_LENGTH_def DisclosureCapability_new_def privacy_bounds  codec_simps dest!: codec_dests)

lemma DisclosureCapability_type_codec [simp]: "ct_encode DisclosureCapability_type = encode_DisclosureCapability" "ct_decode DisclosureCapability_type = decode_DisclosureCapability"
  by (simp_all add: DisclosureCapability_type_def)

lemmas [codec_simps] = disclosure_capability.laws [simplified]
lemmas [codec_dests] = disclosure_capability.inversions [simplified]

definition enc_PrivateObjectTransition :: "PrivateObjectTransition \<Rightarrow> u8 list" where
  "enc_PrivateObjectTransition r = enc_typed_id (ptr_chain_id r) @ enc_Digest384 (pre_state_root
    r) @ enc_Digest384 (post_state_root r) @ enc_Digest384 (object_class r) @ enc_Digest384
    (prior_object_commitment r) @ enc_Digest384 (output_object_commitment r) @ enc_Digest384
    (authorization_commitment r) @ enc_Digest384 (policy_decision_commitment r) @ enc_Digest384
    (program_commitment r) @ enc_Digest384 (access_manifest_commitment r) @ enc_Digest384
    (disclosure_root r) @ enc_u64 (ptr_expires_at r)"

definition valid_PrivateObjectTransition :: "PrivateObjectTransition \<Rightarrow> bool" where
  "valid_PrivateObjectTransition r \<longleftrightarrow> PrivateObjectTransition_new r = Inr r"

interpretation private_transition: bounded_envelope enc_PrivateObjectTransition PrivateObjectTransition_type valid_PrivateObjectTransition
proof
  fix v
  assume "valid_PrivateObjectTransition v"
  then show "length (enc_PrivateObjectTransition v) \<le> ct_max_encoded_len PrivateObjectTransition_type"
    by (simp add: PrivateObjectTransition_type_def enc_PrivateObjectTransition_def)
qed (auto simp: PrivateObjectTransition_type_def enc_PrivateObjectTransition_def encode_PrivateObjectTransition_def decode_PrivateObjectTransition_def valid_PrivateObjectTransition_def
    MAX_BODY_LENGTH_def PrivateObjectTransition_new_def privacy_bounds  codec_simps dest!: codec_dests)

lemma PrivateObjectTransition_type_codec [simp]: "ct_encode PrivateObjectTransition_type = encode_PrivateObjectTransition" "ct_decode PrivateObjectTransition_type = decode_PrivateObjectTransition"
  by (simp_all add: PrivateObjectTransition_type_def)

lemmas [codec_simps] = private_transition.laws [simplified]
lemmas [codec_dests] = private_transition.inversions [simplified]

definition enc_ShieldedTransferPublicInputs :: "ShieldedTransferPublicInputs \<Rightarrow> u8 list" where
  "enc_ShieldedTransferPublicInputs r = enc_typed_id (sti_chain_id r) @ enc_Digest384 (sti_anchor
    r) @ enc_typed_id (sti_asset_id r) @ enc_Digest384 (balance_commitment r) @ enc_length (length
    (sti_nullifiers r)) @ enc_each enc_Digest384 (sti_nullifiers r) @ enc_length (length
    (sti_output_commitments r)) @ enc_each enc_Digest384 (sti_output_commitments r) @ enc_u128
    (sti_fee r) @ enc_u64 (sti_expires_at r)"

definition valid_ShieldedTransferPublicInputs :: "ShieldedTransferPublicInputs \<Rightarrow> bool" where
  "valid_ShieldedTransferPublicInputs r \<longleftrightarrow> length (sti_nullifiers r) \<le>
    MAX_SHIELDED_ITEMS \<and> length (sti_output_commitments r) \<le> MAX_SHIELDED_ITEMS \<and>
    ShieldedTransferPublicInputs_new r = Inr r"

lemma length_enc_ShieldedTransferPublicInputs: "valid_ShieldedTransferPublicInputs r \<Longrightarrow> length (enc_ShieldedTransferPublicInputs r) \<le> 1754"
  using length_enc_each_le [of "\<lambda>_. True" "sti_nullifiers r" enc_Digest384 48] length_enc_each_le [of "\<lambda>_. True" "sti_output_commitments r" enc_Digest384 48]
  by (simp add: enc_ShieldedTransferPublicInputs_def valid_ShieldedTransferPublicInputs_def enc_length_small privacy_bounds)

interpretation shielded_inputs: bounded_envelope enc_ShieldedTransferPublicInputs ShieldedTransferPublicInputs_type valid_ShieldedTransferPublicInputs
proof
  fix v
  assume "valid_ShieldedTransferPublicInputs v"
  then show "length (enc_ShieldedTransferPublicInputs v) \<le> ct_max_encoded_len ShieldedTransferPublicInputs_type"
    by (simp add: ShieldedTransferPublicInputs_type_def length_enc_ShieldedTransferPublicInputs privacy_bounds)
qed (auto simp: ShieldedTransferPublicInputs_type_def enc_ShieldedTransferPublicInputs_def encode_ShieldedTransferPublicInputs_def decode_ShieldedTransferPublicInputs_def valid_ShieldedTransferPublicInputs_def
    MAX_BODY_LENGTH_def ShieldedTransferPublicInputs_new_def privacy_bounds  codec_simps dest!: codec_dests)

lemma ShieldedTransferPublicInputs_type_codec [simp]: "ct_encode ShieldedTransferPublicInputs_type = encode_ShieldedTransferPublicInputs" "ct_decode ShieldedTransferPublicInputs_type = decode_ShieldedTransferPublicInputs"
  by (simp_all add: ShieldedTransferPublicInputs_type_def)

lemmas [codec_simps] = shielded_inputs.laws [simplified]
lemmas [codec_dests] = shielded_inputs.inversions [simplified]

definition enc_ShieldIntent :: "ShieldIntent \<Rightarrow> u8 list" where
  "enc_ShieldIntent r = enc_typed_id (shield_chain_id r) @ enc_typed_id (shield_asset_id r) @
    enc_typed_id (shield_owner r) @ enc_length (length (shield_inputs r)) @ enc_each enc_typed_id
    (shield_inputs r) @ enc_typed_id (shield_fee_reserve r) @ enc_u128 (shield_amount r) @
    enc_u128 (shield_fee r) @ enc_length (length (shield_output_commitments r)) @ enc_each
    enc_Digest384 (shield_output_commitments r) @ enc_u64 (shield_valid_until r)"

definition valid_ShieldIntent :: "ShieldIntent \<Rightarrow> bool" where
  "valid_ShieldIntent r \<longleftrightarrow> length (shield_inputs r) \<le> MAX_SHIELDED_ITEMS
    \<and> length (shield_output_commitments r) \<le> MAX_SHIELDED_ITEMS \<and> ShieldIntent_new r
    = Inr r"

lemma length_enc_ShieldIntent: "valid_ShieldIntent r \<Longrightarrow> length (enc_ShieldIntent r) \<le> 1770"
  using length_enc_each_le [of "\<lambda>_. True" "shield_inputs r" enc_typed_id 48] length_enc_each_le [of "\<lambda>_. True" "shield_output_commitments r" enc_Digest384 48]
  by (simp add: enc_ShieldIntent_def valid_ShieldIntent_def enc_length_small privacy_bounds)

interpretation shield_intent: bounded_envelope enc_ShieldIntent ShieldIntent_type valid_ShieldIntent
proof
  fix v
  assume "valid_ShieldIntent v"
  then show "length (enc_ShieldIntent v) \<le> ct_max_encoded_len ShieldIntent_type"
    by (simp add: ShieldIntent_type_def length_enc_ShieldIntent privacy_bounds)
qed (auto simp: ShieldIntent_type_def enc_ShieldIntent_def encode_ShieldIntent_def decode_ShieldIntent_def valid_ShieldIntent_def
    MAX_BODY_LENGTH_def ShieldIntent_new_def privacy_bounds  codec_simps dest!: codec_dests)

lemma ShieldIntent_type_codec [simp]: "ct_encode ShieldIntent_type = encode_ShieldIntent" "ct_decode ShieldIntent_type = decode_ShieldIntent"
  by (simp_all add: ShieldIntent_type_def)

lemmas [codec_simps] = shield_intent.laws [simplified]
lemmas [codec_dests] = shield_intent.inversions [simplified]

definition enc_NullifierWitness :: "NullifierWitness \<Rightarrow> u8 list" where
  "enc_NullifierWitness r = enc_Digest384 (nw_nullifier r) @ enc_each enc_Digest384 (nw_siblings
    r)"

definition valid_NullifierWitness :: "NullifierWitness \<Rightarrow> bool" where
  "valid_NullifierWitness r \<longleftrightarrow> NullifierWitness_new r = Inr r"

lemma length_enc_NullifierWitness: "valid_NullifierWitness r \<Longrightarrow> length (enc_NullifierWitness r) \<le> 18480"
  using length_enc_each_le [of "\<lambda>_. True" "nw_siblings r" enc_Digest384 48]
  by (simp add: enc_NullifierWitness_def valid_NullifierWitness_def NullifierWitness_new_def privacy_bounds
      split: if_splits)

interpretation nullifier_witness: bounded_envelope enc_NullifierWitness NullifierWitness_type valid_NullifierWitness
proof
  fix v
  assume "valid_NullifierWitness v"
  then show "length (enc_NullifierWitness v) \<le> ct_max_encoded_len NullifierWitness_type"
    by (simp add: NullifierWitness_type_def length_enc_NullifierWitness privacy_bounds)
qed (auto simp: NullifierWitness_type_def enc_NullifierWitness_def encode_NullifierWitness_def
    decode_NullifierWitness_def valid_NullifierWitness_def MAX_BODY_LENGTH_def NullifierWitness_new_def privacy_bounds
    digest.encode_each_at digest.decode_each_at codec_simps
    dest!: digest.encode_each_atD digest.decode_each_atD codec_dests split: if_splits)

lemma NullifierWitness_type_codec [simp]: "ct_encode NullifierWitness_type = encode_NullifierWitness" "ct_decode NullifierWitness_type = decode_NullifierWitness"
  by (simp_all add: NullifierWitness_type_def)

lemmas [codec_simps] = nullifier_witness.laws [simplified]
lemmas [codec_dests] = nullifier_witness.inversions [simplified]

definition enc_UnshieldIntent :: "UnshieldIntent \<Rightarrow> u8 list" where
  "enc_UnshieldIntent r = enc_typed_id (unshield_chain_id r) @ enc_typed_id (unshield_asset_id r)
    @ enc_Digest384 (unshield_anchor r) @ enc_typed_id (unshield_recipient r) @ enc_u128
    (unshield_amount r) @ enc_u128 (unshield_fee r) @ enc_length (length (unshield_nullifiers r))
    @ enc_each enc_Digest384 (unshield_nullifiers r) @ enc_each enc_NullifierWitness
    (nullifier_witnesses r) @ enc_length (length (change_commitments r)) @ enc_each enc_Digest384
    (change_commitments r) @ enc_u64 (unshield_valid_until r)"

definition valid_UnshieldIntent :: "UnshieldIntent \<Rightarrow> bool" where
  "valid_UnshieldIntent r \<longleftrightarrow> length (unshield_nullifiers r) \<le>
    MAX_SHIELDED_ITEMS \<and> list_all valid_NullifierWitness (nullifier_witnesses r) \<and>
    length (change_commitments r) \<le> MAX_SHIELDED_ITEMS \<and> UnshieldIntent_new r = Inr r"

lemma length_enc_UnshieldIntent:
  assumes "valid_UnshieldIntent r"
  shows "length (enc_UnshieldIntent r) \<le> 297450"
proof -
  have "length (enc_each enc_NullifierWitness (nullifier_witnesses r)) \<le> length (nullifier_witnesses r) * 18480"
    using assms length_enc_NullifierWitness
    by (auto simp: valid_UnshieldIntent_def intro!: length_enc_each_le)
  moreover have "length (nullifier_witnesses r) \<le> 16"
    using assms by (auto simp: valid_UnshieldIntent_def UnshieldIntent_new_def privacy_bounds split: if_splits)
  ultimately show ?thesis
    using assms length_enc_each_le [of "\<lambda>_. True" "unshield_nullifiers r" enc_Digest384 48]
      length_enc_each_le [of "\<lambda>_. True" "change_commitments r" enc_Digest384 48]
    by (simp add: enc_UnshieldIntent_def valid_UnshieldIntent_def enc_length_small privacy_bounds)
qed

interpretation unshield_intent: bounded_envelope enc_UnshieldIntent UnshieldIntent_type valid_UnshieldIntent
proof
  fix v
  assume "valid_UnshieldIntent v"
  then show "length (enc_UnshieldIntent v) \<le> ct_max_encoded_len UnshieldIntent_type"
    by (simp add: UnshieldIntent_type_def length_enc_UnshieldIntent privacy_bounds)
qed (auto simp: UnshieldIntent_type_def enc_UnshieldIntent_def encode_UnshieldIntent_def
    decode_UnshieldIntent_def valid_UnshieldIntent_def MAX_BODY_LENGTH_def UnshieldIntent_new_def privacy_bounds
    nullifier_witness.encode_each_at [simplified] nullifier_witness.decode_each_at [simplified] codec_simps
    dest!: nullifier_witness.encode_each_atD [simplified] nullifier_witness.decode_each_atD [simplified] codec_dests split: if_splits)

definition enc_NullifierSet :: "NullifierSet \<Rightarrow> u8 list" where
  "enc_NullifierSet r = enc_Digest384 (nullifier_root r) @ enc_u64 (nullifier_count r)"

definition valid_NullifierSet :: "NullifierSet \<Rightarrow> bool" where
  "valid_NullifierSet r \<longleftrightarrow> NullifierSet_new r = Inr r"

interpretation nullifier_set: bounded_envelope enc_NullifierSet NullifierSet_type valid_NullifierSet
proof
  fix v
  assume "valid_NullifierSet v"
  then show "length (enc_NullifierSet v) \<le> ct_max_encoded_len NullifierSet_type"
    by (simp add: NullifierSet_type_def enc_NullifierSet_def)
qed (auto simp: NullifierSet_type_def enc_NullifierSet_def encode_NullifierSet_def decode_NullifierSet_def valid_NullifierSet_def
    MAX_BODY_LENGTH_def NullifierSet_new_def privacy_bounds  codec_simps dest!: codec_dests)

lemma NullifierSet_type_codec [simp]: "ct_encode NullifierSet_type = encode_NullifierSet" "ct_decode NullifierSet_type = decode_NullifierSet"
  by (simp_all add: NullifierSet_type_def)

lemmas [codec_simps] = nullifier_set.laws [simplified]
lemmas [codec_dests] = nullifier_set.inversions [simplified]

definition enc_ShieldedCashState :: "ShieldedCashState \<Rightarrow> u8 list" where
  "enc_ShieldedCashState r = enc_u128 (pool_balance r) @ enc_Digest384 (cash_anchor r) @
    enc_NullifierSet (cash_nullifiers r)"

definition valid_ShieldedCashState :: "ShieldedCashState \<Rightarrow> bool" where
  "valid_ShieldedCashState r \<longleftrightarrow> valid_NullifierSet (cash_nullifiers r) \<and>
    ShieldedCashState_new r = Inr r"

interpretation shielded_cash: bounded_envelope enc_ShieldedCashState ShieldedCashState_type valid_ShieldedCashState
proof
  fix v
  assume "valid_ShieldedCashState v"
  then show "length (enc_ShieldedCashState v) \<le> ct_max_encoded_len ShieldedCashState_type"
    by (simp add: ShieldedCashState_type_def enc_ShieldedCashState_def enc_NullifierSet_def)
qed (auto simp: ShieldedCashState_type_def enc_ShieldedCashState_def encode_ShieldedCashState_def decode_ShieldedCashState_def valid_ShieldedCashState_def
    MAX_BODY_LENGTH_def ShieldedCashState_new_def privacy_bounds  codec_simps dest!: codec_dests)

lemma ShieldedCashState_type_codec [simp]: "ct_encode ShieldedCashState_type = encode_ShieldedCashState" "ct_decode ShieldedCashState_type = decode_ShieldedCashState"
  by (simp_all add: ShieldedCashState_type_def)

lemmas [codec_simps] = shielded_cash.laws [simplified]
lemmas [codec_dests] = shielded_cash.inversions [simplified]

end
