(* ===== verification/Cash_Arithmetic.thy ===== *)
theory Cash_Arithmetic
  imports Protocol_Types
begin

text \<open>
  The checked arithmetic of native money: the shared helpers of
  \<^verbatim>\<open>protocol-types/src/checked_arithmetic.rs\<close> and the basis-point, stake-ratio and
  security-budget functions at the head of \<^verbatim>\<open>cash-kernel/src/types.rs\<close>.  Every amount is a 128-bit
  word.  The lemmas relate each function to the exact natural-number formula it stands for and
  show on which inputs it does not overflow.
\<close>

section \<open>Shared checked arithmetic\<close>

definition checked_mul :: "'w::len word \<Rightarrow> 'w word \<Rightarrow> 'w word option" where
  "checked_mul a b = (if unat a * unat b < 2 ^ LENGTH('w) then Some (a * b) else None)"

definition div_ceil :: "'w::len word \<Rightarrow> 'w word \<Rightarrow> 'w word" where
  "div_ceil a b = a div b + (if a mod b \<noteq> 0 then 1 else 0)"

definition fee_total :: "u128 \<Rightarrow> u64 \<Rightarrow> u128 \<Rightarrow> u128 \<Rightarrow> u128 option" where
  "fee_total base units price congestion =
     Option.bind (checked_mul (ucast units) price) (\<lambda>resource.
     Option.bind (checked_add base resource) (\<lambda>sum. checked_add sum congestion))"

definition strict_two_thirds :: "u128 \<Rightarrow> u128 \<Rightarrow> bool option" where
  "strict_two_thirds signer total_weight =
     Option.bind (checked_mul signer 3) (\<lambda>a.
     Option.bind (checked_mul total_weight 2) (\<lambda>b. Some (a > b)))"

definition next_base_fee :: "u128 \<Rightarrow> u64 \<Rightarrow> u16 \<Rightarrow> u64 \<Rightarrow> u128 option" where
  "next_base_fee base target change_bps used =
     Option.bind (checked_mul base (ucast change_bps)) (\<lambda>product.
     let delta = product div 10000 in
     if used > target then checked_add base delta
     else if used < target then Some (max (saturating_sub base delta) 1)
     else Some base)"

definition post_supply :: "u128 \<Rightarrow> u128 \<Rightarrow> u128 \<Rightarrow> u128 option" where
  "post_supply pre issuance burned =
     Option.bind (checked_add pre issuance) (\<lambda>sum. checked_sub sum burned)"

definition partition_total :: "u128 \<Rightarrow> u128 \<Rightarrow> u128 \<Rightarrow> u128 \<Rightarrow> u128 option" where
  "partition_total a b c d =
     Option.bind (checked_add a b) (\<lambda>ab. Option.bind (checked_add ab c) (\<lambda>abc. checked_add abc d))"

definition authorized_issuance :: "u128 \<Rightarrow> u128 \<Rightarrow> u128 \<Rightarrow> u128 option" where
  "authorized_issuance fees reserve target =
     Option.bind (checked_add fees reserve) (\<lambda>covered. Some (saturating_sub target covered))"

text \<open>The running sums \<open>total = total.checked_add(amount)?\<close> of the money sources.\<close>

primrec checked_sum :: "u128 \<Rightarrow> u128 list \<Rightarrow> u128 option" where
  "checked_sum acc [] = Some acc"
| "checked_sum acc (x # xs) = Option.bind (checked_add acc x) (\<lambda>sum. checked_sum sum xs)"

section \<open>Native money errors and rates\<close>

datatype NativeMoneyError =
    InvalidSymbol | InvalidDecimals | ZeroGenesisSupply | ZeroAllocation
  | InvalidGenesisAllocations | GenesisAllocationsNotOrdered | GenesisSupplyMismatch
  | AmountOverflow | ZeroAmount | ZeroTokenId | ZeroMetadataCommitment | InvalidReserve
  | SupplyEquationMismatch | SupplyPartitionMismatch | TooManyCells | CellsNotOrdered
  | InvalidInputs | InputsNotOrdered | FeeReserveAlsoInput | MissingCell | WrongOwner | MoneyExpired
  | InsufficientValue | MintAuthorityMismatch | MintSequenceMismatch | IssuanceCapExceeded
  | BurnExceedsInputs | OutputCollision | InvalidEconomicsTransition | IssuanceFormulaMismatch
  | InvalidRewardReplayWitness

definition ISSUANCE_EPOCHS_PER_YEAR :: Epoch where "ISSUANCE_EPOCHS_PER_YEAR = 365"
definition BASIS_POINTS_DENOMINATOR :: Amount where "BASIS_POINTS_DENOMINATOR = 10000"

definition issuance_window_index :: "Epoch \<Rightarrow> NativeMoneyError + Epoch" where
  "issuance_window_index epoch =
     ok_or InvalidEconomicsTransition
       (map_option (\<lambda>v. v div ISSUANCE_EPOCHS_PER_YEAR) (checked_sub epoch 1))"

definition basis_points_amount :: "Amount \<Rightarrow> u16 \<Rightarrow> NativeMoneyError + Amount" where
  "basis_points_amount amount bps =
     (let whole = amount div BASIS_POINTS_DENOMINATOR;
          remainder = amount mod BASIS_POINTS_DENOMINATOR
      in ok_or AmountOverflow
        (Option.bind (checked_mul whole (ucast bps)) (\<lambda>v.
         Option.bind (checked_mul remainder (ucast bps)) (\<lambda>tail.
         checked_add v (tail div BASIS_POINTS_DENOMINATOR)))))"

definition ceiling_basis_points_amount :: "Amount \<Rightarrow> u16 \<Rightarrow> NativeMoneyError + Amount" where
  "ceiling_basis_points_amount amount bps =
     and_then (basis_points_amount amount bps) (\<lambda>floor.
     and_then (ok_or AmountOverflow
       (checked_mul (amount mod BASIS_POINTS_DENOMINATOR) (ucast bps))) (\<lambda>product.
     if product mod BASIS_POINTS_DENOMINATOR = 0 then Inr floor
     else ok_or AmountOverflow (checked_add floor 1)))"

lemma midpoint_bounds:
  fixes low high :: u16
  assumes "low < high"
  defines "midpoint \<equiv> low + div_ceil (high - low) 2"
  shows "unat midpoint = unat low + (unat high - unat low + 1) div 2"
    "low < midpoint" "midpoint \<le> high" "unat (midpoint - 1) = unat midpoint - 1"
proof -
  have lt: "unat low < unat high" using assms(1) by (simp add: word_less_nat_alt)
  then have d: "unat (high - low) = unat high - unat low"
    by (intro unat_sub) (simp add: word_le_nat_alt)
  have b: "unat high < 65536" using unat_less_pow [of high] by simp
  have two: "unat (2 :: u16) = 2" by simp
  have m: "(high - low) mod 2 \<noteq> 0 \<longleftrightarrow> (unat high - unat low) mod 2 \<noteq> 0"
    using unat_mod [of "high - low" 2] d two by (metis unat_eq_zero unat_0)
  have half: "(unat high - unat low) div 2 < 65535" using b by linarith
  have "unat ((high - low) div 2 + (if (high - low) mod 2 \<noteq> 0 then 1 else 0)) =
      unat ((high - low) div 2) + unat (if (high - low) mod 2 \<noteq> 0 then 1 else 0 :: u16)"
    by (rule unat_add_lem [THEN iffD1]) (use half d two in \<open>simp add: unat_div\<close>)
  then have c: "unat (div_ceil (high - low) 2) = (unat high - unat low + 1) div 2"
    using m d two by (auto simp: div_ceil_def unat_div) presburger+
  have "unat low + unat (div_ceil (high - low) 2) < 2 ^ LENGTH(16)"
    using c b lt by simp
  then show u: "unat midpoint = unat low + (unat high - unat low + 1) div 2"
    unfolding midpoint_def using c unat_add_lem [THEN iffD1] by (metis)
  show "low < midpoint" "midpoint \<le> high"
    using u lt by (simp_all add: word_less_nat_alt word_le_nat_alt)
  then have "1 \<le> midpoint" by (simp add: word_le_nat_alt word_less_nat_alt)
  then show "unat (midpoint - 1) = unat midpoint - 1" by (simp add: unat_sub)
qed

function effective_stake_loop :: "Amount \<Rightarrow> Amount \<Rightarrow> u16 \<Rightarrow> u16 \<Rightarrow> NativeMoneyError + u16" where
  "effective_stake_loop staked_supply total_supply low high =
     (if low < high then
        let midpoint = low + div_ceil (high - low) 2 in
        case ceiling_basis_points_amount total_supply midpoint of
          Inl error \<Rightarrow> Inl error
        | Inr amount \<Rightarrow>
            if amount \<le> staked_supply
            then effective_stake_loop staked_supply total_supply midpoint high
            else effective_stake_loop staked_supply total_supply low (midpoint - 1)
      else Inr low)"
  by pat_completeness auto
termination
proof (relation "measure (\<lambda>(_, _, low, high). unat high - unat low)", goal_cases)
  case 1
  show ?case by simp
next
  case (2 staked tot low high midpoint amount)
  with midpoint_bounds [of low high] show ?case by (simp add: word_less_nat_alt)
next
  case (3 staked tot low high midpoint amount)
  with midpoint_bounds [of low high] show ?case by (simp add: word_less_nat_alt)
qed

declare effective_stake_loop.simps [simp del]

definition effective_stake_basis_points :: "Amount \<Rightarrow> Amount \<Rightarrow> NativeMoneyError + u16" where
  "effective_stake_basis_points staked_supply total_supply =
     (if total_supply = 0 \<or> staked_supply > total_supply then Inl SupplyPartitionMismatch
      else effective_stake_loop staked_supply total_supply 0 10000)"

definition interpolate :: "u16 \<Rightarrow> u16 \<Rightarrow> u16 \<Rightarrow> u16 \<Rightarrow> u16 \<Rightarrow> u16" where
  "interpolate stake low high low_rate high_rate =
     (let span = ucast (high - low) :: u32;
          progress = ucast (stake - low) :: u32;
          decline = ucast (low_rate - high_rate) :: u32
      in ucast (ucast low_rate - (decline * progress) div span))"

definition annual_security_budget_bps :: "u16 \<Rightarrow> u16" where
  "annual_security_budget_bps effective_stake_bps =
     (if effective_stake_bps \<le> 3000 then 150
      else if effective_stake_bps \<le> 4000 then interpolate effective_stake_bps 3000 4000 150 100
      else if effective_stake_bps \<le> 5000 then interpolate effective_stake_bps 4000 5000 100 75
      else if effective_stake_bps \<le> 6000 then interpolate effective_stake_bps 5000 6000 75 50
      else if effective_stake_bps \<le> 7000 then interpolate effective_stake_bps 6000 7000 50 40
      else 40)"

definition epoch_security_budget :: "Amount \<Rightarrow> u16 \<Rightarrow> NativeMoneyError + Amount" where
  "epoch_security_budget pre_supply effective_stake_bps =
     (if effective_stake_bps > 10000 then Inl InvalidEconomicsTransition
      else
        and_then (basis_points_amount pre_supply (annual_security_budget_bps effective_stake_bps))
          (\<lambda>annual. Inr (annual div ucast ISSUANCE_EPOCHS_PER_YEAR)))"

section \<open>Exactness\<close>

lemma checked_mul_eq_Some:
  fixes a b c :: "'w::len word"
  shows "checked_mul a b = Some c \<longleftrightarrow> c = a * b \<and> unat a * unat b < 2 ^ LENGTH('w)"
  by (auto simp: checked_mul_def)

lemma unat_checked_mul:
  fixes a b :: "'w::len word"
  assumes "unat a * unat b < 2 ^ LENGTH('w)"
  shows "unat (a * b) = unat a * unat b"
  using assms by (simp add: unat_mult_lem [THEN iffD1])

lemma unat_ucast_u16_u128 [simp]: "unat (ucast (w :: u16) :: u128) = unat w"
proof -
  have "unat w < 65536" using unat_less_pow [of w] by simp
  then show ?thesis by (simp only: unsigned_ucast_eq take_bit_eq_mod) simp
qed

lemma unat_ucast_u16_u32 [simp]: "unat (ucast (w :: u16) :: u32) = unat w"
proof -
  have "unat w < 65536" using unat_less_pow [of w] by simp
  then show ?thesis by (simp only: unsigned_ucast_eq take_bit_eq_mod) simp
qed

lemma basis_points_split:
  fixes a b :: nat
  shows "a div 10000 * b + a mod 10000 * b div 10000 = a * b div 10000"
proof -
  have "a * b = a mod 10000 * b + 10000 * (a div 10000 * b)"
    by (metis add_mult_distrib mod_mult_div_eq mult.assoc)
  then show ?thesis by simp
qed

lemma basis_points_remainder:
  fixes a b :: nat
  shows "a mod 10000 * b mod 10000 = a * b mod 10000"
  by (simp add: mod_mult_left_eq)

lemma basis_points_amount_eq:
  assumes "unat amount * unat bps div 10000 < 2 ^ 128"
  shows "\<exists>r. basis_points_amount amount bps = Inr r \<and> unat r = unat amount * unat bps div 10000"
proof -
  let ?w = "amount div BASIS_POINTS_DENOMINATOR" and ?m = "amount mod BASIS_POINTS_DENOMINATOR"
  have w: "unat ?w = unat amount div 10000" and m: "unat ?m = unat amount mod 10000"
    by (simp_all add: BASIS_POINTS_DENOMINATOR_def unat_div unat_mod)
  have bps: "unat bps < 65536" using unat_less_pow [of bps] by simp
  have "unat ?w * unat bps \<le> unat amount * unat bps div 10000"
    using basis_points_split [of "unat amount" "unat bps"] w by simp
  then have "unat ?w * unat (ucast bps :: u128) < 2 ^ LENGTH(128)" using assms by simp
  note whole = this unat_checked_mul [OF this]
  have "unat ?m * unat bps \<le> 10000 * 65536" using m bps by (intro mult_le_mono) simp_all
  then have "unat ?m * unat (ucast bps :: u128) < 2 ^ LENGTH(128)" by simp
  note tail = this unat_checked_mul [OF this]
  have t: "unat (?m * ucast bps div BASIS_POINTS_DENOMINATOR) = unat amount mod 10000 * unat bps div 10000"
    using tail m by (simp add: BASIS_POINTS_DENOMINATOR_def unat_div)
  have sum: "unat (?w * ucast bps) + unat (?m * ucast bps div BASIS_POINTS_DENOMINATOR) =
      unat amount * unat bps div 10000"
    using whole(2) t w basis_points_split [of "unat amount" "unat bps"] by simp
  with assms have "checked_add (?w * ucast bps) (?m * ucast bps div BASIS_POINTS_DENOMINATOR) =
      Some (?w * ucast bps + ?m * ucast bps div BASIS_POINTS_DENOMINATOR)"
    by (simp add: checked_add_def)
  with unat_checked_add [OF this] sum whole(1) tail(1) show ?thesis
    by (auto simp: basis_points_amount_def Let_def checked_mul_def)
qed

lemma basis_points_amount_exact:
  assumes "basis_points_amount amount bps = Inr r"
  shows "unat r = unat amount * unat bps div 10000"
proof -
  obtain v t where v: "checked_mul (amount div BASIS_POINTS_DENOMINATOR) (ucast bps) = Some v"
    and t: "checked_mul (amount mod BASIS_POINTS_DENOMINATOR) (ucast bps) = Some t"
    and r: "checked_add v (t div BASIS_POINTS_DENOMINATOR) = Some r"
    using assms by (auto simp: basis_points_amount_def Let_def bind_eq_Some_conv)
  have "unat v = unat amount div 10000 * unat bps" "unat t = unat amount mod 10000 * unat bps"
    using v t unat_checked_mul [of "amount div BASIS_POINTS_DENOMINATOR" "ucast bps"]
      unat_checked_mul [of "amount mod BASIS_POINTS_DENOMINATOR" "ucast bps"]
    by (auto simp: checked_mul_eq_Some BASIS_POINTS_DENOMINATOR_def unat_div unat_mod)
  then show ?thesis
    using unat_checked_add [OF r] basis_points_split [of "unat amount" "unat bps"]
    by (simp add: BASIS_POINTS_DENOMINATOR_def unat_div)
qed

lemma rate_below_whole:
  fixes a b :: nat
  shows "b \<le> 10000 \<Longrightarrow> a * b div 10000 \<le> a"
  by (metis div_le_mono mult_le_mono2 nonzero_mult_div_cancel_right zero_neq_numeral)

lemma basis_points_amount_total:
  assumes "unat bps \<le> 10000"
  shows "\<exists>r. basis_points_amount amount bps = Inr r \<and> unat r = unat amount * unat bps div 10000"
  using rate_below_whole [OF assms, of "unat amount"] unat_less_pow [of amount]
  by (intro basis_points_amount_eq) simp

lemma ceiling_basis_points_amount_total:
  assumes "unat bps \<le> 10000"
  shows "\<exists>r. ceiling_basis_points_amount amount bps = Inr r \<and>
    (\<forall>n. unat r \<le> n \<longleftrightarrow> unat amount * unat bps \<le> n * 10000)"
proof -
  let ?m = "amount mod BASIS_POINTS_DENOMINATOR" and ?p = "unat amount * unat bps"
  from basis_points_amount_total [OF assms] obtain floor where
    floor: "basis_points_amount amount bps = Inr floor" "unat floor = ?p div 10000" by blast
  have m: "unat ?m = unat amount mod 10000"
    by (simp add: BASIS_POINTS_DENOMINATOR_def unat_mod)
  have "unat ?m * unat bps \<le> 10000 * 10000" using m assms by (intro mult_le_mono) simp_all
  then have "unat ?m * unat (ucast bps :: u128) < 2 ^ LENGTH(128)" by simp
  note tail = this unat_checked_mul [OF this]
  have rem: "unat (?m * ucast bps mod BASIS_POINTS_DENOMINATOR) = ?p mod 10000"
    using tail m by (simp add: BASIS_POINTS_DENOMINATOR_def unat_mod mod_mult_left_eq)
  show ?thesis
  proof (cases "?p mod 10000 = 0")
    case True
    then have "?m * ucast bps mod BASIS_POINTS_DENOMINATOR = 0" using rem by (metis unat_eq_zero)
    moreover have "?p = ?p div 10000 * 10000" using True by (simp add: mod_0_imp_dvd)
    then have "?p div 10000 \<le> n \<longleftrightarrow> ?p \<le> n * 10000" for n
      by (metis div_le_mono mult_le_mono1 nonzero_mult_div_cancel_right zero_neq_numeral)
    ultimately show ?thesis
      using floor tail(1) by (simp add: ceiling_basis_points_amount_def checked_mul_def)
  next
    case False
    then have "unat (?m * ucast bps mod BASIS_POINTS_DENOMINATOR) \<noteq> 0" using rem by simp
    then have nz: "?m * ucast bps mod BASIS_POINTS_DENOMINATOR \<noteq> 0" by (metis unat_0)
    have less: "?p div 10000 * 10000 < ?p" using False by (metis div_times_less_eq_dividend
        le_neq_implies_less mod_mult_self2_is_0 mult.commute)
    also have "?p \<le> unat amount * 10000" using assms by simp
    finally have "?p div 10000 < unat amount" by simp
    with unat_less_pow [of amount] floor(2)
    have add: "checked_add floor 1 = Some (floor + 1)" by (simp add: checked_add_def)
    have "Suc (?p div 10000) \<le> n \<longleftrightarrow> ?p \<le> n * 10000" for n
      using less by (metis Suc_le_eq div_less_iff_less_mult False le_neq_implies_less
          mod_mult_self2_is_0 mult.commute nat_less_le zero_less_numeral)
    then show ?thesis
      using floor tail(1) nz add unat_checked_add [OF add]
      by (simp add: ceiling_basis_points_amount_def checked_mul_def)
  qed
qed

text \<open>
  The bisection keeps a lower end whose share of the tot is staked and an upper end beyond which
  no share is; it therefore stops at the floor of the ratio.
\<close>

lemma effective_stake_loop_eq:
  assumes "unat low \<le> unat high" "unat high \<le> 10000"
    "unat tot * unat low \<le> unat staked * 10000"
    "\<And>b. unat tot * b \<le> unat staked * 10000 \<Longrightarrow> b \<le> unat high"
  shows "\<exists>r. effective_stake_loop staked tot low high = Inr r \<and>
    unat tot * unat r \<le> unat staked * 10000 \<and>
    (\<forall>b. unat tot * b \<le> unat staked * 10000 \<longrightarrow> b \<le> unat r)"
  using assms
proof (induction staked tot low high rule: effective_stake_loop.induct)
  case (1 staked tot low high)
  note step = effective_stake_loop.simps [of staked tot low high]
  let ?mid = "low + div_ceil (high - low) 2"
  show ?case
  proof (cases "low < high")
    case True
    note mid = midpoint_bounds [OF True]
    have "unat ?mid \<le> 10000" using mid(3) "1.prems"(2) by (simp add: word_le_nat_alt)
    from ceiling_basis_points_amount_total [OF this] obtain r where
      r: "ceiling_basis_points_amount tot ?mid = Inr r"
      and le: "\<And>n. unat r \<le> n \<longleftrightarrow> unat tot * unat ?mid \<le> n * 10000" by blast
    show ?thesis
    proof (cases "r \<le> staked")
      case True': True
      have "unat ?mid \<le> unat high" using mid(3) by (simp add: word_le_nat_alt)
      moreover have "unat tot * unat ?mid \<le> unat staked * 10000"
        using True' le by (simp add: word_le_nat_alt)
      ultimately show ?thesis
        using "1.IH"(1) [OF True refl r True' _ "1.prems"(2) _ "1.prems"(4)] step True True' r
        by (simp add: Let_def)
    next
      case False
      then have over: "\<not> unat tot * unat ?mid \<le> unat staked * 10000"
        using le by (simp add: word_le_nat_alt)
      have "unat low \<le> unat (?mid - 1)" "unat (?mid - 1) \<le> 10000"
        using mid(2) \<open>unat ?mid \<le> 10000\<close> unfolding mid(4) word_less_nat_alt by linarith+
      moreover have "b \<le> unat (?mid - 1)" if "unat tot * b \<le> unat staked * 10000" for b
      proof (rule ccontr)
        assume "\<not> b \<le> unat (?mid - 1)"
        then have "unat ?mid \<le> b" using mid(4) by simp
        then have "unat tot * unat ?mid \<le> unat tot * b" by (rule mult_le_mono2)
        with that over show False by simp
      qed
      ultimately show ?thesis
        using "1.IH"(2) [OF True refl r False _ _ "1.prems"(3)] step True False r
        by (simp add: Let_def)
    qed
  next
    case False
    then have "unat low = unat high" using "1.prems"(1) by (simp add: word_less_nat_alt)
    with "1.prems" step False show ?thesis by auto
  qed
qed

lemma effective_stake_basis_points_eq:
  assumes "tot \<noteq> 0" "staked \<le> tot"
  shows "\<exists>r. effective_stake_basis_points staked tot = Inr r \<and>
    unat r = unat staked * 10000 div unat tot \<and> unat r \<le> 10000"
proof -
  have pos: "0 < unat tot" using assms(1) by (simp add: unat_gt_0)
  have "b \<le> 10000" if "unat tot * b \<le> unat staked * 10000" for b
  proof -
    have "unat staked * 10000 \<le> unat tot * 10000" using assms(2) by (simp add: word_le_nat_alt)
    with that have "unat tot * b \<le> unat tot * 10000" by (rule le_trans)
    with pos show ?thesis by (simp del: unat_gt_0)
  qed
  with effective_stake_loop_eq [of 0 10000 tot staked] obtain r where
    r: "effective_stake_loop staked tot 0 10000 = Inr r"
    "unat tot * unat r \<le> unat staked * 10000"
    "\<And>b. unat tot * b \<le> unat staked * 10000 \<Longrightarrow> b \<le> unat r" by auto
  have div: "unat staked * 10000 div unat tot * unat tot \<le> unat staked * 10000"
    by (rule div_times_less_eq_dividend)
  have "unat r = unat staked * 10000 div unat tot"
  proof (rule antisym)
    show "unat r \<le> unat staked * 10000 div unat tot"
      using r(2) pos by (simp add: less_eq_div_iff_mult_less_eq mult.commute)
    show "unat staked * 10000 div unat tot \<le> unat r" using r(3) div by (simp add: mult.commute)
  qed
  moreover have "unat r \<le> 10000" using r(2) \<open>\<And>b. unat tot * b \<le> unat staked * 10000 \<Longrightarrow> b \<le> 10000\<close>
    by blast
  ultimately show ?thesis using r(1) assms by (auto simp: effective_stake_basis_points_def)
qed

text \<open>The security-budget curve: exact, decreasing in the stake ratio, between 40 and 150.\<close>

lemma interpolate_eq:
  assumes "low \<le> stake" "stake \<le> high" "low < high" "high_rate \<le> low_rate"
  shows "unat (interpolate stake low high low_rate high_rate) =
    unat low_rate - (unat low_rate - unat high_rate) * (unat stake - unat low) div (unat high - unat low)"
proof -
  let ?d = "unat low_rate - unat high_rate" and ?p = "unat stake - unat low" and ?s = "unat high - unat low"
  have bounds: "unat low_rate < 65536" "unat high < 65536"
    using unat_less_pow [of low_rate] unat_less_pow [of high] by simp_all
  have subs: "unat (high - low) = ?s" "unat (stake - low) = ?p" "unat (low_rate - high_rate) = ?d"
    using assms by (simp_all add: unat_sub)
  have "?d * ?p \<le> 65535 * 65535" using bounds assms(2) by (intro mult_le_mono) (simp_all add: word_le_nat_alt)
  then have "unat (ucast (low_rate - high_rate) :: u32) * unat (ucast (stake - low) :: u32) < 2 ^ LENGTH(32)"
    using subs by simp
  from unat_checked_mul [OF this] subs
  have "unat (ucast (low_rate - high_rate) * ucast (stake - low) div ucast (high - low) :: u32) =
      ?d * ?p div ?s"
    by (simp add: unat_div)
  moreover have le: "?d * ?p div ?s \<le> unat low_rate"
  proof -
    have "?p \<le> ?s" using assms(2) by (simp add: word_le_nat_alt)
    then have "?d * ?p div ?s \<le> ?d * ?s div ?s" by (intro div_le_mono mult_le_mono2)
    then show ?thesis using assms(3) by (simp add: word_less_nat_alt)
  qed
  ultimately have "unat (ucast low_rate - ucast (low_rate - high_rate) * ucast (stake - low)
      div ucast (high - low) :: u32) = unat low_rate - ?d * ?p div ?s"
    by (simp add: unat_sub word_le_nat_alt)
  then have "unat (ucast (ucast low_rate - ucast (low_rate - high_rate) * ucast (stake - low)
      div ucast (high - low) :: u32) :: u16) = (unat low_rate - ?d * ?p div ?s) mod 2 ^ 16"
    by (simp only: unsigned_ucast_eq take_bit_eq_mod) simp
  with bounds(1) show ?thesis by (simp add: interpolate_def Let_def)
qed

definition budget_curve :: "nat \<Rightarrow> nat" where
  "budget_curve s =
     (if s \<le> 3000 then 150
      else if s \<le> 4000 then 150 - 50 * (s - 3000) div 1000
      else if s \<le> 5000 then 100 - 25 * (s - 4000) div 1000
      else if s \<le> 6000 then 75 - 25 * (s - 5000) div 1000
      else if s \<le> 7000 then 50 - 10 * (s - 6000) div 1000
      else 40)"

lemma annual_security_budget_bps_eq:
  "unat (annual_security_budget_bps s) = budget_curve (unat s)"
proof -
  consider "s \<le> 3000" | "3000 < s" "s \<le> 4000" | "4000 < s" "s \<le> 5000" | "5000 < s" "s \<le> 6000"
    | "6000 < s" "s \<le> 7000" | "7000 < s"
    by (meson not_le)
  then show ?thesis
  proof cases
    case 1
    then show ?thesis by (simp add: annual_security_budget_bps_def budget_curve_def word_le_nat_alt)
  next
    case 2
    then show ?thesis
      using interpolate_eq [of 3000 s 4000 100 150]
      by (simp add: annual_security_budget_bps_def budget_curve_def word_le_nat_alt word_less_nat_alt)
  next
    case 3
    then show ?thesis
      using interpolate_eq [of 4000 s 5000 75 100]
      by (simp add: annual_security_budget_bps_def budget_curve_def word_le_nat_alt word_less_nat_alt)
  next
    case 4
    then show ?thesis
      using interpolate_eq [of 5000 s 6000 50 75]
      by (simp add: annual_security_budget_bps_def budget_curve_def word_le_nat_alt word_less_nat_alt)
  next
    case 5
    then show ?thesis
      using interpolate_eq [of 6000 s 7000 40 50]
      by (simp add: annual_security_budget_bps_def budget_curve_def word_le_nat_alt word_less_nat_alt)
  next
    case 6
    then show ?thesis
      by (simp add: annual_security_budget_bps_def budget_curve_def word_le_nat_alt word_less_nat_alt)
  qed
qed

lemma segment_antimono: "a - k * (n - l) div m \<ge> a - k * (Suc n - l) div (m :: nat)"
  by (intro diff_le_mono2 div_le_mono mult_le_mono2) simp

lemma budget_curve_antimono: "s \<le> t \<Longrightarrow> budget_curve t \<le> budget_curve s"
proof (rule lift_Suc_antimono_le [of budget_curve])
  fix n :: nat
  consider "n < 3000" | "3000 < n" "n < 4000" | "4000 < n" "n < 5000" | "5000 < n" "n < 6000"
    | "6000 < n" "n < 7000" | "7000 < n" | "n = 3000 \<or> n = 4000 \<or> n = 5000 \<or> n = 6000 \<or> n = 7000"
    by linarith
  then show "budget_curve (Suc n) \<le> budget_curve n"
  proof cases
    case 2
    then show ?thesis using segment_antimono [of 150 50 n 3000 1000] by (simp add: budget_curve_def)
  next
    case 3
    then show ?thesis using segment_antimono [of 100 25 n 4000 1000] by (simp add: budget_curve_def)
  next
    case 4
    then show ?thesis using segment_antimono [of 75 25 n 5000 1000] by (simp add: budget_curve_def)
  next
    case 5
    then show ?thesis using segment_antimono [of 50 10 n 6000 1000] by (simp add: budget_curve_def)
  qed (auto simp: budget_curve_def)
qed

lemma budget_curve_bounds: "40 \<le> budget_curve s" "budget_curve s \<le> 150"
proof -
  have "budget_curve (max s 7001) = 40" "budget_curve 0 = 150" by (simp_all add: budget_curve_def)
  with budget_curve_antimono [of 0 s] budget_curve_antimono [of s "max s 7001"]
  show "40 \<le> budget_curve s" "budget_curve s \<le> 150" by simp_all
qed

lemma epoch_security_budget_total:
  assumes "unat stake \<le> 10000"
  shows "\<exists>r. epoch_security_budget pre stake = Inr r \<and>
    unat r = unat pre * budget_curve (unat stake) div 10000 div 365"
proof -
  have "unat (annual_security_budget_bps stake) \<le> 10000"
    using budget_curve_bounds(2) [of "unat stake"] by (simp add: annual_security_budget_bps_eq)
  from basis_points_amount_total [OF this, of pre] obtain r where
    "basis_points_amount pre (annual_security_budget_bps stake) = Inr r"
    "unat r = unat pre * budget_curve (unat stake) div 10000"
    by (auto simp: annual_security_budget_bps_eq)
  then show ?thesis using assms
    by (simp add: epoch_security_budget_def ISSUANCE_EPOCHS_PER_YEAR_def unat_div word_less_nat_alt)
qed

lemma post_supply_eq_Some:
  "post_supply pre issuance burned = Some r \<longleftrightarrow>
   unat pre + unat issuance < 2 ^ 128 \<and> unat r + unat burned = unat pre + unat issuance"
proof (cases "checked_add pre issuance")
  case None
  then show ?thesis by (simp add: post_supply_def checked_add_def split: if_splits)
next
  case (Some c)
  note sum = unat_checked_add [OF Some]
  have fits: "unat pre + unat issuance < 2 ^ 128" using Some by (simp add: checked_add_eq_Some)
  have "checked_sub c burned = Some r \<longleftrightarrow> unat r + unat burned = unat c"
  proof
    assume "checked_sub c burned = Some r"
    from unat_checked_sub [OF this] show "unat r + unat burned = unat c" by simp
  next
    assume eq: "unat r + unat burned = unat c"
    then have "burned \<le> c" "unat (c - burned) = unat r"
      by (simp_all add: word_le_nat_alt unat_sub)
    then show "checked_sub c burned = Some r" by (simp add: checked_sub_def word_unat_eq_iff)
  qed
  with Some sum fits show ?thesis by (simp add: post_supply_def)
qed

lemma partition_total_eq_Some:
  "partition_total a b c d = Some r \<longleftrightarrow> unat a + unat b + unat c + unat d = unat r"
proof
  assume "partition_total a b c d = Some r"
  then show "unat a + unat b + unat c + unat d = unat r"
    by (auto simp: partition_total_def bind_eq_Some_conv dest!: unat_checked_add)
next
  assume sum: "unat a + unat b + unat c + unat d = unat r"
  have r: "unat r < 2 ^ 128" using unat_less_pow [of r] by simp
  have ab: "checked_add a b = Some (a + b)" using sum r by (simp add: checked_add_def)
  have abc: "checked_add (a + b) c = Some (a + b + c)"
    using sum r unat_checked_add [OF ab] by (simp add: checked_add_def)
  have "checked_add (a + b + c) d = Some (a + b + c + d)"
    using sum r unat_checked_add [OF ab] unat_checked_add [OF abc] by (simp add: checked_add_def)
  moreover from unat_checked_add [OF this] unat_checked_add [OF ab] unat_checked_add [OF abc] sum
  have "a + b + c + d = r" by (simp add: word_unat_eq_iff)
  ultimately show "partition_total a b c d = Some r" using ab abc by (simp add: partition_total_def)
qed

lemma checked_sum_eq_Some:
  "checked_sum acc xs = Some r \<longleftrightarrow> unat acc + sum_list (map unat xs) = unat r"
proof (induction xs arbitrary: acc)
  case (Cons x xs)
  show ?case
  proof (cases "checked_add acc x")
    case None
    then have "2 ^ 128 \<le> unat acc + unat x" by (simp add: checked_add_def split: if_splits)
    with None unat_less_pow [of r] show ?thesis by simp
  next
    case (Some s)
    with Cons.IH [of s] unat_checked_add [OF Some] show ?thesis by (simp add: add.assoc)
  qed
qed (simp add: word_unat_eq_iff)

end
