(* ===== verification/Cash_Types.thy ===== *)
theory Cash_Types
  imports Cash_Arithmetic Commitment
begin

text \<open>
  The values of the native money kernel (\<^verbatim>\<open>cash-kernel/src/types.rs\<close>): the asset definition and the
  genesis economy, coin cells and cell sets, the supply state, and the transfer, mint, burn and
  epoch-settlement transitions, each with its constructor, its wire format and its bounds.
\<close>

section \<open>Values and constructors\<close>

definition MAX_COIN_CELLS :: usize where "MAX_COIN_CELLS = 4096"
definition MAX_TRANSFER_INPUTS :: usize where "MAX_TRANSFER_INPUTS = 16"
definition MAX_TRANSFER_BATCH :: usize where "MAX_TRANSFER_BATCH = 64"
definition MAX_SYMBOL_LENGTH :: usize where "MAX_SYMBOL_LENGTH = 12"
definition MAX_GENESIS_ALLOCATIONS :: usize where "MAX_GENESIS_ALLOCATIONS = 4096"

record NativeAssetDefinition =
  def_chain_id :: ChainId
  symbol :: "u8 list"
  decimals :: u8
  def_genesis_supply :: Amount
  maximum_ordinary_annual_issuance_bps :: u16
  issuance_policy_hash :: Digest384
  burn_policy_hash :: Digest384
  reward_policy_hash :: Digest384

definition is_symbol_byte :: "u8 \<Rightarrow> bool" where
  "is_symbol_byte byte \<longleftrightarrow> 65 \<le> byte \<and> byte \<le> 90 \<or> 48 \<le> byte \<and> byte \<le> 57 \<or> byte = 95"

definition NativeAssetDefinition_new :: "NativeAssetDefinition \<Rightarrow> NativeMoneyError + NativeAssetDefinition" where
  "NativeAssetDefinition_new r =
     (if symbol r = [] \<or> length (symbol r) > MAX_SYMBOL_LENGTH then Inl InvalidSymbol
      else if \<not> list_all is_symbol_byte (symbol r) then Inl InvalidSymbol
      else if decimals r > 38 then Inl InvalidDecimals
      else if maximum_ordinary_annual_issuance_bps r > 10000 then Inl InvalidEconomicsTransition
      else if def_genesis_supply r = 0 then Inl ZeroGenesisSupply
      else if into_digest (def_chain_id r) = ZERO \<or> issuance_policy_hash r = ZERO
        \<or> burn_policy_hash r = ZERO \<or> reward_policy_hash r = ZERO then Inl InvalidInputs
      else Inr r)"

definition encode_NativeAssetDefinition :: "NativeAssetDefinition \<Rightarrow> encoder \<Rightarrow> encode_error + encoder" where
  "encode_NativeAssetDefinition r e =
     and_then (encode_typed_id (def_chain_id r) e) (\<lambda>e.
     and_then (write_bytes (symbol r) MAX_SYMBOL_LENGTH e) (\<lambda>e.
     and_then (write_u8 (decimals r) e) (\<lambda>e.
     and_then (write_u128 (def_genesis_supply r) e) (\<lambda>e.
     and_then (write_u16 (maximum_ordinary_annual_issuance_bps r) e) (\<lambda>e.
     and_then (encode_Digest384 (issuance_policy_hash r) e) (\<lambda>e.
     and_then (encode_Digest384 (burn_policy_hash r) e) (\<lambda>e.
     encode_Digest384 (reward_policy_hash r) e)))))))"

definition decode_NativeAssetDefinition :: "decoder \<Rightarrow> decode_error + (NativeAssetDefinition \<times> decoder)" where
  "decode_NativeAssetDefinition d =
     and_then (decode_typed_id d) (\<lambda>(x0, d).
     and_then (read_bytes MAX_SYMBOL_LENGTH d) (\<lambda>(x1, d).
     and_then (read_u8 d) (\<lambda>(x2, d).
     and_then (read_u128 d) (\<lambda>(x3, d).
     and_then (read_u16 d) (\<lambda>(x4, d).
     and_then (decode_Digest384 d) (\<lambda>(x5, d).
     and_then (decode_Digest384 d) (\<lambda>(x6, d).
     and_then (decode_Digest384 d) (\<lambda>(x7, d).
     and_then (map_err (\<lambda>_. InvalidValue ''invalid native asset definition'')
       (NativeAssetDefinition_new \<lparr>def_chain_id = x0, symbol = x1, decimals = x2,
         def_genesis_supply = x3, maximum_ordinary_annual_issuance_bps = x4, issuance_policy_hash
         = x5, burn_policy_hash = x6, reward_policy_hash = x7\<rparr>)) (\<lambda>r. Inr (r,
         d))))))))))"

definition NativeAssetDefinition_type :: "NativeAssetDefinition canonical_type" where
  "NativeAssetDefinition_type = \<lparr>ct_encode = encode_NativeAssetDefinition, ct_decode = decode_NativeAssetDefinition, ct_type_tag = 0x0080,
     ct_schema_version = 1, ct_max_encoded_len = 48 + 2 + MAX_SYMBOL_LENGTH + 1 + 16 + 2 + 48 * 3\<rparr>"

record GenesisAllocation =
  alloc_recipient :: PrincipalId
  liquid_amount :: Amount
  locked_amount :: Amount

definition GenesisAllocation_new :: "GenesisAllocation \<Rightarrow> NativeMoneyError + GenesisAllocation" where
  "GenesisAllocation_new r =
     (if checked_add (liquid_amount r) (locked_amount r) = None then Inl AmountOverflow
      else if liquid_amount r = 0 \<and> locked_amount r = 0 then Inl ZeroAllocation
      else Inr r)"

definition allocation_total :: "GenesisAllocation \<Rightarrow> Amount" where
  "allocation_total r = liquid_amount r + locked_amount r"

definition encode_GenesisAllocation :: "GenesisAllocation \<Rightarrow> encoder \<Rightarrow> encode_error + encoder" where
  "encode_GenesisAllocation r e =
     and_then (encode_typed_id (alloc_recipient r) e) (\<lambda>e.
     and_then (write_u128 (liquid_amount r) e) (\<lambda>e.
     write_u128 (locked_amount r) e))"

definition decode_GenesisAllocation :: "decoder \<Rightarrow> decode_error + (GenesisAllocation \<times> decoder)" where
  "decode_GenesisAllocation d =
     and_then (decode_typed_id d) (\<lambda>(x0, d).
     and_then (read_u128 d) (\<lambda>(x1, d).
     and_then (read_u128 d) (\<lambda>(x2, d).
     and_then (map_err (\<lambda>_. InvalidValue ''invalid genesis allocation'')
       (GenesisAllocation_new \<lparr>alloc_recipient = x0, liquid_amount = x1, locked_amount =
         x2\<rparr>)) (\<lambda>r. Inr (r, d)))))"

record GenesisEconomy =
  economy_definition :: NativeAssetDefinition
  allocations :: "GenesisAllocation list"
  economy_security_reserve :: Amount

definition GenesisEconomy_new :: "GenesisEconomy \<Rightarrow> NativeMoneyError + GenesisEconomy" where
  "GenesisEconomy_new r =
     (if allocations r = [] \<or> length (allocations r) > MAX_GENESIS_ALLOCATIONS
      then Inl InvalidGenesisAllocations
      else if \<not> successively (\<lambda>a b. alloc_recipient a \<le> alloc_recipient b) (allocations r)
      then Inl GenesisAllocationsNotOrdered
      else
        and_then (ok_or AmountOverflow (checked_sum (economy_security_reserve r)
          (map allocation_total (allocations r)))) (\<lambda>sum.
        if sum \<noteq> def_genesis_supply (economy_definition r) then Inl GenesisSupplyMismatch
        else Inr r))"

definition encode_GenesisEconomy :: "GenesisEconomy \<Rightarrow> encoder \<Rightarrow> encode_error + encoder" where
  "encode_GenesisEconomy r e =
     and_then (encode_NativeAssetDefinition (economy_definition r) e) (\<lambda>e.
     and_then (encode_vec encode_GenesisAllocation MAX_GENESIS_ALLOCATIONS (allocations r) e) (\<lambda>e.
     write_u128 (economy_security_reserve r) e))"

definition decode_GenesisEconomy :: "decoder \<Rightarrow> decode_error + (GenesisEconomy \<times> decoder)" where
  "decode_GenesisEconomy d =
     and_then (decode_NativeAssetDefinition d) (\<lambda>(x0, d).
     and_then (decode_vec decode_GenesisAllocation MAX_GENESIS_ALLOCATIONS d) (\<lambda>(x1, d).
     and_then (read_u128 d) (\<lambda>(x2, d).
     and_then (map_err (\<lambda>_. InvalidValue ''invalid genesis economy'')
       (GenesisEconomy_new \<lparr>economy_definition = x0, allocations = x1,
         economy_security_reserve = x2\<rparr>)) (\<lambda>r. Inr (r, d)))))"

definition GenesisEconomy_type :: "GenesisEconomy canonical_type" where
  "GenesisEconomy_type = \<lparr>ct_encode = encode_GenesisEconomy, ct_decode = decode_GenesisEconomy, ct_type_tag = 0x0081,
     ct_schema_version = 1, ct_max_encoded_len = 225 + 2 + MAX_GENESIS_ALLOCATIONS * 80 + 16\<rparr>"

record CoinCellOrigin =
  origin_transition_id :: TransactionId
  output_index :: u16

definition encode_CoinCellOrigin :: "CoinCellOrigin \<Rightarrow> encoder \<Rightarrow> encode_error + encoder" where
  "encode_CoinCellOrigin r e =
     and_then (encode_typed_id (origin_transition_id r) e) (\<lambda>e.
     write_u16 (output_index r) e)"

definition decode_CoinCellOrigin :: "decoder \<Rightarrow> decode_error + (CoinCellOrigin \<times> decoder)" where
  "decode_CoinCellOrigin d =
     and_then (decode_typed_id d) (\<lambda>(x0, d).
     and_then (read_u16 d) (\<lambda>(x1, d).
     Inr (\<lparr>origin_transition_id = x0, output_index = x1\<rparr>, d)))"

definition CoinCellOrigin_type :: "CoinCellOrigin canonical_type" where
  "CoinCellOrigin_type = \<lparr>ct_encode = encode_CoinCellOrigin, ct_decode = decode_CoinCellOrigin, ct_type_tag = 0x0082,
     ct_schema_version = 1, ct_max_encoded_len = 50\<rparr>"

record CoinCell =
  cell_origin :: CoinCellOrigin
  cell_owner :: PrincipalId
  cell_amount :: Amount
  creation_height :: Height

definition CoinCell_new :: "CoinCell \<Rightarrow> NativeMoneyError + CoinCell" where
  "CoinCell_new r =
     (if into_digest (cell_owner r) = ZERO then Inl InvalidInputs
      else if cell_amount r = 0 then Inl ZeroAmount
      else Inr r)"

definition encode_CoinCell :: "CoinCell \<Rightarrow> encoder \<Rightarrow> encode_error + encoder" where
  "encode_CoinCell r e =
     and_then (encode_CoinCellOrigin (cell_origin r) e) (\<lambda>e.
     and_then (encode_typed_id (cell_owner r) e) (\<lambda>e.
     and_then (write_u128 (cell_amount r) e) (\<lambda>e.
     write_u64 (creation_height r) e)))"

definition decode_CoinCell :: "decoder \<Rightarrow> decode_error + (CoinCell \<times> decoder)" where
  "decode_CoinCell d =
     and_then (decode_CoinCellOrigin d) (\<lambda>(x0, d).
     and_then (decode_typed_id d) (\<lambda>(x1, d).
     and_then (read_u128 d) (\<lambda>(x2, d).
     and_then (read_u64 d) (\<lambda>(x3, d).
     and_then (map_err (\<lambda>_. InvalidValue ''coin cell amount is zero'')
       (CoinCell_new \<lparr>cell_origin = x0, cell_owner = x1, cell_amount = x2, creation_height
         = x3\<rparr>)) (\<lambda>r. Inr (r, d))))))"

definition CoinCell_type :: "CoinCell canonical_type" where
  "CoinCell_type = \<lparr>ct_encode = encode_CoinCell, ct_decode = decode_CoinCell, ct_type_tag = 0x0083,
     ct_schema_version = 1, ct_max_encoded_len = 50 + 48 + 16 + 8\<rparr>"

record NativeSupply =
  genesis_supply :: Amount
  cumulative_security_issuance :: Amount
  cumulative_burn :: Amount
  current_total_supply :: Amount
  circulating_supply :: Amount
  locked_vesting_supply :: Amount
  staked_supply :: Amount
  security_reserve_balance :: Amount
  last_settled_epoch :: Epoch
  issuance_window :: Epoch
  issuance_window_opening_supply :: Amount
  issuance_in_window :: Amount

definition NativeSupply_genesis :: "Amount \<Rightarrow> Amount \<Rightarrow> Amount \<Rightarrow> NativeMoneyError + NativeSupply" where
  "NativeSupply_genesis genesis security_reserve locked_vesting =
     and_then (ok_or AmountOverflow (checked_add security_reserve locked_vesting)) (\<lambda>reserved.
     if reserved > genesis then Inl InvalidReserve
     else Inr \<lparr>genesis_supply = genesis, cumulative_security_issuance = 0, cumulative_burn = 0,
       current_total_supply = genesis, circulating_supply = genesis - reserved,
       locked_vesting_supply = locked_vesting, staked_supply = 0,
       security_reserve_balance = security_reserve, last_settled_epoch = 0, issuance_window = 0,
       issuance_window_opening_supply = genesis, issuance_in_window = 0\<rparr>)"

definition NativeSupply_new :: "NativeSupply \<Rightarrow> NativeMoneyError + NativeSupply" where
  "NativeSupply_new r =
     and_then (ok_or AmountOverflow
       (post_supply (genesis_supply r) (cumulative_security_issuance r) (cumulative_burn r))) (\<lambda>expected.
     if expected \<noteq> current_total_supply r then Inl SupplyEquationMismatch
     else
       and_then (ok_or AmountOverflow (checked_add (locked_vesting_supply r) (staked_supply r))) (\<lambda>locked.
       let partition = partition_total (circulating_supply r) (locked_vesting_supply r)
             (staked_supply r) (security_reserve_balance r)
       in if locked > current_total_supply r
            \<or> partition \<noteq> Some (current_total_supply r)
            \<or> security_reserve_balance r > current_total_supply r
            \<or> issuance_window_opening_supply r = 0
            \<or> last_settled_epoch r = 0
              \<and> (issuance_window r \<noteq> 0 \<or> issuance_window_opening_supply r \<noteq> genesis_supply r
                \<or> issuance_in_window r \<noteq> 0)
          then Inl SupplyPartitionMismatch
          else if last_settled_epoch r \<noteq> 0
          then and_then (issuance_window_index (last_settled_epoch r)) (\<lambda>index.
            if index \<noteq> issuance_window r then Inl SupplyPartitionMismatch else Inr r)
          else Inr r))"

definition encode_NativeSupply :: "NativeSupply \<Rightarrow> encoder \<Rightarrow> encode_error + encoder" where
  "encode_NativeSupply r e =
     and_then (write_u128 (genesis_supply r) e) (\<lambda>e.
     and_then (write_u128 (cumulative_security_issuance r) e) (\<lambda>e.
     and_then (write_u128 (cumulative_burn r) e) (\<lambda>e.
     and_then (write_u128 (current_total_supply r) e) (\<lambda>e.
     and_then (write_u128 (circulating_supply r) e) (\<lambda>e.
     and_then (write_u128 (locked_vesting_supply r) e) (\<lambda>e.
     and_then (write_u128 (staked_supply r) e) (\<lambda>e.
     and_then (write_u128 (security_reserve_balance r) e) (\<lambda>e.
     and_then (write_u64 (last_settled_epoch r) e) (\<lambda>e.
     and_then (write_u64 (issuance_window r) e) (\<lambda>e.
     and_then (write_u128 (issuance_window_opening_supply r) e) (\<lambda>e.
     write_u128 (issuance_in_window r) e)))))))))))"

definition decode_NativeSupply :: "decoder \<Rightarrow> decode_error + (NativeSupply \<times> decoder)" where
  "decode_NativeSupply d =
     and_then (read_u128 d) (\<lambda>(x0, d).
     and_then (read_u128 d) (\<lambda>(x1, d).
     and_then (read_u128 d) (\<lambda>(x2, d).
     and_then (read_u128 d) (\<lambda>(x3, d).
     and_then (read_u128 d) (\<lambda>(x4, d).
     and_then (read_u128 d) (\<lambda>(x5, d).
     and_then (read_u128 d) (\<lambda>(x6, d).
     and_then (read_u128 d) (\<lambda>(x7, d).
     and_then (read_u64 d) (\<lambda>(x8, d).
     and_then (read_u64 d) (\<lambda>(x9, d).
     and_then (read_u128 d) (\<lambda>(x10, d).
     and_then (read_u128 d) (\<lambda>(x11, d).
     and_then (map_err (\<lambda>_. InvalidValue ''invalid native supply state'')
       (NativeSupply_new \<lparr>genesis_supply = x0, cumulative_security_issuance = x1,
         cumulative_burn = x2, current_total_supply = x3, circulating_supply = x4,
         locked_vesting_supply = x5, staked_supply = x6, security_reserve_balance = x7,
         last_settled_epoch = x8, issuance_window = x9, issuance_window_opening_supply = x10,
         issuance_in_window = x11\<rparr>)) (\<lambda>r. Inr (r, d))))))))))))))"

definition NativeSupply_type :: "NativeSupply canonical_type" where
  "NativeSupply_type = \<lparr>ct_encode = encode_NativeSupply, ct_decode = decode_NativeSupply, ct_type_tag = 0x0084,
     ct_schema_version = 2, ct_max_encoded_len = 16 * 10 + 8 * 2\<rparr>"

definition decode_legacy_NativeSupply ::
    "u16 \<Rightarrow> decoder \<Rightarrow> decode_error + (NativeSupply \<times> decoder)" where
  "decode_legacy_NativeSupply maximum_bps d =
     and_then (read_u128 d) (\<lambda>(genesis, d).
     and_then (read_u128 d) (\<lambda>(issued, d).
     and_then (read_u128 d) (\<lambda>(burned, d).
     and_then (read_u128 d) (\<lambda>(current, d).
     and_then (read_u128 d) (\<lambda>(circulating, d).
     and_then (read_u128 d) (\<lambda>(locked, d).
     and_then (read_u128 d) (\<lambda>(staked, d).
     and_then (read_u128 d) (\<lambda>(reserve, d).
     and_then (read_u64 d) (\<lambda>(epoch, d).
     and_then (if epoch = 0 then Inr (0, genesis, 0)
       else
         and_then (map_err (\<lambda>_. InvalidValue ''invalid legacy issuance epoch'')
           (issuance_window_index epoch)) (\<lambda>window.
         and_then (map_err (\<lambda>_. InvalidValue ''invalid legacy issuance cap'')
           (basis_points_amount current maximum_bps)) (\<lambda>charged.
         Inr (window, current, charged)))) (\<lambda>(window, opening, charged).
     and_then (map_err (\<lambda>_. InvalidValue ''invalid legacy native supply state'')
       (NativeSupply_new
         \<lparr>genesis_supply = genesis, cumulative_security_issuance = issued, cumulative_burn
           = burned, current_total_supply = current, circulating_supply = circulating,
           locked_vesting_supply = locked, staked_supply = staked, security_reserve_balance =
           reserve, last_settled_epoch = epoch, issuance_window = window,
           issuance_window_opening_supply = opening, issuance_in_window = charged\<rparr>))
           (\<lambda>r. Inr (r, d))))))))))))"

record CoinCellRecord =
  record_id :: CoinCellId
  record_cell :: CoinCell

definition encode_CoinCellRecord :: "CoinCellRecord \<Rightarrow> encoder \<Rightarrow> encode_error + encoder" where
  "encode_CoinCellRecord r e =
     and_then (encode_typed_id (record_id r) e) (\<lambda>e.
     encode_CoinCell (record_cell r) e)"

definition decode_CoinCellRecord :: "decoder \<Rightarrow> decode_error + (CoinCellRecord \<times> decoder)" where
  "decode_CoinCellRecord d =
     and_then (decode_typed_id d) (\<lambda>(x0, d).
     and_then (decode_CoinCell d) (\<lambda>(x1, d).
     Inr (\<lparr>record_id = x0, record_cell = x1\<rparr>, d)))"

definition CoinCellRecord_type :: "CoinCellRecord canonical_type" where
  "CoinCellRecord_type = \<lparr>ct_encode = encode_CoinCellRecord, ct_decode = decode_CoinCellRecord, ct_type_tag = 0x012d,
     ct_schema_version = 1, ct_max_encoded_len = 48 + 122\<rparr>"

record CoinCellSet =
  cell_records :: "CoinCellRecord list"

definition CoinCellSet_new :: "CoinCellSet \<Rightarrow> NativeMoneyError + CoinCellSet" where
  "CoinCellSet_new r =
     (if length (cell_records r) > MAX_COIN_CELLS then Inl TooManyCells
      else if \<not> strictly_increasing_by record_id (cell_records r) then Inl CellsNotOrdered
      else Inr r)"

definition encode_CoinCellSet :: "CoinCellSet \<Rightarrow> encoder \<Rightarrow> encode_error + encoder" where
  "encode_CoinCellSet r e =
     encode_vec encode_CoinCellRecord MAX_COIN_CELLS (cell_records r) e"

definition decode_CoinCellSet :: "decoder \<Rightarrow> decode_error + (CoinCellSet \<times> decoder)" where
  "decode_CoinCellSet d =
     and_then (decode_vec decode_CoinCellRecord MAX_COIN_CELLS d) (\<lambda>(x0, d).
     and_then (map_err (\<lambda>_. InvalidValue ''coin cells are not strictly ordered'')
       (CoinCellSet_new \<lparr>cell_records = x0\<rparr>)) (\<lambda>r. Inr (r, d)))"

definition CoinCellSet_type :: "CoinCellSet canonical_type" where
  "CoinCellSet_type = \<lparr>ct_encode = encode_CoinCellSet, ct_decode = decode_CoinCellSet, ct_type_tag = 0x0085,
     ct_schema_version = 1, ct_max_encoded_len = 2 + MAX_COIN_CELLS * 170\<rparr>"

record CoinTransfer =
  transfer_sender :: PrincipalId
  transfer_recipient :: PrincipalId
  transfer_inputs :: "CoinCellId list"
  transfer_fee_reserve :: CoinCellId
  transfer_amount :: Amount
  transfer_fee :: Amount
  transfer_valid_until :: Height

definition CoinTransfer_new :: "CoinTransfer \<Rightarrow> NativeMoneyError + CoinTransfer" where
  "CoinTransfer_new r =
     (if transfer_inputs r = [] \<or> length (transfer_inputs r) > MAX_TRANSFER_INPUTS then Inl InvalidInputs
      else if \<not> strictly_increasing (transfer_inputs r) then Inl InputsNotOrdered
      else if binary_search (transfer_fee_reserve r) (transfer_inputs r) \<noteq> None then Inl FeeReserveAlsoInput
      else if transfer_amount r = 0 then Inl ZeroAmount
      else Inr r)"

definition encode_CoinTransfer :: "CoinTransfer \<Rightarrow> encoder \<Rightarrow> encode_error + encoder" where
  "encode_CoinTransfer r e =
     and_then (encode_typed_id (transfer_sender r) e) (\<lambda>e.
     and_then (encode_typed_id (transfer_recipient r) e) (\<lambda>e.
     and_then (encode_vec encode_typed_id MAX_TRANSFER_INPUTS (transfer_inputs r) e) (\<lambda>e.
     and_then (encode_typed_id (transfer_fee_reserve r) e) (\<lambda>e.
     and_then (write_u128 (transfer_amount r) e) (\<lambda>e.
     and_then (write_u128 (transfer_fee r) e) (\<lambda>e.
     write_u64 (transfer_valid_until r) e))))))"

definition decode_CoinTransfer :: "decoder \<Rightarrow> decode_error + (CoinTransfer \<times> decoder)" where
  "decode_CoinTransfer d =
     and_then (decode_typed_id d) (\<lambda>(x0, d).
     and_then (decode_typed_id d) (\<lambda>(x1, d).
     and_then (decode_vec decode_typed_id MAX_TRANSFER_INPUTS d) (\<lambda>(x2, d).
     and_then (decode_typed_id d) (\<lambda>(x3, d).
     and_then (read_u128 d) (\<lambda>(x4, d).
     and_then (read_u128 d) (\<lambda>(x5, d).
     and_then (read_u64 d) (\<lambda>(x6, d).
     and_then (map_err (\<lambda>_. InvalidValue ''invalid coin transfer'')
       (CoinTransfer_new \<lparr>transfer_sender = x0, transfer_recipient = x1, transfer_inputs =
         x2, transfer_fee_reserve = x3, transfer_amount = x4, transfer_fee = x5,
         transfer_valid_until = x6\<rparr>)) (\<lambda>r. Inr (r, d)))))))))"

definition CoinTransfer_type :: "CoinTransfer canonical_type" where
  "CoinTransfer_type = \<lparr>ct_encode = encode_CoinTransfer, ct_decode = decode_CoinTransfer, ct_type_tag = 0x0086,
     ct_schema_version = 1, ct_max_encoded_len = 48 + 48 + 2 + MAX_TRANSFER_INPUTS * 48 + 48 + 16 + 16 + 8\<rparr>"

text \<open>
  A batch orders its transfers by their first input, which every transfer has; \<open>inputs()[0]\<close> is
  the head of the list.
\<close>

record CashTransferV1 =
  batch_transfers :: "CoinTransfer list"

definition CashTransferV1_new :: "CashTransferV1 \<Rightarrow> NativeMoneyError + CashTransferV1" where
  "CashTransferV1_new r =
     (if batch_transfers r = [] \<or> length (batch_transfers r) > MAX_TRANSFER_BATCH then Inl InvalidInputs
      else if \<not> strictly_increasing_by (\<lambda>t. hd (transfer_inputs t)) (batch_transfers r)
      then Inl InputsNotOrdered
      else Inr r)"

definition resource_units :: "CashTransferV1 \<Rightarrow> u64" where
  "resource_units r =
     32 + sum_list (map (\<lambda>t. 16 + word_of_nat (length (transfer_inputs t)) * 4) (batch_transfers r))"

definition encode_CashTransferV1 :: "CashTransferV1 \<Rightarrow> encoder \<Rightarrow> encode_error + encoder" where
  "encode_CashTransferV1 r e =
     encode_vec encode_CoinTransfer MAX_TRANSFER_BATCH (batch_transfers r) e"

definition decode_CashTransferV1 :: "decoder \<Rightarrow> decode_error + (CashTransferV1 \<times> decoder)" where
  "decode_CashTransferV1 d =
     and_then (decode_vec decode_CoinTransfer MAX_TRANSFER_BATCH d) (\<lambda>(x0, d).
     and_then (map_err (\<lambda>_. InvalidValue ''invalid cash batch'')
       (CashTransferV1_new \<lparr>batch_transfers = x0\<rparr>)) (\<lambda>r. Inr (r, d)))"

definition CashTransferV1_type :: "CashTransferV1 canonical_type" where
  "CashTransferV1_type = \<lparr>ct_encode = encode_CashTransferV1, ct_decode = decode_CashTransferV1, ct_type_tag = 0x0091,
     ct_schema_version = 1, ct_max_encoded_len = 2 + MAX_TRANSFER_BATCH * 954\<rparr>"

record CoinMintTransition =
  mint_policy_hash :: Digest384
  mint_recipient :: PrincipalId
  mint_amount :: Amount
  mint_sequence :: u64
  mint_height :: Height

definition CoinMintTransition_new :: "CoinMintTransition \<Rightarrow> NativeMoneyError + CoinMintTransition" where
  "CoinMintTransition_new r = (if mint_amount r = 0 then Inl ZeroAmount else Inr r)"

definition encode_CoinMintTransition :: "CoinMintTransition \<Rightarrow> encoder \<Rightarrow> encode_error + encoder" where
  "encode_CoinMintTransition r e =
     and_then (encode_Digest384 (mint_policy_hash r) e) (\<lambda>e.
     and_then (encode_typed_id (mint_recipient r) e) (\<lambda>e.
     and_then (write_u128 (mint_amount r) e) (\<lambda>e.
     and_then (write_u64 (mint_sequence r) e) (\<lambda>e.
     write_u64 (mint_height r) e))))"

definition decode_CoinMintTransition :: "decoder \<Rightarrow> decode_error + (CoinMintTransition \<times> decoder)" where
  "decode_CoinMintTransition d =
     and_then (decode_Digest384 d) (\<lambda>(x0, d).
     and_then (decode_typed_id d) (\<lambda>(x1, d).
     and_then (read_u128 d) (\<lambda>(x2, d).
     and_then (read_u64 d) (\<lambda>(x3, d).
     and_then (read_u64 d) (\<lambda>(x4, d).
     and_then (map_err (\<lambda>_. InvalidValue ''mint amount is zero'')
       (CoinMintTransition_new \<lparr>mint_policy_hash = x0, mint_recipient = x1, mint_amount =
         x2, mint_sequence = x3, mint_height = x4\<rparr>)) (\<lambda>r. Inr (r, d)))))))"

definition CoinMintTransition_type :: "CoinMintTransition canonical_type" where
  "CoinMintTransition_type = \<lparr>ct_encode = encode_CoinMintTransition, ct_decode = decode_CoinMintTransition, ct_type_tag = 0x0087,
     ct_schema_version = 1, ct_max_encoded_len = 48 + 48 + 16 + 8 + 8\<rparr>"

record CoinBurnTransition =
  burn_owner :: PrincipalId
  burn_inputs :: "CoinCellId list"
  burn_amount :: Amount
  burn_valid_until :: Height

definition CoinBurnTransition_new :: "CoinBurnTransition \<Rightarrow> NativeMoneyError + CoinBurnTransition" where
  "CoinBurnTransition_new r =
     (if burn_inputs r = [] \<or> length (burn_inputs r) > MAX_TRANSFER_INPUTS then Inl InvalidInputs
      else if \<not> strictly_increasing (burn_inputs r) then Inl InputsNotOrdered
      else if burn_amount r = 0 then Inl ZeroAmount
      else Inr r)"

definition encode_CoinBurnTransition :: "CoinBurnTransition \<Rightarrow> encoder \<Rightarrow> encode_error + encoder" where
  "encode_CoinBurnTransition r e =
     and_then (encode_typed_id (burn_owner r) e) (\<lambda>e.
     and_then (encode_vec encode_typed_id MAX_TRANSFER_INPUTS (burn_inputs r) e) (\<lambda>e.
     and_then (write_u128 (burn_amount r) e) (\<lambda>e.
     write_u64 (burn_valid_until r) e)))"

definition decode_CoinBurnTransition :: "decoder \<Rightarrow> decode_error + (CoinBurnTransition \<times> decoder)" where
  "decode_CoinBurnTransition d =
     and_then (decode_typed_id d) (\<lambda>(x0, d).
     and_then (decode_vec decode_typed_id MAX_TRANSFER_INPUTS d) (\<lambda>(x1, d).
     and_then (read_u128 d) (\<lambda>(x2, d).
     and_then (read_u64 d) (\<lambda>(x3, d).
     and_then (map_err (\<lambda>_. InvalidValue ''invalid burn transition'')
       (CoinBurnTransition_new \<lparr>burn_owner = x0, burn_inputs = x1, burn_amount = x2,
         burn_valid_until = x3\<rparr>)) (\<lambda>r. Inr (r, d))))))"

definition CoinBurnTransition_type :: "CoinBurnTransition canonical_type" where
  "CoinBurnTransition_type = \<lparr>ct_encode = encode_CoinBurnTransition, ct_decode = decode_CoinBurnTransition, ct_type_tag = 0x0088,
     ct_schema_version = 1, ct_max_encoded_len = 48 + 2 + MAX_TRANSFER_INPUTS * 48 + 16 + 8\<rparr>"

record EpochEconomicsTransition =
  settlement_epoch :: Epoch
  settlement_pre_supply :: Amount
  effective_stake_bps :: u16
  security_fee_revenue :: Amount
  reserve_draw :: Amount
  target_security_budget :: Amount
  settlement_issuance :: Amount
  issuance_cap :: Amount
  burned_amount :: Amount
  validator_reward_root :: Digest384
  audit_reward_root :: Digest384
  challenge_reward_root :: Digest384
  public_goods_reward_root :: Digest384
  settlement_post_supply :: Amount

definition EpochEconomicsTransition_new ::
    "EpochEconomicsTransition \<Rightarrow> NativeMoneyError + EpochEconomicsTransition" where
  "EpochEconomicsTransition_new r =
     (if settlement_epoch r = 0 \<or> effective_stake_bps r > 10000 then Inl InvalidEconomicsTransition
      else
        and_then (ok_or AmountOverflow (authorized_issuance (security_fee_revenue r) (reserve_draw r)
          (target_security_budget r))) (\<lambda>expected_issuance.
        if settlement_issuance r \<noteq> expected_issuance \<or> settlement_issuance r > issuance_cap r
        then Inl IssuanceFormulaMismatch
        else
          and_then (ok_or AmountOverflow (post_supply (settlement_pre_supply r) (settlement_issuance r)
            (burned_amount r))) (\<lambda>expected_post.
          if settlement_post_supply r \<noteq> expected_post then Inl SupplyEquationMismatch
          else Inr r)))"

definition encode_EpochEconomicsTransition :: "EpochEconomicsTransition \<Rightarrow> encoder \<Rightarrow> encode_error + encoder" where
  "encode_EpochEconomicsTransition r e =
     and_then (write_u64 (settlement_epoch r) e) (\<lambda>e.
     and_then (write_u128 (settlement_pre_supply r) e) (\<lambda>e.
     and_then (write_u16 (effective_stake_bps r) e) (\<lambda>e.
     and_then (write_u128 (security_fee_revenue r) e) (\<lambda>e.
     and_then (write_u128 (reserve_draw r) e) (\<lambda>e.
     and_then (write_u128 (target_security_budget r) e) (\<lambda>e.
     and_then (write_u128 (settlement_issuance r) e) (\<lambda>e.
     and_then (write_u128 (issuance_cap r) e) (\<lambda>e.
     and_then (write_u128 (burned_amount r) e) (\<lambda>e.
     and_then (encode_Digest384 (validator_reward_root r) e) (\<lambda>e.
     and_then (encode_Digest384 (audit_reward_root r) e) (\<lambda>e.
     and_then (encode_Digest384 (challenge_reward_root r) e) (\<lambda>e.
     and_then (encode_Digest384 (public_goods_reward_root r) e) (\<lambda>e.
     write_u128 (settlement_post_supply r) e)))))))))))))"

definition decode_EpochEconomicsTransition :: "decoder \<Rightarrow> decode_error + (EpochEconomicsTransition \<times> decoder)" where
  "decode_EpochEconomicsTransition d =
     and_then (read_u64 d) (\<lambda>(x0, d).
     and_then (read_u128 d) (\<lambda>(x1, d).
     and_then (read_u16 d) (\<lambda>(x2, d).
     and_then (read_u128 d) (\<lambda>(x3, d).
     and_then (read_u128 d) (\<lambda>(x4, d).
     and_then (read_u128 d) (\<lambda>(x5, d).
     and_then (read_u128 d) (\<lambda>(x6, d).
     and_then (read_u128 d) (\<lambda>(x7, d).
     and_then (read_u128 d) (\<lambda>(x8, d).
     and_then (decode_Digest384 d) (\<lambda>(x9, d).
     and_then (decode_Digest384 d) (\<lambda>(x10, d).
     and_then (decode_Digest384 d) (\<lambda>(x11, d).
     and_then (decode_Digest384 d) (\<lambda>(x12, d).
     and_then (read_u128 d) (\<lambda>(x13, d).
     and_then (map_err (\<lambda>_. InvalidValue ''invalid epoch economics transition'')
       (EpochEconomicsTransition_new \<lparr>settlement_epoch = x0, settlement_pre_supply = x1,
         effective_stake_bps = x2, security_fee_revenue = x3, reserve_draw = x4,
         target_security_budget = x5, settlement_issuance = x6, issuance_cap = x7, burned_amount =
         x8, validator_reward_root = x9, audit_reward_root = x10, challenge_reward_root = x11,
         public_goods_reward_root = x12, settlement_post_supply = x13\<rparr>)) (\<lambda>r. Inr
         (r, d))))))))))))))))"

definition EpochEconomicsTransition_type :: "EpochEconomicsTransition canonical_type" where
  "EpochEconomicsTransition_type = \<lparr>ct_encode = encode_EpochEconomicsTransition, ct_decode = decode_EpochEconomicsTransition, ct_type_tag = 0x0089,
     ct_schema_version = 1, ct_max_encoded_len = 16 * 9 + 2 + 48 * 5\<rparr>"

section \<open>Wire formats\<close>

lemmas cash_bounds = MAX_COIN_CELLS_def MAX_TRANSFER_INPUTS_def MAX_TRANSFER_BATCH_def
  MAX_SYMBOL_LENGTH_def MAX_GENESIS_ALLOCATIONS_def

definition enc_NativeAssetDefinition :: "NativeAssetDefinition \<Rightarrow> u8 list" where
  "enc_NativeAssetDefinition r = enc_typed_id (def_chain_id r) @ enc_bytes_prefixed (symbol r) @
    [decimals r] @ enc_u128 (def_genesis_supply r) @ enc_u16 (maximum_ordinary_annual_issuance_bps
    r) @ enc_Digest384 (issuance_policy_hash r) @ enc_Digest384 (burn_policy_hash r) @
    enc_Digest384 (reward_policy_hash r)"

definition valid_NativeAssetDefinition :: "NativeAssetDefinition \<Rightarrow> bool" where
  "valid_NativeAssetDefinition r \<longleftrightarrow> length (symbol r) \<le> MAX_SYMBOL_LENGTH
    \<and> NativeAssetDefinition_new r = Inr r"

lemma length_enc_NativeAssetDefinition:
  "valid_NativeAssetDefinition r \<Longrightarrow> length (enc_NativeAssetDefinition r) \<le> 225"
  by (simp add: enc_NativeAssetDefinition_def valid_NativeAssetDefinition_def enc_bytes_prefixed_def
      enc_length_small cash_bounds)

interpretation native_asset_definition: bounded_envelope enc_NativeAssetDefinition NativeAssetDefinition_type valid_NativeAssetDefinition
proof
  fix v
  assume "valid_NativeAssetDefinition v"
  then show "length (enc_NativeAssetDefinition v) \<le> ct_max_encoded_len NativeAssetDefinition_type"
    by (simp add: NativeAssetDefinition_type_def length_enc_NativeAssetDefinition cash_bounds)
qed (auto simp: NativeAssetDefinition_type_def enc_NativeAssetDefinition_def encode_NativeAssetDefinition_def decode_NativeAssetDefinition_def valid_NativeAssetDefinition_def
    MAX_BODY_LENGTH_def NativeAssetDefinition_new_def cash_bounds  codec_simps dest!: codec_dests)

lemma NativeAssetDefinition_type_codec [simp]: "ct_encode NativeAssetDefinition_type = encode_NativeAssetDefinition" "ct_decode NativeAssetDefinition_type = decode_NativeAssetDefinition"
  by (simp_all add: NativeAssetDefinition_type_def)

lemmas [codec_simps] = native_asset_definition.laws [simplified]
lemmas [codec_dests] = native_asset_definition.inversions [simplified]

definition enc_GenesisAllocation :: "GenesisAllocation \<Rightarrow> u8 list" where
  "enc_GenesisAllocation r = enc_typed_id (alloc_recipient r) @ enc_u128 (liquid_amount r) @
    enc_u128 (locked_amount r)"

definition valid_GenesisAllocation :: "GenesisAllocation \<Rightarrow> bool" where
  "valid_GenesisAllocation r \<longleftrightarrow> GenesisAllocation_new r = Inr r"

interpretation genesis_allocation: canonical_codec enc_GenesisAllocation encode_GenesisAllocation decode_GenesisAllocation valid_GenesisAllocation
  by unfold_locales
    (auto simp: enc_GenesisAllocation_def encode_GenesisAllocation_def decode_GenesisAllocation_def valid_GenesisAllocation_def
      GenesisAllocation_new_def codec_simps dest!: codec_dests)

lemmas [codec_simps] = genesis_allocation.laws
lemmas [codec_dests] = genesis_allocation.inversions

definition enc_GenesisEconomy :: "GenesisEconomy \<Rightarrow> u8 list" where
  "enc_GenesisEconomy r = enc_NativeAssetDefinition (economy_definition r) @ enc_length (length
    (allocations r)) @ enc_each enc_GenesisAllocation (allocations r) @ enc_u128
    (economy_security_reserve r)"

definition valid_GenesisEconomy :: "GenesisEconomy \<Rightarrow> bool" where
  "valid_GenesisEconomy r \<longleftrightarrow> valid_NativeAssetDefinition (economy_definition r)
    \<and> length (allocations r) \<le> MAX_GENESIS_ALLOCATIONS \<and> list_all
    valid_GenesisAllocation (allocations r) \<and> GenesisEconomy_new r = Inr r"

lemma length_enc_GenesisEconomy:
  assumes "valid_GenesisEconomy r"
  shows "length (enc_GenesisEconomy r) \<le> 327923"
proof -
  have "length (enc_each enc_GenesisAllocation (allocations r)) \<le> length (allocations r) * 80"
    by (rule length_enc_each_le [of "\<lambda>_. True"]) (simp_all add: enc_GenesisAllocation_def)
  then show ?thesis
    using assms length_enc_NativeAssetDefinition [of "economy_definition r"]
      enc_length_two [of "length (allocations r)"]
    by (simp add: enc_GenesisEconomy_def valid_GenesisEconomy_def cash_bounds)
qed

interpretation genesis_economy: bounded_envelope enc_GenesisEconomy GenesisEconomy_type valid_GenesisEconomy
proof
  fix v
  assume "valid_GenesisEconomy v"
  then show "length (enc_GenesisEconomy v) \<le> ct_max_encoded_len GenesisEconomy_type"
    by (simp add: GenesisEconomy_type_def length_enc_GenesisEconomy cash_bounds)
qed (auto simp: GenesisEconomy_type_def enc_GenesisEconomy_def encode_GenesisEconomy_def decode_GenesisEconomy_def valid_GenesisEconomy_def
    MAX_BODY_LENGTH_def GenesisEconomy_new_def cash_bounds  codec_simps dest!: codec_dests)

definition enc_CoinCellOrigin :: "CoinCellOrigin \<Rightarrow> u8 list" where
  "enc_CoinCellOrigin r = enc_typed_id (origin_transition_id r) @ enc_u16 (output_index r)"

definition valid_CoinCellOrigin :: "CoinCellOrigin \<Rightarrow> bool" where
  "valid_CoinCellOrigin r \<longleftrightarrow> True"

interpretation coin_cell_origin: bounded_envelope enc_CoinCellOrigin CoinCellOrigin_type valid_CoinCellOrigin
proof
  fix v
  assume "valid_CoinCellOrigin v"
  then show "length (enc_CoinCellOrigin v) \<le> ct_max_encoded_len CoinCellOrigin_type"
    by (simp add: CoinCellOrigin_type_def enc_CoinCellOrigin_def)
qed (auto simp: CoinCellOrigin_type_def enc_CoinCellOrigin_def encode_CoinCellOrigin_def decode_CoinCellOrigin_def valid_CoinCellOrigin_def
    MAX_BODY_LENGTH_def  cash_bounds  codec_simps dest!: codec_dests)

lemma CoinCellOrigin_type_codec [simp]: "ct_encode CoinCellOrigin_type = encode_CoinCellOrigin" "ct_decode CoinCellOrigin_type = decode_CoinCellOrigin"
  by (simp_all add: CoinCellOrigin_type_def)

lemmas [codec_simps] = coin_cell_origin.laws [simplified]
lemmas [codec_dests] = coin_cell_origin.inversions [simplified]

definition enc_CoinCell :: "CoinCell \<Rightarrow> u8 list" where
  "enc_CoinCell r = enc_CoinCellOrigin (cell_origin r) @ enc_typed_id (cell_owner r) @ enc_u128
    (cell_amount r) @ enc_u64 (creation_height r)"

definition valid_CoinCell :: "CoinCell \<Rightarrow> bool" where
  "valid_CoinCell r \<longleftrightarrow> valid_CoinCellOrigin (cell_origin r) \<and> CoinCell_new
    r = Inr r"

interpretation coin_cell: bounded_envelope enc_CoinCell CoinCell_type valid_CoinCell
proof
  fix v
  assume "valid_CoinCell v"
  then show "length (enc_CoinCell v) \<le> ct_max_encoded_len CoinCell_type"
    by (simp add: CoinCell_type_def enc_CoinCell_def enc_CoinCellOrigin_def)
qed (auto simp: CoinCell_type_def enc_CoinCell_def encode_CoinCell_def decode_CoinCell_def valid_CoinCell_def
    MAX_BODY_LENGTH_def CoinCell_new_def cash_bounds  codec_simps dest!: codec_dests)

lemma CoinCell_type_codec [simp]: "ct_encode CoinCell_type = encode_CoinCell" "ct_decode CoinCell_type = decode_CoinCell"
  by (simp_all add: CoinCell_type_def)

lemmas [codec_simps] = coin_cell.laws [simplified]
lemmas [codec_dests] = coin_cell.inversions [simplified]

definition enc_NativeSupply :: "NativeSupply \<Rightarrow> u8 list" where
  "enc_NativeSupply r = enc_u128 (genesis_supply r) @ enc_u128 (cumulative_security_issuance r) @
    enc_u128 (cumulative_burn r) @ enc_u128 (current_total_supply r) @ enc_u128
    (circulating_supply r) @ enc_u128 (locked_vesting_supply r) @ enc_u128 (staked_supply r) @
    enc_u128 (security_reserve_balance r) @ enc_u64 (last_settled_epoch r) @ enc_u64
    (issuance_window r) @ enc_u128 (issuance_window_opening_supply r) @ enc_u128
    (issuance_in_window r)"

definition valid_NativeSupply :: "NativeSupply \<Rightarrow> bool" where
  "valid_NativeSupply r \<longleftrightarrow> NativeSupply_new r = Inr r"

lemma issuance_window_index_eq:
  "epoch \<noteq> 0 \<Longrightarrow> issuance_window_index epoch = Inr ((epoch - 1) div 365)"
  by (simp add: issuance_window_index_def checked_sub_def ISSUANCE_EPOCHS_PER_YEAR_def
      word_le_nat_alt Suc_le_eq unat_gt_0)

lemma NativeSupply_new_eq_Inr: "NativeSupply_new r = Inr s \<longleftrightarrow> s = r \<and>
  unat (genesis_supply r) + unat (cumulative_security_issuance r) < 2 ^ 128 \<and>
  unat (current_total_supply r) + unat (cumulative_burn r) =
    unat (genesis_supply r) + unat (cumulative_security_issuance r) \<and>
  unat (circulating_supply r) + unat (locked_vesting_supply r) + unat (staked_supply r) +
    unat (security_reserve_balance r) = unat (current_total_supply r) \<and>
  issuance_window_opening_supply r \<noteq> 0 \<and>
  (if last_settled_epoch r = 0 then issuance_window r = 0 \<and>
     issuance_window_opening_supply r = genesis_supply r \<and> issuance_in_window r = 0
   else issuance_window r = (last_settled_epoch r - 1) div 365)"
  (is "?L \<longleftrightarrow> ?R")
proof
  assume ?L
  then show ?R
    by (auto simp: NativeSupply_new_def Let_def post_supply_eq_Some partition_total_eq_Some
        issuance_window_index_eq split: if_splits)
next
  assume R: ?R
  let ?locked = "locked_vesting_supply r + staked_supply r"
  have "post_supply (genesis_supply r) (cumulative_security_issuance r) (cumulative_burn r) =
      Some (current_total_supply r)"
    using R by (simp add: post_supply_eq_Some)
  moreover have "partition_total (circulating_supply r) (locked_vesting_supply r) (staked_supply r)
      (security_reserve_balance r) = Some (current_total_supply r)"
    using R by (simp add: partition_total_eq_Some)
  moreover have bound: "unat (locked_vesting_supply r) + unat (staked_supply r) \<le> unat (current_total_supply r)"
    using R by linarith
  then have locked: "checked_add (locked_vesting_supply r) (staked_supply r) = Some ?locked"
    using unat_less_pow [of "current_total_supply r"] by (simp add: checked_add_def)
  moreover have "\<not> ?locked > current_total_supply r"
    using unat_checked_add [OF locked] bound by (simp add: word_less_nat_alt not_less)
  moreover have "\<not> security_reserve_balance r > current_total_supply r"
    using R by (simp add: word_less_nat_alt)
  ultimately show ?L using R
    by (auto simp: NativeSupply_new_def Let_def issuance_window_index_eq split: if_splits)
qed

interpretation native_supply: bounded_envelope enc_NativeSupply NativeSupply_type valid_NativeSupply
proof
  fix v
  assume "valid_NativeSupply v"
  then show "length (enc_NativeSupply v) \<le> ct_max_encoded_len NativeSupply_type"
    by (simp add: NativeSupply_type_def enc_NativeSupply_def)
qed (auto simp: NativeSupply_type_def enc_NativeSupply_def encode_NativeSupply_def decode_NativeSupply_def valid_NativeSupply_def
    MAX_BODY_LENGTH_def  cash_bounds NativeSupply_new_eq_Inr codec_simps dest!: codec_dests)

lemma NativeSupply_type_codec [simp]: "ct_encode NativeSupply_type = encode_NativeSupply" "ct_decode NativeSupply_type = decode_NativeSupply"
  by (simp_all add: NativeSupply_type_def)

lemmas [codec_simps] = native_supply.laws [simplified]
lemmas [codec_dests] = native_supply.inversions [simplified]

definition enc_CoinCellRecord :: "CoinCellRecord \<Rightarrow> u8 list" where
  "enc_CoinCellRecord r = enc_typed_id (record_id r) @ enc_CoinCell (record_cell r)"

definition valid_CoinCellRecord :: "CoinCellRecord \<Rightarrow> bool" where
  "valid_CoinCellRecord r \<longleftrightarrow> valid_CoinCell (record_cell r)"

interpretation coin_cell_record: bounded_envelope enc_CoinCellRecord CoinCellRecord_type valid_CoinCellRecord
proof
  fix v
  assume "valid_CoinCellRecord v"
  then show "length (enc_CoinCellRecord v) \<le> ct_max_encoded_len CoinCellRecord_type"
    by (simp add: CoinCellRecord_type_def enc_CoinCellRecord_def enc_CoinCell_def enc_CoinCellOrigin_def)
qed (auto simp: CoinCellRecord_type_def enc_CoinCellRecord_def encode_CoinCellRecord_def decode_CoinCellRecord_def valid_CoinCellRecord_def
    MAX_BODY_LENGTH_def  cash_bounds  codec_simps dest!: codec_dests)

lemma CoinCellRecord_type_codec [simp]: "ct_encode CoinCellRecord_type = encode_CoinCellRecord" "ct_decode CoinCellRecord_type = decode_CoinCellRecord"
  by (simp_all add: CoinCellRecord_type_def)

lemmas [codec_simps] = coin_cell_record.laws [simplified]
lemmas [codec_dests] = coin_cell_record.inversions [simplified]

definition enc_CoinCellSet :: "CoinCellSet \<Rightarrow> u8 list" where
  "enc_CoinCellSet r = enc_length (length (cell_records r)) @ enc_each enc_CoinCellRecord
    (cell_records r)"

definition valid_CoinCellSet :: "CoinCellSet \<Rightarrow> bool" where
  "valid_CoinCellSet r \<longleftrightarrow> length (cell_records r) \<le> MAX_COIN_CELLS \<and>
    list_all valid_CoinCellRecord (cell_records r) \<and> CoinCellSet_new r = Inr r"

lemma length_enc_CoinCellSet:
  assumes "valid_CoinCellSet r"
  shows "length (enc_CoinCellSet r) \<le> 696322"
proof -
  have "length (enc_each enc_CoinCellRecord (cell_records r)) \<le> length (cell_records r) * 170"
    by (rule length_enc_each_le [of "\<lambda>_. True"])
      (simp_all add: enc_CoinCellRecord_def enc_CoinCell_def enc_CoinCellOrigin_def)
  then show ?thesis
    using assms enc_length_two [of "length (cell_records r)"]
    by (simp add: enc_CoinCellSet_def valid_CoinCellSet_def cash_bounds)
qed

lemma CoinCellSet_new_eq_Inr: "CoinCellSet_new r = Inr s \<longleftrightarrow> s = r \<and>
  length (cell_records r) \<le> 4096 \<and> strictly_increasing_by record_id (cell_records r)"
  by (auto simp: CoinCellSet_new_def cash_bounds)

interpretation coin_cell_set: bounded_envelope enc_CoinCellSet CoinCellSet_type valid_CoinCellSet
proof
  fix v
  assume "valid_CoinCellSet v"
  then show "length (enc_CoinCellSet v) \<le> ct_max_encoded_len CoinCellSet_type"
    by (simp add: CoinCellSet_type_def length_enc_CoinCellSet cash_bounds)
qed (auto simp: CoinCellSet_type_def enc_CoinCellSet_def encode_CoinCellSet_def decode_CoinCellSet_def valid_CoinCellSet_def
    MAX_BODY_LENGTH_def CoinCellSet_new_def cash_bounds  codec_simps dest!: codec_dests)

lemma CoinCellSet_type_codec [simp]: "ct_encode CoinCellSet_type = encode_CoinCellSet" "ct_decode CoinCellSet_type = decode_CoinCellSet"
  by (simp_all add: CoinCellSet_type_def)

lemmas [codec_simps] = coin_cell_set.laws [simplified]
lemmas [codec_dests] = coin_cell_set.inversions [simplified]

definition enc_CoinTransfer :: "CoinTransfer \<Rightarrow> u8 list" where
  "enc_CoinTransfer r = enc_typed_id (transfer_sender r) @ enc_typed_id (transfer_recipient r) @
    enc_length (length (transfer_inputs r)) @ enc_each enc_typed_id (transfer_inputs r) @
    enc_typed_id (transfer_fee_reserve r) @ enc_u128 (transfer_amount r) @ enc_u128 (transfer_fee
    r) @ enc_u64 (transfer_valid_until r)"

definition valid_CoinTransfer :: "CoinTransfer \<Rightarrow> bool" where
  "valid_CoinTransfer r \<longleftrightarrow> length (transfer_inputs r) \<le> MAX_TRANSFER_INPUTS
    \<and> CoinTransfer_new r = Inr r"

lemma length_enc_CoinTransfer: "valid_CoinTransfer r \<Longrightarrow> length (enc_CoinTransfer r) \<le> 954"
  using length_enc_each_le [of "\<lambda>_. True" "transfer_inputs r" enc_typed_id 48]
  by (simp add: enc_CoinTransfer_def valid_CoinTransfer_def enc_length_small cash_bounds)

interpretation coin_transfer: bounded_envelope enc_CoinTransfer CoinTransfer_type valid_CoinTransfer
proof
  fix v
  assume "valid_CoinTransfer v"
  then show "length (enc_CoinTransfer v) \<le> ct_max_encoded_len CoinTransfer_type"
    by (simp add: CoinTransfer_type_def length_enc_CoinTransfer cash_bounds)
qed (auto simp: CoinTransfer_type_def enc_CoinTransfer_def encode_CoinTransfer_def decode_CoinTransfer_def valid_CoinTransfer_def
    MAX_BODY_LENGTH_def CoinTransfer_new_def cash_bounds  codec_simps dest!: codec_dests)

lemma CoinTransfer_type_codec [simp]: "ct_encode CoinTransfer_type = encode_CoinTransfer" "ct_decode CoinTransfer_type = decode_CoinTransfer"
  by (simp_all add: CoinTransfer_type_def)

lemmas [codec_simps] = coin_transfer.laws [simplified]
lemmas [codec_dests] = coin_transfer.inversions [simplified]

definition enc_CashTransferV1 :: "CashTransferV1 \<Rightarrow> u8 list" where
  "enc_CashTransferV1 r = enc_length (length (batch_transfers r)) @ enc_each enc_CoinTransfer
    (batch_transfers r)"

definition valid_CashTransferV1 :: "CashTransferV1 \<Rightarrow> bool" where
  "valid_CashTransferV1 r \<longleftrightarrow> length (batch_transfers r) \<le>
    MAX_TRANSFER_BATCH \<and> list_all valid_CoinTransfer (batch_transfers r) \<and>
    CashTransferV1_new r = Inr r"

lemma length_enc_CashTransferV1:
  assumes "valid_CashTransferV1 r"
  shows "length (enc_CashTransferV1 r) \<le> 61058"
proof -
  have "length (enc_each enc_CoinTransfer (batch_transfers r)) \<le> length (batch_transfers r) * 954"
    using assms length_enc_CoinTransfer
    by (auto simp: valid_CashTransferV1_def intro!: length_enc_each_le)
  then show ?thesis
    using assms by (simp add: enc_CashTransferV1_def valid_CashTransferV1_def enc_length_small cash_bounds)
qed

interpretation cash_batch: bounded_envelope enc_CashTransferV1 CashTransferV1_type valid_CashTransferV1
proof
  fix v
  assume "valid_CashTransferV1 v"
  then show "length (enc_CashTransferV1 v) \<le> ct_max_encoded_len CashTransferV1_type"
    by (simp add: CashTransferV1_type_def length_enc_CashTransferV1 cash_bounds)
qed (auto simp: CashTransferV1_type_def enc_CashTransferV1_def encode_CashTransferV1_def decode_CashTransferV1_def valid_CashTransferV1_def
    MAX_BODY_LENGTH_def CashTransferV1_new_def cash_bounds  codec_simps dest!: codec_dests)

definition enc_CoinMintTransition :: "CoinMintTransition \<Rightarrow> u8 list" where
  "enc_CoinMintTransition r = enc_Digest384 (mint_policy_hash r) @ enc_typed_id (mint_recipient r)
    @ enc_u128 (mint_amount r) @ enc_u64 (mint_sequence r) @ enc_u64 (mint_height r)"

definition valid_CoinMintTransition :: "CoinMintTransition \<Rightarrow> bool" where
  "valid_CoinMintTransition r \<longleftrightarrow> CoinMintTransition_new r = Inr r"

interpretation coin_mint: bounded_envelope enc_CoinMintTransition CoinMintTransition_type valid_CoinMintTransition
proof
  fix v
  assume "valid_CoinMintTransition v"
  then show "length (enc_CoinMintTransition v) \<le> ct_max_encoded_len CoinMintTransition_type"
    by (simp add: CoinMintTransition_type_def enc_CoinMintTransition_def)
qed (auto simp: CoinMintTransition_type_def enc_CoinMintTransition_def encode_CoinMintTransition_def decode_CoinMintTransition_def valid_CoinMintTransition_def
    MAX_BODY_LENGTH_def CoinMintTransition_new_def cash_bounds  codec_simps dest!: codec_dests)

definition enc_CoinBurnTransition :: "CoinBurnTransition \<Rightarrow> u8 list" where
  "enc_CoinBurnTransition r = enc_typed_id (burn_owner r) @ enc_length (length (burn_inputs r)) @
    enc_each enc_typed_id (burn_inputs r) @ enc_u128 (burn_amount r) @ enc_u64 (burn_valid_until
    r)"

definition valid_CoinBurnTransition :: "CoinBurnTransition \<Rightarrow> bool" where
  "valid_CoinBurnTransition r \<longleftrightarrow> length (burn_inputs r) \<le>
    MAX_TRANSFER_INPUTS \<and> CoinBurnTransition_new r = Inr r"

lemma length_enc_CoinBurnTransition: "valid_CoinBurnTransition r \<Longrightarrow> length (enc_CoinBurnTransition r) \<le> 842"
  using length_enc_each_le [of "\<lambda>_. True" "burn_inputs r" enc_typed_id 48]
  by (simp add: enc_CoinBurnTransition_def valid_CoinBurnTransition_def enc_length_small cash_bounds)

interpretation coin_burn: bounded_envelope enc_CoinBurnTransition CoinBurnTransition_type valid_CoinBurnTransition
proof
  fix v
  assume "valid_CoinBurnTransition v"
  then show "length (enc_CoinBurnTransition v) \<le> ct_max_encoded_len CoinBurnTransition_type"
    by (simp add: CoinBurnTransition_type_def length_enc_CoinBurnTransition cash_bounds)
qed (auto simp: CoinBurnTransition_type_def enc_CoinBurnTransition_def encode_CoinBurnTransition_def decode_CoinBurnTransition_def valid_CoinBurnTransition_def
    MAX_BODY_LENGTH_def CoinBurnTransition_new_def cash_bounds  codec_simps dest!: codec_dests)

definition enc_EpochEconomicsTransition :: "EpochEconomicsTransition \<Rightarrow> u8 list" where
  "enc_EpochEconomicsTransition r = enc_u64 (settlement_epoch r) @ enc_u128 (settlement_pre_supply
    r) @ enc_u16 (effective_stake_bps r) @ enc_u128 (security_fee_revenue r) @ enc_u128
    (reserve_draw r) @ enc_u128 (target_security_budget r) @ enc_u128 (settlement_issuance r) @
    enc_u128 (issuance_cap r) @ enc_u128 (burned_amount r) @ enc_Digest384 (validator_reward_root
    r) @ enc_Digest384 (audit_reward_root r) @ enc_Digest384 (challenge_reward_root r) @
    enc_Digest384 (public_goods_reward_root r) @ enc_u128 (settlement_post_supply r)"

definition valid_EpochEconomicsTransition :: "EpochEconomicsTransition \<Rightarrow> bool" where
  "valid_EpochEconomicsTransition r \<longleftrightarrow> EpochEconomicsTransition_new r = Inr r"

interpretation epoch_economics: bounded_envelope enc_EpochEconomicsTransition EpochEconomicsTransition_type valid_EpochEconomicsTransition
proof
  fix v
  assume "valid_EpochEconomicsTransition v"
  then show "length (enc_EpochEconomicsTransition v) \<le> ct_max_encoded_len EpochEconomicsTransition_type"
    by (simp add: EpochEconomicsTransition_type_def enc_EpochEconomicsTransition_def)
qed (auto simp: EpochEconomicsTransition_type_def enc_EpochEconomicsTransition_def encode_EpochEconomicsTransition_def decode_EpochEconomicsTransition_def valid_EpochEconomicsTransition_def
    MAX_BODY_LENGTH_def EpochEconomicsTransition_new_def cash_bounds Let_def codec_simps dest!: codec_dests)

end
