(* ===== verification/Cash_Economics.thy ===== *)
theory Cash_Economics
  imports Accumulator Cash_Arithmetic
begin

text \<open>
  The economic interface of native money (\<^verbatim>\<open>cash-kernel/src/economics.rs\<close>): verifier duties and
  their settlement, sealed challenges, auditor selection, paymasters, fee quotes and markets, pool
  and slash splits, and prepaid capacity.
\<close>

section \<open>Values\<close>

datatype VerifierRole = Finality | Availability | Audit | Assurance | PublicGoods

record DutyAssignment =
  duty_id :: Digest384
  duty_verifier :: PrincipalId
  duty_role :: VerifierRole
  duty_target :: Digest384
  duty_bond :: CoinCellId
  bond_amount :: u128
  duty_reward :: u128
  duty_deadline :: u64
  duty_settled :: bool

record DutyReceipt =
  receipt_assignment :: Digest384
  receipt_evidence :: Digest384
  receipt_height :: u64

record ObjectiveFault =
  fault_assignment :: Digest384
  fault_evidence :: Digest384
  fault_slash_amount :: u128

record RewardSettlement =
  reward_assignment :: Digest384
  reward_verifier :: PrincipalId
  reward_amount :: u128
  bond_return :: u128
  slash_amount :: u128

datatype EconomicsError =
    DuplicateAssignment | UnknownAssignment | WrongVerifier | EconomicsExpired | AlreadySettled
  | EmptyEvidence | InvalidSlash | InvalidChallenge | InvalidChallengeReveal | InvalidAuditSet
  | InvalidPaymasterPolicy | InvalidPaymasterRequest | PaymasterUnauthorized | PaymasterBudgetExceeded
  | InvalidCapacityReservation | CapacityExceeded

record RewardReplayWitness =
  rw_assignment :: Digest384
  rw_siblings :: "Digest384 list"

definition RewardReplayWitness_new :: "RewardReplayWitness \<Rightarrow> decode_error + RewardReplayWitness" where
  "RewardReplayWitness_new r =
     (if rw_assignment r = ZERO \<or> length (rw_siblings r) \<noteq> KEY_BITS
      then Inl (InvalidValue ''invalid reward replay witness'')
      else Inr r)"

definition encode_RewardReplayWitness :: "RewardReplayWitness \<Rightarrow> encoder \<Rightarrow> encode_error + encoder" where
  "encode_RewardReplayWitness r e =
     and_then (encode_Digest384 (rw_assignment r) e) (\<lambda>e.
     encode_each encode_Digest384 (rw_siblings r) e)"

definition decode_RewardReplayWitness :: "decoder \<Rightarrow> decode_error + (RewardReplayWitness \<times> decoder)" where
  "decode_RewardReplayWitness d =
     and_then (decode_Digest384 d) (\<lambda>(x0, d).
     and_then (decode_each decode_Digest384 KEY_BITS d) (\<lambda>(x1, d).
     and_then (map_err (\<lambda>error. error)
       (RewardReplayWitness_new \<lparr>rw_assignment = x0, rw_siblings = x1\<rparr>))
         (\<lambda>r. Inr (r, d))))"

definition RewardReplayWitness_type :: "RewardReplayWitness canonical_type" where
  "RewardReplayWitness_type = \<lparr>ct_encode = encode_RewardReplayWitness, ct_decode = decode_RewardReplayWitness, ct_type_tag = 0x014f,
     ct_schema_version = 1, ct_max_encoded_len = 48 * (1 + KEY_BITS)\<rparr>"

record RewardRedemption =
  redemption_settlement :: Digest384
  replay_witness :: RewardReplayWitness
  pool_owner :: PrincipalId
  pool_cell :: CoinCellId
  redemption_fee_reserve :: CoinCellId
  redemption_height :: u64

record ChallengeAssignment =
  ch_id :: Digest384
  ch_duty :: Digest384
  ch_challenger :: PrincipalId
  ch_bond :: CoinCellId
  ch_evidence :: Digest384
  ch_reward :: u128
  ch_deadline :: u64
  ch_resolved :: bool

record ChallengeCommitmentV1 =
  cc_id :: Digest384
  cc_duty :: Digest384
  cc_challenger :: PrincipalId
  cc_bond :: CoinCellId
  cc_reward :: u128
  cc_commitment :: Digest384
  reveal_deadline :: u64
  resolution_deadline :: u64

definition ChallengeCommitmentV1_new :: "ChallengeCommitmentV1 \<Rightarrow> EconomicsError + ChallengeCommitmentV1" where
  "ChallengeCommitmentV1_new r =
     (if cc_id r = ZERO \<or> cc_duty r = ZERO \<or> into_digest (cc_challenger r) = ZERO
        \<or> into_digest (cc_bond r) = ZERO \<or> cc_reward r = 0 \<or> cc_commitment r = ZERO
        \<or> reveal_deadline r = 0 \<or> reveal_deadline r \<ge> resolution_deadline r
      then Inl InvalidChallenge
      else Inr r)"

definition encode_ChallengeCommitmentV1 :: "ChallengeCommitmentV1 \<Rightarrow> encoder \<Rightarrow> encode_error + encoder" where
  "encode_ChallengeCommitmentV1 r e =
     and_then (encode_Digest384 (cc_id r) e) (\<lambda>e.
     and_then (encode_Digest384 (cc_duty r) e) (\<lambda>e.
     and_then (encode_typed_id (cc_challenger r) e) (\<lambda>e.
     and_then (encode_typed_id (cc_bond r) e) (\<lambda>e.
     and_then (write_u128 (cc_reward r) e) (\<lambda>e.
     and_then (encode_Digest384 (cc_commitment r) e) (\<lambda>e.
     and_then (write_u64 (reveal_deadline r) e) (\<lambda>e.
     write_u64 (resolution_deadline r) e)))))))"

definition decode_ChallengeCommitmentV1 :: "decoder \<Rightarrow> decode_error + (ChallengeCommitmentV1 \<times> decoder)" where
  "decode_ChallengeCommitmentV1 d =
     and_then (decode_Digest384 d) (\<lambda>(x0, d).
     and_then (decode_Digest384 d) (\<lambda>(x1, d).
     and_then (decode_typed_id d) (\<lambda>(x2, d).
     and_then (decode_typed_id d) (\<lambda>(x3, d).
     and_then (read_u128 d) (\<lambda>(x4, d).
     and_then (decode_Digest384 d) (\<lambda>(x5, d).
     and_then (read_u64 d) (\<lambda>(x6, d).
     and_then (read_u64 d) (\<lambda>(x7, d).
     and_then (map_err (\<lambda>_. InvalidValue ''invalid challenge commitment'')
       (ChallengeCommitmentV1_new \<lparr>cc_id = x0, cc_duty = x1, cc_challenger = x2, cc_bond =
         x3, cc_reward = x4, cc_commitment = x5, reveal_deadline = x6, resolution_deadline =
         x7\<rparr>)) (\<lambda>r. Inr (r, d))))))))))"

definition ChallengeCommitmentV1_type :: "ChallengeCommitmentV1 canonical_type" where
  "ChallengeCommitmentV1_type = \<lparr>ct_encode = encode_ChallengeCommitmentV1, ct_decode = decode_ChallengeCommitmentV1, ct_type_tag = 0x015F,
     ct_schema_version = 1, ct_max_encoded_len = 48 * 5 + 16 + 8 * 2\<rparr>"

definition challenge_input ::
    "Digest384 \<Rightarrow> Digest384 \<Rightarrow> PrincipalId \<Rightarrow> Digest384 \<Rightarrow> Digest384 \<Rightarrow> u8 list" where
  "challenge_input ident duty challenger evidence nonce =
     ascii ''ACTIVECHAIN-VERIFIER-CHALLENGE-COMMITMENT-V1'' @ as_bytes ident @ as_bytes duty
     @ as_bytes (into_digest challenger) @ as_bytes evidence @ as_bytes nonce"

definition challenge_commitment ::
    "hash \<Rightarrow> Digest384 \<Rightarrow> Digest384 \<Rightarrow> PrincipalId \<Rightarrow> Digest384 \<Rightarrow> Digest384 \<Rightarrow> Digest384" where
  "challenge_commitment shake256 ident duty challenger evidence nonce =
     shake256 (challenge_input ident duty challenger evidence nonce)"

definition reveal ::
    "hash \<Rightarrow> ChallengeCommitmentV1 \<Rightarrow> Digest384 \<Rightarrow> Digest384 \<Rightarrow> u64 \<Rightarrow> EconomicsError + ChallengeAssignment" where
  "reveal shake256 r evidence nonce height =
     (if height > reveal_deadline r \<or> evidence = ZERO \<or> nonce = ZERO
        \<or> challenge_commitment shake256 (cc_id r) (cc_duty r) (cc_challenger r) evidence nonce \<noteq> cc_commitment r
      then Inl InvalidChallengeReveal
      else Inr \<lparr>ch_id = cc_id r, ch_duty = cc_duty r, ch_challenger = cc_challenger r, ch_bond = cc_bond r,
        ch_evidence = evidence, ch_reward = cc_reward r, ch_deadline = resolution_deadline r,
        ch_resolved = False\<rparr>)"

section \<open>Fees, pools and slashes\<close>

record FeeQuote =
  fq_base :: u128
  fq_resource_units :: u64
  fq_resource_price :: u128
  fq_congestion_price :: u128

definition FeeQuote_total :: "FeeQuote \<Rightarrow> u128 option" where
  "FeeQuote_total q = fee_total (fq_base q) (fq_resource_units q) (fq_resource_price q) (fq_congestion_price q)"

definition FINALITY_POOL_BPS :: u16 where "FINALITY_POOL_BPS = 7000"
definition AVAILABILITY_POOL_BPS :: u16 where "AVAILABILITY_POOL_BPS = 1500"
definition AUDIT_POOL_BPS :: u16 where "AUDIT_POOL_BPS = 1000"
definition PUBLIC_GOODS_POOL_BPS :: u16 where "PUBLIC_GOODS_POOL_BPS = 500"
definition USER_SLASH_BPS :: u16 where "USER_SLASH_BPS = 4000"
definition SECURITY_SLASH_BPS :: u16 where "SECURITY_SLASH_BPS = 4000"
definition CHALLENGER_SLASH_BPS :: u16 where "CHALLENGER_SLASH_BPS = 2000"
definition MAX_AUDIT_VERIFIERS :: usize where "MAX_AUDIT_VERIFIERS = 4096"
definition MAX_PAYMASTER_SENDERS :: usize where "MAX_PAYMASTER_SENDERS = 64"

record SecurityPoolAllocation =
  pool_finality :: u128
  pool_availability :: u128
  pool_audit :: u128
  pool_public_goods :: u128

definition bps_share :: "u128 \<Rightarrow> u16 \<Rightarrow> u128 option" where
  "bps_share amount bps = map_option (\<lambda>product. product div 10000) (checked_mul amount (ucast bps))"

definition SecurityPoolAllocation_split :: "u128 \<Rightarrow> SecurityPoolAllocation option" where
  "SecurityPoolAllocation_split amount =
     Option.bind (bps_share amount FINALITY_POOL_BPS) (\<lambda>finality.
     Option.bind (bps_share amount AVAILABILITY_POOL_BPS) (\<lambda>availability.
     Option.bind (bps_share amount AUDIT_POOL_BPS) (\<lambda>audit.
     Option.bind (bps_share amount PUBLIC_GOODS_POOL_BPS) (\<lambda>public_goods.
     Some \<lparr>pool_finality = finality, pool_availability = availability, pool_audit = audit,
       pool_public_goods = public_goods\<rparr>))))"

definition SecurityPoolAllocation_total :: "SecurityPoolAllocation \<Rightarrow> u128 option" where
  "SecurityPoolAllocation_total r =
     Option.bind (checked_add (pool_finality r) (pool_availability r)) (\<lambda>a.
     Option.bind (checked_add a (pool_audit r)) (\<lambda>b. checked_add b (pool_public_goods r)))"

record SlashSplit =
  slash_user :: u128
  slash_security_pool :: u128
  slash_challenger :: u128

definition SlashSplit_split :: "u128 \<Rightarrow> SlashSplit option" where
  "SlashSplit_split amount =
     Option.bind (bps_share amount USER_SLASH_BPS) (\<lambda>user.
     Option.bind (bps_share amount SECURITY_SLASH_BPS) (\<lambda>security_pool.
     Option.bind (bps_share amount CHALLENGER_SLASH_BPS) (\<lambda>challenger.
     Some \<lparr>slash_user = user, slash_security_pool = security_pool, slash_challenger = challenger\<rparr>)))"

definition SlashSplit_total :: "SlashSplit \<Rightarrow> u128 option" where
  "SlashSplit_total r =
     Option.bind (checked_add (slash_user r) (slash_security_pool r)) (\<lambda>a. checked_add a (slash_challenger r))"

record FeeMarket =
  base_fee :: u128
  target_units :: u64
  max_change_bps :: u16

definition FeeMarket_new :: "FeeMarket \<Rightarrow> FeeMarket option" where
  "FeeMarket_new r =
     (if base_fee r > 0 \<and> target_units r > 0 \<and> max_change_bps r \<le> 10000 then Some r else None)"

definition FeeMarket_next :: "FeeMarket \<Rightarrow> u64 \<Rightarrow> FeeMarket option" where
  "FeeMarket_next r used_units =
     map_option (\<lambda>next_fee. r\<lparr>base_fee := next_fee\<rparr>)
       (next_base_fee (base_fee r) (target_units r) (max_change_bps r) used_units)"

section \<open>Auditor selection\<close>

text \<open>
  The sample reads eight bytes of the extendable output, the prefix of the 48 bytes that the other
  transcripts read, as a big-endian number: the leading 64 bits of the digest.
\<close>

definition audit_input :: "Digest384 \<Rightarrow> Digest384 \<Rightarrow> u64 \<Rightarrow> u8 list" where
  "audit_input finalized_randomness target counter =
     ascii ''ACTIVECHAIN-RANDOM-AUDIT-ASSIGNMENT-V1'' @ as_bytes finalized_randomness @ as_bytes target
     @ to_be_bytes 8 (unat counter)"

definition audit_sample :: "hash \<Rightarrow> Digest384 \<Rightarrow> Digest384 \<Rightarrow> u64 \<Rightarrow> u64" where
  "audit_sample shake256 finalized_randomness target counter =
     ucast (drop_bit 320 (shake256 (audit_input finalized_randomness target counter)))"

function select_auditor_loop ::
    "hash \<Rightarrow> Digest384 \<Rightarrow> Digest384 \<Rightarrow> PrincipalId list \<Rightarrow> u64 \<Rightarrow> u64 \<Rightarrow> u64 \<Rightarrow> EconomicsError + PrincipalId" where
  "select_auditor_loop shake256 finalized_randomness target eligible count acceptance_zone counter =
     (let sample = audit_sample shake256 finalized_randomness target counter in
      if sample < acceptance_zone then Inr (eligible ! unat (sample mod count))
      else if counter = - 1 then Inl InvalidAuditSet
      else select_auditor_loop shake256 finalized_randomness target eligible count acceptance_zone (counter + 1))"
  by pat_completeness auto
termination
  by (relation "measure (\<lambda>(_, _, _, _, _, _, counter). unat (- 1 - counter))") (auto intro: counter_decreases [simplified])

declare select_auditor_loop.simps [simp del]

definition select_auditor ::
    "hash \<Rightarrow> Digest384 \<Rightarrow> Digest384 \<Rightarrow> PrincipalId list \<Rightarrow> EconomicsError + PrincipalId" where
  "select_auditor shake256 finalized_randomness target eligible =
     (if finalized_randomness = ZERO \<or> target = ZERO \<or> eligible = [] \<or> length eligible > MAX_AUDIT_VERIFIERS
        \<or> list_ex (\<lambda>candidate. into_digest candidate = ZERO) eligible \<or> \<not> strictly_increasing eligible
      then Inl InvalidAuditSet
      else
        let count = word_of_nat (length eligible); acceptance_zone = - 1 - (- 1 mod count) in
        select_auditor_loop shake256 finalized_randomness target eligible count acceptance_zone 0)"

section \<open>Paymasters\<close>

record CashPaymasterPolicyV1 =
  pm_sponsor :: PrincipalId
  allowed_senders :: "PrincipalId list"
  maximum_fee :: u128
  epoch_budget :: u128
  pm_spent :: u128
  pm_epoch :: u64
  next_nonce :: u64
  pm_expires_height :: u64

definition CashPaymasterPolicyV1_new :: "CashPaymasterPolicyV1 \<Rightarrow> EconomicsError + CashPaymasterPolicyV1" where
  "CashPaymasterPolicyV1_new r =
     (if into_digest (pm_sponsor r) = ZERO \<or> allowed_senders r = []
        \<or> length (allowed_senders r) > MAX_PAYMASTER_SENDERS
        \<or> list_ex (\<lambda>sender. into_digest sender = ZERO) (allowed_senders r)
        \<or> \<not> strictly_increasing (allowed_senders r)
        \<or> maximum_fee r = 0 \<or> epoch_budget r = 0 \<or> pm_spent r > epoch_budget r \<or> pm_expires_height r = 0
      then Inl InvalidPaymasterPolicy
      else Inr r)"

definition encode_CashPaymasterPolicyV1 :: "CashPaymasterPolicyV1 \<Rightarrow> encoder \<Rightarrow> encode_error + encoder" where
  "encode_CashPaymasterPolicyV1 r e =
     and_then (encode_typed_id (pm_sponsor r) e) (\<lambda>e.
     and_then (encode_vec encode_typed_id MAX_PAYMASTER_SENDERS (allowed_senders r) e) (\<lambda>e.
     and_then (write_u128 (maximum_fee r) e) (\<lambda>e.
     and_then (write_u128 (epoch_budget r) e) (\<lambda>e.
     and_then (write_u128 (pm_spent r) e) (\<lambda>e.
     and_then (write_u64 (pm_epoch r) e) (\<lambda>e.
     and_then (write_u64 (next_nonce r) e) (\<lambda>e.
     write_u64 (pm_expires_height r) e)))))))"

definition decode_CashPaymasterPolicyV1 :: "decoder \<Rightarrow> decode_error + (CashPaymasterPolicyV1 \<times> decoder)" where
  "decode_CashPaymasterPolicyV1 d =
     and_then (decode_typed_id d) (\<lambda>(x0, d).
     and_then (decode_vec decode_typed_id MAX_PAYMASTER_SENDERS d) (\<lambda>(x1, d).
     and_then (read_u128 d) (\<lambda>(x2, d).
     and_then (read_u128 d) (\<lambda>(x3, d).
     and_then (read_u128 d) (\<lambda>(x4, d).
     and_then (read_u64 d) (\<lambda>(x5, d).
     and_then (read_u64 d) (\<lambda>(x6, d).
     and_then (read_u64 d) (\<lambda>(x7, d).
     and_then (map_err (\<lambda>_. InvalidValue ''invalid cash paymaster policy'')
       (CashPaymasterPolicyV1_new \<lparr>pm_sponsor = x0, allowed_senders = x1, maximum_fee = x2,
         epoch_budget = x3, pm_spent = x4, pm_epoch = x5, next_nonce = x6, pm_expires_height =
         x7\<rparr>)) (\<lambda>r. Inr (r, d))))))))))"

definition CashPaymasterPolicyV1_type :: "CashPaymasterPolicyV1 canonical_type" where
  "CashPaymasterPolicyV1_type = \<lparr>ct_encode = encode_CashPaymasterPolicyV1, ct_decode = decode_CashPaymasterPolicyV1, ct_type_tag = 0x0160,
     ct_schema_version = 1, ct_max_encoded_len = 48 + 2 + MAX_PAYMASTER_SENDERS * 48 + 16 * 3 + 8 * 3\<rparr>"

definition CashPaymasterPolicyV1_commitment :: "hash \<Rightarrow> CashPaymasterPolicyV1 \<Rightarrow> EconomicsError + Digest384" where
  "CashPaymasterPolicyV1_commitment shake256 r =
     and_then (map_err (\<lambda>_. InvalidPaymasterPolicy) (encode_envelope CashPaymasterPolicyV1_type r)) (\<lambda>bytes.
     Inr (shake256 (ascii ''ACTIVECHAIN-CASH-PAYMASTER-POLICY-V1'' @ bytes)))"

record CashPaymasterRequestV1 =
  rq_sponsor :: PrincipalId
  rq_sender :: PrincipalId
  rq_transfer :: Digest384
  rq_policy_commitment :: Digest384
  rq_approval_commitment :: Digest384
  rq_fee :: u128
  rq_expected_spent :: u128
  rq_epoch :: u64
  rq_nonce :: u64
  rq_expires_height :: u64

definition CashPaymasterRequestV1_new :: "CashPaymasterRequestV1 \<Rightarrow> EconomicsError + CashPaymasterRequestV1" where
  "CashPaymasterRequestV1_new r =
     (if into_digest (rq_sponsor r) = ZERO \<or> into_digest (rq_sender r) = ZERO \<or> rq_transfer r = ZERO
        \<or> rq_policy_commitment r = ZERO \<or> rq_approval_commitment r = ZERO \<or> rq_fee r = 0
        \<or> rq_expires_height r = 0
      then Inl InvalidPaymasterRequest
      else Inr r)"

definition encode_CashPaymasterRequestV1 :: "CashPaymasterRequestV1 \<Rightarrow> encoder \<Rightarrow> encode_error + encoder" where
  "encode_CashPaymasterRequestV1 r e =
     and_then (encode_typed_id (rq_sponsor r) e) (\<lambda>e.
     and_then (encode_typed_id (rq_sender r) e) (\<lambda>e.
     and_then (encode_Digest384 (rq_transfer r) e) (\<lambda>e.
     and_then (encode_Digest384 (rq_policy_commitment r) e) (\<lambda>e.
     and_then (encode_Digest384 (rq_approval_commitment r) e) (\<lambda>e.
     and_then (write_u128 (rq_fee r) e) (\<lambda>e.
     and_then (write_u128 (rq_expected_spent r) e) (\<lambda>e.
     and_then (write_u64 (rq_epoch r) e) (\<lambda>e.
     and_then (write_u64 (rq_nonce r) e) (\<lambda>e.
     write_u64 (rq_expires_height r) e)))))))))"

definition decode_CashPaymasterRequestV1 :: "decoder \<Rightarrow> decode_error + (CashPaymasterRequestV1 \<times> decoder)" where
  "decode_CashPaymasterRequestV1 d =
     and_then (decode_typed_id d) (\<lambda>(x0, d).
     and_then (decode_typed_id d) (\<lambda>(x1, d).
     and_then (decode_Digest384 d) (\<lambda>(x2, d).
     and_then (decode_Digest384 d) (\<lambda>(x3, d).
     and_then (decode_Digest384 d) (\<lambda>(x4, d).
     and_then (read_u128 d) (\<lambda>(x5, d).
     and_then (read_u128 d) (\<lambda>(x6, d).
     and_then (read_u64 d) (\<lambda>(x7, d).
     and_then (read_u64 d) (\<lambda>(x8, d).
     and_then (read_u64 d) (\<lambda>(x9, d).
     and_then (map_err (\<lambda>_. InvalidValue ''invalid cash paymaster request'')
       (CashPaymasterRequestV1_new \<lparr>rq_sponsor = x0, rq_sender = x1, rq_transfer = x2,
         rq_policy_commitment = x3, rq_approval_commitment = x4, rq_fee = x5, rq_expected_spent =
         x6, rq_epoch = x7, rq_nonce = x8, rq_expires_height = x9\<rparr>)) (\<lambda>r. Inr (r,
         d))))))))))))"

definition CashPaymasterRequestV1_type :: "CashPaymasterRequestV1 canonical_type" where
  "CashPaymasterRequestV1_type = \<lparr>ct_encode = encode_CashPaymasterRequestV1, ct_decode = decode_CashPaymasterRequestV1, ct_type_tag = 0x0161,
     ct_schema_version = 1, ct_max_encoded_len = 48 * 5 + 16 * 2 + 8 * 3\<rparr>"

text \<open>The disjunction of the source stops at the first true test, so the policy is encoded only
  for a request of an allowed sender.\<close>

definition authorize ::
    "hash \<Rightarrow> CashPaymasterPolicyV1 \<Rightarrow> CashPaymasterRequestV1 \<Rightarrow> Digest384 \<Rightarrow> u128 \<Rightarrow> u64
     \<Rightarrow> EconomicsError + CashPaymasterPolicyV1" where
  "authorize shake256 r request transfer fee height =
     (if rq_sponsor request \<noteq> pm_sponsor r \<or> binary_search (rq_sender request) (allowed_senders r) = None
      then Inl PaymasterUnauthorized
      else
        and_then (CashPaymasterPolicyV1_commitment shake256 r) (\<lambda>commitment.
        if rq_policy_commitment request \<noteq> commitment \<or> rq_transfer request \<noteq> transfer \<or> rq_fee request \<noteq> fee
          \<or> rq_epoch request \<noteq> pm_epoch r \<or> rq_expected_spent request \<noteq> pm_spent r
          \<or> rq_nonce request \<noteq> next_nonce r \<or> rq_fee request = 0 \<or> rq_fee request > maximum_fee r
          \<or> height > rq_expires_height request \<or> rq_expires_height request > pm_expires_height r
        then Inl PaymasterUnauthorized
        else
          and_then (ok_or PaymasterBudgetExceeded (checked_add (pm_spent r) (rq_fee request))) (\<lambda>spent.
          if spent > epoch_budget r then Inl PaymasterBudgetExceeded
          else
            and_then (ok_or PaymasterUnauthorized (checked_add (next_nonce r) 1)) (\<lambda>nonce.
            Inr (r\<lparr>pm_spent := spent, next_nonce := nonce\<rparr>)))))"

section \<open>Prepaid capacity\<close>

record CapacityReservationV1 =
  res_id :: Digest384
  res_payer :: PrincipalId
  res_quote :: FeeQuote
  res_deposit :: u128
  res_expires_height :: u64
  res_settled :: bool

definition CapacityReservationV1_new ::
    "Digest384 \<Rightarrow> PrincipalId \<Rightarrow> FeeQuote \<Rightarrow> u128 \<Rightarrow> u64 \<Rightarrow> EconomicsError + CapacityReservationV1" where
  "CapacityReservationV1_new ident payer quote deposit expires_height =
     and_then (ok_or InvalidCapacityReservation (FeeQuote_total quote)) (\<lambda>required.
     if ident = ZERO \<or> into_digest payer = ZERO \<or> fq_resource_units quote = 0 \<or> fq_resource_price quote = 0
       \<or> required = 0 \<or> deposit \<noteq> required \<or> expires_height = 0
     then Inl InvalidCapacityReservation
     else Inr \<lparr>res_id = ident, res_payer = payer, res_quote = quote, res_deposit = deposit,
       res_expires_height = expires_height, res_settled = False\<rparr>)"

record CapacitySettlementV1 =
  set_reservation :: Digest384
  set_payer :: PrincipalId
  set_used_units :: u64
  set_deposit :: u128
  set_charged :: u128
  set_refund :: u128
  settled_height :: u64

text \<open>\<open>settle\<close> returns the settlement and the reservation with its flag set.\<close>

definition settle ::
    "CapacityReservationV1 \<Rightarrow> u64 \<Rightarrow> u64 \<Rightarrow> EconomicsError + (CapacitySettlementV1 \<times> CapacityReservationV1)" where
  "settle r used_units height =
     (if res_settled r then Inl AlreadySettled
      else if height > res_expires_height r then Inl EconomicsExpired
      else if used_units > fq_resource_units (res_quote r) then Inl CapacityExceeded
      else
        and_then (ok_or InvalidCapacityReservation
          (fee_total (fq_base (res_quote r)) used_units (fq_resource_price (res_quote r))
            (fq_congestion_price (res_quote r)))) (\<lambda>charged.
        and_then (ok_or InvalidCapacityReservation (checked_sub (res_deposit r) charged)) (\<lambda>refund.
        Inr (\<lparr>set_reservation = res_id r, set_payer = res_payer r, set_used_units = used_units,
               set_deposit = res_deposit r, set_charged = charged, set_refund = refund,
               settled_height = height\<rparr>,
             r\<lparr>res_settled := True\<rparr>))))"

definition encode_CapacityReservationV1 :: "CapacityReservationV1 \<Rightarrow> encoder \<Rightarrow> encode_error + encoder" where
  "encode_CapacityReservationV1 r e =
     and_then (encode_Digest384 (res_id r) e) (\<lambda>e.
     and_then (encode_typed_id (res_payer r) e) (\<lambda>e.
     and_then (write_u128 (fq_base (res_quote r)) e) (\<lambda>e.
     and_then (write_u64 (fq_resource_units (res_quote r)) e) (\<lambda>e.
     and_then (write_u128 (fq_resource_price (res_quote r)) e) (\<lambda>e.
     and_then (write_u128 (fq_congestion_price (res_quote r)) e) (\<lambda>e.
     and_then (write_u128 (res_deposit r) e) (\<lambda>e.
     and_then (write_u64 (res_expires_height r) e) (\<lambda>e.
     write_bool (res_settled r) e))))))))"

definition decode_CapacityReservationV1 :: "decoder \<Rightarrow> decode_error + (CapacityReservationV1 \<times> decoder)" where
  "decode_CapacityReservationV1 d =
     and_then (decode_Digest384 d) (\<lambda>(ident, d).
     and_then (decode_typed_id d) (\<lambda>(payer, d).
     and_then (read_u128 d) (\<lambda>(base, d).
     and_then (read_u64 d) (\<lambda>(units, d).
     and_then (read_u128 d) (\<lambda>(price, d).
     and_then (read_u128 d) (\<lambda>(congestion, d).
     and_then (read_u128 d) (\<lambda>(deposit, d).
     and_then (read_u64 d) (\<lambda>(expires_height, d).
     and_then (read_bool d) (\<lambda>(settled, d).
     and_then (map_err (\<lambda>_. InvalidValue ''invalid capacity reservation'')
       (CapacityReservationV1_new ident payer
         \<lparr>fq_base = base, fq_resource_units = units, fq_resource_price = price, fq_congestion_price = congestion\<rparr>
         deposit expires_height)) (\<lambda>reservation.
     Inr (reservation\<lparr>res_settled := settled\<rparr>, d)))))))))))"

definition CapacityReservationV1_type :: "CapacityReservationV1 canonical_type" where
  "CapacityReservationV1_type = \<lparr>ct_encode = encode_CapacityReservationV1, ct_decode = decode_CapacityReservationV1, ct_type_tag = 0x015D,
     ct_schema_version = 1, ct_max_encoded_len = 48 * 2 + 16 * 4 + 8 * 2 + 1\<rparr>"

definition encode_CapacitySettlementV1 :: "CapacitySettlementV1 \<Rightarrow> encoder \<Rightarrow> encode_error + encoder" where
  "encode_CapacitySettlementV1 r e =
     and_then (encode_Digest384 (set_reservation r) e) (\<lambda>e.
     and_then (encode_typed_id (set_payer r) e) (\<lambda>e.
     and_then (write_u64 (set_used_units r) e) (\<lambda>e.
     and_then (write_u128 (set_deposit r) e) (\<lambda>e.
     and_then (write_u128 (set_charged r) e) (\<lambda>e.
     and_then (write_u128 (set_refund r) e) (\<lambda>e.
     write_u64 (settled_height r) e))))))"

definition decode_CapacitySettlementV1 :: "decoder \<Rightarrow> decode_error + (CapacitySettlementV1 \<times> decoder)" where
  "decode_CapacitySettlementV1 d =
     and_then (decode_Digest384 d) (\<lambda>(reservation, d).
     and_then (decode_typed_id d) (\<lambda>(payer, d).
     and_then (read_u64 d) (\<lambda>(used_units, d).
     and_then (read_u128 d) (\<lambda>(deposit, d).
     and_then (read_u128 d) (\<lambda>(charged, d).
     and_then (read_u128 d) (\<lambda>(refund, d).
     and_then (read_u64 d) (\<lambda>(height, d).
     if reservation = ZERO \<or> into_digest payer = ZERO \<or> deposit = 0 \<or> height = 0
       \<or> checked_add charged refund \<noteq> Some deposit
     then Inl (InvalidValue ''invalid capacity settlement'')
     else Inr (\<lparr>set_reservation = reservation, set_payer = payer, set_used_units = used_units,
       set_deposit = deposit, set_charged = charged, set_refund = refund, settled_height = height\<rparr>, d))))))))"

definition CapacitySettlementV1_type :: "CapacitySettlementV1 canonical_type" where
  "CapacitySettlementV1_type = \<lparr>ct_encode = encode_CapacitySettlementV1, ct_decode = decode_CapacitySettlementV1, ct_type_tag = 0x015E,
     ct_schema_version = 1, ct_max_encoded_len = 48 * 2 + 8 * 2 + 16 * 3\<rparr>"

section \<open>Challenges and duties\<close>

definition assign_challenge ::
    "hash \<Rightarrow> ChallengeAssignment list \<Rightarrow> ChallengeCommitmentV1 \<Rightarrow> Digest384 \<Rightarrow> Digest384 \<Rightarrow> u64
     \<Rightarrow> EconomicsError + ChallengeAssignment list" where
  "assign_challenge shake256 challenges commitment evidence nonce height =
     and_then (reveal shake256 commitment evidence nonce height) (\<lambda>challenge.
     if list_ex (\<lambda>c. ch_id c = ch_id challenge) challenges then Inl DuplicateAssignment
     else Inr (challenges @ [challenge]))"

definition resolve_challenge ::
    "ChallengeAssignment list \<Rightarrow> Digest384 \<Rightarrow> PrincipalId \<Rightarrow> u64
     \<Rightarrow> EconomicsError + (u128 \<times> ChallengeAssignment list)" where
  "resolve_challenge challenges ident challenger height =
     (case find_index (\<lambda>c. ch_id c = ident) challenges of
        None \<Rightarrow> Inl UnknownAssignment
      | Some i \<Rightarrow>
          let challenge = challenges ! i in
          if ch_challenger challenge \<noteq> challenger then Inl WrongVerifier
          else if ch_resolved challenge then Inl AlreadySettled
          else if height > ch_deadline challenge then Inl EconomicsExpired
          else Inr (ch_reward challenge, challenges[i := challenge\<lparr>ch_resolved := True\<rparr>]))"

definition settle_duty ::
    "DutyAssignment list \<Rightarrow> DutyReceipt \<Rightarrow> PrincipalId \<Rightarrow> ObjectiveFault option
     \<Rightarrow> EconomicsError + (RewardSettlement \<times> DutyAssignment list)" where
  "settle_duty assignments receipt verifier fault =
     (case find_index (\<lambda>a. duty_id a = receipt_assignment receipt) assignments of
        None \<Rightarrow> Inl UnknownAssignment
      | Some i \<Rightarrow>
          let assignment = assignments ! i in
          if duty_verifier assignment \<noteq> verifier then Inl WrongVerifier
          else if duty_settled assignment then Inl AlreadySettled
          else if receipt_evidence receipt = ZERO then Inl EmptyEvidence
          else if receipt_height receipt > duty_deadline assignment then Inl EconomicsExpired
          else
            and_then
              (case fault of
                 Some f \<Rightarrow>
                   if fault_assignment f \<noteq> duty_id assignment \<or> fault_slash_amount f > bond_amount assignment
                   then Inl InvalidSlash
                   else Inr (fault_slash_amount f)
               | None \<Rightarrow> Inr 0) (\<lambda>slash.
            Inr (\<lparr>reward_assignment = duty_id assignment, reward_verifier = verifier,
                   reward_amount = duty_reward assignment, bond_return = bond_amount assignment - slash,
                   slash_amount = slash\<rparr>,
                 assignments[i := assignment\<lparr>duty_settled := True\<rparr>])))"

definition register_assignment :: "DutyAssignment list \<Rightarrow> DutyAssignment \<Rightarrow> EconomicsError + DutyAssignment list" where
  "register_assignment assignments assignment =
     (if list_ex (\<lambda>a. duty_id a = duty_id assignment) assignments then Inl DuplicateAssignment
      else if duty_reward assignment = 0 \<or> bond_amount assignment = 0 \<or> duty_deadline assignment = 0
      then Inl InvalidSlash
      else Inr (assignments @ [assignment]))"

section \<open>Wire formats\<close>

lemmas economics_bounds = MAX_PAYMASTER_SENDERS_def KEY_BITS_def

definition enc_RewardReplayWitness :: "RewardReplayWitness \<Rightarrow> u8 list" where
  "enc_RewardReplayWitness r = enc_Digest384 (rw_assignment r) @ enc_each enc_Digest384
    (rw_siblings r)"

definition valid_RewardReplayWitness :: "RewardReplayWitness \<Rightarrow> bool" where
  "valid_RewardReplayWitness r \<longleftrightarrow> RewardReplayWitness_new r = Inr r"

lemma length_enc_RewardReplayWitness: "valid_RewardReplayWitness r \<Longrightarrow> length (enc_RewardReplayWitness r) \<le> 18480"
  using length_enc_each_le [of "\<lambda>_. True" "rw_siblings r" enc_Digest384 48]
  by (simp add: enc_RewardReplayWitness_def valid_RewardReplayWitness_def RewardReplayWitness_new_def economics_bounds
      split: if_splits)

interpretation reward_witness: bounded_envelope enc_RewardReplayWitness RewardReplayWitness_type valid_RewardReplayWitness
proof
  fix v
  assume "valid_RewardReplayWitness v"
  then show "length (enc_RewardReplayWitness v) \<le> ct_max_encoded_len RewardReplayWitness_type"
    by (simp add: RewardReplayWitness_type_def length_enc_RewardReplayWitness economics_bounds)
qed (auto simp: RewardReplayWitness_type_def enc_RewardReplayWitness_def encode_RewardReplayWitness_def
    decode_RewardReplayWitness_def valid_RewardReplayWitness_def MAX_BODY_LENGTH_def RewardReplayWitness_new_def
    economics_bounds digest.encode_each_at digest.decode_each_at codec_simps
    dest!: digest.encode_each_atD digest.decode_each_atD codec_dests split: if_splits)

definition enc_ChallengeCommitmentV1 :: "ChallengeCommitmentV1 \<Rightarrow> u8 list" where
  "enc_ChallengeCommitmentV1 r = enc_Digest384 (cc_id r) @ enc_Digest384 (cc_duty r) @
    enc_typed_id (cc_challenger r) @ enc_typed_id (cc_bond r) @ enc_u128 (cc_reward r) @
    enc_Digest384 (cc_commitment r) @ enc_u64 (reveal_deadline r) @ enc_u64 (resolution_deadline
    r)"

definition valid_ChallengeCommitmentV1 :: "ChallengeCommitmentV1 \<Rightarrow> bool" where
  "valid_ChallengeCommitmentV1 r \<longleftrightarrow> ChallengeCommitmentV1_new r = Inr r"

interpretation challenge_seal: bounded_envelope enc_ChallengeCommitmentV1 ChallengeCommitmentV1_type valid_ChallengeCommitmentV1
proof
  fix v
  assume "valid_ChallengeCommitmentV1 v"
  then show "length (enc_ChallengeCommitmentV1 v) \<le> ct_max_encoded_len ChallengeCommitmentV1_type"
    by (simp add: ChallengeCommitmentV1_type_def enc_ChallengeCommitmentV1_def)
qed (auto simp: ChallengeCommitmentV1_type_def enc_ChallengeCommitmentV1_def encode_ChallengeCommitmentV1_def decode_ChallengeCommitmentV1_def valid_ChallengeCommitmentV1_def
    MAX_BODY_LENGTH_def ChallengeCommitmentV1_new_def economics_bounds codec_simps dest!: codec_dests)

definition enc_CashPaymasterPolicyV1 :: "CashPaymasterPolicyV1 \<Rightarrow> u8 list" where
  "enc_CashPaymasterPolicyV1 r = enc_typed_id (pm_sponsor r) @ enc_length (length (allowed_senders
    r)) @ enc_each enc_typed_id (allowed_senders r) @ enc_u128 (maximum_fee r) @ enc_u128
    (epoch_budget r) @ enc_u128 (pm_spent r) @ enc_u64 (pm_epoch r) @ enc_u64 (next_nonce r) @
    enc_u64 (pm_expires_height r)"

definition valid_CashPaymasterPolicyV1 :: "CashPaymasterPolicyV1 \<Rightarrow> bool" where
  "valid_CashPaymasterPolicyV1 r \<longleftrightarrow> length (allowed_senders r) \<le>
    MAX_PAYMASTER_SENDERS \<and> CashPaymasterPolicyV1_new r = Inr r"

lemma length_enc_CashPaymasterPolicyV1:
  "valid_CashPaymasterPolicyV1 r \<Longrightarrow> length (enc_CashPaymasterPolicyV1 r) \<le> 3194"
  using length_enc_each_le [of "\<lambda>_. True" "allowed_senders r" enc_typed_id 48]
  by (simp add: enc_CashPaymasterPolicyV1_def valid_CashPaymasterPolicyV1_def enc_length_small economics_bounds)

interpretation paymaster_policy: bounded_envelope enc_CashPaymasterPolicyV1 CashPaymasterPolicyV1_type valid_CashPaymasterPolicyV1
proof
  fix v
  assume "valid_CashPaymasterPolicyV1 v"
  then show "length (enc_CashPaymasterPolicyV1 v) \<le> ct_max_encoded_len CashPaymasterPolicyV1_type"
    by (simp add: CashPaymasterPolicyV1_type_def length_enc_CashPaymasterPolicyV1 economics_bounds)
qed (auto simp: CashPaymasterPolicyV1_type_def enc_CashPaymasterPolicyV1_def encode_CashPaymasterPolicyV1_def decode_CashPaymasterPolicyV1_def valid_CashPaymasterPolicyV1_def
    MAX_BODY_LENGTH_def CashPaymasterPolicyV1_new_def economics_bounds codec_simps dest!: codec_dests)

definition enc_CashPaymasterRequestV1 :: "CashPaymasterRequestV1 \<Rightarrow> u8 list" where
  "enc_CashPaymasterRequestV1 r = enc_typed_id (rq_sponsor r) @ enc_typed_id (rq_sender r) @
    enc_Digest384 (rq_transfer r) @ enc_Digest384 (rq_policy_commitment r) @ enc_Digest384
    (rq_approval_commitment r) @ enc_u128 (rq_fee r) @ enc_u128 (rq_expected_spent r) @ enc_u64
    (rq_epoch r) @ enc_u64 (rq_nonce r) @ enc_u64 (rq_expires_height r)"

definition valid_CashPaymasterRequestV1 :: "CashPaymasterRequestV1 \<Rightarrow> bool" where
  "valid_CashPaymasterRequestV1 r \<longleftrightarrow> CashPaymasterRequestV1_new r = Inr r"

interpretation paymaster_request: bounded_envelope enc_CashPaymasterRequestV1 CashPaymasterRequestV1_type valid_CashPaymasterRequestV1
proof
  fix v
  assume "valid_CashPaymasterRequestV1 v"
  then show "length (enc_CashPaymasterRequestV1 v) \<le> ct_max_encoded_len CashPaymasterRequestV1_type"
    by (simp add: CashPaymasterRequestV1_type_def enc_CashPaymasterRequestV1_def)
qed (auto simp: CashPaymasterRequestV1_type_def enc_CashPaymasterRequestV1_def encode_CashPaymasterRequestV1_def decode_CashPaymasterRequestV1_def valid_CashPaymasterRequestV1_def
    MAX_BODY_LENGTH_def CashPaymasterRequestV1_new_def economics_bounds codec_simps dest!: codec_dests)

definition enc_CapacityReservationV1 :: "CapacityReservationV1 \<Rightarrow> u8 list" where
  "enc_CapacityReservationV1 r = enc_Digest384 (res_id r) @ enc_typed_id (res_payer r) @ enc_u128
    (fq_base (res_quote r)) @ enc_u64 (fq_resource_units (res_quote r)) @ enc_u128 (fq_resource_price (res_quote r)) @ enc_u128
    (fq_congestion_price (res_quote r)) @ enc_u128 (res_deposit r) @ enc_u64 (res_expires_height r) @ enc_bool
    (res_settled r)"

definition valid_CapacityReservationV1 :: "CapacityReservationV1 \<Rightarrow> bool" where
  "valid_CapacityReservationV1 r \<longleftrightarrow>
     CapacityReservationV1_new (res_id r) (res_payer r) (res_quote r) (res_deposit r) (res_expires_height r)
       = Inr (r\<lparr>res_settled := False\<rparr>)"

interpretation capacity_reservation: bounded_envelope enc_CapacityReservationV1 CapacityReservationV1_type valid_CapacityReservationV1
proof
  fix v
  assume "valid_CapacityReservationV1 v"
  then show "length (enc_CapacityReservationV1 v) \<le> ct_max_encoded_len CapacityReservationV1_type"
    by (simp add: CapacityReservationV1_type_def enc_CapacityReservationV1_def)
qed (auto simp: CapacityReservationV1_type_def enc_CapacityReservationV1_def encode_CapacityReservationV1_def decode_CapacityReservationV1_def valid_CapacityReservationV1_def
    MAX_BODY_LENGTH_def CapacityReservationV1_new_def FeeQuote_total_def codec_simps dest!: codec_dests)

definition enc_CapacitySettlementV1 :: "CapacitySettlementV1 \<Rightarrow> u8 list" where
  "enc_CapacitySettlementV1 r = enc_Digest384 (set_reservation r) @ enc_typed_id (set_payer r) @
    enc_u64 (set_used_units r) @ enc_u128 (set_deposit r) @ enc_u128 (set_charged r) @ enc_u128
    (set_refund r) @ enc_u64 (settled_height r)"

definition valid_CapacitySettlementV1 :: "CapacitySettlementV1 \<Rightarrow> bool" where
  "valid_CapacitySettlementV1 r \<longleftrightarrow> set_reservation r \<noteq> ZERO \<and> into_digest (set_payer r) \<noteq> ZERO
     \<and> set_deposit r \<noteq> 0 \<and> settled_height r \<noteq> 0 \<and> checked_add (set_charged r) (set_refund r) = Some (set_deposit r)"

interpretation capacity_settlement: bounded_envelope enc_CapacitySettlementV1 CapacitySettlementV1_type valid_CapacitySettlementV1
proof
  fix v
  assume "valid_CapacitySettlementV1 v"
  then show "length (enc_CapacitySettlementV1 v) \<le> ct_max_encoded_len CapacitySettlementV1_type"
    by (simp add: CapacitySettlementV1_type_def enc_CapacitySettlementV1_def)
qed (auto simp: CapacitySettlementV1_type_def enc_CapacitySettlementV1_def encode_CapacitySettlementV1_def decode_CapacitySettlementV1_def valid_CapacitySettlementV1_def
    MAX_BODY_LENGTH_def  codec_simps dest!: codec_dests)

end
