(* ===== verification/Cash_Ledger.thy ===== *)
theory Cash_Ledger
  imports Privacy_State Cash_Types Cash_Economics
begin

text \<open>
  The native-money ledger (\<^verbatim>\<open>cash-kernel/src/transition.rs\<close>): genesis, public transfers, sponsored
  transfers, mints, epoch settlements, burns, shielding, unshielding, reward redemption, the
  invariant check and the encodings.  Every operation of the source works on a copy and assigns it
  on success only, so an operation here returns the new ledger or an error.
\<close>

section \<open>State and errors\<close>

datatype CashTransitionError =
    Invalid NativeMoneyError
  | Encoding encode_error
  | Invariant NativeMoneyError
  | Privacy PrivacyError
  | Economics EconomicsError

record CashLedger =
  ledger_definition :: NativeAssetDefinition
  ledger_supply :: NativeSupply
  ledger_cells :: CoinCellSet
  ledger_shielded :: ShieldedCashState
  redeemed_reward_root :: Digest384
  redeemed_reward_count :: u64

definition LEGACY_MAX_REDEEMED_REWARDS :: usize where "LEGACY_MAX_REDEEMED_REWARDS = 4096"

section \<open>Queries and the invariant check\<close>

definition ledger_cell_set_root :: "hash \<Rightarrow> CashLedger \<Rightarrow> CashTransitionError + CoinCellSetRoot" where
  "ledger_cell_set_root shake256 l = map_err Encoding (coin_cell_set_root shake256 CoinCellSet_type (ledger_cells l))"

definition ledger_supply_root :: "hash \<Rightarrow> CashLedger \<Rightarrow> CashTransitionError + SupplyRoot" where
  "ledger_supply_root shake256 l = map_err Encoding (supply_root shake256 NativeSupply_type (ledger_supply l))"

definition genesis_root :: "hash \<Rightarrow> GenesisEconomy \<Rightarrow> CashTransitionError + GenesisAllocationRoot" where
  "genesis_root shake256 economy = map_err Encoding (genesis_allocation_root shake256 GenesisEconomy_type economy)"

definition ledger_asset_id :: "hash \<Rightarrow> CashLedger \<Rightarrow> CashTransitionError + AssetId" where
  "ledger_asset_id shake256 l =
     map_err Encoding (native_asset_id shake256 NativeAssetDefinition_type (ledger_definition l))"

definition find_cell :: "CashLedger \<Rightarrow> CoinCellId \<Rightarrow> CoinCellRecord option" where
  "find_cell l cell_id =
     map_option (\<lambda>i. cell_records (ledger_cells l) ! i)
       (binary_search_by_key record_id cell_id (cell_records (ledger_cells l)))"

definition origin_id :: "hash \<Rightarrow> CoinCellOrigin \<Rightarrow> CashTransitionError + CoinCellId" where
  "origin_id shake256 origin = map_err Encoding (coin_cell_id shake256 CoinCellOrigin_type origin)"

primrec verify_cells :: "hash \<Rightarrow> CoinCellRecord list \<Rightarrow> u128 \<Rightarrow> CashTransitionError + u128" where
  "verify_cells shake256 [] cell_total = Inr cell_total"
| "verify_cells shake256 (r # records) cell_total =
     and_then (origin_id shake256 (cell_origin (record_cell r))) (\<lambda>expected.
     if expected \<noteq> record_id r then Inl (Invariant OutputCollision)
     else
       and_then (ok_or (Invalid AmountOverflow) (checked_add cell_total (cell_amount (record_cell r))))
         (\<lambda>cell_total.
       verify_cells shake256 records cell_total))"

definition verify_invariants :: "hash \<Rightarrow> CashLedger \<Rightarrow> CashTransitionError + unit" where
  "verify_invariants shake256 l =
     (if redeemed_reward_root l = ZERO then Inl (Invariant InvalidRewardReplayWitness)
      else
        and_then (verify_cells shake256 (cell_records (ledger_cells l)) 0) (\<lambda>cell_total.
        and_then (ok_or (Invalid AmountOverflow)
          (Option.bind (checked_add cell_total (pool_balance (ledger_shielded l))) (\<lambda>v.
           Option.bind (checked_add v (security_reserve_balance (ledger_supply l))) (\<lambda>v.
           Option.bind (checked_add v (locked_vesting_supply (ledger_supply l))) (\<lambda>v.
           checked_add v (staked_supply (ledger_supply l))))))) (\<lambda>accounted.
        if accounted \<noteq> current_total_supply (ledger_supply l) then Inl (Invariant SupplyPartitionMismatch)
        else
          and_then (map_err Invalid
            (basis_points_amount (issuance_window_opening_supply (ledger_supply l))
              (maximum_ordinary_annual_issuance_bps (ledger_definition l)))) (\<lambda>annual_cap.
          if issuance_in_window (ledger_supply l) > annual_cap then Inl (Invariant IssuanceCapExceeded)
          else Inr ()))))"

text \<open>
  Every operation builds a candidate ledger and ends with this check of it; the operations below
  are the composition of the two.
\<close>

definition checked :: "hash \<Rightarrow> CashLedger \<Rightarrow> CashTransitionError + CashLedger" where
  "checked shake256 l = and_then (verify_invariants shake256 l) (\<lambda>_. Inr l)"

definition checked_output ::
    "hash \<Rightarrow> CashLedger \<times> CoinCellId \<Rightarrow> CashTransitionError + (CashLedger \<times> CoinCellId)" where
  "checked_output shake256 r = and_then (verify_invariants shake256 (fst r)) (\<lambda>_. Inr r)"

section \<open>Spending and creating cells\<close>

text \<open>
  The loop over the inputs of a transfer, a burn and a shield: it finds every cell, checks its
  owner, adds its amount and collects the record.
\<close>

primrec gather_inputs ::
    "CashLedger \<Rightarrow> PrincipalId \<Rightarrow> CoinCellId list \<Rightarrow> u128 \<Rightarrow> CoinCellRecord list
     \<Rightarrow> CashTransitionError + (u128 \<times> CoinCellRecord list)" where
  "gather_inputs l owner [] gathered spent = Inr (gathered, spent)"
| "gather_inputs l owner (cell_id # ids) gathered spent =
     and_then (ok_or (Invalid MissingCell) (find_cell l cell_id)) (\<lambda>r.
     if cell_owner (record_cell r) \<noteq> owner then Inl (Invalid WrongOwner)
     else
       and_then (ok_or (Invalid AmountOverflow) (checked_add gathered (cell_amount (record_cell r)))) (\<lambda>gathered.
       gather_inputs l owner ids gathered (spent @ [r])))"

definition unspent_cells :: "CashLedger \<Rightarrow> CoinCellRecord list \<Rightarrow> CoinCellRecord list" where
  "unspent_cells l spent =
     filter (\<lambda>r. \<not> list_ex (\<lambda>s. record_id s = record_id r) spent) (cell_records (ledger_cells l))"

text \<open>An output of a transition, with the identifier of its origin.\<close>

definition output_cell ::
    "hash \<Rightarrow> TransactionId \<Rightarrow> u16 \<Rightarrow> PrincipalId \<Rightarrow> u128 \<Rightarrow> Height \<Rightarrow> CashTransitionError + CoinCellRecord" where
  "output_cell shake256 transition_id index owner amount height =
     (let origin = \<lparr>origin_transition_id = transition_id, output_index = index\<rparr> in
      and_then (map_err Invalid (CoinCell_new \<lparr>cell_origin = origin, cell_owner = owner, cell_amount = amount,
        creation_height = height\<rparr>)) (\<lambda>cell.
      and_then (origin_id shake256 (cell_origin cell)) (\<lambda>cell_id.
      Inr \<lparr>record_id = cell_id, record_cell = cell\<rparr>)))"

text \<open>Change is an output only when there is any.\<close>

definition change_cell ::
    "hash \<Rightarrow> TransactionId \<Rightarrow> u16 \<Rightarrow> PrincipalId \<Rightarrow> u128 \<Rightarrow> Height
     \<Rightarrow> CashTransitionError + CoinCellRecord list" where
  "change_cell shake256 transition_id index owner change height =
     (if change > 0
      then and_then (output_cell shake256 transition_id index owner change height) (\<lambda>r. Inr [r])
      else Inr [])"

definition replace_cells :: "CoinCellRecord list \<Rightarrow> CashTransitionError + CoinCellSet" where
  "replace_cells cells = map_err Invalid (CoinCellSet_new \<lparr>cell_records = sort_key record_id cells\<rparr>)"

definition insert_new_cell :: "CashLedger \<Rightarrow> CoinCellRecord \<Rightarrow> CashTransitionError + CashLedger" where
  "insert_new_cell l r =
     (if find_cell l (record_id r) \<noteq> None then Inl (Invalid OutputCollision)
      else
        and_then (replace_cells (cell_records (ledger_cells l) @ [r])) (\<lambda>cells.
        Inr (l\<lparr>ledger_cells := cells\<rparr>)))"

definition move_fee_to_reserve :: "CashLedger \<Rightarrow> u128 \<Rightarrow> CashTransitionError + CashLedger" where
  "move_fee_to_reserve l fee =
     and_then (ok_or (Invalid AmountOverflow) (checked_sub (circulating_supply (ledger_supply l)) fee))
       (\<lambda>circulating.
     and_then (ok_or (Invalid AmountOverflow) (checked_add (security_reserve_balance (ledger_supply l)) fee))
       (\<lambda>reserve.
     and_then (map_err Invalid (NativeSupply_new ((ledger_supply l)
       \<lparr>circulating_supply := circulating, security_reserve_balance := reserve\<rparr>))) (\<lambda>supply_state.
     Inr (l\<lparr>ledger_supply := supply_state\<rparr>))))"

section \<open>Public transfers\<close>

text \<open>Transfers compute the fee pool before the circulating supply.\<close>

definition charge_fee :: "CashLedger \<Rightarrow> u128 \<Rightarrow> CashTransitionError + CashLedger" where
  "charge_fee l fee =
     and_then (ok_or (Invalid AmountOverflow) (checked_add (security_reserve_balance (ledger_supply l)) fee))
       (\<lambda>fee_pool.
     and_then (ok_or (Invalid AmountOverflow) (checked_sub (circulating_supply (ledger_supply l)) fee))
       (\<lambda>circulating.
     and_then (map_err Invalid (NativeSupply_new ((ledger_supply l)
       \<lparr>circulating_supply := circulating, security_reserve_balance := fee_pool\<rparr>))) (\<lambda>supply_state.
     Inr (l\<lparr>ledger_supply := supply_state\<rparr>))))"

definition transfer_candidate :: "hash \<Rightarrow> CashLedger \<Rightarrow> CoinTransfer \<Rightarrow> Height \<Rightarrow> CashTransitionError + CashLedger" where
  "transfer_candidate shake256 l transfer height =
     (if height > transfer_valid_until transfer then Inl (Invalid MoneyExpired)
      else
        and_then (gather_inputs l (transfer_sender transfer) (transfer_inputs transfer) 0 []) (\<lambda>(gathered, records).
        and_then (ok_or (Invalid MissingCell) (find_cell l (transfer_fee_reserve transfer))) (\<lambda>reserve.
        if cell_owner (record_cell reserve) \<noteq> transfer_sender transfer then Inl (Invalid WrongOwner)
        else
          and_then (ok_or (Invalid AmountOverflow) (checked_add gathered (cell_amount (record_cell reserve)))) (\<lambda>gathered.
          and_then (ok_or (Invalid AmountOverflow)
            (checked_add (transfer_amount transfer) (transfer_fee transfer))) (\<lambda>required.
          if gathered < required then Inl (Invalid InsufficientValue)
          else
            and_then (map_err Encoding (cash_transition_id shake256 CoinTransfer_type transfer)) (\<lambda>transition_id.
            and_then (output_cell shake256 transition_id 0 (transfer_recipient transfer)
              (transfer_amount transfer) height) (\<lambda>recipient.
            and_then (change_cell shake256 transition_id 1 (transfer_sender transfer)
              (gathered - required) height) (\<lambda>change.
            and_then (replace_cells (unspent_cells l (records @ [reserve]) @ [recipient] @ change)) (\<lambda>cells.
            charge_fee (l\<lparr>ledger_cells := cells\<rparr>) (transfer_fee transfer))))))))))"

definition apply_transfer :: "hash \<Rightarrow> CashLedger \<Rightarrow> CoinTransfer \<Rightarrow> Height \<Rightarrow> CashTransitionError + CashLedger" where
  "apply_transfer shake256 l transfer height =
     and_then (transfer_candidate shake256 l transfer height) (checked shake256)"

definition sponsored_candidate ::
    "hash \<Rightarrow> CashLedger \<Rightarrow> PrincipalId \<Rightarrow> CoinTransfer \<Rightarrow> TransactionId \<Rightarrow> Height
     \<Rightarrow> CashTransitionError + CashLedger" where
  "sponsored_candidate shake256 l sponsor transfer transition_id height =
     (if height > transfer_valid_until transfer then Inl (Invalid MoneyExpired)
      else
        and_then (gather_inputs l (transfer_sender transfer) (transfer_inputs transfer) 0 [])
          (\<lambda>(input_total, spent).
        if input_total < transfer_amount transfer then Inl (Invalid InsufficientValue)
        else
          and_then (ok_or (Invalid MissingCell) (find_cell l (transfer_fee_reserve transfer))) (\<lambda>reserve.
          if cell_owner (record_cell reserve) \<noteq> sponsor then Inl (Invalid WrongOwner)
          else if cell_amount (record_cell reserve) < transfer_fee transfer then Inl (Invalid InsufficientValue)
          else
            and_then (output_cell shake256 transition_id 0 (transfer_recipient transfer)
              (transfer_amount transfer) height) (\<lambda>recipient.
            and_then (change_cell shake256 transition_id 1 (transfer_sender transfer)
              (input_total - transfer_amount transfer) height) (\<lambda>sender_change.
            and_then (change_cell shake256 transition_id 2 sponsor
              (cell_amount (record_cell reserve) - transfer_fee transfer) height) (\<lambda>sponsor_change.
            and_then (replace_cells (unspent_cells l (spent @ [reserve]) @ [recipient] @ sender_change
              @ sponsor_change)) (\<lambda>cells.
            charge_fee (l\<lparr>ledger_cells := cells\<rparr>) (transfer_fee transfer))))))))"

definition apply_sponsored_inner ::
    "hash \<Rightarrow> CashLedger \<Rightarrow> PrincipalId \<Rightarrow> CoinTransfer \<Rightarrow> TransactionId \<Rightarrow> Height
     \<Rightarrow> CashTransitionError + CashLedger" where
  "apply_sponsored_inner shake256 l sponsor transfer transition_id height =
     and_then (sponsored_candidate shake256 l sponsor transfer transition_id height) (checked shake256)"

definition apply_sponsored_transfer ::
    "hash \<Rightarrow> CashLedger \<Rightarrow> CashPaymasterPolicyV1 \<Rightarrow> CashPaymasterRequestV1 \<Rightarrow> CoinTransfer \<Rightarrow> Height
     \<Rightarrow> CashTransitionError + (CashLedger \<times> CashPaymasterPolicyV1)" where
  "apply_sponsored_transfer shake256 l policy request transfer height =
     (if rq_sender request \<noteq> transfer_sender transfer \<or> rq_fee request \<noteq> transfer_fee transfer
      then Inl (Economics PaymasterUnauthorized)
      else
        and_then (map_err Encoding (cash_transition_id shake256 CoinTransfer_type transfer)) (\<lambda>transition_id.
        if rq_transfer request \<noteq> into_digest transition_id then Inl (Economics PaymasterUnauthorized)
        else
          and_then (map_err Economics (authorize shake256 policy request (into_digest transition_id)
            (transfer_fee transfer) height)) (\<lambda>next_policy.
          and_then (apply_sponsored_inner shake256 l (rq_sponsor request) transfer transition_id height) (\<lambda>next_ledger.
          Inr (next_ledger, next_policy)))))"

section \<open>Burns\<close>

definition burn_candidate :: "hash \<Rightarrow> CashLedger \<Rightarrow> CoinBurnTransition \<Rightarrow> Height \<Rightarrow> CashTransitionError + CashLedger" where
  "burn_candidate shake256 l burn height =
     (if height > burn_valid_until burn then Inl (Invalid MoneyExpired)
      else
        and_then (gather_inputs l (burn_owner burn) (burn_inputs burn) 0 []) (\<lambda>(gathered, spent).
        if gathered < burn_amount burn then Inl (Invalid BurnExceedsInputs)
        else
          and_then (map_err Encoding (cash_transition_id shake256 CoinBurnTransition_type burn)) (\<lambda>transition_id.
          and_then (change_cell shake256 transition_id 0 (burn_owner burn) (gathered - burn_amount burn) height) (\<lambda>change.
          and_then (replace_cells (unspent_cells l spent @ change)) (\<lambda>cells.
          and_then (ok_or (Invalid AmountOverflow)
            (checked_add (cumulative_burn (ledger_supply l)) (burn_amount burn))) (\<lambda>burned.
          and_then (ok_or (Invalid AmountOverflow)
            (checked_sub (current_total_supply (ledger_supply l)) (burn_amount burn))) (\<lambda>current.
          and_then (ok_or (Invalid AmountOverflow)
            (checked_sub (circulating_supply (ledger_supply l)) (burn_amount burn))) (\<lambda>circulating.
          and_then (map_err Invalid (NativeSupply_new ((ledger_supply l)
            \<lparr>cumulative_burn := burned, current_total_supply := current,
              circulating_supply := circulating\<rparr>))) (\<lambda>supply_state.
          Inr (l\<lparr>ledger_cells := cells, ledger_supply := supply_state\<rparr>))))))))))"

definition apply_burn :: "hash \<Rightarrow> CashLedger \<Rightarrow> CoinBurnTransition \<Rightarrow> Height \<Rightarrow> CashTransitionError + CashLedger" where
  "apply_burn shake256 l burn height = and_then (burn_candidate shake256 l burn height) (checked shake256)"

section \<open>Epoch settlement\<close>

text \<open>The opening supply and the issuance already charged to the window of the next epoch.\<close>

definition window_terms :: "NativeSupply \<Rightarrow> Epoch \<Rightarrow> Amount \<times> Amount" where
  "window_terms s next_window =
     (if last_settled_epoch s = 0 \<or> next_window = issuance_window s
      then (issuance_window_opening_supply s, issuance_in_window s)
      else (current_total_supply s, 0))"

definition mint_candidate ::
    "hash \<Rightarrow> CashLedger \<Rightarrow> CoinMintTransition \<Rightarrow> EpochEconomicsTransition
     \<Rightarrow> CashTransitionError + (CashLedger \<times> CoinCellId)" where
  "mint_candidate shake256 l mint settlement =
     (if mint_policy_hash mint \<noteq> issuance_policy_hash (ledger_definition l)
      then Inl (Invalid MintAuthorityMismatch)
      else if mint_sequence mint \<noteq> settlement_epoch settlement then Inl (Invalid MintSequenceMismatch)
      else
        and_then (ok_or (Invalid AmountOverflow) (checked_add (last_settled_epoch (ledger_supply l)) 1)) (\<lambda>epoch.
        if mint_sequence mint \<noteq> epoch then Inl (Invalid MintSequenceMismatch)
        else
          and_then (map_err Invalid (effective_stake_basis_points (staked_supply (ledger_supply l))
            (current_total_supply (ledger_supply l)))) (\<lambda>stake_bps.
          if settlement_pre_supply settlement \<noteq> current_total_supply (ledger_supply l)
            \<or> burned_amount settlement \<noteq> 0 \<or> settlement_issuance settlement \<noteq> mint_amount mint
            \<or> effective_stake_bps settlement \<noteq> stake_bps
          then Inl (Invalid IssuanceFormulaMismatch)
          else
            and_then (map_err Invalid (epoch_security_budget (current_total_supply (ledger_supply l)) stake_bps))
              (\<lambda>budget.
            if target_security_budget settlement \<noteq> budget then Inl (Invalid IssuanceFormulaMismatch)
            else
              and_then (map_err Invalid (issuance_window_index (mint_sequence mint))) (\<lambda>next_window.
              let (window_opening_supply, issued_before) = window_terms (ledger_supply l) next_window in
              and_then (map_err Invalid (basis_points_amount window_opening_supply
                (maximum_ordinary_annual_issuance_bps (ledger_definition l)))) (\<lambda>annual_cap.
              and_then (ok_or (Invariant IssuanceCapExceeded) (checked_sub annual_cap issued_before)) (\<lambda>remaining_cap.
              if issuance_cap settlement \<noteq> remaining_cap \<or> mint_amount mint > remaining_cap
              then Inl (Invalid IssuanceCapExceeded)
              else if settlement_post_supply settlement < current_total_supply (ledger_supply l)
              then Inl (Invalid IssuanceCapExceeded)
              else
                and_then (map_err Encoding (cash_transition_id shake256 CoinMintTransition_type mint)) (\<lambda>transition_id.
                and_then (output_cell shake256 transition_id 0 (mint_recipient mint) (mint_amount mint)
                  (mint_height mint)) (\<lambda>minted.
                and_then (insert_new_cell l minted) (\<lambda>l.
                and_then (ok_or (Invalid AmountOverflow)
                  (checked_add (cumulative_security_issuance (ledger_supply l)) (mint_amount mint))) (\<lambda>issuance.
                and_then (ok_or (Invalid AmountOverflow) (checked_add issued_before (mint_amount mint))) (\<lambda>issued_in_window.
                and_then (ok_or (Invalid AmountOverflow)
                  (checked_add (circulating_supply (ledger_supply l)) (mint_amount mint))) (\<lambda>circulating.
                and_then (map_err Invalid (NativeSupply_new ((ledger_supply l)
                  \<lparr>cumulative_security_issuance := issuance,
                    current_total_supply := settlement_post_supply settlement,
                    circulating_supply := circulating, last_settled_epoch := mint_sequence mint,
                    issuance_window := next_window, issuance_window_opening_supply := window_opening_supply,
                    issuance_in_window := issued_in_window\<rparr>))) (\<lambda>supply_state.
                Inr (l\<lparr>ledger_supply := supply_state\<rparr>, record_id minted)))))))))))))))"

definition apply_mint ::
    "hash \<Rightarrow> CashLedger \<Rightarrow> CoinMintTransition \<Rightarrow> EpochEconomicsTransition
     \<Rightarrow> CashTransitionError + (CashLedger \<times> CoinCellId)" where
  "apply_mint shake256 l mint settlement =
     and_then (mint_candidate shake256 l mint settlement) (checked_output shake256)"

definition settlement_candidate ::
    "CashLedger \<Rightarrow> EpochEconomicsTransition \<Rightarrow> CashTransitionError + CashLedger" where
  "settlement_candidate l settlement =
     and_then (ok_or (Invalid AmountOverflow) (checked_add (last_settled_epoch (ledger_supply l)) 1)) (\<lambda>next_epoch.
     if settlement_epoch settlement \<noteq> next_epoch then Inl (Invalid MintSequenceMismatch)
     else
       and_then (map_err Invalid (effective_stake_basis_points (staked_supply (ledger_supply l))
         (current_total_supply (ledger_supply l)))) (\<lambda>stake_bps.
       and_then (map_err Invalid (epoch_security_budget (current_total_supply (ledger_supply l)) stake_bps))
         (\<lambda>target.
       if settlement_pre_supply settlement \<noteq> current_total_supply (ledger_supply l)
         \<or> settlement_post_supply settlement \<noteq> current_total_supply (ledger_supply l)
         \<or> burned_amount settlement \<noteq> 0 \<or> settlement_issuance settlement \<noteq> 0
         \<or> effective_stake_bps settlement \<noteq> stake_bps \<or> target_security_budget settlement \<noteq> target
       then Inl (Invalid IssuanceFormulaMismatch)
       else
         and_then (map_err Invalid (issuance_window_index (settlement_epoch settlement))) (\<lambda>next_window.
         let (window_opening_supply, issued_in_window) = window_terms (ledger_supply l) next_window in
         and_then (map_err Invalid (basis_points_amount window_opening_supply
           (maximum_ordinary_annual_issuance_bps (ledger_definition l)))) (\<lambda>annual_cap.
         and_then (ok_or (Invariant IssuanceCapExceeded) (checked_sub annual_cap issued_in_window)) (\<lambda>remaining_cap.
         if issuance_cap settlement \<noteq> remaining_cap then Inl (Invalid IssuanceCapExceeded)
         else
           and_then (map_err Invalid (NativeSupply_new ((ledger_supply l)
             \<lparr>last_settled_epoch := settlement_epoch settlement, issuance_window := next_window,
               issuance_window_opening_supply := window_opening_supply,
               issuance_in_window := issued_in_window\<rparr>))) (\<lambda>supply_state.
           Inr (l\<lparr>ledger_supply := supply_state\<rparr>))))))))"

definition apply_zero_issuance_settlement ::
    "hash \<Rightarrow> CashLedger \<Rightarrow> EpochEconomicsTransition \<Rightarrow> CashTransitionError + CashLedger" where
  "apply_zero_issuance_settlement shake256 l settlement =
     and_then (settlement_candidate l settlement) (checked shake256)"

section \<open>The shielded pool\<close>

definition verify_privacy_context ::
    "hash \<Rightarrow> CashLedger \<Rightarrow> ChainId \<Rightarrow> AssetId \<Rightarrow> Height \<Rightarrow> Height \<Rightarrow> CashTransitionError + unit" where
  "verify_privacy_context shake256 l chain_id asset_id valid_until height =
     (if chain_id \<noteq> def_chain_id (ledger_definition l) then Inl (Privacy WrongChain)
      else
        and_then (ledger_asset_id shake256 l) (\<lambda>expected.
        if asset_id \<noteq> expected then Inl (Privacy PublicInputMismatch)
        else if height > valid_until then Inl (Privacy PrivacyExpired)
        else Inr ()))"

definition verify_privacy_proof ::
    "hash \<Rightarrow> 'a canonical_type \<Rightarrow> 'a \<Rightarrow> VerifiedPrivacyProof \<Rightarrow> CashTransitionError + Digest384" where
  "verify_privacy_proof shake256 T intent proof_result =
     (if \<not> proof_verified proof_result then Inl (Privacy ProofNotVerified)
      else
        and_then (map_err Encoding (commit shake256 PRIVACY_PUBLIC_INPUTS T intent)) (\<lambda>expected.
        if expected \<noteq> public_inputs_commitment proof_result then Inl (Privacy PublicInputMismatch)
        else Inr expected))"

definition shield_candidate ::
    "hash \<Rightarrow> CashLedger \<Rightarrow> ShieldIntent \<Rightarrow> VerifiedPrivacyProof \<Rightarrow> Height \<Rightarrow> CashTransitionError + CashLedger" where
  "shield_candidate shake256 l intent proof_result height =
     and_then (verify_privacy_context shake256 l (shield_chain_id intent) (shield_asset_id intent)
       (shield_valid_until intent) height) (\<lambda>_.
     and_then (verify_privacy_proof shake256 ShieldIntent_type intent proof_result) (\<lambda>proof_commitment.
     and_then (gather_inputs l (shield_owner intent) (shield_inputs intent) 0 []) (\<lambda>(gathered, spent).
     and_then (ok_or (Invalid MissingCell) (find_cell l (shield_fee_reserve intent))) (\<lambda>reserve.
     if cell_owner (record_cell reserve) \<noteq> shield_owner intent then Inl (Invalid WrongOwner)
     else
       and_then (ok_or (Invalid AmountOverflow) (checked_add gathered (cell_amount (record_cell reserve)))) (\<lambda>gathered.
       and_then (ok_or (Invalid AmountOverflow)
         (checked_add (shield_amount intent) (shield_fee intent))) (\<lambda>required.
       if gathered < required then Inl (Invalid InsufficientValue)
       else
         and_then (map_err Encoding (cash_transition_id shake256 ShieldIntent_type intent)) (\<lambda>transition_id.
         and_then (change_cell shake256 transition_id 0 (shield_owner intent) (gathered - required) height) (\<lambda>change.
         and_then (replace_cells (unspent_cells l (spent @ [reserve]) @ change)) (\<lambda>cells.
         and_then (map_err Privacy (credit (ledger_shielded l) (shield_amount intent) proof_commitment)) (\<lambda>shielded.
         move_fee_to_reserve (l\<lparr>ledger_cells := cells, ledger_shielded := shielded\<rparr>)
           (shield_fee intent)))))))))))"

definition apply_shield ::
    "hash \<Rightarrow> CashLedger \<Rightarrow> ShieldIntent \<Rightarrow> VerifiedPrivacyProof \<Rightarrow> Height \<Rightarrow> CashTransitionError + CashLedger" where
  "apply_shield shake256 l intent proof_result height =
     and_then (shield_candidate shake256 l intent proof_result height) (checked shake256)"

definition unshield_candidate ::
    "hash \<Rightarrow> CashLedger \<Rightarrow> UnshieldIntent \<Rightarrow> VerifiedPrivacyProof \<Rightarrow> Height
     \<Rightarrow> CashTransitionError + (CashLedger \<times> CoinCellId)" where
  "unshield_candidate shake256 l intent proof_result height =
     and_then (verify_privacy_context shake256 l (unshield_chain_id intent) (unshield_asset_id intent)
       (unshield_valid_until intent) height) (\<lambda>_.
     if unshield_anchor intent \<noteq> cash_anchor (ledger_shielded l) then Inl (Privacy WrongAnchor)
     else
       and_then (verify_privacy_proof shake256 UnshieldIntent_type intent proof_result) (\<lambda>proof_commitment.
       and_then (ok_or (Invalid AmountOverflow)
         (checked_add (unshield_amount intent) (unshield_fee intent))) (\<lambda>debited.
       and_then (map_err Privacy (debit shake256 (ledger_shielded l) debited (unshield_nullifiers intent)
         (nullifier_witnesses intent) proof_commitment)) (\<lambda>shielded.
       and_then (map_err Encoding (cash_transition_id shake256 UnshieldIntent_type intent)) (\<lambda>transition_id.
       and_then (output_cell shake256 transition_id 0 (unshield_recipient intent) (unshield_amount intent) height)
         (\<lambda>r.
       and_then (insert_new_cell (l\<lparr>ledger_shielded := shielded\<rparr>) r) (\<lambda>l.
       and_then (move_fee_to_reserve l (unshield_fee intent)) (\<lambda>l.
       Inr (l, record_id r)))))))))"

definition apply_unshield ::
    "hash \<Rightarrow> CashLedger \<Rightarrow> UnshieldIntent \<Rightarrow> VerifiedPrivacyProof \<Rightarrow> Height
     \<Rightarrow> CashTransitionError + (CashLedger \<times> CoinCellId)" where
  "apply_unshield shake256 l intent proof_result height =
     and_then (unshield_candidate shake256 l intent proof_result height) (checked_output shake256)"

section \<open>Reward redemption\<close>

definition reward_commitment :: "CashLedger \<Rightarrow> SetCommitment" where
  "reward_commitment l =
     \<lparr>set_domain = SpentInput, set_root = redeemed_reward_root l, set_count = redeemed_reward_count l\<rparr>"

definition reward_witness_of :: "RewardSettlement \<Rightarrow> RewardRedemption \<Rightarrow> NonMembershipWitness" where
  "reward_witness_of settlement redemption =
     \<lparr>witness_key = reward_assignment settlement,
       witness_siblings = rw_siblings (replay_witness redemption)\<rparr>"

definition redeem_candidate ::
    "hash \<Rightarrow> CashLedger \<Rightarrow> RewardSettlement \<Rightarrow> RewardRedemption \<Rightarrow> CashTransitionError + CashLedger" where
  "redeem_candidate shake256 l settlement redemption =
     (if redemption_settlement redemption \<noteq> reward_assignment settlement
        \<or> rw_assignment (replay_witness redemption) \<noteq> reward_assignment settlement
        \<or> reward_amount settlement = 0
      then Inl (Invalid ZeroAmount)
      else
        and_then (map_err (\<lambda>_. Invalid InvalidRewardReplayWitness)
          (SetCommitment_insert shake256 (reward_commitment l) (reward_assignment settlement)
            (reward_witness_of settlement redemption))) (\<lambda>next_commitment.
        and_then (map_err Invalid (CoinTransfer_new
          \<lparr>transfer_sender = pool_owner redemption, transfer_recipient = reward_verifier settlement,
            transfer_inputs = [pool_cell redemption], transfer_fee_reserve = redemption_fee_reserve redemption,
            transfer_amount = reward_amount settlement, transfer_fee = 0,
            transfer_valid_until = redemption_height redemption\<rparr>)) (\<lambda>transfer.
        and_then (apply_transfer shake256 l transfer (redemption_height redemption)) (\<lambda>l.
        Inr (l\<lparr>redeemed_reward_root := set_root next_commitment,
          redeemed_reward_count := set_count next_commitment\<rparr>)))))"

definition redeem_reward ::
    "hash \<Rightarrow> CashLedger \<Rightarrow> RewardSettlement \<Rightarrow> RewardRedemption \<Rightarrow> CashTransitionError + CashLedger" where
  "redeem_reward shake256 l settlement redemption =
     and_then (redeem_candidate shake256 l settlement redemption) (checked shake256)"

section \<open>Genesis\<close>

definition economy_root_digest :: "hash \<Rightarrow> GenesisEconomy \<Rightarrow> CashTransitionError + Digest384" where
  "economy_root_digest shake256 economy =
     map_err Encoding (and_then (genesis_allocation_root shake256 GenesisEconomy_type economy)
       (\<lambda>root. Inr (into_digest root)))"

fun genesis_records ::
    "hash \<Rightarrow> GenesisEconomy \<Rightarrow> (nat \<times> GenesisAllocation) list \<Rightarrow> CoinCellRecord list
     \<Rightarrow> CashTransitionError + CoinCellRecord list" where
  "genesis_records shake256 economy [] records = Inr records"
| "genesis_records shake256 economy ((index, allocation) # rest) records =
     (if liquid_amount allocation = 0 then genesis_records shake256 economy rest records
      else
        and_then (economy_root_digest shake256 economy) (\<lambda>root.
        if index \<ge> 2 ^ 16 then Inl (Invariant TooManyCells)
        else
          and_then (output_cell shake256 (TypedId root) (word_of_nat index) (alloc_recipient allocation)
            (liquid_amount allocation) 0) (\<lambda>r.
          genesis_records shake256 economy rest (records @ [r]))))"

definition from_genesis :: "hash \<Rightarrow> GenesisEconomy \<Rightarrow> CashTransitionError + CashLedger" where
  "from_genesis shake256 economy =
     and_then (genesis_records shake256 economy (enumerate 0 (allocations economy)) []) (\<lambda>records.
     and_then (replace_cells records) (\<lambda>cells.
     and_then (ok_or (Invalid AmountOverflow) (checked_sum 0 (map locked_amount (allocations economy)))) (\<lambda>locked.
     and_then (map_err Invalid (NativeSupply_genesis (def_genesis_supply (economy_definition economy))
       (economy_security_reserve economy) locked)) (\<lambda>supply_state.
     checked shake256 \<lparr>ledger_definition = economy_definition economy, ledger_supply = supply_state,
       ledger_cells = cells, ledger_shielded = ShieldedCashState_default shake256,
       redeemed_reward_root = set_root (SetCommitment_empty shake256 SpentInput),
       redeemed_reward_count = 0\<rparr>))))"

section \<open>Encodings\<close>

definition encode_CashLedger :: "CashLedger \<Rightarrow> encoder \<Rightarrow> encode_error + encoder" where
  "encode_CashLedger l e =
     and_then (encode_NativeAssetDefinition (ledger_definition l) e) (\<lambda>e.
     and_then (encode_NativeSupply (ledger_supply l) e) (\<lambda>e.
     and_then (encode_CoinCellSet (ledger_cells l) e) (\<lambda>e.
     and_then (encode_ShieldedCashState (ledger_shielded l) e) (\<lambda>e.
     and_then (encode_Digest384 (redeemed_reward_root l) e) (\<lambda>e.
     write_u64 (redeemed_reward_count l) e)))))"

definition decode_CashLedger :: "hash \<Rightarrow> decoder \<Rightarrow> decode_error + (CashLedger \<times> decoder)" where
  "decode_CashLedger shake256 d =
     and_then (decode_NativeAssetDefinition d) (\<lambda>(asset, d).
     and_then (decode_NativeSupply d) (\<lambda>(supply_state, d).
     and_then (decode_CoinCellSet d) (\<lambda>(cells, d).
     and_then (decode_ShieldedCashState d) (\<lambda>(shielded, d).
     and_then (decode_Digest384 d) (\<lambda>(root, d).
     and_then (read_u64 d) (\<lambda>(count, d).
     let ledger = \<lparr>ledger_definition = asset, ledger_supply = supply_state, ledger_cells = cells,
           ledger_shielded = shielded, redeemed_reward_root = root, redeemed_reward_count = count\<rparr> in
     and_then (map_err (\<lambda>_. InvalidValue ''invalid cash ledger'') (verify_invariants shake256 ledger)) (\<lambda>_.
     Inr (ledger, d))))))))"

definition CashLedger_type :: "hash \<Rightarrow> CashLedger canonical_type" where
  "CashLedger_type shake256 = \<lparr>ct_encode = encode_CashLedger, ct_decode = decode_CashLedger shake256,
     ct_type_tag = 0x0102, ct_schema_version = 3,
     ct_max_encoded_len = ct_max_encoded_len NativeAssetDefinition_type + ct_max_encoded_len NativeSupply_type
       + ct_max_encoded_len CoinCellSet_type + ct_max_encoded_len ShieldedCashState_type + 48 + 8\<rparr>"

definition encode_legacy_v1_fields :: "CashLedger \<Rightarrow> encoder \<Rightarrow> encode_error + encoder" where
  "encode_legacy_v1_fields l e =
     and_then (encode_NativeAssetDefinition (ledger_definition l) e) (\<lambda>e.
     and_then (write_u128 (genesis_supply (ledger_supply l)) e) (\<lambda>e.
     and_then (write_u128 (cumulative_security_issuance (ledger_supply l)) e) (\<lambda>e.
     and_then (write_u128 (cumulative_burn (ledger_supply l)) e) (\<lambda>e.
     and_then (write_u128 (current_total_supply (ledger_supply l)) e) (\<lambda>e.
     and_then (write_u128 (circulating_supply (ledger_supply l)) e) (\<lambda>e.
     and_then (write_u128 (locked_vesting_supply (ledger_supply l)) e) (\<lambda>e.
     and_then (write_u128 (staked_supply (ledger_supply l)) e) (\<lambda>e.
     and_then (write_u128 (security_reserve_balance (ledger_supply l)) e) (\<lambda>e.
     and_then (write_u64 (last_settled_epoch (ledger_supply l)) e) (\<lambda>e.
     and_then (encode_CoinCellSet (ledger_cells l) e) (\<lambda>e.
     encode_legacy_ShieldedCashState (ledger_shielded l) e)))))))))))"

definition ledger_encode_legacy_v1 :: "CashLedger \<Rightarrow> encoder \<Rightarrow> encode_error + encoder" where
  "ledger_encode_legacy_v1 l e =
     and_then (encode_legacy_v1_fields l e) (\<lambda>e.
     if redeemed_reward_count l \<noteq> 0
     then Inl (EncLengthLimitExceeded (unat (redeemed_reward_count l)) 0)
     else write_length 0 LEGACY_MAX_REDEEMED_REWARDS e)"

definition decode_legacy_reward_commitment :: "hash \<Rightarrow> decoder \<Rightarrow> decode_error + (SetCommitment \<times> decoder)" where
  "decode_legacy_reward_commitment shake256 d =
     and_then (read_length LEGACY_MAX_REDEEMED_REWARDS d) (\<lambda>(n, d).
     and_then (decode_legacy_keys shake256 ''legacy reward replay set is not strictly ordered''
       ''invalid legacy reward replay set'' n (ReferenceSet_new shake256 SpentInput) None d) (\<lambda>(reference, d).
     Inr (ref_commitment reference, d)))"

definition ledger_decode_legacy_v1 :: "hash \<Rightarrow> decoder \<Rightarrow> decode_error + (CashLedger \<times> decoder)" where
  "ledger_decode_legacy_v1 shake256 d =
     and_then (decode_NativeAssetDefinition d) (\<lambda>(asset, d).
     and_then (decode_legacy_NativeSupply (maximum_ordinary_annual_issuance_bps asset) d) (\<lambda>(supply_state, d).
     and_then (decode_CoinCellSet d) (\<lambda>(cells, d).
     and_then (decode_legacy_ShieldedCashState shake256 d) (\<lambda>(shielded, d).
     and_then (decode_legacy_reward_commitment shake256 d) (\<lambda>(c, d).
     let ledger = \<lparr>ledger_definition = asset, ledger_supply = supply_state, ledger_cells = cells,
           ledger_shielded = shielded, redeemed_reward_root = set_root c, redeemed_reward_count = set_count c\<rparr> in
     and_then (map_err (\<lambda>_. InvalidValue ''invalid legacy cash ledger'') (verify_invariants shake256 ledger)) (\<lambda>_.
     Inr (ledger, d)))))))"

definition ledger_encode_legacy_v2 :: "CashLedger \<Rightarrow> encoder \<Rightarrow> encode_error + encoder" where
  "ledger_encode_legacy_v2 l e =
     (if redeemed_reward_count l \<noteq> 0
      then Inl (EncLengthLimitExceeded (unat (redeemed_reward_count l)) 0)
      else
        and_then (encode_NativeAssetDefinition (ledger_definition l) e) (\<lambda>e.
        and_then (encode_NativeSupply (ledger_supply l) e) (\<lambda>e.
        and_then (encode_CoinCellSet (ledger_cells l) e) (\<lambda>e.
        and_then (encode_legacy_ShieldedCashState (ledger_shielded l) e) (\<lambda>e.
        write_length 0 LEGACY_MAX_REDEEMED_REWARDS e)))))"

definition ledger_decode_legacy_v2 :: "hash \<Rightarrow> decoder \<Rightarrow> decode_error + (CashLedger \<times> decoder)" where
  "ledger_decode_legacy_v2 shake256 d =
     and_then (decode_NativeAssetDefinition d) (\<lambda>(asset, d).
     and_then (decode_NativeSupply d) (\<lambda>(supply_state, d).
     and_then (decode_CoinCellSet d) (\<lambda>(cells, d).
     and_then (decode_legacy_ShieldedCashState shake256 d) (\<lambda>(shielded, d).
     and_then (decode_legacy_reward_commitment shake256 d) (\<lambda>(c, d).
     let ledger = \<lparr>ledger_definition = asset, ledger_supply = supply_state, ledger_cells = cells,
           ledger_shielded = shielded, redeemed_reward_root = set_root c, redeemed_reward_count = set_count c\<rparr> in
     and_then (map_err (\<lambda>_. InvalidValue ''invalid legacy cash ledger'') (verify_invariants shake256 ledger)) (\<lambda>_.
     Inr (ledger, d)))))))"

section \<open>Wire format\<close>

definition enc_CashLedger :: "CashLedger \<Rightarrow> u8 list" where
  "enc_CashLedger l = enc_NativeAssetDefinition (ledger_definition l) @ enc_NativeSupply (ledger_supply l)
     @ enc_CoinCellSet (ledger_cells l) @ enc_ShieldedCashState (ledger_shielded l)
     @ enc_Digest384 (redeemed_reward_root l) @ enc_u64 (redeemed_reward_count l)"

definition valid_CashLedger :: "hash \<Rightarrow> CashLedger \<Rightarrow> bool" where
  "valid_CashLedger shake256 l \<longleftrightarrow> valid_NativeAssetDefinition (ledger_definition l)
     \<and> valid_NativeSupply (ledger_supply l) \<and> valid_CoinCellSet (ledger_cells l)
     \<and> valid_ShieldedCashState (ledger_shielded l) \<and> verify_invariants shake256 l = Inr ()"

end
