(* ===== verification/Cash_Economics_Correct.thy ===== *)
theory Cash_Economics_Correct
  imports Cash_Economics Commitment
begin

text \<open>
  Correctness of the economic interface: prepaid capacity is charged and refunded exactly and once,
  a paymaster never spends more than its epoch budget and never accepts a request twice, auditors
  are drawn without bias, pools and slashes never exceed what is split, duties are settled once,
  and a sealed challenge can be opened to one piece of evidence only.
\<close>

section \<open>Arithmetic\<close>

lemma checked_mul_eq_Some_unat:
  "checked_mul a b = Some c \<longleftrightarrow> unat a * unat b = unat c"
proof
  assume eq: "unat a * unat b = unat c"
  then have "unat (a * b) = unat c" using unat_less_pow [of c] by (simp add: unat_mult_lem [THEN iffD1])
  then show "checked_mul a b = Some c"
    using eq unat_less_pow [of c] by (auto simp: checked_mul_eq_Some word_unat_eq_iff)
qed (auto simp: checked_mul_eq_Some unat_checked_mul)

lemma checked_add_below:
  fixes x y a :: "'w::len word"
  assumes "unat x + unat y \<le> unat a"
  obtains z where "checked_add x y = Some z" "unat z = unat x + unat y"
proof -
  have "unat x + unat y < 2 ^ LENGTH('w)" using assms unat_less_pow [of a] by linarith
  then have "unat (word_of_nat (unat x + unat y) :: 'w word) = unat x + unat y" by (rule unat_word_of_nat)
  with that show thesis unfolding checked_add_eq_Some_unat by metis
qed

lemma unat_ucast_u64_u128 [simp]: "unat (ucast (w :: u64) :: u128) = unat w"
proof -
  have "unat w < 18446744073709551616" using unat_less_pow [of w] by simp
  then show ?thesis by (simp only: unsigned_ucast_eq take_bit_eq_mod) simp
qed

lemma fee_total_eq_Some:
  "fee_total base units price congestion = Some fee \<longleftrightarrow>
     unat base + unat units * unat price + unat congestion = unat fee"
  (is "?l \<longleftrightarrow> ?sum = _")
proof
  assume ?l
  then show "?sum = unat fee"
    by (auto simp: fee_total_def bind_eq_Some_conv checked_mul_eq_Some_unat checked_add_eq_Some_unat)
next
  assume eq: "?sum = unat fee"
  then have lt: "?sum < 2 ^ 128" using unat_less_pow [of fee] by simp
  define r s :: u128 where "r = word_of_nat (unat units * unat price)" and "s = word_of_nat (unat base + unat units * unat price)"
  have "unat r = unat units * unat price" "unat s = unat base + unat units * unat price"
    unfolding r_def s_def by (rule unat_word_of_nat, use lt in simp)+
  then have "checked_mul (ucast units) price = Some r" "checked_add base r = Some s" "checked_add s congestion = Some fee"
    using eq by (simp_all add: checked_mul_eq_Some_unat checked_add_eq_Some_unat)
  then show ?l by (simp add: fee_total_def)
qed

section \<open>Prepaid capacity\<close>

definition fee_of :: "FeeQuote \<Rightarrow> nat \<Rightarrow> nat" where
  "fee_of q units = unat (fq_base q) + units * unat (fq_resource_price q) + unat (fq_congestion_price q)"

lemma valid_reservation_deposit:
  "valid_CapacityReservationV1 r \<Longrightarrow> unat (res_deposit r) = fee_of (res_quote r) (unat (fq_resource_units (res_quote r)))"
  by (auto simp: valid_CapacityReservationV1_def CapacityReservationV1_new_def FeeQuote_total_def
      fee_total_eq_Some fee_of_def)

lemma settle_eq_Inr:
  "settle r used height = Inr (s, r') \<longleftrightarrow>
     \<not> res_settled r \<and> height \<le> res_expires_height r \<and> used \<le> fq_resource_units (res_quote r)
     \<and> unat (set_charged s) = fee_of (res_quote r) (unat used)
     \<and> unat (set_charged s) + unat (set_refund s) = unat (res_deposit r)
     \<and> s = \<lparr>set_reservation = res_id r, set_payer = res_payer r, set_used_units = used,
         set_deposit = res_deposit r, set_charged = set_charged s, set_refund = set_refund s,
         settled_height = height\<rparr>
     \<and> r' = r\<lparr>res_settled := True\<rparr>"
  by (cases s) (auto simp: settle_def fee_total_eq_Some checked_sub_eq_Some_unat fee_of_def not_less)

lemma settle_succeeds:
  assumes "valid_CapacityReservationV1 r" "\<not> res_settled r" "height \<le> res_expires_height r"
    "used \<le> fq_resource_units (res_quote r)"
  shows "\<exists>s r'. settle r used height = Inr (s, r')"
proof -
  let ?q = "res_quote r"
  have le: "fee_of ?q (unat used) \<le> unat (res_deposit r)"
    using assms(4) unfolding valid_reservation_deposit [OF assms(1)]
    by (simp add: fee_of_def word_le_nat_alt)
  define c rf :: u128 where "c = word_of_nat (fee_of ?q (unat used))"
    and "rf = word_of_nat (unat (res_deposit r) - fee_of ?q (unat used))"
  have lt: "fee_of ?q (unat used) < 2 ^ LENGTH(128)" "unat (res_deposit r) - fee_of ?q (unat used) < 2 ^ LENGTH(128)"
    using le unat_less_pow [of "res_deposit r"] by linarith+
  have "unat c = fee_of ?q (unat used)" "unat rf = unat (res_deposit r) - fee_of ?q (unat used)"
    unfolding c_def rf_def using lt by (simp_all add: unat_word_of_nat)
  then have "settle r used height = Inr (\<lparr>set_reservation = res_id r, set_payer = res_payer r,
      set_used_units = used, set_deposit = res_deposit r, set_charged = c, set_refund = rf,
      settled_height = height\<rparr>, r\<lparr>res_settled := True\<rparr>)"
    using assms le by (simp add: settle_eq_Inr)
  then show ?thesis by blast
qed

lemma settle_keeps_valid:
  "valid_CapacityReservationV1 r \<Longrightarrow> settle r used height = Inr (s, r') \<Longrightarrow>
   valid_CapacityReservationV1 r' \<and> settle r' used' height' = Inl AlreadySettled"
  by (auto simp: settle_eq_Inr valid_CapacityReservationV1_def CapacityReservationV1_new_def settle_def)

lemma settlement_decodes_iff:
  assumes "valid_CapacityReservationV1 r" "settle r used height = Inr (s, r')"
  shows "valid_CapacitySettlementV1 s \<longleftrightarrow> height \<noteq> 0"
proof -
  have "res_id r \<noteq> ZERO" "into_digest (res_payer r) \<noteq> ZERO" "res_deposit r \<noteq> 0"
    using assms(1) by (auto simp: valid_CapacityReservationV1_def CapacityReservationV1_new_def)
  moreover have "checked_add (set_charged s) (set_refund s) = Some (set_deposit s)"
    and "set_reservation s = res_id r" "set_payer s = res_payer r" "set_deposit s = res_deposit r" "settled_height s = height"
    using assms(2) by (auto simp: settle_def checked_add_eq_Some_unat checked_sub_eq_Some_unat)
  ultimately show ?thesis by (simp add: valid_CapacitySettlementV1_def)
qed

section \<open>Paymasters\<close>

type_synonym sponsored = "CashPaymasterRequestV1 \<times> Digest384 \<times> u128 \<times> u64"

fun authorize_all :: "hash \<Rightarrow> CashPaymasterPolicyV1 \<Rightarrow> sponsored list \<Rightarrow> EconomicsError + CashPaymasterPolicyV1" where
  "authorize_all shake256 r [] = Inr r"
| "authorize_all shake256 r ((request, transfer, fee, height) # rest) =
     and_then (authorize shake256 r request transfer fee height) (\<lambda>r. authorize_all shake256 r rest)"

lemma authorize_sound:
  assumes "authorize h r request transfer fee height = Inr r'"
  shows "r' = r\<lparr>pm_spent := pm_spent r', next_nonce := next_nonce r'\<rparr>"
    "unat (pm_spent r') = unat (pm_spent r) + unat fee" "pm_spent r' \<le> epoch_budget r"
    "unat (next_nonce r') = unat (next_nonce r) + 1" "rq_nonce request = next_nonce r"
    "rq_fee request = fee" "fee \<noteq> 0" "fee \<le> maximum_fee r" "rq_sender request \<in> set (allowed_senders r)"
proof -
  obtain s n where r': "r' = r\<lparr>pm_spent := s, next_nonce := n\<rparr>"
    and eqs: "checked_add (pm_spent r) fee = Some s" "checked_add (next_nonce r) 1 = Some n" "s \<le> epoch_budget r"
      "rq_nonce request = next_nonce r" "rq_fee request = fee" "fee \<noteq> 0" "fee \<le> maximum_fee r"
    and found: "binary_search (rq_sender request) (allowed_senders r) \<noteq> None"
    using assms by (auto simp: authorize_def not_less)
  show "r' = r\<lparr>pm_spent := pm_spent r', next_nonce := next_nonce r'\<rparr>" by (simp add: r')
  show "unat (pm_spent r') = unat (pm_spent r) + unat fee" "unat (next_nonce r') = unat (next_nonce r) + 1"
    using eqs(1,2) by (simp_all add: r' checked_add_eq_Some_unat)
  show "rq_sender request \<in> set (allowed_senders r)"
    using found binary_search_SomeD [of "\<lambda>x. x" "rq_sender request" "allowed_senders r"] nth_mem by force
qed (use assms in \<open>auto simp: authorize_def not_less\<close>)

lemma authorize_keeps_new:
  "CashPaymasterPolicyV1_new r = Inr r \<Longrightarrow> authorize h r request transfer fee height = Inr r' \<Longrightarrow>
   CashPaymasterPolicyV1_new r' = Inr r'"
  using authorize_sound(1,3) [of h r request transfer fee height r']
  by (cases r') (auto simp: CashPaymasterPolicyV1_new_def not_less split: if_splits)

lemma authorize_all_sound:
  assumes "authorize_all h r requests = Inr r'" "pm_spent r \<le> epoch_budget r"
  shows "epoch_budget r' = epoch_budget r \<and> pm_spent r' \<le> epoch_budget r
    \<and> unat (pm_spent r') = unat (pm_spent r) + (\<Sum>(request, transfer, fee, height) \<leftarrow> requests. unat fee)
    \<and> map (\<lambda>request. unat (rq_nonce (fst request))) requests = [unat (next_nonce r) ..< unat (next_nonce r) + length requests]"
  using assms
proof (induction h r requests rule: authorize_all.induct)
  case (2 h r request transfer fee height rest)
  obtain r1 where r1: "authorize h r request transfer fee height = Inr r1" "authorize_all h r1 rest = Inr r'"
    using "2.prems"(1) by auto
  note a = authorize_sound [OF r1(1)]
  have budget: "epoch_budget r1 = epoch_budget r" by (subst a(1)) simp
  have "epoch_budget r' = epoch_budget r1 \<and> pm_spent r' \<le> epoch_budget r1
    \<and> unat (pm_spent r') = unat (pm_spent r1) + (\<Sum>(request, transfer, fee, height) \<leftarrow> rest. unat fee)
    \<and> map (\<lambda>request. unat (rq_nonce (fst request))) rest = [unat (next_nonce r1) ..< unat (next_nonce r1) + length rest]"
    using "2.IH" [OF r1(2)] a(3) budget by simp
  then show ?case using a(2,4,5) budget by (simp add: upt_conv_Cons del: upt_Suc)
qed simp

lemma authorize_replay:
  assumes "authorize h r request transfer fee height = Inr r'"
  shows "is_err (authorize h r' request transfer' fee' height')"
proof -
  have "unat (next_nonce r') = unat (rq_nonce request) + 1" using authorize_sound(4,5) [OF assms] by simp
  moreover have "rq_nonce request = next_nonce r'" if "authorize h r' request transfer' fee' height' = Inr r''" for r''
    using that by (rule authorize_sound(5))
  ultimately show ?thesis unfolding is_err_def by (fastforce split: sum.splits)
qed

section \<open>Splits\<close>

lemma bps_share_sound: "bps_share amount bps = Some v \<Longrightarrow> unat v = unat amount * unat bps div 10000"
  by (auto simp: bps_share_def checked_mul_eq_Some_unat unat_div)

lemma SecurityPoolAllocation_split_sound:
  assumes "SecurityPoolAllocation_split amount = Some a"
  shows "\<exists>t. SecurityPoolAllocation_total a = Some t \<and> unat t \<le> unat amount \<and> unat amount < unat t + 4"
proof -
  let ?n = "unat amount"
  have parts: "unat (pool_finality a) = ?n * 7000 div 10000" "unat (pool_availability a) = ?n * 1500 div 10000"
    "unat (pool_audit a) = ?n * 1000 div 10000" "unat (pool_public_goods a) = ?n * 500 div 10000"
    using assms by (auto simp: SecurityPoolAllocation_split_def bind_eq_Some_conv FINALITY_POOL_BPS_def
        AVAILABILITY_POOL_BPS_def AUDIT_POOL_BPS_def PUBLIC_GOODS_POOL_BPS_def dest!: bps_share_sound)
  have bound: "unat (pool_finality a) + unat (pool_availability a) + unat (pool_audit a) + unat (pool_public_goods a) \<le> ?n"
      "?n < unat (pool_finality a) + unat (pool_availability a) + unat (pool_audit a) + unat (pool_public_goods a) + 4"
    unfolding parts by linarith+
  obtain u where u: "checked_add (pool_finality a) (pool_availability a) = Some u"
      "unat u = unat (pool_finality a) + unat (pool_availability a)"
    by (rule checked_add_below [of "pool_finality a" "pool_availability a" amount]) (use bound(1) in linarith)
  obtain v where v: "checked_add u (pool_audit a) = Some v" "unat v = unat u + unat (pool_audit a)"
    by (rule checked_add_below [of u "pool_audit a" amount]) (use bound(1) u(2) in linarith)
  obtain w where w: "checked_add v (pool_public_goods a) = Some w" "unat w = unat v + unat (pool_public_goods a)"
    by (rule checked_add_below [of v "pool_public_goods a" amount]) (use bound(1) u(2) v(2) in linarith)
  have "SecurityPoolAllocation_total a = Some w" by (simp add: SecurityPoolAllocation_total_def u(1) v(1) w(1))
  then show ?thesis using bound u(2) v(2) w(2) by simp
qed

lemma SlashSplit_split_sound:
  assumes "SlashSplit_split amount = Some a"
  shows "\<exists>t. SlashSplit_total a = Some t \<and> unat t \<le> unat amount \<and> unat amount < unat t + 3"
proof -
  let ?n = "unat amount"
  have parts: "unat (slash_user a) = ?n * 4000 div 10000" "unat (slash_security_pool a) = ?n * 4000 div 10000"
    "unat (slash_challenger a) = ?n * 2000 div 10000"
    using assms by (auto simp: SlashSplit_split_def bind_eq_Some_conv USER_SLASH_BPS_def
        SECURITY_SLASH_BPS_def CHALLENGER_SLASH_BPS_def dest!: bps_share_sound)
  have bound: "unat (slash_user a) + unat (slash_security_pool a) + unat (slash_challenger a) \<le> ?n"
      "?n < unat (slash_user a) + unat (slash_security_pool a) + unat (slash_challenger a) + 3"
    unfolding parts by linarith+
  obtain u where u: "checked_add (slash_user a) (slash_security_pool a) = Some u"
      "unat u = unat (slash_user a) + unat (slash_security_pool a)"
    by (rule checked_add_below [of "slash_user a" "slash_security_pool a" amount]) (use bound(1) in linarith)
  obtain w where w: "checked_add u (slash_challenger a) = Some w" "unat w = unat u + unat (slash_challenger a)"
    by (rule checked_add_below [of u "slash_challenger a" amount]) (use bound(1) u(2) in linarith)
  have "SlashSplit_total a = Some w" by (simp add: SlashSplit_total_def u(1) w(1))
  then show ?thesis using bound u(2) w(2) by simp
qed

section \<open>Challenges and duties\<close>

lemma challenge_input_inject:
  "challenge_input i d c e n = challenge_input i' d' c' e' n' \<longleftrightarrow> i = i' \<and> d = d' \<and> c = c' \<and> e = e' \<and> n = n'"
  by (auto simp: challenge_input_def typed_id.expand)

lemma reveal_binding:
  assumes "reveal h r evidence nonce height = Inr a" "reveal h r evidence' nonce' height' = Inr a'"
    "\<not> clash h {challenge_input (cc_id r) (cc_duty r) (cc_challenger r) evidence nonce}
         {challenge_input (cc_id r) (cc_duty r) (cc_challenger r) evidence' nonce'}"
  shows "a' = a"
  using assms by (auto simp: reveal_def challenge_commitment_def clash_def challenge_input_inject)

lemma settle_duty_sound:
  assumes "settle_duty assignments receipt verifier fault = Inr (s, assignments')"
  obtains i where "i < length assignments" "duty_id (assignments ! i) = receipt_assignment receipt"
    "\<not> duty_settled (assignments ! i)" "duty_verifier (assignments ! i) = verifier"
    "assignments' = assignments[i := (assignments ! i)\<lparr>duty_settled := True\<rparr>]"
    "reward_amount s = duty_reward (assignments ! i)"
    "unat (bond_return s) + unat (slash_amount s) = unat (bond_amount (assignments ! i))"
    "settle_duty assignments' receipt verifier fault' = Inl AlreadySettled"
proof -
  obtain i where i: "find_index (\<lambda>a. duty_id a = receipt_assignment receipt) assignments = Some i"
    using assms by (auto simp: settle_duty_def split: option.splits)
  let ?a = "assignments ! i"
  note found = find_index_SomeD [OF i]
  have le: "slash_amount s \<le> bond_amount ?a" "bond_return s = bond_amount ?a - slash_amount s"
    and rest: "assignments' = assignments[i := ?a\<lparr>duty_settled := True\<rparr>]" "\<not> duty_settled ?a"
      "duty_verifier ?a = verifier" "reward_amount s = duty_reward ?a"
    using assms i by (auto simp: settle_duty_def Let_def not_less split: option.splits if_splits)
  have sum: "unat (bond_return s) + unat (slash_amount s) = unat (bond_amount ?a)"
    using le by (simp add: unat_sub word_le_nat_alt)
  have "find_index (\<lambda>a. duty_id a = receipt_assignment receipt) assignments' = Some i"
    using find_index_update [OF i] found rest(1) by simp
  then have "settle_duty assignments' receipt verifier fault' = Inl AlreadySettled"
    using found rest by (simp add: settle_duty_def)
  with that found rest sum show thesis by blast
qed

section \<open>Auditor selection\<close>

lemma select_auditor_loop_sound:
  "select_auditor_loop h randomness target eligible count zone counter = Inr p \<Longrightarrow>
   \<exists>c. audit_sample h randomness target c < zone \<and> p = eligible ! unat (audit_sample h randomness target c mod count)"
proof (induction h randomness target eligible count zone counter rule: select_auditor_loop.induct)
  case (1 h randomness target eligible count zone counter)
  then show ?case
    using select_auditor_loop.simps [of h randomness target eligible count zone counter]
    by (auto simp: Let_def split: if_splits)
qed

text \<open>The loop ends with the verifier of the first accepted sample, if any of the samples is accepted.\<close>

lemma select_auditor_loop_first:
  "counter \<le> c \<Longrightarrow> audit_sample h randomness target c < zone \<Longrightarrow>
   (\<And>c'. counter \<le> c' \<Longrightarrow> c' < c \<Longrightarrow> \<not> audit_sample h randomness target c' < zone) \<Longrightarrow>
   select_auditor_loop h randomness target eligible count zone counter
     = Inr (eligible ! unat (audit_sample h randomness target c mod count))"
proof (induction h randomness target eligible count zone counter rule: select_auditor_loop.induct)
  case (1 h randomness target eligible count zone counter)
  note step = select_auditor_loop.simps [of h randomness target eligible count zone counter]
  show ?case
  proof (cases "counter = c")
    case True
    then show ?thesis using "1.prems"(2) step by simp
  next
    case False
    then have less: "counter < c" using "1.prems"(1) by simp
    then have no: "\<not> audit_sample h randomness target counter < zone" using "1.prems"(3) by blast
    have last: "counter \<noteq> - 1" using less by (auto simp: word_order.extremum_strict)
    have "\<not> audit_sample h randomness target c' < zone" if "counter + 1 \<le> c'" "c' < c" for c'
      using "1.prems"(3) [of c'] that last by (simp add: inc_less_eq_iff)
    then have "select_auditor_loop h randomness target eligible count zone (counter + 1)
        = Inr (eligible ! unat (audit_sample h randomness target c mod count))"
      by (rule "1.IH" [OF refl no last inc_le [OF less] "1.prems"(2)])
    then show ?thesis using no last step by simp
  qed
qed

definition auditable :: "Digest384 \<Rightarrow> Digest384 \<Rightarrow> PrincipalId list \<Rightarrow> bool" where
  "auditable randomness target eligible \<longleftrightarrow> randomness \<noteq> ZERO \<and> target \<noteq> ZERO \<and> eligible \<noteq> []
     \<and> length eligible \<le> MAX_AUDIT_VERIFIERS \<and> list_all (\<lambda>v. into_digest v \<noteq> ZERO) eligible
     \<and> strictly_increasing eligible"

text \<open>The samples the loop accepts and the verifier an accepted sample selects.\<close>

definition accepted_sample :: "PrincipalId list \<Rightarrow> u64 \<Rightarrow> bool" where
  "accepted_sample eligible s \<longleftrightarrow> s < - 1 - (- 1 mod word_of_nat (length eligible))"

definition sampled_verifier :: "PrincipalId list \<Rightarrow> u64 \<Rightarrow> PrincipalId" where
  "sampled_verifier eligible s = eligible ! unat (s mod word_of_nat (length eligible))"

lemma select_auditor_first:
  assumes "auditable randomness target eligible" "accepted_sample eligible (audit_sample h randomness target c)"
    "\<forall>c' < c. \<not> accepted_sample eligible (audit_sample h randomness target c')"
  shows "select_auditor h randomness target eligible = Inr (sampled_verifier eligible (audit_sample h randomness target c))"
proof -
  have "select_auditor_loop h randomness target eligible (word_of_nat (length eligible))
      (- 1 - (- 1 mod word_of_nat (length eligible))) 0
      = Inr (eligible ! unat (audit_sample h randomness target c mod word_of_nat (length eligible)))"
    by (rule select_auditor_loop_first) (use assms in \<open>auto simp: accepted_sample_def\<close>)
  then show ?thesis
    using assms(1) by (auto simp: select_auditor_def auditable_def sampled_verifier_def Let_def list_all_iff list_ex_iff)
qed

lemma select_auditor_ends:
  assumes "auditable randomness target eligible"
  shows "(\<exists>c. accepted_sample eligible (audit_sample h randomness target c)
      \<and> (\<forall>c' < c. \<not> accepted_sample eligible (audit_sample h randomness target c'))
      \<and> select_auditor h randomness target eligible = Inr (sampled_verifier eligible (audit_sample h randomness target c)))
    \<or> (\<forall>c. \<not> accepted_sample eligible (audit_sample h randomness target c))"
  using select_auditor_first [OF assms, of h]
    exists_least_iff [of "\<lambda>c. accepted_sample eligible (audit_sample h randomness target c)"] by blast

lemma select_auditor_sound:
  assumes "select_auditor h randomness target eligible = Inr p"
  shows "p \<in> set eligible"
proof -
  let ?count = "word_of_nat (length eligible) :: u64"
  have len: "eligible \<noteq> []" "length eligible \<le> 4096"
    using assms by (auto simp: select_auditor_def MAX_AUDIT_VERIFIERS_def split: if_splits)
  then have count: "unat ?count = length eligible" by (simp add: unat_word_of_nat)
  have "select_auditor_loop h randomness target eligible ?count (- 1 - (- 1 mod ?count)) 0 = Inr p"
    using assms by (simp add: select_auditor_def Let_def split: if_splits)
  then obtain c where "p = eligible ! unat (audit_sample h randomness target c mod ?count)"
    using select_auditor_loop_sound by blast
  moreover have "unat (audit_sample h randomness target c mod ?count) < length eligible"
    using len count by (simp add: unat_mod)
  ultimately show ?thesis by simp
qed

text \<open>Rejection sampling has no modulo bias: below the acceptance zone every index has the same
  number of samples.\<close>

lemma mod_class_card:
  assumes "0 < n" "i < (n :: nat)"
  shows "card {s. s < q * n \<and> s mod n = i} = q"
proof -
  have "{s. s < q * n \<and> s mod n = i} = (\<lambda>k. k * n + i) ` {..<q}"
  proof (intro set_eqI iffI)
    fix s
    assume s: "s \<in> {s. s < q * n \<and> s mod n = i}"
    then have "s = (s div n) * n + i" "s div n < q" using assms by (auto simp: less_mult_imp_div_less)
    then show "s \<in> (\<lambda>k. k * n + i) ` {..<q}" by blast
  next
    fix s
    assume "s \<in> (\<lambda>k. k * n + i) ` {..<q}"
    then obtain k where k: "s = k * n + i" "k < q" by auto
    then have "(k + 1) * n \<le> q * n" by (intro mult_right_mono) simp_all
    then show "s \<in> {s. s < q * n \<and> s mod n = i}" using k assms by (simp add: algebra_simps)
  qed
  moreover have "inj_on (\<lambda>k. k * n + i) {..<q}" using assms by (auto intro: inj_onI)
  ultimately show ?thesis by (simp add: card_image)
qed

lemma word_class_card:
  fixes z count :: "'w::len word"
  assumes "unat z = q * unat count" "i < unat count"
  shows "card {s. s < z \<and> unat (s mod count) = i} = q"
proof -
  let ?W = "{s. s < z \<and> unat (s mod count) = i}" and ?N = "{s. s < q * unat count \<and> s mod unat count = i}"
  have "unat ` ?W = ?N"
  proof (intro set_eqI iffI)
    fix m
    assume m: "m \<in> ?N"
    then have "m < 2 ^ LENGTH('w)" using unat_less_pow [of z] assms(1) by auto
    then have u: "unat (word_of_nat m :: 'w word) = m" by (rule unat_word_of_nat)
    have "word_of_nat m \<in> ?W"
      using m unfolding mem_Collect_eq word_less_nat_alt unat_mod u assms(1) .
    then show "m \<in> unat ` ?W" using u by (metis imageI)
  next
    fix m
    assume "m \<in> unat ` ?W"
    then show "m \<in> ?N" unfolding image_iff Bex_def mem_Collect_eq word_less_nat_alt unat_mod assms(1) by blast
  qed
  moreover have "card (unat ` ?W) = card ?W" by (intro card_image inj_onI) (simp add: word_unat_eq_iff)
  ultimately show ?thesis using mod_class_card [of "unat count" i q] assms(2) by simp
qed

lemma select_auditor_unbiased:
  fixes count :: u64
  assumes "i < unat count"
  shows "card {s. s < - 1 - (- 1 mod count) \<and> unat (s mod count) = i} = (2 ^ 64 - 1) div unat count"
proof -
  let ?n = "unat count" and ?M = "unat (- 1 :: u64)"
  have M: "?M = 2 ^ 64 - 1" by (simp add: unsigned_minus_1_eq_mask mask_eq_exp_minus_1)
  have le: "unat (- 1 mod count :: u64) \<le> ?M" by (simp only: unat_mod mod_less_eq_dividend)
  have "unat (- 1 - (- 1 mod count)) = ?M - ?M mod ?n"
    using unat_sub [of "- 1 mod count" "- 1"] le by (simp only: word_le_nat_alt unat_mod)
  then have "unat (- 1 - (- 1 mod count)) = ?M div ?n * ?n" by (simp only: minus_mod_eq_div_mult)
  then show ?thesis using word_class_card [OF _ assms] unfolding M by blast
qed

lemma audit_shares_equal:
  assumes "auditable randomness target eligible" "v \<in> set eligible"
  shows "card {s. accepted_sample eligible s \<and> sampled_verifier eligible s = v} = (2 ^ 64 - 1) div length eligible"
proof -
  let ?count = "word_of_nat (length eligible) :: u64"
  have len: "0 < length eligible" "length eligible \<le> 4096"
    using assms(1) by (auto simp: auditable_def MAX_AUDIT_VERIFIERS_def)
  then have count: "unat ?count = length eligible" by (simp add: unat_word_of_nat)
  obtain i where i: "i < length eligible" "eligible ! i = v" using assms(2) by (auto simp: in_set_conv_nth)
  have distinct: "distinct eligible"
    using assms(1) strictly_increasing_by_distinct [of "\<lambda>x. x" eligible] by (simp add: auditable_def)
  have bound: "unat (s mod ?count) < length eligible" for s
    using len(1) by (simp only: unat_mod count) simp
  have "sampled_verifier eligible s = v \<longleftrightarrow> unat (s mod ?count) = i" for s
    using nth_eq_iff_index_eq [OF distinct bound i(1), of s] i(2) by (simp add: sampled_verifier_def)
  then show ?thesis using select_auditor_unbiased [of i ?count] i(1) count by (simp add: accepted_sample_def)
qed

end
