(* ===== verification/Cash_Ledger_Cells.thy ===== *)
theory Cash_Ledger_Cells
  imports Cash_Ledger Cash_Economics_Correct "HOL-Library.Multiset"
begin

text \<open>
  The accounting of the native-money ledger over natural numbers: what the invariant check accepts,
  what an exchange of cells does to the value and the identifiers of a cell set, and what the fee
  steps do to the supply.
\<close>

section \<open>What the invariant check accepts\<close>

definition cells_value :: "CoinCellRecord list \<Rightarrow> nat" where
  "cells_value rs = (\<Sum>r \<leftarrow> rs. unat (cell_amount (record_cell r)))"

definition identified :: "hash \<Rightarrow> CoinCellRecord list \<Rightarrow> bool" where
  "identified h rs \<longleftrightarrow> (\<forall>r \<in> set rs. origin_id h (cell_origin (record_cell r)) = Inr (record_id r))"

lemma cells_value_simps [simp]:
  "cells_value [] = 0" "cells_value (r # rs) = unat (cell_amount (record_cell r)) + cells_value rs"
  "cells_value (rs @ ss) = cells_value rs + cells_value ss"
  by (simp_all add: cells_value_def)

lemma identified_simps [simp]:
  "identified h []" "identified h (rs @ ss) \<longleftrightarrow> identified h rs \<and> identified h ss"
  "identified h (r # rs) \<longleftrightarrow> origin_id h (cell_origin (record_cell r)) = Inr (record_id r) \<and> identified h rs"
  by (auto simp: identified_def)

lemma cells_value_mset: "mset rs = mset ss \<Longrightarrow> cells_value rs = cells_value ss"
  unfolding cells_value_def by (metis mset_map sum_mset_sum_list)

lemma identified_subset: "set rs \<subseteq> set ss \<Longrightarrow> identified h ss \<Longrightarrow> identified h rs"
  by (auto simp: identified_def)

lemma verify_cells_eq_Inr:
  "verify_cells h rs acc = Inr t \<longleftrightarrow> identified h rs \<and> unat acc + cells_value rs = unat t"
proof (induction rs arbitrary: acc)
  case (Cons r rs)
  show ?case
  proof
    assume "verify_cells h (r # rs) acc = Inr t"
    then show "identified h (r # rs) \<and> unat acc + cells_value (r # rs) = unat t"
      using Cons.IH by (auto simp: checked_add_eq_Some_unat)
  next
    assume r: "identified h (r # rs) \<and> unat acc + cells_value (r # rs) = unat t"
    then have "unat acc + unat (cell_amount (record_cell r)) \<le> unat t" by simp
    then obtain z where "checked_add acc (cell_amount (record_cell r)) = Some z"
        "unat z = unat acc + unat (cell_amount (record_cell r))"
      by (rule checked_add_below)
    then show "verify_cells h (r # rs) acc = Inr t" using r Cons.IH by simp
  qed
qed (auto simp: word_unat_eq_iff)

definition ledger_value :: "CashLedger \<Rightarrow> nat" where
  "ledger_value l = cells_value (cell_records (ledger_cells l)) + unat (pool_balance (ledger_shielded l))
     + unat (security_reserve_balance (ledger_supply l)) + unat (locked_vesting_supply (ledger_supply l))
     + unat (staked_supply (ledger_supply l))"

definition within_cap :: "CashLedger \<Rightarrow> bool" where
  "within_cap l \<longleftrightarrow> (\<exists>cap. basis_points_amount (issuance_window_opening_supply (ledger_supply l))
     (maximum_ordinary_annual_issuance_bps (ledger_definition l)) = Inr cap
     \<and> issuance_in_window (ledger_supply l) \<le> cap)"

lemma checked_sum4_eq_Some:
  fixes a b c d e t :: u128
  shows "Option.bind (checked_add a b) (\<lambda>v. Option.bind (checked_add v c) (\<lambda>v.
      Option.bind (checked_add v d) (\<lambda>v. checked_add v e))) = Some t \<longleftrightarrow>
    unat a + unat b + unat c + unat d + unat e = unat t" (is "?l \<longleftrightarrow> ?r")
proof
  assume ?r
  have "unat a + unat b \<le> unat t" using \<open>?r\<close> by linarith
  then obtain v where v: "checked_add a b = Some v" "unat v = unat a + unat b" by (rule checked_add_below)
  have "unat v + unat c \<le> unat t" using \<open>?r\<close> v(2) by linarith
  then obtain w where w: "checked_add v c = Some w" "unat w = unat v + unat c" by (rule checked_add_below)
  have "unat w + unat d \<le> unat t" using \<open>?r\<close> v(2) w(2) by linarith
  then obtain x where x: "checked_add w d = Some x" "unat x = unat w + unat d" by (rule checked_add_below)
  have "checked_add x e = Some t" using \<open>?r\<close> v(2) w(2) x(2) by (simp add: checked_add_eq_Some_unat)
  then show ?l by (simp add: v(1) w(1) x(1))
qed (auto simp: bind_eq_Some_conv checked_add_eq_Some_unat)

lemma verify_invariants_iff:
  "verify_invariants h l = Inr () \<longleftrightarrow> redeemed_reward_root l \<noteq> ZERO
     \<and> identified h (cell_records (ledger_cells l))
     \<and> ledger_value l = unat (current_total_supply (ledger_supply l)) \<and> within_cap l" (is "?l \<longleftrightarrow> ?r")
proof
  assume ?l
  then show ?r
    by (auto simp: verify_invariants_def verify_cells_eq_Inr checked_sum4_eq_Some ledger_value_def
        within_cap_def not_less split: if_splits)
next
  assume r: ?r
  let ?rs = "cell_records (ledger_cells l)"
  have "cells_value ?rs < 2 ^ LENGTH(128)"
    using r unat_less_pow [of "current_total_supply (ledger_supply l)"] by (simp add: ledger_value_def)
  then have "verify_cells h ?rs 0 = Inr (word_of_nat (cells_value ?rs))"
    using r by (simp add: verify_cells_eq_Inr unat_word_of_nat)
  moreover have "unat (word_of_nat (cells_value ?rs) :: u128) = cells_value ?rs"
    using \<open>cells_value ?rs < 2 ^ LENGTH(128)\<close> by (rule unat_word_of_nat)
  moreover obtain cap where "basis_points_amount (issuance_window_opening_supply (ledger_supply l))
      (maximum_ordinary_annual_issuance_bps (ledger_definition l)) = Inr cap" "issuance_in_window (ledger_supply l) \<le> cap"
    using r by (auto simp: within_cap_def)
  ultimately show ?l
    using r checked_sum4_eq_Some [of "word_of_nat (cells_value ?rs)" "pool_balance (ledger_shielded l)"
        "security_reserve_balance (ledger_supply l)" "locked_vesting_supply (ledger_supply l)"
        "staked_supply (ledger_supply l)" "current_total_supply (ledger_supply l)"]
    by (simp add: verify_invariants_def ledger_value_def not_less)
qed

text \<open>
  A ledger in good order: its parts are what their constructors accept and the check passes.
\<close>

definition ledger_ok :: "hash \<Rightarrow> CashLedger \<Rightarrow> bool" where
  "ledger_ok h l \<longleftrightarrow> valid_CoinCellSet (ledger_cells l) \<and> valid_NativeSupply (ledger_supply l)
     \<and> ShieldedCashState_new (ledger_shielded l) = Inr (ledger_shielded l) \<and> verify_invariants h l = Inr ()"

section \<open>Finding, spending and creating cells\<close>

lemma valid_CoinCellSet_iff:
  "valid_CoinCellSet s \<longleftrightarrow> list_all valid_CoinCellRecord (cell_records s)
     \<and> length (cell_records s) \<le> 4096 \<and> strictly_increasing_by record_id (cell_records s)"
  by (auto simp: valid_CoinCellSet_def CoinCellSet_new_eq_Inr cash_bounds)

lemma find_cell_SomeD:
  "find_cell l cell_id = Some r \<Longrightarrow> r \<in> set (cell_records (ledger_cells l)) \<and> record_id r = cell_id"
  by (auto simp: find_cell_def dest: binary_search_SomeD)

lemma gather_inputs_sound:
  "gather_inputs l owner ids acc spent = Inr (t, rs) \<Longrightarrow>
   \<exists>qs. rs = spent @ qs \<and> map record_id qs = ids \<and> set qs \<subseteq> set (cell_records (ledger_cells l))
     \<and> (\<forall>q \<in> set qs. cell_owner (record_cell q) = owner) \<and> unat t = unat acc + cells_value qs"
proof (induction ids arbitrary: acc spent)
  case (Cons cell_id ids)
  obtain r acc' where r: "find_cell l cell_id = Some r" "cell_owner (record_cell r) = owner"
      "checked_add acc (cell_amount (record_cell r)) = Some acc'"
      "gather_inputs l owner ids acc' (spent @ [r]) = Inr (t, rs)"
    using Cons.prems by auto
  obtain qs where "rs = (spent @ [r]) @ qs" "map record_id qs = ids"
      "set qs \<subseteq> set (cell_records (ledger_cells l))" "\<forall>q \<in> set qs. cell_owner (record_cell q) = owner"
      "unat t = unat acc' + cells_value qs"
    using Cons.IH [OF r(4)] by blast
  then show ?case
    using r(2,3) find_cell_SomeD [OF r(1)] by (intro exI [of _ "r # qs"]) (auto simp: checked_add_eq_Some_unat)
qed simp

lemma unspent_cells_mset:
  assumes "strictly_increasing_by record_id (cell_records (ledger_cells l))"
    "set spent \<subseteq> set (cell_records (ledger_cells l))" "distinct (map record_id spent)"
  shows "mset (unspent_cells l spent) + mset spent = mset (cell_records (ledger_cells l))"
proof -
  let ?cs = "cell_records (ledger_cells l)" and ?P = "\<lambda>r. \<not> list_ex (\<lambda>s. record_id s = record_id r) spent"
  have dist: "distinct (map record_id ?cs)" using assms(1) by (rule strictly_increasing_by_distinct)
  then have inj: "inj_on record_id (set ?cs)" and "distinct ?cs" by (simp_all add: distinct_map)
  have "set (filter (\<lambda>r. \<not> ?P r) ?cs) = set spent"
    using assms(2) inj by (fastforce simp: list_ex_iff inj_on_def)
  moreover have "distinct spent" using assms(3) by (simp add: distinct_map)
  ultimately have "mset (filter (\<lambda>r. \<not> ?P r) ?cs) = mset spent"
    using \<open>distinct ?cs\<close> by (simp only: set_eq_iff_mset_eq_distinct distinct_filter simp_thms)
  then show ?thesis
    unfolding unspent_cells_def using multiset_partition [of "mset ?cs" ?P] by (simp only: mset_filter)
qed

lemma unspent_cells_set:
  "set (unspent_cells l spent) = {r \<in> set (cell_records (ledger_cells l)). record_id r \<notin> record_id ` set spent}"
  by (auto simp: unspent_cells_def list_ex_iff) (metis imageI)

lemma replace_cells_eq_Inr:
  "replace_cells cs = Inr s \<longleftrightarrow> s = \<lparr>cell_records = sort_key record_id cs\<rparr> \<and> length cs \<le> 4096
     \<and> strictly_increasing_by record_id (sort_key record_id cs)"
  by (auto simp: replace_cells_def CoinCellSet_new_eq_Inr)

lemma output_cell_eq_Inr:
  "output_cell h transition_id index owner amount height = Inr r \<longleftrightarrow>
     r = \<lparr>record_id = record_id r, record_cell = \<lparr>cell_origin =
         \<lparr>origin_transition_id = transition_id, output_index = index\<rparr>, cell_owner = owner,
         cell_amount = amount, creation_height = height\<rparr>\<rparr>
     \<and> origin_id h (cell_origin (record_cell r)) = Inr (record_id r)
     \<and> into_digest owner \<noteq> ZERO \<and> amount \<noteq> 0"
  by (cases r) (auto simp: output_cell_def Let_def CoinCell_new_def)

lemma output_cell_sound:
  assumes "output_cell h transition_id index owner amount height = Inr r"
  shows "identified h [r]" "valid_CoinCellRecord r" "cells_value [r] = unat amount" "cell_owner (record_cell r) = owner"
    "cell_amount (record_cell r) = amount"
proof -
  note r = assms [unfolded output_cell_eq_Inr]
  then have cell: "record_cell r = \<lparr>cell_origin =
      \<lparr>origin_transition_id = transition_id, output_index = index\<rparr>, cell_owner = owner,
      cell_amount = amount, creation_height = height\<rparr>" by (metis CoinCellRecord.select_convs(2))
  then show "cells_value [r] = unat amount" "cell_owner (record_cell r) = owner" "cell_amount (record_cell r) = amount"
    by simp_all
  show "identified h [r]" using r by simp
  show "valid_CoinCellRecord r"
    using r cell by (simp add: valid_CoinCellRecord_def valid_CoinCell_def valid_CoinCellOrigin_def CoinCell_new_def)
qed

lemma change_cell_sound:
  assumes "change_cell h transition_id index owner amount height = Inr rs"
  shows "identified h rs" "list_all valid_CoinCellRecord rs" "cells_value rs = unat amount"
    "\<forall>r \<in> set rs. cell_owner (record_cell r) = owner"
  using assms by (auto simp: change_cell_def word_neq_0_conv [symmetric] split: if_splits dest: output_cell_sound)

text \<open>An exchange: cells of the ledger are removed and new ones with their proper identifiers added.\<close>

definition exchange :: "hash \<Rightarrow> CoinCellSet \<Rightarrow> CoinCellRecord list \<Rightarrow> CoinCellRecord list \<Rightarrow> CoinCellSet \<Rightarrow> bool" where
  "exchange h cells spent outs cells' \<longleftrightarrow>
     mset (cell_records cells') + mset spent = mset (cell_records cells) + mset outs
     \<and> set spent \<subseteq> set (cell_records cells) \<and> distinct (map record_id spent)
     \<and> identified h outs \<and> valid_CoinCellSet cells'"

lemma exchangeI:
  assumes "valid_CoinCellSet (ledger_cells l)" "set spent \<subseteq> set (cell_records (ledger_cells l))"
    "distinct (map record_id spent)" "identified h outs" "list_all valid_CoinCellRecord outs"
    "replace_cells (unspent_cells l spent @ outs) = Inr cells'"
  shows "exchange h (ledger_cells l) spent outs cells'"
proof -
  let ?cs = "unspent_cells l spent @ outs"
  have cells': "cells' = \<lparr>cell_records = sort_key record_id ?cs\<rparr>" "length ?cs \<le> 4096"
      "strictly_increasing_by record_id (sort_key record_id ?cs)"
    using assms(6) unfolding replace_cells_eq_Inr by blast+
  have valid: "list_all valid_CoinCellRecord ?cs"
    using assms(1,5) by (auto simp: valid_CoinCellSet_iff list_all_iff unspent_cells_set)
  have "mset (unspent_cells l spent) + mset spent = mset (cell_records (ledger_cells l))"
    using assms(1-3) by (intro unspent_cells_mset) (simp_all add: valid_CoinCellSet_iff)
  then have "mset (cell_records cells') + mset spent = mset (cell_records (ledger_cells l)) + mset outs"
    by (simp add: cells'(1) ac_simps)
  moreover have "valid_CoinCellSet cells'"
    using valid cells' by (simp add: valid_CoinCellSet_iff list_all_iff)
  ultimately show ?thesis using assms(2-4) by (simp add: exchange_def)
qed

lemma exchange_value:
  assumes "exchange h cells spent outs cells'"
  shows "cells_value (cell_records cells') + cells_value spent = cells_value (cell_records cells) + cells_value outs"
proof -
  have "mset (cell_records cells' @ spent) = mset (cell_records cells @ outs)"
    using assms by (simp add: exchange_def)
  then have "cells_value (cell_records cells' @ spent) = cells_value (cell_records cells @ outs)"
    by (rule cells_value_mset)
  then show ?thesis by simp
qed

lemma exchange_set:
  assumes "exchange h cells spent outs cells'"
  shows "set (cell_records cells') \<subseteq> set (cell_records cells) \<union> set outs"
    "r \<in> set (cell_records cells) \<Longrightarrow> r \<notin> set spent \<Longrightarrow> r \<in> set (cell_records cells')"
    "set outs \<subseteq> set (cell_records cells') \<union> set spent"
proof -
  have eq: "set (cell_records cells') \<union> set spent = set (cell_records cells) \<union> set outs"
    using assms unfolding exchange_def by (metis set_mset_mset set_mset_union)
  then show "set (cell_records cells') \<subseteq> set (cell_records cells) \<union> set outs"
    "set outs \<subseteq> set (cell_records cells') \<union> set spent" by blast+
  show "r \<in> set (cell_records cells')" if "r \<in> set (cell_records cells)" "r \<notin> set spent" using eq that by blast
qed

lemma exchange_identified:
  "exchange h cells spent outs cells' \<Longrightarrow> identified h (cell_records cells) \<Longrightarrow> identified h (cell_records cells')"
  using exchange_set(1) [of h cells spent outs cells'] unfolding exchange_def identified_def by blast

lemma insert_new_cell_exchange:
  assumes "insert_new_cell l r = Inr l'" "valid_CoinCellSet (ledger_cells l)" "identified h [r]" "valid_CoinCellRecord r"
  shows "exchange h (ledger_cells l) [] [r] (ledger_cells l')" "l' = l\<lparr>ledger_cells := ledger_cells l'\<rparr>"
proof -
  obtain cells where cells: "replace_cells (cell_records (ledger_cells l) @ [r]) = Inr cells" "l' = l\<lparr>ledger_cells := cells\<rparr>"
    using assms(1) by (auto simp: insert_new_cell_def)
  have "unspent_cells l [] = cell_records (ledger_cells l)" by (simp add: unspent_cells_def)
  then have "exchange h (ledger_cells l) [] [r] cells"
    using assms(2-4) cells(1) by (intro exchangeI) simp_all
  then show "exchange h (ledger_cells l) [] [r] (ledger_cells l')" "l' = l\<lparr>ledger_cells := ledger_cells l'\<rparr>"
    by (simp_all add: cells(2))
qed

section \<open>Fees\<close>

lemma charge_fee_eq: "charge_fee l fee = move_fee_to_reserve l fee"
  by (cases "checked_add (security_reserve_balance (ledger_supply l)) fee";
      cases "checked_sub (circulating_supply (ledger_supply l)) fee")
    (simp_all add: charge_fee_def move_fee_to_reserve_def)

lemma NativeSupply_new_Inr: "NativeSupply_new r = Inr s \<Longrightarrow> s = r \<and> valid_NativeSupply r"
  by (simp add: valid_NativeSupply_def NativeSupply_new_eq_Inr)

lemma move_fee_sound:
  assumes "move_fee_to_reserve l fee = Inr l'"
  shows "l' = l\<lparr>ledger_supply := ledger_supply l'\<rparr>" "valid_NativeSupply (ledger_supply l')"
    "ledger_supply l' = (ledger_supply l)\<lparr>circulating_supply := circulating_supply (ledger_supply l'),
       security_reserve_balance := security_reserve_balance (ledger_supply l')\<rparr>"
    "unat (circulating_supply (ledger_supply l')) + unat fee = unat (circulating_supply (ledger_supply l))"
    "unat (security_reserve_balance (ledger_supply l')) = unat (security_reserve_balance (ledger_supply l)) + unat fee"
  using assms
  by (auto simp: move_fee_to_reserve_def checked_add_eq_Some_unat checked_sub_eq_Some_unat dest!: NativeSupply_new_Inr)

end
