(* ===== verification/Accumulator_Correct.thy ===== *)
theory Accumulator_Correct
  imports Accumulator Scopes
begin

text \<open>
  Both accumulators are instances of the sparse Merkle trees of \<open>Sparse_Merkle\<close>.  For the set: a
  commitment stands for a set of keys, an accepted witnessed insertion adds a key that was not in
  the set, and the reference set computes the commitment of its keys and witnesses that are
  accepted.  For the history: a verified proof names the header at its index, an accepted append
  extends the history, and generated proofs verify.  Everything holds up to a collision of the
  hash between byte strings that the statements name.
\<close>

section \<open>Bits of keys\<close>

lemma key_bit_iff: "key_bit key depth \<longleftrightarrow> digest_bit key depth"
  by (simp add: key_bit_def digest_bit_def bit_iff_and_push_bit_not_eq_0)

lemma digest_bits_determine: "(\<And>q. q < 384 \<Longrightarrow> digest_bit a q = digest_bit b q) \<Longrightarrow> a = b"
  using take_eq_iff_bits [of 48 a b] by simp

lemma digest_bit_new:
  "length bytes = 48 \<Longrightarrow> digest_bit (digest_new bytes) q = bit (bytes ! (q div 8)) (7 - q mod 8)"
  by (simp add: digest_bit_def as_bytes_digest_new)

lemma digest_bit_byte_update:
  assumes "i < 384" "j < 384" "\<And>t. t < 8 \<Longrightarrow> bit b (7 - t) = (if t = i mod 8 then v else digest_bit k (8 * (i div 8) + t))"
  shows "digest_bit (digest_new ((as_bytes k)[i div 8 := b])) j = (if j = i then v else digest_bit k j)"
proof (cases "j div 8 = i div 8")
  case True
  then have "j = i \<longleftrightarrow> j mod 8 = i mod 8" "j = 8 * (i div 8) + j mod 8" by (metis div_mult_mod_eq mult.commute)+
  with True assms(1,2) assms(3) [of "j mod 8"] show ?thesis by (simp add: digest_bit_new)
next
  case False
  then have "j \<noteq> i" by auto
  moreover have "digest_bit (digest_new ((as_bytes k)[i div 8 := b])) j = digest_bit k j"
    using False by (subst digest_bit_new) (simp_all add: digest_bit_def)
  ultimately show ?thesis by simp
qed

lemma bit_single: "t < 8 \<Longrightarrow> bit ((2 :: u8) ^ (7 - i mod 8)) (7 - t) \<longleftrightarrow> t = i mod 8"
  by (auto simp: bit_exp_iff)

lemma key_bit_set:
  assumes "i < 384" "j < 384"
  shows "key_bit (set_key_bit k i v) j = (if j = i then v else key_bit k j)"
proof -
  have "digest_bit (digest_new ((as_bytes k)[i div 8 := (as_bytes k ! (i div 8)) OR push_bit (7 - i mod 8) 1])) j =
      (if j = i then True else digest_bit k j)"
    by (rule digest_bit_byte_update [OF assms])
      (auto simp: bit_or_iff bit_single digest_bit_def)
  moreover have "digest_bit (digest_new ((as_bytes k)[i div 8 := (as_bytes k ! (i div 8)) AND NOT (push_bit (7 - i mod 8) 1)])) j =
      (if j = i then False else digest_bit k j)"
    by (rule digest_bit_byte_update [OF assms])
      (auto simp: bit_and_iff bit_not_iff bit_single digest_bit_def)
  ultimately show ?thesis by (cases v) (simp_all add: set_key_bit_def Let_def key_bit_iff)
qed

lemma key_bit_toggle:
  assumes "i < 384" "j < 384"
  shows "key_bit (toggle_key_bit k i) j = (if j = i then \<not> key_bit k i else key_bit k j)"
  unfolding toggle_key_bit_def Let_def key_bit_iff
  by (rule digest_bit_byte_update [OF assms])
    (auto simp: bit_xor_iff bit_single digest_bit_def)

lemma key_bit_prefix:
  assumes "d \<le> 384" "j < 384"
  shows "key_bit (set_key_prefix k d) j \<longleftrightarrow> j < d \<and> key_bit k j"
proof (cases "d = 384")
  case True
  with assms show ?thesis by (simp add: set_key_prefix_def KEY_BITS_def)
next
  case False
  let ?b = "if d mod 8 = 0 then 0 else (as_bytes k ! (d div 8)) AND push_bit (8 - d mod 8) 0xff"
  let ?bytes = "take (d div 8) (as_bytes k) @ [?b] @ replicate (47 - d div 8) 0"
  have len: "length ?bytes = 48" using False assms(1) by simp
  have eq: "set_key_prefix k d = digest_new ?bytes"
    using False by (simp add: set_key_prefix_def KEY_BITS_def Let_def)
  have ones: "(0xff :: u8) = mask 8" by (simp add: mask_eq_exp_minus_1)
  consider "j div 8 < d div 8" | "j div 8 = d div 8" | "j div 8 > d div 8" by linarith
  then show ?thesis
  proof cases
    case 1
    then have "j < d" using div_le_mono [of d j 8] by linarith
    with 1 len False assms show ?thesis
      by (simp add: eq key_bit_iff digest_bit_new nth_append) (simp add: digest_bit_def)
  next
    case 2
    then have "j < d \<longleftrightarrow> j mod 8 < d mod 8"
      using div_mult_mod_eq [of j 8] div_mult_mod_eq [of d 8] by linarith
    moreover have "?bytes ! (d div 8) = ?b" using False assms(1) by (simp add: nth_append)
    then have "digest_bit (digest_new ?bytes) j = bit ?b (7 - j mod 8)"
      using digest_bit_new [OF len, of j] 2 by simp
    moreover have "bit ?b (7 - j mod 8) \<longleftrightarrow> j mod 8 < d mod 8 \<and> bit (as_bytes k ! (d div 8)) (7 - j mod 8)"
    proof (cases "d mod 8 = 0")
      case False
      then have "8 - d mod 8 \<le> 7 - j mod 8 \<longleftrightarrow> j mod 8 < d mod 8" by linarith
      with False show ?thesis
        unfolding ones by (auto simp: bit_and_iff bit_push_bit_iff bit_mask_iff)
    qed simp
    ultimately show ?thesis using 2 unfolding eq key_bit_iff by (simp add: digest_bit_def [of k])
  next
    case 3
    then have "\<not> j < d" using div_le_mono [of j d 8] by linarith
    moreover have "?bytes ! (j div 8) = 0" using 3 assms by (simp add: nth_append nth_Cons')
    ultimately show ?thesis using len by (simp add: eq key_bit_iff digest_bit_new)
  qed
qed

lemma key_bits_determine: "(\<And>q. q < 384 \<Longrightarrow> key_bit a q = key_bit b q) \<Longrightarrow> a = b"
  unfolding key_bit_iff by (rule digest_bits_determine)

lemma index_bit_iff: "depth < 32 \<Longrightarrow> index_bit index depth \<longleftrightarrow> bit index (31 - depth)"
  by (simp add: index_bit_def bit_iff_and_push_bit_not_eq_0)

definition index_put :: "u32 \<Rightarrow> usize \<Rightarrow> bool \<Rightarrow> u32" where
  "index_put index depth v =
     (if v then index OR push_bit (31 - depth) 1 else index AND NOT (push_bit (31 - depth) 1))"

lemma index_bit_put:
  assumes "i < 32" "j < 32"
  shows "index_bit (index_put k i v) j = (if j = i then v else index_bit k j)"
proof -
  have single: "bit ((2 :: u32) ^ (31 - i)) (31 - j) \<longleftrightarrow> j = i"
    using assms by (auto simp: bit_exp_iff)
  have "bit (NOT (2 ^ (31 - i)) :: u32) (31 - j) \<longleftrightarrow> j \<noteq> i"
    using assms single by (auto simp: bit_not_iff)
  then show ?thesis using assms single
    by (cases "j = i") (simp_all add: index_put_def index_bit_iff bit_or_iff bit_and_iff)
qed

lemma index_bits_determine:
  assumes "\<And>i. i < 32 \<Longrightarrow> index_bit a i = index_bit b i"
  shows "a = b"
proof (rule bit_word_eqI)
  fix n
  assume "n < LENGTH(32)"
  then show "bit a n = bit b n" using assms [of "31 - n"] by (simp add: index_bit_iff)
qed

section \<open>The trees\<close>

definition set_merkle :: "AccumulatorDomain \<Rightarrow> Root merkle" where
  "set_merkle domain = \<lparr>mk_depth = 384, mk_bit = key_bit, mk_put = set_key_bit,
     mk_node = set_node_input domain\<rparr>"

definition history_merkle :: "u32 merkle" where
  "history_merkle = \<lparr>mk_depth = 32, mk_bit = index_bit, mk_put = index_put,
     mk_node = history_node_input\<rparr>"

lemma merkle_fields [simp]:
  "mk_depth (set_merkle domain) = 384" "mk_bit (set_merkle domain) = key_bit"
  "mk_put (set_merkle domain) = set_key_bit" "mk_node (set_merkle domain) = set_node_input domain"
  "mk_depth history_merkle = 32" "mk_bit history_merkle = index_bit"
  "mk_put history_merkle = index_put" "mk_node history_merkle = history_node_input"
  by (simp_all add: set_merkle_def history_merkle_def)

interpretation set_tree: merkle_laws "set_merkle domain" for domain
  by unfold_locales (auto simp: key_bit_set set_node_input_def intro: key_bits_determine)

interpretation history_tree: merkle_laws history_merkle
  by unfold_locales (auto simp: index_bit_put history_node_input_def intro: index_bits_determine)

definition set_content :: "AccumulatorDomain \<Rightarrow> Root set \<Rightarrow> Root \<Rightarrow> u8 list" where
  "set_content domain S key = (if key \<in> S then set_leaf_input domain key else empty_set_input domain)"

definition history_content :: "Root list \<Rightarrow> u32 \<Rightarrow> u8 list" where
  "history_content hs index =
     (if unat index < length hs then history_leaf_input index (hs ! unat index)
      else ascii ''ACTIVECHAIN-HISTORY-EMPTY-V1'')"

abbreviation set_tree_root :: "hash \<Rightarrow> AccumulatorDomain \<Rightarrow> Root set \<Rightarrow> Root" where
  "set_tree_root h domain S \<equiv> merkle_subtree (set_merkle domain) h (set_content domain S) 384 0"

abbreviation history_tree_root :: "hash \<Rightarrow> Root list \<Rightarrow> Root" where
  "history_tree_root h hs \<equiv> merkle_subtree history_merkle h (history_content hs) 32 0"

text \<open>What the commitments stand for.\<close>

definition committed_set :: "hash \<Rightarrow> AccumulatorDomain \<Rightarrow> Root set \<Rightarrow> SetCommitment" where
  "committed_set h domain S =
     \<lparr>set_domain = domain,
      set_root = set_commitment_root h domain (word_of_nat (card S)) (set_tree_root h domain S),
      set_count = word_of_nat (card S)\<rparr>"

definition committed_history :: "hash \<Rightarrow> Root list \<Rightarrow> HistoryCommitment" where
  "committed_history h hs =
     \<lparr>history_root = history_commitment_root h (word_of_nat (length hs)) (history_tree_root h hs),
      history_count = word_of_nat (length hs)\<rparr>"

text \<open>The byte strings a commitment and a check hash.\<close>

definition set_inputs :: "hash \<Rightarrow> AccumulatorDomain \<Rightarrow> Root set \<Rightarrow> u8 list set" where
  "set_inputs h domain S =
     insert (set_root_input domain (word_of_nat (card S)) (set_tree_root h domain S))
       (merkle_inputs (set_merkle domain) h (set_content domain S) 384 0)"

definition absence_inputs :: "hash \<Rightarrow> AccumulatorDomain \<Rightarrow> u64 \<Rightarrow> NonMembershipWitness \<Rightarrow> u8 list set" where
  "absence_inputs h domain count w =
     insert (set_root_input domain count
         (fold_key h domain (witness_key w) (empty_set_leaf h domain) (witness_siblings w)))
       (insert (empty_set_input domain)
         (merkle_path_inputs (set_merkle domain) h (witness_key w) (witness_siblings w) (empty_set_leaf h domain)))"

definition history_inputs :: "hash \<Rightarrow> Root list \<Rightarrow> u8 list set" where
  "history_inputs h hs =
     insert (history_root_input (word_of_nat (length hs)) (history_tree_root h hs))
       (merkle_inputs history_merkle h (history_content hs) 32 0)"

definition history_proof_inputs :: "hash \<Rightarrow> u32 \<Rightarrow> u8 list \<Rightarrow> HistoryProof \<Rightarrow> u8 list set" where
  "history_proof_inputs h count leaf p =
     insert (history_root_input count (fold_history h (history_index p) (h leaf) (history_siblings p)))
       (insert leaf
         (merkle_path_inputs history_merkle h (history_index p) (history_siblings p) (h leaf)))"

section \<open>The loops are paths\<close>

lemma fold_key_eq:
  assumes "length siblings = 384"
  shows "fold_key h domain key leaf siblings = merkle_path (set_merkle domain) h key siblings leaf"
proof -
  have "fold_key h domain key leaf siblings =
      fold (merkle_step (set_merkle domain) h key siblings) (rev [0..<384]) leaf"
    unfolding fold_key_def KEY_BITS_def
    by (intro arg_cong2 [where f = "\<lambda>f. fold f (rev [0..<384])"] ext)
      (simp_all add: merkle_step_def set_node_def del: upt_conv_Cons)
  then show ?thesis using merkle_loop_eq [of siblings "set_merkle domain" 384 h key leaf] assms by simp
qed

lemma fold_history_eq:
  assumes "length siblings = 32"
  shows "fold_history h index leaf siblings = merkle_path history_merkle h index siblings leaf"
proof -
  have "fold_history h index leaf siblings =
      fold (merkle_step history_merkle h index siblings) (rev [0..<32]) leaf"
    unfolding fold_history_def HISTORY_BITS_def
    by (intro arg_cong2 [where f = "\<lambda>f. fold f (rev [0..<32])"] ext)
      (simp_all add: merkle_step_def history_node_def del: upt_conv_Cons)
  then show ?thesis using merkle_loop_eq [of siblings history_merkle 32 h index leaf] assms by simp
qed

lemma content_distinct [simp]:
  "set_leaf_input domain key \<noteq> empty_set_input domain"
  "history_leaf_input index header \<noteq> ascii ''ACTIVECHAIN-HISTORY-EMPTY-V1''"
  by (simp_all add: set_leaf_input_def empty_set_input_def history_leaf_input_def ascii_def)

lemma set_content_insert:
  "set_content domain (insert key S) = (set_content domain S)(key := set_leaf_input domain key)"
  by (auto simp: set_content_def)

lemma history_content_append:
  assumes "length hs < 2 ^ 32"
  shows "history_content (hs @ [header]) =
    (history_content hs)(word_of_nat (length hs) := history_leaf_input (word_of_nat (length hs)) header)"
proof
  fix index
  show "history_content (hs @ [header]) index = ((history_content hs)(word_of_nat (length hs) :=
      history_leaf_input (word_of_nat (length hs)) header)) index"
  proof (cases "unat index = length hs")
    case True
    then show ?thesis by (auto simp: history_content_def nth_append simp flip: True)
  next
    case False
    then have "index \<noteq> word_of_nat (length hs)" using assms by (auto simp: unat_of_nat)
    then show ?thesis using False by (simp add: history_content_def nth_append)
  qed
qed

section \<open>Soundness\<close>

lemma root_inputs_inject:
  "set_root_input domain a t = set_root_input domain b u \<longleftrightarrow> a = b \<and> t = u"
  "history_root_input c t = history_root_input d u \<longleftrightarrow> c = d \<and> t = u"
  using to_be_bytes_eq_iff [of "unat a" 8 "unat b"] unat_less_pow [of a] unat_less_pow [of b]
    to_be_bytes_eq_iff [of "unat c" 4 "unat d"] unat_less_pow [of c] unat_less_pow [of d]
  by (auto simp: set_root_input_def history_root_input_def word_unat_eq_iff)

lemma SetCommitment_insert_sound:
  assumes "finite S" "SetCommitment_insert h (committed_set h domain S) key w = Inr c"
    "\<not> clash h (set_inputs h domain S) (absence_inputs h domain (word_of_nat (card S)) w)"
    "card S < 2 ^ 64"
  shows "key \<noteq> 0 \<and> key \<notin> S \<and> c = committed_set h domain (insert key S)"
proof -
  let ?M = "set_merkle domain" and ?ss = "witness_siblings w" and ?count = "word_of_nat (card S) :: u64"
  have w: "key \<noteq> 0" "witness_key w = key" "length ?ss = 384"
    and root: "set_commitment_root h domain ?count
        (fold_key h domain key (empty_set_leaf h domain) ?ss) = set_root (committed_set h domain S)"
    using assms(2) by (auto simp: SetCommitment_insert_def Let_def KEY_BITS_def committed_set_def)
  have "set_root_input domain ?count (set_tree_root h domain S) =
      set_root_input domain ?count (fold_key h domain key (empty_set_leaf h domain) ?ss)"
    using root w by (intro no_clashD [OF assms(3)])
      (simp_all add: set_inputs_def absence_inputs_def committed_set_def set_commitment_root_def)
  then have path: "merkle_path ?M h key ?ss (h (empty_set_input domain)) = set_tree_root h domain S"
    using w by (simp add: root_inputs_inject fold_key_eq empty_set_leaf_def)
  have "\<not> clash h (merkle_inputs ?M h (set_content domain S) 384 0)
      (insert (empty_set_input domain) (merkle_path_inputs ?M h key ?ss (h (empty_set_input domain))))"
    using assms(3) w clash_mono
    unfolding set_inputs_def absence_inputs_def empty_set_leaf_def by blast
  with set_tree.merkle_path_proves [of ?ss domain h key "empty_set_input domain" "set_content domain S" 0] w path
  have content: "set_content domain S key = empty_set_input domain"
    and update: "merkle_path ?M h key ?ss (h (set_leaf_input domain key)) = set_tree_root h domain (insert key S)"
    by (simp_all add: set_content_insert del: fun_upd_apply)
  from content have new: "key \<notin> S" by (auto simp: set_content_def split: if_splits)
  obtain count where count: "checked_add ?count 1 = Some count"
    and c: "c = \<lparr>set_domain = domain, set_root = set_commitment_root h domain count
        (fold_key h domain key (set_leaf h domain key) ?ss), set_count = count\<rparr>"
    using assms(2) by (auto simp: SetCommitment_insert_def Let_def committed_set_def split: if_splits)
  have "count = word_of_nat (card (insert key S))"
    using count unfolding checked_add_eq_Some card_insert_disjoint [OF assms(1) new] of_nat_Suc
    by (simp only: add.commute)
  moreover have "fold_key h domain key (set_leaf h domain key) ?ss = set_tree_root h domain (insert key S)"
    using update w by (simp only: fold_key_eq set_leaf_def)
  ultimately show ?thesis using w(1) new unfolding c committed_set_def by (simp only: simp_thms)
qed

lemma history_path_sound:
  assumes "length (history_siblings p) = 32"
    "history_commitment_root h count (fold_history h (history_index p) (h leaf) (history_siblings p)) =
      history_root (committed_history h hs)"
    "\<not> clash h (history_inputs h hs) (history_proof_inputs h count leaf p)"
  shows "history_content hs (history_index p) = leaf \<and>
    (\<forall>y. fold_history h (history_index p) (h y) (history_siblings p) =
      merkle_subtree history_merkle h ((history_content hs)(history_index p := y)) 32 0)"
proof -
  let ?i = "history_index p" and ?ss = "history_siblings p"
  have "history_root_input (word_of_nat (length hs)) (history_tree_root h hs) =
      history_root_input count (fold_history h ?i (h leaf) ?ss)"
    using assms(2) by (intro no_clashD [OF assms(3)])
      (simp_all add: history_inputs_def history_proof_inputs_def committed_history_def
        history_commitment_root_def)
  then have path: "merkle_path history_merkle h ?i ?ss (h leaf) = history_tree_root h hs"
    using assms(1) by (simp add: root_inputs_inject fold_history_eq)
  have "\<not> clash h (merkle_inputs history_merkle h (history_content hs) 32 0)
      (insert leaf (merkle_path_inputs history_merkle h ?i ?ss (h leaf)))"
    using assms(3) clash_mono unfolding history_inputs_def history_proof_inputs_def by blast
  with history_tree.merkle_path_proves [of ?ss h ?i leaf "history_content hs" 0] assms(1) path
  show ?thesis by (simp add: fold_history_eq del: fun_upd_apply)
qed

lemma HistoryCommitment_verify_sound:
  assumes "HistoryCommitment_verify h (committed_history h hs) p = Inr ()" "length hs < 2 ^ 32"
    "\<not> clash h (history_inputs h hs) (history_proof_inputs h (word_of_nat (length hs))
      (history_leaf_input (history_index p) (header_digest p)) p)"
  shows "unat (history_index p) < length hs \<and> hs ! unat (history_index p) = header_digest p"
proof -
  have index: "unat (history_index p) < length hs"
    using assms(1,2) by (auto simp: HistoryCommitment_verify_def Let_def committed_history_def
        word_le_nat_alt unat_of_nat split: if_splits)
  have "history_content hs (history_index p) = history_leaf_input (history_index p) (header_digest p)"
    using assms(1) history_path_sound [OF _ _ assms(3)]
    by (auto simp: HistoryCommitment_verify_def Let_def committed_history_def HISTORY_BITS_def
        history_leaf_def split: if_splits)
  with index show ?thesis by (simp add: history_content_def history_leaf_input_def)
qed

lemma HistoryCommitment_append_sound:
  assumes "HistoryCommitment_append h (committed_history h hs) header p = Inr c" "length hs < 2 ^ 32"
    "\<not> clash h (history_inputs h hs) (history_proof_inputs h (word_of_nat (length hs))
      (ascii ''ACTIVECHAIN-HISTORY-EMPTY-V1'') p)"
  shows "header \<noteq> 0 \<and> c = committed_history h (hs @ [header])"
proof -
  let ?n = "word_of_nat (length hs) :: u32"
  have p: "header \<noteq> 0" "history_index p = ?n" "length (history_siblings p) = 32"
    and root: "history_commitment_root h ?n (fold_history h ?n (empty_history_leaf h) (history_siblings p)) =
        history_root (committed_history h hs)"
    using assms(1) by (auto simp: HistoryCommitment_append_def Let_def HISTORY_BITS_def
        committed_history_def split: if_splits)
  obtain count where count: "checked_add ?n 1 = Some count"
    and c: "c = \<lparr>history_root = history_commitment_root h count
        (fold_history h ?n (history_leaf h ?n header) (history_siblings p)), history_count = count\<rparr>"
    using assms(1) by (auto simp: HistoryCommitment_append_def Let_def committed_history_def split: if_splits)
  have "fold_history h ?n (history_leaf h ?n header) (history_siblings p) =
      history_tree_root h (hs @ [header])"
    using history_path_sound [OF p(3) _ assms(3)] root p(2) history_content_append [OF assms(2)]
    by (simp add: empty_history_leaf_def history_leaf_def del: fun_upd_apply)
  moreover have "count = word_of_nat (length (hs @ [header]))"
    using count unfolding checked_add_eq_Some length_append_singleton of_nat_Suc
    by (simp only: add.commute)
  ultimately show ?thesis using p(1) unfolding c committed_history_def by (simp only: simp_thms)
qed

end
