(* ===== verification/Accumulator_Reference.thy ===== *)
theory Accumulator_Reference
  imports Accumulator_Correct
begin

text \<open>
  The reference set and the reference history compute the trees they stand for: the stored nodes
  are the hashes of the subtrees, and the generated witnesses and proofs are the sibling lists that
  the commitments accept.
\<close>

section \<open>The reference set\<close>

abbreviation set_subtree :: "hash \<Rightarrow> AccumulatorDomain \<Rightarrow> Root set \<Rightarrow> nat \<Rightarrow> Root \<Rightarrow> Root" where
  "set_subtree h domain S \<equiv> merkle_subtree (set_merkle domain) h (set_content domain S)"

lemma set_empty_hashes_loop_eq:
  "set_empty_hashes_loop h domain n = merkle_empty_hashes (set_merkle domain) h (empty_set_input domain) n"
  by (induction n) (simp_all add: empty_set_leaf_def set_node_def KEY_BITS_def Let_def)

lemma set_content_empty: "set_content domain {} = (\<lambda>_. empty_set_input domain)"
  by (simp add: set_content_def fun_eq_iff)

lemma set_empty_hashes_nth: "d \<le> 384 \<Longrightarrow> set_empty_hashes h domain ! d = set_subtree h domain {} (384 - d) k"
  unfolding set_empty_hashes_def set_empty_hashes_loop_eq set_content_empty KEY_BITS_def
  by (rule merkle_empty_hashes_nth)

lemma SetCommitment_empty_eq: "SetCommitment_empty h domain = committed_set h domain {}"
  by (simp add: SetCommitment_empty_def committed_set_def Let_def set_empty_hashes_nth [of 0 h domain 0])

lemma set_key_prefix_eq_iff:
  assumes "d \<le> 384"
  shows "set_key_prefix a d = set_key_prefix b d \<longleftrightarrow> set_tree.same_subtree domain (384 - d) a b"
proof
  assume eq: "set_key_prefix a d = set_key_prefix b d"
  have "key_bit a i = key_bit b i" if "i < d" for i
    using key_bit_prefix [OF assms, of i a] key_bit_prefix [OF assms, of i b] that assms eq by simp
  then show "set_tree.same_subtree domain (384 - d) a b"
    using assms by (simp add: set_tree.same_subtree_def)
next
  assume "set_tree.same_subtree domain (384 - d) a b"
  then show "set_key_prefix a d = set_key_prefix b d"
    using assms by (intro key_bits_determine) (auto simp: key_bit_prefix set_tree.same_subtree_def)
qed

lemma set_key_prefix_bits:
  assumes "d \<le> 384" "\<And>i. i < d \<Longrightarrow> key_bit a i = key_bit b i"
  shows "set_key_prefix a d = set_key_prefix b d"
  using assms by (intro key_bits_determine) (auto simp: key_bit_prefix)

lemma key_bit_zero: "q < 384 \<Longrightarrow> \<not> key_bit 0 q"
proof -
  assume "q < 384"
  moreover have "as_bytes 0 = replicate 48 0" by code_simp
  ultimately show ?thesis by (simp add: key_bit_iff digest_bit_def)
qed

definition nodes_ok ::
    "hash \<Rightarrow> AccumulatorDomain \<Rightarrow> Root list \<Rightarrow> (usize \<times> Root \<rightharpoonup> Root) \<Rightarrow> usize \<Rightarrow> Root set \<Rightarrow> bool" where
  "nodes_ok h domain empty_hashes nodes d S \<longleftrightarrow>
     (\<forall>k. node_or_empty nodes empty_hashes d (set_key_prefix k d) = set_subtree h domain S (384 - d) k)"

definition ref_ok :: "hash \<Rightarrow> ReferenceSet \<Rightarrow> bool" where
  "ref_ok h r \<longleftrightarrow>
     finite (ref_keys r) \<and> card (ref_keys r) < 2 ^ 64 \<and> ref_commitment r = committed_set h (ref_domain r) (ref_keys r) \<and>
     (\<forall>d \<le> 384. nodes_ok h (ref_domain r) (ref_empty r) (ref_nodes r) d (ref_keys r))"

lemma ReferenceSet_new_ok: "ref_ok h (ReferenceSet_new h domain)"
  by (simp add: ref_ok_def ReferenceSet_new_def SetCommitment_empty_eq nodes_ok_def node_or_empty_def
      set_empty_hashes_nth)

lemma node_or_empty_update:
  "node_or_empty (nodes((d, p) \<mapsto> v)) e d' p' = (if d' = d \<and> p' = p then v else node_or_empty nodes e d' p')"
  by (simp add: node_or_empty_def)

text \<open>A subtree that does not hold the new key keeps its hash.\<close>

lemma set_subtree_insert_other:
  assumes "d \<le> 384" "set_key_prefix k d \<noteq> set_key_prefix key d"
  shows "set_subtree h domain (insert key S) (384 - d) k = set_subtree h domain S (384 - d) k"
proof (rule set_tree.merkle_subtree_cong)
  show "set_tree.same_subtree domain (384 - d) k k" by (simp add: set_tree.same_subtree_def)
  fix j
  assume "set_tree.same_subtree domain (384 - d) k j"
  then have "j \<noteq> key" using assms by (auto simp: set_key_prefix_eq_iff [of d _ _ domain])
  then show "set_content domain (insert key S) j = set_content domain S j" by (simp add: set_content_def)
qed simp

lemma insert_node_ok:
  assumes "d < 384" "nodes_ok h domain e nodes (Suc d) (insert key S)" "nodes_ok h domain e nodes d S"
  shows "nodes_ok h domain e (insert_node h domain e key d nodes) d (insert key S)"
  unfolding nodes_ok_def
proof
  fix k
  let ?parent = "set_key_prefix key d" and ?n = "384 - Suc d"
  have left: "set_key_prefix ?parent (Suc d) = set_key_prefix (set_key_bit key d False) (Suc d)"
    and right: "set_key_prefix (set_key_bit ?parent d True) (Suc d) =
      set_key_prefix (set_key_bit key d True) (Suc d)"
    using assms(1) by (auto intro!: set_key_prefix_bits simp: key_bit_prefix key_bit_set split: if_splits)
  have n: "384 - d = Suc ?n" "384 - Suc ?n = d" using assms(1) by simp_all
  have children: "node_or_empty nodes e (Suc d) (set_key_prefix (set_key_bit key d b) (Suc d)) =
      set_subtree h domain (insert key S) ?n (set_key_bit key d b)" for b
    using assms(2) by (simp add: nodes_ok_def)
  show "node_or_empty (insert_node h domain e key d nodes) e d (set_key_prefix k d) =
      set_subtree h domain (insert key S) (384 - d) k"
  proof (cases "set_key_prefix k d = ?parent")
    case True
    have "node_or_empty (insert_node h domain e key d nodes) e d (set_key_prefix k d) =
        set_node h domain d (set_subtree h domain (insert key S) ?n (set_key_bit key d False))
          (set_subtree h domain (insert key S) ?n (set_key_bit key d True))"
      unfolding insert_node_def Let_def node_or_empty_update True Suc_eq_plus1 [symmetric]
      by (simp add: left right children)
    also have "\<dots> = set_subtree h domain (insert key S) (Suc ?n) key"
      unfolding merkle_subtree.simps Let_def merkle_fields n by (simp add: set_node_def)
    also have "\<dots> = set_subtree h domain (insert key S) (Suc ?n) k"
    proof (rule set_tree.merkle_subtree_cong)
      show "set_tree.same_subtree domain (Suc ?n) key k"
        using True [symmetric] assms(1) set_key_prefix_eq_iff [of d key k domain] n by simp
    qed (use assms(1) in simp_all)
    finally show ?thesis unfolding n .
  next
    case False
    then have "node_or_empty (insert_node h domain e key d nodes) e d (set_key_prefix k d) =
        node_or_empty nodes e d (set_key_prefix k d)"
      by (simp add: insert_node_def Let_def node_or_empty_update)
    also have "\<dots> = set_subtree h domain S (384 - d) k" using assms(3) by (simp add: nodes_ok_def)
    finally show ?thesis using set_subtree_insert_other [OF _ False] assms(1) by simp
  qed
qed

lemma insert_node_keeps: "d' \<noteq> d \<Longrightarrow>
  nodes_ok h domain e (insert_node h domain e key d nodes) d' S \<longleftrightarrow> nodes_ok h domain e nodes d' S"
  by (simp add: nodes_ok_def insert_node_def Let_def node_or_empty_update)

lemma insert_leaf_ok:
  assumes "\<forall>d \<le> 384. nodes_ok h domain e nodes d S" "d \<le> 384"
  shows "nodes_ok h domain e (nodes((384, key) \<mapsto> set_leaf h domain key)) d
    (if 384 \<le> d then insert key S else S)"
proof (cases "d = 384")
  case True
  have full: "set_key_prefix k 384 = k" for k by (simp add: set_key_prefix_def KEY_BITS_def)
  show ?thesis using assms(1) [rule_format, of 384]
    unfolding True nodes_ok_def node_or_empty_update full
    by (auto simp: set_leaf_def set_content_def)
next
  case False
  then show ?thesis using assms by (simp add: nodes_ok_def node_or_empty_update del: fun_upd_apply)
qed

lemma insert_nodes_ok:
  assumes start: "\<And>d. d \<le> 384 \<Longrightarrow> nodes_ok h domain e nodes d (if height \<le> d then insert key S else S)"
    and "n \<le> height" "height = 384"
  shows "\<forall>d \<le> 384. nodes_ok h domain e (fold (insert_node h domain e key) (rev [height - n..<height]) nodes) d
    (if height - n \<le> d then insert key S else S)"
  using assms(2)
proof (induction n)
  case 0
  show ?case using start by simp
next
  case (Suc n)
  let ?d = "height - Suc n"
  let ?nodes = "fold (insert_node h domain e key) (rev [height - n..<height]) nodes"
  have d: "?d < height" "Suc ?d = height - n" using Suc.prems by simp_all
  have upt: "[?d..<height] = ?d # [height - n..<height]" using upt_conv_Cons [of ?d height] d by simp
  have IH: "nodes_ok h domain e ?nodes d (if height - n \<le> d then insert key S else S)" if "d \<le> 384" for d
    using Suc.IH Suc.prems that by simp
  have step: "fold (insert_node h domain e key) (rev [?d..<height]) nodes = insert_node h domain e key ?d ?nodes"
    unfolding upt by simp
  have "?d < 384" "\<not> height - n \<le> ?d" "height - n \<le> Suc ?d" using d assms(3) by linarith+
  then have at: "nodes_ok h domain e (insert_node h domain e key ?d ?nodes) ?d (insert key S)"
    using insert_node_ok [of ?d h domain e ?nodes key S] IH [of "Suc ?d"] IH [of ?d] by (simp only: if_True if_False Suc_leI less_imp_le)
  have "nodes_ok h domain e (insert_node h domain e key ?d ?nodes) d (if ?d \<le> d then insert key S else S)"
    if "d \<le> 384" for d
  proof (cases "d = ?d")
    case True
    then show ?thesis using at by (simp only: order_refl if_True)
  next
    case False
    then have "(?d \<le> d) = (height - n \<le> d)" using d by linarith
    with IH [OF that] insert_node_keeps [OF False] show ?thesis by (simp only:)
  qed
  then show ?case unfolding step by blast
qed

lemma ReferenceSet_insert_ok:
  assumes "ref_ok h r" "ReferenceSet_insert h r key = Inr r'"
  shows "ref_ok h r' \<and> key \<noteq> 0 \<and> key \<notin> ref_keys r \<and> ref_domain r' = ref_domain r \<and>
    ref_keys r' = insert key (ref_keys r)"
proof -
  let ?nodes = "fold (insert_node h (ref_domain r) (ref_empty r) key) (rev [0..<KEY_BITS])
    ((ref_nodes r)((KEY_BITS, key) \<mapsto> set_leaf h (ref_domain r) key))"
  have new: "key \<noteq> 0" "key \<notin> ref_keys r" and card: "card (insert key (ref_keys r)) < 2 ^ 64"
    and r': "r' = r\<lparr>ref_keys := insert key (ref_keys r), ref_nodes := ?nodes,
      ref_commitment := \<lparr>set_domain = ref_domain r,
        set_root = set_commitment_root h (ref_domain r) (word_of_nat (card (insert key (ref_keys r))))
          (node_or_empty ?nodes (ref_empty r) 0 0),
        set_count = word_of_nat (card (insert key (ref_keys r)))\<rparr>\<rparr>"
    using assms(2) unfolding ReferenceSet_insert_def Let_def
    by (auto simp del: card_insert_if split: if_splits)
  have ok: "\<forall>d \<le> 384. nodes_ok h (ref_domain r) (ref_empty r) ?nodes d (insert key (ref_keys r))"
    using insert_nodes_ok [where n = KEY_BITS and height = KEY_BITS and key = key and S = "ref_keys r",
        OF insert_leaf_ok [of h "ref_domain r" "ref_empty r" "ref_nodes r" "ref_keys r" _ key,
          folded KEY_BITS_def] order_refl KEY_BITS_def] assms(1)
    by (simp add: ref_ok_def KEY_BITS_def)
  have zero: "set_key_prefix 0 0 = 0"
    by (rule key_bits_determine) (simp add: key_bit_prefix key_bit_zero)
  have "node_or_empty ?nodes (ref_empty r) 0 0 = set_tree_root h (ref_domain r) (insert key (ref_keys r))"
    using ok [rule_format, of 0] zero unfolding nodes_ok_def by (metis diff_zero le0)
  then have "ref_ok h r'"
    using assms(1) ok card unfolding r' ref_ok_def committed_set_def by (simp del: card_insert_if fun_upd_apply)
  with new r' show ?thesis by simp
qed

lemma non_membership_witness_eq:
  assumes "ref_ok h r" "non_membership_witness r key = Inr w"
  shows "key \<noteq> 0 \<and> key \<notin> ref_keys r \<and> witness_key w = key \<and>
    witness_siblings w = merkle_siblings (set_merkle (ref_domain r)) h (set_content (ref_domain r) (ref_keys r)) 384 key"
proof -
  have toggle: "toggle_key_bit key d = set_key_bit key d (\<not> key_bit key d)" if "d < 384" for d
    using that by (intro key_bits_determine) (auto simp: key_bit_toggle key_bit_set)
  have "node_or_empty (ref_nodes r) (ref_empty r) (d + 1) (set_key_prefix (toggle_key_bit key d) (d + 1)) =
      set_subtree h (ref_domain r) (ref_keys r) (384 - Suc d) (set_key_bit key d (\<not> key_bit key d))" if "d < 384" for d
    using assms(1) that toggle [OF that] by (simp add: ref_ok_def nodes_ok_def)
  then have "map (\<lambda>depth. node_or_empty (ref_nodes r) (ref_empty r) (depth + 1)
        (set_key_prefix (toggle_key_bit key depth) (depth + 1))) [0..<384] =
      merkle_siblings (set_merkle (ref_domain r)) h (set_content (ref_domain r) (ref_keys r)) 384 key"
    by (intro nth_equalityI) (simp_all add: merkle_siblings_nth Let_def del: upt_conv_Cons)
  then show ?thesis using assms(2)
    by (auto simp: non_membership_witness_def KEY_BITS_def simp del: upt_conv_Cons split: if_splits)
qed

lemma SetCommitment_insert_complete:
  assumes "finite S" "card S < 2 ^ 64 - 1" "key \<noteq> 0" "key \<notin> S" "witness_key w = key"
    "witness_siblings w = merkle_siblings (set_merkle domain) h (set_content domain S) 384 key"
  shows "SetCommitment_insert h (committed_set h domain S) key w = Inr (committed_set h domain (insert key S))"
proof -
  let ?M = "set_merkle domain" and ?ss = "witness_siblings w" and ?count = "word_of_nat (card S) :: u64"
  have len: "length ?ss = 384" using assms(6) by simp
  have at: "set_content domain S key = empty_set_input domain" using assms(4) by (simp add: set_content_def)
  have "fold_key h domain key (empty_set_leaf h domain) ?ss = set_tree_root h domain S"
    using set_tree.merkle_path_siblings [of 384 domain h key "set_content domain S"]
      set_tree.merkle_root_eq [of domain h "set_content domain S" 0 key] len at assms(6)
    by (simp add: fold_key_eq empty_set_leaf_def)
  moreover have "fold_key h domain key (set_leaf h domain key) ?ss = set_tree_root h domain (insert key S)"
    using set_tree.merkle_path_update [of 384 domain h key "set_content domain S" "set_leaf_input domain key"]
      set_tree.merkle_root_eq [of domain h "set_content domain (insert key S)" 0 key] len assms(6)
    by (simp add: fold_key_eq set_leaf_def set_content_insert del: fun_upd_apply)
  moreover have "checked_add ?count 1 = Some (word_of_nat (card (insert key S)))"
  proof -
    have "Suc (card S) < 2 ^ LENGTH(64)" using assms(2) by simp
    then have "unat ?count = card S" "unat (word_of_nat (Suc (card S)) :: u64) = Suc (card S)"
      by (intro unat_word_of_nat; simp)+
    then show ?thesis unfolding checked_add_eq_Some_unat card_insert_disjoint [OF assms(1,4)] by simp
  qed
  ultimately show ?thesis using assms(3,5) len
    unfolding SetCommitment_insert_def Let_def committed_set_def KEY_BITS_def SetCommitment.simps
    by (simp only: ok_or_simps and_then_simps if_False simp_thms)
qed

section \<open>The reference history\<close>

abbreviation history_spec :: "hash \<Rightarrow> Root list \<Rightarrow> nat \<Rightarrow> u32 \<Rightarrow> Root" where
  "history_spec h hs \<equiv> merkle_subtree history_merkle h (history_content hs)"

definition entries_under :: "Root list \<Rightarrow> nat \<Rightarrow> u32 \<Rightarrow> (usize \<times> Root) list" where
  "entries_under hs n k = filter (\<lambda>(i, _). history_tree.same_subtree n (word_of_nat i) k) (enumerate 0 hs)"

lemma history_empty_hashes_nth:
  "d \<le> 32 \<Longrightarrow> history_empty_hashes h ! d = history_spec h [] (32 - d) k"
proof -
  have "history_empty_hashes_loop h n =
      merkle_empty_hashes history_merkle h (ascii ''ACTIVECHAIN-HISTORY-EMPTY-V1'') n" for n
    by (induction n) (simp_all add: empty_history_leaf_def history_node_def HISTORY_BITS_def Let_def)
  moreover have "history_content [] = (\<lambda>_. ascii ''ACTIVECHAIN-HISTORY-EMPTY-V1'')"
    by (simp add: history_content_def fun_eq_iff)
  moreover assume "d \<le> 32"
  ultimately show ?thesis
    unfolding history_empty_hashes_def HISTORY_BITS_def by (simp only: merkle_empty_hashes_nth)
qed

lemma takeWhile_eq_filter:
  "sorted_wrt (\<lambda>a b. P b \<longrightarrow> P a) xs \<Longrightarrow> takeWhile P xs = filter P xs \<and> dropWhile P xs = filter (\<lambda>x. \<not> P x) xs"
  by (induction xs) (auto simp: filter_empty_conv)

lemma bit_order:
  fixes i j n :: nat
  assumes "i < j" "i div 2 ^ Suc n = j div 2 ^ Suc n" "odd (i div 2 ^ n)"
  shows "odd (j div 2 ^ n)"
proof -
  have "x div 2 ^ Suc n = x div 2 ^ n div 2" for x :: nat
    unfolding power_Suc2 by (rule div_mult2_eq)
  then have "i div 2 ^ n div 2 = j div 2 ^ n div 2" using assms(2) by simp
  moreover have "i div 2 ^ n \<le> j div 2 ^ n" using assms(1) by (simp add: div_le_mono)
  moreover have "a div 2 = b div 2 \<Longrightarrow> a \<le> b \<Longrightarrow> odd a \<Longrightarrow> odd b" for a b :: nat by presburger
  ultimately show ?thesis using assms(3) by blast
qed

lemma index_bit_order:
  assumes "i < j" "j < 2 ^ 32" "n < 32"
    "history_tree.same_subtree (Suc n) (word_of_nat i) (word_of_nat j)"
    "index_bit (word_of_nat i) (31 - n)"
  shows "index_bit (word_of_nat j) (31 - n)"
proof -
  let ?i = "word_of_nat i :: u32" and ?j = "word_of_nat j :: u32"
  have u: "unat ?i = i" "unat ?j = j" using assms(1,2) by (simp_all add: unat_word_of_nat)
  have bits: "bit (word_of_nat m :: u32) n \<longleftrightarrow> odd (m div 2 ^ n)" if "m < 2 ^ 32" for m
    using bit_unsigned_iff [where 'a = nat and w = "word_of_nat m :: u32" and n = n] that
    by (simp add: unat_word_of_nat bit_iff_odd [of m])
  have "bit ?i m = bit ?j m" if "n < m" "m < 32" for m
  proof -
    have "31 - m < 32 - Suc n" using that assms(3) by linarith
    with assms(4) have "index_bit ?i (31 - m) = index_bit ?j (31 - m)"
      by (simp add: history_tree.same_subtree_def)
    with that show ?thesis by (simp add: index_bit_iff)
  qed
  then have "bit ?i m = bit ?j m" if "n < m" for m
    using that by (cases "m < 32") (auto dest: bit_imp_le_length)
  then have "drop_bit (Suc n) ?i = drop_bit (Suc n) ?j"
    by (intro bit_word_eqI) (simp add: bit_drop_bit_eq)
  moreover have "unat (drop_bit m w) = drop_bit m (unat w)" for m and w :: u32
    unfolding unsigned_drop_bit_eq using take_bit_nat_eq_self [OF unat_less_pow [of w]] by simp
  ultimately have "drop_bit (Suc n) (unat ?i) = drop_bit (Suc n) (unat ?j)" by metis
  then have "i div 2 ^ Suc n = j div 2 ^ Suc n" unfolding u drop_bit_eq_div .
  with bit_order [OF assms(1)] assms show ?thesis by (simp add: index_bit_iff bits)
qed

lemma entries_under_put:
  assumes "n < 32"
  shows "entries_under hs n (index_put k (31 - n) b) =
    filter (\<lambda>(i, _). index_bit (word_of_nat i) (31 - n) = b) (entries_under hs (Suc n) k)"
proof -
  have "history_tree.same_subtree n j (index_put k (31 - n) b) \<longleftrightarrow>
      history_tree.same_subtree (Suc n) j k \<and> index_bit j (31 - n) = b" for j
    using history_tree.same_subtree_put [of n k b j] assms
    by (auto simp: history_tree.same_subtree_def)
  then show ?thesis by (auto simp: entries_under_def intro!: filter_cong)
qed

lemma entries_under_top: "entries_under hs 32 k = enumerate 0 hs"
  by (simp add: entries_under_def history_tree.same_subtree_def)

lemma filter_enumerate_index:
  "filter (\<lambda>(i, _). i = m) (enumerate 0 hs) = (if m < length hs then [(m, hs ! m)] else [])"
  by (induction hs rule: rev_induct) (auto simp: enumerate_append_eq nth_append)

lemma entries_under_leaf:
  assumes "length hs \<le> 2 ^ 32"
  shows "entries_under hs 0 k = (if unat k < length hs then [(unat k, hs ! unat k)] else [])"
proof -
  have index: "word_of_nat i = k \<longleftrightarrow> i = unat k" if "i < length hs" for i
    using assms that by (auto simp: unat_word_of_nat)
  have "entries_under hs 0 k = filter (\<lambda>(i, _). i = unat k) (enumerate 0 hs)"
    unfolding entries_under_def
  proof (rule filter_cong [OF refl])
    fix x
    assume "x \<in> set (enumerate 0 hs)"
    then have "fst x < length hs" by (auto simp: in_set_enumerate_eq)
    from index [OF this] show "(case x of (i, _) \<Rightarrow> history_tree.same_subtree 0 (word_of_nat i) k) =
        (case x of (i, _) \<Rightarrow> i = unat k)"
      by (simp add: history_tree.same_subtree_leaf case_prod_unfold)
  qed
  then show ?thesis by (simp add: filter_enumerate_index)
qed

lemma entries_under_sorted:
  assumes "length hs \<le> 2 ^ 32" "n < 32"
  shows "sorted_wrt (\<lambda>a b. \<not> index_bit (word_of_nat (fst b)) (31 - n) \<longrightarrow> \<not> index_bit (word_of_nat (fst a)) (31 - n))
    (entries_under hs (Suc n) k)"
proof -
  have "sorted_wrt (\<lambda>a b. fst a < fst b) (enumerate 0 hs)"
    by (simp add: sorted_wrt_iff_nth_less nth_enumerate_eq)
  then have "sorted_wrt (\<lambda>a b. fst a < fst b) (entries_under hs (Suc n) k)"
    unfolding entries_under_def by (rule sorted_wrt_filter)
  then show ?thesis
  proof (rule sorted_wrt_mono_rel [rotated])
    fix a b
    assume ab: "a \<in> set (entries_under hs (Suc n) k)" "b \<in> set (entries_under hs (Suc n) k)" "fst a < fst b"
    then have "history_tree.same_subtree (Suc n) (word_of_nat (fst a)) (word_of_nat (fst b))" "fst b < 2 ^ 32"
      using assms(1) by (auto simp: entries_under_def history_tree.same_subtree_def in_set_enumerate_eq)
    with index_bit_order [OF ab(3)] assms(2)
    show "\<not> index_bit (word_of_nat (fst b)) (31 - n) \<longrightarrow> \<not> index_bit (word_of_nat (fst a)) (31 - n)"
      by blast
  qed
qed

lemma history_subtree_eq:
  assumes "length hs \<le> 2 ^ 32" "n \<le> 32"
  shows "history_subtree h (entries_under hs n k) (32 - n) (history_empty_hashes h) = history_spec h hs n k"
  using assms(2)
proof (induction n arbitrary: k)
  case 0
  show ?case
    using history_empty_hashes_nth [of 32 h k]
    by (simp add: history_subtree.simps [of _ _ 32] entries_under_leaf [OF assms(1)] HISTORY_BITS_def
        history_leaf_def history_content_def)
next
  case (Suc n)
  let ?E = "entries_under hs (Suc n) k" and ?d = "32 - Suc n"
  have d: "?d = 31 - n" "?d + 1 = 32 - n" "?d < 32" using Suc.prems by simp_all
  show ?case
  proof (cases "?E = []")
    case True
    have "history_content hs j = history_content [] j" if "history_tree.same_subtree (Suc n) k j" for j
    proof (cases "unat j < length hs")
      case True': True
      then have "(unat j, hs ! unat j) \<in> set ?E"
        using that by (auto simp: entries_under_def in_set_enumerate_eq history_tree.same_subtree_def)
      with True show ?thesis by simp
    qed (simp add: history_content_def)
    then have "history_spec h hs (Suc n) k = history_spec h [] (Suc n) k"
      using Suc.prems by (intro history_tree.merkle_subtree_cong) (simp_all add: history_tree.same_subtree_def)
    then show ?thesis using True history_empty_hashes_nth [of ?d h k] Suc.prems
      by (simp add: history_subtree.simps [of h "[]"] del: merkle_subtree.simps)
  next
    case False
    let ?P = "\<lambda>(i, _ :: Root). \<not> index_bit (word_of_nat i) ?d"
    have "takeWhile ?P ?E = filter ?P ?E \<and> dropWhile ?P ?E = filter (\<lambda>x. \<not> ?P x) ?E"
      using entries_under_sorted [OF assms(1), of n k] Suc.prems
      by (intro takeWhile_eq_filter) (simp add: case_prod_beta d(1))
    moreover have "filter ?P ?E = entries_under hs n (index_put k ?d False)"
      "filter (\<lambda>x. \<not> ?P x) ?E = entries_under hs n (index_put k ?d True)"
      using Suc.prems by (simp_all add: entries_under_put d(1) case_prod_unfold)
    ultimately have split: "take (length (takeWhile ?P ?E)) ?E = entries_under hs n (index_put k ?d False)"
      "drop (length (takeWhile ?P ?E)) ?E = entries_under hs n (index_put k ?d True)"
      by (metis takeWhile_eq_take, metis dropWhile_eq_drop)
    have IH: "history_subtree h (entries_under hs n k') (?d + 1) (history_empty_hashes h) = history_spec h hs n k'" for k'
      using Suc.IH [of k'] Suc.prems unfolding d(2) by simp
    show ?thesis
      unfolding history_subtree.simps [of h ?E] Let_def split IH
      using False d(3) by (simp add: HISTORY_BITS_def history_node_def Let_def)
  qed
qed

lemma ReferenceHistory_commitment_eq:
  assumes "length (headers r) \<le> 2 ^ 32"
  shows "ReferenceHistory_commitment h r = committed_history h (headers r)"
  using history_subtree_eq [OF assms, of 32 h 0]
  by (simp add: ReferenceHistory_commitment_def committed_history_def entries_under_top)

lemma history_proof_loop_eq:
  assumes "length hs \<le> 2 ^ 32" "n \<le> height" "height = 32"
  shows "history_proof_loop h index (history_empty_hashes h) [height - n..<height] (entries_under hs n index) =
    merkle_siblings history_merkle h (history_content hs) n index"
  using assms(2)
proof (induction n)
  case (Suc n)
  let ?d = "height - Suc n"
  have d: "?d = 31 - n" "?d + 1 = 32 - n" "?d < 32" "Suc ?d = height - n" using Suc.prems assms(3) by simp_all
  have upt: "[?d..<height] = ?d # [height - n..<height]" using upt_conv_Cons [of ?d height] d assms(3) by simp
  have left: "filter (\<lambda>(i, _). \<not> index_bit (word_of_nat i) ?d) (entries_under hs (Suc n) index) =
      entries_under hs n (index_put index ?d False)"
    and right: "filter (\<lambda>(i, _). index_bit (word_of_nat i) ?d) (entries_under hs (Suc n) index) =
      entries_under hs n (index_put index ?d True)"
    using Suc.prems assms(3) by (simp_all add: entries_under_put d(1) case_prod_unfold)
  have sub: "history_subtree h (entries_under hs n k') (?d + 1) (history_empty_hashes h) = history_spec h hs n k'" for k'
    using history_subtree_eq [OF assms(1), of n h k'] Suc.prems assms(3) unfolding d(2) by simp
  have same: "index_put index ?d (index_bit index ?d) = index"
    using history_tree.put_same [of ?d index] d(3) by simp
  have depth: "32 - Suc n = ?d" using assms(3) by simp
  show ?case
    unfolding upt history_proof_loop.simps Let_def left right sub merkle_siblings.simps merkle_fields depth
    using Suc same by (cases "index_bit index ?d") simp_all
qed simp

lemma history_proof_eq:
  assumes "length hs \<le> 2 ^ 32"
  shows "history_proof h hs index digest = \<lparr>history_index = index, header_digest = digest,
    history_siblings = merkle_siblings history_merkle h (history_content hs) 32 index\<rparr>"
  using history_proof_loop_eq [OF assms, of 32 "HISTORY_BITS" h index]
  unfolding history_proof_def HISTORY_BITS_def entries_under_top by simp

lemma ReferenceHistory_proof_verifies:
  assumes "length (headers r) < 2 ^ 32" "0 \<notin> set (headers r)" "ReferenceHistory_proof h r index = Inr p"
  shows "HistoryCommitment_verify h (ReferenceHistory_commitment h r) p = Inr ()"
proof -
  let ?hs = "headers r"
  have i: "unat index < length ?hs" and p: "p = \<lparr>history_index = index, header_digest = ?hs ! unat index,
      history_siblings = merkle_siblings history_merkle h (history_content ?hs) 32 index\<rparr>"
    using assms(1,3) by (auto simp: ReferenceHistory_proof_def history_proof_eq split: if_splits)
  have "?hs ! unat index \<noteq> 0" using assms(2) i by (metis nth_mem)
  moreover have "\<not> word_of_nat (length ?hs) \<le> index"
    using i assms(1) by (simp add: word_le_nat_alt unat_word_of_nat)
  moreover have "fold_history h index (history_leaf h index (?hs ! unat index)) (history_siblings p) =
      history_tree_root h ?hs"
    using history_tree.merkle_path_siblings [of 32 h index "history_content ?hs"] i
      history_tree.merkle_root_eq [of h "history_content ?hs" 0 index]
    by (simp add: p fold_history_eq history_leaf_def history_content_def [of _ index])
  ultimately show ?thesis using assms(1)
    by (simp add: HistoryCommitment_verify_def ReferenceHistory_commitment_eq committed_history_def
        HISTORY_BITS_def Let_def p)
qed

lemma ReferenceHistory_append_agrees:
  assumes "Suc (length (headers r)) < 2 ^ 32" "ReferenceHistory_append r header = Inr r'"
    "absence_witness h r = Inr w"
  shows "HistoryCommitment_append h (ReferenceHistory_commitment h r) header w = Inr (ReferenceHistory_commitment h r')"
proof -
  let ?hs = "headers r" and ?n = "word_of_nat (length (headers r)) :: u32"
  have header: "header \<noteq> 0" and r': "headers r' = ?hs @ [header]"
    using assms(2) by (auto simp: ReferenceHistory_append_def split: if_splits)
  have w: "w = \<lparr>history_index = ?n, header_digest = 0,
      history_siblings = merkle_siblings history_merkle h (history_content ?hs) 32 ?n\<rparr>"
    using assms(1,3) by (auto simp: absence_witness_def history_proof_eq split: if_splits)
  have n: "unat ?n = length ?hs" using assms(1) by (simp add: unat_word_of_nat)
  have "fold_history h ?n (empty_history_leaf h) (history_siblings w) = history_tree_root h ?hs"
    using history_tree.merkle_path_siblings [of 32 h ?n "history_content ?hs"]
      history_tree.merkle_root_eq [of h "history_content ?hs" 0 ?n] n
    by (simp add: w fold_history_eq empty_history_leaf_def history_content_def [of _ ?n])
  moreover have "fold_history h ?n (history_leaf h ?n header) (history_siblings w) = history_tree_root h (?hs @ [header])"
    using history_tree.merkle_path_update [of 32 h ?n "history_content ?hs" "history_leaf_input ?n header"]
      history_tree.merkle_root_eq [of h "history_content (?hs @ [header])" 0 ?n] assms(1)
    by (simp add: w fold_history_eq history_leaf_def history_content_append del: fun_upd_apply)
  moreover have "checked_add ?n 1 = Some (word_of_nat (length (?hs @ [header])))"
    unfolding checked_add_eq_Some_unat n using assms(1) by (subst unat_word_of_nat) simp_all
  moreover have "ReferenceHistory_commitment h r' = committed_history h (?hs @ [header])"
    using ReferenceHistory_commitment_eq [of r' h] r' assms(1) by simp
  ultimately show ?thesis using header assms(1)
    unfolding HistoryCommitment_append_def Let_def
    by (simp add: ReferenceHistory_commitment_eq committed_history_def HISTORY_BITS_def w del: length_append)
qed

end
