(* ===== verification/Privacy_Correct.thy ===== *)
theory Privacy_Correct
  imports Privacy_State Accumulator_Reference
begin

text \<open>
  What the privacy kernel guarantees: a nullifier is spent at most once, the pool's balance moves
  by exactly the amount of an intent, an attenuated disclosure shows no more than its parent, and
  an admitted statement is the one its proof was verified for.  Nullifiers are bound by the set
  accumulator, so the statements are relative to a set \<open>S\<close> of spent nullifiers that the state
  commits to; the exception is a hash collision between named transcripts.
\<close>

section \<open>Accumulator states that commit to a set\<close>

definition tracks :: "hash \<Rightarrow> AccumulatorDomain \<Rightarrow> Root set \<Rightarrow> SetCommitment \<Rightarrow> bool" where
  "tracks h domain S c \<longleftrightarrow> finite S \<and> card S < 2 ^ 64 \<and> c = committed_set h domain S"

definition insert_clash :: "hash \<Rightarrow> AccumulatorDomain \<Rightarrow> Root set \<Rightarrow> NonMembershipWitness \<Rightarrow> bool" where
  "insert_clash h domain S w \<longleftrightarrow>
     clash h (set_inputs h domain S) (absence_inputs h domain (word_of_nat (card S)) w)"

lemma tracks_empty: "tracks h domain {} (SetCommitment_empty h domain)"
  by (simp add: tracks_def SetCommitment_empty_eq)

lemma insert_count:
  assumes "SetCommitment_insert h c key w = Inr c'"
  shows "unat (set_count c) + 1 < 2 ^ 64"
proof -
  have "checked_add (set_count c) 1 = Some (set_count c')"
    using assms by (auto simp: SetCommitment_insert_def Let_def split: if_splits)
  then have "unat (set_count c) + 1 = unat (set_count c')" by (simp only: checked_add_eq_Some_unat unsigned_1)
  then show ?thesis using unsigned_less [where 'a = nat, of "set_count c'"] by simp
qed

lemma tracks_count: "tracks h domain S c \<Longrightarrow> unat (set_count c) = card S"
  by (simp add: tracks_def committed_set_def unat_word_of_nat)

lemma tracks_insert:
  assumes "tracks h domain S c" "SetCommitment_insert h c key w = Inr c'" "\<not> insert_clash h domain S w"
  shows "key \<noteq> 0 \<and> key \<notin> S \<and> tracks h domain (insert key S) c'"
proof -
  have c: "finite S" "card S < 2 ^ 64" "c = committed_set h domain S"
    using assms(1) unfolding tracks_def by blast+
  have new: "key \<noteq> 0 \<and> key \<notin> S \<and> c' = committed_set h domain (insert key S)"
    using SetCommitment_insert_sound [OF c(1) _ _ c(2)] assms(2,3) unfolding c(3) insert_clash_def by blast
  moreover have "card (insert key S) = unat (set_count c) + 1"
    using new c(1) tracks_count [OF assms(1)] card_insert_disjoint [of S key] by (simp only: Suc_eq_plus1 simp_thms)
  ultimately show ?thesis
    using c(1) insert_count [OF assms(2)] unfolding tracks_def by (simp only: finite_insert simp_thms)
qed

section \<open>Nullifiers\<close>

fun consume_clash :: "hash \<Rightarrow> Root set \<Rightarrow> (Digest384 \<times> NullifierWitness) list \<Rightarrow> bool" where
  "consume_clash h S [] \<longleftrightarrow> False"
| "consume_clash h S ((n, w) # rest) \<longleftrightarrow>
     insert_clash h Nullifier S (accumulator_witness w) \<or> consume_clash h (insert n S) rest"

lemma NullifierSet_commitment_from:
  "set_domain c = Nullifier \<Longrightarrow> NullifierSet_commitment (NullifierSet_from_commitment c) = c"
  by (cases c) (simp add: NullifierSet_commitment_def NullifierSet_from_commitment_def)

lemma NullifierSet_from_commitment_inverse: "NullifierSet_from_commitment (NullifierSet_commitment r) = r"
  by (simp add: NullifierSet_commitment_def NullifierSet_from_commitment_def)

lemma insert_domain: "SetCommitment_insert h c key w = Inr c' \<Longrightarrow> set_domain c' = set_domain c"
  by (auto simp: SetCommitment_insert_def Let_def split: if_splits option.splits)

lemma consume_loop_domain: "consume_loop h c nws = Inr c' \<Longrightarrow> set_domain c' = set_domain c"
  by (induction h c nws rule: consume_loop.induct) (auto split: if_splits dest: insert_domain)

lemma consume_loop_sound:
  assumes "tracks h Nullifier S c" "consume_loop h c nws = Inr c'" "\<not> consume_clash h S nws"
  shows "set (map fst nws) \<inter> S = {} \<and> distinct (map fst nws) \<and> 0 \<notin> set (map fst nws)
    \<and> tracks h Nullifier (S \<union> set (map fst nws)) c'"
  using assms
proof (induction h c nws arbitrary: S rule: consume_loop.induct)
  case (2 h c n w rest)
  obtain c1 where c1: "SetCommitment_insert h c n (accumulator_witness w) = Inr c1" "consume_loop h c1 rest = Inr c'"
    using "2.prems"(2) by (auto split: if_splits)
  have n: "n \<noteq> 0" "n \<notin> S" "tracks h Nullifier (insert n S) c1"
    using tracks_insert [OF "2.prems"(1) c1(1)] "2.prems"(3) by simp_all
  have "nw_nullifier w = n" using "2.prems"(2) by (simp split: if_splits)
  then have "set (map fst rest) \<inter> insert n S = {} \<and> distinct (map fst rest) \<and> 0 \<notin> set (map fst rest)
    \<and> tracks h Nullifier (insert n S \<union> set (map fst rest)) c'"
    using "2.IH" [OF _ n(3)] n(3) c1(2) "2.prems"(3) by simp
  then show ?case using n by auto
qed simp

lemma consume_verified_sound:
  assumes "tracks h Nullifier S (NullifierSet_commitment r)" "consume_verified h r ns ws = Inr r'"
    "\<not> consume_clash h S (zip ns ws)"
  shows "ns \<noteq> [] \<and> distinct ns \<and> set ns \<inter> S = {} \<and> 0 \<notin> set ns
    \<and> tracks h Nullifier (S \<union> set ns) (NullifierSet_commitment r')"
proof -
  obtain c where c: "consume_loop h (NullifierSet_commitment r) (zip ns ws) = Inr c"
      "r' = NullifierSet_from_commitment c" and ns: "ns \<noteq> []" "length ws = length ns"
    using assms(2) by (auto simp: consume_verified_def split: if_splits)
  have "set_domain c = Nullifier"
    using consume_loop_domain [OF c(1)] by (simp add: NullifierSet_commitment_def)
  then show ?thesis
    using consume_loop_sound [OF assms(1) c(1) assms(3)] ns by (simp add: c(2) NullifierSet_commitment_from)
qed

text \<open>Honest witnesses are accepted: the reference set's paths admit fresh, ordered nullifiers.\<close>

fun honest_witnesses :: "hash \<Rightarrow> Root set \<Rightarrow> Digest384 list \<Rightarrow> NullifierWitness list" where
  "honest_witnesses h S [] = []"
| "honest_witnesses h S (n # ns) =
     \<lparr>nw_nullifier = n, nw_siblings = merkle_siblings (set_merkle Nullifier) h (set_content Nullifier S) 384 n\<rparr>
       # honest_witnesses h (insert n S) ns"

lemma length_honest_witnesses: "length (honest_witnesses h S ns) = length ns"
  by (induction h S ns rule: honest_witnesses.induct) simp_all

lemma consume_loop_complete:
  "finite S \<Longrightarrow> card S + length ns < 2 ^ 64 \<Longrightarrow> distinct ns \<Longrightarrow> set ns \<inter> S = {} \<Longrightarrow> 0 \<notin> set ns \<Longrightarrow>
   consume_loop h (committed_set h Nullifier S) (zip ns (honest_witnesses h S ns)) =
     Inr (committed_set h Nullifier (S \<union> set ns))"
proof (induction h S ns rule: honest_witnesses.induct)
  case (2 h S n ns)
  let ?w = "\<lparr>nw_nullifier = n,
    nw_siblings = merkle_siblings (set_merkle Nullifier) h (set_content Nullifier S) 384 n\<rparr>"
  have n: "n \<notin> S" "n \<noteq> 0" using "2.prems"(4,5) by auto
  have card: "card (insert n S) = Suc (card S)" using n(1) "2.prems"(1) by (rule card_insert_disjoint [rotated])
  have "SetCommitment_insert h (committed_set h Nullifier S) n (accumulator_witness ?w) =
      Inr (committed_set h Nullifier (insert n S))"
    using "2.prems"(1,2) n
    by (intro SetCommitment_insert_complete) (simp_all add: accumulator_witness_def)
  moreover have "consume_loop h (committed_set h Nullifier (insert n S))
      (zip ns (honest_witnesses h (insert n S) ns)) = Inr (committed_set h Nullifier (insert n S \<union> set ns))"
    using "2.prems" card by (intro "2.IH") simp_all
  ultimately show ?case by simp
qed simp

lemma consume_verified_complete:
  assumes "tracks h Nullifier S (NullifierSet_commitment r)" "card S + length ns < 2 ^ 64" "ns \<noteq> []"
    "length ns \<le> MAX_SHIELDED_ITEMS" "strictly_sorted ns" "set ns \<inter> S = {}" "0 \<notin> set ns"
  shows "consume_verified h r ns (honest_witnesses h S ns) =
    Inr (NullifierSet_from_commitment (committed_set h Nullifier (S \<union> set ns)))"
proof -
  have "distinct ns" using assms(5) strictly_increasing_by_distinct [of "\<lambda>x. x" ns] by (simp add: strictly_sorted_def)
  then show ?thesis
    using assms consume_loop_complete [of S ns h]
    by (simp add: consume_verified_def tracks_def length_honest_witnesses)
qed

section \<open>The shielded pool\<close>

lemma credit_sound:
  "credit r amount next_anchor = Inr r' \<Longrightarrow>
   unat (pool_balance r') = unat (pool_balance r) + unat amount \<and> amount \<noteq> 0
   \<and> cash_anchor r' = next_anchor \<and> cash_nullifiers r' = cash_nullifiers r"
  by (auto simp: credit_def dest: checked_add_eq_Some_unat [THEN iffD1] split: if_splits)

lemma debit_sound:
  assumes "debit h r amount ns ws next_anchor = Inr r'"
  shows "unat (pool_balance r') + unat amount = unat (pool_balance r)" "amount \<noteq> 0"
    "consume_verified h (cash_nullifiers r) ns ws = Inr (cash_nullifiers r')"
    "cash_anchor r' = (if pool_balance r' = 0 then ZERO else next_anchor)"
proof -
  have "\<not> pool_balance r < amount" using assms by (auto simp: debit_def split: if_splits)
  then have "checked_sub (pool_balance r) amount = Some (pool_balance r - amount)"
    by (simp add: checked_sub_def not_less)
  then have "unat (pool_balance r - amount) + unat amount = unat (pool_balance r)"
    by (rule checked_sub_eq_Some_unat [THEN iffD1])
  moreover have "pool_balance r' = pool_balance r - amount"
    using assms by (auto simp: debit_def Let_def split: if_splits)
  ultimately show "unat (pool_balance r') + unat amount = unat (pool_balance r)" by simp
qed (use assms in \<open>auto simp: debit_def Let_def split: if_splits\<close>)

lemma debit_keeps_new: "debit h r amount ns ws next_anchor = Inr r' \<Longrightarrow> ShieldedCashState_new r' = Inr r'"
  by (auto simp: debit_def Let_def ShieldedCashState_new_def split: if_splits)

lemma credit_keeps_new:
  assumes "credit r amount next_anchor = Inr r'"
  shows "ShieldedCashState_new r' = Inr r'"
proof -
  have "unat (pool_balance r') \<noteq> 0" using credit_sound [OF assms] unat_eq_zero by fastforce
  then have "pool_balance r' \<noteq> 0" by auto
  then show ?thesis by (simp add: ShieldedCashState_new_def)
qed

section \<open>Disclosure and admission\<close>

lemma verify_attenuation_sound:
  assumes "DisclosureCapability_verify_attenuation parent c = Inr ()"
  shows "set (disc_fields c) \<subseteq> set (disc_fields parent)" "disc_viewer c = disc_viewer parent"
    "disc_purpose c = disc_purpose parent" "object_commitment c = object_commitment parent"
    "DisclosureCapability_is_valid_at c height \<Longrightarrow> DisclosureCapability_is_valid_at parent height"
proof -
  have "binary_search field fields \<noteq> None \<Longrightarrow> field \<in> set fields" for field :: u16 and fields
    using binary_search_SomeD nth_mem by force
  moreover have "list_all (\<lambda>field. binary_search field (disc_fields parent) \<noteq> None) (disc_fields c)"
    using assms by (simp add: DisclosureCapability_verify_attenuation_def split: if_splits)
  ultimately show "set (disc_fields c) \<subseteq> set (disc_fields parent)"
    unfolding list_all_iff by blast
next
  assume "DisclosureCapability_is_valid_at c height"
  moreover have "disc_not_before parent \<le> disc_not_before c" "disc_expires_at c \<le> disc_expires_at parent"
    using assms by (simp_all add: DisclosureCapability_verify_attenuation_def not_less split: if_splits)
  ultimately show "DisclosureCapability_is_valid_at parent height"
    unfolding DisclosureCapability_is_valid_at_def by (meson order.trans)
qed (use assms in \<open>simp_all add: DisclosureCapability_verify_attenuation_def split: if_splits\<close>)

end
