(* ===== verification/Cash_Ledger_Correct.thy ===== *)
theory Cash_Ledger_Correct
  imports Cash_Ledger_Cells Privacy_Correct
begin

text \<open>
  Correctness of the ledger operations.  For every operation: what it does to cells, pool and
  supply; that its candidate ledger passes the invariant check whenever the ledger it starts from
  does, so that the check at the end of an operation never fires; and that an operation which
  succeeds leaves the ledger in good order.
\<close>

section \<open>The interface of a checked operation\<close>

text \<open>
  An operation proposes a candidate and keeps it if the check passes.  If candidates of ledgers in
  good order are in good order, the check is redundant.
\<close>

definition no_invariant :: "CashTransitionError + 'a \<Rightarrow> bool" where
  "no_invariant r \<longleftrightarrow> (\<forall>e. r \<noteq> Inl (Invariant e))"

locale checked_operation =
  fixes h :: hash
    and candidate :: "CashLedger \<Rightarrow> 'i \<Rightarrow> CashTransitionError + CashLedger"
    and perform :: "CashLedger \<Rightarrow> 'i \<Rightarrow> CashTransitionError + CashLedger"
    and admissible :: "CashLedger \<Rightarrow> 'i \<Rightarrow> bool"
  assumes perform_def: "perform l i = and_then (candidate l i) (checked h)"
    and candidate_fails: "ledger_ok h l \<Longrightarrow> admissible l i \<Longrightarrow> no_invariant (candidate l i)"
    and candidate_ok: "ledger_ok h l \<Longrightarrow> admissible l i \<Longrightarrow> candidate l i = Inr l' \<Longrightarrow> ledger_ok h l'"
begin

lemma perform_eq: "ledger_ok h l \<Longrightarrow> admissible l i \<Longrightarrow> perform l i = candidate l i"
  using candidate_ok [of l i]
  by (cases "candidate l i") (auto simp: perform_def checked_def ledger_ok_def)

lemma perform_ok: "ledger_ok h l \<Longrightarrow> admissible l i \<Longrightarrow> perform l i = Inr l' \<Longrightarrow> ledger_ok h l'"
  using perform_eq candidate_ok by simp

lemma perform_no_invariant: "ledger_ok h l \<Longrightarrow> admissible l i \<Longrightarrow> no_invariant (perform l i)"
  using perform_eq candidate_fails by simp

end

named_theorems no_invariant_intros

lemma no_invariant_basic [no_invariant_intros]:
  "no_invariant (Inr v)" "no_invariant (Inl (Invalid e))" "no_invariant (Inl (Encoding x))"
  "no_invariant (Inl (Privacy p))" "no_invariant (Inl (Economics c))"
  "no_invariant (map_err Invalid m)" "no_invariant (map_err Encoding k)" "no_invariant (map_err Privacy q)"
  "no_invariant (map_err Economics d)" "no_invariant (map_err (\<lambda>_. Invalid e) g)"
  "no_invariant (ok_or (Invalid e) x')"
  by (auto simp: no_invariant_def map_err_eq_Inl)

lemma no_invariant_and_then [no_invariant_intros]:
  "no_invariant r \<Longrightarrow> (\<And>v. r = Inr v \<Longrightarrow> no_invariant (f v)) \<Longrightarrow> no_invariant (and_then r f)"
  by (cases r) (auto simp: no_invariant_def)

lemma no_invariant_if [no_invariant_intros]:
  "(b \<Longrightarrow> no_invariant x) \<Longrightarrow> (\<not> b \<Longrightarrow> no_invariant y) \<Longrightarrow> no_invariant (if b then x else y)"
  by simp

lemma no_invariant_case_prod [no_invariant_intros]:
  "(\<And>a b. p = (a, b) \<Longrightarrow> no_invariant (f a b)) \<Longrightarrow> no_invariant (case p of (a, b) \<Rightarrow> f a b)"
  by (cases p) simp

lemma no_invariant_origin [no_invariant_intros]: "no_invariant (origin_id h origin)"
  unfolding origin_id_def by (intro no_invariant_intros)

lemma no_invariant_gather [no_invariant_intros]: "no_invariant (gather_inputs l owner ids acc spent)"
  by (induction ids arbitrary: acc spent) (auto intro!: no_invariant_intros)

lemma no_invariant_output [no_invariant_intros]:
  "no_invariant (output_cell h transition_id index owner amount height)"
  unfolding output_cell_def Let_def by (intro no_invariant_intros)

lemma no_invariant_change [no_invariant_intros]:
  "no_invariant (change_cell h transition_id index owner amount height)"
  unfolding change_cell_def by (intro no_invariant_intros)

lemma no_invariant_replace [no_invariant_intros]: "no_invariant (replace_cells cells)"
  unfolding replace_cells_def by (intro no_invariant_intros)

lemma no_invariant_insert [no_invariant_intros]: "no_invariant (insert_new_cell l r)"
  unfolding insert_new_cell_def by (intro no_invariant_intros)

lemma no_invariant_move_fee [no_invariant_intros]: "no_invariant (move_fee_to_reserve l fee)"
  unfolding move_fee_to_reserve_def by (intro no_invariant_intros)

lemma no_invariant_charge_fee [no_invariant_intros]: "no_invariant (charge_fee l fee)"
  unfolding charge_fee_def by (intro no_invariant_intros)

lemma no_invariant_context [no_invariant_intros]:
  "no_invariant (verify_privacy_context h l chain_id asset_id until height)"
  unfolding verify_privacy_context_def ledger_asset_id_def by (intro no_invariant_intros)

lemma no_invariant_privacy_proof [no_invariant_intros]: "no_invariant (verify_privacy_proof h T intent v)"
  unfolding verify_privacy_proof_def by (intro no_invariant_intros)

section \<open>Accounting of the steps\<close>

lemma ledger_okD:
  assumes "ledger_ok h l"
  shows "valid_CoinCellSet (ledger_cells l)" "valid_NativeSupply (ledger_supply l)"
    "ShieldedCashState_new (ledger_shielded l) = Inr (ledger_shielded l)"
    "redeemed_reward_root l \<noteq> ZERO" "identified h (cell_records (ledger_cells l))"
    "ledger_value l = unat (current_total_supply (ledger_supply l))" "within_cap l"
  using assms by (simp_all add: ledger_ok_def verify_invariants_iff)

text \<open>
  One lemma for every operation: cells are exchanged, the other parts are valid, and the values
  balance.
\<close>

lemma exchange_keeps_ok:
  assumes "ledger_ok h l" "exchange h (ledger_cells l) spent outs (ledger_cells l')"
    "valid_NativeSupply (ledger_supply l')" "ShieldedCashState_new (ledger_shielded l') = Inr (ledger_shielded l')"
    "redeemed_reward_root l' = redeemed_reward_root l" "within_cap l'"
    "cells_value outs + unat (pool_balance (ledger_shielded l')) + unat (security_reserve_balance (ledger_supply l'))
        + unat (locked_vesting_supply (ledger_supply l')) + unat (staked_supply (ledger_supply l'))
        + unat (current_total_supply (ledger_supply l)) =
      cells_value spent + unat (pool_balance (ledger_shielded l)) + unat (security_reserve_balance (ledger_supply l))
        + unat (locked_vesting_supply (ledger_supply l)) + unat (staked_supply (ledger_supply l))
        + unat (current_total_supply (ledger_supply l'))"
  shows "ledger_ok h l'"
proof -
  note ok = ledger_okD [OF assms(1)]
  have "identified h (cell_records (ledger_cells l'))"
    using exchange_identified [OF assms(2) ok(5)] .
  moreover have "ledger_value l' = unat (current_total_supply (ledger_supply l'))"
    using exchange_value [OF assms(2)] ok(6) assms(7) unfolding ledger_value_def by linarith
  moreover have "valid_CoinCellSet (ledger_cells l')" using assms(2) by (simp add: exchange_def)
  ultimately show ?thesis using assms(3-6) ok(4) by (simp add: ledger_ok_def verify_invariants_iff)
qed

lemma within_cap_cong:
  "ledger_definition l' = ledger_definition l \<Longrightarrow>
   issuance_window_opening_supply (ledger_supply l') = issuance_window_opening_supply (ledger_supply l) \<Longrightarrow>
   issuance_in_window (ledger_supply l') = issuance_in_window (ledger_supply l) \<Longrightarrow> within_cap l' = within_cap l"
  by (simp add: within_cap_def)

text \<open>What moving a fee leaves unchanged.\<close>

lemma move_fee_frame:
  assumes "move_fee_to_reserve l fee = Inr l'"
  shows "ledger_definition l' = ledger_definition l" "ledger_cells l' = ledger_cells l"
    "ledger_shielded l' = ledger_shielded l" "redeemed_reward_root l' = redeemed_reward_root l"
    "redeemed_reward_count l' = redeemed_reward_count l"
    "locked_vesting_supply (ledger_supply l') = locked_vesting_supply (ledger_supply l)"
    "staked_supply (ledger_supply l') = staked_supply (ledger_supply l)"
    "current_total_supply (ledger_supply l') = current_total_supply (ledger_supply l)"
    "last_settled_epoch (ledger_supply l') = last_settled_epoch (ledger_supply l)"
    "issuance_window (ledger_supply l') = issuance_window (ledger_supply l)"
    "issuance_window_opening_supply (ledger_supply l') = issuance_window_opening_supply (ledger_supply l)"
    "issuance_in_window (ledger_supply l') = issuance_in_window (ledger_supply l)"
    "cumulative_burn (ledger_supply l') = cumulative_burn (ledger_supply l)"
    "cumulative_security_issuance (ledger_supply l') = cumulative_security_issuance (ledger_supply l)"
  using assms by (auto simp: move_fee_to_reserve_def dest!: NativeSupply_new_Inr)

text \<open>Ordered inputs with a separate fee reserve name distinct cells.\<close>

lemma distinct_inputs:
  assumes "strictly_increasing ids" "binary_search reserve ids = None" "map record_id spent = ids"
    "record_id r = reserve"
  shows "distinct (map record_id (spent @ [r]))"
proof -
  have "reserve \<notin> set ids"
    using assms(2) binary_search_is_some_iff [OF assms(1), of reserve] by (simp add: image_ident)
  moreover have "distinct ids" using strictly_increasing_by_distinct [OF assms(1)] by simp
  ultimately show ?thesis using assms(3,4) by (simp only: map_append distinct_append list.map set_simps) auto
qed

section \<open>Transfers\<close>

lemma transfer_effect:
  assumes "transfer_candidate h l t height = Inr l'" "CoinTransfer_new t = Inr t" "valid_CoinCellSet (ledger_cells l)"
  obtains spent recipient change where
    "exchange h (ledger_cells l) spent (recipient # change) (ledger_cells l')"
    "map record_id spent = transfer_inputs t @ [transfer_fee_reserve t]"
    "\<forall>r \<in> set spent. cell_owner (record_cell r) = transfer_sender t"
    "cell_owner (record_cell recipient) = transfer_recipient t" "cell_amount (record_cell recipient) = transfer_amount t"
    "\<forall>r \<in> set change. cell_owner (record_cell r) = transfer_sender t"
    "cells_value spent = unat (transfer_amount t) + unat (transfer_fee t) + cells_value change"
    "move_fee_to_reserve (l\<lparr>ledger_cells := ledger_cells l'\<rparr>) (transfer_fee t) = Inr l'"
proof -
  obtain s qs reserve s' required tid recipient change cells where
    g: "gather_inputs l (transfer_sender t) (transfer_inputs t) 0 [] = Inr (s, qs)"
    and f: "find_cell l (transfer_fee_reserve t) = Some reserve" "cell_owner (record_cell reserve) = transfer_sender t"
    and a: "checked_add s (cell_amount (record_cell reserve)) = Some s'"
      "checked_add (transfer_amount t) (transfer_fee t) = Some required" "\<not> s' < required"
    and o: "output_cell h tid 0 (transfer_recipient t) (transfer_amount t) height = Inr recipient"
      "change_cell h tid 1 (transfer_sender t) (s' - required) height = Inr change"
    and r: "replace_cells (unspent_cells l (qs @ [reserve]) @ [recipient] @ change) = Inr cells"
    and c: "charge_fee (l\<lparr>ledger_cells := cells\<rparr>) (transfer_fee t) = Inr l'"
    using assms(1) by (auto simp: transfer_candidate_def)
  have q: "map record_id qs = transfer_inputs t" "set qs \<subseteq> set (cell_records (ledger_cells l))"
      "\<forall>q \<in> set qs. cell_owner (record_cell q) = transfer_sender t" "unat s = cells_value qs"
    using gather_inputs_sound [OF g] by auto
  have reserve: "reserve \<in> set (cell_records (ledger_cells l))" "record_id reserve = transfer_fee_reserve t"
    using find_cell_SomeD [OF f(1)] by blast+
  have ordered: "strictly_increasing (transfer_inputs t)" "binary_search (transfer_fee_reserve t) (transfer_inputs t) = None"
    using assms(2) by (auto simp: CoinTransfer_new_def split: if_splits)
  note out = output_cell_sound [OF o(1)] and change = change_cell_sound [OF o(2)]
  have "exchange h (ledger_cells l) (qs @ [reserve]) (recipient # change) cells"
    using assms(3) q(2) reserve(1) distinct_inputs [OF ordered q(1) reserve(2)] out change r by (intro exchangeI) auto
  moreover have "ledger_cells l' = cells" using move_fee_frame(2) [OF c [unfolded charge_fee_eq]] by simp
  moreover have "unat (s' - required) = unat s' - unat required" using a(3) by (intro unat_sub) simp
  then have "cells_value (qs @ [reserve]) = unat (transfer_amount t) + unat (transfer_fee t) + cells_value change"
    using a q(4) change(3) by (simp add: checked_add_eq_Some_unat word_less_nat_alt)
  ultimately show thesis
    using that [of "qs @ [reserve]" recipient change] q(1,3) reserve(2) f(2) out(4,5) change(4) c charge_fee_eq by auto
qed

lemma transfer_keeps_ok:
  assumes "ledger_ok h l" "CoinTransfer_new t = Inr t" "transfer_candidate h l t height = Inr l'"
  shows "ledger_ok h l'"
proof -
  note ok = ledger_okD [OF assms(1)]
  obtain spent recipient change where x: "exchange h (ledger_cells l) spent (recipient # change) (ledger_cells l')"
      "cell_amount (record_cell recipient) = transfer_amount t"
      "cells_value spent = unat (transfer_amount t) + unat (transfer_fee t) + cells_value change"
      "move_fee_to_reserve (l\<lparr>ledger_cells := ledger_cells l'\<rparr>) (transfer_fee t) = Inr l'"
    by (rule transfer_effect [OF assms(3,2) ok(1)], rule that)
  note frame = move_fee_frame [OF x(4), simplified] and fee = move_fee_sound(2,5) [OF x(4), simplified]
  show ?thesis
    using assms(1) x(1)
  proof (rule exchange_keeps_ok)
    show "within_cap l'" using ok(7) frame by (simp add: within_cap_def)
  qed (use x(2,3) fee ok(3) frame in simp_all)
qed

interpretation transfer: checked_operation h "\<lambda>l (t, height). transfer_candidate h l t height"
  "\<lambda>l (t, height). apply_transfer h l t height" "\<lambda>_ (t, _). CoinTransfer_new t = Inr t" for h
proof
  fix l i
  show "no_invariant ((\<lambda>(t, height). transfer_candidate h l t height) i)"
    unfolding transfer_candidate_def by (intro no_invariant_intros)
qed (auto simp: apply_transfer_def split: prod.splits intro: transfer_keeps_ok)

section \<open>Sponsored transfers\<close>

lemma sponsored_effect:
  assumes "sponsored_candidate h l sponsor t tid height = Inr l'" "CoinTransfer_new t = Inr t"
    "valid_CoinCellSet (ledger_cells l)"
  obtains spent reserve recipient change refund where
    "exchange h (ledger_cells l) (spent @ [reserve]) (recipient # change @ refund) (ledger_cells l')"
    "map record_id spent = transfer_inputs t" "record_id reserve = transfer_fee_reserve t"
    "\<forall>r \<in> set spent. cell_owner (record_cell r) = transfer_sender t" "cell_owner (record_cell reserve) = sponsor"
    "cell_owner (record_cell recipient) = transfer_recipient t" "cell_amount (record_cell recipient) = transfer_amount t"
    "cells_value spent = unat (transfer_amount t) + cells_value change"
    "cells_value [reserve] = unat (transfer_fee t) + cells_value refund"
    "move_fee_to_reserve (l\<lparr>ledger_cells := ledger_cells l'\<rparr>) (transfer_fee t) = Inr l'"
proof -
  obtain s qs reserve recipient change refund cells where
    g: "gather_inputs l (transfer_sender t) (transfer_inputs t) 0 [] = Inr (s, qs)" "\<not> s < transfer_amount t"
    and f: "find_cell l (transfer_fee_reserve t) = Some reserve" "cell_owner (record_cell reserve) = sponsor"
      "\<not> cell_amount (record_cell reserve) < transfer_fee t"
    and o: "output_cell h tid 0 (transfer_recipient t) (transfer_amount t) height = Inr recipient"
      "change_cell h tid 1 (transfer_sender t) (s - transfer_amount t) height = Inr change"
      "change_cell h tid 2 sponsor (cell_amount (record_cell reserve) - transfer_fee t) height = Inr refund"
    and r: "replace_cells (unspent_cells l (qs @ [reserve]) @ [recipient] @ change @ refund) = Inr cells"
    and c: "charge_fee (l\<lparr>ledger_cells := cells\<rparr>) (transfer_fee t) = Inr l'"
    using assms(1) by (auto simp: sponsored_candidate_def)
  have q: "map record_id qs = transfer_inputs t" "set qs \<subseteq> set (cell_records (ledger_cells l))"
      "\<forall>q \<in> set qs. cell_owner (record_cell q) = transfer_sender t" "unat s = cells_value qs"
    using gather_inputs_sound [OF g(1)] by auto
  have reserve: "reserve \<in> set (cell_records (ledger_cells l))" "record_id reserve = transfer_fee_reserve t"
    using find_cell_SomeD [OF f(1)] by blast+
  have ordered: "strictly_increasing (transfer_inputs t)" "binary_search (transfer_fee_reserve t) (transfer_inputs t) = None"
    using assms(2) by (auto simp: CoinTransfer_new_def split: if_splits)
  note out = output_cell_sound [OF o(1)] and change = change_cell_sound [OF o(2)] and refund = change_cell_sound [OF o(3)]
  have "exchange h (ledger_cells l) (qs @ [reserve]) (recipient # change @ refund) cells"
    using assms(3) q(2) reserve(1) distinct_inputs [OF ordered q(1) reserve(2)] out change refund r
    by (intro exchangeI) auto
  moreover have "ledger_cells l' = cells" using move_fee_frame(2) [OF c [unfolded charge_fee_eq]] by simp
  moreover have "cells_value qs = unat (transfer_amount t) + cells_value change"
    "cells_value [reserve] = unat (transfer_fee t) + cells_value refund"
    using g(2) f(3) q(4) change(3) refund(3) by (simp_all add: unat_sub word_less_nat_alt word_le_nat_alt not_less)
  ultimately show thesis
    using that [of qs reserve recipient change refund] q(1,3) reserve(2) f(2) out(4,5) c charge_fee_eq by auto
qed

lemma sponsored_keeps_ok:
  assumes "ledger_ok h l" "CoinTransfer_new t = Inr t" "sponsored_candidate h l sponsor t tid height = Inr l'"
  shows "ledger_ok h l'"
proof -
  note ok = ledger_okD [OF assms(1)]
  obtain spent reserve recipient change refund where
    x: "exchange h (ledger_cells l) (spent @ [reserve]) (recipient # change @ refund) (ledger_cells l')"
      "cell_amount (record_cell recipient) = transfer_amount t"
      "cells_value spent = unat (transfer_amount t) + cells_value change"
      "cells_value [reserve] = unat (transfer_fee t) + cells_value refund"
      "move_fee_to_reserve (l\<lparr>ledger_cells := ledger_cells l'\<rparr>) (transfer_fee t) = Inr l'"
    by (rule sponsored_effect [OF assms(3,2) ok(1)], rule that)
  note frame = move_fee_frame [OF x(5), simplified] and fee = move_fee_sound(2,5) [OF x(5), simplified]
  show ?thesis
    using assms(1) x(1)
  proof (rule exchange_keeps_ok)
    show "within_cap l'" using ok(7) frame by (simp add: within_cap_def)
  qed (use x(2-4) fee ok(3) frame in simp_all)
qed

interpretation sponsored: checked_operation h "\<lambda>l (sponsor, t, tid, height). sponsored_candidate h l sponsor t tid height"
  "\<lambda>l (sponsor, t, tid, height). apply_sponsored_inner h l sponsor t tid height"
  "\<lambda>_ (_, t, _, _). CoinTransfer_new t = Inr t" for h
proof
  fix l i
  show "no_invariant ((\<lambda>(sponsor, t, tid, height). sponsored_candidate h l sponsor t tid height) i)"
    unfolding sponsored_candidate_def by (intro no_invariant_intros)
qed (auto simp: apply_sponsored_inner_def split: prod.splits intro: sponsored_keeps_ok)

section \<open>Burns\<close>

lemma burn_effect:
  assumes "burn_candidate h l b height = Inr l'" "CoinBurnTransition_new b = Inr b" "valid_CoinCellSet (ledger_cells l)"
  obtains spent change where
    "exchange h (ledger_cells l) spent change (ledger_cells l')" "map record_id spent = burn_inputs b"
    "\<forall>r \<in> set spent. cell_owner (record_cell r) = burn_owner b"
    "\<forall>r \<in> set change. cell_owner (record_cell r) = burn_owner b"
    "cells_value spent = unat (burn_amount b) + cells_value change"
    "l' = l\<lparr>ledger_cells := ledger_cells l', ledger_supply := ledger_supply l'\<rparr>" "valid_NativeSupply (ledger_supply l')"
    "ledger_supply l' = (ledger_supply l)\<lparr>cumulative_burn := cumulative_burn (ledger_supply l'),
       current_total_supply := current_total_supply (ledger_supply l'),
       circulating_supply := circulating_supply (ledger_supply l')\<rparr>"
    "unat (current_total_supply (ledger_supply l')) + unat (burn_amount b) = unat (current_total_supply (ledger_supply l))"
    "unat (cumulative_burn (ledger_supply l')) = unat (cumulative_burn (ledger_supply l)) + unat (burn_amount b)"
proof -
  obtain s qs tid change cells burned current circulating where
    g: "gather_inputs l (burn_owner b) (burn_inputs b) 0 [] = Inr (s, qs)" "\<not> s < burn_amount b"
    and o: "change_cell h tid 0 (burn_owner b) (s - burn_amount b) height = Inr change"
    and r: "replace_cells (unspent_cells l qs @ change) = Inr cells"
    and a: "checked_add (cumulative_burn (ledger_supply l)) (burn_amount b) = Some burned"
      "checked_sub (current_total_supply (ledger_supply l)) (burn_amount b) = Some current"
    and n: "NativeSupply_new ((ledger_supply l)\<lparr>cumulative_burn := burned, current_total_supply := current,
        circulating_supply := circulating\<rparr>) = Inr (ledger_supply l')"
      "l' = l\<lparr>ledger_cells := cells, ledger_supply := ledger_supply l'\<rparr>"
    using assms(1) by (auto simp: burn_candidate_def)
  have q: "map record_id qs = burn_inputs b" "set qs \<subseteq> set (cell_records (ledger_cells l))"
      "\<forall>q \<in> set qs. cell_owner (record_cell q) = burn_owner b" "unat s = cells_value qs"
    using gather_inputs_sound [OF g(1)] by auto
  have "distinct (burn_inputs b)"
    using assms(2) strictly_increasing_by_distinct [of "\<lambda>x. x" "burn_inputs b"]
    by (auto simp: CoinBurnTransition_new_def split: if_splits)
  note change = change_cell_sound [OF o]
  have cells: "ledger_cells l' = cells" by (subst n(2)) simp
  have "exchange h (ledger_cells l) qs change (ledger_cells l')"
    using assms(3) q(1,2) \<open>distinct (burn_inputs b)\<close> change r cells by (intro exchangeI) simp_all
  moreover have "cells_value qs = unat (burn_amount b) + cells_value change"
    using g(2) q(4) change(3) by (simp add: unat_sub word_less_nat_alt word_le_nat_alt not_less)
  moreover note supply_state = NativeSupply_new_Inr [OF n(1)]
  ultimately show thesis
    using that [of qs change] q(1,3) change(4) a n(2) cells
    by (simp add: checked_add_eq_Some_unat checked_sub_eq_Some_unat)
qed

lemma burn_keeps_ok:
  assumes "ledger_ok h l" "CoinBurnTransition_new b = Inr b" "burn_candidate h l b height = Inr l'"
  shows "ledger_ok h l'"
proof -
  note ok = ledger_okD [OF assms(1)]
  obtain spent change where x: "exchange h (ledger_cells l) spent change (ledger_cells l')"
      "cells_value spent = unat (burn_amount b) + cells_value change"
      "l' = l\<lparr>ledger_cells := ledger_cells l', ledger_supply := ledger_supply l'\<rparr>" "valid_NativeSupply (ledger_supply l')"
      "ledger_supply l' = (ledger_supply l)\<lparr>cumulative_burn := cumulative_burn (ledger_supply l'),
         current_total_supply := current_total_supply (ledger_supply l'),
         circulating_supply := circulating_supply (ledger_supply l')\<rparr>"
      "unat (current_total_supply (ledger_supply l')) + unat (burn_amount b) = unat (current_total_supply (ledger_supply l))"
    by (rule burn_effect [OF assms(3,2) ok(1)], rule that)
  have same: "ledger_definition l' = ledger_definition l" "ledger_shielded l' = ledger_shielded l"
      "redeemed_reward_root l' = redeemed_reward_root l" by (subst x(3), simp)+
  have supply_same: "security_reserve_balance (ledger_supply l') = security_reserve_balance (ledger_supply l)"
      "locked_vesting_supply (ledger_supply l') = locked_vesting_supply (ledger_supply l)"
      "staked_supply (ledger_supply l') = staked_supply (ledger_supply l)"
      "issuance_window_opening_supply (ledger_supply l') = issuance_window_opening_supply (ledger_supply l)"
      "issuance_in_window (ledger_supply l') = issuance_in_window (ledger_supply l)" by (subst x(5), simp)+
  show ?thesis
    using assms(1) x(1)
  proof (rule exchange_keeps_ok)
    show "within_cap l'" using ok(7) same supply_same by (simp add: within_cap_def)
  qed (use x(2,4,6) ok(3) same supply_same in simp_all)
qed

interpretation burn: checked_operation h "\<lambda>l (b, height). burn_candidate h l b height"
  "\<lambda>l (b, height). apply_burn h l b height" "\<lambda>_ (b, _). CoinBurnTransition_new b = Inr b" for h
proof
  fix l i
  show "no_invariant ((\<lambda>(b, height). burn_candidate h l b height) i)"
    unfolding burn_candidate_def by (intro no_invariant_intros)
qed (auto simp: apply_burn_def split: prod.splits intro: burn_keeps_ok)

end
