(* ===== verification/Cash_Ledger_Economy.thy ===== *)
theory Cash_Ledger_Economy
  imports Cash_Ledger_Correct
begin

text \<open>
  The operations that change the supply or cross the boundary of the shielded pool: mints, epoch
  settlements, shielding, unshielding and reward redemption, and the ledger at genesis.
\<close>

section \<open>Epoch settlement\<close>

lemma no_invariant_ok_or: "x \<noteq> None \<Longrightarrow> no_invariant (ok_or e x)"
  by (cases x) (simp_all add: no_invariant_def)

text \<open>The remaining capacity of a window is defined: what was issued in it is within its cap.\<close>

lemma window_capacity:
  assumes "ledger_ok h l" "window_terms (ledger_supply l) next_window = (opened, issued)"
    "map_err Invalid (basis_points_amount opened (maximum_ordinary_annual_issuance_bps (ledger_definition l))) = Inr cap"
  shows "checked_sub cap issued \<noteq> None"
proof -
  have "issued \<le> cap"
    using assms(2,3) ledger_okD(7) [OF assms(1)] by (auto simp: window_terms_def within_cap_def split: if_splits)
  then show ?thesis by (simp add: checked_sub_def)
qed

lemma settlement_effect:
  assumes "settlement_candidate l s = Inr l'"
  obtains window opened issued cap where
    "unat (settlement_epoch s) = unat (last_settled_epoch (ledger_supply l)) + 1"
    "issuance_window_index (settlement_epoch s) = Inr window"
    "window_terms (ledger_supply l) window = (opened, issued)"
    "basis_points_amount opened (maximum_ordinary_annual_issuance_bps (ledger_definition l)) = Inr cap" "issued \<le> cap"
    "valid_NativeSupply (ledger_supply l')"
    "l' = l\<lparr>ledger_supply := (ledger_supply l)\<lparr>last_settled_epoch := settlement_epoch s, issuance_window := window,
       issuance_window_opening_supply := opened, issuance_in_window := issued\<rparr>\<rparr>"
proof -
  obtain window where w: "issuance_window_index (settlement_epoch s) = Inr window"
    using assms by (auto simp: settlement_candidate_def)
  obtain opened issued where t: "window_terms (ledger_supply l) window = (opened, issued)" by fastforce
  obtain epoch cap remaining supply_state where
    "checked_add (last_settled_epoch (ledger_supply l)) 1 = Some epoch" "settlement_epoch s = epoch"
    "basis_points_amount opened (maximum_ordinary_annual_issuance_bps (ledger_definition l)) = Inr cap"
    "checked_sub cap issued = Some remaining"
    "NativeSupply_new ((ledger_supply l)\<lparr>last_settled_epoch := settlement_epoch s, issuance_window := window,
       issuance_window_opening_supply := opened, issuance_in_window := issued\<rparr>) = Inr supply_state"
    "l' = l\<lparr>ledger_supply := supply_state\<rparr>"
    using assms w t by (auto simp: settlement_candidate_def)
  then show thesis
    using that [of window opened issued cap] w t
    by (auto simp: checked_add_eq_Some_unat checked_sub_def dest!: NativeSupply_new_Inr split: if_splits)
qed

lemma settlement_keeps_ok:
  assumes "ledger_ok h l" "settlement_candidate l s = Inr l'"
  shows "ledger_ok h l'"
proof -
  obtain window opened issued cap where
    cap: "basis_points_amount opened (maximum_ordinary_annual_issuance_bps (ledger_definition l)) = Inr cap" "issued \<le> cap"
    and v: "valid_NativeSupply (ledger_supply l')"
    and l': "l' = l\<lparr>ledger_supply := (ledger_supply l)\<lparr>last_settled_epoch := settlement_epoch s, issuance_window := window,
       issuance_window_opening_supply := opened, issuance_in_window := issued\<rparr>\<rparr>"
    by (rule settlement_effect [OF assms(2)], rule that)
  have "within_cap l'" using cap by (simp add: l' within_cap_def)
  then show ?thesis
    using ledger_okD [OF assms(1)] v
    by (simp add: l' ledger_ok_def verify_invariants_iff ledger_value_def)
qed

interpretation settlement: checked_operation h settlement_candidate "apply_zero_issuance_settlement h"
  "\<lambda>_ _. True" for h
proof
  fix l s
  assume ok: "ledger_ok h l"
  show "no_invariant (settlement_candidate l s)"
    unfolding settlement_candidate_def Let_def
    by (intro no_invariant_intros no_invariant_ok_or window_capacity [OF ok])
qed (auto simp: apply_zero_issuance_settlement_def intro: settlement_keeps_ok)

section \<open>Mints\<close>

lemma mint_effect:
  assumes "mint_candidate h l m s = Inr (l', cell_id)" "EpochEconomicsTransition_new s = Inr s"
    "valid_CoinCellSet (ledger_cells l)"
  obtains minted window opened issued cap where
    "exchange h (ledger_cells l) [] [minted] (ledger_cells l')" "record_id minted = cell_id"
    "cell_owner (record_cell minted) = mint_recipient m" "cell_amount (record_cell minted) = mint_amount m"
    "unat (mint_sequence m) = unat (last_settled_epoch (ledger_supply l)) + 1"
    "issuance_window_index (mint_sequence m) = Inr window"
    "window_terms (ledger_supply l) window = (opened, issued)"
    "basis_points_amount opened (maximum_ordinary_annual_issuance_bps (ledger_definition l)) = Inr cap"
    "unat (issuance_in_window (ledger_supply l')) = unat issued + unat (mint_amount m)"
    "issuance_in_window (ledger_supply l') \<le> cap"
    "unat (current_total_supply (ledger_supply l')) = unat (current_total_supply (ledger_supply l)) + unat (mint_amount m)"
    "valid_NativeSupply (ledger_supply l')"
    "l' = l\<lparr>ledger_cells := ledger_cells l', ledger_supply := ledger_supply l'\<rparr>"
    "ledger_supply l' = (ledger_supply l)
       \<lparr>cumulative_security_issuance := cumulative_security_issuance (ledger_supply l'),
         current_total_supply := current_total_supply (ledger_supply l'),
         circulating_supply := circulating_supply (ledger_supply l'), last_settled_epoch := mint_sequence m,
         issuance_window := window, issuance_window_opening_supply := opened,
         issuance_in_window := issuance_in_window (ledger_supply l')\<rparr>"
proof -
  obtain window where w1: "issuance_window_index (mint_sequence m) = Inr window"
    using assms(1) by (auto simp: mint_candidate_def)
  obtain opened issued where w2: "window_terms (ledger_supply l) window = (opened, issued)" by fastforce
  obtain epoch cap remaining tid minted l1 issuance in_window circulating where
    e: "checked_add (last_settled_epoch (ledger_supply l)) 1 = Some epoch" "mint_sequence m = epoch"
    and w: "basis_points_amount opened (maximum_ordinary_annual_issuance_bps (ledger_definition l)) = Inr cap"
      "checked_sub cap issued = Some remaining" "\<not> remaining < mint_amount m"
    and st: "settlement_pre_supply s = current_total_supply (ledger_supply l)" "burned_amount s = 0"
      "settlement_issuance s = mint_amount m"
    and o: "output_cell h tid 0 (mint_recipient m) (mint_amount m) (mint_height m) = Inr minted"
      "insert_new_cell l minted = Inr l1" "record_id minted = cell_id"
    and a: "checked_add issued (mint_amount m) = Some in_window"
    and n: "NativeSupply_new ((ledger_supply l1)\<lparr>cumulative_security_issuance := issuance,
        current_total_supply := settlement_post_supply s, circulating_supply := circulating,
        last_settled_epoch := mint_sequence m, issuance_window := window,
        issuance_window_opening_supply := opened, issuance_in_window := in_window\<rparr>) = Inr (ledger_supply l')"
      "l' = l1\<lparr>ledger_supply := ledger_supply l'\<rparr>"
    using assms(1) w1 w2 by (auto simp: mint_candidate_def)
  note out = output_cell_sound [OF o(1)]
  note ins = insert_new_cell_exchange [OF o(2) assms(3) out(1,2)]
  have same: "ledger_supply l1 = ledger_supply l" "ledger_cells l' = ledger_cells l1"
    by (subst ins(2), simp) (subst n(2), simp)
  have l': "l' = l\<lparr>ledger_cells := ledger_cells l', ledger_supply := ledger_supply l'\<rparr>"
    by (subst n(2), subst ins(2), simp add: same(2))
  have "post_supply (settlement_pre_supply s) (settlement_issuance s) (burned_amount s) = Some (settlement_post_supply s)"
    using assms(2) by (auto simp: EpochEconomicsTransition_new_def split: if_splits)
  then have "unat (settlement_post_supply s) = unat (current_total_supply (ledger_supply l)) + unat (mint_amount m)"
    using st by (simp add: post_supply_eq_Some)
  moreover have "unat in_window = unat issued + unat (mint_amount m)" "in_window \<le> cap"
    using a w(2,3) by (simp_all add: checked_add_eq_Some_unat checked_sub_eq_Some_unat word_le_nat_alt word_less_nat_alt)
  moreover have "unat (mint_sequence m) = unat (last_settled_epoch (ledger_supply l)) + 1"
    using e by (simp add: checked_add_eq_Some_unat)
  moreover note supply_state = NativeSupply_new_Inr [OF n(1) [unfolded same(1)]]
  ultimately show thesis
    using that [of minted window opened issued cap] ins(1) o(3) out(4,5) w1 w2 w(1) l' same(2) by simp
qed

lemma mint_keeps_ok:
  assumes "ledger_ok h l" "EpochEconomicsTransition_new s = Inr s" "mint_candidate h l m s = Inr (l', cell_id)"
  shows "ledger_ok h l'"
proof -
  note ok = ledger_okD [OF assms(1)]
  obtain minted window opened issued cap where x: "exchange h (ledger_cells l) [] [minted] (ledger_cells l')"
      "cell_amount (record_cell minted) = mint_amount m"
      "basis_points_amount opened (maximum_ordinary_annual_issuance_bps (ledger_definition l)) = Inr cap"
      "issuance_in_window (ledger_supply l') \<le> cap"
      "unat (current_total_supply (ledger_supply l')) = unat (current_total_supply (ledger_supply l)) + unat (mint_amount m)"
      "valid_NativeSupply (ledger_supply l')"
      "l' = l\<lparr>ledger_cells := ledger_cells l', ledger_supply := ledger_supply l'\<rparr>"
      "ledger_supply l' = (ledger_supply l)
         \<lparr>cumulative_security_issuance := cumulative_security_issuance (ledger_supply l'),
           current_total_supply := current_total_supply (ledger_supply l'),
           circulating_supply := circulating_supply (ledger_supply l'), last_settled_epoch := mint_sequence m,
           issuance_window := window, issuance_window_opening_supply := opened,
           issuance_in_window := issuance_in_window (ledger_supply l')\<rparr>"
    by (rule mint_effect [OF assms(3,2) ok(1)], rule that)
  have same: "ledger_definition l' = ledger_definition l" "ledger_shielded l' = ledger_shielded l"
      "redeemed_reward_root l' = redeemed_reward_root l" by (subst x(7), simp)+
  have supply_same: "security_reserve_balance (ledger_supply l') = security_reserve_balance (ledger_supply l)"
      "locked_vesting_supply (ledger_supply l') = locked_vesting_supply (ledger_supply l)"
      "staked_supply (ledger_supply l') = staked_supply (ledger_supply l)"
      "issuance_window_opening_supply (ledger_supply l') = opened" by (subst x(8), simp)+
  show ?thesis
    using assms(1) x(1)
  proof (rule exchange_keeps_ok)
    show "within_cap l'" using x(3,4) same supply_same by (simp add: within_cap_def)
  qed (use x(2,5,6) ok(3) same supply_same in simp_all)
qed

text \<open>The ledger part of an operation that also returns an identifier.\<close>

definition ledger_of :: "'e + (CashLedger \<times> 'o) \<Rightarrow> 'e + CashLedger" where
  "ledger_of r = and_then r (\<lambda>(l, _). Inr l)"

lemma ledger_of_eq_Inr: "ledger_of r = Inr l \<longleftrightarrow> (\<exists>output. r = Inr (l, output))"
  by (cases r) (auto simp: ledger_of_def split: prod.splits)

lemma ledger_of_checked: "ledger_of (and_then r (checked_output h)) = and_then (ledger_of r) (checked h)"
  by (cases r) (auto simp: ledger_of_def checked_def checked_output_def and_then_assoc split: prod.splits)

lemma no_invariant_ledger_of: "no_invariant r \<Longrightarrow> no_invariant (ledger_of r)"
  unfolding ledger_of_def by (intro no_invariant_intros)

interpretation mint: checked_operation h "\<lambda>l (m, s). ledger_of (mint_candidate h l m s)"
  "\<lambda>l (m, s). ledger_of (apply_mint h l m s)" "\<lambda>_ (_, s). EpochEconomicsTransition_new s = Inr s" for h
proof
  fix l i
  assume ok: "ledger_ok h l"
  show "no_invariant ((\<lambda>(m, s). ledger_of (mint_candidate h l m s)) i)"
    unfolding mint_candidate_def Let_def
    by (intro no_invariant_intros no_invariant_ledger_of no_invariant_ok_or window_capacity [OF ok])
qed (auto simp: apply_mint_def ledger_of_checked ledger_of_eq_Inr split: prod.splits intro: mint_keeps_ok)

section \<open>The boundary of the shielded pool\<close>

lemma shield_effect:
  assumes "shield_candidate h l i v height = Inr l'" "ShieldIntent_new i = Inr i" "valid_CoinCellSet (ledger_cells l)"
  obtains spent change where
    "exchange h (ledger_cells l) spent change (ledger_cells l')"
    "map record_id spent = shield_inputs i @ [shield_fee_reserve i]"
    "\<forall>r \<in> set spent. cell_owner (record_cell r) = shield_owner i"
    "\<forall>r \<in> set change. cell_owner (record_cell r) = shield_owner i"
    "cells_value spent = unat (shield_amount i) + unat (shield_fee i) + cells_value change"
    "credit (ledger_shielded l) (shield_amount i) (public_inputs_commitment v) = Inr (ledger_shielded l')"
    "move_fee_to_reserve (l\<lparr>ledger_cells := ledger_cells l', ledger_shielded := ledger_shielded l'\<rparr>) (shield_fee i) = Inr l'"
proof -
  obtain s qs reserve s' required tid change cells shielded where
    g: "gather_inputs l (shield_owner i) (shield_inputs i) 0 [] = Inr (s, qs)"
    and f: "find_cell l (shield_fee_reserve i) = Some reserve" "cell_owner (record_cell reserve) = shield_owner i"
    and a: "checked_add s (cell_amount (record_cell reserve)) = Some s'"
      "checked_add (shield_amount i) (shield_fee i) = Some required" "\<not> s' < required"
    and o: "change_cell h tid 0 (shield_owner i) (s' - required) height = Inr change"
    and r: "replace_cells (unspent_cells l (qs @ [reserve]) @ change) = Inr cells"
    and c: "credit (ledger_shielded l) (shield_amount i) (public_inputs_commitment v) = Inr shielded"
      "move_fee_to_reserve (l\<lparr>ledger_cells := cells, ledger_shielded := shielded\<rparr>) (shield_fee i) = Inr l'"
    using assms(1) by (auto simp: shield_candidate_def verify_privacy_proof_def)
  have q: "map record_id qs = shield_inputs i" "set qs \<subseteq> set (cell_records (ledger_cells l))"
      "\<forall>q \<in> set qs. cell_owner (record_cell q) = shield_owner i" "unat s = cells_value qs"
    using gather_inputs_sound [OF g] by auto
  have reserve: "reserve \<in> set (cell_records (ledger_cells l))" "record_id reserve = shield_fee_reserve i"
    using find_cell_SomeD [OF f(1)] by blast+
  have ordered: "strictly_increasing (shield_inputs i)" "binary_search (shield_fee_reserve i) (shield_inputs i) = None"
    using assms(2) by (auto simp: ShieldIntent_new_def split: if_splits)
  note change = change_cell_sound [OF o]
  have "exchange h (ledger_cells l) (qs @ [reserve]) change cells"
    using assms(3) q(2) reserve(1) distinct_inputs [OF ordered q(1) reserve(2)] change r by (intro exchangeI) auto
  moreover have "ledger_cells l' = cells" "ledger_shielded l' = shielded" using move_fee_frame(2,3) [OF c(2)] by simp_all
  moreover have "unat (s' - required) = unat s' - unat required" using a(3) by (intro unat_sub) simp
  then have "cells_value (qs @ [reserve]) = unat (shield_amount i) + unat (shield_fee i) + cells_value change"
    using a q(4) change(3) by (simp add: checked_add_eq_Some_unat word_less_nat_alt)
  ultimately show thesis
    using that [of "qs @ [reserve]" change] q(1,3) reserve(2) f(2) change(4) c by auto
qed

lemma shield_keeps_ok:
  assumes "ledger_ok h l" "ShieldIntent_new i = Inr i" "shield_candidate h l i v height = Inr l'"
  shows "ledger_ok h l'"
proof -
  note ok = ledger_okD [OF assms(1)]
  obtain spent change where x: "exchange h (ledger_cells l) spent change (ledger_cells l')"
      "cells_value spent = unat (shield_amount i) + unat (shield_fee i) + cells_value change"
      "credit (ledger_shielded l) (shield_amount i) (public_inputs_commitment v) = Inr (ledger_shielded l')"
      "move_fee_to_reserve (l\<lparr>ledger_cells := ledger_cells l', ledger_shielded := ledger_shielded l'\<rparr>) (shield_fee i) = Inr l'"
    by (rule shield_effect [OF assms(3,2) ok(1)], rule that)
  note frame = move_fee_frame [OF x(4), simplified] and fee = move_fee_sound(2,5) [OF x(4), simplified]
  show ?thesis
    using assms(1) x(1)
  proof (rule exchange_keeps_ok)
    show "within_cap l'" using ok(7) frame by (simp add: within_cap_def)
  qed (use x(2) credit_sound [OF x(3)] credit_keeps_new [OF x(3)] fee frame in simp_all)
qed

interpretation shield: checked_operation h "\<lambda>l (i, v, height). shield_candidate h l i v height"
  "\<lambda>l (i, v, height). apply_shield h l i v height" "\<lambda>_ (i, _, _). ShieldIntent_new i = Inr i" for h
proof
  fix l i
  show "no_invariant ((\<lambda>(i, v, height). shield_candidate h l i v height) i)"
    unfolding shield_candidate_def by (intro no_invariant_intros)
qed (auto simp: apply_shield_def split: prod.splits intro: shield_keeps_ok)

lemma unshield_effect:
  assumes "unshield_candidate h l i v height = Inr (l', cell_id)" "valid_CoinCellSet (ledger_cells l)"
  obtains out debited where
    "exchange h (ledger_cells l) [] [out] (ledger_cells l')" "record_id out = cell_id"
    "cell_owner (record_cell out) = unshield_recipient i" "cell_amount (record_cell out) = unshield_amount i"
    "unat debited = unat (unshield_amount i) + unat (unshield_fee i)"
    "debit h (ledger_shielded l) debited (unshield_nullifiers i) (nullifier_witnesses i)
       (public_inputs_commitment v) = Inr (ledger_shielded l')"
    "move_fee_to_reserve (l\<lparr>ledger_cells := ledger_cells l', ledger_shielded := ledger_shielded l'\<rparr>) (unshield_fee i) = Inr l'"
proof -
  obtain debited shielded tid out l1 where
    a: "checked_add (unshield_amount i) (unshield_fee i) = Some debited"
    and d: "debit h (ledger_shielded l) debited (unshield_nullifiers i) (nullifier_witnesses i)
        (public_inputs_commitment v) = Inr shielded"
    and o: "output_cell h tid 0 (unshield_recipient i) (unshield_amount i) height = Inr out"
      "insert_new_cell (l\<lparr>ledger_shielded := shielded\<rparr>) out = Inr l1" "record_id out = cell_id"
    and m: "move_fee_to_reserve l1 (unshield_fee i) = Inr l'"
    using assms(1) by (auto simp: unshield_candidate_def verify_privacy_proof_def)
  note out = output_cell_sound [OF o(1)]
  have cells: "valid_CoinCellSet (ledger_cells (l\<lparr>ledger_shielded := shielded\<rparr>))" using assms(2) by simp
  note ins = insert_new_cell_exchange [OF o(2) cells out(1,2)]
  have frame: "ledger_cells l' = ledger_cells l1" "ledger_shielded l' = ledger_shielded l1"
    using move_fee_frame(2,3) [OF m] by simp_all
  have shielded: "ledger_shielded l1 = shielded" by (subst ins(2)) simp
  have l1: "l1 = l\<lparr>ledger_cells := ledger_cells l', ledger_shielded := ledger_shielded l'\<rparr>"
    unfolding frame shielded by (subst ins(2)) simp
  show thesis
  proof (rule that)
    show "exchange h (ledger_cells l) [] [out] (ledger_cells l')" using ins(1) frame(1) by simp
    show "unat debited = unat (unshield_amount i) + unat (unshield_fee i)"
      using a by (simp add: checked_add_eq_Some_unat)
    show "debit h (ledger_shielded l) debited (unshield_nullifiers i) (nullifier_witnesses i)
       (public_inputs_commitment v) = Inr (ledger_shielded l')" using d frame(2) shielded by simp
    show "move_fee_to_reserve (l\<lparr>ledger_cells := ledger_cells l', ledger_shielded := ledger_shielded l'\<rparr>)
       (unshield_fee i) = Inr l'" using m unfolding l1 [symmetric] .
  qed (use o(3) out(4,5) in simp_all)
qed

lemma unshield_keeps_ok:
  assumes "ledger_ok h l" "unshield_candidate h l i v height = Inr (l', cell_id)"
  shows "ledger_ok h l'"
proof -
  note ok = ledger_okD [OF assms(1)]
  obtain out debited where x: "exchange h (ledger_cells l) [] [out] (ledger_cells l')"
      "cell_amount (record_cell out) = unshield_amount i"
      "unat debited = unat (unshield_amount i) + unat (unshield_fee i)"
      "debit h (ledger_shielded l) debited (unshield_nullifiers i) (nullifier_witnesses i)
         (public_inputs_commitment v) = Inr (ledger_shielded l')"
      "move_fee_to_reserve (l\<lparr>ledger_cells := ledger_cells l', ledger_shielded := ledger_shielded l'\<rparr>) (unshield_fee i) = Inr l'"
    by (rule unshield_effect [OF assms(2) ok(1)], rule that)
  note frame = move_fee_frame [OF x(5), simplified] and fee = move_fee_sound(2,5) [OF x(5), simplified]
  show ?thesis
    using assms(1) x(1)
  proof (rule exchange_keeps_ok)
    show "within_cap l'" using ok(7) frame by (simp add: within_cap_def)
  qed (use x(2,3) debit_sound(1) [OF x(4)] debit_keeps_new [OF x(4)] fee frame in simp_all)
qed

interpretation unshield: checked_operation h "\<lambda>l (i, v, height). ledger_of (unshield_candidate h l i v height)"
  "\<lambda>l (i, v, height). ledger_of (apply_unshield h l i v height)" "\<lambda>_ _. True" for h
proof
  fix l i
  show "no_invariant ((\<lambda>(i, v, height). ledger_of (unshield_candidate h l i v height)) i)"
    unfolding unshield_candidate_def by (intro no_invariant_intros no_invariant_ledger_of)
qed (auto simp: apply_unshield_def ledger_of_checked ledger_of_eq_Inr split: prod.splits intro: unshield_keeps_ok)

section \<open>Reward redemption\<close>

definition reward_transfer :: "RewardSettlement \<Rightarrow> RewardRedemption \<Rightarrow> CoinTransfer" where
  "reward_transfer s r = \<lparr>transfer_sender = pool_owner r, transfer_recipient = reward_verifier s,
     transfer_inputs = [pool_cell r], transfer_fee_reserve = redemption_fee_reserve r,
     transfer_amount = reward_amount s, transfer_fee = 0, transfer_valid_until = redemption_height r\<rparr>"

lemma redeem_effect:
  assumes "redeem_candidate h l s r = Inr l'"
  obtains c l1 where
    "SetCommitment_insert h (reward_commitment l) (reward_assignment s) (reward_witness_of s r) = Inr c"
    "CoinTransfer_new (reward_transfer s r) = Inr (reward_transfer s r)"
    "apply_transfer h l (reward_transfer s r) (redemption_height r) = Inr l1"
    "l' = l1\<lparr>redeemed_reward_root := set_root c, redeemed_reward_count := set_count c\<rparr>"
proof -
  have new: "CoinTransfer_new t = Inr u \<Longrightarrow> u = t" for t u by (auto simp: CoinTransfer_new_def split: if_splits)
  obtain c t l1 where
    "SetCommitment_insert h (reward_commitment l) (reward_assignment s) (reward_witness_of s r) = Inr c"
    and t: "CoinTransfer_new (reward_transfer s r) = Inr t"
    and "apply_transfer h l t (redemption_height r) = Inr l1"
    and "l' = l1\<lparr>redeemed_reward_root := set_root c, redeemed_reward_count := set_count c\<rparr>"
    using assms unfolding redeem_candidate_def reward_transfer_def [symmetric] by (auto split: if_splits)
  with that new [OF t] show thesis by blast
qed

text \<open>The successor root is a hash; the ledger excludes the all-zero digest.\<close>

definition redeemable :: "hash \<Rightarrow> CashLedger \<Rightarrow> RewardSettlement \<times> RewardRedemption \<Rightarrow> bool" where
  "redeemable h l = (\<lambda>(s, r). \<forall>c. SetCommitment_insert h (reward_commitment l) (reward_assignment s)
     (reward_witness_of s r) = Inr c \<longrightarrow> set_root c \<noteq> ZERO)"

lemma redeem_keeps_ok:
  assumes "ledger_ok h l" "redeemable h l (s, r)" "redeem_candidate h l s r = Inr l'"
  shows "ledger_ok h l'"
proof -
  obtain c l1 where
    c: "SetCommitment_insert h (reward_commitment l) (reward_assignment s) (reward_witness_of s r) = Inr c"
    and t: "CoinTransfer_new (reward_transfer s r) = Inr (reward_transfer s r)"
      "apply_transfer h l (reward_transfer s r) (redemption_height r) = Inr l1"
    and l': "l' = l1\<lparr>redeemed_reward_root := set_root c, redeemed_reward_count := set_count c\<rparr>"
    by (rule redeem_effect [OF assms(3)])
  have "ledger_ok h l1"
    using transfer.perform_ok [OF assms(1), of "(reward_transfer s r, redemption_height r)"] t by simp
  moreover have "set_root c \<noteq> ZERO" using assms(2) c by (simp add: redeemable_def)
  ultimately show ?thesis
    by (simp add: l' ledger_ok_def verify_invariants_iff ledger_value_def within_cap_def)
qed

interpretation redeem: checked_operation h "\<lambda>l (s, r). redeem_candidate h l s r"
  "\<lambda>l (s, r). redeem_reward h l s r" "redeemable h" for h
proof
  fix l i
  assume ok: "ledger_ok h l"
  have "no_invariant (apply_transfer h l t height)" if "map_err Invalid (CoinTransfer_new t') = Inr t" for t t' height
    using transfer.perform_no_invariant [OF ok, of "(t, height)"] that
    by (auto simp: CoinTransfer_new_def split: if_splits)
  then show "no_invariant ((\<lambda>(s, r). redeem_candidate h l s r) i)"
    unfolding redeem_candidate_def by (intro no_invariant_intros)
qed (auto simp: redeem_reward_def split: prod.splits intro: redeem_keeps_ok)

end
