(* ===== verification/Cash_Ledger_Runs.thy ===== *)
theory Cash_Ledger_Runs
  imports Cash_Ledger_Economy
begin

text \<open>
  The ledger as a state machine: the operations as one datatype, runs of operations, and what holds
  along every run.  Ledgers stay in good order, supply changes only by mints and burns, cells of
  principals who authorized nothing stay where they are, nullifiers and rewards are used at most
  once, every epoch is settled once and issuance stays within the annual cap.
\<close>

section \<open>Operations and runs\<close>

datatype ledger_op =
    OpTransfer CoinTransfer Height
  | OpSponsored CashPaymasterPolicyV1 CashPaymasterRequestV1 CoinTransfer Height
  | OpBurn CoinBurnTransition Height
  | OpMint CoinMintTransition EpochEconomicsTransition
  | OpSettle EpochEconomicsTransition
  | OpShield ShieldIntent VerifiedPrivacyProof Height
  | OpUnshield UnshieldIntent VerifiedPrivacyProof Height
  | OpRedeem RewardSettlement RewardRedemption

fun perform_op :: "hash \<Rightarrow> CashLedger \<Rightarrow> ledger_op \<Rightarrow> CashTransitionError + CashLedger" where
  "perform_op h l (OpTransfer t height) = apply_transfer h l t height"
| "perform_op h l (OpSponsored policy request t height) =
     ledger_of (apply_sponsored_transfer h l policy request t height)"
| "perform_op h l (OpBurn b height) = apply_burn h l b height"
| "perform_op h l (OpMint m s) = ledger_of (apply_mint h l m s)"
| "perform_op h l (OpSettle s) = apply_zero_issuance_settlement h l s"
| "perform_op h l (OpShield i v height) = apply_shield h l i v height"
| "perform_op h l (OpUnshield i v height) = ledger_of (apply_unshield h l i v height)"
| "perform_op h l (OpRedeem s r) = redeem_reward h l s r"

text \<open>Operations as they arrive, built by the constructors of their types.\<close>

fun valid_op :: "ledger_op \<Rightarrow> bool" where
  "valid_op (OpTransfer t height) \<longleftrightarrow> CoinTransfer_new t = Inr t"
| "valid_op (OpSponsored policy request t height) \<longleftrightarrow> CoinTransfer_new t = Inr t"
| "valid_op (OpBurn b height) \<longleftrightarrow> CoinBurnTransition_new b = Inr b"
| "valid_op (OpMint m s) \<longleftrightarrow> EpochEconomicsTransition_new s = Inr s"
| "valid_op (OpSettle s) \<longleftrightarrow> EpochEconomicsTransition_new s = Inr s"
| "valid_op (OpShield i v height) \<longleftrightarrow> ShieldIntent_new i = Inr i"
| "valid_op (OpUnshield i v height) \<longleftrightarrow> True"
| "valid_op (OpRedeem s r) \<longleftrightarrow> True"

fun run_ops :: "hash \<Rightarrow> CashLedger \<Rightarrow> ledger_op list \<Rightarrow> CashTransitionError + CashLedger" where
  "run_ops h l [] = Inr l"
| "run_ops h l (x # xs) = and_then (perform_op h l x) (\<lambda>l. run_ops h l xs)"

text \<open>What an operation mints, burns, spends and whose authority it carries.\<close>

fun op_minted :: "ledger_op \<Rightarrow> nat" where
  "op_minted (OpMint m s) = unat (mint_amount m)"
| "op_minted _ = 0"

fun op_burned :: "ledger_op \<Rightarrow> nat" where
  "op_burned (OpBurn b height) = unat (burn_amount b)"
| "op_burned _ = 0"

fun op_signers :: "ledger_op \<Rightarrow> PrincipalId set" where
  "op_signers (OpTransfer t height) = {transfer_sender t}"
| "op_signers (OpSponsored policy request t height) = {transfer_sender t, rq_sponsor request}"
| "op_signers (OpBurn b height) = {burn_owner b}"
| "op_signers (OpShield i v height) = {shield_owner i}"
| "op_signers (OpRedeem s r) = {pool_owner r}"
| "op_signers _ = {}"

fun op_epochs :: "ledger_op \<Rightarrow> Epoch list" where
  "op_epochs (OpMint m s) = [mint_sequence m]"
| "op_epochs (OpSettle s) = [settlement_epoch s]"
| "op_epochs _ = []"

fun op_nullifiers :: "ledger_op \<Rightarrow> Digest384 list" where
  "op_nullifiers (OpUnshield i v height) = unshield_nullifiers i"
| "op_nullifiers _ = []"

fun op_rewards :: "ledger_op \<Rightarrow> Digest384 list" where
  "op_rewards (OpRedeem s r) = [reward_assignment s]"
| "op_rewards _ = []"

section \<open>Successful operations are their candidates\<close>

lemma checked_eq_Inr: "checked h l = Inr l' \<longleftrightarrow> l' = l \<and> verify_invariants h l = Inr ()"
  by (auto simp: checked_def)

lemma checked_output_eq_Inr:
  "checked_output h x = Inr y \<longleftrightarrow> y = x \<and> verify_invariants h (fst x) = Inr ()"
  by (auto simp: checked_output_def)

lemmas perform_simps = apply_transfer_def apply_sponsored_transfer_def apply_sponsored_inner_def apply_burn_def
  apply_mint_def apply_zero_issuance_settlement_def apply_shield_def apply_unshield_def redeem_reward_def
  ledger_of_eq_Inr checked_eq_Inr checked_output_eq_Inr

lemma sponsored_cases:
  assumes "apply_sponsored_transfer h l policy request t height = Inr (l', policy')"
  obtains tid where "apply_sponsored_inner h l (rq_sponsor request) t tid height = Inr l'"
    "authorize h policy request (into_digest tid) (transfer_fee t) height = Inr policy'"
  using assms by (auto simp: apply_sponsored_transfer_def)

lemma redeem_ok:
  assumes "ledger_ok h l" "redeem_reward h l s r = Inr l'"
  shows "ledger_ok h l'"
proof -
  have c: "redeem_candidate h l s r = Inr l'" and v: "verify_invariants h l' = Inr ()"
    using assms(2) by (auto simp: redeem_reward_def checked_eq_Inr)
  obtain c l1 where
    "SetCommitment_insert h (reward_commitment l) (reward_assignment s) (reward_witness_of s r) = Inr c"
    and t: "CoinTransfer_new (reward_transfer s r) = Inr (reward_transfer s r)"
      "apply_transfer h l (reward_transfer s r) (redemption_height r) = Inr l1"
    and l': "l' = l1\<lparr>redeemed_reward_root := set_root c, redeemed_reward_count := set_count c\<rparr>"
    by (rule redeem_effect [OF c])
  have "ledger_ok h l1"
    using transfer.perform_ok [OF assms(1), of "(reward_transfer s r, redemption_height r)"] t by simp
  then show ?thesis using v by (simp add: l' ledger_ok_def)
qed

lemma perform_op_ok:
  assumes "ledger_ok h l" "valid_op x" "perform_op h l x = Inr l'"
  shows "ledger_ok h l'"
proof (cases x)
  case (OpTransfer t height)
  then show ?thesis using transfer.perform_ok [OF assms(1), of "(t, height)"] assms(2,3) by simp
next
  case (OpSponsored policy request t height)
  then obtain policy' where "apply_sponsored_transfer h l policy request t height = Inr (l', policy')"
    using assms(3) by (auto simp: ledger_of_eq_Inr)
  then obtain tid where "apply_sponsored_inner h l (rq_sponsor request) t tid height = Inr l'"
    by (rule sponsored_cases)
  then show ?thesis
    using sponsored.perform_ok [OF assms(1), of "(rq_sponsor request, t, tid, height)"] assms(2) OpSponsored by simp
next
  case (OpBurn b height)
  then show ?thesis using burn.perform_ok [OF assms(1), of "(b, height)"] assms(2,3) by simp
next
  case (OpMint m s)
  then show ?thesis using mint.perform_ok [OF assms(1), of "(m, s)"] assms(2,3) by simp
next
  case (OpSettle s)
  then show ?thesis using settlement.perform_ok [OF assms(1), of s] assms(2,3) by simp
next
  case (OpShield i v height)
  then show ?thesis using shield.perform_ok [OF assms(1), of "(i, v, height)"] assms(2,3) by simp
next
  case (OpUnshield i v height)
  then show ?thesis using unshield.perform_ok [OF assms(1), of "(i, v, height)"] assms(2,3) by simp
next
  case (OpRedeem s r)
  then show ?thesis using redeem_ok [OF assms(1)] assms(3) by simp
qed

lemma sponsored_no_invariant:
  assumes "ledger_ok h l" "CoinTransfer_new t = Inr t"
  shows "no_invariant (ledger_of (apply_sponsored_transfer h l policy request t height))"
proof -
  have "no_invariant (apply_sponsored_inner h l sponsor t tid height)" for sponsor tid
    using sponsored.perform_no_invariant [OF assms(1), of "(sponsor, t, tid, height)"] assms(2) by simp
  then show ?thesis
    unfolding apply_sponsored_transfer_def by (intro no_invariant_ledger_of no_invariant_intros)
qed

text \<open>
  The check at the end of an operation never fires on a ledger in good order, up to a replay-set
  root that hashes to the all-zero digest.
\<close>

lemma perform_op_no_invariant:
  assumes "ledger_ok h l" "valid_op x" "\<And>s r. x = OpRedeem s r \<Longrightarrow> redeemable h l (s, r)"
  shows "no_invariant (perform_op h l x)"
proof (cases x)
  case (OpTransfer t height)
  then show ?thesis using transfer.perform_no_invariant [OF assms(1), of "(t, height)"] assms(2) by simp
next
  case (OpSponsored policy request t height)
  then show ?thesis using sponsored_no_invariant [OF assms(1)] assms(2) by simp
next
  case (OpBurn b height)
  then show ?thesis using burn.perform_no_invariant [OF assms(1), of "(b, height)"] assms(2) by simp
next
  case (OpMint m s)
  then show ?thesis using mint.perform_no_invariant [OF assms(1), of "(m, s)"] assms(2) by simp
next
  case (OpSettle s)
  then show ?thesis using settlement.perform_no_invariant [OF assms(1), of s] by simp
next
  case (OpShield i v height)
  then show ?thesis using shield.perform_no_invariant [OF assms(1), of "(i, v, height)"] assms(2) by simp
next
  case (OpUnshield i v height)
  then show ?thesis using unshield.perform_no_invariant [OF assms(1), of "(i, v, height)"] by simp
next
  case (OpRedeem s r)
  then show ?thesis using redeem.perform_no_invariant [OF assms(1), of "(s, r)"] assms(3) by simp
qed

section \<open>What one operation changes\<close>

definition keeps_cells :: "PrincipalId set \<Rightarrow> CashLedger \<Rightarrow> CashLedger \<Rightarrow> bool" where
  "keeps_cells S l l' \<longleftrightarrow> (\<forall>r \<in> set (cell_records (ledger_cells l)).
     cell_owner (record_cell r) \<notin> S \<longrightarrow> r \<in> set (cell_records (ledger_cells l')))"

definition keeps_window :: "CashLedger \<Rightarrow> CashLedger \<Rightarrow> bool" where
  "keeps_window l l' \<longleftrightarrow> last_settled_epoch (ledger_supply l') = last_settled_epoch (ledger_supply l)
     \<and> issuance_window (ledger_supply l') = issuance_window (ledger_supply l)
     \<and> issuance_window_opening_supply (ledger_supply l') = issuance_window_opening_supply (ledger_supply l)
     \<and> issuance_in_window (ledger_supply l') = issuance_in_window (ledger_supply l)"

definition settles :: "Epoch \<Rightarrow> nat \<Rightarrow> CashLedger \<Rightarrow> CashLedger \<Rightarrow> bool" where
  "settles epoch minted l l' \<longleftrightarrow> unat epoch = unat (last_settled_epoch (ledger_supply l)) + 1
     \<and> last_settled_epoch (ledger_supply l') = epoch
     \<and> (\<exists>issued. window_terms (ledger_supply l) (issuance_window (ledger_supply l')) =
           (issuance_window_opening_supply (ledger_supply l'), issued)
         \<and> unat (issuance_in_window (ledger_supply l')) = unat issued + minted)"

text \<open>The effect of an operation on the parts that the statements about runs mention.\<close>

definition op_effect :: "hash \<Rightarrow> CashLedger \<Rightarrow> ledger_op \<Rightarrow> CashLedger \<Rightarrow> bool" where
  "op_effect h l x l' \<longleftrightarrow> ledger_definition l' = ledger_definition l \<and> keeps_cells (op_signers x) l l'
     \<and> unat (current_total_supply (ledger_supply l')) + op_burned x =
         unat (current_total_supply (ledger_supply l)) + op_minted x
     \<and> (case op_epochs x of [] \<Rightarrow> keeps_window l l' \<and> op_minted x = 0
        | epoch # _ \<Rightarrow> settles epoch (op_minted x) l l')
     \<and> (case x of OpUnshield i v height \<Rightarrow>
            consume_verified h (cash_nullifiers (ledger_shielded l)) (unshield_nullifiers i) (nullifier_witnesses i)
              = Inr (cash_nullifiers (ledger_shielded l'))
        | _ \<Rightarrow> cash_nullifiers (ledger_shielded l') = cash_nullifiers (ledger_shielded l))
     \<and> (case x of OpRedeem s r \<Rightarrow>
            SetCommitment_insert h (reward_commitment l) (reward_assignment s) (reward_witness_of s r)
              = Inr (reward_commitment l')
        | _ \<Rightarrow> reward_commitment l' = reward_commitment l)"

lemma exchange_keeps_cells:
  assumes "exchange h (ledger_cells l) spent outs (ledger_cells l')"
    "\<forall>r \<in> set spent. cell_owner (record_cell r) \<in> S"
  shows "keeps_cells S l l'"
  unfolding keeps_cells_def using exchange_set(2) [OF assms(1)] assms(2) by blast

lemma transfer_op_effect:
  assumes "ledger_ok h l" "CoinTransfer_new t = Inr t" "apply_transfer h l t height = Inr l'"
  shows "op_effect h l (OpTransfer t height) l'"
proof -
  have c: "transfer_candidate h l t height = Inr l'" using assms(3) by (simp add: apply_transfer_def checked_eq_Inr)
  obtain spent recipient change where x: "exchange h (ledger_cells l) spent (recipient # change) (ledger_cells l')"
      "\<forall>r \<in> set spent. cell_owner (record_cell r) = transfer_sender t"
      "move_fee_to_reserve (l\<lparr>ledger_cells := ledger_cells l'\<rparr>) (transfer_fee t) = Inr l'"
    by (rule transfer_effect [OF c assms(2) ledger_okD(1) [OF assms(1)]], rule that)
  note frame = move_fee_frame [OF x(3), simplified]
  have "keeps_cells {transfer_sender t} l l'" using x(1,2) by (intro exchange_keeps_cells) auto
  then show ?thesis using frame by (simp add: op_effect_def keeps_window_def reward_commitment_def)
qed

lemma sponsored_op_effect:
  assumes "ledger_ok h l" "CoinTransfer_new t = Inr t"
    "ledger_of (apply_sponsored_transfer h l policy request t height) = Inr l'"
  shows "op_effect h l (OpSponsored policy request t height) l'"
proof -
  obtain policy' where p: "apply_sponsored_transfer h l policy request t height = Inr (l', policy')"
    using assms(3) by (auto simp: ledger_of_eq_Inr)
  obtain tid where "apply_sponsored_inner h l (rq_sponsor request) t tid height = Inr l'"
    by (rule sponsored_cases [OF p])
  then have c: "sponsored_candidate h l (rq_sponsor request) t tid height = Inr l'"
    by (simp add: apply_sponsored_inner_def checked_eq_Inr)
  obtain spent reserve recipient change refund where
    x: "exchange h (ledger_cells l) (spent @ [reserve]) (recipient # change @ refund) (ledger_cells l')"
      "\<forall>r \<in> set spent. cell_owner (record_cell r) = transfer_sender t" "cell_owner (record_cell reserve) = rq_sponsor request"
      "move_fee_to_reserve (l\<lparr>ledger_cells := ledger_cells l'\<rparr>) (transfer_fee t) = Inr l'"
    by (rule sponsored_effect [OF c assms(2) ledger_okD(1) [OF assms(1)]], rule that)
  note frame = move_fee_frame [OF x(4), simplified]
  have "keeps_cells {transfer_sender t, rq_sponsor request} l l'"
    using x(1-3) by (intro exchange_keeps_cells) auto
  then show ?thesis using frame by (simp add: op_effect_def keeps_window_def reward_commitment_def)
qed

lemma burn_op_effect:
  assumes "ledger_ok h l" "CoinBurnTransition_new b = Inr b" "apply_burn h l b height = Inr l'"
  shows "op_effect h l (OpBurn b height) l'"
proof -
  have c: "burn_candidate h l b height = Inr l'" using assms(3) by (simp add: apply_burn_def checked_eq_Inr)
  obtain spent change where x: "exchange h (ledger_cells l) spent change (ledger_cells l')"
      "\<forall>r \<in> set spent. cell_owner (record_cell r) = burn_owner b"
      "l' = l\<lparr>ledger_cells := ledger_cells l', ledger_supply := ledger_supply l'\<rparr>"
      "ledger_supply l' = (ledger_supply l)\<lparr>cumulative_burn := cumulative_burn (ledger_supply l'),
         current_total_supply := current_total_supply (ledger_supply l'),
         circulating_supply := circulating_supply (ledger_supply l')\<rparr>"
      "unat (current_total_supply (ledger_supply l')) + unat (burn_amount b) = unat (current_total_supply (ledger_supply l))"
    by (rule burn_effect [OF c assms(2) ledger_okD(1) [OF assms(1)]], rule that)
  have same: "ledger_definition l' = ledger_definition l" "ledger_shielded l' = ledger_shielded l"
      "reward_commitment l' = reward_commitment l" by (subst x(3), simp add: reward_commitment_def)+
  have "keeps_window l l'" unfolding keeps_window_def by (subst (1 2 3 4) x(4)) simp
  moreover have "keeps_cells {burn_owner b} l l'" using x(1,2) by (intro exchange_keeps_cells) auto
  ultimately show ?thesis using same x(5) by (simp add: op_effect_def)
qed

lemma mint_op_effect:
  assumes "ledger_ok h l" "EpochEconomicsTransition_new s = Inr s" "ledger_of (apply_mint h l m s) = Inr l'"
  shows "op_effect h l (OpMint m s) l'"
proof -
  obtain cell_id where c: "mint_candidate h l m s = Inr (l', cell_id)"
    using assms(3) by (auto simp: ledger_of_eq_Inr apply_mint_def checked_output_eq_Inr)
  obtain minted window opened issued cap where x: "exchange h (ledger_cells l) [] [minted] (ledger_cells l')"
      "unat (mint_sequence m) = unat (last_settled_epoch (ledger_supply l)) + 1"
      "window_terms (ledger_supply l) window = (opened, issued)"
      "unat (issuance_in_window (ledger_supply l')) = unat issued + unat (mint_amount m)"
      "unat (current_total_supply (ledger_supply l')) = unat (current_total_supply (ledger_supply l)) + unat (mint_amount m)"
      "l' = l\<lparr>ledger_cells := ledger_cells l', ledger_supply := ledger_supply l'\<rparr>"
      "ledger_supply l' = (ledger_supply l)
         \<lparr>cumulative_security_issuance := cumulative_security_issuance (ledger_supply l'),
           current_total_supply := current_total_supply (ledger_supply l'),
           circulating_supply := circulating_supply (ledger_supply l'), last_settled_epoch := mint_sequence m,
           issuance_window := window, issuance_window_opening_supply := opened,
           issuance_in_window := issuance_in_window (ledger_supply l')\<rparr>"
    by (rule mint_effect [OF c assms(2) ledger_okD(1) [OF assms(1)]], rule that)
  have same: "ledger_definition l' = ledger_definition l" "ledger_shielded l' = ledger_shielded l"
      "reward_commitment l' = reward_commitment l" by (subst x(6), simp add: reward_commitment_def)+
  have supply_new: "last_settled_epoch (ledger_supply l') = mint_sequence m" "issuance_window (ledger_supply l') = window"
      "issuance_window_opening_supply (ledger_supply l') = opened" by (subst x(7), simp)+
  have "settles (mint_sequence m) (unat (mint_amount m)) l l'"
    unfolding settles_def supply_new using x(2-4) by blast
  moreover have "keeps_cells {} l l'" using x(1) by (intro exchange_keeps_cells) auto
  ultimately show ?thesis using same x(5) by (simp add: op_effect_def)
qed

lemma settle_op_effect:
  assumes "apply_zero_issuance_settlement h l s = Inr l'"
  shows "op_effect h l (OpSettle s) l'"
proof -
  have c: "settlement_candidate l s = Inr l'"
    using assms by (simp add: apply_zero_issuance_settlement_def checked_eq_Inr)
  obtain window opened issued where
    e: "unat (settlement_epoch s) = unat (last_settled_epoch (ledger_supply l)) + 1"
      "window_terms (ledger_supply l) window = (opened, issued)"
    and l': "l' = l\<lparr>ledger_supply := (ledger_supply l)\<lparr>last_settled_epoch := settlement_epoch s,
       issuance_window := window, issuance_window_opening_supply := opened, issuance_in_window := issued\<rparr>\<rparr>"
    by (rule settlement_effect [OF c], rule that)
  show ?thesis using e by (simp add: l' op_effect_def keeps_cells_def settles_def reward_commitment_def)
qed

lemma shield_op_effect:
  assumes "ledger_ok h l" "ShieldIntent_new i = Inr i" "apply_shield h l i v height = Inr l'"
  shows "op_effect h l (OpShield i v height) l'"
proof -
  have c: "shield_candidate h l i v height = Inr l'" using assms(3) by (simp add: apply_shield_def checked_eq_Inr)
  obtain spent change where x: "exchange h (ledger_cells l) spent change (ledger_cells l')"
      "\<forall>r \<in> set spent. cell_owner (record_cell r) = shield_owner i"
      "credit (ledger_shielded l) (shield_amount i) (public_inputs_commitment v) = Inr (ledger_shielded l')"
      "move_fee_to_reserve (l\<lparr>ledger_cells := ledger_cells l', ledger_shielded := ledger_shielded l'\<rparr>) (shield_fee i) = Inr l'"
    by (rule shield_effect [OF c assms(2) ledger_okD(1) [OF assms(1)]], rule that)
  note frame = move_fee_frame [OF x(4), simplified]
  have "keeps_cells {shield_owner i} l l'" using x(1,2) by (intro exchange_keeps_cells) auto
  then show ?thesis
    using frame credit_sound [OF x(3)] by (simp add: op_effect_def keeps_window_def reward_commitment_def)
qed

lemma unshield_op_effect:
  assumes "ledger_ok h l" "ledger_of (apply_unshield h l i v height) = Inr l'"
  shows "op_effect h l (OpUnshield i v height) l'"
proof -
  obtain cell_id where c: "unshield_candidate h l i v height = Inr (l', cell_id)"
    using assms(2) by (auto simp: ledger_of_eq_Inr apply_unshield_def checked_output_eq_Inr)
  obtain out debited where x: "exchange h (ledger_cells l) [] [out] (ledger_cells l')"
      "debit h (ledger_shielded l) debited (unshield_nullifiers i) (nullifier_witnesses i)
         (public_inputs_commitment v) = Inr (ledger_shielded l')"
      "move_fee_to_reserve (l\<lparr>ledger_cells := ledger_cells l', ledger_shielded := ledger_shielded l'\<rparr>) (unshield_fee i) = Inr l'"
    by (rule unshield_effect [OF c ledger_okD(1) [OF assms(1)]], rule that)
  note frame = move_fee_frame [OF x(3), simplified]
  have "keeps_cells {} l l'" using x(1) by (intro exchange_keeps_cells) auto
  then show ?thesis
    using frame debit_sound(3) [OF x(2)] by (simp add: op_effect_def keeps_window_def reward_commitment_def)
qed

lemma redeem_op_effect:
  assumes "ledger_ok h l" "redeem_reward h l s r = Inr l'"
  shows "op_effect h l (OpRedeem s r) l'"
proof -
  have c: "redeem_candidate h l s r = Inr l'" using assms(2) by (simp add: redeem_reward_def checked_eq_Inr)
  obtain c l1 where
    i: "SetCommitment_insert h (reward_commitment l) (reward_assignment s) (reward_witness_of s r) = Inr c"
    and t: "CoinTransfer_new (reward_transfer s r) = Inr (reward_transfer s r)"
      "apply_transfer h l (reward_transfer s r) (redemption_height r) = Inr l1"
    and l': "l' = l1\<lparr>redeemed_reward_root := set_root c, redeemed_reward_count := set_count c\<rparr>"
    by (rule redeem_effect [OF c])
  have "set_domain c = SpentInput" using insert_domain [OF i] by (simp add: reward_commitment_def)
  then have "reward_commitment l' = c" by (cases c) (simp add: l' reward_commitment_def)
  moreover have "op_effect h l (OpTransfer (reward_transfer s r) (redemption_height r)) l1"
    by (rule transfer_op_effect [OF assms(1) t])
  ultimately show ?thesis
    using i by (simp add: op_effect_def keeps_window_def keeps_cells_def reward_transfer_def l')
qed

lemma perform_op_effect:
  assumes "ledger_ok h l" "valid_op x" "perform_op h l x = Inr l'"
  shows "op_effect h l x l'"
  using assms
  by (cases x)
    (simp_all add: transfer_op_effect sponsored_op_effect burn_op_effect mint_op_effect settle_op_effect
      shield_op_effect unshield_op_effect redeem_op_effect)

section \<open>Runs\<close>

lemma run_ops_Cons:
  assumes "run_ops h l (x # xs) = Inr l'" "list_all valid_op (x # xs)" "ledger_ok h l"
  obtains l1 where "perform_op h l x = Inr l1" "op_effect h l x l1" "ledger_ok h l1" "run_ops h l1 xs = Inr l'"
    "list_all valid_op xs"
  using assms perform_op_ok perform_op_effect by fastforce

lemma run_ops_ok:
  "run_ops h l xs = Inr l' \<Longrightarrow> list_all valid_op xs \<Longrightarrow> ledger_ok h l \<Longrightarrow> ledger_ok h l'"
proof (induction xs arbitrary: l)
  case (Cons x xs)
  obtain l1 where "ledger_ok h l1" "run_ops h l1 xs = Inr l'" "list_all valid_op xs"
    by (rule run_ops_Cons [OF Cons.prems])
  then show ?case by (intro Cons.IH)
qed simp

lemma run_supply:
  "run_ops h l xs = Inr l' \<Longrightarrow> list_all valid_op xs \<Longrightarrow> ledger_ok h l \<Longrightarrow>
   unat (current_total_supply (ledger_supply l')) + (\<Sum>x \<leftarrow> xs. op_burned x) =
     unat (current_total_supply (ledger_supply l)) + (\<Sum>x \<leftarrow> xs. op_minted x)"
proof (induction xs arbitrary: l)
  case (Cons x xs)
  obtain l1 where e: "op_effect h l x l1" and "ledger_ok h l1" "run_ops h l1 xs = Inr l'" "list_all valid_op xs"
    by (rule run_ops_Cons [OF Cons.prems])
  then have "unat (current_total_supply (ledger_supply l')) + (\<Sum>x \<leftarrow> xs. op_burned x) =
      unat (current_total_supply (ledger_supply l1)) + (\<Sum>x \<leftarrow> xs. op_minted x)" by (intro Cons.IH)
  then show ?case using e by (simp add: op_effect_def)
qed simp

lemma run_keeps_cells:
  "run_ops h l xs = Inr l' \<Longrightarrow> list_all valid_op xs \<Longrightarrow> ledger_ok h l \<Longrightarrow>
   keeps_cells (\<Union>x \<in> set xs. op_signers x) l l'"
proof (induction xs arbitrary: l)
  case (Cons x xs)
  obtain l1 where e: "op_effect h l x l1" and "ledger_ok h l1" "run_ops h l1 xs = Inr l'" "list_all valid_op xs"
    by (rule run_ops_Cons [OF Cons.prems])
  then have "keeps_cells (\<Union>x \<in> set xs. op_signers x) l1 l'" by (intro Cons.IH)
  moreover have "keeps_cells (op_signers x) l l1" using e by (simp add: op_effect_def)
  ultimately show ?case by (simp add: keeps_cells_def)
qed (simp add: keeps_cells_def)

text \<open>Every epoch is settled exactly once and in order.\<close>

lemma step_epochs:
  assumes "op_effect h l x l1"
  shows "map unat (op_epochs x) =
    [Suc (unat (last_settled_epoch (ledger_supply l))) ..< Suc (unat (last_settled_epoch (ledger_supply l1)))]"
  using assms by (cases x) (auto simp: op_effect_def keeps_window_def settles_def)

lemma run_epochs:
  "run_ops h l xs = Inr l' \<Longrightarrow> list_all valid_op xs \<Longrightarrow> ledger_ok h l \<Longrightarrow>
   unat (last_settled_epoch (ledger_supply l)) \<le> unat (last_settled_epoch (ledger_supply l'))
   \<and> map unat (concat (map op_epochs xs)) =
     [Suc (unat (last_settled_epoch (ledger_supply l))) ..< Suc (unat (last_settled_epoch (ledger_supply l')))]"
proof (induction xs arbitrary: l)
  case (Cons x xs)
  obtain l1 where e: "op_effect h l x l1" and "ledger_ok h l1" "run_ops h l1 xs = Inr l'" "list_all valid_op xs"
    by (rule run_ops_Cons [OF Cons.prems])
  then have ih: "unat (last_settled_epoch (ledger_supply l1)) \<le> unat (last_settled_epoch (ledger_supply l'))"
      "map unat (concat (map op_epochs xs)) =
        [Suc (unat (last_settled_epoch (ledger_supply l1))) ..< Suc (unat (last_settled_epoch (ledger_supply l')))]"
    using Cons.IH by blast+
  have le: "unat (last_settled_epoch (ledger_supply l)) \<le> unat (last_settled_epoch (ledger_supply l1))"
    using e by (cases x) (auto simp: op_effect_def keeps_window_def settles_def)
  have "[Suc (unat (last_settled_epoch (ledger_supply l))) ..< Suc (unat (last_settled_epoch (ledger_supply l1)))]
      @ [Suc (unat (last_settled_epoch (ledger_supply l1))) ..< Suc (unat (last_settled_epoch (ledger_supply l')))] =
      [Suc (unat (last_settled_epoch (ledger_supply l))) ..< Suc (unat (last_settled_epoch (ledger_supply l')))]"
    using le ih(1) by (metis Suc_le_mono le_Suc_ex upt_add_eq_append)
  then show ?case using ih le step_epochs [OF e] by (simp only: concat.simps list.map map_append) simp
qed simp

section \<open>Issuance within a window\<close>

lemma window_of_epoch:
  assumes "valid_NativeSupply s"
  shows "unat (issuance_window s) = (unat (last_settled_epoch s) - 1) div 365"
proof (cases "last_settled_epoch s = 0")
  case False
  then have "1 \<le> last_settled_epoch s" by (simp add: word_le_nat_alt unat_gt_0 Suc_le_eq)
  then have "unat (last_settled_epoch s - 1) = unat (last_settled_epoch s) - 1" by (simp add: unat_sub)
  then show ?thesis
    using assms False by (simp add: valid_NativeSupply_def NativeSupply_new_eq_Inr unat_div)
qed (use assms in \<open>simp add: valid_NativeSupply_def NativeSupply_new_eq_Inr\<close>)

lemma run_window:
  assumes "run_ops h l xs = Inr l'" "list_all valid_op xs" "ledger_ok h l"
  shows "unat (issuance_window (ledger_supply l)) \<le> unat (issuance_window (ledger_supply l'))"
proof -
  have "unat (last_settled_epoch (ledger_supply l)) - 1 \<le> unat (last_settled_epoch (ledger_supply l')) - 1"
    using run_epochs [OF assms] diff_le_mono by blast
  then show ?thesis
    using window_of_epoch [OF ledger_okD(2) [OF assms(3)]] window_of_epoch [OF ledger_okD(2) [OF run_ops_ok [OF assms]]]
    by (simp add: div_le_mono)
qed

lemma step_issuance:
  assumes "op_effect h l x l1" "issuance_window (ledger_supply l1) = issuance_window (ledger_supply l)"
  shows "issuance_window_opening_supply (ledger_supply l1) = issuance_window_opening_supply (ledger_supply l)
    \<and> unat (issuance_in_window (ledger_supply l1)) = unat (issuance_in_window (ledger_supply l)) + op_minted x"
  using assms by (cases x) (auto simp: op_effect_def keeps_window_def settles_def window_terms_def)

lemma run_issuance:
  "run_ops h l xs = Inr l' \<Longrightarrow> list_all valid_op xs \<Longrightarrow> ledger_ok h l \<Longrightarrow>
   issuance_window (ledger_supply l') = issuance_window (ledger_supply l) \<Longrightarrow>
   issuance_window_opening_supply (ledger_supply l') = issuance_window_opening_supply (ledger_supply l)
   \<and> unat (issuance_in_window (ledger_supply l')) = unat (issuance_in_window (ledger_supply l)) + (\<Sum>x \<leftarrow> xs. op_minted x)"
proof (induction xs arbitrary: l)
  case (Cons x xs)
  obtain l1 where p: "perform_op h l x = Inr l1" and e: "op_effect h l x l1"
    and r: "ledger_ok h l1" "run_ops h l1 xs = Inr l'" "list_all valid_op xs"
    by (rule run_ops_Cons [OF Cons.prems(1-3)])
  have one: "run_ops h l [x] = Inr l1" "list_all valid_op [x]" using p Cons.prems(2) by simp_all
  have "unat (issuance_window (ledger_supply l)) \<le> unat (issuance_window (ledger_supply l1))"
    by (rule run_window [OF one Cons.prems(3)])
  moreover have "unat (issuance_window (ledger_supply l1)) \<le> unat (issuance_window (ledger_supply l'))"
    by (rule run_window [OF r(2,3,1)])
  ultimately have w: "issuance_window (ledger_supply l1) = issuance_window (ledger_supply l)"
    using Cons.prems(4) by (simp add: word_unat_eq_iff)
  show ?case using Cons.IH [OF r(2,3,1)] step_issuance [OF e w] Cons.prems(4) w by simp
qed simp

lemma run_definition:
  "run_ops h l xs = Inr l' \<Longrightarrow> list_all valid_op xs \<Longrightarrow> ledger_ok h l \<Longrightarrow>
   ledger_definition l' = ledger_definition l"
proof (induction xs arbitrary: l)
  case (Cons x xs)
  obtain l1 where e: "op_effect h l x l1" and r: "ledger_ok h l1" "run_ops h l1 xs = Inr l'" "list_all valid_op xs"
    by (rule run_ops_Cons [OF Cons.prems])
  show ?case using Cons.IH [OF r(2,3,1)] e by (simp add: op_effect_def)
qed simp

lemma within_capD:
  assumes "within_cap l"
  shows "unat (issuance_in_window (ledger_supply l)) \<le> unat (issuance_window_opening_supply (ledger_supply l))
    * unat (maximum_ordinary_annual_issuance_bps (ledger_definition l)) div 10000"
  using assms basis_points_amount_exact unfolding within_cap_def word_le_nat_alt by metis

section \<open>Nullifiers and rewards\<close>

fun op_clash :: "hash \<Rightarrow> Root set \<Rightarrow> Root set \<Rightarrow> ledger_op \<Rightarrow> bool" where
  "op_clash h S R (OpUnshield i v height) \<longleftrightarrow> consume_clash h S (zip (unshield_nullifiers i) (nullifier_witnesses i))"
| "op_clash h S R (OpRedeem s r) \<longleftrightarrow> insert_clash h SpentInput R (reward_witness_of s r)"
| "op_clash h S R _ \<longleftrightarrow> False"

fun run_clash :: "hash \<Rightarrow> Root set \<Rightarrow> Root set \<Rightarrow> ledger_op list \<Rightarrow> bool" where
  "run_clash h S R [] \<longleftrightarrow> False"
| "run_clash h S R (x # xs) \<longleftrightarrow> op_clash h S R x
     \<or> run_clash h (S \<union> set (op_nullifiers x)) (R \<union> set (op_rewards x)) xs"

definition spent_sets :: "hash \<Rightarrow> Root set \<Rightarrow> Root set \<Rightarrow> CashLedger \<Rightarrow> bool" where
  "spent_sets h S R l \<longleftrightarrow> tracks h Nullifier S (NullifierSet_commitment (cash_nullifiers (ledger_shielded l)))
     \<and> tracks h SpentInput R (reward_commitment l)"

lemma step_spent:
  assumes "op_effect h l x l1" "spent_sets h S R l" "\<not> op_clash h S R x"
  shows "distinct (op_nullifiers x) \<and> set (op_nullifiers x) \<inter> S = {}
    \<and> distinct (op_rewards x) \<and> set (op_rewards x) \<inter> R = {}
    \<and> spent_sets h (S \<union> set (op_nullifiers x)) (R \<union> set (op_rewards x)) l1"
proof (cases x)
  case (OpUnshield i v height)
  then show ?thesis
    using assms consume_verified_sound [of h S "cash_nullifiers (ledger_shielded l)" "unshield_nullifiers i"
        "nullifier_witnesses i" "cash_nullifiers (ledger_shielded l1)"]
    by (simp add: op_effect_def spent_sets_def)
next
  case (OpRedeem s r)
  then show ?thesis
    using assms tracks_insert [of h SpentInput R "reward_commitment l" "reward_assignment s" "reward_witness_of s r"
        "reward_commitment l1"]
    by (simp add: op_effect_def spent_sets_def)
qed (use assms in \<open>simp_all add: op_effect_def spent_sets_def\<close>)

lemma run_spent:
  "run_ops h l xs = Inr l' \<Longrightarrow> list_all valid_op xs \<Longrightarrow> ledger_ok h l \<Longrightarrow> spent_sets h S R l \<Longrightarrow>
   \<not> run_clash h S R xs \<Longrightarrow>
   distinct (concat (map op_nullifiers xs)) \<and> set (concat (map op_nullifiers xs)) \<inter> S = {}
   \<and> distinct (concat (map op_rewards xs)) \<and> set (concat (map op_rewards xs)) \<inter> R = {}
   \<and> spent_sets h (S \<union> set (concat (map op_nullifiers xs))) (R \<union> set (concat (map op_rewards xs))) l'"
proof (induction xs arbitrary: l S R)
  case (Cons x xs)
  obtain l1 where e: "op_effect h l x l1"
    and r: "ledger_ok h l1" "run_ops h l1 xs = Inr l'" "list_all valid_op xs"
    by (rule run_ops_Cons [OF Cons.prems(1-3)])
  let ?N = "concat (map op_nullifiers xs)" and ?W = "concat (map op_rewards xs)"
  let ?S = "S \<union> set (op_nullifiers x)" and ?R = "R \<union> set (op_rewards x)"
  have "\<not> op_clash h S R x" "\<not> run_clash h ?S ?R xs" using Cons.prems(5) by simp_all
  note step = step_spent [OF e Cons.prems(4) this(1)]
  then have spent: "spent_sets h ?S ?R l1" by blast
  have "distinct ?N \<and> set ?N \<inter> ?S = {} \<and> distinct ?W \<and> set ?W \<inter> ?R = {}
    \<and> spent_sets h (?S \<union> set ?N) (?R \<union> set ?W) l'"
    by (rule Cons.IH [OF r(2,3,1) spent \<open>\<not> run_clash h ?S ?R xs\<close>])
  then show ?case
    using step unfolding list.map concat.simps distinct_append set_append Un_assoc [symmetric] by blast
qed simp

end
