(* ===== verification/Cash_Ledger_Genesis.thy ===== *)
theory Cash_Ledger_Genesis
  imports Cash_Ledger_Runs
begin

text \<open>
  The beginning of a run: a ledger created from a genesis economy is in good order and commits to
  empty replay sets, and the canonical encoding of ledgers round-trips.
\<close>

section \<open>Genesis\<close>

lemma genesis_records_sound:
  "genesis_records h economy allocs records = Inr rs \<Longrightarrow>
   \<exists>qs. rs = records @ qs \<and> identified h qs \<and> list_all valid_CoinCellRecord qs
     \<and> cells_value qs = (\<Sum>(i, a) \<leftarrow> allocs. unat (liquid_amount a))"
proof (induction h economy allocs records rule: genesis_records.induct)
  case (2 h economy index allocation rest records)
  show ?case
  proof (cases "liquid_amount allocation = 0")
    case False
    obtain root r where o: "output_cell h (TypedId root) (word_of_nat index) (alloc_recipient allocation)
        (liquid_amount allocation) 0 = Inr r"
      and g: "economy_root_digest h economy = Inr root" "index < 2 ^ 16"
        "genesis_records h economy rest (records @ [r]) = Inr rs"
      using "2.prems" False by (auto simp: not_le)
    note out = output_cell_sound [OF o]
    obtain qs where qs: "rs = (records @ [r]) @ qs" "identified h qs" "list_all valid_CoinCellRecord qs"
        "cells_value qs = (\<Sum>(i, a) \<leftarrow> rest. unat (liquid_amount a))"
      using "2.IH"(2) [OF False _ g(3)] g(2) by auto
    then show ?thesis using out by (intro exI [of _ "r # qs"]) simp
  qed (use 2 in simp)
qed simp

lemma enumerate_sum: "(\<Sum>(i, a) \<leftarrow> enumerate n xs. f a) = (\<Sum>a \<leftarrow> xs. f a)"
  by (induction xs arbitrary: n) simp_all

lemma allocation_totals:
  "list_all valid_GenesisAllocation as \<Longrightarrow> (\<Sum>a \<leftarrow> as. unat (allocation_total a)) =
     (\<Sum>a \<leftarrow> as. unat (liquid_amount a)) + (\<Sum>a \<leftarrow> as. unat (locked_amount a))"
proof (induction as)
  case (Cons a as)
  have "GenesisAllocation_new a = Inr a" using Cons.prems by (simp add: valid_GenesisAllocation_def)
  then have "checked_add (liquid_amount a) (locked_amount a) = Some (allocation_total a)"
    by (auto simp: GenesisAllocation_new_def allocation_total_def checked_add_def split: if_splits)
  from unat_checked_add [OF this] Cons show ?case by simp
qed simp

lemma genesis_totals:
  assumes "valid_GenesisEconomy economy"
  shows "unat (economy_security_reserve economy) + (\<Sum>a \<leftarrow> allocations economy. unat (liquid_amount a))
      + (\<Sum>a \<leftarrow> allocations economy. unat (locked_amount a)) = unat (def_genesis_supply (economy_definition economy))"
proof -
  have "checked_sum (economy_security_reserve economy) (map allocation_total (allocations economy))
      = Some (def_genesis_supply (economy_definition economy))"
    using assms by (auto simp: valid_GenesisEconomy_def GenesisEconomy_new_def split: if_splits)
  then show ?thesis
    using assms allocation_totals [of "allocations economy"]
    by (simp add: checked_sum_eq_Some o_def valid_GenesisEconomy_def)
qed

lemma NativeSupply_genesis_sound:
  assumes "NativeSupply_genesis genesis reserve locked = Inr s" "genesis \<noteq> 0"
  shows "valid_NativeSupply s" "current_total_supply s = genesis" "security_reserve_balance s = reserve"
    "locked_vesting_supply s = locked" "staked_supply s = 0" "issuance_in_window s = 0"
    "issuance_window_opening_supply s = genesis"
proof -
  obtain reserved where r: "checked_add reserve locked = Some reserved" "\<not> genesis < reserved"
      "s = \<lparr>genesis_supply = genesis, cumulative_security_issuance = 0, cumulative_burn = 0,
       current_total_supply = genesis, circulating_supply = genesis - reserved,
       locked_vesting_supply = locked, staked_supply = 0,
       security_reserve_balance = reserve, last_settled_epoch = 0, issuance_window = 0,
       issuance_window_opening_supply = genesis, issuance_in_window = 0\<rparr>"
    using assms(1) by (auto simp: NativeSupply_genesis_def)
  have "unat (genesis - reserved) + unat reserved = unat genesis" "unat reserved = unat reserve + unat locked"
    using r(1,2) by (simp_all add: unat_sub word_less_nat_alt word_le_nat_alt checked_add_eq_Some_unat not_less)
  then show "valid_NativeSupply s"
    using assms(2) unat_less_pow [of genesis] by (simp add: r(3) valid_NativeSupply_def NativeSupply_new_eq_Inr)
qed (use assms(1) in \<open>auto simp: NativeSupply_genesis_def\<close>)

text \<open>The parts of a genesis ledger before the invariant check.\<close>

lemma genesis_parts:
  assumes "valid_GenesisEconomy economy"
    "genesis_records h economy (enumerate 0 (allocations economy)) [] = Inr records"
    "replace_cells records = Inr cells"
    "checked_sum 0 (map locked_amount (allocations economy)) = Some locked"
    "NativeSupply_genesis (def_genesis_supply (economy_definition economy)) (economy_security_reserve economy) locked
       = Inr supply_state"
    "l = \<lparr>ledger_definition = economy_definition economy, ledger_supply = supply_state, ledger_cells = cells,
       ledger_shielded = ShieldedCashState_default h,
       redeemed_reward_root = set_root (SetCommitment_empty h SpentInput), redeemed_reward_count = 0\<rparr>"
  shows "valid_CoinCellSet (ledger_cells l)" "valid_NativeSupply (ledger_supply l)"
    "ShieldedCashState_new (ledger_shielded l) = Inr (ledger_shielded l)"
    "identified h (cell_records (ledger_cells l))"
    "ledger_value l = unat (current_total_supply (ledger_supply l))"
    "current_total_supply (ledger_supply l) = def_genesis_supply (economy_definition economy)"
    "issuance_in_window (ledger_supply l) = 0" "spent_sets h {} {} l"
proof -
  have "def_genesis_supply (economy_definition economy) \<noteq> 0"
    using assms(1) by (auto simp: valid_GenesisEconomy_def valid_NativeAssetDefinition_def
        NativeAssetDefinition_new_def split: if_splits)
  note s = NativeSupply_genesis_sound [OF assms(5) this]
  have r: "identified h records" "list_all valid_CoinCellRecord records"
      "cells_value records = (\<Sum>a \<leftarrow> allocations economy. unat (liquid_amount a))"
    using genesis_records_sound [OF assms(2)] by (auto simp: enumerate_sum)
  have c: "cells = \<lparr>cell_records = sort_key record_id records\<rparr>" "length records \<le> 4096"
      "strictly_increasing_by record_id (sort_key record_id records)"
    using assms(3) unfolding replace_cells_eq_Inr by blast+
  show "valid_CoinCellSet (ledger_cells l)" using c r(2) by (simp add: assms(6) valid_CoinCellSet_iff list_all_iff)
  show "identified h (cell_records (ledger_cells l))" using r(1) by (simp add: assms(6) c(1) identified_def)
  have "cells_value (sort_key record_id records) = cells_value records" by (rule cells_value_mset) simp
  moreover have "unat locked = (\<Sum>a \<leftarrow> allocations economy. unat (locked_amount a))"
    using assms(4) by (simp add: checked_sum_eq_Some o_def)
  ultimately show "ledger_value l = unat (current_total_supply (ledger_supply l))"
    using r(3) genesis_totals [OF assms(1)] s by (simp add: assms(6) ledger_value_def c(1) ShieldedCashState_default_def)
  show "spent_sets h {} {} l"
    using tracks_empty [of h Nullifier] tracks_empty [of h SpentInput]
    by (simp add: assms(6) spent_sets_def ShieldedCashState_default_def NullifierSet_empty_def
        NullifierSet_commitment_from reward_commitment_def SetCommitment_empty_def)
qed (use NativeSupply_genesis_sound [OF assms(5)] assms(1) in
    \<open>auto simp: assms(6) ShieldedCashState_default_def ShieldedCashState_new_def valid_GenesisEconomy_def
      valid_NativeAssetDefinition_def NativeAssetDefinition_new_def split: if_splits\<close>)

lemma from_genesis_sound:
  assumes "valid_GenesisEconomy economy" "from_genesis h economy = Inr l"
  shows "ledger_ok h l" "current_total_supply (ledger_supply l) = def_genesis_supply (economy_definition economy)"
    "spent_sets h {} {} l"
proof -
  obtain records cells locked supply_state where p:
    "genesis_records h economy (enumerate 0 (allocations economy)) [] = Inr records"
    "replace_cells records = Inr cells"
    "checked_sum 0 (map locked_amount (allocations economy)) = Some locked"
    "NativeSupply_genesis (def_genesis_supply (economy_definition economy)) (economy_security_reserve economy) locked
       = Inr supply_state"
    "l = \<lparr>ledger_definition = economy_definition economy, ledger_supply = supply_state, ledger_cells = cells,
       ledger_shielded = ShieldedCashState_default h,
       redeemed_reward_root = set_root (SetCommitment_empty h SpentInput), redeemed_reward_count = 0\<rparr>"
    and v: "verify_invariants h l = Inr ()"
    using assms(2) by (auto simp: from_genesis_def checked_eq_Inr)
  note parts = genesis_parts [OF assms(1) p]
  show "ledger_ok h l" using parts v by (simp add: ledger_ok_def)
  show "current_total_supply (ledger_supply l) = def_genesis_supply (economy_definition economy)" by (rule parts(6))
  show "spent_sets h {} {} l" by (rule parts(8))
qed

section \<open>Wire format\<close>

lemma CashLedger_collapse:
  "\<lparr>ledger_definition = ledger_definition l, ledger_supply = ledger_supply l, ledger_cells = ledger_cells l,
     ledger_shielded = ledger_shielded l, redeemed_reward_root = redeemed_reward_root l,
     redeemed_reward_count = redeemed_reward_count l\<rparr> = l"
  by simp

interpretation cash_ledger: bounded_envelope enc_CashLedger "CashLedger_type h" "valid_CashLedger h" for h
proof
  fix v
  assume v: "valid_CashLedger h v"
  then have "length (enc_NativeAssetDefinition (ledger_definition v)) \<le> ct_max_encoded_len NativeAssetDefinition_type"
    "length (enc_NativeSupply (ledger_supply v)) \<le> ct_max_encoded_len NativeSupply_type"
    "length (enc_CoinCellSet (ledger_cells v)) \<le> ct_max_encoded_len CoinCellSet_type"
    "length (enc_ShieldedCashState (ledger_shielded v)) \<le> ct_max_encoded_len ShieldedCashState_type"
    using native_asset_definition.encoded_len_bound native_supply.encoded_len_bound coin_cell_set.encoded_len_bound shielded_cash.encoded_len_bound
    by (simp_all add: valid_CashLedger_def)
  then show "length (enc_CashLedger v) \<le> ct_max_encoded_len (CashLedger_type h)"
    by (simp add: enc_CashLedger_def CashLedger_type_def)
qed (auto simp: CashLedger_type_def enc_CashLedger_def encode_CashLedger_def decode_CashLedger_def valid_CashLedger_def
    Let_def MAX_BODY_LENGTH_def NativeAssetDefinition_type_def NativeSupply_type_def CoinCellSet_type_def
    ShieldedCashState_type_def CashLedger_collapse cash_bounds codec_simps dest!: codec_dests)

end
