(* ===== verification/Cash_Samples.thy ===== *)
theory Cash_Samples
  imports Cash_Ledger_Genesis
begin

text \<open>
  A concrete economy and a run of its ledger: three genesis cells, a transfer that spends two of
  them, a burn of the cell it creates and the settlement of the first epoch with a mint.  The hash
  of the samples reads the last byte, so the cells of a transition are told apart by their output
  index.
\<close>

definition byte_hash :: hash where
  "byte_hash bytes = 1 + ucast (last (0 # bytes))"

definition sample_asset :: NativeAssetDefinition where
  "sample_asset = \<lparr>def_chain_id = TypedId 1, symbol = [65, 67], decimals = 6, def_genesis_supply = 1000000,
     maximum_ordinary_annual_issuance_bps = 200, issuance_policy_hash = 2, burn_policy_hash = 3,
     reward_policy_hash = 4\<rparr>"

definition sample_economy :: GenesisEconomy where
  "sample_economy = \<lparr>economy_definition = sample_asset,
     allocations = [
       \<lparr>alloc_recipient = TypedId 11, liquid_amount = 500000, locked_amount = 0\<rparr>,
       \<lparr>alloc_recipient = TypedId 11, liquid_amount = 300000, locked_amount = 0\<rparr>,
       \<lparr>alloc_recipient = TypedId 13, liquid_amount = 100000, locked_amount = 50000\<rparr>],
     economy_security_reserve = 50000\<rparr>"

definition sample_cell :: "TransactionId \<Rightarrow> u16 \<Rightarrow> PrincipalId \<Rightarrow> u128 \<Rightarrow> Height \<Rightarrow> CoinCellRecord" where
  "sample_cell transition_id index owner amount height =
     \<lparr>record_id = TypedId (1 + ucast (ucast index :: u8)),
      record_cell = \<lparr>cell_origin = \<lparr>origin_transition_id = transition_id, output_index = index\<rparr>,
        cell_owner = owner, cell_amount = amount, creation_height = height\<rparr>\<rparr>"

definition sample_ledger :: CashLedger where
  "sample_ledger = \<lparr>ledger_definition = sample_asset,
     ledger_supply = \<lparr>genesis_supply = 1000000, cumulative_security_issuance = 0, cumulative_burn = 0,
       current_total_supply = 1000000, circulating_supply = 900000, locked_vesting_supply = 50000,
       staked_supply = 0, security_reserve_balance = 50000, last_settled_epoch = 0, issuance_window = 0,
       issuance_window_opening_supply = 1000000, issuance_in_window = 0\<rparr>,
     ledger_cells = \<lparr>cell_records = [sample_cell (TypedId 81) 0 (TypedId 11) 500000 0,
       sample_cell (TypedId 81) 1 (TypedId 11) 300000 0, sample_cell (TypedId 81) 2 (TypedId 13) 100000 0]\<rparr>,
     ledger_shielded = ShieldedCashState_default byte_hash,
     redeemed_reward_root = set_root (SetCommitment_empty byte_hash SpentInput), redeemed_reward_count = 0\<rparr>"

definition sample_transfer :: CoinTransfer where
  "sample_transfer = \<lparr>transfer_sender = TypedId 11, transfer_recipient = TypedId 12,
     transfer_inputs = [TypedId 1], transfer_fee_reserve = TypedId 2, transfer_amount = 400000,
     transfer_fee = 1000, transfer_valid_until = 9\<rparr>"

definition sample_burn :: CoinBurnTransition where
  "sample_burn = \<lparr>burn_owner = TypedId 12, burn_inputs = [TypedId 1], burn_amount = 400000,
     burn_valid_until = 9\<rparr>"

definition sample_mint :: CoinMintTransition where
  "sample_mint = \<lparr>mint_policy_hash = 2, mint_recipient = TypedId 12, mint_amount = 20, mint_sequence = 1,
     mint_height = 7\<rparr>"

definition sample_settlement :: EpochEconomicsTransition where
  "sample_settlement = \<lparr>settlement_epoch = 1, settlement_pre_supply = 600000, effective_stake_bps = 0,
     security_fee_revenue = 4, reserve_draw = 0, target_security_budget = 24, settlement_issuance = 20,
     issuance_cap = 20000, burned_amount = 0, validator_reward_root = 5, audit_reward_root = 5,
     challenge_reward_root = 5, public_goods_reward_root = 5, settlement_post_supply = 600020\<rparr>"

definition transferred_ledger :: CashLedger where
  "transferred_ledger = sample_ledger
     \<lparr>ledger_supply := (ledger_supply sample_ledger)\<lparr>circulating_supply := 899000, security_reserve_balance := 51000\<rparr>,
      ledger_cells := \<lparr>cell_records = [sample_cell (TypedId 10) 0 (TypedId 12) 400000 5,
        sample_cell (TypedId 10) 1 (TypedId 11) 399000 5, sample_cell (TypedId 81) 2 (TypedId 13) 100000 0]\<rparr>\<rparr>"

definition burned_ledger :: CashLedger where
  "burned_ledger = transferred_ledger
     \<lparr>ledger_supply := (ledger_supply transferred_ledger)\<lparr>cumulative_burn := 400000, current_total_supply := 600000,
        circulating_supply := 499000\<rparr>,
      ledger_cells := \<lparr>cell_records = [sample_cell (TypedId 10) 1 (TypedId 11) 399000 5,
        sample_cell (TypedId 81) 2 (TypedId 13) 100000 0]\<rparr>\<rparr>"

definition minted_ledger :: CashLedger where
  "minted_ledger = burned_ledger
     \<lparr>ledger_supply := (ledger_supply burned_ledger)\<lparr>cumulative_security_issuance := 20,
        current_total_supply := 600020, circulating_supply := 499020, last_settled_epoch := 1, issuance_in_window := 20\<rparr>,
      ledger_cells := \<lparr>cell_records = [sample_cell (TypedId 8) 0 (TypedId 12) 20 7,
        sample_cell (TypedId 10) 1 (TypedId 11) 399000 5, sample_cell (TypedId 81) 2 (TypedId 13) 100000 0]\<rparr>\<rparr>"

definition sample_run :: "ledger_op list" where
  "sample_run = [OpTransfer sample_transfer 5, OpBurn sample_burn 6, OpMint sample_mint sample_settlement]"

section \<open>Hashes of the samples\<close>

lemma byte_hash_nonzero: "byte_hash bytes \<noteq> 0"
proof -
  have "Suc (unat (last (0 # bytes))) < 2 ^ 384" using unat_less_pow [of "last (0 # bytes)"] by simp
  then have "unat (word_of_nat (Suc (unat (last (0 # bytes)))) :: Digest384) = Suc (unat (last (0 # bytes)))"
    by (intro unat_word_of_nat) simp
  moreover have "byte_hash bytes = word_of_nat (Suc (unat (last (0 # bytes))))" by (simp add: byte_hash_def)
  ultimately show ?thesis by (metis Zero_not_Suc unat_0)
qed

lemma commit_byte_hash:
  assumes "encode_body T v = Inr body" "body \<noteq> []" "length body < 2 ^ 64"
  shows "commit byte_hash domain T v = Inr (1 + ucast (last body))"
  using assms by (simp add: commit_def commitment_transcript_def byte_hash_def)

lemma last_to_be_bytes: "0 < n \<Longrightarrow> last (to_be_bytes n x) = word_of_nat x"
  by (cases n) simp_all

lemma to_be_bytes_nonempty: "0 < n \<Longrightarrow> to_be_bytes n x \<noteq> []"
  by (cases n) simp_all

lemma last_byte:
  "last (enc_u16 x) = word_of_nat (unat x)" "last (enc_u64 y) = word_of_nat (unat y)"
  "last (enc_u128 z) = word_of_nat (unat z)" "enc_u16 x \<noteq> []" "enc_u64 y \<noteq> []" "enc_u128 z \<noteq> []"
  unfolding enc_u16_def enc_u64_def enc_u128_def by (simp_all only: last_to_be_bytes to_be_bytes_nonempty) simp_all

lemma sample_origin:
  "origin_id byte_hash \<lparr>origin_transition_id = t, output_index = n\<rparr> = Inr (TypedId (1 + ucast (ucast n :: u8)))"
proof -
  have "encode_body CoinCellOrigin_type \<lparr>origin_transition_id = t, output_index = n\<rparr>
      = Inr (enc_typed_id t @ enc_u16 n)"
    using coin_cell_origin.encode_body_total [of "\<lparr>origin_transition_id = t, output_index = n\<rparr>"]
    by (simp add: valid_CoinCellOrigin_def enc_CoinCellOrigin_def)
  from commit_byte_hash [OF this, of COIN_CELL_ID] show ?thesis
    by (simp add: origin_id_def coin_cell_id_def commit_id_def last_byte)
qed

lemma sample_output:
  "output_cell byte_hash t n owner amount height =
     (if into_digest owner = ZERO then Inl (Invalid InvalidInputs) else if amount = 0 then Inl (Invalid ZeroAmount)
      else Inr (sample_cell t n owner amount height))"
  by (simp add: output_cell_def CoinCell_new_def sample_origin sample_cell_def Let_def)

lemmas sample_cells = sample_cell_def less_eq_typed_id_def less_typed_id_def strictly_increasing_by_iff

lemma sample_reward_root: "set_root (SetCommitment_empty byte_hash SpentInput) \<noteq> ZERO"
  using byte_hash_nonzero by (simp add: SetCommitment_empty_def set_commitment_root_def ZERO_def)

lemma sample_nullifier_root: "nullifier_root (NullifierSet_empty byte_hash) \<noteq> ZERO"
  using byte_hash_nonzero by (simp add: NullifierSet_empty_def NullifierSet_from_commitment_def SetCommitment_empty_def
      set_commitment_root_def ZERO_def)

lemma sample_cap:
  assumes "issuance_window_opening_supply s = 1000000" "issuance_in_window s \<le> 20000"
  shows "within_cap \<lparr>ledger_definition = sample_asset, ledger_supply = s, ledger_cells = c, ledger_shielded = p,
    redeemed_reward_root = r, redeemed_reward_count = n\<rparr>"
  using assms by (simp add: within_cap_def sample_asset_def basis_points_amount_def BASIS_POINTS_DENOMINATOR_def
      checked_mul_def checked_add_def)

section \<open>Genesis\<close>

lemma sample_economy_valid: "valid_GenesisEconomy sample_economy"
  by (simp add: valid_GenesisEconomy_def valid_NativeAssetDefinition_def valid_GenesisAllocation_def
      GenesisEconomy_new_def GenesisAllocation_new_def NativeAssetDefinition_new_def sample_economy_def sample_asset_def
      is_symbol_byte_def less_eq_typed_id_def allocation_total_def checked_add_def ZERO_def cash_bounds)

lemma sample_economy_root: "economy_root_digest byte_hash sample_economy = Inr 81"
  using commit_byte_hash [OF genesis_economy.encode_body_total [OF sample_economy_valid], of GENESIS_ALLOCATION_ROOT]
    length_enc_GenesisEconomy [OF sample_economy_valid]
  by (simp add: economy_root_digest_def genesis_allocation_root_def commit_id_def enc_GenesisEconomy_def last_byte)
    (simp add: sample_economy_def)

lemma sample_genesis: "from_genesis byte_hash sample_economy = Inr sample_ledger"
proof -
  let ?records = "cell_records (ledger_cells sample_ledger)"
  have "genesis_records byte_hash sample_economy (enumerate 0 (allocations sample_economy)) [] = Inr ?records"
    using sample_economy_root by (simp add: sample_economy_def sample_output sample_ledger_def ZERO_def)
  moreover have "replace_cells ?records = Inr (ledger_cells sample_ledger)"
    by (simp add: replace_cells_eq_Inr sample_ledger_def sample_cells)
  moreover have "checked_sum 0 (map locked_amount (allocations sample_economy)) = Some 50000"
    by (simp add: sample_economy_def checked_add_def)
  moreover have "NativeSupply_genesis 1000000 50000 50000 = Inr (ledger_supply sample_ledger)"
    by (simp add: NativeSupply_genesis_def checked_add_def sample_ledger_def)
  moreover have "verify_invariants byte_hash sample_ledger = Inr ()"
    by (simp add: verify_invariants_iff sample_ledger_def sample_reward_root sample_cell_def sample_origin
        ledger_value_def ShieldedCashState_default_def sample_cap)
  moreover have "\<lparr>ledger_definition = economy_definition sample_economy, ledger_supply = ledger_supply sample_ledger,
      ledger_cells = ledger_cells sample_ledger, ledger_shielded = ShieldedCashState_default byte_hash,
      redeemed_reward_root = set_root (SetCommitment_empty byte_hash SpentInput), redeemed_reward_count = 0\<rparr>
      = sample_ledger"
    by (simp add: sample_economy_def sample_ledger_def)
  moreover have "def_genesis_supply (economy_definition sample_economy) = 1000000"
      "economy_security_reserve sample_economy = 50000"
    by (simp_all add: sample_economy_def sample_asset_def)
  ultimately show ?thesis by (simp add: from_genesis_def checked_def)
qed

section \<open>A run\<close>

lemma sample_transition_id:
  "cash_transition_id byte_hash CoinTransfer_type sample_transfer = Inr (TypedId 10)"
  "cash_transition_id byte_hash CoinBurnTransition_type sample_burn = Inr (TypedId 10)"
  "cash_transition_id byte_hash CoinMintTransition_type sample_mint = Inr (TypedId 8)"
proof -
  have v: "valid_CoinTransfer sample_transfer" "valid_CoinBurnTransition sample_burn"
      "valid_CoinMintTransition sample_mint"
    by (simp_all add: valid_CoinTransfer_def CoinTransfer_new_def sample_transfer_def valid_CoinBurnTransition_def
        CoinBurnTransition_new_def sample_burn_def valid_CoinMintTransition_def CoinMintTransition_new_def
        sample_mint_def cash_bounds binary_search_by_key_def binary_search_loop.simps strictly_increasing_by_iff)
  show "cash_transition_id byte_hash CoinTransfer_type sample_transfer = Inr (TypedId 10)"
    using commit_byte_hash [OF coin_transfer.encode_body_total [OF v(1)], of CASH_TRANSITION_ID] length_enc_CoinTransfer [OF v(1)]
    by (simp add: cash_transition_id_def commit_id_def enc_CoinTransfer_def last_byte) (simp add: sample_transfer_def)
  show "cash_transition_id byte_hash CoinBurnTransition_type sample_burn = Inr (TypedId 10)"
    using commit_byte_hash [OF coin_burn.encode_body_total [OF v(2)], of CASH_TRANSITION_ID] length_enc_CoinBurnTransition [OF v(2)]
    by (simp add: cash_transition_id_def commit_id_def enc_CoinBurnTransition_def last_byte) (simp add: sample_burn_def)
  show "cash_transition_id byte_hash CoinMintTransition_type sample_mint = Inr (TypedId 8)"
    using commit_byte_hash [OF coin_mint.encode_body_total [OF v(3)], of CASH_TRANSITION_ID]
    by (simp add: cash_transition_id_def commit_id_def enc_CoinMintTransition_def last_byte) (simp add: sample_mint_def)
qed

lemma sample_run_valid: "list_all valid_op sample_run"
  by (simp add: sample_run_def CoinTransfer_new_def sample_transfer_def CoinBurnTransition_new_def sample_burn_def
      EpochEconomicsTransition_new_def sample_settlement_def authorized_issuance_def post_supply_def checked_add_def
      checked_sub_def saturating_sub_def cash_bounds binary_search_by_key_def binary_search_loop.simps strictly_increasing_by_iff)

lemma sample_checked:
  "checked byte_hash transferred_ledger = Inr transferred_ledger"
  "checked byte_hash burned_ledger = Inr burned_ledger"
  "checked byte_hash minted_ledger = Inr minted_ledger"
  by (simp_all add: checked_eq_Inr verify_invariants_iff minted_ledger_def burned_ledger_def transferred_ledger_def
      sample_ledger_def sample_reward_root sample_cell_def sample_origin ledger_value_def
      ShieldedCashState_default_def sample_cap)

lemmas sample_cell_steps = sample_output find_cell_def sample_cells binary_search_by_key_def binary_search_loop.simps
  word_le_nat_alt change_cell_def ZERO_def unspent_cells_def replace_cells_def CoinCellSet_new_def cash_bounds

lemmas sample_supply_steps = checked_add_def checked_sub_def NativeSupply_new_def post_supply_def partition_total_def

lemma sample_transferred: "apply_transfer byte_hash sample_ledger sample_transfer 5 = Inr transferred_ledger"
proof -
  have "transfer_candidate byte_hash sample_ledger sample_transfer 5 = Inr transferred_ledger"
    by (simp add: transfer_candidate_def sample_transition_id)
      (simp add: sample_transfer_def sample_ledger_def transferred_ledger_def charge_fee_def sample_cell_steps
        sample_supply_steps)
  then show ?thesis by (simp add: apply_transfer_def sample_checked)
qed

lemma sample_burned: "apply_burn byte_hash transferred_ledger sample_burn 6 = Inr burned_ledger"
proof -
  have "burn_candidate byte_hash transferred_ledger sample_burn 6 = Inr burned_ledger"
    by (simp add: burn_candidate_def sample_transition_id)
      (simp add: sample_burn_def sample_ledger_def transferred_ledger_def burned_ledger_def sample_cell_steps
        sample_supply_steps)
  then show ?thesis by (simp add: apply_burn_def sample_checked)
qed

lemma sample_stake: "effective_stake_basis_points 0 600000 = Inr 0" "epoch_security_budget 600000 0 = Inr 24"
proof -
  show "effective_stake_basis_points 0 600000 = Inr 0"
    using effective_stake_basis_points_eq [of 600000 0] by (auto simp: unat_eq_0)
  show "epoch_security_budget 600000 0 = Inr 24"
    by (simp add: epoch_security_budget_def annual_security_budget_bps_def basis_points_amount_def
        BASIS_POINTS_DENOMINATOR_def ISSUANCE_EPOCHS_PER_YEAR_def checked_mul_def checked_add_def)
qed

lemma sample_minted: "apply_mint byte_hash burned_ledger sample_mint sample_settlement = Inr (minted_ledger, TypedId 1)"
proof -
  have "mint_candidate byte_hash burned_ledger sample_mint sample_settlement = Inr (minted_ledger, TypedId 1)"
    using sample_transition_id(3)
    by (simp add: mint_candidate_def sample_mint_def sample_settlement_def sample_ledger_def transferred_ledger_def burned_ledger_def minted_ledger_def
        sample_asset_def sample_cell_steps sample_supply_steps sample_stake insert_new_cell_def
        issuance_window_index_def window_terms_def basis_points_amount_def BASIS_POINTS_DENOMINATOR_def
        checked_mul_def ISSUANCE_EPOCHS_PER_YEAR_def)
  then show ?thesis using sample_checked(3) by (simp add: apply_mint_def checked_output_def checked_eq_Inr)
qed

lemma sample_run_result: "run_ops byte_hash sample_ledger sample_run = Inr minted_ledger"
  by (simp add: sample_run_def sample_transferred sample_burned sample_minted ledger_of_def)

section \<open>Further values\<close>

lemma sample_ledger_valid: "valid_CashLedger byte_hash sample_ledger"
proof -
  have "ledger_ok byte_hash sample_ledger" by (rule from_genesis_sound(1) [OF sample_economy_valid sample_genesis])
  moreover have "valid_NativeAssetDefinition (ledger_definition sample_ledger)"
    using sample_economy_valid by (simp add: valid_GenesisEconomy_def sample_economy_def sample_ledger_def)
  moreover have "valid_ShieldedCashState (ledger_shielded sample_ledger)"
    using sample_nullifier_root
    by (simp add: sample_ledger_def valid_ShieldedCashState_def valid_NullifierSet_def NullifierSet_new_def
        ShieldedCashState_default_def ShieldedCashState_new_def)
  ultimately show ?thesis by (simp add: valid_CashLedger_def ledger_ok_def)
qed

definition sample_paymaster :: CashPaymasterPolicyV1 where
  "sample_paymaster = \<lparr>pm_sponsor = TypedId 13, allowed_senders = [TypedId 11], maximum_fee = 50, epoch_budget = 100,
     pm_spent = 0, pm_epoch = 1, next_nonce = 3, pm_expires_height = 9\<rparr>"

definition sample_sponsorship :: CashPaymasterRequestV1 where
  "sample_sponsorship = \<lparr>rq_sponsor = TypedId 13, rq_sender = TypedId 11, rq_transfer = 10,
     rq_policy_commitment = 10, rq_approval_commitment = 1, rq_fee = 7, rq_expected_spent = 0, rq_epoch = 1,
     rq_nonce = 3, rq_expires_height = 8\<rparr>"

lemma sample_sponsored:
  "authorize byte_hash sample_paymaster sample_sponsorship 10 7 4 = Inr (sample_paymaster\<lparr>pm_spent := 7, next_nonce := 4\<rparr>)"
proof -
  have v: "valid_CashPaymasterPolicyV1 sample_paymaster"
    by (simp add: valid_CashPaymasterPolicyV1_def CashPaymasterPolicyV1_new_def sample_paymaster_def ZERO_def
        MAX_PAYMASTER_SENDERS_def strictly_increasing_by_iff)
  then have "CashPaymasterPolicyV1_commitment byte_hash sample_paymaster = Inr 10"
    using paymaster_policy.encode_envelope_total [OF v]
    by (simp add: CashPaymasterPolicyV1_commitment_def enc_envelope_def enc_CashPaymasterPolicyV1_def
        byte_hash_def last_byte) (simp add: sample_paymaster_def)
  then show ?thesis
    by (simp add: authorize_def sample_sponsorship_def)
      (simp add: sample_paymaster_def binary_search_by_key_def binary_search_loop.simps checked_add_def)
qed

definition sample_reservation :: CapacityReservationV1 where
  "sample_reservation = \<lparr>res_id = 1, res_payer = TypedId 11,
     res_quote = \<lparr>fq_base = 1, fq_resource_units = 100, fq_resource_price = 3, fq_congestion_price = 1\<rparr>,
     res_deposit = 302, res_expires_height = 9, res_settled = False\<rparr>"

lemma sample_reservation_valid: "valid_CapacityReservationV1 sample_reservation"
  by (simp add: valid_CapacityReservationV1_def CapacityReservationV1_new_def sample_reservation_def FeeQuote_total_def
      fee_total_def checked_mul_def checked_add_def ZERO_def)

end
