(* ===== verification/Credential_Types.thy ===== *)
theory Credential_Types
  imports Crypto Commitment
begin

text \<open>
  Credentials as they are exchanged (\<^verbatim>\<open>protocol-types/src/credential.rs\<close>): issuance statements,
  signed credentials, status registries and acceptance policies, and the public inputs of
  credential predicates with the receipts and presentations that bind them to one action.
\<close>

section \<open>Errors and classes\<close>

definition CREDENTIAL_FORMAT_VERSION :: u16 where "CREDENTIAL_FORMAT_VERSION = 1"
definition MAX_ACCEPTED_CREDENTIAL_ISSUERS :: usize where "MAX_ACCEPTED_CREDENTIAL_ISSUERS = 32"
definition MAX_ACCEPTED_CREDENTIAL_SCHEMAS :: usize where "MAX_ACCEPTED_CREDENTIAL_SCHEMAS = 32"

lemmas credential_bounds = CREDENTIAL_FORMAT_VERSION_def MAX_ACCEPTED_CREDENTIAL_ISSUERS_def
  MAX_ACCEPTED_CREDENTIAL_SCHEMAS_def

datatype CredentialValidationError =
    UnsupportedFormatVersion u16
  | CredentialEndsBeforeStart
  | UnsupportedIssuerSignatureSuite
  | TooManyAcceptedIssuers usize usize
  | AcceptedIssuersNotStrictlyIncreasing
  | TooManyAcceptedSchemas usize usize
  | AcceptedSchemasNotStrictlyIncreasing
  | InvalidPredicateBinding
  | InvalidTlsEvidence
  | InvalidVcIssuerPresentation

fun credential_decode_error :: "CredentialValidationError \<Rightarrow> decode_error" where
  "credential_decode_error (UnsupportedFormatVersion _) = InvalidValue ''credential uses an unsupported format version''"
| "credential_decode_error CredentialEndsBeforeStart = InvalidValue ''credential validity ends before it starts''"
| "credential_decode_error UnsupportedIssuerSignatureSuite =
     InvalidValue ''credential uses an unsupported issuer signature suite''"
| "credential_decode_error (TooManyAcceptedIssuers _ _) = InvalidValue ''credential policy exceeds its issuer bound''"
| "credential_decode_error AcceptedIssuersNotStrictlyIncreasing =
     InvalidValue ''credential policy issuers are not strictly increasing''"
| "credential_decode_error (TooManyAcceptedSchemas _ _) = InvalidValue ''credential policy exceeds its schema bound''"
| "credential_decode_error AcceptedSchemasNotStrictlyIncreasing =
     InvalidValue ''credential policy schemas are not strictly increasing''"
| "credential_decode_error InvalidPredicateBinding = InvalidValue ''credential predicate binding is invalid''"
| "credential_decode_error InvalidTlsEvidence = InvalidValue ''TLS credential evidence is invalid''"
| "credential_decode_error InvalidVcIssuerPresentation = InvalidValue ''VCIssuer presentation is invalid''"

datatype CredentialAssuranceClassV1 = TlsNotarizedEvidence | HolderSelfIssued | IssuerUpgraded |
  RegulatedAttestation

fun CredentialAssuranceClassV1_tag :: "CredentialAssuranceClassV1 \<Rightarrow> u8" where
  "CredentialAssuranceClassV1_tag TlsNotarizedEvidence = 0"
| "CredentialAssuranceClassV1_tag HolderSelfIssued = 1"
| "CredentialAssuranceClassV1_tag IssuerUpgraded = 2"
| "CredentialAssuranceClassV1_tag RegulatedAttestation = 3"

definition encode_CredentialAssuranceClassV1 :: "CredentialAssuranceClassV1 \<Rightarrow> encoder \<Rightarrow> encode_error + encoder" where
  "encode_CredentialAssuranceClassV1 v e = write_u8 (CredentialAssuranceClassV1_tag v) e"

definition decode_CredentialAssuranceClassV1 :: "decoder \<Rightarrow> decode_error + (CredentialAssuranceClassV1 \<times> decoder)" where
  "decode_CredentialAssuranceClassV1 d = and_then (read_u8 d) (\<lambda>(tag, d).
     if tag = 0 then Inr (TlsNotarizedEvidence, d)
     else if tag = 1 then Inr (HolderSelfIssued, d)
     else if tag = 2 then Inr (IssuerUpgraded, d)
     else if tag = 3 then Inr (RegulatedAttestation, d)
     else Inl (InvalidEnumTag ''CredentialAssuranceClassV1'' tag))"

text \<open>The classes are ordered by strength.\<close>

instantiation CredentialAssuranceClassV1 :: linorder
begin

definition less_eq_CredentialAssuranceClassV1 ::
    "CredentialAssuranceClassV1 \<Rightarrow> CredentialAssuranceClassV1 \<Rightarrow> bool" where
  "a \<le> b \<longleftrightarrow> CredentialAssuranceClassV1_tag a \<le> CredentialAssuranceClassV1_tag b"

definition less_CredentialAssuranceClassV1 ::
    "CredentialAssuranceClassV1 \<Rightarrow> CredentialAssuranceClassV1 \<Rightarrow> bool" where
  "a < b \<longleftrightarrow> CredentialAssuranceClassV1_tag a < CredentialAssuranceClassV1_tag b"

instance
proof
  fix a b :: CredentialAssuranceClassV1
  show "a \<le> b \<Longrightarrow> b \<le> a \<Longrightarrow> a = b"
    by (cases a; cases b) (simp_all add: less_eq_CredentialAssuranceClassV1_def word_le_nat_alt)
qed (auto simp: less_eq_CredentialAssuranceClassV1_def less_CredentialAssuranceClassV1_def)

end

datatype CredentialPredicateKind = AgeAtLeast | JurisdictionNotIn | AssetAmountAtLeast

fun CredentialPredicateKind_tag :: "CredentialPredicateKind \<Rightarrow> u8" where
  "CredentialPredicateKind_tag AgeAtLeast = 0"
| "CredentialPredicateKind_tag JurisdictionNotIn = 1"
| "CredentialPredicateKind_tag AssetAmountAtLeast = 2"

definition encode_CredentialPredicateKind :: "CredentialPredicateKind \<Rightarrow> encoder \<Rightarrow> encode_error + encoder" where
  "encode_CredentialPredicateKind v e = write_u8 (CredentialPredicateKind_tag v) e"

definition decode_CredentialPredicateKind :: "decoder \<Rightarrow> decode_error + (CredentialPredicateKind \<times> decoder)" where
  "decode_CredentialPredicateKind d = and_then (read_u8 d) (\<lambda>(tag, d).
     if tag = 0 then Inr (AgeAtLeast, d)
     else if tag = 1 then Inr (JurisdictionNotIn, d)
     else if tag = 2 then Inr (AssetAmountAtLeast, d)
     else Inl (InvalidEnumTag ''CredentialPredicateKind'' tag))"

datatype VcIssuerFormatV1 = SdJwtVc | Mdoc

fun VcIssuerFormatV1_tag :: "VcIssuerFormatV1 \<Rightarrow> u8" where
  "VcIssuerFormatV1_tag SdJwtVc = 0"
| "VcIssuerFormatV1_tag Mdoc = 1"

definition encode_VcIssuerFormatV1 :: "VcIssuerFormatV1 \<Rightarrow> encoder \<Rightarrow> encode_error + encoder" where
  "encode_VcIssuerFormatV1 v e = write_u8 (VcIssuerFormatV1_tag v) e"

definition decode_VcIssuerFormatV1 :: "decoder \<Rightarrow> decode_error + (VcIssuerFormatV1 \<times> decoder)" where
  "decode_VcIssuerFormatV1 d = and_then (read_u8 d) (\<lambda>(tag, d).
     if tag = 0 then Inr (SdJwtVc, d)
     else if tag = 1 then Inr (Mdoc, d)
     else Inl (InvalidEnumTag ''VcIssuerFormatV1'' tag))"

section \<open>Evidence from notarized sessions\<close>

record TlsCredentialEvidenceV1 =
  tls_notary_identity :: Digest384
  tls_server_identity :: Digest384
  tls_transcript_commitment :: Digest384
  tls_disclosed_fields_commitment :: Digest384
  tls_holder_binding :: Digest384
  tls_schema_id :: Digest384
  tls_observed_height :: Height
  tls_fresh_until_height :: Height
  tls_status_commitment :: Digest384
  tls_assurance :: CredentialAssuranceClassV1
  tls_issuer_authorization :: "Digest384 option"

definition TlsCredentialEvidenceV1_new :: "TlsCredentialEvidenceV1 \<Rightarrow> CredentialValidationError + TlsCredentialEvidenceV1" where
  "TlsCredentialEvidenceV1_new r =
     (if ZERO \<in> set [tls_notary_identity r, tls_server_identity r, tls_transcript_commitment r,
          tls_disclosed_fields_commitment r, tls_holder_binding r, tls_schema_id r, tls_status_commitment r]
        \<or> tls_observed_height r = 0 \<or> tls_fresh_until_height r \<le> tls_observed_height r
        \<or> tls_issuer_authorization r = Some ZERO
        \<or> (tls_assurance r \<ge> IssuerUpgraded) \<noteq> (tls_issuer_authorization r \<noteq> None)
      then Inl InvalidTlsEvidence
      else Inr r)"

definition encode_TlsCredentialEvidenceV1 :: "TlsCredentialEvidenceV1 \<Rightarrow> encoder \<Rightarrow> encode_error + encoder" where
  "encode_TlsCredentialEvidenceV1 r e =
     and_then (encode_Digest384 (tls_notary_identity r) e) (\<lambda>e.
     and_then (encode_Digest384 (tls_server_identity r) e) (\<lambda>e.
     and_then (encode_Digest384 (tls_transcript_commitment r) e) (\<lambda>e.
     and_then (encode_Digest384 (tls_disclosed_fields_commitment r) e) (\<lambda>e.
     and_then (encode_Digest384 (tls_holder_binding r) e) (\<lambda>e.
     and_then (encode_Digest384 (tls_schema_id r) e) (\<lambda>e.
     and_then (write_u64 (tls_observed_height r) e) (\<lambda>e.
     and_then (write_u64 (tls_fresh_until_height r) e) (\<lambda>e.
     and_then (encode_Digest384 (tls_status_commitment r) e) (\<lambda>e.
     and_then (encode_CredentialAssuranceClassV1 (tls_assurance r) e) (\<lambda>e.
     encode_option encode_Digest384 (tls_issuer_authorization r) e))))))))))"

definition decode_TlsCredentialEvidenceV1 :: "decoder \<Rightarrow> decode_error + (TlsCredentialEvidenceV1 \<times> decoder)" where
  "decode_TlsCredentialEvidenceV1 d =
     and_then (decode_Digest384 d) (\<lambda>(x0, d).
     and_then (decode_Digest384 d) (\<lambda>(x1, d).
     and_then (decode_Digest384 d) (\<lambda>(x2, d).
     and_then (decode_Digest384 d) (\<lambda>(x3, d).
     and_then (decode_Digest384 d) (\<lambda>(x4, d).
     and_then (decode_Digest384 d) (\<lambda>(x5, d).
     and_then (read_u64 d) (\<lambda>(x6, d).
     and_then (read_u64 d) (\<lambda>(x7, d).
     and_then (decode_Digest384 d) (\<lambda>(x8, d).
     and_then (decode_CredentialAssuranceClassV1 d) (\<lambda>(x9, d).
     and_then (decode_option decode_Digest384 d) (\<lambda>(x10, d).
     and_then (map_err (\<lambda>_. InvalidValue ''invalid TLS credential evidence'')
       (TlsCredentialEvidenceV1_new \<lparr>tls_notary_identity = x0, tls_server_identity = x1,
         tls_transcript_commitment = x2, tls_disclosed_fields_commitment = x3, tls_holder_binding
         = x4, tls_schema_id = x5, tls_observed_height = x6, tls_fresh_until_height = x7,
         tls_status_commitment = x8, tls_assurance = x9, tls_issuer_authorization = x10\<rparr>))
         (\<lambda>r. Inr (r, d)))))))))))))"

definition TlsCredentialEvidenceV1_type :: "TlsCredentialEvidenceV1 canonical_type" where
  "TlsCredentialEvidenceV1_type = \<lparr>ct_encode = encode_TlsCredentialEvidenceV1, ct_decode = decode_TlsCredentialEvidenceV1, ct_type_tag = 0x014d,
     ct_schema_version = 1, ct_max_encoded_len = 48 * 7 + 8 * 2 + 1 + 1 + 48\<rparr>"

definition tls_valid_at :: "TlsCredentialEvidenceV1 \<Rightarrow> Height \<Rightarrow> bool" where
  "tls_valid_at r height \<longleftrightarrow> tls_observed_height r \<le> height \<and> height < tls_fresh_until_height r"

definition TlsCredentialEvidenceV1_commitment :: "hash \<Rightarrow> TlsCredentialEvidenceV1 \<Rightarrow> encode_error + Digest384" where
  "TlsCredentialEvidenceV1_commitment shake256 r =
     and_then (encode_envelope TlsCredentialEvidenceV1_type r) (\<lambda>bytes. Inr (shake256 (ascii ''ACTIVECHAIN-TLS-CREDENTIAL-EVIDENCE-V1'' @ bytes)))"

section \<open>Statements and credentials\<close>

record CredentialStatement =
  st_format_version :: u16
  st_issuer :: PrincipalId
  st_subject_binding :: Digest384
  st_schema_id :: Digest384
  st_claims_commitment :: Digest384
  st_issuance_height :: Height
  st_valid_from :: Timestamp
  st_valid_until :: "Timestamp option"
  st_status_registry :: "ObjectId option"
  st_issuance_log_root :: "Digest384 option"
  st_terms_commitment :: "Digest384 option"

definition CredentialStatement_new :: "CredentialStatement \<Rightarrow> CredentialValidationError + CredentialStatement" where
  "CredentialStatement_new r =
     (if st_format_version r \<noteq> CREDENTIAL_FORMAT_VERSION then Inl (UnsupportedFormatVersion (st_format_version r))
      else if is_some_and (\<lambda>valid_until. valid_until < st_valid_from r) (st_valid_until r)
      then Inl CredentialEndsBeforeStart
      else Inr r)"

definition encode_CredentialStatement :: "CredentialStatement \<Rightarrow> encoder \<Rightarrow> encode_error + encoder" where
  "encode_CredentialStatement r e =
     and_then (write_u16 (st_format_version r) e) (\<lambda>e.
     and_then (encode_typed_id (st_issuer r) e) (\<lambda>e.
     and_then (encode_Digest384 (st_subject_binding r) e) (\<lambda>e.
     and_then (encode_Digest384 (st_schema_id r) e) (\<lambda>e.
     and_then (encode_Digest384 (st_claims_commitment r) e) (\<lambda>e.
     and_then (write_u64 (st_issuance_height r) e) (\<lambda>e.
     and_then (write_u64 (st_valid_from r) e) (\<lambda>e.
     and_then (encode_option write_u64 (st_valid_until r) e) (\<lambda>e.
     and_then (encode_option encode_typed_id (st_status_registry r) e) (\<lambda>e.
     and_then (encode_option encode_Digest384 (st_issuance_log_root r) e) (\<lambda>e.
     encode_option encode_Digest384 (st_terms_commitment r) e))))))))))"

definition decode_CredentialStatement :: "decoder \<Rightarrow> decode_error + (CredentialStatement \<times> decoder)" where
  "decode_CredentialStatement d =
     and_then (read_u16 d) (\<lambda>(x0, d).
     and_then (decode_typed_id d) (\<lambda>(x1, d).
     and_then (decode_Digest384 d) (\<lambda>(x2, d).
     and_then (decode_Digest384 d) (\<lambda>(x3, d).
     and_then (decode_Digest384 d) (\<lambda>(x4, d).
     and_then (read_u64 d) (\<lambda>(x5, d).
     and_then (read_u64 d) (\<lambda>(x6, d).
     and_then (decode_option read_u64 d) (\<lambda>(x7, d).
     and_then (decode_option decode_typed_id d) (\<lambda>(x8, d).
     and_then (decode_option decode_Digest384 d) (\<lambda>(x9, d).
     and_then (decode_option decode_Digest384 d) (\<lambda>(x10, d).
     and_then (map_err credential_decode_error
       (CredentialStatement_new \<lparr>st_format_version = x0, st_issuer = x1, st_subject_binding
         = x2, st_schema_id = x3, st_claims_commitment = x4, st_issuance_height = x5,
         st_valid_from = x6, st_valid_until = x7, st_status_registry = x8, st_issuance_log_root =
         x9, st_terms_commitment = x10\<rparr>)) (\<lambda>r. Inr (r, d)))))))))))))"

definition CredentialStatement_type :: "CredentialStatement canonical_type" where
  "CredentialStatement_type = \<lparr>ct_encode = encode_CredentialStatement, ct_decode = decode_CredentialStatement, ct_type_tag = 0x0023,
     ct_schema_version = 1, ct_max_encoded_len = 366\<rparr>"

definition statement_is_valid_at :: "CredentialStatement \<Rightarrow> Timestamp \<Rightarrow> bool" where
  "statement_is_valid_at r now \<longleftrightarrow> now \<ge> st_valid_from r
     \<and> (case st_valid_until r of Some until \<Rightarrow> now \<le> until | None \<Rightarrow> True)"

record Credential =
  cred_statement :: CredentialStatement
  cred_signature :: ProtocolSignature

definition Credential_new :: "Credential \<Rightarrow> CredentialValidationError + Credential" where
  "Credential_new r =
     (if sig_suite (cred_signature r) \<noteq> ML_DSA_65 \<and> sig_suite (cred_signature r) \<noteq> ML_DSA_87
      then Inl UnsupportedIssuerSignatureSuite
      else Inr r)"

definition encode_Credential :: "Credential \<Rightarrow> encoder \<Rightarrow> encode_error + encoder" where
  "encode_Credential r e =
     and_then (encode_CredentialStatement (cred_statement r) e) (\<lambda>e.
     encode_ProtocolSignature (cred_signature r) e)"

definition decode_Credential :: "decoder \<Rightarrow> decode_error + (Credential \<times> decoder)" where
  "decode_Credential d =
     and_then (decode_CredentialStatement d) (\<lambda>(x0, d).
     and_then (decode_ProtocolSignature d) (\<lambda>(x1, d).
     and_then (map_err credential_decode_error
       (Credential_new \<lparr>cred_statement = x0, cred_signature = x1\<rparr>)) (\<lambda>r. Inr
         (r, d))))"

definition Credential_type :: "Credential canonical_type" where
  "Credential_type = \<lparr>ct_encode = encode_Credential, ct_decode = decode_Credential, ct_type_tag = 0x0024,
     ct_schema_version = 1, ct_max_encoded_len = 5001\<rparr>"

section \<open>Status registries and acceptance policies\<close>

record CredentialStatusRegistry =
  reg_id :: ObjectId
  reg_issuer :: PrincipalId
  reg_schema_id :: Digest384
  reg_status_root :: Digest384
  reg_sequence :: u64
  reg_effective_height :: Height

definition registry_is_well_formed :: "CredentialStatusRegistry \<Rightarrow> bool" where
  "registry_is_well_formed r \<longleftrightarrow> into_digest (reg_id r) \<noteq> ZERO \<and> into_digest (reg_issuer r) \<noteq> ZERO
     \<and> reg_schema_id r \<noteq> ZERO \<and> reg_status_root r \<noteq> ZERO \<and> reg_sequence r > 0"

text \<open>The decoder admits only well-formed registries.\<close>

definition CredentialStatusRegistry_admit :: "CredentialStatusRegistry \<Rightarrow> decode_error + CredentialStatusRegistry" where
  "CredentialStatusRegistry_admit r =
     (if registry_is_well_formed r then Inr r
      else Inl (InvalidValue ''malformed credential status registry''))"

definition encode_CredentialStatusRegistry :: "CredentialStatusRegistry \<Rightarrow> encoder \<Rightarrow> encode_error + encoder" where
  "encode_CredentialStatusRegistry r e =
     and_then (encode_typed_id (reg_id r) e) (\<lambda>e.
     and_then (encode_typed_id (reg_issuer r) e) (\<lambda>e.
     and_then (encode_Digest384 (reg_schema_id r) e) (\<lambda>e.
     and_then (encode_Digest384 (reg_status_root r) e) (\<lambda>e.
     and_then (write_u64 (reg_sequence r) e) (\<lambda>e.
     write_u64 (reg_effective_height r) e)))))"

definition decode_CredentialStatusRegistry :: "decoder \<Rightarrow> decode_error + (CredentialStatusRegistry \<times> decoder)" where
  "decode_CredentialStatusRegistry d =
     and_then (decode_typed_id d) (\<lambda>(x0, d).
     and_then (decode_typed_id d) (\<lambda>(x1, d).
     and_then (decode_Digest384 d) (\<lambda>(x2, d).
     and_then (decode_Digest384 d) (\<lambda>(x3, d).
     and_then (read_u64 d) (\<lambda>(x4, d).
     and_then (read_u64 d) (\<lambda>(x5, d).
     and_then (CredentialStatusRegistry_admit \<lparr>reg_id = x0, reg_issuer = x1, reg_schema_id = x2,
         reg_status_root = x3, reg_sequence = x4, reg_effective_height = x5\<rparr>) (\<lambda>r.
         Inr (r, d))))))))"

definition CredentialStatusRegistry_type :: "CredentialStatusRegistry canonical_type" where
  "CredentialStatusRegistry_type = \<lparr>ct_encode = encode_CredentialStatusRegistry, ct_decode = decode_CredentialStatusRegistry, ct_type_tag = 0x0025,
     ct_schema_version = 1, ct_max_encoded_len = 208\<rparr>"

definition registry_admits :: "CredentialStatusRegistry \<Rightarrow> CredentialStatement \<Rightarrow> Height \<Rightarrow> bool" where
  "registry_admits r statement finalized_height \<longleftrightarrow> registry_is_well_formed r
     \<and> reg_issuer r = st_issuer statement \<and> reg_schema_id r = st_schema_id statement
     \<and> (case st_status_registry statement of Some registry_id \<Rightarrow> registry_id = reg_id r | None \<Rightarrow> False)
     \<and> reg_effective_height r \<le> finalized_height"

record CredentialAcceptancePolicy =
  accepted_issuers :: "PrincipalId list"
  accepted_schemas :: "Digest384 list"
  pol_maximum_status_age :: u64
  require_status :: bool
  require_issuance_log :: bool

definition CredentialAcceptancePolicy_new :: "CredentialAcceptancePolicy \<Rightarrow> CredentialValidationError + CredentialAcceptancePolicy" where
  "CredentialAcceptancePolicy_new r =
     (if length (accepted_issuers r) > MAX_ACCEPTED_CREDENTIAL_ISSUERS
      then Inl (TooManyAcceptedIssuers (length (accepted_issuers r)) MAX_ACCEPTED_CREDENTIAL_ISSUERS)
      else if \<not> strictly_increasing (accepted_issuers r) then Inl AcceptedIssuersNotStrictlyIncreasing
      else if length (accepted_schemas r) > MAX_ACCEPTED_CREDENTIAL_SCHEMAS
      then Inl (TooManyAcceptedSchemas (length (accepted_schemas r)) MAX_ACCEPTED_CREDENTIAL_SCHEMAS)
      else if \<not> strictly_increasing (accepted_schemas r) then Inl AcceptedSchemasNotStrictlyIncreasing
      else Inr r)"

definition encode_CredentialAcceptancePolicy :: "CredentialAcceptancePolicy \<Rightarrow> encoder \<Rightarrow> encode_error + encoder" where
  "encode_CredentialAcceptancePolicy r e =
     and_then (encode_vec encode_typed_id MAX_ACCEPTED_CREDENTIAL_ISSUERS (accepted_issuers r) e) (\<lambda>e.
     and_then (encode_vec encode_Digest384 MAX_ACCEPTED_CREDENTIAL_SCHEMAS (accepted_schemas r) e) (\<lambda>e.
     and_then (write_u64 (pol_maximum_status_age r) e) (\<lambda>e.
     and_then (write_bool (require_status r) e) (\<lambda>e.
     write_bool (require_issuance_log r) e))))"

definition decode_CredentialAcceptancePolicy :: "decoder \<Rightarrow> decode_error + (CredentialAcceptancePolicy \<times> decoder)" where
  "decode_CredentialAcceptancePolicy d =
     and_then (decode_vec decode_typed_id MAX_ACCEPTED_CREDENTIAL_ISSUERS d) (\<lambda>(x0, d).
     and_then (decode_vec decode_Digest384 MAX_ACCEPTED_CREDENTIAL_SCHEMAS d) (\<lambda>(x1, d).
     and_then (read_u64 d) (\<lambda>(x2, d).
     and_then (read_bool d) (\<lambda>(x3, d).
     and_then (read_bool d) (\<lambda>(x4, d).
     and_then (map_err credential_decode_error
       (CredentialAcceptancePolicy_new \<lparr>accepted_issuers = x0, accepted_schemas = x1,
         pol_maximum_status_age = x2, require_status = x3, require_issuance_log = x4\<rparr>))
         (\<lambda>r. Inr (r, d)))))))"

definition CredentialAcceptancePolicy_type :: "CredentialAcceptancePolicy canonical_type" where
  "CredentialAcceptancePolicy_type = \<lparr>ct_encode = encode_CredentialAcceptancePolicy, ct_decode = decode_CredentialAcceptancePolicy, ct_type_tag = 0x0026,
     ct_schema_version = 1, ct_max_encoded_len = 3084\<rparr>"

definition accepts_issuer :: "CredentialAcceptancePolicy \<Rightarrow> PrincipalId \<Rightarrow> bool" where
  "accepts_issuer r issuer \<longleftrightarrow> binary_search issuer (accepted_issuers r) \<noteq> None"

definition accepts_schema :: "CredentialAcceptancePolicy \<Rightarrow> Digest384 \<Rightarrow> bool" where
  "accepts_schema r schema \<longleftrightarrow> binary_search schema (accepted_schemas r) \<noteq> None"

definition policy_accepts ::
    "CredentialAcceptancePolicy \<Rightarrow> Credential \<Rightarrow> CredentialStatusRegistry option \<Rightarrow> Timestamp \<Rightarrow> Height \<Rightarrow> bool" where
  "policy_accepts r credential registry now finalized_height =
     (let statement = cred_statement credential in
      accepts_issuer r (st_issuer statement) \<and> accepts_schema r (st_schema_id statement)
      \<and> statement_is_valid_at statement now
      \<and> (case registry of
           Some snapshot \<Rightarrow> registry_admits snapshot statement finalized_height
             \<and> saturating_sub finalized_height (reg_effective_height snapshot) \<le> pol_maximum_status_age r
         | None \<Rightarrow> \<not> require_status r))"

section \<open>Predicates and receipts\<close>

record CredentialPredicateV1 =
  pred_schema_id :: Digest384
  pred_claims_commitment :: Digest384
  pred_holder_binding :: Digest384
  pred_chain_id :: ChainId
  pred_audience :: PrincipalId
  pred_action :: TransactionId
  pred_nonce :: Digest384
  pred_policy_revision :: u64
  pred_expires_height :: Height
  pred_kind :: CredentialPredicateKind
  pred_value_commitment :: Digest384

definition CredentialPredicateV1_new :: "CredentialPredicateV1 \<Rightarrow> CredentialValidationError + CredentialPredicateV1" where
  "CredentialPredicateV1_new r =
     (if ZERO \<in> set [pred_schema_id r, pred_claims_commitment r, pred_holder_binding r, pred_nonce r,
          pred_value_commitment r]
        \<or> pred_policy_revision r = 0 \<or> pred_expires_height r = 0
      then Inl InvalidPredicateBinding
      else Inr r)"

definition encode_CredentialPredicateV1 :: "CredentialPredicateV1 \<Rightarrow> encoder \<Rightarrow> encode_error + encoder" where
  "encode_CredentialPredicateV1 r e =
     and_then (encode_Digest384 (pred_schema_id r) e) (\<lambda>e.
     and_then (encode_Digest384 (pred_claims_commitment r) e) (\<lambda>e.
     and_then (encode_Digest384 (pred_holder_binding r) e) (\<lambda>e.
     and_then (encode_typed_id (pred_chain_id r) e) (\<lambda>e.
     and_then (encode_typed_id (pred_audience r) e) (\<lambda>e.
     and_then (encode_typed_id (pred_action r) e) (\<lambda>e.
     and_then (encode_Digest384 (pred_nonce r) e) (\<lambda>e.
     and_then (write_u64 (pred_policy_revision r) e) (\<lambda>e.
     and_then (write_u64 (pred_expires_height r) e) (\<lambda>e.
     and_then (encode_CredentialPredicateKind (pred_kind r) e) (\<lambda>e.
     encode_Digest384 (pred_value_commitment r) e))))))))))"

definition decode_CredentialPredicateV1 :: "decoder \<Rightarrow> decode_error + (CredentialPredicateV1 \<times> decoder)" where
  "decode_CredentialPredicateV1 d =
     and_then (decode_Digest384 d) (\<lambda>(x0, d).
     and_then (decode_Digest384 d) (\<lambda>(x1, d).
     and_then (decode_Digest384 d) (\<lambda>(x2, d).
     and_then (decode_typed_id d) (\<lambda>(x3, d).
     and_then (decode_typed_id d) (\<lambda>(x4, d).
     and_then (decode_typed_id d) (\<lambda>(x5, d).
     and_then (decode_Digest384 d) (\<lambda>(x6, d).
     and_then (read_u64 d) (\<lambda>(x7, d).
     and_then (read_u64 d) (\<lambda>(x8, d).
     and_then (decode_CredentialPredicateKind d) (\<lambda>(x9, d).
     and_then (decode_Digest384 d) (\<lambda>(x10, d).
     and_then (map_err (\<lambda>_. InvalidValue ''invalid credential predicate'')
       (CredentialPredicateV1_new \<lparr>pred_schema_id = x0, pred_claims_commitment = x1,
         pred_holder_binding = x2, pred_chain_id = x3, pred_audience = x4, pred_action = x5,
         pred_nonce = x6, pred_policy_revision = x7, pred_expires_height = x8, pred_kind = x9,
         pred_value_commitment = x10\<rparr>)) (\<lambda>r. Inr (r, d)))))))))))))"

definition CredentialPredicateV1_type :: "CredentialPredicateV1 canonical_type" where
  "CredentialPredicateV1_type = \<lparr>ct_encode = encode_CredentialPredicateV1, ct_decode = decode_CredentialPredicateV1, ct_type_tag = 0x0027,
     ct_schema_version = 1, ct_max_encoded_len = 48 * 8 + 8 * 2 + 1\<rparr>"

definition predicate_valid_at :: "CredentialPredicateV1 \<Rightarrow> Height \<Rightarrow> bool" where
  "predicate_valid_at r height \<longleftrightarrow> height < pred_expires_height r"

definition predicate_binds_action ::
    "CredentialPredicateV1 \<Rightarrow> ChainId \<Rightarrow> PrincipalId \<Rightarrow> TransactionId \<Rightarrow> bool" where
  "predicate_binds_action r chain audience action \<longleftrightarrow>
     pred_chain_id r = chain \<and> pred_audience r = audience \<and> pred_action r = action"

definition CredentialPredicateV1_commitment :: "hash \<Rightarrow> CredentialPredicateV1 \<Rightarrow> encode_error + Digest384" where
  "CredentialPredicateV1_commitment shake256 r =
     and_then (encode_envelope CredentialPredicateV1_type r) (\<lambda>bytes. Inr (shake256 (ascii ''ACTIVECHAIN-CREDENTIAL-PREDICATE-V1'' @ bytes)))"

record CredentialPredicateReceiptV1 =
  prc_evidence_commitment :: Digest384
  prc_predicate_commitment :: Digest384
  prc_assurance :: CredentialAssuranceClassV1
  prc_verifier :: PrincipalId
  prc_proof_system_commitment :: Digest384
  prc_status_commitment :: Digest384
  prc_issuer_authorization :: "Digest384 option"
  prc_policy_commitment :: Digest384
  prc_nullifier :: Digest384
  prc_verified_height :: Height
  prc_finalized_height :: Height

text \<open>The checks of the decoder.\<close>

definition CredentialPredicateReceiptV1_admit :: "CredentialPredicateReceiptV1 \<Rightarrow> decode_error + CredentialPredicateReceiptV1" where
  "CredentialPredicateReceiptV1_admit r =
     (if into_digest (prc_verifier r) = ZERO
        \<or> ZERO \<in> set [prc_evidence_commitment r, prc_predicate_commitment r, prc_proof_system_commitment r,
            prc_status_commitment r, prc_policy_commitment r, prc_nullifier r]
        \<or> prc_issuer_authorization r = Some ZERO
        \<or> (prc_assurance r \<ge> IssuerUpgraded) \<noteq> (prc_issuer_authorization r \<noteq> None)
        \<or> prc_verified_height r = 0 \<or> prc_finalized_height r < prc_verified_height r
      then Inl (InvalidValue ''invalid credential predicate receipt'')
      else Inr r)"

definition encode_CredentialPredicateReceiptV1 :: "CredentialPredicateReceiptV1 \<Rightarrow> encoder \<Rightarrow> encode_error + encoder" where
  "encode_CredentialPredicateReceiptV1 r e =
     and_then (encode_Digest384 (prc_evidence_commitment r) e) (\<lambda>e.
     and_then (encode_Digest384 (prc_predicate_commitment r) e) (\<lambda>e.
     and_then (encode_CredentialAssuranceClassV1 (prc_assurance r) e) (\<lambda>e.
     and_then (encode_typed_id (prc_verifier r) e) (\<lambda>e.
     and_then (encode_Digest384 (prc_proof_system_commitment r) e) (\<lambda>e.
     and_then (encode_Digest384 (prc_status_commitment r) e) (\<lambda>e.
     and_then (encode_option encode_Digest384 (prc_issuer_authorization r) e) (\<lambda>e.
     and_then (encode_Digest384 (prc_policy_commitment r) e) (\<lambda>e.
     and_then (encode_Digest384 (prc_nullifier r) e) (\<lambda>e.
     and_then (write_u64 (prc_verified_height r) e) (\<lambda>e.
     write_u64 (prc_finalized_height r) e))))))))))"

definition decode_CredentialPredicateReceiptV1 :: "decoder \<Rightarrow> decode_error + (CredentialPredicateReceiptV1 \<times> decoder)" where
  "decode_CredentialPredicateReceiptV1 d =
     and_then (decode_Digest384 d) (\<lambda>(x0, d).
     and_then (decode_Digest384 d) (\<lambda>(x1, d).
     and_then (decode_CredentialAssuranceClassV1 d) (\<lambda>(x2, d).
     and_then (decode_typed_id d) (\<lambda>(x3, d).
     and_then (decode_Digest384 d) (\<lambda>(x4, d).
     and_then (decode_Digest384 d) (\<lambda>(x5, d).
     and_then (decode_option decode_Digest384 d) (\<lambda>(x6, d).
     and_then (decode_Digest384 d) (\<lambda>(x7, d).
     and_then (decode_Digest384 d) (\<lambda>(x8, d).
     and_then (read_u64 d) (\<lambda>(x9, d).
     and_then (read_u64 d) (\<lambda>(x10, d).
     and_then (CredentialPredicateReceiptV1_admit \<lparr>prc_evidence_commitment = x0,
         prc_predicate_commitment = x1, prc_assurance = x2, prc_verifier = x3,
         prc_proof_system_commitment = x4, prc_status_commitment = x5, prc_issuer_authorization =
         x6, prc_policy_commitment = x7, prc_nullifier = x8, prc_verified_height = x9,
         prc_finalized_height = x10\<rparr>) (\<lambda>r. Inr (r, d)))))))))))))"

definition CredentialPredicateReceiptV1_type :: "CredentialPredicateReceiptV1 canonical_type" where
  "CredentialPredicateReceiptV1_type = \<lparr>ct_encode = encode_CredentialPredicateReceiptV1, ct_decode = decode_CredentialPredicateReceiptV1, ct_type_tag = 0x0177,
     ct_schema_version = 1, ct_max_encoded_len = 48 * 8 + 1 + 1 + 8 * 2\<rparr>"

definition from_tls_evidence ::
    "hash \<Rightarrow> TlsCredentialEvidenceV1 \<Rightarrow> CredentialPredicateV1 \<Rightarrow> PrincipalId \<Rightarrow> Digest384 \<Rightarrow> Digest384 \<Rightarrow> Digest384
     \<Rightarrow> Height \<Rightarrow> Height \<Rightarrow> CredentialValidationError + CredentialPredicateReceiptV1" where
  "from_tls_evidence shake256 evidence predicate verifier proof_system_commitment policy_commitment nullifier
       verified_height finalized_height =
     and_then (map_err (\<lambda>_. InvalidPredicateBinding) (TlsCredentialEvidenceV1_commitment shake256 evidence))
       (\<lambda>evidence_commitment.
     and_then (map_err (\<lambda>_. InvalidPredicateBinding) (CredentialPredicateV1_commitment shake256 predicate))
       (\<lambda>predicate_commitment.
     if into_digest verifier = ZERO
       \<or> ZERO \<in> set [proof_system_commitment, policy_commitment, nullifier]
       \<or> verified_height = 0 \<or> finalized_height < verified_height
       \<or> \<not> tls_valid_at evidence verified_height \<or> \<not> predicate_valid_at predicate verified_height
       \<or> tls_schema_id evidence \<noteq> pred_schema_id predicate
       \<or> tls_holder_binding evidence \<noteq> pred_holder_binding predicate
       \<or> evidence_commitment \<noteq> pred_claims_commitment predicate
     then Inl InvalidPredicateBinding
     else Inr \<lparr>prc_evidence_commitment = evidence_commitment, prc_predicate_commitment = predicate_commitment,
       prc_assurance = tls_assurance evidence, prc_verifier = verifier,
       prc_proof_system_commitment = proof_system_commitment,
       prc_status_commitment = tls_status_commitment evidence,
       prc_issuer_authorization = tls_issuer_authorization evidence,
       prc_policy_commitment = policy_commitment, prc_nullifier = nullifier,
       prc_verified_height = verified_height, prc_finalized_height = finalized_height\<rparr>))"

definition receipt_binds ::
    "hash \<Rightarrow> CredentialPredicateReceiptV1 \<Rightarrow> TlsCredentialEvidenceV1 \<Rightarrow> CredentialPredicateV1 \<Rightarrow> bool" where
  "receipt_binds shake256 r evidence predicate \<longleftrightarrow>
     TlsCredentialEvidenceV1_commitment shake256 evidence = Inr (prc_evidence_commitment r)
     \<and> CredentialPredicateV1_commitment shake256 predicate = Inr (prc_predicate_commitment r)
     \<and> tls_assurance evidence = prc_assurance r
     \<and> tls_status_commitment evidence = prc_status_commitment r
     \<and> tls_issuer_authorization evidence = prc_issuer_authorization r
     \<and> tls_schema_id evidence = pred_schema_id predicate
     \<and> tls_holder_binding evidence = pred_holder_binding predicate
     \<and> prc_evidence_commitment r = pred_claims_commitment predicate"

record ProofOfFundsPredicateV1 =
  pof_evidence_commitment :: Digest384
  pof_schema_id :: Digest384
  pof_holder_binding :: Digest384
  pof_chain_id :: ChainId
  pof_audience :: PrincipalId
  pof_action :: TransactionId
  pof_nonce :: Digest384
  pof_currency_commitment :: Digest384
  pof_asset_id :: "AssetId option"
  pof_decimals :: u8
  pof_minimum_amount :: u128
  pof_maximum_amount :: "u128 option"
  pof_institution_set :: Digest384
  pof_aggregation_rule :: Digest384
  pof_policy_revision :: u64
  pof_observed_from :: Height
  pof_observed_until :: Height
  pof_expires_height :: Height

definition ProofOfFundsPredicateV1_new :: "ProofOfFundsPredicateV1 \<Rightarrow> CredentialValidationError + ProofOfFundsPredicateV1" where
  "ProofOfFundsPredicateV1_new r =
     (if ZERO \<in> set [pof_evidence_commitment r, pof_schema_id r, pof_holder_binding r, pof_nonce r,
          pof_currency_commitment r, pof_institution_set r, pof_aggregation_rule r]
        \<or> is_some_and (\<lambda>asset. into_digest asset = ZERO) (pof_asset_id r)
        \<or> pof_decimals r > 38 \<or> pof_minimum_amount r = 0
        \<or> is_some_and (\<lambda>maximum. maximum < pof_minimum_amount r) (pof_maximum_amount r)
        \<or> pof_policy_revision r = 0 \<or> pof_observed_from r = 0
        \<or> pof_observed_from r > pof_observed_until r \<or> pof_observed_until r \<ge> pof_expires_height r
      then Inl InvalidPredicateBinding
      else Inr r)"

definition encode_ProofOfFundsPredicateV1 :: "ProofOfFundsPredicateV1 \<Rightarrow> encoder \<Rightarrow> encode_error + encoder" where
  "encode_ProofOfFundsPredicateV1 r e =
     and_then (encode_Digest384 (pof_evidence_commitment r) e) (\<lambda>e.
     and_then (encode_Digest384 (pof_schema_id r) e) (\<lambda>e.
     and_then (encode_Digest384 (pof_holder_binding r) e) (\<lambda>e.
     and_then (encode_typed_id (pof_chain_id r) e) (\<lambda>e.
     and_then (encode_typed_id (pof_audience r) e) (\<lambda>e.
     and_then (encode_typed_id (pof_action r) e) (\<lambda>e.
     and_then (encode_Digest384 (pof_nonce r) e) (\<lambda>e.
     and_then (encode_Digest384 (pof_currency_commitment r) e) (\<lambda>e.
     and_then (encode_option encode_typed_id (pof_asset_id r) e) (\<lambda>e.
     and_then (write_u8 (pof_decimals r) e) (\<lambda>e.
     and_then (write_u128 (pof_minimum_amount r) e) (\<lambda>e.
     and_then (encode_option write_u128 (pof_maximum_amount r) e) (\<lambda>e.
     and_then (encode_Digest384 (pof_institution_set r) e) (\<lambda>e.
     and_then (encode_Digest384 (pof_aggregation_rule r) e) (\<lambda>e.
     and_then (write_u64 (pof_policy_revision r) e) (\<lambda>e.
     and_then (write_u64 (pof_observed_from r) e) (\<lambda>e.
     and_then (write_u64 (pof_observed_until r) e) (\<lambda>e.
     write_u64 (pof_expires_height r) e)))))))))))))))))"

definition decode_ProofOfFundsPredicateV1 :: "decoder \<Rightarrow> decode_error + (ProofOfFundsPredicateV1 \<times> decoder)" where
  "decode_ProofOfFundsPredicateV1 d =
     and_then (decode_Digest384 d) (\<lambda>(x0, d).
     and_then (decode_Digest384 d) (\<lambda>(x1, d).
     and_then (decode_Digest384 d) (\<lambda>(x2, d).
     and_then (decode_typed_id d) (\<lambda>(x3, d).
     and_then (decode_typed_id d) (\<lambda>(x4, d).
     and_then (decode_typed_id d) (\<lambda>(x5, d).
     and_then (decode_Digest384 d) (\<lambda>(x6, d).
     and_then (decode_Digest384 d) (\<lambda>(x7, d).
     and_then (decode_option decode_typed_id d) (\<lambda>(x8, d).
     and_then (read_u8 d) (\<lambda>(x9, d).
     and_then (read_u128 d) (\<lambda>(x10, d).
     and_then (decode_option read_u128 d) (\<lambda>(x11, d).
     and_then (decode_Digest384 d) (\<lambda>(x12, d).
     and_then (decode_Digest384 d) (\<lambda>(x13, d).
     and_then (read_u64 d) (\<lambda>(x14, d).
     and_then (read_u64 d) (\<lambda>(x15, d).
     and_then (read_u64 d) (\<lambda>(x16, d).
     and_then (read_u64 d) (\<lambda>(x17, d).
     and_then (map_err (\<lambda>_. InvalidValue ''invalid proof-of-funds predicate'')
       (ProofOfFundsPredicateV1_new \<lparr>pof_evidence_commitment = x0, pof_schema_id = x1,
         pof_holder_binding = x2, pof_chain_id = x3, pof_audience = x4, pof_action = x5, pof_nonce
         = x6, pof_currency_commitment = x7, pof_asset_id = x8, pof_decimals = x9,
         pof_minimum_amount = x10, pof_maximum_amount = x11, pof_institution_set = x12,
         pof_aggregation_rule = x13, pof_policy_revision = x14, pof_observed_from = x15,
         pof_observed_until = x16, pof_expires_height = x17\<rparr>)) (\<lambda>r. Inr (r,
         d))))))))))))))))))))"

definition ProofOfFundsPredicateV1_type :: "ProofOfFundsPredicateV1 canonical_type" where
  "ProofOfFundsPredicateV1_type = \<lparr>ct_encode = encode_ProofOfFundsPredicateV1, ct_decode = decode_ProofOfFundsPredicateV1, ct_type_tag = 0x015a,
     ct_schema_version = 1, ct_max_encoded_len = 48 * 10 + 1 + 48 + 1 + 16 + 1 + 16 + 8 * 4\<rparr>"

definition funds_valid_at :: "ProofOfFundsPredicateV1 \<Rightarrow> Height \<Rightarrow> bool" where
  "funds_valid_at r height \<longleftrightarrow> height \<ge> pof_observed_until r \<and> height < pof_expires_height r"

definition funds_binds_action ::
    "ProofOfFundsPredicateV1 \<Rightarrow> ChainId \<Rightarrow> PrincipalId \<Rightarrow> TransactionId \<Rightarrow> bool" where
  "funds_binds_action r chain audience action \<longleftrightarrow>
     pof_chain_id r = chain \<and> pof_audience r = audience \<and> pof_action r = action"

definition ProofOfFundsPredicateV1_commitment :: "hash \<Rightarrow> ProofOfFundsPredicateV1 \<Rightarrow> encode_error + Digest384" where
  "ProofOfFundsPredicateV1_commitment shake256 r =
     and_then (encode_envelope ProofOfFundsPredicateV1_type r) (\<lambda>bytes. Inr (shake256 (ascii ''ACTIVECHAIN-PROOF-OF-FUNDS-PREDICATE-V1'' @ bytes)))"

record VcIssuerPresentationV1 =
  vc_issuer :: PrincipalId
  vc_format :: VcIssuerFormatV1
  vc_credential_commitment :: Digest384
  vc_status_commitment :: Digest384
  vc_issuer_authorization :: Digest384
  vc_assurance :: CredentialAssuranceClassV1
  vc_predicate :: CredentialPredicateV1
  vc_verified_at_height :: Height

text \<open>The checks of the decoder; the constructor also checks the action the presentation is for.\<close>

definition VcIssuerPresentationV1_admit :: "VcIssuerPresentationV1 \<Rightarrow> decode_error + VcIssuerPresentationV1" where
  "VcIssuerPresentationV1_admit r =
     (if into_digest (vc_issuer r) = ZERO
        \<or> ZERO \<in> set [vc_credential_commitment r, vc_status_commitment r, vc_issuer_authorization r]
        \<or> vc_assurance r < IssuerUpgraded \<or> vc_verified_at_height r = 0
        \<or> \<not> predicate_valid_at (vc_predicate r) (vc_verified_at_height r)
      then Inl (InvalidValue ''invalid VCIssuer presentation'')
      else Inr r)"

definition encode_VcIssuerPresentationV1 :: "VcIssuerPresentationV1 \<Rightarrow> encoder \<Rightarrow> encode_error + encoder" where
  "encode_VcIssuerPresentationV1 r e =
     and_then (encode_typed_id (vc_issuer r) e) (\<lambda>e.
     and_then (encode_VcIssuerFormatV1 (vc_format r) e) (\<lambda>e.
     and_then (encode_Digest384 (vc_credential_commitment r) e) (\<lambda>e.
     and_then (encode_Digest384 (vc_status_commitment r) e) (\<lambda>e.
     and_then (encode_Digest384 (vc_issuer_authorization r) e) (\<lambda>e.
     and_then (encode_CredentialAssuranceClassV1 (vc_assurance r) e) (\<lambda>e.
     and_then (encode_CredentialPredicateV1 (vc_predicate r) e) (\<lambda>e.
     write_u64 (vc_verified_at_height r) e)))))))"

definition decode_VcIssuerPresentationV1 :: "decoder \<Rightarrow> decode_error + (VcIssuerPresentationV1 \<times> decoder)" where
  "decode_VcIssuerPresentationV1 d =
     and_then (decode_typed_id d) (\<lambda>(x0, d).
     and_then (decode_VcIssuerFormatV1 d) (\<lambda>(x1, d).
     and_then (decode_Digest384 d) (\<lambda>(x2, d).
     and_then (decode_Digest384 d) (\<lambda>(x3, d).
     and_then (decode_Digest384 d) (\<lambda>(x4, d).
     and_then (decode_CredentialAssuranceClassV1 d) (\<lambda>(x5, d).
     and_then (decode_CredentialPredicateV1 d) (\<lambda>(x6, d).
     and_then (read_u64 d) (\<lambda>(x7, d).
     and_then (VcIssuerPresentationV1_admit \<lparr>vc_issuer = x0, vc_format = x1,
         vc_credential_commitment = x2, vc_status_commitment = x3, vc_issuer_authorization = x4,
         vc_assurance = x5, vc_predicate = x6, vc_verified_at_height = x7\<rparr>) (\<lambda>r.
         Inr (r, d))))))))))"

definition VcIssuerPresentationV1_type :: "VcIssuerPresentationV1 canonical_type" where
  "VcIssuerPresentationV1_type = \<lparr>ct_encode = encode_VcIssuerPresentationV1, ct_decode = decode_VcIssuerPresentationV1, ct_type_tag = 0x0152,
     ct_schema_version = 1, ct_max_encoded_len = 48 * 4 + 1 + 1 + ct_max_encoded_len CredentialPredicateV1_type + 8\<rparr>"

definition VcIssuerPresentationV1_new ::
    "VcIssuerPresentationV1 \<Rightarrow> ChainId \<Rightarrow> PrincipalId \<Rightarrow> TransactionId
     \<Rightarrow> CredentialValidationError + VcIssuerPresentationV1" where
  "VcIssuerPresentationV1_new r expected_chain expected_audience expected_action =
     (if into_digest (vc_issuer r) = ZERO
        \<or> ZERO \<in> set [vc_credential_commitment r, vc_status_commitment r, vc_issuer_authorization r]
        \<or> vc_assurance r < IssuerUpgraded \<or> vc_verified_at_height r = 0
        \<or> \<not> predicate_valid_at (vc_predicate r) (vc_verified_at_height r)
        \<or> \<not> predicate_binds_action (vc_predicate r) expected_chain expected_audience expected_action
      then Inl InvalidVcIssuerPresentation
      else Inr r)"

section \<open>Encodings are canonical\<close>

definition enc_CredentialAssuranceClassV1 :: "CredentialAssuranceClassV1 \<Rightarrow> u8 list" where
  "enc_CredentialAssuranceClassV1 v = [CredentialAssuranceClassV1_tag v]"

lemma length_enc_CredentialAssuranceClassV1 [simp]: "length (enc_CredentialAssuranceClassV1 v) = 1"
  by (simp add: enc_CredentialAssuranceClassV1_def)

interpretation assurance_class: canonical_codec enc_CredentialAssuranceClassV1 encode_CredentialAssuranceClassV1 decode_CredentialAssuranceClassV1 "\<lambda>_. True"
proof
  fix v pre rest
  assume "slice (pre @ enc_CredentialAssuranceClassV1 v @ rest)"
  then show "decode_CredentialAssuranceClassV1 (dec_at pre (enc_CredentialAssuranceClassV1 v @ rest)) = Inr (v, dec_at (pre @ enc_CredentialAssuranceClassV1 v) rest)"
    by (cases v) (simp_all add: enc_CredentialAssuranceClassV1_def decode_CredentialAssuranceClassV1_def codec_simps)
qed (auto simp: enc_CredentialAssuranceClassV1_def encode_CredentialAssuranceClassV1_def decode_CredentialAssuranceClassV1_def codec_simps dest!: codec_dests split: if_splits)

lemmas [codec_simps] = assurance_class.laws
lemmas [codec_dests] = assurance_class.inversions

definition enc_CredentialPredicateKind :: "CredentialPredicateKind \<Rightarrow> u8 list" where
  "enc_CredentialPredicateKind v = [CredentialPredicateKind_tag v]"

lemma length_enc_CredentialPredicateKind [simp]: "length (enc_CredentialPredicateKind v) = 1"
  by (simp add: enc_CredentialPredicateKind_def)

interpretation predicate_kind: canonical_codec enc_CredentialPredicateKind encode_CredentialPredicateKind decode_CredentialPredicateKind "\<lambda>_. True"
proof
  fix v pre rest
  assume "slice (pre @ enc_CredentialPredicateKind v @ rest)"
  then show "decode_CredentialPredicateKind (dec_at pre (enc_CredentialPredicateKind v @ rest)) = Inr (v, dec_at (pre @ enc_CredentialPredicateKind v) rest)"
    by (cases v) (simp_all add: enc_CredentialPredicateKind_def decode_CredentialPredicateKind_def codec_simps)
qed (auto simp: enc_CredentialPredicateKind_def encode_CredentialPredicateKind_def decode_CredentialPredicateKind_def codec_simps dest!: codec_dests split: if_splits)

lemmas [codec_simps] = predicate_kind.laws
lemmas [codec_dests] = predicate_kind.inversions

definition enc_VcIssuerFormatV1 :: "VcIssuerFormatV1 \<Rightarrow> u8 list" where
  "enc_VcIssuerFormatV1 v = [VcIssuerFormatV1_tag v]"

lemma length_enc_VcIssuerFormatV1 [simp]: "length (enc_VcIssuerFormatV1 v) = 1"
  by (simp add: enc_VcIssuerFormatV1_def)

interpretation vc_format: canonical_codec enc_VcIssuerFormatV1 encode_VcIssuerFormatV1 decode_VcIssuerFormatV1 "\<lambda>_. True"
proof
  fix v pre rest
  assume "slice (pre @ enc_VcIssuerFormatV1 v @ rest)"
  then show "decode_VcIssuerFormatV1 (dec_at pre (enc_VcIssuerFormatV1 v @ rest)) = Inr (v, dec_at (pre @ enc_VcIssuerFormatV1 v) rest)"
    by (cases v) (simp_all add: enc_VcIssuerFormatV1_def decode_VcIssuerFormatV1_def codec_simps)
qed (auto simp: enc_VcIssuerFormatV1_def encode_VcIssuerFormatV1_def decode_VcIssuerFormatV1_def codec_simps dest!: codec_dests split: if_splits)

lemmas [codec_simps] = vc_format.laws
lemmas [codec_dests] = vc_format.inversions

definition enc_TlsCredentialEvidenceV1 :: "TlsCredentialEvidenceV1 \<Rightarrow> u8 list" where
  "enc_TlsCredentialEvidenceV1 r = enc_Digest384 (tls_notary_identity r) @ enc_Digest384
    (tls_server_identity r) @ enc_Digest384 (tls_transcript_commitment r) @ enc_Digest384
    (tls_disclosed_fields_commitment r) @ enc_Digest384 (tls_holder_binding r) @ enc_Digest384
    (tls_schema_id r) @ enc_u64 (tls_observed_height r) @ enc_u64 (tls_fresh_until_height r) @
    enc_Digest384 (tls_status_commitment r) @ enc_CredentialAssuranceClassV1 (tls_assurance r) @
    enc_option enc_Digest384 (tls_issuer_authorization r)"

definition valid_TlsCredentialEvidenceV1 :: "TlsCredentialEvidenceV1 \<Rightarrow> bool" where
  "valid_TlsCredentialEvidenceV1 r \<longleftrightarrow> TlsCredentialEvidenceV1_new r = Inr r"

interpretation tls_evidence: bounded_envelope enc_TlsCredentialEvidenceV1 TlsCredentialEvidenceV1_type valid_TlsCredentialEvidenceV1
proof
  fix v
  assume "valid_TlsCredentialEvidenceV1 v"
  then show "length (enc_TlsCredentialEvidenceV1 v) \<le> ct_max_encoded_len TlsCredentialEvidenceV1_type"
    by (simp add: TlsCredentialEvidenceV1_type_def enc_TlsCredentialEvidenceV1_def enc_option_def split: option.splits)
qed (auto simp: TlsCredentialEvidenceV1_type_def enc_TlsCredentialEvidenceV1_def encode_TlsCredentialEvidenceV1_def decode_TlsCredentialEvidenceV1_def valid_TlsCredentialEvidenceV1_def
    MAX_BODY_LENGTH_def TlsCredentialEvidenceV1_new_def credential_bounds  codec_simps dest!: codec_dests)

lemma TlsCredentialEvidenceV1_type_codec [simp]: "ct_encode TlsCredentialEvidenceV1_type = encode_TlsCredentialEvidenceV1" "ct_decode TlsCredentialEvidenceV1_type = decode_TlsCredentialEvidenceV1"
  by (simp_all add: TlsCredentialEvidenceV1_type_def)

lemmas [codec_simps] = tls_evidence.laws [simplified]
lemmas [codec_dests] = tls_evidence.inversions [simplified]

definition enc_CredentialStatement :: "CredentialStatement \<Rightarrow> u8 list" where
  "enc_CredentialStatement r = enc_u16 (st_format_version r) @ enc_typed_id (st_issuer r) @
    enc_Digest384 (st_subject_binding r) @ enc_Digest384 (st_schema_id r) @ enc_Digest384
    (st_claims_commitment r) @ enc_u64 (st_issuance_height r) @ enc_u64 (st_valid_from r) @
    enc_option enc_u64 (st_valid_until r) @ enc_option enc_typed_id (st_status_registry r) @
    enc_option enc_Digest384 (st_issuance_log_root r) @ enc_option enc_Digest384
    (st_terms_commitment r)"

definition valid_CredentialStatement :: "CredentialStatement \<Rightarrow> bool" where
  "valid_CredentialStatement r \<longleftrightarrow> CredentialStatement_new r = Inr r"

interpretation credential_statement: bounded_envelope enc_CredentialStatement CredentialStatement_type valid_CredentialStatement
proof
  fix v
  assume "valid_CredentialStatement v"
  then show "length (enc_CredentialStatement v) \<le> ct_max_encoded_len CredentialStatement_type"
    by (simp add: CredentialStatement_type_def enc_CredentialStatement_def enc_option_def split: option.splits)
qed (auto simp: CredentialStatement_type_def enc_CredentialStatement_def encode_CredentialStatement_def decode_CredentialStatement_def valid_CredentialStatement_def
    MAX_BODY_LENGTH_def CredentialStatement_new_def credential_bounds  codec_simps dest!: codec_dests)

lemma CredentialStatement_type_codec [simp]: "ct_encode CredentialStatement_type = encode_CredentialStatement" "ct_decode CredentialStatement_type = decode_CredentialStatement"
  by (simp_all add: CredentialStatement_type_def)

lemmas [codec_simps] = credential_statement.laws [simplified]
lemmas [codec_dests] = credential_statement.inversions [simplified]

definition enc_Credential :: "Credential \<Rightarrow> u8 list" where
  "enc_Credential r = enc_CredentialStatement (cred_statement r) @ enc_ProtocolSignature
    (cred_signature r)"

definition valid_Credential :: "Credential \<Rightarrow> bool" where
  "valid_Credential r \<longleftrightarrow> valid_CredentialStatement (cred_statement r) \<and>
    valid_signature (cred_signature r) \<and> Credential_new r = Inr r"

lemma length_enc_CredentialStatement: "length (enc_CredentialStatement r) \<le> 366"
  by (simp add: enc_CredentialStatement_def enc_option_def split: option.splits)

lemma length_enc_Credential: "valid_Credential r \<Longrightarrow> length (enc_Credential r) \<le> 5001"
  using length_enc_CredentialStatement [of "cred_statement r"] enc_length_two [of "length (sig_bytes (cred_signature r))"]
  by (auto simp: enc_Credential_def valid_Credential_def Credential_new_def valid_signature_iff enc_ProtocolSignature_def
      enc_CryptoSuiteId_def enc_bytes_prefixed_def signature_length_def split: if_splits)

interpretation credential: bounded_envelope enc_Credential Credential_type valid_Credential
proof
  fix v
  assume "valid_Credential v"
  then show "length (enc_Credential v) \<le> ct_max_encoded_len Credential_type"
    by (simp add: Credential_type_def length_enc_Credential)
qed (auto simp: Credential_type_def enc_Credential_def encode_Credential_def decode_Credential_def valid_Credential_def
    MAX_BODY_LENGTH_def Credential_new_def credential_bounds  codec_simps dest!: codec_dests)

lemma Credential_type_codec [simp]: "ct_encode Credential_type = encode_Credential" "ct_decode Credential_type = decode_Credential"
  by (simp_all add: Credential_type_def)

lemmas [codec_simps] = credential.laws [simplified]
lemmas [codec_dests] = credential.inversions [simplified]

definition enc_CredentialStatusRegistry :: "CredentialStatusRegistry \<Rightarrow> u8 list" where
  "enc_CredentialStatusRegistry r = enc_typed_id (reg_id r) @ enc_typed_id (reg_issuer r) @
    enc_Digest384 (reg_schema_id r) @ enc_Digest384 (reg_status_root r) @ enc_u64 (reg_sequence r)
    @ enc_u64 (reg_effective_height r)"

definition valid_CredentialStatusRegistry :: "CredentialStatusRegistry \<Rightarrow> bool" where
  "valid_CredentialStatusRegistry r \<longleftrightarrow> CredentialStatusRegistry_admit r = Inr
    r"

lemma CredentialStatusRegistry_admit_eq_Inr:
  "CredentialStatusRegistry_admit r = Inr s \<longleftrightarrow> registry_is_well_formed r \<and> s = r"
  by (auto simp: CredentialStatusRegistry_admit_def)

interpretation status_registry: bounded_envelope enc_CredentialStatusRegistry CredentialStatusRegistry_type valid_CredentialStatusRegistry
proof
  fix v
  assume "valid_CredentialStatusRegistry v"
  then show "length (enc_CredentialStatusRegistry v) \<le> ct_max_encoded_len CredentialStatusRegistry_type"
    by (simp add: CredentialStatusRegistry_type_def enc_CredentialStatusRegistry_def)
qed (auto simp: CredentialStatusRegistry_type_def enc_CredentialStatusRegistry_def encode_CredentialStatusRegistry_def decode_CredentialStatusRegistry_def valid_CredentialStatusRegistry_def
    MAX_BODY_LENGTH_def CredentialStatusRegistry_admit_eq_Inr credential_bounds registry_is_well_formed_def codec_simps dest!: codec_dests)

lemma CredentialStatusRegistry_type_codec [simp]: "ct_encode CredentialStatusRegistry_type = encode_CredentialStatusRegistry" "ct_decode CredentialStatusRegistry_type = decode_CredentialStatusRegistry"
  by (simp_all add: CredentialStatusRegistry_type_def)

lemmas [codec_simps] = status_registry.laws [simplified]
lemmas [codec_dests] = status_registry.inversions [simplified]

definition enc_CredentialAcceptancePolicy :: "CredentialAcceptancePolicy \<Rightarrow> u8 list" where
  "enc_CredentialAcceptancePolicy r = enc_length (length (accepted_issuers r)) @ enc_each
    enc_typed_id (accepted_issuers r) @ enc_length (length (accepted_schemas r)) @ enc_each
    enc_Digest384 (accepted_schemas r) @ enc_u64 (pol_maximum_status_age r) @ enc_bool
    (require_status r) @ enc_bool (require_issuance_log r)"

definition valid_CredentialAcceptancePolicy :: "CredentialAcceptancePolicy \<Rightarrow> bool" where
  "valid_CredentialAcceptancePolicy r \<longleftrightarrow> length (accepted_issuers r) \<le>
    MAX_ACCEPTED_CREDENTIAL_ISSUERS \<and> length (accepted_schemas r) \<le>
    MAX_ACCEPTED_CREDENTIAL_SCHEMAS \<and> CredentialAcceptancePolicy_new r = Inr r"

lemma length_enc_CredentialAcceptancePolicy:
  "valid_CredentialAcceptancePolicy r \<Longrightarrow> length (enc_CredentialAcceptancePolicy r) \<le> 3084"
  using length_enc_each_le [of "\<lambda>_. True" "accepted_issuers r" enc_typed_id 48]
    length_enc_each_le [of "\<lambda>_. True" "accepted_schemas r" enc_Digest384 48]
  by (simp add: enc_CredentialAcceptancePolicy_def valid_CredentialAcceptancePolicy_def enc_length_small credential_bounds)

interpretation acceptance_policy: bounded_envelope enc_CredentialAcceptancePolicy CredentialAcceptancePolicy_type valid_CredentialAcceptancePolicy
proof
  fix v
  assume "valid_CredentialAcceptancePolicy v"
  then show "length (enc_CredentialAcceptancePolicy v) \<le> ct_max_encoded_len CredentialAcceptancePolicy_type"
    by (simp add: CredentialAcceptancePolicy_type_def length_enc_CredentialAcceptancePolicy)
qed (auto simp: CredentialAcceptancePolicy_type_def enc_CredentialAcceptancePolicy_def encode_CredentialAcceptancePolicy_def decode_CredentialAcceptancePolicy_def valid_CredentialAcceptancePolicy_def
    MAX_BODY_LENGTH_def CredentialAcceptancePolicy_new_def credential_bounds  codec_simps dest!: codec_dests)

lemma CredentialAcceptancePolicy_type_codec [simp]: "ct_encode CredentialAcceptancePolicy_type = encode_CredentialAcceptancePolicy" "ct_decode CredentialAcceptancePolicy_type = decode_CredentialAcceptancePolicy"
  by (simp_all add: CredentialAcceptancePolicy_type_def)

lemmas [codec_simps] = acceptance_policy.laws [simplified]
lemmas [codec_dests] = acceptance_policy.inversions [simplified]

definition enc_CredentialPredicateV1 :: "CredentialPredicateV1 \<Rightarrow> u8 list" where
  "enc_CredentialPredicateV1 r = enc_Digest384 (pred_schema_id r) @ enc_Digest384
    (pred_claims_commitment r) @ enc_Digest384 (pred_holder_binding r) @ enc_typed_id
    (pred_chain_id r) @ enc_typed_id (pred_audience r) @ enc_typed_id (pred_action r) @
    enc_Digest384 (pred_nonce r) @ enc_u64 (pred_policy_revision r) @ enc_u64 (pred_expires_height
    r) @ enc_CredentialPredicateKind (pred_kind r) @ enc_Digest384 (pred_value_commitment r)"

definition valid_CredentialPredicateV1 :: "CredentialPredicateV1 \<Rightarrow> bool" where
  "valid_CredentialPredicateV1 r \<longleftrightarrow> CredentialPredicateV1_new r = Inr r"

interpretation credential_predicate: bounded_envelope enc_CredentialPredicateV1 CredentialPredicateV1_type valid_CredentialPredicateV1
proof
  fix v
  assume "valid_CredentialPredicateV1 v"
  then show "length (enc_CredentialPredicateV1 v) \<le> ct_max_encoded_len CredentialPredicateV1_type"
    by (simp add: CredentialPredicateV1_type_def enc_CredentialPredicateV1_def)
qed (auto simp: CredentialPredicateV1_type_def enc_CredentialPredicateV1_def encode_CredentialPredicateV1_def decode_CredentialPredicateV1_def valid_CredentialPredicateV1_def
    MAX_BODY_LENGTH_def CredentialPredicateV1_new_def credential_bounds  codec_simps dest!: codec_dests)

lemma CredentialPredicateV1_type_codec [simp]: "ct_encode CredentialPredicateV1_type = encode_CredentialPredicateV1" "ct_decode CredentialPredicateV1_type = decode_CredentialPredicateV1"
  by (simp_all add: CredentialPredicateV1_type_def)

lemmas [codec_simps] = credential_predicate.laws [simplified]
lemmas [codec_dests] = credential_predicate.inversions [simplified]

definition enc_CredentialPredicateReceiptV1 :: "CredentialPredicateReceiptV1 \<Rightarrow> u8 list" where
  "enc_CredentialPredicateReceiptV1 r = enc_Digest384 (prc_evidence_commitment r) @ enc_Digest384
    (prc_predicate_commitment r) @ enc_CredentialAssuranceClassV1 (prc_assurance r) @ enc_typed_id
    (prc_verifier r) @ enc_Digest384 (prc_proof_system_commitment r) @ enc_Digest384
    (prc_status_commitment r) @ enc_option enc_Digest384 (prc_issuer_authorization r) @
    enc_Digest384 (prc_policy_commitment r) @ enc_Digest384 (prc_nullifier r) @ enc_u64
    (prc_verified_height r) @ enc_u64 (prc_finalized_height r)"

definition valid_CredentialPredicateReceiptV1 :: "CredentialPredicateReceiptV1 \<Rightarrow> bool" where
  "valid_CredentialPredicateReceiptV1 r \<longleftrightarrow> CredentialPredicateReceiptV1_admit r
    = Inr r"

interpretation predicate_receipt: bounded_envelope enc_CredentialPredicateReceiptV1 CredentialPredicateReceiptV1_type valid_CredentialPredicateReceiptV1
proof
  fix v
  assume "valid_CredentialPredicateReceiptV1 v"
  then show "length (enc_CredentialPredicateReceiptV1 v) \<le> ct_max_encoded_len CredentialPredicateReceiptV1_type"
    by (simp add: CredentialPredicateReceiptV1_type_def enc_CredentialPredicateReceiptV1_def enc_option_def split: option.splits)
qed (auto simp: CredentialPredicateReceiptV1_type_def enc_CredentialPredicateReceiptV1_def encode_CredentialPredicateReceiptV1_def decode_CredentialPredicateReceiptV1_def valid_CredentialPredicateReceiptV1_def
    MAX_BODY_LENGTH_def CredentialPredicateReceiptV1_admit_def credential_bounds  codec_simps dest!: codec_dests)

lemma CredentialPredicateReceiptV1_type_codec [simp]: "ct_encode CredentialPredicateReceiptV1_type = encode_CredentialPredicateReceiptV1" "ct_decode CredentialPredicateReceiptV1_type = decode_CredentialPredicateReceiptV1"
  by (simp_all add: CredentialPredicateReceiptV1_type_def)

lemmas [codec_simps] = predicate_receipt.laws [simplified]
lemmas [codec_dests] = predicate_receipt.inversions [simplified]

definition enc_ProofOfFundsPredicateV1 :: "ProofOfFundsPredicateV1 \<Rightarrow> u8 list" where
  "enc_ProofOfFundsPredicateV1 r = enc_Digest384 (pof_evidence_commitment r) @ enc_Digest384
    (pof_schema_id r) @ enc_Digest384 (pof_holder_binding r) @ enc_typed_id (pof_chain_id r) @
    enc_typed_id (pof_audience r) @ enc_typed_id (pof_action r) @ enc_Digest384 (pof_nonce r) @
    enc_Digest384 (pof_currency_commitment r) @ enc_option enc_typed_id (pof_asset_id r) @
    [pof_decimals r] @ enc_u128 (pof_minimum_amount r) @ enc_option enc_u128 (pof_maximum_amount
    r) @ enc_Digest384 (pof_institution_set r) @ enc_Digest384 (pof_aggregation_rule r) @ enc_u64
    (pof_policy_revision r) @ enc_u64 (pof_observed_from r) @ enc_u64 (pof_observed_until r) @
    enc_u64 (pof_expires_height r)"

definition valid_ProofOfFundsPredicateV1 :: "ProofOfFundsPredicateV1 \<Rightarrow> bool" where
  "valid_ProofOfFundsPredicateV1 r \<longleftrightarrow> ProofOfFundsPredicateV1_new r = Inr r"

interpretation proof_of_funds: bounded_envelope enc_ProofOfFundsPredicateV1 ProofOfFundsPredicateV1_type valid_ProofOfFundsPredicateV1
proof
  fix v
  assume "valid_ProofOfFundsPredicateV1 v"
  then show "length (enc_ProofOfFundsPredicateV1 v) \<le> ct_max_encoded_len ProofOfFundsPredicateV1_type"
    by (simp add: ProofOfFundsPredicateV1_type_def enc_ProofOfFundsPredicateV1_def enc_option_def split: option.splits)
qed (auto simp: ProofOfFundsPredicateV1_type_def enc_ProofOfFundsPredicateV1_def encode_ProofOfFundsPredicateV1_def decode_ProofOfFundsPredicateV1_def valid_ProofOfFundsPredicateV1_def
    MAX_BODY_LENGTH_def ProofOfFundsPredicateV1_new_def credential_bounds  codec_simps dest!: codec_dests)

lemma ProofOfFundsPredicateV1_type_codec [simp]: "ct_encode ProofOfFundsPredicateV1_type = encode_ProofOfFundsPredicateV1" "ct_decode ProofOfFundsPredicateV1_type = decode_ProofOfFundsPredicateV1"
  by (simp_all add: ProofOfFundsPredicateV1_type_def)

lemmas [codec_simps] = proof_of_funds.laws [simplified]
lemmas [codec_dests] = proof_of_funds.inversions [simplified]

definition enc_VcIssuerPresentationV1 :: "VcIssuerPresentationV1 \<Rightarrow> u8 list" where
  "enc_VcIssuerPresentationV1 r = enc_typed_id (vc_issuer r) @ enc_VcIssuerFormatV1 (vc_format r)
    @ enc_Digest384 (vc_credential_commitment r) @ enc_Digest384 (vc_status_commitment r) @
    enc_Digest384 (vc_issuer_authorization r) @ enc_CredentialAssuranceClassV1 (vc_assurance r) @
    enc_CredentialPredicateV1 (vc_predicate r) @ enc_u64 (vc_verified_at_height r)"

definition valid_VcIssuerPresentationV1 :: "VcIssuerPresentationV1 \<Rightarrow> bool" where
  "valid_VcIssuerPresentationV1 r \<longleftrightarrow> valid_CredentialPredicateV1 (vc_predicate
    r) \<and> VcIssuerPresentationV1_admit r = Inr r"

interpretation vc_presentation: bounded_envelope enc_VcIssuerPresentationV1 VcIssuerPresentationV1_type valid_VcIssuerPresentationV1
proof
  fix v
  assume "valid_VcIssuerPresentationV1 v"
  then show "length (enc_VcIssuerPresentationV1 v) \<le> ct_max_encoded_len VcIssuerPresentationV1_type"
    by (simp add: VcIssuerPresentationV1_type_def enc_VcIssuerPresentationV1_def CredentialPredicateV1_type_def enc_CredentialPredicateV1_def)
qed (auto simp: VcIssuerPresentationV1_type_def enc_VcIssuerPresentationV1_def encode_VcIssuerPresentationV1_def decode_VcIssuerPresentationV1_def valid_VcIssuerPresentationV1_def
    MAX_BODY_LENGTH_def VcIssuerPresentationV1_admit_def credential_bounds CredentialPredicateV1_type_def [THEN arg_cong, of ct_max_encoded_len] codec_simps dest!: codec_dests)

lemma VcIssuerPresentationV1_type_codec [simp]: "ct_encode VcIssuerPresentationV1_type = encode_VcIssuerPresentationV1" "ct_decode VcIssuerPresentationV1_type = decode_VcIssuerPresentationV1"
  by (simp_all add: VcIssuerPresentationV1_type_def)

lemmas [codec_simps] = vc_presentation.laws [simplified]
lemmas [codec_dests] = vc_presentation.inversions [simplified]

end
