(* ===== verification/Credential_Verify.thy ===== *)
theory Credential_Verify
  imports Credential_Types Policy
begin

text \<open>
  Admission of a credential presentation (\<^verbatim>\<open>credential/src/verify.rs\<close>).  Signature and status
  proofs are checked elsewhere and arrive as evidence values; this component checks that they are
  bound to the exact credential, registry, policy and time, and turns accepted credentials into the
  sorted schema facts of a policy request.
\<close>

section \<open>Evidence and facts\<close>

record PresentationContext =
  expected_subject_binding :: Digest384
  presentation_height :: Height
  presentation_timestamp :: Timestamp

record PreverifiedIssuerEvidence =
  ie_issuer :: PrincipalId
  ie_issuance_commitment :: Digest384
  ie_signature_suite :: CryptoSuiteId
  verified_issuance_log_root :: "Digest384 option"

datatype CredentialStatus = StatusActive | StatusRevoked | StatusSuspended

record PreverifiedStatusEvidence =
  se_registry_id :: ObjectId
  se_credential_id :: CredentialId
  se_status_root :: Digest384
  se_registry_sequence :: u64
  se_status :: CredentialStatus

record VerifiedCredentialFact =
  fact_credential_id :: CredentialId
  fact_issuer :: PrincipalId
  fact_subject_binding :: Digest384
  fact_schema_id :: Digest384
  verified_at_height :: Height
  status_registry_sequence :: "u64 option"

datatype CredentialVerificationError =
    NotYetIssued Height Height
  | NotYetValid Timestamp Timestamp
  | CredentialExpired Timestamp Timestamp
  | SubjectBindingMismatch
  | IssuerNotAccepted
  | SchemaNotAccepted
  | IssuerEvidenceIssuerMismatch
  | IssuerEvidenceCommitmentMismatch
  | IssuerEvidenceSuiteMismatch
  | IssuanceLogRequired
  | IssuanceLogEvidenceMismatch
  | StatusRequired
  | UnexpectedStatusMaterial
  | MissingStatusRegistry
  | MissingStatusEvidence
  | RegistryIdMismatch
  | RegistryIssuerMismatch
  | RegistrySchemaMismatch
  | RegistryFromFuture Height Height
  | RegistryStale u64 u64
  | StatusEvidenceRegistryMismatch
  | StatusEvidenceCredentialMismatch
  | StatusEvidenceRootMismatch
  | StatusEvidenceSequenceMismatch
  | CredentialRevoked
  | CredentialSuspended
  | CommitmentEncoding encode_error

datatype CredentialFactError = TooManyDistinctSchemas usize usize

section \<open>Verification\<close>

definition credential_id_of :: "hash \<Rightarrow> Credential \<Rightarrow> encode_error + CredentialId" where
  "credential_id_of shake256 credential = commit_id shake256 CREDENTIAL_ID Credential_type credential"

definition credential_issuance_commitment :: "hash \<Rightarrow> CredentialStatement \<Rightarrow> encode_error + Digest384" where
  "credential_issuance_commitment shake256 statement = commit shake256 CREDENTIAL_ISSUANCE CredentialStatement_type statement"

definition verify_issuance_log ::
    "CredentialStatement \<Rightarrow> CredentialAcceptancePolicy \<Rightarrow> PreverifiedIssuerEvidence
     \<Rightarrow> CredentialVerificationError + unit" where
  "verify_issuance_log statement policy evidence =
     (if require_issuance_log policy \<and> st_issuance_log_root statement = None then Inl IssuanceLogRequired
      else if is_some_and (\<lambda>verified_root. st_issuance_log_root statement \<noteq> Some verified_root)
          (verified_issuance_log_root evidence)
      then Inl IssuanceLogEvidenceMismatch
      else if require_issuance_log policy
        \<and> verified_issuance_log_root evidence \<noteq> st_issuance_log_root statement
      then Inl IssuanceLogEvidenceMismatch
      else Inr ())"

definition verify_status ::
    "CredentialStatement \<Rightarrow> CredentialAcceptancePolicy \<Rightarrow> CredentialId \<Rightarrow> CredentialStatusRegistry option
     \<Rightarrow> PreverifiedStatusEvidence option \<Rightarrow> Height \<Rightarrow> CredentialVerificationError + u64 option" where
  "verify_status statement policy cid registry evidence height =
     (case st_status_registry statement of
        None \<Rightarrow>
          if require_status policy then Inl StatusRequired
          else if registry \<noteq> None \<or> evidence \<noteq> None then Inl UnexpectedStatusMaterial
          else Inr None
      | Some declared_registry_id \<Rightarrow>
          and_then (ok_or MissingStatusRegistry registry) (\<lambda>registry.
          and_then (ok_or MissingStatusEvidence evidence) (\<lambda>evidence.
          if reg_id registry \<noteq> declared_registry_id then Inl RegistryIdMismatch
          else if reg_issuer registry \<noteq> st_issuer statement then Inl RegistryIssuerMismatch
          else if reg_schema_id registry \<noteq> st_schema_id statement then Inl RegistrySchemaMismatch
          else if reg_effective_height registry > height
          then Inl (RegistryFromFuture (reg_effective_height registry) height)
          else
            let age = height - reg_effective_height registry in
            if age > pol_maximum_status_age policy then Inl (RegistryStale age (pol_maximum_status_age policy))
            else if se_registry_id evidence \<noteq> reg_id registry then Inl StatusEvidenceRegistryMismatch
            else if se_credential_id evidence \<noteq> cid then Inl StatusEvidenceCredentialMismatch
            else if se_status_root evidence \<noteq> reg_status_root registry then Inl StatusEvidenceRootMismatch
            else if se_registry_sequence evidence \<noteq> reg_sequence registry
            then Inl StatusEvidenceSequenceMismatch
            else
              (case se_status evidence of
                 StatusActive \<Rightarrow> Inr (Some (reg_sequence registry))
               | StatusRevoked \<Rightarrow> Inl CredentialRevoked
               | StatusSuspended \<Rightarrow> Inl CredentialSuspended))))"

definition verify_presentation ::
    "hash \<Rightarrow> Credential \<Rightarrow> CredentialAcceptancePolicy \<Rightarrow> PreverifiedIssuerEvidence
     \<Rightarrow> CredentialStatusRegistry option \<Rightarrow> PreverifiedStatusEvidence option \<Rightarrow> PresentationContext
     \<Rightarrow> CredentialVerificationError + VerifiedCredentialFact" where
  "verify_presentation shake256 credential policy issuer_evidence registry status_evidence context =
     (let statement = cred_statement credential in
      if st_issuance_height statement > presentation_height context
      then Inl (NotYetIssued (st_issuance_height statement) (presentation_height context))
      else if presentation_timestamp context < st_valid_from statement
      then Inl (NotYetValid (st_valid_from statement) (presentation_timestamp context))
      else if is_some_and (\<lambda>valid_until. presentation_timestamp context > valid_until) (st_valid_until statement)
      then Inl (CredentialExpired (the (st_valid_until statement)) (presentation_timestamp context))
      else if st_subject_binding statement \<noteq> expected_subject_binding context then Inl SubjectBindingMismatch
      else if \<not> accepts_issuer policy (st_issuer statement) then Inl IssuerNotAccepted
      else if \<not> accepts_schema policy (st_schema_id statement) then Inl SchemaNotAccepted
      else
        and_then (map_err CommitmentEncoding (credential_issuance_commitment shake256 statement))
          (\<lambda>issuance_commitment.
        if ie_issuer issuer_evidence \<noteq> st_issuer statement then Inl IssuerEvidenceIssuerMismatch
        else if ie_issuance_commitment issuer_evidence \<noteq> issuance_commitment
        then Inl IssuerEvidenceCommitmentMismatch
        else if ie_signature_suite issuer_evidence \<noteq> sig_suite (cred_signature credential)
        then Inl IssuerEvidenceSuiteMismatch
        else
          and_then (verify_issuance_log statement policy issuer_evidence) (\<lambda>_.
          and_then (map_err CommitmentEncoding (credential_id_of shake256 credential)) (\<lambda>cid.
          and_then (verify_status statement policy cid registry status_evidence (presentation_height context))
            (\<lambda>sequence.
          Inr \<lparr>fact_credential_id = cid, fact_issuer = st_issuer statement,
            fact_subject_binding = st_subject_binding statement, fact_schema_id = st_schema_id statement,
            verified_at_height = presentation_height context, status_registry_sequence = sequence\<rparr>)))))"

text \<open>Sorting and removing equal neighbours leaves a strictly increasing list.\<close>

definition canonical_schema_facts :: "VerifiedCredentialFact list \<Rightarrow> CredentialFactError + Digest384 list" where
  "canonical_schema_facts facts =
     (let schemas = remdups_adj (sort (map fact_schema_id facts)) in
      if length schemas > MAX_CREDENTIAL_FACTS
      then Inl (TooManyDistinctSchemas (length schemas) MAX_CREDENTIAL_FACTS)
      else Inr schemas)"

section \<open>What an accepted presentation guarantees\<close>

text \<open>
  The credential is inside its validity window, names the expected subject, comes from an accepted
  issuer for an accepted schema, and the evidence is for this very credential.  A credential with a
  status registry is active in a snapshot of that registry no older than the policy allows.
\<close>

lemma verify_status_sound:
  assumes "verify_status statement policy cid registry evidence height = Inr sequence"
  shows "case st_status_registry statement of
      None \<Rightarrow> \<not> require_status policy \<and> registry = None \<and> evidence = None \<and> sequence = None
    | Some declared \<Rightarrow> (\<exists>r e. registry = Some r \<and> evidence = Some e \<and> sequence = Some (reg_sequence r)
        \<and> reg_id r = declared \<and> reg_issuer r = st_issuer statement \<and> reg_schema_id r = st_schema_id statement
        \<and> reg_effective_height r \<le> height \<and> unat height \<le> unat (reg_effective_height r) + unat (pol_maximum_status_age policy)
        \<and> e = \<lparr>se_registry_id = declared, se_credential_id = cid, se_status_root = reg_status_root r,
            se_registry_sequence = reg_sequence r, se_status = StatusActive\<rparr>)"
proof (cases "st_status_registry statement")
  case None
  then show ?thesis using assms by (auto simp: verify_status_def split: if_splits)
next
  case (Some declared)
  then obtain r e where e: "registry = Some r" "evidence = Some e"
    using assms by (cases registry; cases evidence) (simp_all add: verify_status_def)
  note accepted = assms [unfolded verify_status_def Some e, simplified, unfolded Let_def]
  have m: "sequence = Some (reg_sequence r)" "reg_id r = declared" "reg_issuer r = st_issuer statement"
    "reg_schema_id r = st_schema_id statement" "\<not> reg_effective_height r > height"
    "\<not> height - reg_effective_height r > pol_maximum_status_age policy" "se_registry_id e = declared"
    "se_credential_id e = cid" "se_status_root e = reg_status_root r" "se_registry_sequence e = reg_sequence r"
    using accepted by (simp_all split: if_splits CredentialStatus.splits)
  have active: "se_status e = StatusActive"
    using accepted by (cases "se_status e") (simp_all split: if_splits)
  have "unat (height - reg_effective_height r) = unat height - unat (reg_effective_height r)"
    using m(5) by (intro unat_sub) simp
  then have "unat height \<le> unat (reg_effective_height r) + unat (pol_maximum_status_age policy)"
    using m(6) by (simp add: word_le_nat_alt not_less)
  then show ?thesis using Some e m active by (simp add: not_less)
qed

lemma accepts_iff:
  assumes "valid_CredentialAcceptancePolicy policy"
  shows "accepts_issuer policy i \<longleftrightarrow> i \<in> set (accepted_issuers policy)"
    "accepts_schema policy s \<longleftrightarrow> s \<in> set (accepted_schemas policy)"
  using assms
  by (auto simp: accepts_issuer_def accepts_schema_def valid_CredentialAcceptancePolicy_def
      CredentialAcceptancePolicy_new_def binary_search_is_some_iff simp del: not_None_eq split: if_splits)

lemma verify_presentation_sound:
  assumes "verify_presentation h credential policy issuer_evidence registry status_evidence context = Inr verified"
    and "valid_CredentialAcceptancePolicy policy"
    and "statement = cred_statement credential"
  shows "statement_is_valid_at statement (presentation_timestamp context)"
    "st_issuance_height statement \<le> presentation_height context"
    "st_subject_binding statement = expected_subject_binding context"
    "st_issuer statement \<in> set (accepted_issuers policy)" "st_schema_id statement \<in> set (accepted_schemas policy)"
    "ie_issuer issuer_evidence = st_issuer statement"
    "credential_issuance_commitment h statement = Inr (ie_issuance_commitment issuer_evidence)"
    "ie_signature_suite issuer_evidence = sig_suite (cred_signature credential)"
    "credential_id_of h credential = Inr (fact_credential_id verified)" "fact_schema_id verified = st_schema_id statement"
    "verify_status statement policy (fact_credential_id verified) registry status_evidence (presentation_height context)
       = Inr (status_registry_sequence verified)"
  using assms
  by (auto simp: verify_presentation_def Let_def statement_is_valid_at_def not_less accepts_iff
      split: if_splits option.splits)

lemma strict_remdups_adj: "sorted xs \<Longrightarrow> sorted_wrt (<) (remdups_adj xs)"
proof (induction xs rule: remdups_adj.induct)
  case (3 x y xs)
  then show ?case by (cases "x = y") (auto simp: less_le)
qed simp_all

lemma canonical_schema_facts_sound:
  assumes "canonical_schema_facts facts = Inr schemas"
  shows "set schemas = fact_schema_id ` set facts" "strictly_increasing schemas" "length schemas \<le> MAX_CREDENTIAL_FACTS"
proof -
  from assms have s: "schemas = remdups_adj (sort (map fact_schema_id facts))" "length schemas \<le> MAX_CREDENTIAL_FACTS"
    by (auto simp: canonical_schema_facts_def Let_def split: if_splits)
  then show "set schemas = fact_schema_id ` set facts" "length schemas \<le> MAX_CREDENTIAL_FACTS" by simp_all
  show "strictly_increasing schemas"
    by (simp add: s(1) strictly_increasing_by_iff strict_remdups_adj)
qed

end
