(* ===== verification/Authorization.thy ===== *)
theory Authorization
  imports Credential_Verify Capability Transition State_Tree Accumulator
begin

text \<open>
  The joined authorization of an object transfer (\<^verbatim>\<open>authorization-kernel/src/lib.rs\<close>): the signed
  envelope, the verification of a candidate against credentials, a capability chain and the control
  policy of the object, the replay and budget ledger, and the two services that persist the ledger
  in a snapshot file, the replay store of finalized blocks and the transition gateway.

  The trait \<^verbatim>\<open>AuthorizationVerifier\<close> is a record of its six verdicts.  A snapshot file is its content;
  the temporary file is never read and is left out.  Where the operating system may fail is a
  parameter of the operations that write.  A mutex is poisoned only by a panic of a thread that
  holds it, so the model keeps the explicit flag alone.
\<close>

section \<open>Envelopes\<close>

definition MAX_AUTHORIZATION_CREDENTIALS :: usize where "MAX_AUTHORIZATION_CREDENTIALS = 16"
definition MAX_CAPABILITY_DEPTH :: usize where "MAX_CAPABILITY_DEPTH = 16"
definition MAX_AUTHORIZATION_INVOCATIONS :: usize where "MAX_AUTHORIZATION_INVOCATIONS = 4096"

lemmas authorization_bounds = MAX_AUTHORIZATION_CREDENTIALS_def MAX_CAPABILITY_DEPTH_def
  MAX_AUTHORIZATION_INVOCATIONS_def MAX_APPROVAL_FACTS_def

datatype AuthorizationError =
    AuthMalformedEnvelope | AuthAuthentication | AuthEncoding | AuthCredential
  | AuthCredentialSubstitution | AuthCapability | AuthCapabilitySubstitution | AuthAttenuation
  | AuthCapabilityScope | AuthTransitionSubstitution | AuthRequestSubstitution | AuthPolicy
  | AuthReplay | AuthBudget | AuthRateLimit | AuthTransition | AuthPersistence | AuthPoisoned

record AuthorizationEnvelope =
  auth_invocation_id :: Digest384
  auth_genesis :: Digest384
  auth_epoch :: u64
  auth_actor :: PrincipalId
  auth_height :: u64
  auth_timestamp :: u64
  auth_state_root :: Digest384
  auth_transition :: Digest384
  auth_value :: u128
  auth_compute :: u128
  auth_freeze_state :: FreezeState
  auth_purpose :: "Digest384 option"
  auth_approvals :: "ApprovalFact list"
  auth_credential_ids :: "CredentialId list"
  auth_capability_ids :: "CapabilityId list"
  auth_signature :: ProtocolSignature

definition AuthorizationEnvelope_new :: "AuthorizationEnvelope \<Rightarrow> AuthorizationError + AuthorizationEnvelope" where
  "AuthorizationEnvelope_new r =
     (if auth_invocation_id r = 0 \<or> auth_genesis r = 0 \<or> auth_state_root r = 0 \<or> auth_transition r = 0
        \<or> sig_suite (auth_signature r) \<noteq> ML_DSA_44
        \<or> length (auth_credential_ids r) > MAX_AUTHORIZATION_CREDENTIALS
        \<or> auth_capability_ids r = []
        \<or> length (auth_capability_ids r) > MAX_CAPABILITY_DEPTH
        \<or> \<not> strictly_increasing (auth_credential_ids r)
        \<or> \<not> strictly_increasing (auth_capability_ids r)
        \<or> \<not> strictly_increasing_by fact_role (auth_approvals r)
      then Inl AuthMalformedEnvelope
      else Inr r)"

definition encode_AuthorizationEnvelope :: "AuthorizationEnvelope \<Rightarrow> encoder \<Rightarrow> encode_error + encoder" where
  "encode_AuthorizationEnvelope r e =
     and_then (encode_Digest384 (auth_invocation_id r) e) (\<lambda>e.
     and_then (encode_Digest384 (auth_genesis r) e) (\<lambda>e.
     and_then (write_u64 (auth_epoch r) e) (\<lambda>e.
     and_then (encode_typed_id (auth_actor r) e) (\<lambda>e.
     and_then (write_u64 (auth_height r) e) (\<lambda>e.
     and_then (write_u64 (auth_timestamp r) e) (\<lambda>e.
     and_then (encode_Digest384 (auth_state_root r) e) (\<lambda>e.
     and_then (encode_Digest384 (auth_transition r) e) (\<lambda>e.
     and_then (write_u128 (auth_value r) e) (\<lambda>e.
     and_then (write_u128 (auth_compute r) e) (\<lambda>e.
     and_then (encode_FreezeState (auth_freeze_state r) e) (\<lambda>e.
     and_then (encode_option encode_Digest384 (auth_purpose r) e) (\<lambda>e.
     and_then (encode_vec encode_ApprovalFact MAX_APPROVAL_FACTS (auth_approvals r) e) (\<lambda>e.
     and_then (encode_vec encode_typed_id MAX_AUTHORIZATION_CREDENTIALS (auth_credential_ids r) e) (\<lambda>e.
     and_then (encode_vec encode_typed_id MAX_CAPABILITY_DEPTH (auth_capability_ids r) e) (\<lambda>e.
     encode_ProtocolSignature (auth_signature r) e)))))))))))))))"

definition decode_AuthorizationEnvelope :: "decoder \<Rightarrow> decode_error + (AuthorizationEnvelope \<times> decoder)" where
  "decode_AuthorizationEnvelope d =
     and_then (decode_Digest384 d) (\<lambda>(invocation_id, d).
     and_then (decode_Digest384 d) (\<lambda>(genesis, d).
     and_then (read_u64 d) (\<lambda>(epoch, d).
     and_then (decode_typed_id d) (\<lambda>(actor, d).
     and_then (read_u64 d) (\<lambda>(height, d).
     and_then (read_u64 d) (\<lambda>(timestamp, d).
     and_then (decode_Digest384 d) (\<lambda>(root, d).
     and_then (decode_Digest384 d) (\<lambda>(transition, d).
     and_then (read_u128 d) (\<lambda>(val, d).
     and_then (read_u128 d) (\<lambda>(compute, d).
     and_then (decode_FreezeState d) (\<lambda>(freeze, d).
     and_then (decode_option decode_Digest384 d) (\<lambda>(purpose, d).
     and_then (decode_vec decode_ApprovalFact MAX_APPROVAL_FACTS d) (\<lambda>(approvals, d).
     and_then (decode_vec decode_typed_id MAX_AUTHORIZATION_CREDENTIALS d) (\<lambda>(credentials, d).
     and_then (decode_vec decode_typed_id MAX_CAPABILITY_DEPTH d) (\<lambda>(capabilities, d).
     and_then (decode_ProtocolSignature d) (\<lambda>(signature, d).
     and_then (map_err (\<lambda>_. InvalidValue ''invalid authorization envelope'')
       (AuthorizationEnvelope_new \<lparr>auth_invocation_id = invocation_id, auth_genesis = genesis,
         auth_epoch = epoch, auth_actor = actor, auth_height = height, auth_timestamp = timestamp,
         auth_state_root = root, auth_transition = transition, auth_value = val,
         auth_compute = compute, auth_freeze_state = freeze, auth_purpose = purpose,
         auth_approvals = approvals, auth_credential_ids = credentials,
         auth_capability_ids = capabilities, auth_signature = signature\<rparr>))
       (\<lambda>r. Inr (r, d))))))))))))))))))"

text \<open>The bound reserves 2423 bytes for the signature.\<close>

definition AuthorizationEnvelope_type :: "AuthorizationEnvelope canonical_type" where
  "AuthorizationEnvelope_type = \<lparr>ct_encode = encode_AuthorizationEnvelope,
     ct_decode = decode_AuthorizationEnvelope, ct_type_tag = 0x007d, ct_schema_version = 2,
     ct_max_encoded_len = 48 + 48 + 8 + 48 + 8 + 8 + 48 + 48 + 16 + 16 + 1 + 49 + 1
       + MAX_APPROVAL_FACTS * 49 + 1 + MAX_AUTHORIZATION_CREDENTIALS * 48 + 1
       + MAX_CAPABILITY_DEPTH * 48 + 2423\<rparr>"

definition signing_payload :: "AuthorizationEnvelope \<Rightarrow> encode_error + u8 list" where
  "signing_payload r =
     and_then (map_err (\<lambda>_. EncLengthOverflow) (ProtocolSignature_new ML_DSA_44 (replicate 2420 0))) (\<lambda>signature.
     and_then (encode_envelope AuthorizationEnvelope_type (r\<lparr>auth_signature := signature\<rparr>)) (\<lambda>body.
     Inr (ascii ''ACTIVECHAIN-AUTHORIZATION-ENVELOPE-V1'' @ body)))"

section \<open>Candidates and verdicts\<close>

record CredentialMaterial =
  material_credential :: Credential
  material_policy :: CredentialAcceptancePolicy
  material_issuer_evidence :: PreverifiedIssuerEvidence
  material_registry :: "CredentialStatusRegistry option"
  material_status_evidence :: "PreverifiedStatusEvidence option"

record AuthorizationCandidate =
  cand_envelope :: AuthorizationEnvelope
  invocation_non_membership :: NonMembershipWitness
  cand_credentials :: "CredentialMaterial list"
  capability_chain :: "CapabilityGrant list"
  cand_transaction :: TransferTransaction

record AuthorizationVerifier =
  verify_actor_signature :: "AuthorizationEnvelope \<Rightarrow> bool"
  verify_finalized_context :: "AuthorizationEnvelope \<Rightarrow> bool"
  verify_credential_signature :: "Credential \<Rightarrow> bool"
  verify_credential_status :: "CredentialMaterial \<Rightarrow> bool"
  verify_capability_signature :: "CapabilityGrant \<Rightarrow> bool"
  verify_capability_active :: "CapabilityGrant \<Rightarrow> u64 \<Rightarrow> Digest384 \<Rightarrow> bool"

record VerifiedAuthorization =
  va_envelope :: AuthorizationEnvelope
  envelope_commitment :: Digest384
  leaf_capability :: CapabilityGrant
  va_non_membership :: NonMembershipWitness

definition matches_finalized_action_context ::
    "VerifiedAuthorization \<Rightarrow> u64 \<Rightarrow> PrincipalId \<Rightarrow> Digest384 \<Rightarrow> Digest384 \<Rightarrow> bool" where
  "matches_finalized_action_context a finalized_height actor commitment transition \<longleftrightarrow>
     auth_height (va_envelope a) = finalized_height \<and> auth_actor (va_envelope a) = actor
     \<and> envelope_commitment a = commitment \<and> auth_transition (va_envelope a) = transition"

text \<open>The loop over the credentials, with the facts in the order of the materials.\<close>

fun verify_credentials ::
    "hash \<Rightarrow> AuthorizationVerifier \<Rightarrow> AuthorizationEnvelope \<Rightarrow> CredentialMaterial list
     \<Rightarrow> AuthorizationError + VerifiedCredentialFact list" where
  "verify_credentials shake256 verifier envelope [] = Inr []"
| "verify_credentials shake256 verifier envelope (material # rest) =
     (if \<not> verify_credential_signature verifier (material_credential material)
        \<or> \<not> verify_credential_status verifier material
      then Inl AuthCredential
      else
        and_then (map_err (\<lambda>_. AuthCredential) (verify_presentation shake256 (material_credential material)
          (material_policy material) (material_issuer_evidence material) (material_registry material)
          (material_status_evidence material)
          \<lparr>expected_subject_binding = into_digest (auth_actor envelope),
           presentation_height = auth_height envelope,
           presentation_timestamp = auth_timestamp envelope\<rparr>)) (\<lambda>verified.
        and_then (verify_credentials shake256 verifier envelope rest) (\<lambda>facts.
        Inr (verified # facts))))"

text \<open>The loop over the capability chain, from the root; \<open>previous\<close> is the grant before.\<close>

fun verify_chain ::
    "AuthorizationVerifier \<Rightarrow> AuthorizationEnvelope \<Rightarrow> CapabilityGrant option \<Rightarrow> CapabilityGrant list
     \<Rightarrow> AuthorizationError + unit" where
  "verify_chain verifier envelope previous [] = Inr ()"
| "verify_chain verifier envelope previous (capability # rest) =
     (if \<not> verify_capability_signature verifier capability
        \<or> \<not> verify_capability_active verifier capability (auth_height envelope) (auth_state_root envelope)
      then Inl AuthCapability
      else if previous = None \<and> parent_capability (grant_fields capability) \<noteq> None
      then Inl AuthCapability
      else
        and_then (case previous of None \<Rightarrow> Inr ()
          | Some parent \<Rightarrow> map_err (\<lambda>_. AuthAttenuation) (verify_attenuation parent capability)) (\<lambda>_.
        verify_chain verifier envelope (Some capability) rest))"

definition authorization_request ::
    "AuthorizationEnvelope \<Rightarrow> TransferCommand \<Rightarrow> Digest384 list \<Rightarrow> PolicyRequest" where
  "authorization_request envelope command schemas =
     \<lparr>req_actor = ActorPrincipal (auth_actor envelope), req_action = TRANSFER_OBJECT_ACTION_ID,
      req_resource = ref_object_id (cmd_input command), req_height = auth_height envelope,
      req_value = auth_value envelope, req_freeze_state = auth_freeze_state envelope,
      declared_purpose = auth_purpose envelope, credential_schemas = schemas,
      req_capabilities = auth_capability_ids envelope, approvals = auth_approvals envelope\<rparr>"

text \<open>The four groups of checks of a candidate, in their order.\<close>

definition check_context ::
    "hash \<Rightarrow> AuthorizationCandidate \<Rightarrow> Digest384 \<Rightarrow> u64 \<Rightarrow> Digest384 \<Rightarrow> Digest384
     \<Rightarrow> AuthorizationVerifier \<Rightarrow> AuthorizationError + TransferCommand" where
  "check_context shake256 candidate expected_genesis expected_epoch expected_root expected_policy_hash verifier =
     (let envelope = cand_envelope candidate; transaction = cand_transaction candidate in
      if auth_genesis envelope \<noteq> expected_genesis \<or> auth_epoch envelope \<noteq> expected_epoch
        \<or> auth_state_root envelope \<noteq> expected_root
        \<or> \<not> verify_actor_signature verifier envelope \<or> \<not> verify_finalized_context verifier envelope
      then Inl AuthAuthentication
      else
        and_then (map_err (\<lambda>_. AuthEncoding)
          (commit shake256 CANONICAL_VALUE TransferTransaction_type transaction)) (\<lambda>transition.
        if transition \<noteq> auth_transition envelope then Inl AuthTransitionSubstitution
        else if length (tx_commands transaction) \<noteq> 1 then Inl AuthRequestSubstitution
        else
          let command = tx_commands transaction ! 0 in
          and_then (map_err (\<lambda>_. AuthEncoding)
            (commit shake256 CANONICAL_VALUE PolicySet_type (cmd_control_policy command))) (\<lambda>policy_commitment.
          if policy_commitment \<noteq> expected_policy_hash then Inl AuthPolicy else Inr command)))"

definition check_credentials ::
    "hash \<Rightarrow> AuthorizationVerifier \<Rightarrow> AuthorizationEnvelope \<Rightarrow> CredentialMaterial list
     \<Rightarrow> AuthorizationError + Digest384 list" where
  "check_credentials shake256 verifier envelope credentials =
     (if length credentials > MAX_AUTHORIZATION_CREDENTIALS then Inl AuthCredential
      else
        and_then (verify_credentials shake256 verifier envelope credentials) (\<lambda>facts.
        if sort (map fact_credential_id facts) \<noteq> auth_credential_ids envelope
        then Inl AuthCredentialSubstitution
        else map_err (\<lambda>_. AuthCredential) (canonical_schema_facts facts)))"

definition check_capabilities ::
    "AuthorizationVerifier \<Rightarrow> AuthorizationEnvelope \<Rightarrow> TransferCommand \<Rightarrow> CapabilityGrant list
     \<Rightarrow> AuthorizationError + CapabilityGrant" where
  "check_capabilities verifier envelope command chain =
     (if chain = [] \<or> length chain > MAX_CAPABILITY_DEPTH then Inl AuthCapability
      else
        and_then (verify_chain verifier envelope None chain) (\<lambda>_.
        if sort (map (\<lambda>v. capability_id (grant_fields v)) chain) \<noteq> auth_capability_ids envelope
        then Inl AuthCapabilitySubstitution
        else
          let leaf = last chain; fields = grant_fields leaf in
          if holder_binding fields \<noteq> HolderPrincipal (auth_actor envelope)
            \<or> TRANSFER_OBJECT_ACTION_ID \<notin> set (as_slice (permitted_actions fields))
            \<or> \<not> resource_is_subset_of (resource_exact (ref_object_id (cmd_input command)))
                (resource_scope fields)
            \<or> auth_height envelope < valid_from fields
            \<or> is_some_and (\<lambda>finish. auth_height envelope > finish) (valid_until fields)
          then Inl AuthCapabilityScope
          else Inr leaf))"

definition check_policy ::
    "AuthorizationEnvelope \<Rightarrow> TransferCommand \<Rightarrow> Digest384 list \<Rightarrow> AuthorizationError + unit" where
  "check_policy envelope command schemas =
     and_then (map_err (\<lambda>_. AuthPolicy)
       (PolicyRequest_new (authorization_request envelope command schemas))) (\<lambda>request.
     let decision = evaluate (cmd_control_policy command) request in
     if decision_result decision \<noteq> Permit \<or> decision_obligations decision \<noteq> [] then Inl AuthPolicy
     else if cmd_request command \<noteq> request then Inl AuthRequestSubstitution
     else Inr ())"

definition verify_authorization_candidate ::
    "hash \<Rightarrow> AuthorizationCandidate \<Rightarrow> Digest384 \<Rightarrow> u64 \<Rightarrow> Digest384 \<Rightarrow> Digest384
     \<Rightarrow> AuthorizationVerifier \<Rightarrow> AuthorizationError + VerifiedAuthorization" where
  "verify_authorization_candidate shake256 candidate expected_genesis expected_epoch expected_root
       expected_policy_hash verifier =
     (let envelope = cand_envelope candidate in
      and_then (check_context shake256 candidate expected_genesis expected_epoch expected_root
        expected_policy_hash verifier) (\<lambda>command.
      and_then (check_credentials shake256 verifier envelope (cand_credentials candidate)) (\<lambda>schemas.
      and_then (check_capabilities verifier envelope command (capability_chain candidate)) (\<lambda>leaf.
      and_then (check_policy envelope command schemas) (\<lambda>_.
      and_then (map_err (\<lambda>_. AuthEncoding)
        (commit shake256 CANONICAL_VALUE AuthorizationEnvelope_type envelope)) (\<lambda>commitment.
      Inr \<lparr>va_envelope = envelope, envelope_commitment = commitment, leaf_capability = leaf,
        va_non_membership = invocation_non_membership candidate\<rparr>))))))"

section \<open>The replay and budget ledger\<close>

record BudgetUsage =
  bu_uses :: u64
  bu_money :: u128
  bu_compute :: u128
  bu_window_start :: u64
  bu_window_uses :: u64

definition BudgetUsage_default :: BudgetUsage where
  "BudgetUsage_default = \<lparr>bu_uses = 0, bu_money = 0, bu_compute = 0, bu_window_start = 0, bu_window_uses = 0\<rparr>"

definition encode_BudgetUsage :: "BudgetUsage \<Rightarrow> encoder \<Rightarrow> encode_error + encoder" where
  "encode_BudgetUsage r e =
     and_then (write_u64 (bu_uses r) e) (\<lambda>e.
     and_then (write_u128 (bu_money r) e) (\<lambda>e.
     and_then (write_u128 (bu_compute r) e) (\<lambda>e.
     and_then (write_u64 (bu_window_start r) e) (\<lambda>e.
     write_u64 (bu_window_uses r) e))))"

definition decode_BudgetUsage :: "decoder \<Rightarrow> decode_error + (BudgetUsage \<times> decoder)" where
  "decode_BudgetUsage d =
     and_then (read_u64 d) (\<lambda>(uses, d).
     and_then (read_u128 d) (\<lambda>(money, d).
     and_then (read_u128 d) (\<lambda>(compute, d).
     and_then (read_u64 d) (\<lambda>(window_start, d).
     and_then (read_u64 d) (\<lambda>(window_uses, d).
     Inr (\<lparr>bu_uses = uses, bu_money = money, bu_compute = compute, bu_window_start = window_start,
       bu_window_uses = window_uses\<rparr>, d))))))"

text \<open>A \<^verbatim>\<open>BTreeMap\<close> is its list of entries in the order of the keys.\<close>

type_synonym budget_map = "(CapabilityId \<times> BudgetUsage) list"

fun btree_insert :: "'k::linorder \<Rightarrow> 'v \<Rightarrow> ('k \<times> 'v) list \<Rightarrow> ('k \<times> 'v) list" where
  "btree_insert k v [] = [(k, v)]"
| "btree_insert k v ((k', v') # entries) =
     (if k < k' then (k, v) # (k', v') # entries
      else if k = k' then (k, v) # entries
      else (k', v') # btree_insert k v entries)"

record AuthorizationLedger =
  invocation_set :: SetCommitment
  budgets :: budget_map

definition AuthorizationLedger_default :: "hash \<Rightarrow> AuthorizationLedger" where
  "AuthorizationLedger_default shake256 =
     \<lparr>invocation_set = SetCommitment_empty shake256 AuthorizationInvocation, budgets = []\<rparr>"

definition rate_usage :: "RateLimit option \<Rightarrow> u64 \<Rightarrow> BudgetUsage \<Rightarrow> AuthorizationError + (u64 \<times> u64)" where
  "rate_usage limit height usage =
     (case limit of None \<Rightarrow> Inr (0, 0)
      | Some limit \<Rightarrow>
          let start = height - height mod window_blocks limit in
          and_then (if bu_window_start usage = start
            then ok_or AuthBudget (checked_add (bu_window_uses usage) 1) else Inr 1) (\<lambda>used.
          if used > maximum_uses limit then Inl AuthRateLimit else Inr (start, used)))"

text \<open>The entry of a capability, or the default a missing entry starts from.\<close>

definition budget_usage :: "AuthorizationLedger \<Rightarrow> CapabilityId \<Rightarrow> BudgetUsage" where
  "budget_usage ledger k =
     (case map_of (budgets ledger) k of None \<Rightarrow> BudgetUsage_default | Some usage \<Rightarrow> usage)"

text \<open>
  Every caller works on a copy of the ledger that an error discards, so an error returns none.
\<close>

definition consume ::
    "hash \<Rightarrow> AuthorizationLedger \<Rightarrow> VerifiedAuthorization \<Rightarrow> AuthorizationError + AuthorizationLedger" where
  "consume shake256 ledger authorization =
     (let envelope = va_envelope authorization in
      and_then (map_err (\<lambda>_. AuthReplay) (SetCommitment_insert shake256 (invocation_set ledger)
        (auth_invocation_id envelope) (va_non_membership authorization))) (\<lambda>next_invocation_set.
      let fields = grant_fields (leaf_capability authorization);
          usage = budget_usage ledger (capability_id fields) in
      and_then (ok_or AuthBudget (checked_add (bu_uses usage) 1)) (\<lambda>uses.
      and_then (ok_or AuthBudget (checked_add (bu_money usage) (auth_value envelope))) (\<lambda>money.
      and_then (ok_or AuthBudget (checked_add (bu_compute usage) (auth_compute envelope))) (\<lambda>compute.
      if is_some_and (\<lambda>v. uses > v) (use_limit fields)
        \<or> is_some_and (\<lambda>v. money > v) (monetary_limit fields)
        \<or> is_some_and (\<lambda>v. compute > v) (compute_limit fields)
      then Inl AuthBudget
      else
        and_then (rate_usage (rate_limit fields) (auth_height envelope) usage) (\<lambda>(window_start, window_uses).
        Inr \<lparr>invocation_set = next_invocation_set,
          budgets = btree_insert (capability_id fields) \<lparr>bu_uses = uses, bu_money = money,
            bu_compute = compute, bu_window_start = window_start, bu_window_uses = window_uses\<rparr>
            (budgets ledger)\<rparr>))))))"

fun encode_budgets :: "budget_map \<Rightarrow> encoder \<Rightarrow> encode_error + encoder" where
  "encode_budgets [] e = Inr e"
| "encode_budgets ((k, v) # entries) e =
     and_then (encode_typed_id k e) (\<lambda>e. and_then (encode_BudgetUsage v e) (encode_budgets entries))"

definition encode_AuthorizationLedger :: "AuthorizationLedger \<Rightarrow> encoder \<Rightarrow> encode_error + encoder" where
  "encode_AuthorizationLedger r e =
     and_then (encode_Digest384 (set_root (invocation_set r)) e) (\<lambda>e.
     and_then (write_u64 (set_count (invocation_set r)) e) (\<lambda>e.
     and_then (write_length (length (budgets r)) MAX_AUTHORIZATION_INVOCATIONS e) (\<lambda>e.
     encode_budgets (budgets r) e)))"

fun decode_budgets ::
    "string \<Rightarrow> nat \<Rightarrow> budget_map \<Rightarrow> CapabilityId option \<Rightarrow> decoder \<Rightarrow> decode_error + (budget_map \<times> decoder)" where
  "decode_budgets message 0 entries prior d = Inr (entries, d)"
| "decode_budgets message (Suc n) entries prior d =
     and_then (decode_typed_id d) (\<lambda>(k, d).
     and_then (decode_BudgetUsage d) (\<lambda>(v, d).
     if is_some_and (\<lambda>p. p \<ge> k) prior \<or> map_of entries k \<noteq> None then Inl (InvalidValue message)
     else decode_budgets message n (btree_insert k v entries) (Some k) d))"

definition decode_AuthorizationLedger :: "decoder \<Rightarrow> decode_error + (AuthorizationLedger \<times> decoder)" where
  "decode_AuthorizationLedger d =
     and_then (decode_Digest384 d) (\<lambda>(invocation_root, d).
     and_then (read_u64 d) (\<lambda>(invocation_count, d).
     if invocation_root = 0 then Inl (InvalidValue ''zero invocation accumulator root'')
     else
       and_then (read_length MAX_AUTHORIZATION_INVOCATIONS d) (\<lambda>(count, d).
       and_then (decode_budgets ''unordered budgets'' count [] None d) (\<lambda>(entries, d).
       Inr (\<lparr>invocation_set = \<lparr>set_domain = AuthorizationInvocation, set_root = invocation_root,
          set_count = invocation_count\<rparr>, budgets = entries\<rparr>, d)))))"

fun decode_legacy_invocations ::
    "hash \<Rightarrow> nat \<Rightarrow> ReferenceSet \<Rightarrow> Digest384 option \<Rightarrow> decoder \<Rightarrow> decode_error + (ReferenceSet \<times> decoder)" where
  "decode_legacy_invocations shake256 0 invocations prior d = Inr (invocations, d)"
| "decode_legacy_invocations shake256 (Suc n) invocations prior d =
     and_then (decode_Digest384 d) (\<lambda>(invocation, d).
     and_then (decode_Digest384 d) (\<lambda>(legacy_receipt, d).
     if is_some_and (\<lambda>p. p \<ge> invocation) prior
     then Inl (InvalidValue ''unordered legacy invocations'')
     else
       and_then (map_err (\<lambda>_. InvalidValue ''unordered legacy invocations'')
         (ReferenceSet_insert shake256 invocations invocation)) (\<lambda>invocations.
       decode_legacy_invocations shake256 n invocations (Some invocation) d)))"

definition decode_legacy_authorization_ledger ::
    "hash \<Rightarrow> decoder \<Rightarrow> decode_error + (AuthorizationLedger \<times> decoder)" where
  "decode_legacy_authorization_ledger shake256 d =
     and_then (read_length MAX_AUTHORIZATION_INVOCATIONS d) (\<lambda>(count, d).
     and_then (decode_legacy_invocations shake256 count
       (ReferenceSet_new shake256 AuthorizationInvocation) None d) (\<lambda>(invocations, d).
     and_then (read_length MAX_AUTHORIZATION_INVOCATIONS d) (\<lambda>(count, d).
     and_then (decode_budgets ''unordered legacy budgets'' count [] None d) (\<lambda>(entries, d).
     Inr (\<lparr>invocation_set = ref_commitment invocations, budgets = entries\<rparr>, d)))))"

section \<open>Snapshot files\<close>

datatype io_error = NotFound | InvalidData string | DeviceFault

text \<open>
  Where a save fails, when it does: while the temporary file is created, written or renamed, or in
  the directory synchronization after the rename.
\<close>

datatype io_fault = NoFault | BeforeRename | AfterRename

type_synonym snapshot_file = "u8 list option"

definition snapshot_tag :: "hash \<Rightarrow> u8 list \<Rightarrow> u8 list" where
  "snapshot_tag shake256 bytes =
     take 32 (as_bytes (shake256 (ascii ''ACTIVECHAIN-AUTHORIZATION-SNAPSHOT-V1'' @ bytes)))"

definition save_typed_snapshot ::
    "hash \<Rightarrow> 'a canonical_type \<Rightarrow> 'a \<Rightarrow> io_fault \<Rightarrow> snapshot_file \<Rightarrow> snapshot_file \<times> (io_error + unit)" where
  "save_typed_snapshot shake256 T snapshot fault disk =
     (case encode_envelope T snapshot of
        Inl _ \<Rightarrow> (disk, Inl (InvalidData ''authorization snapshot encoding failed''))
      | Inr bytes \<Rightarrow>
          let bytes = bytes @ snapshot_tag shake256 bytes in
          (case fault of
             BeforeRename \<Rightarrow> (disk, Inl DeviceFault)
           | AfterRename \<Rightarrow> (Some bytes, Inl DeviceFault)
           | NoFault \<Rightarrow> (Some bytes, Inr ())))"

definition load_verified_snapshot_bytes :: "hash \<Rightarrow> snapshot_file \<Rightarrow> io_error + u8 list" where
  "load_verified_snapshot_bytes shake256 disk =
     and_then (ok_or NotFound disk) (\<lambda>bytes.
     if length bytes < 32 then Inl (InvalidData ''authorization snapshot truncated'')
     else
       let body = length bytes - 32 in
       if snapshot_tag shake256 (take body bytes) \<noteq> drop body bytes
       then Inl (InvalidData ''authorization snapshot corrupt'')
       else Inr (take body bytes))"

definition or_else :: "'e + 'a \<Rightarrow> ('e \<Rightarrow> 'f + 'a) \<Rightarrow> 'f + 'a" where
  "or_else r f = (case r of Inl e \<Rightarrow> f e | Inr v \<Rightarrow> Inr v)"

section \<open>The replay store of finalized blocks\<close>

record AuthorizationReplaySnapshot =
  rsnap_genesis :: Digest384
  rsnap_epoch :: u64
  rsnap_ledger :: AuthorizationLedger

definition encode_AuthorizationReplaySnapshot ::
    "AuthorizationReplaySnapshot \<Rightarrow> encoder \<Rightarrow> encode_error + encoder" where
  "encode_AuthorizationReplaySnapshot r e =
     and_then (encode_Digest384 (rsnap_genesis r) e) (\<lambda>e.
     and_then (write_u64 (rsnap_epoch r) e) (\<lambda>e.
     encode_AuthorizationLedger (rsnap_ledger r) e))"

definition decode_AuthorizationReplaySnapshot ::
    "decoder \<Rightarrow> decode_error + (AuthorizationReplaySnapshot \<times> decoder)" where
  "decode_AuthorizationReplaySnapshot d =
     and_then (decode_Digest384 d) (\<lambda>(genesis, d).
     and_then (read_u64 d) (\<lambda>(epoch, d).
     and_then (decode_AuthorizationLedger d) (\<lambda>(ledger, d).
     Inr (\<lparr>rsnap_genesis = genesis, rsnap_epoch = epoch, rsnap_ledger = ledger\<rparr>, d))))"

definition AuthorizationReplaySnapshot_type :: "AuthorizationReplaySnapshot canonical_type" where
  "AuthorizationReplaySnapshot_type = \<lparr>ct_encode = encode_AuthorizationReplaySnapshot,
     ct_decode = decode_AuthorizationReplaySnapshot, ct_type_tag = 0x0143, ct_schema_version = 2,
     ct_max_encoded_len = 48 + 8 + 48 + 8 + 2 + MAX_AUTHORIZATION_INVOCATIONS * (48 + 56)\<rparr>"

definition load_replay_snapshot :: "hash \<Rightarrow> snapshot_file \<Rightarrow> io_error + AuthorizationReplaySnapshot" where
  "load_replay_snapshot shake256 disk =
     and_then (load_verified_snapshot_bytes shake256 disk) (\<lambda>bytes.
     map_err (\<lambda>_. InvalidData ''authorization snapshot invalid'')
       (or_else (decode_envelope AuthorizationReplaySnapshot_type bytes) (\<lambda>_.
         and_then (inspect_canonical_envelope bytes (ct_type_tag AuthorizationReplaySnapshot_type) 1
           (48 + 8 + 2 + MAX_AUTHORIZATION_INVOCATIONS * 96 + 2
             + MAX_AUTHORIZATION_INVOCATIONS * (48 + 56))) (\<lambda>envelope.
         and_then (decode_Digest384 (decoder_new (env_body envelope))) (\<lambda>(genesis, d).
         and_then (read_u64 d) (\<lambda>(epoch, d).
         and_then (decode_legacy_authorization_ledger shake256 d) (\<lambda>(ledger, d).
         and_then (decoder_finish d) (\<lambda>_.
         Inr \<lparr>rsnap_genesis = genesis, rsnap_epoch = epoch, rsnap_ledger = ledger\<rparr>))))))))"

record AuthorizationReplayStore =
  store_ledger :: AuthorizationLedger
  store_poisoned :: bool
  store_genesis :: Digest384
  store_epoch :: u64

definition ReplayStore_new :: "hash \<Rightarrow> Digest384 \<Rightarrow> u64 \<Rightarrow> AuthorizationError + AuthorizationReplayStore" where
  "ReplayStore_new shake256 genesis epoch =
     (if genesis = 0 then Inl AuthMalformedEnvelope
      else Inr \<lparr>store_ledger = AuthorizationLedger_default shake256, store_poisoned = False,
        store_genesis = genesis, store_epoch = epoch\<rparr>)"

definition ReplayStore_load :: "hash \<Rightarrow> snapshot_file \<Rightarrow> io_error + AuthorizationReplayStore" where
  "ReplayStore_load shake256 disk =
     and_then (load_replay_snapshot shake256 disk) (\<lambda>snapshot.
     if rsnap_genesis snapshot = 0 then Inl (InvalidData ''authorization replay snapshot has zero genesis'')
     else Inr \<lparr>store_ledger = rsnap_ledger snapshot, store_poisoned = False,
       store_genesis = rsnap_genesis snapshot, store_epoch = rsnap_epoch snapshot\<rparr>)"

definition ReplayStore_invocation_commitment :: "AuthorizationReplayStore \<Rightarrow> AuthorizationError + SetCommitment" where
  "ReplayStore_invocation_commitment s =
     (if store_poisoned s then Inl AuthPoisoned else Inr (invocation_set (store_ledger s)))"

fun consume_batch ::
    "hash \<Rightarrow> Digest384 \<Rightarrow> u64 \<Rightarrow> VerifiedAuthorization list \<Rightarrow> AuthorizationLedger
     \<Rightarrow> AuthorizationError + AuthorizationLedger" where
  "consume_batch shake256 genesis epoch [] ledger = Inr ledger"
| "consume_batch shake256 genesis epoch (authorization # rest) ledger =
     (if auth_genesis (va_envelope authorization) \<noteq> genesis \<or> auth_epoch (va_envelope authorization) \<noteq> epoch
      then Inl AuthAuthentication
      else and_then (consume shake256 ledger authorization) (consume_batch shake256 genesis epoch rest))"

definition admit_batch ::
    "hash \<Rightarrow> VerifiedAuthorization list \<Rightarrow> io_fault \<Rightarrow> AuthorizationReplayStore \<times> snapshot_file
     \<Rightarrow> (AuthorizationReplayStore \<times> snapshot_file) \<times> (AuthorizationError + unit)" where
  "admit_batch shake256 authorizations fault service =
     (case service of (s, disk) \<Rightarrow>
      if store_poisoned s then ((s, disk), Inl AuthPoisoned)
      else
        (case consume_batch shake256 (store_genesis s) (store_epoch s) authorizations (store_ledger s) of
           Inl e \<Rightarrow> ((s, disk), Inl e)
         | Inr ledger \<Rightarrow>
             (case save_typed_snapshot shake256 AuthorizationReplaySnapshot_type
                \<lparr>rsnap_genesis = store_genesis s, rsnap_epoch = store_epoch s, rsnap_ledger = ledger\<rparr>
                fault disk of
                (disk, Inl _) \<Rightarrow> ((s\<lparr>store_poisoned := True\<rparr>, disk), Inl AuthPersistence)
              | (disk, Inr _) \<Rightarrow> ((s\<lparr>store_ledger := ledger\<rparr>, disk), Inr ()))))"

section \<open>The transition gateway\<close>

record AuthorizedSnapshot =
  snap_genesis :: Digest384
  snap_epoch :: u64
  snap_state :: ObjectState
  snap_ledger :: AuthorizationLedger
  last_receipt :: TransitionReceipt
  last_envelope :: Digest384

definition encode_AuthorizedSnapshot :: "AuthorizedSnapshot \<Rightarrow> encoder \<Rightarrow> encode_error + encoder" where
  "encode_AuthorizedSnapshot r e =
     and_then (encode_Digest384 (snap_genesis r) e) (\<lambda>e.
     and_then (write_u64 (snap_epoch r) e) (\<lambda>e.
     and_then (encode_ObjectState (snap_state r) e) (\<lambda>e.
     and_then (encode_AuthorizationLedger (snap_ledger r) e) (\<lambda>e.
     and_then (encode_TransitionReceipt (last_receipt r) e) (\<lambda>e.
     encode_Digest384 (last_envelope r) e)))))"

definition decode_AuthorizedSnapshot :: "decoder \<Rightarrow> decode_error + (AuthorizedSnapshot \<times> decoder)" where
  "decode_AuthorizedSnapshot d =
     and_then (decode_Digest384 d) (\<lambda>(genesis, d).
     and_then (read_u64 d) (\<lambda>(epoch, d).
     and_then (decode_ObjectState d) (\<lambda>(state, d).
     and_then (decode_AuthorizationLedger d) (\<lambda>(ledger, d).
     and_then (decode_TransitionReceipt d) (\<lambda>(receipt, d).
     and_then (decode_Digest384 d) (\<lambda>(envelope, d).
     Inr (\<lparr>snap_genesis = genesis, snap_epoch = epoch, snap_state = state, snap_ledger = ledger,
       last_receipt = receipt, last_envelope = envelope\<rparr>, d)))))))"

definition AuthorizedSnapshot_type :: "AuthorizedSnapshot canonical_type" where
  "AuthorizedSnapshot_type = \<lparr>ct_encode = encode_AuthorizedSnapshot, ct_decode = decode_AuthorizedSnapshot,
     ct_type_tag = 0x007e, ct_schema_version = 3,
     ct_max_encoded_len = 48 + 8 + ct_max_encoded_len ObjectState_type + 48 + 8 + 2
       + MAX_AUTHORIZATION_INVOCATIONS * (48 + 56) + ct_max_encoded_len TransitionReceipt_type + 48\<rparr>"

definition save_snapshot ::
    "hash \<Rightarrow> AuthorizedSnapshot \<Rightarrow> io_fault \<Rightarrow> snapshot_file \<Rightarrow> snapshot_file \<times> (io_error + unit)" where
  "save_snapshot shake256 snapshot fault disk =
     save_typed_snapshot shake256 AuthorizedSnapshot_type snapshot fault disk"

definition load_snapshot :: "hash \<Rightarrow> snapshot_file \<Rightarrow> io_error + AuthorizedSnapshot" where
  "load_snapshot shake256 disk =
     and_then (load_verified_snapshot_bytes shake256 disk) (\<lambda>bytes.
     map_err (\<lambda>_. InvalidData ''authorization snapshot invalid'')
       (or_else (decode_envelope AuthorizedSnapshot_type bytes) (\<lambda>_.
         and_then (inspect_canonical_envelope bytes (ct_type_tag AuthorizedSnapshot_type) 2
           (48 + 8 + ct_max_encoded_len ObjectState_type + 2 + MAX_AUTHORIZATION_INVOCATIONS * 96 + 2
             + MAX_AUTHORIZATION_INVOCATIONS * (48 + 56) + ct_max_encoded_len TransitionReceipt_type
             + 48)) (\<lambda>envelope.
         and_then (decode_Digest384 (decoder_new (env_body envelope))) (\<lambda>(genesis, d).
         and_then (read_u64 d) (\<lambda>(epoch, d).
         and_then (decode_ObjectState d) (\<lambda>(state, d).
         and_then (decode_legacy_authorization_ledger shake256 d) (\<lambda>(ledger, d).
         and_then (decode_TransitionReceipt d) (\<lambda>(receipt, d).
         and_then (decode_Digest384 d) (\<lambda>(last, d).
         and_then (decoder_finish d) (\<lambda>_.
         Inr \<lparr>snap_genesis = genesis, snap_epoch = epoch, snap_state = state, snap_ledger = ledger,
           last_receipt = receipt, last_envelope = last\<rparr>)))))))))))"

record AuthorizationGateway =
  gw_state :: ObjectState
  gw_ledger :: AuthorizationLedger
  gw_poisoned :: bool
  gw_genesis :: Digest384
  gw_epoch :: u64

type_synonym gateway_service = "AuthorizationGateway \<times> snapshot_file"

definition Gateway_new :: "hash \<Rightarrow> ObjectState \<Rightarrow> Digest384 \<Rightarrow> u64 \<Rightarrow> AuthorizationError + AuthorizationGateway" where
  "Gateway_new shake256 state genesis epoch =
     (if genesis = 0 then Inl AuthMalformedEnvelope
      else Inr \<lparr>gw_state = state, gw_ledger = AuthorizationLedger_default shake256, gw_poisoned = False,
        gw_genesis = genesis, gw_epoch = epoch\<rparr>)"

definition Gateway_load :: "hash \<Rightarrow> snapshot_file \<Rightarrow> io_error + AuthorizationGateway" where
  "Gateway_load shake256 disk =
     and_then (load_snapshot shake256 disk) (\<lambda>snapshot.
     if snap_genesis snapshot = 0 then Inl (InvalidData ''authorization gateway snapshot has zero genesis'')
     else Inr \<lparr>gw_state = snap_state snapshot, gw_ledger = snap_ledger snapshot, gw_poisoned = False,
       gw_genesis = snap_genesis snapshot, gw_epoch = snap_epoch snapshot\<rparr>)"

definition advance_epoch ::
    "hash \<Rightarrow> u64 \<Rightarrow> io_fault \<Rightarrow> gateway_service \<Rightarrow> gateway_service \<times> (AuthorizationError + unit)" where
  "advance_epoch shake256 next_epoch fault service =
     (case service of (g, disk) \<Rightarrow>
      if next_epoch \<le> gw_epoch g then ((g, disk), Inl AuthAuthentication)
      else if gw_poisoned g then ((g, disk), Inl AuthPoisoned)
      else
        (case load_snapshot shake256 disk of
           Inl _ \<Rightarrow> ((g, disk), Inl AuthPersistence)
         | Inr previous \<Rightarrow>
             (case save_snapshot shake256 \<lparr>snap_genesis = gw_genesis g, snap_epoch = next_epoch,
                 snap_state = gw_state g, snap_ledger = gw_ledger g,
                 last_receipt = last_receipt previous, last_envelope = last_envelope previous\<rparr> fault disk of
                (disk, Inl _) \<Rightarrow> ((g\<lparr>gw_poisoned := True\<rparr>, disk), Inl AuthPersistence)
              | (disk, Inr _) \<Rightarrow> ((g\<lparr>gw_epoch := next_epoch\<rparr>, disk), Inr ()))))"

definition gateway_state :: "AuthorizationGateway \<Rightarrow> AuthorizationError + ObjectState" where
  "gateway_state g = (if gw_poisoned g then Inl AuthPoisoned else Inr (gw_state g))"

definition gateway_invocation_commitment :: "AuthorizationGateway \<Rightarrow> AuthorizationError + SetCommitment" where
  "gateway_invocation_commitment g =
     (if gw_poisoned g then Inl AuthPoisoned else Inr (invocation_set (gw_ledger g)))"

text \<open>The part of an admission before the snapshot is written: it changes nothing.\<close>

definition prepare_admission ::
    "hash \<Rightarrow> AuthorizationVerifier \<Rightarrow> AuthorizationCandidate \<Rightarrow> AuthorizationGateway
     \<Rightarrow> AuthorizationError + AuthorizedSnapshot" where
  "prepare_admission shake256 verifier candidate g =
     and_then (map_err (\<lambda>_. AuthReplay) (SetCommitment_insert shake256 (invocation_set (gw_ledger g))
       (auth_invocation_id (cand_envelope candidate)) (invocation_non_membership candidate))) (\<lambda>_.
     and_then (map_err (\<lambda>_. AuthEncoding) (commit_objects shake256 (state_objects (gw_state g)))) (\<lambda>commitment.
     and_then (ok_or AuthRequestSubstitution (case tx_commands (cand_transaction candidate) of
        [] \<Rightarrow> None | command # _ \<Rightarrow> Some command)) (\<lambda>first.
     and_then (ok_or AuthPolicy (find_object (gw_state g) (ref_object_id (cmd_input first)))) (\<lambda>ob.
     and_then (verify_authorization_candidate shake256 candidate (gw_genesis g) (gw_epoch g)
       (state_root commitment) (control_policy_hash ob) verifier) (\<lambda>authorization.
     and_then (consume shake256 (gw_ledger g) authorization) (\<lambda>ledger.
     and_then (map_err (\<lambda>_. AuthTransition)
       (apply_transfer_transaction shake256 (gw_state g) (cand_transaction candidate))) (\<lambda>output.
     if receipt_result (output_receipt output) \<noteq> ReceiptSuccess then Inl AuthTransition
     else Inr \<lparr>snap_genesis = gw_genesis g, snap_epoch = gw_epoch g, snap_state = output_state output,
       snap_ledger = ledger, last_receipt = output_receipt output,
       last_envelope = envelope_commitment authorization\<rparr>)))))))"

definition admit ::
    "hash \<Rightarrow> AuthorizationVerifier \<Rightarrow> AuthorizationCandidate \<Rightarrow> io_fault \<Rightarrow> gateway_service
     \<Rightarrow> gateway_service \<times> (AuthorizationError + TransitionReceipt)" where
  "admit shake256 verifier candidate fault service =
     (case service of (g, disk) \<Rightarrow>
      if gw_poisoned g then ((g, disk), Inl AuthPoisoned)
      else
        (case prepare_admission shake256 verifier candidate g of
           Inl e \<Rightarrow> ((g, disk), Inl e)
         | Inr snapshot \<Rightarrow>
             (case save_snapshot shake256 snapshot fault disk of
                (disk, Inl _) \<Rightarrow> ((g\<lparr>gw_poisoned := True\<rparr>, disk), Inl AuthPersistence)
              | (disk, Inr _) \<Rightarrow>
                  ((g\<lparr>gw_state := snap_state snapshot, gw_ledger := snap_ledger snapshot\<rparr>, disk),
                   Inr (last_receipt snapshot)))))"

end
