(* ===== verification/Authorization_Codec.thy ===== *)
theory Authorization_Codec
  imports Authorization
begin

text \<open>
  Wire formats of the authorization kernel: the signed envelope, the ledger and the two snapshots.
  The budget loop of the ledger is a vector of entries with an order check.  The envelope is
  canonical but its declared bound is 5 bytes short of its longest encoding.
\<close>

section \<open>The envelope\<close>

definition enc_AuthorizationEnvelope :: "AuthorizationEnvelope \<Rightarrow> u8 list" where
  "enc_AuthorizationEnvelope r = enc_Digest384 (auth_invocation_id r) @ enc_Digest384 (auth_genesis r) @
    enc_u64 (auth_epoch r) @ enc_typed_id (auth_actor r) @ enc_u64 (auth_height r) @
    enc_u64 (auth_timestamp r) @ enc_Digest384 (auth_state_root r) @ enc_Digest384 (auth_transition r) @
    enc_u128 (auth_value r) @ enc_u128 (auth_compute r) @ enc_FreezeState (auth_freeze_state r) @
    enc_option enc_Digest384 (auth_purpose r) @
    enc_length (length (auth_approvals r)) @ enc_each enc_ApprovalFact (auth_approvals r) @
    enc_length (length (auth_credential_ids r)) @ enc_each enc_typed_id (auth_credential_ids r) @
    enc_length (length (auth_capability_ids r)) @ enc_each enc_typed_id (auth_capability_ids r) @
    enc_ProtocolSignature (auth_signature r)"

definition valid_AuthorizationEnvelope :: "AuthorizationEnvelope \<Rightarrow> bool" where
  "valid_AuthorizationEnvelope r \<longleftrightarrow> list_all valid_ApprovalFact (auth_approvals r)
    \<and> length (auth_approvals r) \<le> MAX_APPROVAL_FACTS \<and> valid_signature (auth_signature r)
    \<and> AuthorizationEnvelope_new r = Inr r"

lemma AuthorizationEnvelope_new_eq_Inr: "AuthorizationEnvelope_new r = Inr r' \<longleftrightarrow> r' = r \<and>
  auth_invocation_id r \<noteq> 0 \<and> auth_genesis r \<noteq> 0 \<and> auth_state_root r \<noteq> 0 \<and> auth_transition r \<noteq> 0 \<and>
  sig_suite (auth_signature r) = ML_DSA_44 \<and> length (auth_credential_ids r) \<le> 16 \<and>
  auth_capability_ids r \<noteq> [] \<and> length (auth_capability_ids r) \<le> 16 \<and>
  strictly_increasing (auth_credential_ids r) \<and> strictly_increasing (auth_capability_ids r) \<and>
  strictly_increasing_by fact_role (auth_approvals r)"
  by (auto simp: AuthorizationEnvelope_new_def authorization_bounds)

interpretation authorization_envelope: canonical_envelope enc_AuthorizationEnvelope
    AuthorizationEnvelope_type valid_AuthorizationEnvelope
  by unfold_locales
    (auto simp: AuthorizationEnvelope_type_def enc_AuthorizationEnvelope_def encode_AuthorizationEnvelope_def
      decode_AuthorizationEnvelope_def valid_AuthorizationEnvelope_def AuthorizationEnvelope_new_eq_Inr
      MAX_BODY_LENGTH_def authorization_bounds codec_simps dest!: codec_dests)

lemma ml_dsa_44_signature_length:
  assumes "valid_signature s" "sig_suite s = ML_DSA_44"
  shows "length (enc_ProtocolSignature s) = 2428"
proof -
  have "length (sig_bytes s) = 2420"
    using assms by (simp add: valid_signature_iff signature_length_def)
  then show ?thesis
    by (simp add: enc_ProtocolSignature_def enc_bytes_prefixed_def enc_length_def uleb.simps)
qed

lemma length_enc_each_fixed: "(\<And>x. length (enc x) = k) \<Longrightarrow> length (enc_each enc vs) = length vs * k"
  by (induction vs) simp_all

text \<open>The exact length of an encoded envelope.\<close>

lemma length_enc_AuthorizationEnvelope:
  assumes "valid_AuthorizationEnvelope r"
  shows "length (enc_AuthorizationEnvelope r) = 2729 + (if auth_purpose r = None then 0 else 48)
    + length (auth_approvals r) * 49 + length (auth_credential_ids r) * 48 + length (auth_capability_ids r) * 48"
proof -
  have v: "length (auth_approvals r) \<le> 16" "length (auth_credential_ids r) \<le> 16"
    "length (auth_capability_ids r) \<le> 16" "valid_signature (auth_signature r)"
    "sig_suite (auth_signature r) = ML_DSA_44"
    using assms by (simp_all add: valid_AuthorizationEnvelope_def AuthorizationEnvelope_new_eq_Inr authorization_bounds)
  have "length (enc_each enc_ApprovalFact (auth_approvals r)) = length (auth_approvals r) * 49"
    by (rule length_enc_each_fixed) (simp add: enc_ApprovalFact_def)
  moreover have "length (enc_each enc_typed_id (auth_credential_ids r)) = length (auth_credential_ids r) * 48"
    "length (enc_each enc_typed_id (auth_capability_ids r)) = length (auth_capability_ids r) * 48"
    by (simp_all add: length_enc_each_fixed)
  ultimately show ?thesis
    using v(1-3) ml_dsa_44_signature_length [OF v(4,5)]
    by (cases "auth_purpose r") (simp_all add: enc_AuthorizationEnvelope_def enc_length_small)
qed

lemma AuthorizationEnvelope_bound: "ct_max_encoded_len AuthorizationEnvelope_type = 5092"
  by (simp add: AuthorizationEnvelope_type_def authorization_bounds)

lemma encode_body_AuthorizationEnvelope_iff:
  assumes "valid_AuthorizationEnvelope r"
  shows "is_err (encode_body AuthorizationEnvelope_type r) \<longleftrightarrow>
    auth_purpose r \<noteq> None \<and> length (auth_approvals r) = 16 \<and> length (auth_credential_ids r) = 16
    \<and> length (auth_capability_ids r) = 16"
proof -
  have v: "length (auth_approvals r) \<le> 16" "length (auth_credential_ids r) \<le> 16"
    "length (auth_capability_ids r) \<le> 16"
    using assms by (simp_all add: valid_AuthorizationEnvelope_def AuthorizationEnvelope_new_eq_Inr authorization_bounds)
  have "is_err (encode_body AuthorizationEnvelope_type r) \<longleftrightarrow> length (enc_AuthorizationEnvelope r) > 5092"
    using authorization_envelope.encode_body_fits [OF assms] authorization_envelope.encode_bodyD [of r]
    by (cases "encode_body AuthorizationEnvelope_type r") (auto simp: AuthorizationEnvelope_bound not_le [symmetric])
  also have "\<dots> \<longleftrightarrow> auth_purpose r \<noteq> None \<and> length (auth_approvals r) = 16
      \<and> length (auth_credential_ids r) = 16 \<and> length (auth_capability_ids r) = 16"
    using v by (auto simp: length_enc_AuthorizationEnvelope [OF assms])
  finally show ?thesis .
qed

section \<open>The ledger\<close>

definition enc_BudgetUsage :: "BudgetUsage \<Rightarrow> u8 list" where
  "enc_BudgetUsage r = enc_u64 (bu_uses r) @ enc_u128 (bu_money r) @ enc_u128 (bu_compute r) @
    enc_u64 (bu_window_start r) @ enc_u64 (bu_window_uses r)"

interpretation budget_usage: canonical_codec enc_BudgetUsage encode_BudgetUsage decode_BudgetUsage "\<lambda>_. True"
  by unfold_locales
    (auto simp: enc_BudgetUsage_def encode_BudgetUsage_def decode_BudgetUsage_def codec_simps dest!: codec_dests)

lemmas [codec_simps] = budget_usage.laws
lemmas [codec_dests] = budget_usage.inversions

definition enc_budget_entry :: "CapabilityId \<times> BudgetUsage \<Rightarrow> u8 list" where
  "enc_budget_entry entry = enc_typed_id (fst entry) @ enc_BudgetUsage (snd entry)"

definition encode_budget_entry :: "CapabilityId \<times> BudgetUsage \<Rightarrow> encoder \<Rightarrow> encode_error + encoder" where
  "encode_budget_entry entry e =
     and_then (encode_typed_id (fst entry) e) (\<lambda>e. encode_BudgetUsage (snd entry) e)"

definition decode_budget_entry :: "decoder \<Rightarrow> decode_error + ((CapabilityId \<times> BudgetUsage) \<times> decoder)" where
  "decode_budget_entry d =
     and_then (decode_typed_id d) (\<lambda>(k, d). and_then (decode_BudgetUsage d) (\<lambda>(v, d). Inr ((k, v), d)))"

interpretation budget_entry: canonical_codec enc_budget_entry encode_budget_entry decode_budget_entry "\<lambda>_. True"
  by unfold_locales
    (auto simp: enc_budget_entry_def encode_budget_entry_def decode_budget_entry_def codec_simps dest!: codec_dests)

lemmas [codec_simps] = budget_entry.laws
lemmas [codec_dests] = budget_entry.inversions

lemma length_enc_budget_entry [simp]: "length (enc_budget_entry entry) = 104"
  by (simp add: enc_budget_entry_def enc_BudgetUsage_def)

text \<open>The loops of the ledger are the vector codec, with an order check on the way in.\<close>

lemma encode_budgets_eq: "encode_budgets entries = encode_each encode_budget_entry entries"
proof (induction entries)
  case (Cons entry entries)
  obtain k v where entry: "entry = (k, v)" by (cases entry)
  show ?case
  proof
    fix e
    show "encode_budgets (entry # entries) e = encode_each encode_budget_entry (entry # entries) e"
      by (cases "encode_typed_id k e") (simp_all add: entry encode_budget_entry_def [of "(k, v)"] Cons)
  qed
qed (simp add: fun_eq_iff)

lemma btree_insert_last:
  "strictly_increasing_by fst (entries @ [(k, v)]) \<Longrightarrow> btree_insert k v entries = entries @ [(k, v)]"
  by (induction entries) (auto simp: strictly_increasing_by_iff)

lemma decode_budgets_eq_Inr:
  assumes "strictly_increasing_by fst entries" "prior = (if entries = [] then None else Some (fst (last entries)))"
  shows "decode_budgets message n entries prior d = Inr (entries', d') \<longleftrightarrow>
    (\<exists>more. decode_each decode_budget_entry n d = Inr (more, d') \<and> entries' = entries @ more \<and>
      strictly_increasing_by fst (entries @ more))"
  using assms
proof (induction n arbitrary: entries prior d)
  case (Suc n)
  have order: "(\<not> is_some_and (\<lambda>p. p \<ge> k) prior \<and> map_of entries k = None) \<longleftrightarrow>
      strictly_increasing_by fst (entries @ [(k, v)])" for k v
    using Suc.prems
    by (cases entries rule: rev_cases)
      (auto simp: strictly_increasing_by_iff sorted_wrt_append map_of_eq_None_iff not_le)
  show ?case
  proof (cases "decode_budget_entry d")
    case (Inl e)
    then show ?thesis
      by (auto simp: decode_budget_entry_def and_then_eq_Inr and_then_eq_Inl)
  next
    case (Inr r)
    obtain k v d1 where r: "r = ((k, v), d1)" by (metis prod.exhaust)
    from Inr r obtain d2 where dec: "decode_typed_id d = Inr (k, d2)" "decode_BudgetUsage d2 = Inr (v, d1)"
      by (auto simp: decode_budget_entry_def and_then_eq_Inr)
    show ?thesis
    proof (cases "strictly_increasing_by fst (entries @ [(k, v)])")
      case True
      with order [of k v] have "decode_budgets message (Suc n) entries prior d =
          decode_budgets message n (entries @ [(k, v)]) (Some k) d1"
        by (simp add: dec btree_insert_last)
      then show ?thesis
        using Suc.IH [OF True, of "Some k" d1] Inr r by (auto simp: and_then_eq_Inr)
    next
      case False
      with order [of k v] have "\<exists>e. decode_budgets message (Suc n) entries prior d = Inl e"
        by (auto simp: dec)
      moreover have "\<not> strictly_increasing_by fst (entries @ (k, v) # more)" for more
        using False by (auto simp: strictly_increasing_by_iff sorted_wrt_append)
      ultimately show ?thesis using Inr r by (auto simp: and_then_eq_Inr)
    qed
  qed
qed auto

definition enc_AuthorizationLedger :: "AuthorizationLedger \<Rightarrow> u8 list" where
  "enc_AuthorizationLedger r = enc_Digest384 (set_root (invocation_set r)) @
    enc_u64 (set_count (invocation_set r)) @ enc_length (length (budgets r)) @
    enc_each enc_budget_entry (budgets r)"

definition valid_AuthorizationLedger :: "AuthorizationLedger \<Rightarrow> bool" where
  "valid_AuthorizationLedger r \<longleftrightarrow> set_domain (invocation_set r) = AuthorizationInvocation
    \<and> set_root (invocation_set r) \<noteq> 0 \<and> length (budgets r) \<le> MAX_AUTHORIZATION_INVOCATIONS
    \<and> strictly_increasing_by fst (budgets r)"

lemma encode_AuthorizationLedger_eq: "encode_AuthorizationLedger r e =
  and_then (encode_Digest384 (set_root (invocation_set r)) e) (\<lambda>e.
  and_then (write_u64 (set_count (invocation_set r)) e) (\<lambda>e.
  encode_vec encode_budget_entry MAX_AUTHORIZATION_INVOCATIONS (budgets r) e))"
  by (simp add: encode_AuthorizationLedger_def encode_vec_def encode_budgets_eq)

lemma decode_AuthorizationLedger_eq_Inr: "decode_AuthorizationLedger d = Inr (r, d') \<longleftrightarrow>
  (\<exists>d1 d2 root count entries. decode_Digest384 d = Inr (root, d1) \<and> read_u64 d1 = Inr (count, d2) \<and> root \<noteq> 0 \<and>
    decode_vec decode_budget_entry MAX_AUTHORIZATION_INVOCATIONS d2 = Inr (entries, d') \<and>
    strictly_increasing_by fst entries \<and>
    r = \<lparr>invocation_set = \<lparr>set_domain = AuthorizationInvocation, set_root = root, set_count = count\<rparr>,
      budgets = entries\<rparr>)"
proof -
  have loop: "decode_budgets m n [] None d = Inr (entries, d') \<longleftrightarrow>
      decode_each decode_budget_entry n d = Inr (entries, d') \<and> strictly_increasing_by fst entries"
    for m n d entries d'
    by (subst decode_budgets_eq_Inr) (auto simp: strictly_increasing_by_iff)
  show ?thesis
    by (cases r) (auto simp: decode_AuthorizationLedger_def decode_vec_def and_then_eq_Inr loop)
qed

interpretation authorization_ledger: canonical_codec enc_AuthorizationLedger encode_AuthorizationLedger
    decode_AuthorizationLedger valid_AuthorizationLedger
proof
  fix v pre rest
  assume "valid_AuthorizationLedger v" "slice (pre @ enc_AuthorizationLedger v @ rest)"
  then show "decode_AuthorizationLedger (dec_at pre (enc_AuthorizationLedger v @ rest)) =
      Inr (v, dec_at (pre @ enc_AuthorizationLedger v) rest)"
    by (cases v) (auto simp: decode_AuthorizationLedger_eq_Inr enc_AuthorizationLedger_def valid_AuthorizationLedger_def
        authorization_bounds MAX_BODY_LENGTH_def codec_simps)
qed (auto simp: encode_AuthorizationLedger_eq decode_AuthorizationLedger_eq_Inr enc_AuthorizationLedger_def
    valid_AuthorizationLedger_def authorization_bounds MAX_BODY_LENGTH_def codec_simps dest!: codec_dests)

lemmas [codec_simps] = authorization_ledger.laws
lemmas [codec_dests] = authorization_ledger.inversions

lemma length_enc_AuthorizationLedger:
  assumes "valid_AuthorizationLedger r"
  shows "length (enc_AuthorizationLedger r) \<le> 426042"
proof -
  have n: "length (budgets r) \<le> 4096" using assms by (simp add: valid_AuthorizationLedger_def authorization_bounds)
  then show ?thesis
    using enc_length_two [of "length (budgets r)"] length_enc_each_bounded [OF n, of enc_budget_entry 104]
    by (simp add: enc_AuthorizationLedger_def)
qed

section \<open>Snapshots\<close>

lemma snapshot_part_codecs [simp]:
  "ct_encode ObjectState_type = encode_ObjectState" "ct_decode ObjectState_type = decode_ObjectState"
  "ct_encode TransitionReceipt_type = encode_TransitionReceipt" "ct_decode TransitionReceipt_type = decode_TransitionReceipt"
  by (simp_all add: ObjectState_type_def TransitionReceipt_type_def)

lemmas [codec_simps] = object_state.laws [simplified] transition_receipt.laws [simplified]
lemmas [codec_dests] = object_state.inversions [simplified] transition_receipt.inversions [simplified]

definition enc_AuthorizationReplaySnapshot :: "AuthorizationReplaySnapshot \<Rightarrow> u8 list" where
  "enc_AuthorizationReplaySnapshot r = enc_Digest384 (rsnap_genesis r) @ enc_u64 (rsnap_epoch r) @
    enc_AuthorizationLedger (rsnap_ledger r)"

definition valid_AuthorizationReplaySnapshot :: "AuthorizationReplaySnapshot \<Rightarrow> bool" where
  "valid_AuthorizationReplaySnapshot r \<longleftrightarrow> valid_AuthorizationLedger (rsnap_ledger r)"

interpretation replay_snapshot: bounded_envelope enc_AuthorizationReplaySnapshot
    AuthorizationReplaySnapshot_type valid_AuthorizationReplaySnapshot
proof
  fix v
  assume "valid_AuthorizationReplaySnapshot v"
  then show "length (enc_AuthorizationReplaySnapshot v) \<le> ct_max_encoded_len AuthorizationReplaySnapshot_type"
    using length_enc_AuthorizationLedger [of "rsnap_ledger v"]
    by (simp add: valid_AuthorizationReplaySnapshot_def enc_AuthorizationReplaySnapshot_def
        AuthorizationReplaySnapshot_type_def authorization_bounds)
qed (auto simp: AuthorizationReplaySnapshot_type_def enc_AuthorizationReplaySnapshot_def
    encode_AuthorizationReplaySnapshot_def decode_AuthorizationReplaySnapshot_def
    valid_AuthorizationReplaySnapshot_def authorization_bounds MAX_BODY_LENGTH_def codec_simps dest!: codec_dests)

definition enc_AuthorizedSnapshot :: "AuthorizedSnapshot \<Rightarrow> u8 list" where
  "enc_AuthorizedSnapshot r = enc_Digest384 (snap_genesis r) @ enc_u64 (snap_epoch r) @
    enc_ObjectState (snap_state r) @ enc_AuthorizationLedger (snap_ledger r) @
    enc_TransitionReceipt (last_receipt r) @ enc_Digest384 (last_envelope r)"

definition valid_AuthorizedSnapshot :: "AuthorizedSnapshot \<Rightarrow> bool" where
  "valid_AuthorizedSnapshot r \<longleftrightarrow> valid_ObjectState (snap_state r)
    \<and> valid_AuthorizationLedger (snap_ledger r) \<and> valid_TransitionReceipt (last_receipt r)"

interpretation authorized_snapshot: bounded_envelope enc_AuthorizedSnapshot
    AuthorizedSnapshot_type valid_AuthorizedSnapshot
proof
  fix v
  assume v: "valid_AuthorizedSnapshot v"
  then show "length (enc_AuthorizedSnapshot v) \<le> ct_max_encoded_len AuthorizedSnapshot_type"
    using length_enc_AuthorizationLedger [of "snap_ledger v"] object_state.encoded_len_bound [of "snap_state v"]
      transition_receipt.encoded_len_bound [of "last_receipt v"]
    by (simp add: valid_AuthorizedSnapshot_def enc_AuthorizedSnapshot_def AuthorizedSnapshot_type_def authorization_bounds)
qed (auto simp: AuthorizedSnapshot_type_def enc_AuthorizedSnapshot_def encode_AuthorizedSnapshot_def
    decode_AuthorizedSnapshot_def valid_AuthorizedSnapshot_def ObjectState_type_def TransitionReceipt_type_def
    authorization_bounds MAX_BODY_LENGTH_def codec_simps dest!: codec_dests)

end
