(* ===== verification/Authorization_Ledger.thy ===== *)
theory Authorization_Ledger
  imports Authorization_Codec Accumulator_Reference
begin

text \<open>
  What a replay and budget ledger means.  Every ledger comes from the empty one by a sequence of
  consumed authorizations.  Along such a history each capability's entry holds the exact number of
  its uses and the exact sums of its spending, each consumption was within the limits of the grant
  it presented, and no invocation occurs twice unless the hash collides.
\<close>

section \<open>Ordered maps\<close>

lemma btree_insert_keys: "set (map fst (btree_insert k v entries)) = insert k (set (map fst entries))"
  by (induction k v entries rule: btree_insert.induct) auto

lemma btree_insert_ordered:
  "strictly_increasing_by fst entries \<Longrightarrow> strictly_increasing_by fst (btree_insert k v entries)"
proof (induction k v entries rule: btree_insert.induct)
  case (2 k v k' v' entries)
  then show ?case
    using btree_insert_keys [of k v entries]
    by (auto simp: strictly_increasing_by_iff not_less_iff_gr_or_eq image_iff)
      (force simp: image_iff)+
qed (simp add: strictly_increasing_by_iff)

lemma btree_insert_lookup:
  "strictly_increasing_by fst entries \<Longrightarrow> map_of (btree_insert k v entries) = (map_of entries)(k \<mapsto> v)"
proof (induction k v entries rule: btree_insert.induct)
  case (2 k v k' v' entries)
  then show ?case by (auto simp: strictly_increasing_by_iff fun_eq_iff)
qed (simp add: fun_eq_iff)

section \<open>One consumption\<close>

abbreviation leaf_fields :: "VerifiedAuthorization \<Rightarrow> CapabilityGrantFields" where
  "leaf_fields a \<equiv> grant_fields (leaf_capability a)"

abbreviation leaf_id :: "VerifiedAuthorization \<Rightarrow> CapabilityId" where
  "leaf_id a \<equiv> capability_id (leaf_fields a)"

abbreviation invocation_of :: "VerifiedAuthorization \<Rightarrow> Digest384" where
  "invocation_of a \<equiv> auth_invocation_id (va_envelope a)"

lemma budget_usage_insert:
  assumes "strictly_increasing_by fst (budgets l)"
  shows "budget_usage \<lparr>invocation_set = s, budgets = btree_insert k v (budgets l)\<rparr> k' =
    (if k' = k then v else budget_usage l k')"
  using assms by (simp add: budget_usage_def btree_insert_lookup)

lemma consume_effect:
  assumes "consume h l a = Inr l'" "strictly_increasing_by fst (budgets l)"
  obtains u where
    "SetCommitment_insert h (invocation_set l) (invocation_of a) (va_non_membership a) = Inr (invocation_set l')"
    "strictly_increasing_by fst (budgets l')"
    "\<And>k. budget_usage l' k = (if k = leaf_id a then u else budget_usage l k)"
    "unat (bu_uses u) = Suc (unat (bu_uses (budget_usage l (leaf_id a))))"
    "unat (bu_money u) = unat (bu_money (budget_usage l (leaf_id a))) + unat (auth_value (va_envelope a))"
    "unat (bu_compute u) = unat (bu_compute (budget_usage l (leaf_id a))) + unat (auth_compute (va_envelope a))"
    "is_none_or (\<lambda>v. bu_uses u \<le> v) (use_limit (leaf_fields a))"
    "is_none_or (\<lambda>v. bu_money u \<le> v) (monetary_limit (leaf_fields a))"
    "is_none_or (\<lambda>v. bu_compute u \<le> v) (compute_limit (leaf_fields a))"
    "rate_usage (rate_limit (leaf_fields a)) (auth_height (va_envelope a)) (budget_usage l (leaf_id a))
      = Inr (bu_window_start u, bu_window_uses u)"
proof -
  let ?old = "budget_usage l (leaf_id a)" and ?e = "va_envelope a" and ?f = "leaf_fields a"
  obtain s uses money compute start used where c:
    "SetCommitment_insert h (invocation_set l) (invocation_of a) (va_non_membership a) = Inr s"
    "checked_add (bu_uses ?old) 1 = Some uses" "checked_add (bu_money ?old) (auth_value ?e) = Some money"
    "checked_add (bu_compute ?old) (auth_compute ?e) = Some compute"
    "\<not> is_some_and (\<lambda>v. uses > v) (use_limit ?f)" "\<not> is_some_and (\<lambda>v. money > v) (monetary_limit ?f)"
    "\<not> is_some_and (\<lambda>v. compute > v) (compute_limit ?f)"
    "rate_usage (rate_limit ?f) (auth_height ?e) ?old = Inr (start, used)"
    "l' = \<lparr>invocation_set = s, budgets = btree_insert (leaf_id a) \<lparr>bu_uses = uses, bu_money = money,
        bu_compute = compute, bu_window_start = start, bu_window_uses = used\<rparr> (budgets l)\<rparr>"
    using assms(1) by (auto simp: consume_def Let_def split: if_splits)
  have le: "is_none_or (\<lambda>v. x \<le> v) limit" if "\<not> is_some_and (\<lambda>v. x > v) limit" for limit :: "'a::linorder option" and x
    using that by (cases limit) (simp_all add: not_less)
  show thesis
    by (rule that [of "\<lparr>bu_uses = uses, bu_money = money, bu_compute = compute,
          bu_window_start = start, bu_window_uses = used\<rparr>"])
      (use c assms(2) in \<open>simp_all add: btree_insert_ordered budget_usage_insert checked_add_eq_Some_unat le\<close>)
qed

lemma consume_inserts:
  "consume h l a = Inr l' \<Longrightarrow>
   SetCommitment_insert h (invocation_set l) (invocation_of a) (va_non_membership a) = Inr (invocation_set l')"
  by (auto simp: consume_def Let_def split: if_splits)

section \<open>Histories\<close>

inductive ledger_history :: "hash \<Rightarrow> VerifiedAuthorization list \<Rightarrow> AuthorizationLedger \<Rightarrow> bool" for h where
  history_fresh: "ledger_history h [] (AuthorizationLedger_default h)"
| history_step: "ledger_history h log l \<Longrightarrow> consume h l a = Inr l' \<Longrightarrow> ledger_history h (log @ [a]) l'"

text \<open>The uses and the spending of one capability in a history.\<close>

definition uses_of :: "CapabilityId \<Rightarrow> VerifiedAuthorization list \<Rightarrow> nat" where
  "uses_of k log = length (filter (\<lambda>a. leaf_id a = k) log)"

definition spent_by :: "(AuthorizationEnvelope \<Rightarrow> u128) \<Rightarrow> CapabilityId \<Rightarrow> VerifiedAuthorization list \<Rightarrow> nat" where
  "spent_by f k log = sum_list (map (\<lambda>a. unat (f (va_envelope a))) (filter (\<lambda>a. leaf_id a = k) log))"

lemma spending_snoc [simp]:
  "uses_of k [] = 0" "spent_by f k [] = 0"
  "uses_of k (log @ [a]) = uses_of k log + (if leaf_id a = k then 1 else 0)"
  "spent_by f k (log @ [a]) = spent_by f k log + (if leaf_id a = k then unat (f (va_envelope a)) else 0)"
  by (simp_all add: uses_of_def spent_by_def)

lemma history_ordered: "ledger_history h log l \<Longrightarrow> strictly_increasing_by fst (budgets l)"
proof (induction rule: ledger_history.induct)
  case (history_step log l a l')
  then show ?case by (metis consume_effect)
qed (simp add: AuthorizationLedger_default_def strictly_increasing_by_iff)

lemma history_accounts:
  "ledger_history h log l \<Longrightarrow> unat (bu_uses (budget_usage l k)) = uses_of k log \<and>
   unat (bu_money (budget_usage l k)) = spent_by auth_value k log \<and>
   unat (bu_compute (budget_usage l k)) = spent_by auth_compute k log"
proof (induction rule: ledger_history.induct)
  case (history_step log l a l')
  then show ?case
    using history_ordered [OF history_step.hyps(1)] by (elim consume_effect) (simp_all split: if_splits)
qed (simp add: AuthorizationLedger_default_def budget_usage_def BudgetUsage_default_def)

lemma consume_within_limits:
  assumes "ledger_history h log l" "consume h l a = Inr l'"
  shows "is_none_or (\<lambda>v. uses_of (leaf_id a) (log @ [a]) \<le> unat v) (use_limit (leaf_fields a))"
    "is_none_or (\<lambda>v. spent_by auth_value (leaf_id a) (log @ [a]) \<le> unat v) (monetary_limit (leaf_fields a))"
    "is_none_or (\<lambda>v. spent_by auth_compute (leaf_id a) (log @ [a]) \<le> unat v) (compute_limit (leaf_fields a))"
proof -
  obtain u where u: "is_none_or (\<lambda>v. bu_uses u \<le> v) (use_limit (leaf_fields a))"
    "is_none_or (\<lambda>v. bu_money u \<le> v) (monetary_limit (leaf_fields a))"
    "is_none_or (\<lambda>v. bu_compute u \<le> v) (compute_limit (leaf_fields a))" "budget_usage l' (leaf_id a) = u"
    using consume_effect [OF assms(2) history_ordered [OF assms(1)]] by metis
  have "unat (bu_uses u) = uses_of (leaf_id a) (log @ [a])"
    "unat (bu_money u) = spent_by auth_value (leaf_id a) (log @ [a])"
    "unat (bu_compute u) = spent_by auth_compute (leaf_id a) (log @ [a])"
    using history_accounts [OF ledger_history.history_step [OF assms], of "leaf_id a"] u(4) by simp_all
  then show "is_none_or (\<lambda>v. uses_of (leaf_id a) (log @ [a]) \<le> unat v) (use_limit (leaf_fields a))"
    "is_none_or (\<lambda>v. spent_by auth_value (leaf_id a) (log @ [a]) \<le> unat v) (monetary_limit (leaf_fields a))"
    "is_none_or (\<lambda>v. spent_by auth_compute (leaf_id a) (log @ [a]) \<le> unat v) (compute_limit (leaf_fields a))"
    using u(1-3) by (simp_all only: word_le_nat_alt)
qed

section \<open>Replay\<close>

text \<open>A collision between a commitment of the first invocations and the check of the next one.\<close>

definition replay_clash :: "hash \<Rightarrow> VerifiedAuthorization list \<Rightarrow> bool" where
  "replay_clash h log \<longleftrightarrow> (\<exists>i < length log.
     clash h (set_inputs h AuthorizationInvocation (invocation_of ` set (take i log)))
       (absence_inputs h AuthorizationInvocation (word_of_nat i) (va_non_membership (log ! i))))"

lemma replay_clash_append: "replay_clash h log \<Longrightarrow> replay_clash h (log @ later)"
  unfolding replay_clash_def by (force simp: nth_append)

lemma replay_clash_snoc:
  "clash h (set_inputs h AuthorizationInvocation (invocation_of ` set log))
     (absence_inputs h AuthorizationInvocation (word_of_nat (length log)) (va_non_membership a))
   \<Longrightarrow> replay_clash h (log @ [a])"
  unfolding replay_clash_def by (intro exI [of _ "length log"]) simp

lemma SetCommitment_insert_count:
  "SetCommitment_insert h c key w = Inr c' \<Longrightarrow>
   set_domain c' = set_domain c \<and> unat (set_count c') = Suc (unat (set_count c))"
  by (auto simp: SetCommitment_insert_def Let_def checked_add_eq_Some_unat split: if_splits)

lemma history_count:
  "ledger_history h log l \<Longrightarrow>
   set_domain (invocation_set l) = AuthorizationInvocation \<and> unat (set_count (invocation_set l)) = length log"
proof (induction rule: ledger_history.induct)
  case (history_step log l a l')
  then show ?case
    using SetCommitment_insert_count [OF consume_inserts [OF history_step.hyps(2)]] by simp
qed (simp add: AuthorizationLedger_default_def SetCommitment_empty_def)

lemma history_length: "ledger_history h log l \<Longrightarrow> length log < 2 ^ 64"
  using history_count [of h log l] unat_less_pow [of "set_count (invocation_set l)"] by simp

lemma history_unique:
  "ledger_history h log l \<Longrightarrow> replay_clash h log \<or> distinct (map invocation_of log) \<and>
   invocation_set l = committed_set h AuthorizationInvocation (invocation_of ` set log)"
proof (induction rule: ledger_history.induct)
  case history_fresh
  then show ?case by (simp add: AuthorizationLedger_default_def SetCommitment_empty_eq)
next
  case (history_step log l a l')
  let ?S = "invocation_of ` set log"
  from history_step.IH show ?case
  proof
    assume "distinct (map invocation_of log) \<and> invocation_set l = committed_set h AuthorizationInvocation ?S"
    then have d: "distinct (map invocation_of log)" and s: "invocation_set l = committed_set h AuthorizationInvocation ?S"
      by simp_all
    have card: "card ?S = length log" using d by (metis distinct_card length_map set_map)
    have i: "SetCommitment_insert h (committed_set h AuthorizationInvocation ?S) (invocation_of a)
        (va_non_membership a) = Inr (invocation_set l')"
      using consume_inserts [OF history_step.hyps(2)] s by simp
    show ?case
    proof (cases "clash h (set_inputs h AuthorizationInvocation ?S)
        (absence_inputs h AuthorizationInvocation (word_of_nat (length log)) (va_non_membership a))")
      case False
      then show ?thesis
        using SetCommitment_insert_sound [OF _ i] card history_length [OF history_step.hyps(1)] d by simp
    qed (simp add: replay_clash_snoc)
  qed (simp add: replay_clash_append)
qed

section \<open>Rate limits\<close>

text \<open>The block window a height falls into, and the uses of a capability in one window.\<close>

definition window_of :: "u64 \<Rightarrow> u64 \<Rightarrow> u64" where
  "window_of blocks height = height - height mod blocks"

definition window_count :: "u64 \<Rightarrow> u64 \<Rightarrow> VerifiedAuthorization list \<Rightarrow> nat" where
  "window_count blocks start as = length (filter (\<lambda>a. window_of blocks (auth_height (va_envelope a)) = start) as)"

lemma unat_window_of: "unat (window_of blocks height) = unat height div unat blocks * unat blocks"
proof -
  have "unat (height - height mod blocks) = unat height - unat (height mod blocks)"
    by (rule unat_sub) (simp add: word_le_nat_alt unat_mod)
  then show ?thesis by (simp add: window_of_def unat_mod minus_mod_eq_div_mult)
qed

lemma window_of_mono: "a \<le> b \<Longrightarrow> window_of blocks a \<le> window_of blocks b"
  by (simp add: word_le_nat_alt unat_window_of div_le_mono)

text \<open>
  With heights that never go back, the entry of a capability counts its uses in the current window
  and no window holds more uses than the limit.
\<close>

definition uses_by :: "CapabilityId \<Rightarrow> VerifiedAuthorization list \<Rightarrow> VerifiedAuthorization list" where
  "uses_by k log = filter (\<lambda>a. leaf_id a = k) log"

definition steady :: "RateLimit \<Rightarrow> VerifiedAuthorization list \<Rightarrow> bool" where
  "steady r as \<longleftrightarrow> sorted (map (\<lambda>a. auth_height (va_envelope a)) as)
    \<and> (\<forall>a \<in> set as. rate_limit (leaf_fields a) = Some r)"

lemma window_count_snoc [simp]:
  "window_count blocks start (as @ [a]) = window_count blocks start as
     + (if window_of blocks (auth_height (va_envelope a)) = start then 1 else 0)"
  "window_count blocks start [] = 0"
  by (simp_all add: window_count_def)

lemma steady_snoc: "steady r (as @ [a]) \<longleftrightarrow> steady r as \<and> rate_limit (leaf_fields a) = Some r
  \<and> (\<forall>b \<in> set as. auth_height (va_envelope b) \<le> auth_height (va_envelope a))"
  by (auto simp: steady_def sorted_append)

lemma later_window_empty:
  assumes "steady r as" "as \<noteq> []" "window_of blocks (auth_height (va_envelope (last as))) < start"
  shows "window_count blocks start as = 0"
proof -
  have "auth_height (va_envelope b) \<le> auth_height (va_envelope (last as))" if "b \<in> set as" for b
    using assms(1,2) that by (cases as rule: rev_cases) (auto simp: steady_snoc)
  then have "\<forall>b \<in> set as. window_of blocks (auth_height (va_envelope b)) < start"
    using window_of_mono assms(3) by (meson order_le_less_trans)
  then show ?thesis by (auto simp: window_count_def filter_empty_conv)
qed

definition window_ok :: "RateLimit \<Rightarrow> VerifiedAuthorization list \<Rightarrow> BudgetUsage \<Rightarrow> bool" where
  "window_ok r as u \<longleftrightarrow> (\<forall>start. window_count (window_blocks r) start as \<le> unat (maximum_uses r))
    \<and> unat (bu_window_uses u) = window_count (window_blocks r) (bu_window_start u) as
    \<and> (as \<noteq> [] \<longrightarrow> bu_window_start u = window_of (window_blocks r) (auth_height (va_envelope (last as))))"

lemma rate_usage_window:
  assumes "window_ok r as u" "steady r (as @ [a])"
    "rate_usage (Some r) (auth_height (va_envelope a)) u = Inr (bu_window_start u', bu_window_uses u')"
  shows "window_ok r (as @ [a]) u'"
proof -
  let ?w = "window_of (window_blocks r)" and ?h = "auth_height (va_envelope a)"
  have used: "bu_window_start u' = ?w ?h" "bu_window_uses u' \<le> maximum_uses r"
    "if bu_window_start u = ?w ?h then unat (bu_window_uses u') = Suc (unat (bu_window_uses u)) else bu_window_uses u' = 1"
    using assms(3)
    by (auto simp: rate_usage_def Let_def window_of_def checked_add_eq_Some_unat not_less split: if_splits)
  have "window_count (window_blocks r) (?w ?h) as = 0" if "bu_window_start u \<noteq> ?w ?h"
  proof (cases "as = []")
    case False
    have "?w (auth_height (va_envelope (last as))) \<le> ?w ?h"
      using assms(2) False by (intro window_of_mono) (simp add: steady_snoc)
    then have "?w (auth_height (va_envelope (last as))) < ?w ?h"
      using that assms(1) False by (simp add: window_ok_def)
    then show ?thesis using assms(2) False by (intro later_window_empty [of r]) (simp_all add: steady_snoc)
  qed simp
  then have count: "unat (bu_window_uses u') = window_count (window_blocks r) (?w ?h) (as @ [a])"
    using used(3) assms(1) by (auto simp: window_ok_def split: if_splits)
  have "window_count (window_blocks r) start (as @ [a]) \<le> unat (maximum_uses r)" for start
    using count used(2) assms(1) by (cases "start = ?w ?h") (simp_all add: window_ok_def word_le_nat_alt)
  then show ?thesis using count used(1) by (simp add: window_ok_def)
qed

lemma history_window_ok:
  "ledger_history h log l \<Longrightarrow> steady r (uses_by k log) \<Longrightarrow> window_ok r (uses_by k log) (budget_usage l k)"
proof (induction rule: ledger_history.induct)
  case history_fresh
  then show ?case
    by (simp add: window_ok_def uses_by_def AuthorizationLedger_default_def budget_usage_def BudgetUsage_default_def)
next
  case (history_step log l a l')
  obtain u where u: "\<And>k. budget_usage l' k = (if k = leaf_id a then u else budget_usage l k)"
    "rate_usage (rate_limit (leaf_fields a)) (auth_height (va_envelope a)) (budget_usage l (leaf_id a))
      = Inr (bu_window_start u, bu_window_uses u)"
    by (rule consume_effect [OF history_step.hyps(2) history_ordered [OF history_step.hyps(1)]]) blast
  show ?case
  proof (cases "leaf_id a = k")
    case True
    then have split: "uses_by k (log @ [a]) = uses_by k log @ [a]" by (simp add: uses_by_def)
    then have steady: "steady r (uses_by k log @ [a])" using history_step.prems by simp
    then have "window_ok r (uses_by k log) (budget_usage l k)" "rate_limit (leaf_fields a) = Some r"
      using history_step.IH by (simp_all add: steady_snoc)
    then show ?thesis
      using rate_usage_window [OF _ steady] u True by (simp add: split)
  next
    case False
    then show ?thesis using history_step u(1) by (simp add: uses_by_def)
  qed
qed

section \<open>Batches\<close>

lemma consume_batch_history:
  "ledger_history h log l \<Longrightarrow> consume_batch h genesis epoch as l = Inr l' \<Longrightarrow> ledger_history h (log @ as) l'"
proof (induction as arbitrary: log l)
  case (Cons a as)
  then obtain m where "consume h l a = Inr m" "consume_batch h genesis epoch as m = Inr l'"
    by (auto split: if_splits)
  then show ?case using Cons.IH [of "log @ [a]" m] Cons.prems(1) history_step by fastforce
qed simp

end
