(* ===== verification/Authorization_Snapshots.thy ===== *)
theory Authorization_Snapshots
  imports Authorization_Ledger Transition_Correct
begin

text \<open>
  Crash atomicity of the snapshot files.  The contract of a snapshot format is that a saved value
  loads again, unless the format refuses to read it; from it follow, once for both formats, that a
  save leaves the old or the new snapshot on disk wherever it fails, and that what holds of every
  snapshot written so far holds of the one that loads.
\<close>

section \<open>Tagged files\<close>

lemma length_snapshot_tag [simp]: "length (snapshot_tag h bytes) = 32"
  by (simp add: snapshot_tag_def)

lemma load_verified_tagged [simp]:
  "load_verified_snapshot_bytes h (Some (bytes @ snapshot_tag h bytes)) = Inr bytes"
  by (simp add: load_verified_snapshot_bytes_def Let_def)

text \<open>A file whose last 32 bytes are not the tag of the others is refused.\<close>

lemma load_verified_iff: "load_verified_snapshot_bytes h disk = Inr bytes \<longleftrightarrow>
  disk = Some (bytes @ snapshot_tag h bytes)"
proof
  assume "load_verified_snapshot_bytes h disk = Inr bytes"
  then obtain content where f: "disk = Some content" "bytes = take (length content - 32) content"
    "snapshot_tag h bytes = drop (length content - 32) content"
    by (auto simp: load_verified_snapshot_bytes_def Let_def split: if_splits)
  then show "disk = Some (bytes @ snapshot_tag h bytes)" by simp
qed simp

section \<open>The contract of a snapshot format\<close>

locale snapshot_format =
  fixes T :: "'s canonical_type"
    and load :: "hash \<Rightarrow> snapshot_file \<Rightarrow> io_error + 's"
    and storable :: "'s \<Rightarrow> bool"
    and readable :: "'s \<Rightarrow> bool"
  assumes load_saved: "storable v \<Longrightarrow> encode_envelope T v = Inr bytes \<Longrightarrow>
    load h (Some (bytes @ snapshot_tag h bytes)) =
      (if readable v then Inr v else Inl (InvalidData ''authorization snapshot invalid''))"
begin

lemma save_outcome:
  assumes "save_typed_snapshot h T v fault disk = (disk', r)"
  obtains "disk' = disk" "r \<noteq> Inr ()"
  | bytes where "encode_envelope T v = Inr bytes" "disk' = Some (bytes @ snapshot_tag h bytes)"
      "r = Inr () \<longleftrightarrow> fault = NoFault"
  using assms
  by (auto simp: save_typed_snapshot_def Let_def split: sum.splits io_fault.splits)

lemma save_atomic:
  assumes "storable v" "save_typed_snapshot h T v fault disk = (disk', r)"
  shows "disk' = disk \<and> r \<noteq> Inr () \<or>
    load h disk' = (if readable v then Inr v else Inl (InvalidData ''authorization snapshot invalid''))"
  using assms(2) by (rule save_outcome) (simp_all add: load_saved [OF assms(1)])

lemma save_success:
  assumes "storable v" "save_typed_snapshot h T v fault disk = (disk', Inr ())"
  shows "load h disk' = (if readable v then Inr v else Inl (InvalidData ''authorization snapshot invalid''))"
  using save_atomic [OF assms] by simp

lemma save_keeps:
  assumes "storable v" "P v" "\<forall>w. load h disk = Inr w \<longrightarrow> P w" "save_typed_snapshot h T v fault disk = (disk', r)"
  shows "\<forall>w. load h disk' = Inr w \<longrightarrow> P w"
  using save_atomic [OF assms(1,4)] assms(2,3) by (auto split: if_splits)

end

section \<open>The two formats\<close>

definition storable_ledger :: "AuthorizationLedger \<Rightarrow> bool" where
  "storable_ledger l \<longleftrightarrow> set_domain (invocation_set l) = AuthorizationInvocation \<and> strictly_increasing_by fst (budgets l)"

definition readable_ledger :: "AuthorizationLedger \<Rightarrow> bool" where
  "readable_ledger l \<longleftrightarrow> set_root (invocation_set l) \<noteq> 0"

definition storable_gateway_snapshot :: "AuthorizedSnapshot \<Rightarrow> bool" where
  "storable_gateway_snapshot s \<longleftrightarrow> valid_ObjectState (snap_state s) \<and> storable_ledger (snap_ledger s)
    \<and> valid_TransitionReceipt (last_receipt s)"

lemma history_storable: "ledger_history h log l \<Longrightarrow> storable_ledger l"
  using history_count history_ordered by (simp add: storable_ledger_def)

text \<open>A full budget table is the only reason a ledger cannot be written.\<close>

lemma encode_ledger_full:
  assumes "encode_AuthorizationLedger l (enc_at m xs) = Inr e"
  shows "length (budgets l) \<le> 4096"
  using assms
  by (auto simp: encode_AuthorizationLedger_def authorization_bounds dest!: codec_dests)

lemma decode_zero_ledger:
  assumes "set_root (invocation_set l) = 0" "slice (pre @ enc_AuthorizationLedger l @ rest)"
  shows "decode_AuthorizationLedger (dec_at pre (enc_AuthorizationLedger l @ rest)) =
    Inl (InvalidValue ''zero invocation accumulator root'')"
  using assms by (simp add: decode_AuthorizationLedger_def enc_AuthorizationLedger_def codec_simps)

lemma encode_gateway_snapshot_fits:
  assumes "encode_envelope AuthorizedSnapshot_type v = Inr bytes"
  shows "length (budgets (snap_ledger v)) \<le> 4096"
proof -
  obtain m e where "encode_AuthorizedSnapshot v (enc_at m []) = Inr e"
    using assms by (auto simp: encode_envelope_def encode_body_def AuthorizedSnapshot_type_def encoder_new_at split: if_splits)
  then show ?thesis
    by (auto simp: encode_AuthorizedSnapshot_def dest!: digest.encode_atD u64.encode_atD
        object_state.encode_atD [simplified] dest: encode_ledger_full)
qed

lemma encode_replay_snapshot_fits:
  assumes "encode_envelope AuthorizationReplaySnapshot_type v = Inr bytes"
  shows "length (budgets (rsnap_ledger v)) \<le> 4096"
proof -
  obtain m e where "encode_AuthorizationReplaySnapshot v (enc_at m []) = Inr e"
    using assms
    by (auto simp: encode_envelope_def encode_body_def AuthorizationReplaySnapshot_type_def encoder_new_at split: if_splits)
  then show ?thesis
    by (auto simp: encode_AuthorizationReplaySnapshot_def dest!: digest.encode_atD u64.encode_atD
        dest: encode_ledger_full)
qed

lemma other_version_refused:
  assumes "version \<noteq> version'"
  shows "is_err (inspect_canonical_envelope (enc_envelope tag version body) tag version' maximum)"
proof (cases "inspect_canonical_envelope (enc_envelope tag version body) tag version' maximum")
  case (Inr env)
  from inspect_envelope_atD [OF this] have "enc_u16 version = enc_u16 version'"
    by (auto simp: enc_envelope_def)
  then show ?thesis
    using assms to_be_bytes_eq_iff [of "unat version" 2 "unat version'"] unat_less_pow [of version] unat_less_pow [of version']
    by (simp add: enc_u16_def word_unat_eq_iff)
qed simp

lemma is_err_and_then [simp]: "is_err r \<Longrightarrow> is_err (and_then r f)"
  by (cases r) simp_all

lemma legacy_refused:
  "is_err r \<Longrightarrow> is_err i \<Longrightarrow> map_err (\<lambda>_. e) (or_else r (\<lambda>_. and_then i f)) = Inl e"
  by (cases r; cases i) (simp_all add: or_else_def)

lemma load_gateway_saved:
  assumes v: "storable_gateway_snapshot v" and enc: "encode_envelope AuthorizedSnapshot_type v = Inr bytes"
  shows "load_snapshot h (Some (bytes @ snapshot_tag h bytes)) =
    (if readable_ledger (snap_ledger v) then Inr v else Inl (InvalidData ''authorization snapshot invalid''))"
proof (cases "readable_ledger (snap_ledger v)")
  case True
  then have "valid_AuthorizedSnapshot v"
    using v encode_gateway_snapshot_fits [OF enc]
    by (simp add: valid_AuthorizedSnapshot_def storable_gateway_snapshot_def storable_ledger_def
        readable_ledger_def valid_AuthorizationLedger_def authorization_bounds)
  then have "decode_envelope AuthorizedSnapshot_type bytes = Inr v"
    using enc by (rule authorized_snapshot.envelope_roundtrip)
  then show ?thesis using True by (simp add: load_snapshot_def or_else_def)
next
  case False
  note b = authorized_snapshot.encode_envelopeD [OF enc]
  have fits: "slice (enc_AuthorizedSnapshot v)"
    using b authorized_snapshot.max_le_usize by (simp add: slice_def)
  have "is_err (decode_AuthorizedSnapshot (dec_at [] (enc_AuthorizedSnapshot v)))"
    using False v fits
    by (simp add: decode_AuthorizedSnapshot_def enc_AuthorizedSnapshot_def readable_ledger_def
        storable_gateway_snapshot_def decode_zero_ledger codec_simps
        digest.decode_at [where pre = "[]", simplified])
  then have "is_err (decode_envelope AuthorizedSnapshot_type bytes)"
    using b authorized_snapshot.max_encoded_len_le
    by (simp add: decode_envelope_def inspect_envelope_at decoder_new_at AuthorizedSnapshot_type_def)
  moreover have "is_err (inspect_canonical_envelope bytes (ct_type_tag AuthorizedSnapshot_type) 2 m)" for m
    using b by (simp add: AuthorizedSnapshot_type_def other_version_refused)
  ultimately show ?thesis
    using False by (simp add: load_snapshot_def legacy_refused)
qed

interpretation gateway_snapshots: snapshot_format AuthorizedSnapshot_type load_snapshot
    storable_gateway_snapshot "\<lambda>v. readable_ledger (snap_ledger v)"
  by unfold_locales (rule load_gateway_saved)

lemma load_replay_saved:
  assumes v: "storable_ledger (rsnap_ledger v)" and enc: "encode_envelope AuthorizationReplaySnapshot_type v = Inr bytes"
  shows "load_replay_snapshot h (Some (bytes @ snapshot_tag h bytes)) =
    (if readable_ledger (rsnap_ledger v) then Inr v else Inl (InvalidData ''authorization snapshot invalid''))"
proof (cases "readable_ledger (rsnap_ledger v)")
  case True
  then have "valid_AuthorizationReplaySnapshot v"
    using v encode_replay_snapshot_fits [OF enc]
    by (simp add: valid_AuthorizationReplaySnapshot_def storable_ledger_def
        readable_ledger_def valid_AuthorizationLedger_def authorization_bounds)
  then have "decode_envelope AuthorizationReplaySnapshot_type bytes = Inr v"
    using enc by (rule replay_snapshot.envelope_roundtrip)
  then show ?thesis using True by (simp add: load_replay_snapshot_def or_else_def)
next
  case False
  note b = replay_snapshot.encode_envelopeD [OF enc]
  have fits: "slice (enc_AuthorizationReplaySnapshot v)"
    using b replay_snapshot.max_le_usize by (simp add: slice_def)
  have "is_err (decode_AuthorizationReplaySnapshot (dec_at [] (enc_AuthorizationReplaySnapshot v)))"
    using False fits decode_zero_ledger [of "rsnap_ledger v" "enc_Digest384 (rsnap_genesis v) @ enc_u64 (rsnap_epoch v)" "[]"]
    by (simp add: decode_AuthorizationReplaySnapshot_def enc_AuthorizationReplaySnapshot_def readable_ledger_def
        codec_simps digest.decode_at [where pre = "[]", simplified])
  then have "is_err (decode_envelope AuthorizationReplaySnapshot_type bytes)"
    using b replay_snapshot.max_encoded_len_le
    by (simp add: decode_envelope_def inspect_envelope_at decoder_new_at AuthorizationReplaySnapshot_type_def)
  moreover have "is_err (inspect_canonical_envelope bytes (ct_type_tag AuthorizationReplaySnapshot_type) 1 m)" for m
    using b by (simp add: AuthorizationReplaySnapshot_type_def other_version_refused)
  ultimately show ?thesis
    using False by (simp add: load_replay_snapshot_def legacy_refused)
qed

interpretation replay_snapshots: snapshot_format AuthorizationReplaySnapshot_type load_replay_snapshot
    "\<lambda>v. storable_ledger (rsnap_ledger v)" "\<lambda>v. readable_ledger (rsnap_ledger v)"
  by unfold_locales (rule load_replay_saved)

end
