(* ===== verification/Authorization_Correct.thy ===== *)
theory Authorization_Correct
  imports Authorization_Snapshots Policy_Semantics
begin

text \<open>
  What the authorization gateway guarantees.  An admitted transfer was signed for the current
  chain, epoch and state, is permitted by the control policy the object itself commits to, and is
  covered by every grant of an unbroken delegation chain.  Along any run of admissions, epoch
  changes, failures and restarts, the reported admissions stay within the limits of the
  capabilities they present and repeat no invocation.
\<close>

section \<open>Delegation chains\<close>

text \<open>The action, the resource and the height a grant covers.\<close>

definition covers :: "CapabilityGrantFields \<Rightarrow> ActionId \<Rightarrow> ObjectId \<Rightarrow> Height \<Rightarrow> bool" where
  "covers f action oid height \<longleftrightarrow> action \<in> set (as_slice (permitted_actions f))
    \<and> into_digest oid \<in> scope_set (resource_as_scope (resource_scope f))
    \<and> valid_from f \<le> height \<and> is_none_or (\<lambda>v. height \<le> v) (valid_until f)"

definition attenuates :: "CapabilityGrant \<Rightarrow> CapabilityGrant \<Rightarrow> bool" where
  "attenuates parent child \<longleftrightarrow> verify_attenuation parent child = Inr ()"

lemma attenuates_covers:
  assumes "attenuates p c" "valid_CapabilityGrant p" "valid_CapabilityGrant c" "covers (grant_fields c) a oid height"
  shows "covers (grant_fields p) a oid height"
  using assms
  by (auto simp: attenuates_def verify_attenuation_iff Let_def covers_def valid_CapabilityGrant_def
      valid_CapabilityGrantFields_def actions_subset_iff resource_is_subset_of_def scope_subset_iff
      dest: limit_attenuated_le)

lemma chain_covers:
  "successively attenuates chain \<Longrightarrow> list_all valid_CapabilityGrant chain \<Longrightarrow> chain \<noteq> [] \<Longrightarrow>
   covers (grant_fields (last chain)) a oid height \<Longrightarrow> \<forall>g \<in> set chain. covers (grant_fields g) a oid height"
proof (induction chain rule: induct_list012)
  case (3 p c chain)
  have rest: "\<forall>g \<in> set (c # chain). covers (grant_fields g) a oid height"
    by (rule "3.IH"(2)) (use "3.prems" in simp_all)
  then have "covers (grant_fields p) a oid height"
    using "3.prems" by (intro attenuates_covers [of p c]) simp_all
  with rest show ?case by simp
qed simp_all

lemma verify_chain_sound:
  "verify_chain v e previous chain = Inr () \<Longrightarrow>
   (\<forall>g \<in> set chain. verify_capability_signature v g \<and>
      verify_capability_active v g (auth_height e) (auth_state_root e)) \<and>
   successively attenuates (case previous of None \<Rightarrow> chain | Some p \<Rightarrow> p # chain) \<and>
   (previous = None \<longrightarrow> chain \<noteq> [] \<longrightarrow> parent_capability (grant_fields (hd chain)) = None)"
proof (induction chain arbitrary: previous)
  case (Cons g chain)
  then show ?case
    using Cons.IH [of "Some g"] by (cases previous) (auto simp: attenuates_def split: if_splits)
qed (simp split: option.splits)

section \<open>Candidates\<close>

text \<open>What the constructors and decoders guarantee of the parts of a candidate.\<close>

definition well_formed_candidate :: "AuthorizationCandidate \<Rightarrow> bool" where
  "well_formed_candidate c \<longleftrightarrow> valid_AuthorizationEnvelope (cand_envelope c)
    \<and> list_all (\<lambda>m. valid_CredentialAcceptancePolicy (material_policy m)) (cand_credentials c)
    \<and> list_all valid_CapabilityGrant (capability_chain c) \<and> valid_TransferTransaction (cand_transaction c)"

abbreviation cand_leaf :: "AuthorizationCandidate \<Rightarrow> CapabilityGrantFields" where
  "cand_leaf c \<equiv> grant_fields (last (capability_chain c))"

text \<open>A credential presented by the actor, checked by the verifier and accepted for its schema.\<close>

definition credential_backs :: "AuthorizationVerifier \<Rightarrow> AuthorizationEnvelope \<Rightarrow> CredentialMaterial \<Rightarrow> Digest384 \<Rightarrow> bool" where
  "credential_backs v e m schema \<longleftrightarrow>
     (let statement = cred_statement (material_credential m) in
      verify_credential_signature v (material_credential m) \<and> verify_credential_status v m
      \<and> st_schema_id statement = schema \<and> st_subject_binding statement = into_digest (auth_actor e)
      \<and> statement_is_valid_at statement (auth_timestamp e) \<and> st_issuance_height statement \<le> auth_height e
      \<and> st_issuer statement \<in> set (accepted_issuers (material_policy m))
      \<and> schema \<in> set (accepted_schemas (material_policy m)))"

lemma verify_credentials_sound:
  "verify_credentials h v e ms = Inr facts \<Longrightarrow>
   list_all (\<lambda>m. valid_CredentialAcceptancePolicy (material_policy m)) ms \<Longrightarrow>
   length facts = length ms \<and> (\<forall>i < length ms. credential_backs v e (ms ! i) (fact_schema_id (facts ! i)))"
proof (induction ms arbitrary: facts)
  case (Cons m ms)
  from Cons.prems obtain verified rest where p: "facts = verified # rest" "verify_credentials h v e ms = Inr rest"
    "verify_credential_signature v (material_credential m)" "verify_credential_status v m"
    and pres: "verify_presentation h (material_credential m) (material_policy m) (material_issuer_evidence m)
      (material_registry m) (material_status_evidence m)
      \<lparr>expected_subject_binding = into_digest (auth_actor e), presentation_height = auth_height e,
       presentation_timestamp = auth_timestamp e\<rparr> = Inr verified"
    by (auto split: if_splits)
  have "credential_backs v e m (fact_schema_id verified)"
    using verify_presentation_sound [OF pres _ refl] Cons.prems(2) p by (simp add: credential_backs_def Let_def)
  moreover have "length rest = length ms \<and> (\<forall>i < length ms. credential_backs v e (ms ! i) (fact_schema_id (rest ! i)))"
    using Cons.IH [OF p(2)] Cons.prems(2) by simp
  ultimately show ?case by (auto simp: p(1) less_Suc_eq_0_disj)
qed simp

definition authorization_holds ::
    "hash \<Rightarrow> AuthorizationVerifier \<Rightarrow> AuthorizationCandidate \<Rightarrow> TransferCommand \<Rightarrow> bool" where
  "authorization_holds h v c command \<longleftrightarrow>
     (let e = cand_envelope c; request = cmd_request command; chain = capability_chain c in
      verify_actor_signature v e \<and> verify_finalized_context v e
      \<and> commit h CANONICAL_VALUE TransferTransaction_type (cand_transaction c) = Inr (auth_transition e)
      \<and> tx_commands (cand_transaction c) = [command]
      \<and> req_actor request = ActorPrincipal (auth_actor e)
      \<and> permits (cmd_control_policy command) request
      \<and> (\<forall>schema \<in> set (credential_schemas request). \<exists>m \<in> set (cand_credentials c). credential_backs v e m schema)
      \<and> chain \<noteq> [] \<and> parent_capability (grant_fields (hd chain)) = None \<and> successively attenuates chain
      \<and> holder_binding (cand_leaf c) = HolderPrincipal (auth_actor e)
      \<and> (\<forall>g \<in> set chain. verify_capability_signature v g
          \<and> verify_capability_active v g (auth_height e) (auth_state_root e)
          \<and> covers (grant_fields g) TRANSFER_OBJECT_ACTION_ID (ref_object_id (cmd_input command)) (auth_height e)))"

lemma check_context_sound:
  assumes "check_context h c genesis epoch root policy_hash v = Inr command"
  shows "auth_genesis (cand_envelope c) = genesis" "auth_epoch (cand_envelope c) = epoch"
    "auth_state_root (cand_envelope c) = root" "verify_actor_signature v (cand_envelope c)"
    "verify_finalized_context v (cand_envelope c)"
    "commit h CANONICAL_VALUE TransferTransaction_type (cand_transaction c) = Inr (auth_transition (cand_envelope c))"
    "tx_commands (cand_transaction c) = [command]"
    "commit h CANONICAL_VALUE PolicySet_type (cmd_control_policy command) = Inr policy_hash"
  using assms by (auto simp: check_context_def Let_def length_Suc_conv split: if_splits)

lemma check_credentials_sound:
  assumes "check_credentials h v e ms = Inr schemas"
    "list_all (\<lambda>m. valid_CredentialAcceptancePolicy (material_policy m)) ms" "schema \<in> set schemas"
  shows "\<exists>m \<in> set ms. credential_backs v e m schema"
proof -
  obtain facts where f: "verify_credentials h v e ms = Inr facts" "canonical_schema_facts facts = Inr schemas"
    using assms(1) by (auto simp: check_credentials_def split: if_splits)
  then obtain i where "i < length facts" "schema = fact_schema_id (facts ! i)"
    using assms(3) by (auto simp: canonical_schema_facts_sound(1) in_set_conv_nth)
  then show ?thesis using verify_credentials_sound [OF f(1) assms(2)] by auto
qed

lemma resource_exact_covers:
  assumes "valid_ScopeSelector (resource_as_scope scope)"
  shows "resource_is_subset_of (resource_exact oid) scope \<longleftrightarrow> into_digest oid \<in> scope_set (resource_as_scope scope)"
  using assms by (simp add: resource_is_subset_of_def resource_exact_def scope_subset_iff)

lemma check_capabilities_sound:
  assumes "check_capabilities v e command chain = Inr leaf" "list_all valid_CapabilityGrant chain"
  shows "chain \<noteq> []" "leaf = last chain" "holder_binding (grant_fields leaf) = HolderPrincipal (auth_actor e)"
    "parent_capability (grant_fields (hd chain)) = None" "successively attenuates chain"
    "g \<in> set chain \<Longrightarrow> verify_capability_signature v g \<and> verify_capability_active v g (auth_height e) (auth_state_root e)
      \<and> covers (grant_fields g) TRANSFER_OBJECT_ACTION_ID (ref_object_id (cmd_input command)) (auth_height e)"
proof -
  have c: "chain \<noteq> []" "leaf = last chain" "holder_binding (grant_fields leaf) = HolderPrincipal (auth_actor e)"
    "verify_chain v e None chain = Inr ()" "TRANSFER_OBJECT_ACTION_ID \<in> set (as_slice (permitted_actions (grant_fields leaf)))"
    "resource_is_subset_of (resource_exact (ref_object_id (cmd_input command))) (resource_scope (grant_fields leaf))"
    "valid_from (grant_fields leaf) \<le> auth_height e"
    "\<not> is_some_and (\<lambda>finish. auth_height e > finish) (valid_until (grant_fields leaf))"
    using assms(1) by (auto simp: check_capabilities_def Let_def not_less split: if_splits)
  then show "chain \<noteq> []" "leaf = last chain" "holder_binding (grant_fields leaf) = HolderPrincipal (auth_actor e)"
    by simp_all
  note chain = verify_chain_sound [OF c(4), simplified]
  show "parent_capability (grant_fields (hd chain)) = None" "successively attenuates chain"
    using chain c(1) by simp_all
  have "valid_ScopeSelector (resource_as_scope (resource_scope (grant_fields leaf)))"
    using assms(2) c(1,2) by (simp add: list_all_iff valid_CapabilityGrant_def valid_CapabilityGrantFields_def)
  then have scope: "into_digest (ref_object_id (cmd_input command)) \<in> scope_set (resource_as_scope (resource_scope (grant_fields leaf)))"
    using c(6) by (simp add: resource_exact_covers)
  have "is_none_or (\<lambda>finish. auth_height e \<le> finish) (valid_until (grant_fields leaf))"
    using c(8) by (cases "valid_until (grant_fields leaf)") simp_all
  then have "covers (grant_fields leaf) TRANSFER_OBJECT_ACTION_ID (ref_object_id (cmd_input command)) (auth_height e)"
    using c(5,7) scope by (simp add: covers_def)
  then have "\<forall>g \<in> set chain. covers (grant_fields g) TRANSFER_OBJECT_ACTION_ID (ref_object_id (cmd_input command)) (auth_height e)"
    using chain c(2) by (intro chain_covers [OF _ assms(2) c(1)]) simp_all
  then show "verify_capability_signature v g \<and> verify_capability_active v g (auth_height e) (auth_state_root e)
      \<and> covers (grant_fields g) TRANSFER_OBJECT_ACTION_ID (ref_object_id (cmd_input command)) (auth_height e)"
    if "g \<in> set chain"
    using chain that by simp
qed

lemma check_policy_sound:
  assumes "check_policy e command schemas = Inr ()" "valid_TransferCommand command"
  shows "cmd_request command = authorization_request e command schemas"
    "permits (cmd_control_policy command) (cmd_request command)"
proof -
  show r: "cmd_request command = authorization_request e command schemas"
    using assms(1) by (auto simp: check_policy_def Let_def PolicyRequest_new_eq_Inr split: if_splits)
  have "decision_result (evaluate (cmd_control_policy command) (cmd_request command)) = Permit"
    using assms(1) by (auto simp: check_policy_def Let_def split: if_splits)
  then show "permits (cmd_control_policy command) (cmd_request command)"
    using assms(2) by (simp add: valid_TransferCommand_def evaluate_eq decision_of_def split: if_splits)
qed

lemma verify_candidate_sound:
  assumes "verify_authorization_candidate h c genesis epoch root policy_hash v = Inr a" "well_formed_candidate c"
  obtains command d where "authorization_holds h v c command"
    "auth_genesis (cand_envelope c) = genesis" "auth_epoch (cand_envelope c) = epoch"
    "auth_state_root (cand_envelope c) = root"
    "commit h CANONICAL_VALUE PolicySet_type (cmd_control_policy command) = Inr policy_hash"
    "a = \<lparr>va_envelope = cand_envelope c, envelope_commitment = d, leaf_capability = last (capability_chain c),
       va_non_membership = invocation_non_membership c\<rparr>"
proof -
  let ?e = "cand_envelope c"
  obtain command schemas leaf d where p:
    "check_context h c genesis epoch root policy_hash v = Inr command"
    "check_credentials h v ?e (cand_credentials c) = Inr schemas"
    "check_capabilities v ?e command (capability_chain c) = Inr leaf"
    "check_policy ?e command schemas = Inr ()"
    "a = \<lparr>va_envelope = ?e, envelope_commitment = d, leaf_capability = leaf,
       va_non_membership = invocation_non_membership c\<rparr>"
    using assms(1) by (auto simp: verify_authorization_candidate_def Let_def)
  note ctx = check_context_sound [OF p(1)]
  have valid: "list_all valid_CapabilityGrant (capability_chain c)" "valid_TransferCommand command"
    "list_all (\<lambda>m. valid_CredentialAcceptancePolicy (material_policy m)) (cand_credentials c)"
    using assms(2) ctx(7) by (simp_all add: well_formed_candidate_def valid_TransferTransaction_def)
  note capabilities = check_capabilities_sound [OF p(3) valid(1)]
  note policy = check_policy_sound [OF p(4) valid(2)]
  have "authorization_holds h v c command"
    using ctx capabilities policy check_credentials_sound [OF p(2) valid(3)]
    by (simp add: authorization_holds_def Let_def authorization_request_def)
  then show thesis using that [of command d] ctx p(5) capabilities(2) by simp
qed

section \<open>Admission\<close>

lemma prepare_admission_sound:
  assumes "prepare_admission h v c g = Inr s" "well_formed_candidate c" "valid_ObjectState (gw_state g)"
  obtains command ob a sc where "authorization_holds h v c command"
    "find_object (gw_state g) (ref_object_id (cmd_input command)) = Some ob"
    "commit h CANONICAL_VALUE PolicySet_type (cmd_control_policy command) = Inr (control_policy_hash ob)"
    "auth_genesis (cand_envelope c) = gw_genesis g" "auth_epoch (cand_envelope c) = gw_epoch g"
    "commit_objects h (state_objects (gw_state g)) = Inr sc" "auth_state_root (cand_envelope c) = state_root sc"
    "consume h (gw_ledger g) a = Inr (snap_ledger s)"
    "va_envelope a = cand_envelope c" "leaf_capability a = last (capability_chain c)"
    "transfers h (cand_transaction c) [command] (state_objects (gw_state g)) (state_objects (snap_state s))"
    "valid_ObjectState (snap_state s)" "valid_TransitionReceipt (last_receipt s)"
    "receipt_result (last_receipt s) = ReceiptSuccess"
    "snap_genesis s = gw_genesis g" "snap_epoch s = gw_epoch g"
proof -
  obtain sc first ob a ledger out where p:
    "commit_objects h (state_objects (gw_state g)) = Inr sc"
    "hd (tx_commands (cand_transaction c)) = first"
    "find_object (gw_state g) (ref_object_id (cmd_input first)) = Some ob"
    "verify_authorization_candidate h c (gw_genesis g) (gw_epoch g) (state_root sc) (control_policy_hash ob) v = Inr a"
    "consume h (gw_ledger g) a = Inr ledger"
    "apply_transfer_transaction h (gw_state g) (cand_transaction c) = Inr out"
    "receipt_result (output_receipt out) = ReceiptSuccess"
    "s = \<lparr>snap_genesis = gw_genesis g, snap_epoch = gw_epoch g, snap_state = output_state out,
       snap_ledger = ledger, last_receipt = output_receipt out, last_envelope = envelope_commitment a\<rparr>"
    using assms(1) by (auto simp: prepare_admission_def split: if_splits list.splits)
  obtain command d where q: "authorization_holds h v c command"
    "auth_genesis (cand_envelope c) = gw_genesis g" "auth_epoch (cand_envelope c) = gw_epoch g"
    "auth_state_root (cand_envelope c) = state_root sc"
    "commit h CANONICAL_VALUE PolicySet_type (cmd_control_policy command) = Inr (control_policy_hash ob)"
    "a = \<lparr>va_envelope = cand_envelope c, envelope_commitment = d, leaf_capability = last (capability_chain c),
       va_non_membership = invocation_non_membership c\<rparr>"
    by (rule verify_candidate_sound [OF p(4) assms(2)])
  have commands: "tx_commands (cand_transaction c) = [command]"
    using q(1) by (simp add: authorization_holds_def Let_def)
  have tx: "valid_TransferTransaction (cand_transaction c)" using assms(2) by (simp add: well_formed_candidate_def)
  have post: "valid_ObjectState (output_state out)" "valid_TransitionReceipt (output_receipt out)"
    "transfers h (cand_transaction c) [command] (state_objects (gw_state g)) (state_objects (output_state out))"
    using apply_transfer_transaction_cases [OF assms(3) tx, of h] p(6,7) commands by auto
  have first: "first = command" using p(2) commands by simp
  show thesis
    by (rule that [of command ob sc a, OF q(1) p(3) [unfolded first] q(5) q(2,3) p(1) q(4)])
      (simp_all add: p(5,7,8) post, simp_all add: q(6))
qed

end
