(* ===== verification/Authorization_Runs.thy ===== *)
theory Authorization_Runs
  imports Authorization_Correct "HOL-Library.Sublist"
begin

text \<open>
  Runs of the authorization gateway: admissions, epoch changes, failures of the device at any point
  and restarts from the snapshot file, in any order.  The invariant relates the admissions reported
  to callers to the history of the ledger in memory and of the ledger on disk; the reported
  admissions are a subsequence of each, because an admission whose save fails after the rename is
  on disk but was reported as an error.
\<close>

section \<open>Outcomes of the operations\<close>

lemma admit_cases:
  assumes "admit h v c fault (g, disk) = ((g', disk'), r)"
  obtains (refused) "g' = g" "disk' = disk" "is_err r"
  | (admitted) s where "\<not> gw_poisoned g" "prepare_admission h v c g = Inr s"
      "save_typed_snapshot h AuthorizedSnapshot_type s fault disk = (disk', Inr ())"
      "g' = g\<lparr>gw_state := snap_state s, gw_ledger := snap_ledger s\<rparr>" "r = Inr (last_receipt s)"
  | (interrupted) s e where "\<not> gw_poisoned g" "prepare_admission h v c g = Inr s"
      "save_typed_snapshot h AuthorizedSnapshot_type s fault disk = (disk', Inl e)"
      "g' = g\<lparr>gw_poisoned := True\<rparr>" "r = Inl AuthPersistence"
  using assms
  by (auto simp: admit_def save_snapshot_def split: if_splits sum.splits prod.splits)

lemma advance_epoch_cases:
  assumes "advance_epoch h n fault (g, disk) = ((g', disk'), r)"
  obtains (refused) "g' = g" "disk' = disk" "is_err r"
  | (advanced) s where "\<not> gw_poisoned g" "load_snapshot h disk = Inr s" "gw_epoch g < n"
      "save_typed_snapshot h AuthorizedSnapshot_type \<lparr>snap_genesis = gw_genesis g, snap_epoch = n,
         snap_state = gw_state g, snap_ledger = gw_ledger g, last_receipt = last_receipt s,
         last_envelope = last_envelope s\<rparr> fault disk = (disk', Inr ())"
      "g' = g\<lparr>gw_epoch := n\<rparr>" "r = Inr ()"
  | (interrupted) s e where "\<not> gw_poisoned g" "load_snapshot h disk = Inr s" "gw_epoch g < n"
      "save_typed_snapshot h AuthorizedSnapshot_type \<lparr>snap_genesis = gw_genesis g, snap_epoch = n,
         snap_state = gw_state g, snap_ledger = gw_ledger g, last_receipt = last_receipt s,
         last_envelope = last_envelope s\<rparr> fault disk = (disk', Inl e)"
      "g' = g\<lparr>gw_poisoned := True\<rparr>" "r = Inl AuthPersistence"
  using assms
  by (auto simp: advance_epoch_def save_snapshot_def not_le split: if_splits sum.splits prod.splits)

text \<open>A poisoned gateway refuses everything and never writes again.\<close>

lemma poisoned_refuses:
  assumes "gw_poisoned g"
  shows "admit h v c fault (g, disk) = ((g, disk), Inl AuthPoisoned)"
    "gateway_state g = Inl AuthPoisoned" "gateway_invocation_commitment g = Inl AuthPoisoned"
    "fst (advance_epoch h n fault (g, disk)) = (g, disk)"
  using assms
  by (auto simp: admit_def gateway_state_def gateway_invocation_commitment_def advance_epoch_def)

text \<open>A save that fails writes nothing or exactly what the save without the failure writes.\<close>

lemma save_failure:
  assumes "save_typed_snapshot h T s fault disk = (disk', Inl e)"
  shows "disk' = disk \<or> save_typed_snapshot h T s NoFault disk = (disk', Inr ())"
  using assms by (auto simp: save_typed_snapshot_def Let_def split: sum.splits io_fault.splits)

lemma admit_failure:
  assumes "admit h v c fault (g, disk) = ((g', disk'), Inl e)"
  shows "gw_state g' = gw_state g \<and> gw_ledger g' = gw_ledger g \<and> gw_epoch g' = gw_epoch g
    \<and> gw_genesis g' = gw_genesis g \<and> (disk' = disk \<or>
      e = AuthPersistence \<and> gw_poisoned g' \<and> snd (fst (admit h v c NoFault (g, disk))) = disk')"
  using assms
proof (cases rule: admit_cases)
  case (interrupted s e')
  then show ?thesis
    using save_failure [OF interrupted(3)] by (auto simp: admit_def save_snapshot_def)
qed simp_all

section \<open>Runs\<close>

inductive gateway_run :: "hash \<Rightarrow> AuthorizationVerifier \<Rightarrow> AuthorizationCandidate list \<Rightarrow> gateway_service \<Rightarrow> bool"
  for h v where
  run_new: "Gateway_new h state genesis epoch = Inr g \<Longrightarrow> valid_ObjectState state \<Longrightarrow> gateway_run h v [] (g, None)"
| run_admitted: "gateway_run h v cs service \<Longrightarrow> well_formed_candidate c \<Longrightarrow>
    admit h v c fault service = (service', Inr receipt) \<Longrightarrow> gateway_run h v (cs @ [c]) service'"
| run_rejected: "gateway_run h v cs service \<Longrightarrow> well_formed_candidate c \<Longrightarrow>
    admit h v c fault service = (service', Inl e) \<Longrightarrow> gateway_run h v cs service'"
| run_advanced: "gateway_run h v cs service \<Longrightarrow> advance_epoch h n fault service = (service', r) \<Longrightarrow>
    gateway_run h v cs service'"
| run_restarted: "gateway_run h v cs (g, disk) \<Longrightarrow> Gateway_load h disk = Inr g' \<Longrightarrow>
    gateway_run h v cs (g', disk)"

text \<open>What an admission shows of a candidate and of a history entry.\<close>

abbreviation cand_view :: "AuthorizationCandidate \<Rightarrow> AuthorizationEnvelope \<times> CapabilityId" where
  "cand_view c \<equiv> (cand_envelope c, capability_id (cand_leaf c))"

abbreviation auth_view :: "VerifiedAuthorization \<Rightarrow> AuthorizationEnvelope \<times> CapabilityId" where
  "auth_view a \<equiv> (va_envelope a, leaf_id a)"

definition accounts_for :: "hash \<Rightarrow> AuthorizationCandidate list \<Rightarrow> AuthorizationLedger \<Rightarrow> bool" where
  "accounts_for h cs l \<longleftrightarrow> (\<exists>log. ledger_history h log l \<and> subseq (map cand_view cs) (map auth_view log))"

definition snapshot_ok :: "hash \<Rightarrow> AuthorizationCandidate list \<Rightarrow> AuthorizedSnapshot \<Rightarrow> bool" where
  "snapshot_ok h cs s \<longleftrightarrow> valid_ObjectState (snap_state s) \<and> valid_TransitionReceipt (last_receipt s)
    \<and> accounts_for h cs (snap_ledger s)"

definition gateway_ok :: "hash \<Rightarrow> AuthorizationCandidate list \<Rightarrow> gateway_service \<Rightarrow> bool" where
  "gateway_ok h cs service \<longleftrightarrow> (case service of (g, disk) \<Rightarrow>
     gw_genesis g \<noteq> 0 \<and> valid_ObjectState (gw_state g) \<and> accounts_for h cs (gw_ledger g)
     \<and> (\<forall>s. load_snapshot h disk = Inr s \<longrightarrow> snapshot_ok h cs s))"

lemma accounts_for_consume:
  assumes "accounts_for h cs l" "consume h l a = Inr l'"
  shows "accounts_for h cs l'" "auth_view a = cand_view c \<Longrightarrow> accounts_for h (cs @ [c]) l'"
proof -
  obtain log where log: "ledger_history h log l" "subseq (map cand_view cs) (map auth_view log)"
    using assms(1) by (auto simp: accounts_for_def)
  note step = history_step [OF log(1) assms(2)]
  show "accounts_for h cs l'"
    unfolding accounts_for_def by (rule exI [of _ "log @ [a]"]) (simp add: step log(2) subseq_rev_drop_many)
  show "accounts_for h (cs @ [c]) l'" if "auth_view a = cand_view c"
    unfolding accounts_for_def
    by (rule exI [of _ "log @ [a]"]) (use step log(2) that in \<open>simp add: list_emb_append_mono\<close>)
qed

lemma snapshot_ok_storable: "snapshot_ok h cs s \<Longrightarrow> storable_gateway_snapshot s"
  by (auto simp: snapshot_ok_def storable_gateway_snapshot_def accounts_for_def dest: history_storable)

lemma prepare_admission_ok:
  assumes "prepare_admission h v c g = Inr s" "well_formed_candidate c" "valid_ObjectState (gw_state g)"
    "accounts_for h cs (gw_ledger g)"
  shows "snapshot_ok h cs s" "snapshot_ok h (cs @ [c]) s" "snap_genesis s = gw_genesis g" "snap_epoch s = gw_epoch g"
proof -
  obtain a where a: "consume h (gw_ledger g) a = Inr (snap_ledger s)" "auth_view a = cand_view c"
    and s: "valid_ObjectState (snap_state s)" "valid_TransitionReceipt (last_receipt s)"
      "snap_genesis s = gw_genesis g" "snap_epoch s = gw_epoch g"
    by (rule prepare_admission_sound [OF assms(1-3)]) simp
  show "snapshot_ok h cs s" "snapshot_ok h (cs @ [c]) s" "snap_genesis s = gw_genesis g" "snap_epoch s = gw_epoch g"
    using accounts_for_consume [OF assms(4) a(1)] a(2) s by (simp_all add: snapshot_ok_def)
qed

lemma admit_keeps_ok:
  assumes "gateway_ok h cs (g, disk)" "well_formed_candidate c" "admit h v c fault (g, disk) = ((g', disk'), r)"
  shows "gateway_ok h (case r of Inl _ \<Rightarrow> cs | Inr _ \<Rightarrow> cs @ [c]) (g', disk')"
proof -
  have ok: "gw_genesis g \<noteq> 0" "valid_ObjectState (gw_state g)" "accounts_for h cs (gw_ledger g)"
    "\<forall>s. load_snapshot h disk = Inr s \<longrightarrow> snapshot_ok h cs s"
    using assms(1) by (simp_all add: gateway_ok_def)
  from assms(3) show ?thesis
  proof (cases rule: admit_cases)
    case refused
    then show ?thesis using assms(1) by (cases r) simp_all
  next
    case (admitted s)
    have s: "snapshot_ok h (cs @ [c]) s" by (rule prepare_admission_ok [OF admitted(2) assms(2) ok(2,3)])
    have "\<forall>w. load_snapshot h disk' = Inr w \<longrightarrow> snapshot_ok h (cs @ [c]) w"
      using gateway_snapshots.save_success [OF snapshot_ok_storable [OF s] admitted(3)] s by simp
    then show ?thesis
      using ok(1) s by (simp add: gateway_ok_def snapshot_ok_def admitted(4,5))
  next
    case (interrupted s e)
    have s: "snapshot_ok h cs s" by (rule prepare_admission_ok [OF interrupted(2) assms(2) ok(2,3)])
    have "\<forall>w. load_snapshot h disk' = Inr w \<longrightarrow> snapshot_ok h cs w"
      by (rule gateway_snapshots.save_keeps [OF snapshot_ok_storable [OF s] s ok(4) interrupted(3)])
    then show ?thesis using ok by (simp add: gateway_ok_def interrupted(4,5))
  qed
qed

lemma advance_epoch_keeps_ok:
  assumes "gateway_ok h cs (g, disk)" "advance_epoch h n fault (g, disk) = ((g', disk'), r)"
  shows "gateway_ok h cs (g', disk')"
proof -
  let ?new = "\<lambda>s. \<lparr>snap_genesis = gw_genesis g, snap_epoch = n, snap_state = gw_state g, snap_ledger = gw_ledger g,
    last_receipt = last_receipt s, last_envelope = last_envelope s\<rparr>"
  have new: "snapshot_ok h cs (?new s)" if "load_snapshot h disk = Inr s" for s
    using that assms(1) by (simp add: gateway_ok_def snapshot_ok_def)
  have keeps: "\<forall>w. load_snapshot h disk' = Inr w \<longrightarrow> snapshot_ok h cs w"
    if "load_snapshot h disk = Inr s" "save_typed_snapshot h AuthorizedSnapshot_type (?new s) fault disk = (disk', o')" for s o'
    using gateway_snapshots.save_keeps [where P = "snapshot_ok h cs", OF snapshot_ok_storable [OF new] new _ that(2)]
      that(1) assms(1) by (simp add: gateway_ok_def)
  show ?thesis
    using assms(2)
    by (cases rule: advance_epoch_cases) (use assms(1) keeps in \<open>simp_all add: gateway_ok_def\<close>)
qed

lemma run_ok: "gateway_run h v cs service \<Longrightarrow> gateway_ok h cs service"
proof (induction rule: gateway_run.induct)
  case (run_new state genesis epoch g)
  have "ledger_history h [] (AuthorizationLedger_default h)" by (rule history_fresh)
  then have "accounts_for h [] (AuthorizationLedger_default h)" by (auto simp: accounts_for_def)
  then show ?case
    using run_new by (auto simp: gateway_ok_def Gateway_new_def load_snapshot_def load_verified_snapshot_bytes_def split: if_splits)
next
  case (run_admitted cs service c fault service' receipt)
  then show ?case by (cases service; cases service') (auto dest: admit_keeps_ok)
next
  case (run_rejected cs service c fault service' e)
  then show ?case by (cases service; cases service') (auto dest: admit_keeps_ok)
next
  case (run_advanced cs service n fault service' r)
  then show ?case by (cases service; cases service') (auto dest: advance_epoch_keeps_ok)
next
  case (run_restarted cs g disk g')
  then show ?case by (auto simp: gateway_ok_def Gateway_load_def snapshot_ok_def split: if_splits)
qed

section \<open>What the reported admissions respect\<close>

definition reported_uses :: "CapabilityId \<Rightarrow> AuthorizationCandidate list \<Rightarrow> nat" where
  "reported_uses k cs = length (filter (\<lambda>c. capability_id (cand_leaf c) = k) cs)"

definition reported_spending :: "(AuthorizationEnvelope \<Rightarrow> u128) \<Rightarrow> CapabilityId \<Rightarrow> AuthorizationCandidate list \<Rightarrow> nat" where
  "reported_spending f k cs =
     sum_list (map (\<lambda>c. unat (f (cand_envelope c))) (filter (\<lambda>c. capability_id (cand_leaf c) = k) cs))"

lemma sum_list_subseq: "subseq xs ys \<Longrightarrow> sum_list (map f xs) \<le> sum_list (map (f :: 'a \<Rightarrow> nat) ys)"
  by (induction rule: list_emb.induct) auto

lemma distinct_subseq: "subseq xs ys \<Longrightarrow> distinct ys \<Longrightarrow> distinct xs"
  by (auto simp: subseq_conv_nths)

lemma reported_le:
  assumes "subseq (map cand_view cs) (map auth_view log)"
  shows "reported_uses k cs \<le> uses_of k log" "reported_spending f k cs \<le> spent_by f k log"
proof -
  have s: "subseq (filter (\<lambda>w. snd w = k) (map cand_view cs)) (filter (\<lambda>w. snd w = k) (map auth_view log))"
    using assms by (rule subseq_filter)
  show "reported_uses k cs \<le> uses_of k log"
    using list_emb_length [OF s] by (simp add: reported_uses_def uses_of_def filter_map o_def)
  show "reported_spending f k cs \<le> spent_by f k log"
    using sum_list_subseq [OF s, of "\<lambda>w. unat (f (fst w))"]
    by (simp add: reported_spending_def spent_by_def filter_map o_def)
qed

definition within_limits :: "AuthorizationCandidate list \<Rightarrow> AuthorizationCandidate \<Rightarrow> bool" where
  "within_limits cs c \<longleftrightarrow> (let f = cand_leaf c; k = capability_id f in
     is_none_or (\<lambda>l. reported_uses k cs \<le> unat l) (use_limit f)
     \<and> is_none_or (\<lambda>l. reported_spending auth_value k cs \<le> unat l) (monetary_limit f)
     \<and> is_none_or (\<lambda>l. reported_spending auth_compute k cs \<le> unat l) (compute_limit f))"

lemma is_none_or_mono: "is_none_or P x \<Longrightarrow> (\<And>l. P l \<Longrightarrow> Q l) \<Longrightarrow> is_none_or Q x"
  by (cases x) simp_all

lemma admitted_within_limits:
  assumes "gateway_ok h cs (g, disk)" "well_formed_candidate c" "admit h v c fault (g, disk) = (service', Inr receipt)"
  shows "within_limits (cs @ [c]) c"
proof -
  obtain s where s: "prepare_admission h v c g = Inr s"
    using assms(3) by (cases service') (auto elim!: admit_cases)
  have ok: "valid_ObjectState (gw_state g)" "accounts_for h cs (gw_ledger g)"
    using assms(1) by (simp_all add: gateway_ok_def)
  obtain a where a: "consume h (gw_ledger g) a = Inr (snap_ledger s)" "va_envelope a = cand_envelope c"
    "leaf_capability a = last (capability_chain c)"
    by (rule prepare_admission_sound [OF s assms(2) ok(1)]) simp
  obtain log where log: "ledger_history h log (gw_ledger g)" "subseq (map cand_view cs) (map auth_view log)"
    using ok(2) by (auto simp: accounts_for_def)
  have "subseq (map cand_view (cs @ [c])) (map auth_view (log @ [a]))"
    using log(2) a(2,3) by (simp add: list_emb_append_mono)
  note le = reported_le [OF this]
  show ?thesis
    using consume_within_limits [OF log(1) a(1)] le le_trans
    unfolding within_limits_def Let_def a(3) by (intro conjI; elim is_none_or_mono) blast+
qed

lemma run_within_limits:
  "gateway_run h v cs service \<Longrightarrow> i < length cs \<Longrightarrow> within_limits (take (Suc i) cs) (cs ! i)"
proof (induction rule: gateway_run.induct)
  case (run_admitted cs service c fault service' receipt)
  then show ?case
    using admitted_within_limits [of h cs "fst service" "snd service" c v fault service' receipt] run_ok [of h v cs service]
    by (cases "i = length cs") (auto simp: nth_append)
qed simp_all

lemma run_invocations_unique:
  assumes "gateway_run h v cs (g, disk)"
  shows "distinct (map (\<lambda>c. auth_invocation_id (cand_envelope c)) cs) \<or>
    (\<exists>log. ledger_history h log (gw_ledger g) \<and> replay_clash h log)"
proof -
  obtain log where log: "ledger_history h log (gw_ledger g)" "subseq (map cand_view cs) (map auth_view log)"
    using run_ok [OF assms] by (auto simp: gateway_ok_def accounts_for_def)
  have "subseq (map (\<lambda>w. auth_invocation_id (fst w)) (map cand_view cs))
      (map (\<lambda>w. auth_invocation_id (fst w)) (map auth_view log))"
    using log(2) by (rule subseq_map)
  then have "subseq (map (\<lambda>c. auth_invocation_id (cand_envelope c)) cs) (map invocation_of log)" by (simp add: o_def)
  then show ?thesis using history_unique [OF log(1)] log(1) distinct_subseq by blast
qed

text \<open>A restart after a reported admission resumes from exactly the state that was reported.\<close>

lemma admitted_survives_restart:
  assumes "gateway_run h v cs (g, disk)" "well_formed_candidate c"
    "admit h v c fault (g, disk) = ((g', disk'), Inr receipt)" "set_root (invocation_set (gw_ledger g')) \<noteq> 0"
  shows "Gateway_load h disk' = Inr g'"
proof -
  note ok = run_ok [OF assms(1), unfolded gateway_ok_def, simplified]
  from assms(3) show ?thesis
  proof (cases rule: admit_cases)
    case (admitted s)
    have s: "snapshot_ok h cs s" "snap_genesis s = gw_genesis g" "snap_epoch s = gw_epoch g"
      using prepare_admission_ok [where cs = cs, OF admitted(2) assms(2)] ok by simp_all
    show ?thesis
      using gateway_snapshots.save_success [OF snapshot_ok_storable [OF s(1)] admitted(3)] admitted(1,4) s ok assms(4)
      by (simp add: Gateway_load_def readable_ledger_def)
  qed simp_all
qed

section \<open>A full budget table\<close>

lemma length_btree_insert_new:
  "k \<notin> fst ` set entries \<Longrightarrow> length (btree_insert k v entries) = Suc (length entries)"
  by (induction k v entries rule: btree_insert.induct) auto

lemma consume_budgets:
  "consume h l a = Inr l' \<Longrightarrow> \<exists>u. budgets l' = btree_insert (leaf_id a) u (budgets l)"
  by (auto simp: consume_def Let_def split: if_splits)

text \<open>
  The ledger has no bound on its capabilities but its encoding has one, so at the bound the save of
  an admission under a new capability fails before anything is written.
\<close>

lemma poison_fixed: "g\<lparr>gw_poisoned := True\<rparr> = g \<Longrightarrow> gw_poisoned g"
  by (cases g) simp

lemma full_table_blocks:
  assumes "length (budgets (gw_ledger g)) = MAX_AUTHORIZATION_INVOCATIONS"
    "capability_id (cand_leaf c) \<notin> fst ` set (budgets (gw_ledger g))"
    "well_formed_candidate c" "valid_ObjectState (gw_state g)" "admit h v c fault (g, disk) = ((g', disk'), r)"
  shows "is_err r" "disk' = disk" "prepare_admission h v c g = Inr s \<Longrightarrow> gw_poisoned g'"
proof -
  have full: "is_err (encode_envelope AuthorizedSnapshot_type s)" if s: "prepare_admission h v c g = Inr s" for s
  proof -
    obtain a where a: "consume h (gw_ledger g) a = Inr (snap_ledger s)" "leaf_capability a = last (capability_chain c)"
      by (rule prepare_admission_sound [OF s assms(3,4)]) simp
    have "length (budgets (snap_ledger s)) = 4097"
      using consume_budgets [OF a(1)] assms(1,2) a(2) by (auto simp: length_btree_insert_new authorization_bounds)
    then show ?thesis
      using encode_gateway_snapshot_fits [of s] by (cases "encode_envelope AuthorizedSnapshot_type s") auto
  qed
  have saved: "disk' = disk \<and> e \<noteq> Inr ()"
    if "prepare_admission h v c g = Inr s" "save_typed_snapshot h AuthorizedSnapshot_type s fault disk = (disk', e)" for s e
    using full [OF that(1)] that(2) by (cases "encode_envelope AuthorizedSnapshot_type s") (auto simp: save_typed_snapshot_def)
  from assms(5) have "is_err r \<and> disk' = disk \<and> (prepare_admission h v c g = Inr s \<longrightarrow> gw_poisoned g')"
  proof (cases rule: admit_cases)
    case refused
    then show ?thesis using assms(5) saved by (auto simp: admit_def save_snapshot_def split: if_splits prod.splits sum.splits dest: poison_fixed)
  next
    case (admitted s)
    then show ?thesis using saved by blast
  next
    case (interrupted s e)
    then show ?thesis using saved [OF interrupted(2,3)] by simp
  qed
  then show "is_err r" "disk' = disk" "prepare_admission h v c g = Inr s \<Longrightarrow> gw_poisoned g'" by simp_all
qed

section \<open>The replay store\<close>

text \<open>
  Blocks of authorizations are consumed as a whole: the reported authorizations are a subsequence
  of the history of the ledger in memory and of the one on disk.
\<close>

inductive replay_run :: "hash \<Rightarrow> VerifiedAuthorization list \<Rightarrow> AuthorizationReplayStore \<times> snapshot_file \<Rightarrow> bool"
  for h where
  replay_new: "ReplayStore_new h genesis epoch = Inr s \<Longrightarrow> replay_run h [] (s, None)"
| replay_admitted: "replay_run h as service \<Longrightarrow> admit_batch h batch fault service = (service', Inr ()) \<Longrightarrow>
    replay_run h (as @ batch) service'"
| replay_rejected: "replay_run h as service \<Longrightarrow> admit_batch h batch fault service = (service', Inl e) \<Longrightarrow>
    replay_run h as service'"
| replay_restarted: "replay_run h as (s, disk) \<Longrightarrow> ReplayStore_load h disk = Inr s' \<Longrightarrow> replay_run h as (s', disk)"

definition records :: "hash \<Rightarrow> VerifiedAuthorization list \<Rightarrow> AuthorizationLedger \<Rightarrow> bool" where
  "records h as l \<longleftrightarrow> (\<exists>log. ledger_history h log l \<and> subseq as log)"

definition replay_ok :: "hash \<Rightarrow> VerifiedAuthorization list \<Rightarrow> AuthorizationReplayStore \<times> snapshot_file \<Rightarrow> bool" where
  "replay_ok h as service \<longleftrightarrow> records h as (store_ledger (fst service))
     \<and> (\<forall>s. load_replay_snapshot h (snd service) = Inr s \<longrightarrow> records h as (rsnap_ledger s))"

lemma admit_batch_cases:
  assumes "admit_batch h batch fault (s, disk) = ((s', disk'), r)"
  obtains (refused) "s' = s" "disk' = disk" "is_err r"
  | (admitted) l where "consume_batch h (store_genesis s) (store_epoch s) batch (store_ledger s) = Inr l"
      "save_typed_snapshot h AuthorizationReplaySnapshot_type \<lparr>rsnap_genesis = store_genesis s,
         rsnap_epoch = store_epoch s, rsnap_ledger = l\<rparr> fault disk = (disk', Inr ())"
      "s' = s\<lparr>store_ledger := l\<rparr>" "r = Inr ()"
  | (interrupted) l e where "consume_batch h (store_genesis s) (store_epoch s) batch (store_ledger s) = Inr l"
      "save_typed_snapshot h AuthorizationReplaySnapshot_type \<lparr>rsnap_genesis = store_genesis s,
         rsnap_epoch = store_epoch s, rsnap_ledger = l\<rparr> fault disk = (disk', Inl e)"
      "s' = s\<lparr>store_poisoned := True\<rparr>" "r = Inl AuthPersistence"
proof (cases "store_poisoned s \<or> is_err (consume_batch h (store_genesis s) (store_epoch s) batch (store_ledger s))")
  case True
  then show thesis using assms refused by (auto simp: admit_batch_def is_err_def split: if_splits sum.splits)
next
  case False
  then obtain l where l: "\<not> store_poisoned s"
    "consume_batch h (store_genesis s) (store_epoch s) batch (store_ledger s) = Inr l"
    by (auto simp: not_is_err_iff)
  obtain d o' where save: "save_typed_snapshot h AuthorizationReplaySnapshot_type \<lparr>rsnap_genesis = store_genesis s,
      rsnap_epoch = store_epoch s, rsnap_ledger = l\<rparr> fault disk = (d, o')"
    by (cases "save_typed_snapshot h AuthorizationReplaySnapshot_type \<lparr>rsnap_genesis = store_genesis s,
      rsnap_epoch = store_epoch s, rsnap_ledger = l\<rparr> fault disk")
  show thesis
    using assms save admitted [OF l(2)] interrupted [OF l(2)] by (cases o') (simp_all add: admit_batch_def l)
qed

lemma records_batch:
  assumes "records h as l" "consume_batch h genesis epoch batch l = Inr l'"
  shows "records h as l'" "records h (as @ batch) l'"
proof -
  obtain log where log: "ledger_history h log l" "subseq as log"
    using assms(1) by (auto simp: records_def)
  note step = consume_batch_history [OF log(1) assms(2)]
  show "records h as l'"
    unfolding records_def using step log(2) by (blast intro: subseq_rev_drop_many)
  show "records h (as @ batch) l'"
    unfolding records_def using step log(2) by (blast intro: list_emb_append_mono subseq_order.refl)
qed

lemma records_storable: "records h as l \<Longrightarrow> storable_ledger l"
  by (auto simp: records_def dest: history_storable)

lemma admit_batch_keeps_ok:
  assumes "replay_ok h as (s, disk)" "admit_batch h batch fault (s, disk) = ((s', disk'), r)"
  shows "replay_ok h (case r of Inl _ \<Rightarrow> as | Inr _ \<Rightarrow> as @ batch) (s', disk')"
proof -
  have ok: "records h as (store_ledger s)" "\<forall>w. load_replay_snapshot h disk = Inr w \<longrightarrow> records h as (rsnap_ledger w)"
    using assms(1) by (simp_all add: replay_ok_def)
  from assms(2) show ?thesis
  proof (cases rule: admit_batch_cases)
    case refused
    then show ?thesis using assms(1) by (cases r) simp_all
  next
    case (admitted l)
    note l = records_batch(2) [OF ok(1) admitted(1)]
    have "load_replay_snapshot h disk' = Inr w \<longrightarrow> records h (as @ batch) (rsnap_ledger w)" for w
      using replay_snapshots.save_success [OF _ admitted(2)] records_storable [OF l] l by (auto split: if_splits)
    then show ?thesis using l by (simp add: replay_ok_def admitted(3,4))
  next
    case (interrupted l e)
    note l = records_batch(1) [OF ok(1) interrupted(1)]
    have "\<forall>w. load_replay_snapshot h disk' = Inr w \<longrightarrow> records h as (rsnap_ledger w)"
      by (rule replay_snapshots.save_keeps [OF _ _ ok(2) interrupted(2)]) (use l records_storable in simp_all)
    then show ?thesis using ok by (simp add: replay_ok_def interrupted(3,4))
  qed
qed

lemma replay_run_ok: "replay_run h as service \<Longrightarrow> replay_ok h as service"
proof (induction rule: replay_run.induct)
  case (replay_new genesis epoch s)
  have "records h [] (AuthorizationLedger_default h)" using history_fresh by (auto simp: records_def)
  then show ?case
    using replay_new
    by (auto simp: replay_ok_def ReplayStore_new_def load_replay_snapshot_def load_verified_snapshot_bytes_def split: if_splits)
next
  case (replay_admitted as service batch fault service')
  then show ?case by (cases service; cases service') (auto dest: admit_batch_keeps_ok)
next
  case (replay_rejected as service batch fault service' e)
  then show ?case by (cases service; cases service') (auto dest: admit_batch_keeps_ok)
next
  case (replay_restarted as s disk s')
  then show ?case by (auto simp: replay_ok_def ReplayStore_load_def split: if_splits)
qed

lemma replay_run_unique:
  assumes "replay_run h as (s, disk)"
  shows "distinct (map invocation_of as) \<or> (\<exists>log. ledger_history h log (store_ledger s) \<and> replay_clash h log)"
proof -
  obtain log where log: "ledger_history h log (store_ledger s)" "subseq as log"
    using replay_run_ok [OF assms] by (auto simp: replay_ok_def records_def)
  then show ?thesis
    using history_unique [OF log(1)] distinct_subseq [OF subseq_map [OF log(2)]] by blast
qed

end
