(* ===== verification/Authorization_Samples.thy ===== *)
theory Authorization_Samples
  imports Authorization_Runs Transition_Samples
begin

text \<open>
  A concrete admission: principal 11 holds a capability to transfer, presents a credential with the
  schema the request declares, and transfers the sample object through a new gateway.
\<close>

definition permissive :: AuthorizationVerifier where
  "permissive = \<lparr>verify_actor_signature = \<lambda>_. True, verify_finalized_context = \<lambda>_. True,
     verify_credential_signature = \<lambda>_. True, verify_credential_status = \<lambda>_. True,
     verify_capability_signature = \<lambda>_. True, verify_capability_active = \<lambda>_ _ _. True\<rparr>"

definition holder_grant :: CapabilityGrant where
  "holder_grant = \<lparr>grant_fields = \<lparr>capability_id = TypedId 9, issuer = TypedId 1,
     holder_binding = HolderPrincipal (TypedId 11), parent_capability = None,
     permitted_actions = BoundedActionSet [TRANSFER_OBJECT_ACTION_ID], resource_scope = ResourceSelector Any,
     data_scope = DataSelector Any, monetary_limit = Some 100, compute_limit = Some 50,
     rate_limit = Some \<lparr>maximum_uses = 3, window_blocks = 60\<rparr>, use_limit = Some 4, valid_from = 10,
     valid_until = Some 100, delegation_depth_remaining = 0, delegation_allowed = False,
     revocation_registry = None, constraint_hash = 0\<rparr>, issuer_signature = sample_signature\<rparr>"

definition sample_statement :: CredentialStatement where
  "sample_statement = \<lparr>st_format_version = 1, st_issuer = TypedId 5, st_subject_binding = 11,
     st_schema_id = 3, st_claims_commitment = 6, st_issuance_height = 20, st_valid_from = 1000,
     st_valid_until = Some 9000, st_status_registry = None, st_issuance_log_root = None,
     st_terms_commitment = None\<rparr>"

definition sample_material :: CredentialMaterial where
  "sample_material = \<lparr>material_credential = \<lparr>cred_statement = sample_statement, cred_signature = sample_signature\<rparr>,
     material_policy = \<lparr>accepted_issuers = [TypedId 5], accepted_schemas = [3], pol_maximum_status_age = 10,
       require_status = False, require_issuance_log = False\<rparr>,
     material_issuer_evidence = \<lparr>ie_issuer = TypedId 5, ie_issuance_commitment = 2,
       ie_signature_suite = ML_DSA_65, verified_issuance_log_root = None\<rparr>,
     material_registry = None, material_status_evidence = None\<rparr>"

definition sample_envelope :: AuthorizationEnvelope where
  "sample_envelope = \<lparr>auth_invocation_id = 21, auth_genesis = 33, auth_epoch = 1, auth_actor = TypedId 11,
     auth_height = 50, auth_timestamp = 2000, auth_state_root = 2, auth_transition = 2, auth_value = 0,
     auth_compute = 7, auth_freeze_state = Active, auth_purpose = None,
     auth_approvals = [\<lparr>fact_role = 8, fact_count = 2\<rparr>], auth_credential_ids = [TypedId 2],
     auth_capability_ids = [TypedId 9],
     auth_signature = \<lparr>sig_suite = ML_DSA_44, sig_bytes = replicate 2420 0\<rparr>\<rparr>"

definition sample_candidate :: AuthorizationCandidate where
  "sample_candidate = \<lparr>cand_envelope = sample_envelope,
     invocation_non_membership = \<lparr>witness_key = 21, witness_siblings = replicate KEY_BITS 0\<rparr>,
     cand_credentials = [sample_material], capability_chain = [holder_grant],
     cand_transaction = sample_transaction\<rparr>"

definition sample_gateway :: AuthorizationGateway where
  "sample_gateway = \<lparr>gw_state = sample_state, gw_ledger = AuthorizationLedger_default sample_hash,
     gw_poisoned = False, gw_genesis = 33, gw_epoch = 1\<rparr>"

section \<open>Validity\<close>

lemma holder_grant_valid: "valid_CapabilityGrant holder_grant"
  by (simp add: grant_defs holder_grant_def sample_signature_valid)

lemma sample_envelope_valid: "valid_AuthorizationEnvelope sample_envelope"
  by (simp add: valid_AuthorizationEnvelope_def AuthorizationEnvelope_new_eq_Inr sample_envelope_def
      valid_ApprovalFact_def ApprovalFact_new_eq_Inr valid_signature_iff signature_length_def
      authorization_bounds strictly_increasing_by_iff suite_defs valid_suite_def from_parts_def)

lemma sample_credential_valid:
  "valid_CredentialStatement sample_statement" "valid_Credential (material_credential sample_material)"
  "valid_CredentialAcceptancePolicy (material_policy sample_material)"
  by (simp_all add: valid_CredentialStatement_def CredentialStatement_new_def valid_Credential_def Credential_new_def
      valid_CredentialAcceptancePolicy_def CredentialAcceptancePolicy_new_def sample_statement_def
      sample_material_def credential_bounds strictly_increasing_by_iff sample_signature_valid)
    (simp add: sample_signature_def)

lemma sample_candidate_valid: "well_formed_candidate sample_candidate"
  by (simp add: well_formed_candidate_def sample_candidate_def sample_envelope_valid sample_credential_valid
      holder_grant_valid sample_transaction_valid)

section \<open>Admission\<close>

lemma commit_constant: "\<exists>d. commit sample_hash tag T x = Inr d \<Longrightarrow> commit sample_hash tag T x = Inr 2"
  by (auto simp: commit_eq_input sample_hash_def)

lemma sample_commits:
  "commit sample_hash CANONICAL_VALUE TransferTransaction_type sample_transaction = Inr 2"
  "credential_issuance_commitment sample_hash sample_statement = Inr 2"
  "credential_id_of sample_hash (material_credential sample_material) = Inr (TypedId 2)"
  "commit sample_hash CANONICAL_VALUE AuthorizationEnvelope_type sample_envelope = Inr 2"
proof -
  show "commit sample_hash CANONICAL_VALUE TransferTransaction_type sample_transaction = Inr 2"
    by (rule commit_constant)
      (rule bounded_envelope.commit_total [OF transfer_transaction.bounded_envelope_axioms sample_transaction_valid])
  show "credential_issuance_commitment sample_hash sample_statement = Inr 2"
    unfolding credential_issuance_commitment_def
    by (rule commit_constant)
      (rule bounded_envelope.commit_total [OF credential_statement.bounded_envelope_axioms sample_credential_valid(1)])
  have "commit sample_hash CREDENTIAL_ID Credential_type (material_credential sample_material) = Inr 2"
    by (rule commit_constant)
      (rule bounded_envelope.commit_total [OF credential.bounded_envelope_axioms sample_credential_valid(2)])
  then show "credential_id_of sample_hash (material_credential sample_material) = Inr (TypedId 2)"
    by (simp add: credential_id_of_def commit_id_def)
  have "length (enc_AuthorizationEnvelope sample_envelope) \<le> ct_max_encoded_len AuthorizationEnvelope_type"
    unfolding length_enc_AuthorizationEnvelope [OF sample_envelope_valid] AuthorizationEnvelope_bound
    by (simp add: sample_envelope_def)
  from authorization_envelope.commitment_input_fits [OF sample_envelope_valid this]
  show "commit sample_hash CANONICAL_VALUE AuthorizationEnvelope_type sample_envelope = Inr 2"
    by (intro commit_constant) (auto simp: commit_eq_input)
qed

lemma sample_presentation:
  "verify_presentation sample_hash (material_credential sample_material) (material_policy sample_material)
     (material_issuer_evidence sample_material) None None
     \<lparr>expected_subject_binding = 11, presentation_height = 50, presentation_timestamp = 2000\<rparr> =
   Inr \<lparr>fact_credential_id = TypedId 2, fact_issuer = TypedId 5, fact_subject_binding = 11, fact_schema_id = 3,
     verified_at_height = 50, status_registry_sequence = None\<rparr>"
  using sample_commits(2,3) accepts_iff [OF sample_credential_valid(3)]
  by (simp add: verify_presentation_def Let_def sample_material_def verify_issuance_log_def verify_status_def)
    (simp add: sample_statement_def sample_signature_def)

lemma sample_checks:
  "check_context sample_hash sample_candidate 33 1 2 2 permissive = Inr sample_command"
  "check_credentials sample_hash permissive sample_envelope [sample_material] = Inr [3]"
  "check_capabilities permissive sample_envelope sample_command [holder_grant] = Inr holder_grant"
  "check_policy sample_envelope sample_command [3] = Inr ()"
proof -
  have envelope: "cand_envelope sample_candidate = sample_envelope" "cand_transaction sample_candidate = sample_transaction"
    "tx_commands sample_transaction = [sample_command]" "cmd_control_policy sample_command = sample_policy"
    by (simp_all add: sample_candidate_def sample_transaction_def sample_command_def)
  show "check_context sample_hash sample_candidate 33 1 2 2 permissive = Inr sample_command"
    using sample_commits(1) sample_commit
    by (simp add: check_context_def Let_def envelope) (simp add: sample_envelope_def permissive_def)
  have "verify_credentials sample_hash permissive sample_envelope [sample_material] =
      Inr [\<lparr>fact_credential_id = TypedId 2, fact_issuer = TypedId 5, fact_subject_binding = 11, fact_schema_id = 3,
        verified_at_height = 50, status_registry_sequence = None\<rparr>]"
    using sample_presentation by (simp add: permissive_def sample_envelope_def sample_material_def)
  then show "check_credentials sample_hash permissive sample_envelope [sample_material] = Inr [3]"
    by (simp add: check_credentials_def authorization_bounds canonical_schema_facts_def policy_bounds)
      (simp add: sample_envelope_def)
  have "resource_is_subset_of (resource_exact (TypedId 7)) (ResourceSelector Any)"
    by (simp add: resource_exact_covers)
  then show "check_capabilities permissive sample_envelope sample_command [holder_grant] = Inr holder_grant"
    by (simp add: check_capabilities_def authorization_bounds Let_def permissive_def)
      (simp add: holder_grant_def sample_envelope_def sample_command_def)
  have "PolicyRequest_new (authorization_request sample_envelope sample_command [3]) = Inr sample_request"
    using sample_request_valid
    by (simp add: valid_PolicyRequest_def authorization_request_def sample_envelope_def sample_command_def sample_request_def)
  then show "check_policy sample_envelope sample_command [3] = Inr ()"
    using sample_decision evaluate_eq [OF sample_policy_valid sample_request_valid]
    by (simp add: check_policy_def Let_def) (simp add: sample_command_def decision_of_def)
qed

definition sample_authorization :: VerifiedAuthorization where
  "sample_authorization = \<lparr>va_envelope = sample_envelope, envelope_commitment = 2, leaf_capability = holder_grant,
     va_non_membership = invocation_non_membership sample_candidate\<rparr>"

lemma sample_verified:
  "verify_authorization_candidate sample_hash sample_candidate 33 1 2 2 permissive = Inr sample_authorization"
  using sample_checks sample_commits(4)
  by (simp add: verify_authorization_candidate_def Let_def sample_candidate_def sample_authorization_def)

definition sample_ledger_after :: AuthorizationLedger where
  "sample_ledger_after = \<lparr>invocation_set = \<lparr>set_domain = AuthorizationInvocation, set_root = 2, set_count = 1\<rparr>,
     budgets = [(TypedId 9, \<lparr>bu_uses = 1, bu_money = 0, bu_compute = 7, bu_window_start = 0, bu_window_uses = 1\<rparr>)]\<rparr>"

lemma sample_set_root: "set_commitment_root sample_hash d n t = 2"
  by (simp add: set_commitment_root_def sample_hash_def)

lemma sample_insert:
  "SetCommitment_insert sample_hash (SetCommitment_empty sample_hash AuthorizationInvocation) 21
     (invocation_non_membership sample_candidate) = Inr (invocation_set sample_ledger_after)"
  by (simp add: SetCommitment_insert_def SetCommitment_empty_def sample_set_root Let_def sample_candidate_def
      sample_ledger_after_def checked_add_def)

lemma sample_consume:
  "consume sample_hash (AuthorizationLedger_default sample_hash) sample_authorization = Inr sample_ledger_after"
proof -
  have "auth_invocation_id sample_envelope = 21" by (simp add: sample_envelope_def)
  then show ?thesis
    using sample_insert
    by (simp add: consume_def Let_def sample_authorization_def AuthorizationLedger_default_def budget_usage_def
        BudgetUsage_default_def)
      (simp add: holder_grant_def sample_envelope_def sample_ledger_after_def checked_add_def rate_usage_def Let_def)
qed

lemma sample_prepare_with:
  assumes "invocation_set l = SetCommitment_empty sample_hash AuthorizationInvocation"
    "consume sample_hash l sample_authorization = Inr l'"
  obtains out where "apply_transfer_transaction sample_hash sample_state sample_transaction = Inr out"
    "prepare_admission sample_hash permissive sample_candidate (sample_gateway\<lparr>gw_ledger := l\<rparr>) =
      Inr \<lparr>snap_genesis = 33, snap_epoch = 1, snap_state = output_state out, snap_ledger = l',
        last_receipt = output_receipt out, last_envelope = 2\<rparr>"
proof -
  obtain out where out: "apply_transfer_transaction sample_hash sample_state sample_transaction = Inr out"
    "receipt_result (output_receipt out) = ReceiptSuccess"
    by (rule sample_transition)
  obtain sc where sc: "commit_objects sample_hash (state_objects sample_state) = Inr sc" "state_root sc = 2"
    using commit_objects_eq [OF sample_tree, of sample_hash]
    by (auto simp: sample_state_def hash_state_root_def sample_hash_def)
  have ok: "objects_ok (state_objects sample_state)"
    using sample_state_valid by (simp add: valid_ObjectState_iff)
  have found: "find_object sample_state (TypedId 7) = Some sample_object" "control_policy_hash sample_object = 2"
    using find_object_iff [OF ok] by (auto simp: sample_state_def sample_object_def)
  have candidate: "cand_transaction sample_candidate = sample_transaction"
    "tx_commands sample_transaction = [sample_command]" "ref_object_id (cmd_input sample_command) = TypedId 7"
    "auth_invocation_id (cand_envelope sample_candidate) = 21" "envelope_commitment sample_authorization = 2"
    by (simp_all add: sample_candidate_def sample_transaction_def sample_command_def sample_envelope_def
        sample_authorization_def)
  show thesis
    by (rule that [OF out(1)])
      (simp add: prepare_admission_def sample_gateway_def candidate sc found sample_verified assms out sample_insert)
qed

lemma sample_prepare:
  obtains out where "apply_transfer_transaction sample_hash sample_state sample_transaction = Inr out"
    "prepare_admission sample_hash permissive sample_candidate sample_gateway =
      Inr \<lparr>snap_genesis = 33, snap_epoch = 1, snap_state = output_state out, snap_ledger = sample_ledger_after,
        last_receipt = output_receipt out, last_envelope = 2\<rparr>"
proof -
  have fresh: "invocation_set (AuthorizationLedger_default sample_hash) =
      SetCommitment_empty sample_hash AuthorizationInvocation"
    by (simp add: AuthorizationLedger_default_def)
  have "sample_gateway\<lparr>gw_ledger := AuthorizationLedger_default sample_hash\<rparr> = sample_gateway"
    by (simp add: sample_gateway_def)
  then show thesis using that sample_prepare_with [OF fresh sample_consume] by metis
qed

lemma sample_admitted:
  obtains g disk receipt where
    "admit sample_hash permissive sample_candidate NoFault (sample_gateway, None) = ((g, disk), Inr receipt)"
    "gw_ledger g = sample_ledger_after"
proof -
  obtain out where out: "apply_transfer_transaction sample_hash sample_state sample_transaction = Inr out"
    and prep: "prepare_admission sample_hash permissive sample_candidate sample_gateway =
      Inr \<lparr>snap_genesis = 33, snap_epoch = 1, snap_state = output_state out, snap_ledger = sample_ledger_after,
        last_receipt = output_receipt out, last_envelope = 2\<rparr>" (is "_ = Inr ?s")
    by (rule sample_prepare)
  have "valid_ObjectState (output_state out)" "valid_TransitionReceipt (output_receipt out)"
    using apply_transfer_transaction_cases [OF sample_state_valid sample_transaction_valid, of sample_hash] out by auto
  then have "valid_AuthorizedSnapshot ?s"
    by (simp add: valid_AuthorizedSnapshot_def valid_AuthorizationLedger_def sample_ledger_after_def
        authorization_bounds strictly_increasing_by_iff)
  from authorized_snapshot.encode_envelope_total [OF this] obtain bytes where
    "encode_envelope AuthorizedSnapshot_type ?s = Inr bytes" by blast
  then show thesis
    using that prep
    by (simp add: admit_def save_snapshot_def save_typed_snapshot_def sample_gateway_def)
qed

lemma sample_gateway_run: "gateway_run sample_hash permissive [] (sample_gateway, None)"
  by (rule run_new [of _ sample_state 33 1]) (simp_all add: Gateway_new_def sample_gateway_def sample_state_valid)

lemma sample_run:
  obtains g disk where "gateway_run sample_hash permissive [sample_candidate] (g, disk)"
    "gw_ledger g = sample_ledger_after"
proof -
  obtain g disk receipt where
    "admit sample_hash permissive sample_candidate NoFault (sample_gateway, None) = ((g, disk), Inr receipt)"
    "gw_ledger g = sample_ledger_after"
    by (rule sample_admitted)
  then show thesis
    using that run_admitted [OF sample_gateway_run sample_candidate_valid] by fastforce
qed

lemma sample_interrupted:
  "admit sample_hash permissive sample_candidate BeforeRename (sample_gateway, None) =
     ((sample_gateway\<lparr>gw_poisoned := True\<rparr>, None), Inl AuthPersistence)"
proof -
  obtain s where "prepare_admission sample_hash permissive sample_candidate sample_gateway = Inr s"
    using sample_prepare by blast
  moreover have "\<not> gw_poisoned sample_gateway" by (simp add: sample_gateway_def)
  ultimately show ?thesis
    by (simp add: admit_def save_snapshot_def save_typed_snapshot_def Let_def split: sum.splits)
qed

lemma sample_history: "ledger_history sample_hash [sample_authorization] sample_ledger_after"
  using history_step [OF history_fresh sample_consume] by simp

lemma sample_replay_run:
  obtains s disk where "replay_run sample_hash [sample_authorization] (s, disk)"
    "store_ledger s = sample_ledger_after"
proof -
  let ?s = "\<lparr>store_ledger = AuthorizationLedger_default sample_hash, store_poisoned = False, store_genesis = 33,
    store_epoch = 1\<rparr>"
  have new: "replay_run sample_hash [] (?s, None)"
    by (rule replay_new [of _ 33 1]) (simp add: ReplayStore_new_def)
  have "valid_AuthorizationReplaySnapshot \<lparr>rsnap_genesis = 33, rsnap_epoch = 1, rsnap_ledger = sample_ledger_after\<rparr>"
    by (simp add: valid_AuthorizationReplaySnapshot_def valid_AuthorizationLedger_def sample_ledger_after_def
        authorization_bounds strictly_increasing_by_iff)
  from replay_snapshot.encode_envelope_total [OF this] obtain bytes where
    "encode_envelope AuthorizationReplaySnapshot_type
       \<lparr>rsnap_genesis = 33, rsnap_epoch = 1, rsnap_ledger = sample_ledger_after\<rparr> = Inr bytes" by blast
  moreover have "auth_genesis (va_envelope sample_authorization) = 33" "auth_epoch (va_envelope sample_authorization) = 1"
    by (simp_all add: sample_authorization_def sample_envelope_def)
  ultimately have "admit_batch sample_hash [sample_authorization] NoFault (?s, None) =
      ((?s\<lparr>store_ledger := sample_ledger_after\<rparr>, Some (bytes @ snapshot_tag sample_hash bytes)), Inr ())"
    using sample_consume by (simp add: admit_batch_def save_typed_snapshot_def)
  from replay_admitted [OF new this] have "replay_run sample_hash [sample_authorization]
      (?s\<lparr>store_ledger := sample_ledger_after\<rparr>, Some (bytes @ snapshot_tag sample_hash bytes))" by simp
  then show thesis by (rule that) simp
qed

section \<open>Extreme values\<close>

text \<open>An envelope with a purpose and sixteen approvals, credentials and capabilities.\<close>

definition full_envelope :: AuthorizationEnvelope where
  "full_envelope = sample_envelope\<lparr>auth_purpose := Some 4,
     auth_approvals := map (\<lambda>i. \<lparr>fact_role = word_of_nat i, fact_count = 1\<rparr>) [0..<16],
     auth_credential_ids := map (\<lambda>i. TypedId (word_of_nat i)) [0..<16],
     auth_capability_ids := map (\<lambda>i. TypedId (word_of_nat i)) [0..<16]\<rparr>"

lemma word_of_nat_digest_less:
  assumes "i < j" "j < 10000"
  shows "(word_of_nat i :: Digest384) < word_of_nat j"
proof -
  have "unat (word_of_nat k :: Digest384) = k" if "k < 10000" for k
    by (rule unat_word_of_nat) (use that in simp)
  then show ?thesis unfolding word_less_nat_alt using assms by simp
qed

lemma counting_increasing:
  assumes "\<And>i. key (f i) = (word_of_nat i :: Digest384)" "n \<le> 10000"
  shows "sorted_wrt (\<lambda>x y. key x < key y) (map f [m..<n])"
  using assms word_of_nat_digest_less by (auto simp: sorted_wrt_map sorted_wrt_upt intro!: sorted_wrt_mono_rel [OF _ sorted_wrt_upt])

lemma counting_ids: "sorted_wrt (<) (map (\<lambda>i. TypedId (word_of_nat i) :: 'a typed_id) [0..<16])"
  using counting_increasing [of into_digest "\<lambda>i. TypedId (word_of_nat i) :: 'a typed_id" 16 0]
  by (simp add: less_typed_id_def [abs_def])

lemma full_envelope_valid: "valid_AuthorizationEnvelope full_envelope"
proof -
  have "sorted_wrt (\<lambda>x y. fact_role x < fact_role y) (map (\<lambda>i. \<lparr>fact_role = word_of_nat i, fact_count = 1\<rparr>) [0..<16])"
    by (rule counting_increasing) simp_all
  then show ?thesis
    using sample_envelope_valid counting_ids
    by (simp add: valid_AuthorizationEnvelope_def AuthorizationEnvelope_new_eq_Inr full_envelope_def
        strictly_increasing_by_iff authorization_bounds valid_ApprovalFact_def ApprovalFact_new_eq_Inr
        list_all_iff counting_ids del: upt_rec_numeral)
qed

text \<open>A gateway whose budget table holds 4096 other capabilities.\<close>

definition full_gateway :: AuthorizationGateway where
  "full_gateway = sample_gateway\<lparr>gw_ledger := AuthorizationLedger_default sample_hash
     \<lparr>budgets := map (\<lambda>i. (TypedId (word_of_nat i), BudgetUsage_default)) [100..<4196]\<rparr>\<rparr>"

lemma full_gateway_table:
  "length (budgets (gw_ledger full_gateway)) = MAX_AUTHORIZATION_INVOCATIONS"
  "capability_id (cand_leaf sample_candidate) \<notin> fst ` set (budgets (gw_ledger full_gateway))"
  "valid_ObjectState (gw_state full_gateway)"
proof -
  show "length (budgets (gw_ledger full_gateway)) = MAX_AUTHORIZATION_INVOCATIONS"
    by (simp add: full_gateway_def authorization_bounds del: upt_rec_numeral)
  have "(9 :: Digest384) \<noteq> word_of_nat i" if "i \<in> {100..<4196}" for i
    using word_of_nat_digest_less [of 9 i] that by auto
  then show "capability_id (cand_leaf sample_candidate) \<notin> fst ` set (budgets (gw_ledger full_gateway))"
    by (auto simp: full_gateway_def sample_candidate_def holder_grant_def simp del: upt_rec_numeral)
  show "valid_ObjectState (gw_state full_gateway)"
    by (simp add: full_gateway_def sample_gateway_def sample_state_valid del: upt_rec_numeral)
qed

lemma consume_budget_cong:
  assumes "invocation_set l = invocation_set l'"
    "budget_usage l (capability_id (grant_fields (leaf_capability a))) =
      budget_usage l' (capability_id (grant_fields (leaf_capability a)))"
  shows "is_err (consume h l a) \<longleftrightarrow> is_err (consume h l' a)"
  using assms by (simp add: consume_def Let_def and_then_def ok_or_def split: sum.splits option.splits)

lemma full_gateway_prepares: "\<not> is_err (prepare_admission sample_hash permissive sample_candidate full_gateway)"
proof -
  let ?l = "gw_ledger full_gateway"
  have fresh: "invocation_set ?l = SetCommitment_empty sample_hash AuthorizationInvocation"
    by (simp add: full_gateway_def AuthorizationLedger_default_def del: upt_rec_numeral)
  have "map_of (budgets ?l) (capability_id (cand_leaf sample_candidate)) = None"
    using full_gateway_table(2) by (simp add: map_of_eq_None_iff)
  then have "is_err (consume sample_hash ?l sample_authorization) \<longleftrightarrow>
      is_err (consume sample_hash (AuthorizationLedger_default sample_hash) sample_authorization)"
    by (intro consume_budget_cong)
      (simp_all add: fresh budget_usage_def AuthorizationLedger_default_def sample_authorization_def
        sample_candidate_def)
  then obtain l where l: "consume sample_hash ?l sample_authorization = Inr l"
    using sample_consume by (auto simp: not_is_err_iff)
  have "sample_gateway\<lparr>gw_ledger := ?l\<rparr> = full_gateway"
    by (simp add: full_gateway_def del: upt_rec_numeral)
  then show ?thesis
    by (metis sample_prepare_with [OF fresh l] is_err_simps(2))
qed

end
