(* ===== verification/Spec2Isabelle.thy ===== *)
theory Spec2Isabelle
  imports Transition_Samples Cash_Samples Authorization_Samples
begin

text \<open>
  A verification development of ActiveChain, a blockchain whose state is a set of typed, owned
  objects beside a native-money ledger, written in Rust (crates under \<^verbatim>\<open>src/crates\<close>).  The
  development models the deterministic core that every node must agree on.

  \<^bold>\<open>How the parts interact.\<close>  All protocol data is exchanged as canonical envelopes
  (\<^verbatim>\<open>canonical-codec\<close>) and named by domain-separated commitments to their bodies
  (\<^verbatim>\<open>protocol-commitment\<close>).  Principals authenticate with registered suites
  (\<^verbatim>\<open>protocol-types/src/crypto.rs\<close>), pass authority on as capability grants (\<^verbatim>\<open>authority.rs\<close>,
  checked by \<^verbatim>\<open>capability\<close>) and present credentials (\<^verbatim>\<open>credential.rs\<close>, checked by \<^verbatim>\<open>credential\<close>).
  State is a set of objects (\<^verbatim>\<open>object.rs\<close>, \<^verbatim>\<open>object\<close>), each under a control policy
  (\<^verbatim>\<open>policy-kernel\<close>).  \<^verbatim>\<open>transition\<close> executes a transfer transaction on it, \<^verbatim>\<open>state-tree\<close>
  commits to it.  \<^verbatim>\<open>authorization-kernel\<close> puts these together: its gateway checks signature, state
  root, credentials, capability chain and policy of a candidate, records the invocation in a replay
  set of \<^verbatim>\<open>accumulator\<close>, charges the budgets of the capability, runs the transition and saves a
  snapshot before it reports a receipt.  Money moves in \<^verbatim>\<open>cash-kernel\<close>, whose ledger keeps coin
  cells, the supply, the shielded pool and nullifiers of \<^verbatim>\<open>privacy-kernel\<close> and a replay set of
  redeemed rewards.  Contract code is bytecode that \<^verbatim>\<open>bytecode-verifier\<close> admits and \<^verbatim>\<open>object-vm\<close>
  interprets.

  \<^bold>\<open>Conventions.\<close>  \<open>Result<T, E>\<close> is the sum type with errors on the left, every early return is a
  branch, unsigned integers are words of their width, \<open>usize\<close> is a natural number whose bound is
  written where the code checks it.  A \<open>BTreeMap\<close> is an association list sorted by its keys.  The
  hash SHAKE256 is a parameter \<open>h\<close> or \<open>shake256\<close>; a statement that rests on its collision resistance
  has the collision as an alternative, between byte strings the statement names.  Signature and
  registry checks the code receives through a trait are the fields of a record.  A type with a
  checking constructor has a predicate \<open>valid_T\<close>, true of the values the constructor accepts.  Where
  the code mutates a copy and assigns it on success, the operation returns the new state or an error.

  \<^bold>\<open>Theories.\<close>
  \<^item> \<open>Prelude\<close>: results, checked arithmetic, sorted lists and binary search.
  \<^item> \<open>Codec\<close>, \<open>Codec_Laws\<close>: the codec, and the locales \<open>canonical_codec\<close>, \<open>canonical_envelope\<close> and
    \<open>bounded_envelope\<close>, which give round trips, strictness and uniqueness once for every type.
  \<^item> \<open>Protocol_Types\<close>, \<open>Crypto\<close>, \<open>Authority\<close>, \<open>Objects\<close>, \<open>Access_Manifest\<close>, \<open>Commitment\<close>: the protocol
    types with their constructors, encodings, behaviour and commitments.
  \<^item> \<open>Scopes\<close>, \<open>Capability\<close>: meaning of scope selectors, attenuation and delegation chains.
  \<^item> \<open>Bytecode\<close>, \<open>Bytecode_Verifier\<close>, \<open>Verifier_Typing\<close>: programs, the verifier, and its equivalence
    with a declarative type system.
  \<^item> \<open>Object_VM\<close>, \<open>VM_Soundness\<close>, \<open>VM_Execution\<close>, \<open>VM_Codec\<close>: the interpreter, safety of verified
    programs, resource conservation (locales \<open>affine_resource\<close>, \<open>linear_resource\<close>) and encodings.
  \<^item> \<open>Policy\<close>, \<open>Policy_Semantics\<close>: the policy language and its metered evaluator, and the
    specification it refines (default deny, forbid overrides permit).
  \<^item> \<open>Transition\<close>, \<open>Transition_Correct\<close>: transactions, object states, receipts and their execution;
    totality, atomicity and the exact effect against an abstract specification.
  \<^item> \<open>State_Tree\<close>, \<open>State_Tree_Codec\<close>, \<open>State_Tree_Spec\<close>, \<open>State_Tree_Proofs\<close>: the 16-ary tree of 96
    levels, the tree it computes, soundness and completeness of its proofs and of updates by proof.
  \<^item> \<open>Sparse_Merkle\<close>, \<open>Accumulator\<close>, \<open>Accumulator_Correct\<close>, \<open>Accumulator_Reference\<close>: the set and the
    history accumulator, both interpretations of the locale \<open>merkle_laws\<close>, and the reference
    structures that generate their witnesses.
  \<^item> \<open>Privacy_State\<close>, \<open>Privacy_Correct\<close>: shielded intents, nullifiers and the pool, and what the
    admission of a statement guarantees.
  \<^item> \<open>Cash_Arithmetic\<close>, \<open>Cash_Types\<close>, \<open>Cash_Economics\<close>, \<open>Cash_Economics_Correct\<close>: checked arithmetic
    with its exact formulas, the values of native money, and duties, paymasters, fees and capacity.
  \<^item> \<open>Cash_Ledger\<close>, \<open>Cash_Ledger_Cells\<close>, \<open>Cash_Ledger_Correct\<close>, \<open>Cash_Ledger_Economy\<close>: the ledger's
    operations and that each keeps it in good order (locale \<open>checked_operation\<close>, one interpretation
    per operation); \<open>Cash_Ledger_Runs\<close>, \<open>Cash_Ledger_Genesis\<close>: runs of operations from genesis.
  \<^item> \<open>Credential_Types\<close>, \<open>Credential_Verify\<close>: credentials, status registries and receipts, and what an
    accepted presentation guarantees.
  \<^item> \<open>Authorization\<close>, \<open>Authorization_Codec\<close>, \<open>Authorization_Ledger\<close>: the checks of a candidate, the
    ledger of invocations and budgets, the snapshot files, the gateway and the replay store; the
    wire formats; and the ledger as a history of consumed authorizations.
  \<^item> \<open>Authorization_Snapshots\<close>, \<open>Authorization_Correct\<close>, \<open>Authorization_Runs\<close>: atomic saving and
    loading (locale \<open>snapshot_format\<close>, interpreted for both files), what an admission implies, and
    the gateway as a state machine with device faults and restarts.
  \<^item> \<open>Samples\<close>, \<open>Transition_Samples\<close>, \<open>Cash_Samples\<close>, \<open>Authorization_Samples\<close>: concrete values at which
    the properties are instantiated.

  \<^bold>\<open>Bounds.\<close>  No definition uses fuel.  Recursion is structural or has a termination proof: the
  interpreter loop and the sampling of auditors end because a counter of fixed width grows and its
  overflow is an error, the loops of the trees because they descend a fixed number of levels.

  \<^bold>\<open>Files.\<close>  Saving a snapshot writes a temporary file, synchronizes it, renames it and
  synchronizes the directory.  In the model a save succeeds, fails before the rename, which leaves the old
  file, or fails after it, which leaves the new one; the rename itself is atomic.

  \<^bold>\<open>Not modelled.\<close>  Services, user interfaces, wallets, network and storage I/O, external proof
  systems and the signature algorithms themselves; partition plans, the authenticated cell tree and
  the proof trace of \<^verbatim>\<open>cash-kernel\<close>; and the wallet side of \<^verbatim>\<open>privacy-kernel\<close>.
\<close>

section \<open>Properties\<close>

text \<open>
  C1. Executing a verified program never reaches an interpreter invariant violation or an
  invalid result. It returns values of the declared output types within the gas limit, in at
  most as many steps as the program has instructions and with at most the declared events, or it
  fails because the inputs do not match the declaration, gas runs out or an addition overflows.
\<close>

theorem verified_execution_safe:
  assumes "valid_VmProgram p" "verify p = Inr v"
  shows "case execute v inputs limit of
      Inr r \<Rightarrow> map value_type (outputs r) = output_types p \<and> res_gas_used r \<le> limit \<and>
        0 < unat (res_steps r) \<and> unat (res_steps r) \<le> length (instructions p) \<and>
        length (res_events r) \<le> unat (maximum_events p)
    | Inl e \<Rightarrow> (\<exists>n m. e = InputCountMismatch n m) \<or> (\<exists>r t u. e = InputTypeMismatch r t u) \<or>
        (\<exists>pc used cost. e = GasExhausted pc used cost limit) \<or>
        (\<exists>pc < length (instructions p). e = ArithmeticOverflow pc)"
proof (cases "inputs_match p inputs")
  case True
  then show ?thesis
    using execute_verified [OF assms True, of limit] by (cases "execute v inputs limit") auto
next
  case False
  then show ?thesis
    using execute_eq(2) [OF assms(1) verified_program_eq [OF assms(2)] False, of limit] by auto
qed

theorem verified_execution_safe_witness:
  "valid_VmProgram sample_program \<and> verify sample_program = Inr sample_verified \<and>
   execute sample_verified sample_inputs 100 = Inr sample_result \<and>
   map value_type (outputs sample_result) = output_types sample_program"
  using verified_execution_safe [OF sample_program_valid sample_program_verified,
      where inputs = sample_inputs and limit = 100] sample_program_valid sample_program_verified sample_execution by simp

text \<open>
  C2. A verified program neither creates, duplicates nor loses an object: the multiset of
  objects in its outputs is the multiset of objects in its inputs.
\<close>

theorem objects_conserved:
  assumes "valid_VmProgram p" "verify p = Inr v" "execute v inputs limit = Inr r"
  shows "sum_list (map objects_of (outputs r)) = sum_list (map objects_of inputs)"
  using assms by (rule execute_conserves_objects)

theorem objects_conserved_witness:
  "sum_list (map objects_of (outputs sample_result)) = sum_list (map objects_of sample_inputs) \<and>
   sum_list (map objects_of sample_inputs) = {#sample_object#}"
  using objects_conserved [OF sample_program_valid sample_program_verified sample_execution]
  by (simp add: sample_inputs_def)

text \<open>
  C3. Executing a well-formed transfer transaction on a well-formed state never aborts: it
  always yields a well-formed state and a well-formed receipt. If the receipt reports anything
  but success, the published state is the state before the transaction, so no prefix of the
  commands is ever visible.
\<close>

theorem transition_total_and_atomic:
  assumes "valid_ObjectState pre" "valid_TransferTransaction t"
  shows "\<exists>out. apply_transfer_transaction h pre t = Inr out \<and>
    valid_ObjectState (output_state out) \<and> valid_TransitionReceipt (output_receipt out) \<and>
    (receipt_result (output_receipt out) = ReceiptSuccess \<or> output_state out = pre)"
  using apply_transfer_transaction_cases [OF assms, of h] by (auto split: if_splits)

theorem transition_total_and_atomic_witness:
  "\<exists>out. apply_transfer_transaction sample_hash sample_state sample_transaction = Inr out \<and>
    valid_ObjectState (output_state out)"
  using transition_total_and_atomic [OF sample_state_valid sample_transaction_valid, of sample_hash] by blast

text \<open>
  C4. A transaction succeeds exactly when every command, judged on its own against the state
  before the transaction, names a stored object that it may transfer: the request is for this
  object, height and action, the manifest declares the write, the policy supplied opens the
  commitment stored in the object, that policy permits the request without obligations, and the
  object itself allows the transfer. The order of the commands is irrelevant.
\<close>

theorem transition_succeeds_iff_all_authorized:
  assumes "valid_ObjectState pre" "valid_TransferTransaction t"
    "apply_transfer_transaction h pre t = Inr out"
  shows "receipt_result (output_receipt out) = ReceiptSuccess \<longleftrightarrow>
    (\<forall>c \<in> set (tx_commands t). authorized h t pre c)"
  using apply_transfer_transaction_cases [OF assms(1,2), of h] assms(3)
    transfers_iff_authorized [OF assms(1,2), of h] by (auto split: if_splits)

theorem transition_succeeds_iff_all_authorized_witness:
  "\<exists>out. apply_transfer_transaction sample_hash sample_state sample_transaction = Inr out \<and>
    receipt_result (output_receipt out) = ReceiptSuccess"
proof -
  obtain out where out: "apply_transfer_transaction sample_hash sample_state sample_transaction = Inr out"
    by (rule sample_transition)
  show ?thesis
    using out sample_authorized
      transition_succeeds_iff_all_authorized [OF sample_state_valid sample_transaction_valid out]
    by (simp add: sample_transaction_def)
qed

text \<open>
  C5. Complete mediation: if the gateway admits a candidate, the actor signed it for this chain,
  this epoch and the root of the current state; its transaction is the one the signature commits
  to and has one command; the control policy the object itself commits to permits the request of
  that actor, every credential schema of the request is backed by a checked credential of the
  actor, and every grant of an unbroken delegation chain from a root down to the actor covers
  the transfer of this object at this height. The admission moves exactly this object and leaves
  every other one as it was.
\<close>

theorem admission_requires_authority:
  assumes "admit h v c fault (g, disk) = ((g', disk'), Inr receipt)" "well_formed_candidate c"
    "valid_ObjectState (gw_state g)"
  shows "\<exists>command ob sc. authorization_holds h v c command
    \<and> auth_genesis (cand_envelope c) = gw_genesis g \<and> auth_epoch (cand_envelope c) = gw_epoch g
    \<and> commit_objects h (state_objects (gw_state g)) = Inr sc \<and> auth_state_root (cand_envelope c) = state_root sc
    \<and> find_object (gw_state g) (ref_object_id (cmd_input command)) = Some ob
    \<and> commit h CANONICAL_VALUE PolicySet_type (cmd_control_policy command) = Inr (control_policy_hash ob)
    \<and> (\<forall>oid. find_object (gw_state g') oid = (if oid = ref_object_id (cmd_input command)
        then Some (ob\<lparr>object_version := object_version ob + 1, owner := cmd_new_owner command\<rparr>)
        else find_object (gw_state g) oid))"
  using assms(1)
proof (cases rule: admit_cases)
  case (admitted s)
  obtain command ob sc where p: "authorization_holds h v c command"
    "find_object (gw_state g) (ref_object_id (cmd_input command)) = Some ob"
    "commit h CANONICAL_VALUE PolicySet_type (cmd_control_policy command) = Inr (control_policy_hash ob)"
    "auth_genesis (cand_envelope c) = gw_genesis g" "auth_epoch (cand_envelope c) = gw_epoch g"
    "commit_objects h (state_objects (gw_state g)) = Inr sc" "auth_state_root (cand_envelope c) = state_root sc"
    "transfers h (cand_transaction c) [command] (state_objects (gw_state g)) (state_objects (snap_state s))"
    by (rule prepare_admission_sound [OF admitted(2) assms(2,3)]) blast
  have commands: "tx_commands (cand_transaction c) = [command]" "valid_TransferTransaction (cand_transaction c)"
    using p(1) assms(2) by (simp_all add: authorization_holds_def Let_def well_formed_candidate_def)
  have "find_object (snap_state s) oid = (if oid = ref_object_id (cmd_input command)
      then Some (ob\<lparr>object_version := object_version ob + 1, owner := cmd_new_owner command\<rparr>)
      else find_object (gw_state g) oid)" for oid
    using transfers_lookup [OF assms(3) commands(2), of h "snap_state s" oid] p(2,8) commands(1) by auto
  then show ?thesis using p(1-7) admitted(4) by auto
qed simp_all

theorem admission_requires_authority_witness:
  "\<exists>g disk receipt command.
    admit sample_hash permissive sample_candidate NoFault (sample_gateway, None) = ((g, disk), Inr receipt)
    \<and> authorization_holds sample_hash permissive sample_candidate command"
proof -
  obtain g disk receipt where a:
    "admit sample_hash permissive sample_candidate NoFault (sample_gateway, None) = ((g, disk), Inr receipt)"
    by (rule sample_admitted) blast
  have "valid_ObjectState (gw_state sample_gateway)" by (simp add: sample_gateway_def sample_state_valid)
  from admission_requires_authority [OF a sample_candidate_valid this] a show ?thesis by blast
qed

text \<open>
  C6. No invocation is admitted twice: along any run of the gateway, through epoch changes,
  failures of the device at any point of a save, and restarts from the snapshot file, the
  invocations of the admissions reported to callers are distinct, or the hash collides on two
  byte strings, one hashed by the replay commitment and one by the check of a witness.
\<close>

theorem invocations_admitted_once:
  assumes "gateway_run h v cs (g, disk)"
  shows "distinct (map (\<lambda>c. auth_invocation_id (cand_envelope c)) cs) \<or>
    (\<exists>log i. ledger_history h log (gw_ledger g) \<and> i < length log \<and>
      clash h (set_inputs h AuthorizationInvocation ((\<lambda>a. auth_invocation_id (va_envelope a)) ` set (take i log)))
        (absence_inputs h AuthorizationInvocation (word_of_nat i) (va_non_membership (log ! i))))"
  using run_invocations_unique [OF assms] unfolding replay_clash_def by blast

theorem invocations_admitted_once_witness:
  "\<exists>g disk. gateway_run sample_hash permissive [sample_candidate] (g, disk) \<and>
    (distinct (map (\<lambda>c. auth_invocation_id (cand_envelope c)) [sample_candidate]) \<or>
     (\<exists>log i. ledger_history sample_hash log (gw_ledger g) \<and> i < length log \<and>
      clash sample_hash (set_inputs sample_hash AuthorizationInvocation
          ((\<lambda>a. auth_invocation_id (va_envelope a)) ` set (take i log)))
        (absence_inputs sample_hash AuthorizationInvocation (word_of_nat i) (va_non_membership (log ! i)))))"
proof -
  obtain g disk where r: "gateway_run sample_hash permissive [sample_candidate] (g, disk)"
    by (rule sample_run) blast
  from invocations_admitted_once [OF r] r show ?thesis by blast
qed

text \<open>
  C7. Capability budgets hold for ever: along any run of the gateway with epoch changes,
  failures and restarts, at every reported admission the number of reported admissions under the
  same capability, the sum of their values and the sum of their compute are within the use
  limit, the monetary limit and the compute limit of the grant presented, as unbounded integers.
\<close>

theorem capability_limits_respected:
  assumes "gateway_run h v cs service" "i < length cs"
  shows "let f = grant_fields (last (capability_chain (cs ! i))); k = capability_id f; done = take (Suc i) cs in
    is_none_or (\<lambda>l. reported_uses k done \<le> unat l) (use_limit f)
    \<and> is_none_or (\<lambda>l. reported_spending auth_value k done \<le> unat l) (monetary_limit f)
    \<and> is_none_or (\<lambda>l. reported_spending auth_compute k done \<le> unat l) (compute_limit f)"
  using run_within_limits [OF assms] unfolding within_limits_def by (simp only: Let_def)

theorem capability_limits_respected_witness:
  "\<exists>service. gateway_run sample_hash permissive [sample_candidate] service
    \<and> reported_spending auth_compute (TypedId 9) [sample_candidate] \<le> 50"
proof -
  obtain g disk where r: "gateway_run sample_hash permissive [sample_candidate] (g, disk)"
    by (rule sample_run) blast
  from capability_limits_respected [OF r, of 0] r show ?thesis
    by (auto simp: sample_candidate_def holder_grant_def Let_def)
qed

text \<open>
  C8. A failed admission is atomic: the state, the ledger and the epoch in memory are unchanged,
  and the file on disk is the old one or, only when the error is a persistence error and the
  gateway is poisoned, exactly the file the admission writes when nothing fails. A poisoned
  gateway refuses every later admission and leaves the disk alone.
\<close>

theorem failed_admission_is_atomic:
  assumes "admit h v c fault (g, disk) = ((g', disk'), Inl e)"
  shows "gw_state g' = gw_state g \<and> gw_ledger g' = gw_ledger g \<and> gw_epoch g' = gw_epoch g
    \<and> gw_genesis g' = gw_genesis g
    \<and> (disk' = disk \<or> e = AuthPersistence \<and> gw_poisoned g' \<and> snd (fst (admit h v c NoFault (g, disk))) = disk')
    \<and> (gw_poisoned g' \<longrightarrow> (\<forall>c2 fault2. admit h v c2 fault2 (g', disk') = ((g', disk'), Inl AuthPoisoned)))"
  using admit_failure [OF assms] poisoned_refuses(1) by blast

theorem failed_admission_is_atomic_witness:
  "admit sample_hash permissive sample_candidate BeforeRename (sample_gateway, None) =
     ((sample_gateway\<lparr>gw_poisoned := True\<rparr>, None), Inl AuthPersistence)
   \<and> admit sample_hash permissive sample_candidate NoFault (sample_gateway\<lparr>gw_poisoned := True\<rparr>, None) =
     ((sample_gateway\<lparr>gw_poisoned := True\<rparr>, None), Inl AuthPoisoned)"
  using failed_admission_is_atomic [OF sample_interrupted] sample_interrupted by simp

text \<open>
  C9. Money appears only by mints and disappears only by burns: after any sequence of ledger
  operations from a genesis economy, the total supply plus everything burned is the genesis
  supply plus everything minted, and the coin cells, the shielded pool, the security reserve,
  the vesting and the staked supply together hold exactly that total.
\<close>

theorem ledger_accounts_for_supply:
  assumes "valid_GenesisEconomy economy" "from_genesis h economy = Inr l" "list_all valid_op ops"
    "run_ops h l ops = Inr l'"
  shows "unat (current_total_supply (ledger_supply l')) + (\<Sum>x \<leftarrow> ops. op_burned x) =
      unat (def_genesis_supply (economy_definition economy)) + (\<Sum>x \<leftarrow> ops. op_minted x)
    \<and> ledger_value l' = unat (current_total_supply (ledger_supply l')) \<and> ledger_ok h l'"
proof -
  note genesis = from_genesis_sound [OF assms(1,2)]
  have "ledger_ok h l'" by (rule run_ops_ok [OF assms(4,3) genesis(1)])
  then show ?thesis
    using run_supply [OF assms(4,3) genesis(1)] genesis(2) by (simp add: ledger_ok_def verify_invariants_iff)
qed

theorem ledger_accounts_for_supply_witness:
  "run_ops byte_hash sample_ledger sample_run = Inr minted_ledger \<and>
   unat (current_total_supply (ledger_supply minted_ledger)) + (\<Sum>x \<leftarrow> sample_run. op_burned x) =
     unat (def_genesis_supply (economy_definition sample_economy)) + (\<Sum>x \<leftarrow> sample_run. op_minted x)"
  using ledger_accounts_for_supply [OF sample_economy_valid sample_genesis sample_run_valid sample_run_result]
    sample_run_result by blast



text \<open>
  C11. Coins leave an owner only with the authority of that owner: a sequence of operations that
  succeeds on a ledger in good order keeps every cell, with identifier, amount and origin, whose
  owner is neither sender, sponsor, burner, shielder nor reward pool of any of the operations.
\<close>

theorem only_signers_lose_cells:
  assumes "ledger_ok h l" "list_all valid_op ops" "run_ops h l ops = Inr l'"
    "r \<in> set (cell_records (ledger_cells l))" "cell_owner (record_cell r) \<notin> (\<Union>x \<in> set ops. op_signers x)"
  shows "r \<in> set (cell_records (ledger_cells l'))"
  using run_keeps_cells [OF assms(3,2,1)] assms(4,5) unfolding keeps_cells_def by blast

theorem only_signers_lose_cells_witness:
  "sample_cell (TypedId 81) 2 (TypedId 13) 100000 0 \<in> set (cell_records (ledger_cells minted_ledger))"
  using only_signers_lose_cells [OF from_genesis_sound(1) [OF sample_economy_valid sample_genesis] sample_run_valid
      sample_run_result, of "sample_cell (TypedId 81) 2 (TypedId 13) 100000 0"]
  by (simp add: sample_ledger_def sample_run_def sample_cell_def sample_transfer_def sample_burn_def)

text \<open>
  C12. An accepted membership proof is truthful: if the proof verifies against the commitment of
  a list of objects, the object is in the list, or the hash collides on two different byte
  strings, one hashed by commit_objects and one by the verifier.
\<close>

theorem membership_proofs_sound:
  assumes "tree_objects s" "commit_objects h s = Inr c" "StateProof_new h p = Inr p" "valid_Object ob"
    "verify_membership h c ob p = Inr ()"
  shows "ob \<in> set s \<or> clash h (committed_inputs h s) (verified_inputs h c p (leaf_input [ob]))"
proof -
  have "verify_leaf h c p (Some ob) = Inr ()" using assms(5) by (simp add: verify_leaf_def)
  then have here: "filter (\<lambda>o'. object_id o' = proof_object_id p) s = [ob]"
    if "\<not> clash h (committed_inputs h s) (verified_inputs h c p (leaf_input [ob]))"
    using verify_leaf_sound [OF assms(1,2) StateProof_levels [OF assms(3)], of "Some ob"] assms(4) that by simp
  have "ob \<in> set s" if "filter (\<lambda>o'. object_id o' = proof_object_id p) s = [ob]"
    using arg_cong [OF that, of set] by auto
  then show ?thesis using here by blast
qed

theorem membership_proofs_sound_witness:
  "\<exists>c p. commit_objects sample_hash [sample_object] = Inr c \<and>
    verify_membership sample_hash c sample_object p = Inr () \<and>
    (sample_object \<in> set [sample_object] \<or> clash sample_hash (committed_inputs sample_hash [sample_object])
      (verified_inputs sample_hash c p (leaf_input [sample_object])))"
proof -
  obtain c p where p: "commit_objects sample_hash [sample_object] = Inr c"
    "prove_object sample_hash [sample_object] (TypedId 7) = Inr p" "StateProof_new sample_hash p = Inr p"
    "proof_object_id p = TypedId 7" "verify_leaf sample_hash c p (Some sample_object) = Inr ()"
    by (rule sample_proof [of "Some sample_object" "TypedId 7"]) simp
  then have "verify_membership sample_hash c sample_object p = Inr ()" by (simp add: verify_leaf_def)
  with p membership_proofs_sound [OF sample_tree p(1,3) sample_object_valid this] show ?thesis by blast
qed

text \<open>
  C13. An accepted non-membership proof is truthful: no object of the committed list has the
  identifier, or the hash collides on two different byte strings, one hashed by commit_objects
  and one by the verifier.
\<close>

theorem non_membership_proofs_sound:
  assumes "tree_objects s" "commit_objects h s = Inr c" "StateProof_new h p = Inr p"
    "verify_non_membership h c oid p = Inr ()"
  shows "oid \<notin> object_id ` set s \<or> clash h (committed_inputs h s) (verified_inputs h c p (leaf_input []))"
proof -
  have oid: "proof_object_id p = oid" using assms(4) by (simp add: verify_non_membership_def split: if_splits)
  then have "verify_leaf h c p None = Inr ()" using assms(4) by (simp add: verify_leaf_def)
  then have "\<forall>o' \<in> set s. object_id o' \<noteq> oid" if "\<not> clash h (committed_inputs h s) (verified_inputs h c p (leaf_input []))"
    using verify_leaf_sound [OF assms(1,2) StateProof_levels [OF assms(3)], of None] that oid
    by (simp add: filter_empty_conv)
  then show ?thesis by blast
qed

theorem non_membership_proofs_sound_witness:
  "\<exists>c p. commit_objects sample_hash [sample_object] = Inr c \<and>
    verify_non_membership sample_hash c (TypedId 8) p = Inr () \<and>
    (TypedId 8 \<notin> object_id ` set [sample_object] \<or> clash sample_hash (committed_inputs sample_hash [sample_object])
      (verified_inputs sample_hash c p (leaf_input [])))"
proof -
  obtain c p where p: "commit_objects sample_hash [sample_object] = Inr c"
    "prove_object sample_hash [sample_object] (TypedId 8) = Inr p" "StateProof_new sample_hash p = Inr p"
    "proof_object_id p = TypedId 8" "verify_leaf sample_hash c p None = Inr ()"
    by (rule sample_proof [of None "TypedId 8"]) simp
  then have "verify_non_membership sample_hash c (TypedId 8) p = Inr ()" by (simp add: verify_leaf_def)
  with p non_membership_proofs_sound [OF sample_tree p(1,3) this] show ?thesis by blast
qed

text \<open>
  C14. An authenticated update computes the commitment that rebuilding the tree would: if the
  proof opens the old entry of a key and the update succeeds, its result is the commitment of
  the objects with that one entry inserted, replaced or removed, or the hash collides on byte
  strings hashed by the two computations.
\<close>

theorem single_key_update_recommits:
  assumes "tree_objects s" "tree_objects s'" "commit_objects h s = Inr c" "StateProof_new h p = Inr p"
    "pred_option valid_Object before" "pred_option valid_Object after"
    "apply_single_key_update h c p before after = Inr c'"
    "filter (\<lambda>ob. object_id ob \<noteq> proof_object_id p) s' = filter (\<lambda>ob. object_id ob \<noteq> proof_object_id p) s"
    "filter (\<lambda>ob. object_id ob = proof_object_id p) s' = leaf_objects after"
  shows "commit_objects h s' = Inr c' \<or>
    clash h (committed_inputs h s) (verified_inputs h c p (leaf_input (leaf_objects before)))"
  using apply_update_sound [OF assms(1-3) StateProof_levels [OF assms(4)] assms(5-7)] assms(8,9)
  by (auto simp: agree_off_def)

theorem single_key_update_recommits_witness:
  "\<exists>c c' p. apply_single_key_update sample_hash c p (Some sample_object) None = Inr c' \<and>
    (commit_objects sample_hash [] = Inr c' \<or> clash sample_hash (committed_inputs sample_hash [sample_object])
      (verified_inputs sample_hash c p (leaf_input [sample_object])))"
proof -
  obtain c p where p: "commit_objects sample_hash [sample_object] = Inr c"
    "prove_object sample_hash [sample_object] (TypedId 7) = Inr p" "StateProof_new sample_hash p = Inr p"
    "proof_object_id p = TypedId 7" "verify_leaf sample_hash c p (Some sample_object) = Inr ()"
    by (rule sample_proof [of "Some sample_object" "TypedId 7"]) simp
  then have "verify_membership sample_hash c sample_object p = Inr ()" by (simp add: verify_leaf_def)
  moreover have "object_count c = 1" using p(1) by (auto simp: commit_objects_eq [OF sample_tree])
  ultimately obtain c' where c': "apply_single_key_update sample_hash c p (Some sample_object) None = Inr c'"
    by (auto simp: apply_single_key_update_def checked_sub_def Let_def)
  show ?thesis
    using c' single_key_update_recommits [OF sample_tree empty_tree p(1,3) _ _ c'] sample_object_valid p(4)
    by (auto simp: sample_object_id)
qed

text \<open>
  C15. A child capability that passes the attenuation check authorizes nothing its parent does
  not: every exercise (action, resource, datum, amount, compute, uses, height) the child allows
  is allowed by the parent.
\<close>

theorem attenuated_capability_authorizes_no_more:
  assumes "valid_CapabilityGrant parent" "valid_CapabilityGrant child"
    "verify_attenuation parent child = Inr ()" "authorizes (grant_fields child) x"
  shows "authorizes (grant_fields parent) x"
  using assms by (rule verify_attenuation_authorizes)

theorem attenuated_capability_authorizes_no_more_witness:
  "verify_attenuation root_grant child_grant = Inr () \<and>
   authorizes (grant_fields child_grant) sample_exercise \<and> authorizes (grant_fields root_grant) sample_exercise"
  using attenuated_capability_authorizes_no_more [OF root_grant_valid child_grant_valid child_attenuates
      child_authorizes] child_attenuates child_authorizes by simp

text \<open>
  C16. The final invariant check of the ledger is never what stops an operation: on a ledger in
  good order a well-formed operation succeeds with a ledger in good order or fails with another
  error than a broken invariant, where redeeming a reward must not happen to hash to the zero
  digest.
\<close>

theorem ledger_check_never_fires:
  assumes "ledger_ok h l" "valid_op x" "\<And>s r. x = OpRedeem s r \<Longrightarrow> redeemable h l (s, r)"
  shows "case perform_op h l x of Inr l' \<Rightarrow> ledger_ok h l' | Inl e \<Rightarrow> \<forall>m. e \<noteq> Invariant m"
  using perform_op_ok [OF assms(1,2)] perform_op_no_invariant [OF assms]
  by (cases "perform_op h l x") (simp_all add: no_invariant_def)

theorem ledger_check_never_fires_witness:
  "perform_op byte_hash sample_ledger (OpTransfer sample_transfer 5) = Inr transferred_ledger
   \<and> ledger_ok byte_hash transferred_ledger"
  using ledger_check_never_fires [OF from_genesis_sound(1) [OF sample_economy_valid sample_genesis],
      of "OpTransfer sample_transfer 5"] sample_run_valid sample_transferred
  by (simp add: sample_run_def)

text \<open>
  C17. Ordinary issuance respects the annual cap: over any sequence of operations that stays
  within one issuance window of 365 epochs, what had been issued in the window plus everything
  the sequence mints is at most the configured basis points of the supply at the opening of the
  window, computed without rounding up or overflow.
\<close>

theorem annual_issuance_capped:
  assumes "ledger_ok h l" "list_all valid_op ops" "run_ops h l ops = Inr l'"
    "issuance_window (ledger_supply l') = issuance_window (ledger_supply l)"
  shows "unat (issuance_in_window (ledger_supply l)) + (\<Sum>x \<leftarrow> ops. op_minted x) \<le>
    unat (issuance_window_opening_supply (ledger_supply l))
      * unat (maximum_ordinary_annual_issuance_bps (ledger_definition l)) div 10000"
proof -
  have "within_cap l'" using run_ops_ok [OF assms(3,2,1)] by (simp add: ledger_ok_def verify_invariants_iff)
  from within_capD [OF this] show ?thesis
    using run_issuance [OF assms(3,2,1,4)] run_definition [OF assms(3,2,1)] by simp
qed

theorem annual_issuance_capped_witness:
  "0 + (\<Sum>x \<leftarrow> sample_run. op_minted x) \<le> 1000000 * 200 div (10000 :: nat)"
  using annual_issuance_capped [OF from_genesis_sound(1) [OF sample_economy_valid sample_genesis] sample_run_valid
      sample_run_result]
  by (simp add: minted_ledger_def burned_ledger_def transferred_ledger_def sample_ledger_def sample_asset_def)

text \<open>
  C18. Rate limits hold: in any history of consumed authorizations in which one capability
  always presents the same rate limit and its heights never go back, no block window contains
  more uses of that capability than the limit allows.
\<close>

theorem capability_rate_limited:
  assumes "ledger_history h log l" "steady r (uses_by k log)"
  shows "window_count (window_blocks r) start (uses_by k log) \<le> unat (maximum_uses r)"
  using history_window_ok [OF assms] by (simp add: window_ok_def)

theorem capability_rate_limited_witness:
  "window_count 60 0 (uses_by (TypedId 9) [sample_authorization]) \<le> 3"
  using capability_rate_limited [OF sample_history, of "\<lparr>maximum_uses = 3, window_blocks = 60\<rparr>" "TypedId 9" 0]
  by (simp add: steady_def uses_by_def sample_authorization_def holder_grant_def)

text \<open>
  C19. A successful transaction changes exactly the objects its commands name: each gets the new
  owner and the next version, keeping every other field, and every other object of the state is
  the one it was.
\<close>

theorem transition_effect:
  assumes "valid_ObjectState pre" "valid_TransferTransaction t"
    "apply_transfer_transaction h pre t = Inr out"
    "receipt_result (output_receipt out) = ReceiptSuccess"
  shows "find_object (output_state out) oid =
    (case find (\<lambda>c. command_object c = oid) (tx_commands t) of
       None \<Rightarrow> find_object pre oid
     | Some c \<Rightarrow> map_option (\<lambda>ob. ob\<lparr>object_version := object_version ob + 1, owner := cmd_new_owner c\<rparr>)
         (find_object pre oid))"
  using transfers_lookup [OF assms(1,2)] apply_transfer_transaction_cases [OF assms(1,2), of h] assms(3,4)
  by (auto split: if_splits)

theorem transition_effect_witness:
  "\<exists>out. apply_transfer_transaction sample_hash sample_state sample_transaction = Inr out \<and>
    find_object (output_state out) (TypedId 8) = find_object sample_state (TypedId 8)"
proof -
  obtain out where out: "apply_transfer_transaction sample_hash sample_state sample_transaction = Inr out"
    "receipt_result (output_receipt out) = ReceiptSuccess"
    by (rule sample_transition)
  show ?thesis
    using out(1) transition_effect [OF sample_state_valid sample_transaction_valid out, of "TypedId 8"]
    by (simp add: sample_transaction_def sample_command_def)
qed



text \<open>
  C21. For every well-formed list of objects the commitment and a proof for any identifier can
  be computed, the proof has a canonical envelope, and it is accepted: as a membership proof of
  the object with that identifier if there is one, as a non-membership proof otherwise.
\<close>

theorem generated_proofs_verify:
  assumes "tree_objects s"
  shows "\<exists>c p bytes. commit_objects h s = Inr c \<and> prove_object h s oid = Inr p \<and>
    encode_envelope (StateProof_type h) p = Inr bytes \<and> decode_envelope (StateProof_type h) bytes = Inr p \<and>
    (\<forall>ob \<in> set s. object_id ob = oid \<longrightarrow> verify_membership h c ob p = Inr ()) \<and>
    (oid \<notin> object_id ` set s \<longrightarrow> verify_non_membership h c oid p = Inr ())"
proof -
  obtain c where c: "commit_objects h s = Inr c" using commit_objects_eq [OF assms] by blast
  obtain p where p: "prove_object h s oid = Inr p" "StateProof_new h p = Inr p"
    using prove_object_eq [OF assms c] by blast
  obtain bytes where bytes: "encode_envelope (StateProof_type h) p = Inr bytes"
    "decode_envelope (StateProof_type h) bytes = Inr p"
    using state_proof.encode_envelope_total state_proof.decode_envelope_iff valid_StateProof_iff p(2) by metis
  note generated = verify_generated [OF assms c p(1)]
  have "verify_membership h c ob p = Inr ()" if "ob \<in> set s" "object_id ob = oid" for ob
    using generated(1) [of "Some ob"] same_id_unique(2) [OF assms that(1)] that(2) by (simp add: verify_leaf_def)
  moreover have "verify_non_membership h c oid p = Inr ()" if "oid \<notin> object_id ` set s"
  proof -
    have "filter (\<lambda>ob. object_id ob = oid) s = leaf_objects None"
      using that by (auto simp: filter_empty_conv)
    from generated [OF this] show ?thesis by (simp add: verify_leaf_def)
  qed
  ultimately show ?thesis using c p bytes by blast
qed

theorem generated_proofs_verify_witness:
  "\<exists>c p. commit_objects sample_hash [sample_object] = Inr c \<and>
    prove_object sample_hash [sample_object] (TypedId 7) = Inr p \<and>
    verify_membership sample_hash c sample_object p = Inr ()"
  using generated_proofs_verify [OF sample_tree, of sample_hash "TypedId 7"] sample_object_id by auto

text \<open>
  C22. The compact replay set implements a set: if an insertion with a witness succeeds against
  the commitment of a set of keys, the key is not zero and not in the set and the result is the
  commitment of the set with the key added, or the hash collides on two different byte strings,
  one hashed by the commitment and one by the check.
\<close>

theorem replay_set_insertion_sound:
  assumes "finite S" "card S < 2 ^ 64" "SetCommitment_insert h (committed_set h domain S) key w = Inr c"
  shows "key \<noteq> 0 \<and> key \<notin> S \<and> c = committed_set h domain (insert key S)
    \<or> clash h (set_inputs h domain S) (absence_inputs h domain (word_of_nat (card S)) w)"
  using SetCommitment_insert_sound [OF assms(1,3) _ assms(2)] by blast

theorem replay_set_insertion_sound_witness:
  "\<exists>w c. SetCommitment_insert byte_hash (committed_set byte_hash Nullifier {3}) 5 w = Inr c \<and>
    ((5 :: Root) \<notin> {3} \<and> c = committed_set byte_hash Nullifier {5, 3}
     \<or> clash byte_hash (set_inputs byte_hash Nullifier {3}) (absence_inputs byte_hash Nullifier 1 w))"
proof -
  define w :: NonMembershipWitness where "w = \<lparr>witness_key = 5,
    witness_siblings = merkle_siblings (set_merkle Nullifier) byte_hash (set_content Nullifier {3}) 384 5\<rparr>"
  have "SetCommitment_insert byte_hash (committed_set byte_hash Nullifier {3}) 5 w
      = Inr (committed_set byte_hash Nullifier {5, 3})"
    by (rule SetCommitment_insert_complete) (simp_all add: w_def)
  then show ?thesis
    using replay_set_insertion_sound [of "{3}" byte_hash Nullifier 5 w "committed_set byte_hash Nullifier {5, 3}"]
    by fastforce
qed

text \<open>
  C23. The replay store of finalized blocks records no authorization twice: along any run of
  batches, failures of the device and restarts, the invocations of all reported batches are
  distinct, or the hash collides between a replay commitment and the check of a witness.
\<close>

theorem block_authorizations_recorded_once:
  assumes "replay_run h as (s, disk)"
  shows "distinct (map (\<lambda>a. auth_invocation_id (va_envelope a)) as) \<or>
    (\<exists>log. ledger_history h log (store_ledger s) \<and> replay_clash h log)"
  by (rule replay_run_unique [OF assms])

theorem block_authorizations_recorded_once_witness:
  "\<exists>s disk. replay_run sample_hash [sample_authorization] (s, disk) \<and>
    (distinct (map (\<lambda>a. auth_invocation_id (va_envelope a)) [sample_authorization]) \<or>
     (\<exists>log. ledger_history sample_hash log (store_ledger s) \<and> replay_clash sample_hash log))"
proof -
  obtain s disk where r: "replay_run sample_hash [sample_authorization] (s, disk)"
    by (rule sample_replay_run) blast
  from block_authorizations_recorded_once [OF r] r show ?thesis by blast
qed

text \<open>
  C24. An accepted history proof is truthful: if it verifies against the commitment of a list of
  headers, the header it names is the one at its index, or the hash collides on two different
  byte strings, one hashed by the commitment and one by the check.
\<close>

theorem history_proofs_sound:
  assumes "length hs < 2 ^ 32" "HistoryCommitment_verify h (committed_history h hs) p = Inr ()"
  shows "unat (history_index p) < length hs \<and> hs ! unat (history_index p) = header_digest p
    \<or> clash h (history_inputs h hs) (history_proof_inputs h (word_of_nat (length hs))
        (history_leaf_input (history_index p) (header_digest p)) p)"
  using HistoryCommitment_verify_sound [OF assms(2,1)] by blast

theorem history_proofs_sound_witness:
  "\<exists>p. HistoryCommitment_verify byte_hash (committed_history byte_hash [5, 6]) p = Inr () \<and>
    (unat (history_index p) < 2 \<and> [5, 6] ! unat (history_index p) = header_digest p
     \<or> clash byte_hash (history_inputs byte_hash [5, 6]) (history_proof_inputs byte_hash 2
        (history_leaf_input (history_index p) (header_digest p)) p))"
proof -
  let ?r = "\<lparr>headers = [5, 6]\<rparr>"
  obtain p where "ReferenceHistory_proof byte_hash ?r 1 = Inr p" by (simp add: ReferenceHistory_proof_def)
  then have "HistoryCommitment_verify byte_hash (committed_history byte_hash [5, 6]) p = Inr ()"
    using ReferenceHistory_proof_verifies [of ?r byte_hash 1 p] ReferenceHistory_commitment_eq [of ?r byte_hash] by simp
  then show ?thesis using history_proofs_sound [of "[5, 6]" byte_hash p] by auto
qed

text \<open>
  C25. The one-pass verifier accepts exactly the programs that have a certificate: one register
  state per instruction under which every instruction is well typed and every control-flow edge,
  all of them forward, agrees with the state of its target, and every instruction after the
  first is the target of an edge.
\<close>

theorem verifier_accepts_iff_typable:
  assumes "valid_VmProgram p"
  shows "(\<exists>v. verify p = Inr v) \<longleftrightarrow> (\<exists>S. certificate p S) \<and> all_reached p"
  using assms by (rule verify_iff)

theorem verifier_accepts_iff_typable_witness:
  "valid_VmProgram sample_program \<and> (\<exists>S. certificate sample_program S) \<and> all_reached sample_program"
  using verifier_accepts_iff_typable [OF sample_program_valid] sample_program_valid
    sample_program_verified by blast

text \<open>
  C26. Programs have one canonical envelope: an envelope decodes to a value exactly when the
  value is well formed and the envelope is the one its encoder writes, so no value has two
  encodings; every well-formed value can be encoded.
\<close>

theorem program_envelope_canonical:
  "(decode_envelope VmProgram_type bytes = Inr v \<longleftrightarrow> valid_VmProgram v \<and> encode_envelope VmProgram_type v = Inr bytes) \<and>
   (valid_VmProgram v \<longrightarrow> (\<exists>bytes. encode_envelope VmProgram_type v = Inr bytes))"
  using program.decode_envelope_iff program.encode_envelope_total by (metis sum.inject(2))

theorem program_envelope_canonical_witness:
  "\<exists>bytes. encode_envelope VmProgram_type sample_program = Inr bytes"
  using program_envelope_canonical [of _ sample_program] sample_program_valid by blast

text \<open>
  C27. Types are preserved at run time: in every state a verified program reaches from inputs of
  the declared types, each register that holds a value holds one of its declared type, the
  program counter is within the program, and the run-time check against the certificate
  succeeds.
\<close>

theorem machine_states_typed:
  assumes "valid_VmProgram p" "verify p = Inr v" "inputs_match p inputs"
    "reaches v limit (start_state p inputs) s"
  shows "length (vm_registers s) = length (register_types p)
    \<and> (\<forall>r x. r < length (vm_registers s) \<and> vm_registers s ! r = Some x \<longrightarrow> value_type x = register_types p ! r)
    \<and> vm_pc s < length (instructions p)
    \<and> verify_runtime_refinement v (vm_registers s) (length (vm_events s)) (vm_pc s) = Inr ()"
  using reachable_typed [OF assms] unfolding typed_registers_def by blast

theorem machine_states_typed_witness:
  "verify_runtime_refinement sample_verified (vm_registers (start_state sample_program sample_inputs)) 0 0 = Inr ()"
  using machine_states_typed [OF sample_program_valid sample_program_verified sample_inputs_match reaches_start]
  by (simp add: start_state_def)

text \<open>
  C28. A reported admission is durable: after any run, if the gateway admits a candidate and the
  new replay root is not zero, loading the snapshot file gives exactly the gateway the admission
  left in memory.
\<close>

theorem admission_survives_restart:
  assumes "gateway_run h v cs (g, disk)" "well_formed_candidate c"
    "admit h v c fault (g, disk) = ((g', disk'), Inr receipt)" "set_root (invocation_set (gw_ledger g')) \<noteq> 0"
  shows "Gateway_load h disk' = Inr g'"
  by (rule admitted_survives_restart [OF assms])

theorem admission_survives_restart_witness:
  "\<exists>g disk receipt.
    admit sample_hash permissive sample_candidate NoFault (sample_gateway, None) = ((g, disk), Inr receipt)
    \<and> Gateway_load sample_hash disk = Inr g"
proof -
  obtain g disk receipt where a:
    "admit sample_hash permissive sample_candidate NoFault (sample_gateway, None) = ((g, disk), Inr receipt)"
    "gw_ledger g = sample_ledger_after"
    by (rule sample_admitted)
  have "set_root (invocation_set (gw_ledger g)) \<noteq> 0" by (simp add: a(2) sample_ledger_after_def)
  from admission_survives_restart [OF sample_gateway_run sample_candidate_valid a(1) this] a(1) show ?thesis by blast
qed

text \<open>
  C29. A transaction that succeeded cannot be applied again: run on the state it produced, its
  first command is rejected as naming a stale version and that state is kept.
\<close>

theorem transition_replay_rejected:
  assumes "valid_ObjectState pre" "valid_TransferTransaction t"
    "apply_transfer_transaction h pre t = Inr out"
    "receipt_result (output_receipt out) = ReceiptSuccess"
  shows "\<exists>again. apply_transfer_transaction h (output_state out) t = Inr again \<and>
    output_state again = output_state out \<and>
    receipt_result (output_receipt again) = ReceiptStaleObjectVersion \<and>
    failed_command (output_receipt again) = Some 0"
  using transfers_replay [OF assms(1,2)] apply_transfer_transaction_cases [OF assms(1,2), of h] assms(3,4)
  by (auto split: if_splits)

theorem transition_replay_rejected_witness:
  "\<exists>out again. apply_transfer_transaction sample_hash sample_state sample_transaction = Inr out \<and>
    apply_transfer_transaction sample_hash (output_state out) sample_transaction = Inr again \<and>
    receipt_result (output_receipt again) = ReceiptStaleObjectVersion"
proof -
  obtain out where out: "apply_transfer_transaction sample_hash sample_state sample_transaction = Inr out"
    "receipt_result (output_receipt out) = ReceiptSuccess"
    by (rule sample_transition)
  show ?thesis
    using out(1) transition_replay_rejected [OF sample_state_valid sample_transaction_valid out] by blast
qed

text \<open>
  C30. A verified program whose inputs match its declaration, run with a gas limit of at least
  the summed cost of its instructions, returns a result or reports an arithmetic overflow; it
  does not run out of gas.
\<close>

theorem sufficient_gas_returns:
  assumes "valid_VmProgram p" "verify p = Inr v" "inputs_match p inputs"
    "(\<Sum>i < length (instructions p). unat (gas_cost (instructions p ! i))) \<le> unat limit"
  shows "(\<exists>r. execute v inputs limit = Inr r) \<or>
    (\<exists>pc < length (instructions p). execute v inputs limit = Inl (ArithmeticOverflow pc))"
  using execute_verified [OF assms(1-3), of limit] assms(4)
  by (cases "execute v inputs limit") (auto simp: path_gas_def)

theorem sufficient_gas_returns_witness:
  "(\<exists>r. execute sample_verified sample_inputs 11 = Inr r) \<or>
   (\<exists>pc. execute sample_verified sample_inputs 11 = Inl (ArithmeticOverflow pc))"
proof -
  have "{..<5 :: nat} = {0, 1, 2, 3, 4}" by auto
  then have "(\<Sum>i < length (instructions sample_program).
      unat (gas_cost (instructions sample_program ! i))) \<le> unat (11 :: u64)"
    by (simp add: sample_program_def)
  from sufficient_gas_returns [OF sample_program_valid sample_program_verified sample_inputs_match this]
  show ?thesis by blast
qed

text \<open>
  C31. A receipt commits to the state it published: if two transitions end with the same post-
  state commitment, they published the same state, or the two commitment transcripts of those
  states are a collision of the hash.
\<close>

theorem receipts_bind_states:
  assumes "valid_ObjectState pre" "valid_TransferTransaction t" "apply_transfer_transaction h pre t = Inr out"
    "valid_ObjectState pre'" "valid_TransferTransaction t'" "apply_transfer_transaction h pre' t' = Inr out'"
    "post_state_commitment (output_receipt out) = post_state_commitment (output_receipt out')"
  shows "output_state out = output_state out' \<or>
    collide h (commitment_input CANONICAL_VALUE ObjectState_type (output_state out))
      (commitment_input CANONICAL_VALUE ObjectState_type (output_state out'))"
proof -
  have "commit h CANONICAL_VALUE ObjectState_type (output_state out) =
      commit h CANONICAL_VALUE ObjectState_type (output_state out')"
    using receipt_commits [OF assms(1-3)] receipt_commits [OF assms(4-6)] assms(7) by simp
  moreover have "valid_ObjectState (output_state out)" "valid_ObjectState (output_state out')"
    using apply_transfer_transaction_cases [OF assms(1,2), of h]
      apply_transfer_transaction_cases [OF assms(4,5), of h] assms(3,6) by auto
  ultimately show ?thesis using state_commit_binds by blast
qed

theorem receipts_bind_states_witness:
  "\<exists>out. apply_transfer_transaction sample_hash sample_state sample_transaction = Inr out \<and>
    (output_state out = output_state out \<or>
     collide sample_hash (commitment_input CANONICAL_VALUE ObjectState_type (output_state out))
       (commitment_input CANONICAL_VALUE ObjectState_type (output_state out)))"
proof -
  obtain out where out: "apply_transfer_transaction sample_hash sample_state sample_transaction = Inr out"
    by (rule sample_transition)
  note v = sample_state_valid sample_transaction_valid out
  show ?thesis using out receipts_bind_states [OF v v refl] by blast
qed

text \<open>
  C32. An accepted credential presentation is current and bound: the time lies in the validity
  window, the credential names the expected subject and an accepted issuer and schema, the
  issuer evidence is for this statement, and a credential with a status registry is active in a
  snapshot of exactly that registry that is effective and no older than the policy allows, while
  one without a registry is accepted only if the policy requires none.
\<close>

theorem accepted_credentials_sound:
  assumes "verify_presentation h credential policy issuer_evidence registry status_evidence context = Inr verified"
    "valid_CredentialAcceptancePolicy policy"
  shows "let statement = cred_statement credential; now = presentation_height context in
    statement_is_valid_at statement (presentation_timestamp context) \<and> st_issuance_height statement \<le> now
    \<and> st_subject_binding statement = expected_subject_binding context
    \<and> st_issuer statement \<in> set (accepted_issuers policy) \<and> st_schema_id statement \<in> set (accepted_schemas policy)
    \<and> ie_issuer issuer_evidence = st_issuer statement
    \<and> credential_issuance_commitment h statement = Inr (ie_issuance_commitment issuer_evidence)
    \<and> (case st_status_registry statement of
        None \<Rightarrow> \<not> require_status policy
      | Some declared \<Rightarrow> \<exists>r e. registry = Some r \<and> status_evidence = Some e \<and> reg_id r = declared
          \<and> reg_issuer r = st_issuer statement \<and> reg_schema_id r = st_schema_id statement
          \<and> reg_effective_height r \<le> now
          \<and> unat now \<le> unat (reg_effective_height r) + unat (pol_maximum_status_age policy)
          \<and> credential_id_of h credential = Inr (se_credential_id e)
          \<and> se_status_root e = reg_status_root r \<and> se_status e = StatusActive)"
proof -
  note sound = verify_presentation_sound [OF assms refl]
  show ?thesis
    using sound verify_status_sound [OF sound(11)] by (auto simp: Let_def split: option.splits)
qed

theorem accepted_credentials_sound_witness:
  "statement_is_valid_at sample_statement 2000 \<and> st_issuance_height sample_statement \<le> 50"
  using accepted_credentials_sound [OF sample_presentation sample_credential_valid(3)]
  by (simp add: Let_def sample_material_def)



text \<open>
  C34. The binary search for the effective stake computes the exact ratio: for a stake within a
  positive supply it returns the floor of ten thousand times the stake over the supply, although
  no intermediate value exceeds 128 bits.
\<close>

theorem effective_stake_exact:
  assumes "tot \<noteq> 0" "staked \<le> tot"
  shows "\<exists>r. effective_stake_basis_points staked tot = Inr r
    \<and> unat r = unat staked * 10000 div unat tot \<and> unat r \<le> 10000"
  using effective_stake_basis_points_eq [OF assms] .

theorem effective_stake_exact_witness:
  "\<exists>r. effective_stake_basis_points (2 ^ 127) (- 1) = Inr r
    \<and> unat r = unat (2 ^ 127 :: u128) * 10000 div unat (- 1 :: u128) \<and> unat r \<le> 10000"
  by (rule effective_stake_exact) simp_all

text \<open>
  C35. Selecting an auditor by rejection sampling ends and is fair: it returns the verifier of
  the first accepted sample, it can fail only if none of the 2^64 samples is accepted, and every
  eligible verifier is selected by equally many accepted sample values.
\<close>

theorem audit_selection_ends_fairly:
  assumes "auditable randomness target eligible"
  shows "((\<exists>c. accepted_sample eligible (audit_sample h randomness target c)
        \<and> (\<forall>c' < c. \<not> accepted_sample eligible (audit_sample h randomness target c'))
        \<and> select_auditor h randomness target eligible
          = Inr (sampled_verifier eligible (audit_sample h randomness target c)))
      \<or> (\<forall>c. \<not> accepted_sample eligible (audit_sample h randomness target c)))
    \<and> (\<forall>v \<in> set eligible. card {s. accepted_sample eligible s \<and> sampled_verifier eligible s = v}
        = (2 ^ 64 - 1) div length eligible)"
  using select_auditor_ends [OF assms, of h] audit_shares_equal [OF assms] by blast

theorem audit_selection_ends_fairly_witness:
  "card {s. accepted_sample [TypedId 5, TypedId 6, TypedId 7] s
     \<and> sampled_verifier [TypedId 5, TypedId 6, TypedId 7] s = TypedId 6} = (2 ^ 64 - 1) div 3"
  using audit_selection_ends_fairly [of 1 2 "[TypedId 5, TypedId 6, TypedId 7]" byte_hash]
  by (simp add: auditable_def ZERO_def MAX_AUDIT_VERIFIERS_def strictly_increasing_by_iff less_typed_id_def)

text \<open>
  C36. A paymaster never pays beyond its budget: over any sequence of authorizations under one
  policy the fees add up to what the policy records as spent, that stays within the epoch
  budget, and the requests carry consecutive nonces, so none is authorized twice.
\<close>

theorem paymaster_budget_respected:
  assumes "pm_spent policy \<le> epoch_budget policy" "authorize_all h policy requests = Inr policy'"
  shows "unat (pm_spent policy) + (\<Sum>(request, transfer, fee, height) \<leftarrow> requests. unat fee) = unat (pm_spent policy')
    \<and> pm_spent policy' \<le> epoch_budget policy
    \<and> map (\<lambda>request. unat (rq_nonce (fst request))) requests
      = [unat (next_nonce policy) ..< unat (next_nonce policy) + length requests]"
  using authorize_all_sound [OF assms(2,1)] by simp

theorem paymaster_budget_respected_witness:
  "\<exists>policy'. authorize_all byte_hash sample_paymaster [(sample_sponsorship, 10, 7, 4)] = Inr policy'
    \<and> unat (pm_spent policy') = 7 \<and> pm_spent policy' \<le> 100"
proof -
  have "authorize_all byte_hash sample_paymaster [(sample_sponsorship, 10, 7, 4)]
      = Inr (sample_paymaster\<lparr>pm_spent := 7, next_nonce := 4\<rparr>)"
    using sample_sponsored by simp
  with paymaster_budget_respected [OF _ this] show ?thesis by (simp add: sample_paymaster_def)
qed

text \<open>
  C37. The declared maximum encoding of execution evidence leaves no room for the inputs: there
  is a valid verified program with well-formed inputs whose evidence is created and replays, and
  whose envelope cannot be encoded.
\<close>

theorem evidence_can_exceed_its_bound:
  "\<exists>p v inputs limit ev. valid_VmProgram p \<and> verify p = Inr v \<and> list_all valid_VmValue inputs \<and>
     evidence_create v inputs limit = Inr ev \<and> evidence_verify ev = Inr () \<and>
     is_err (encode_envelope ExecutionEvidence_type ev)"
proof -
  obtain v r where v: "verify pass_through = Inr v"
    and r: "execute v (replicate 16 (VmObject full_object)) 1000 = Inr r"
      "outputs r = replicate 16 (VmObject full_object)"
    using pass_through_execute by blast
  let ?ev = "\<lparr>ev_program = pass_through, ev_inputs = replicate 16 (VmObject full_object),
    ev_gas_limit = 1000, ev_result = r\<rparr>"
  have create: "evidence_create v (replicate 16 (VmObject full_object)) 1000 = Inr ?ev"
    using r(1) verified_program_eq [OF v] by (simp add: evidence_create_def)
  have "is_err (encode_envelope ExecutionEvidence_type ?ev)"
  proof (cases "encode_envelope ExecutionEvidence_type ?ev")
    case (Inr bytes)
    from evidence.encode_envelopeD [OF this] full_object_length r(2) show ?thesis
      by (simp add: enc_ExecutionEvidence_def enc_VmExecutionResult_def ExecutionEvidence_type_def
          VmProgram_MAX_ENCODED_LEN_def VmExecutionResult_MAX_ENCODED_LEN_def enc_each_replicate_length)
  qed simp
  then show ?thesis
    using pass_through_valid v full_object_valid create evidence_create_verifies [OF v create]
    by (metis list_all_iff in_set_replicate valid_VmValue.simps(1))
qed

text \<open>
  C38. Settling a capacity reservation charges the quoted fee of the units used and refunds
  exactly the rest, and it can happen once; but a settlement at height zero, which settle
  accepts, is not a value that the decoder of settlements admits.
\<close>

theorem capacity_settlement_at_zero_rejected:
  assumes "valid_CapacityReservationV1 r" "settle r used height = Inr (s, r')"
  shows "unat (set_charged s) + unat (set_refund s) = unat (res_deposit r)
    \<and> unat (set_charged s) = fee_of (res_quote r) (unat used)
    \<and> settle r' used' height' = Inl AlreadySettled
    \<and> (height = 0 \<longrightarrow> decode_envelope CapacitySettlementV1_type bytes \<noteq> Inr s)"
  using assms(2) settle_keeps_valid [OF assms] settlement_decodes_iff [OF assms]
    capacity_settlement.decode_envelope_iff [of bytes s] by (auto simp: settle_eq_Inr)

theorem capacity_settlement_at_zero_rejected_witness:
  "\<exists>s r'. settle sample_reservation 10 0 = Inr (s, r') \<and> unat (set_charged s) = 32 \<and> unat (set_refund s) = 270
    \<and> settle r' 10 0 = Inl AlreadySettled
    \<and> decode_envelope CapacitySettlementV1_type (capacity_settlement.envelope s) \<noteq> Inr s"
proof -
  obtain s r' where s: "settle sample_reservation 10 0 = Inr (s, r')"
    using settle_succeeds [OF sample_reservation_valid, of 0 10] by (auto simp: sample_reservation_def)
  from capacity_settlement_at_zero_rejected [OF sample_reservation_valid s, of 10 0 "capacity_settlement.envelope s"] s
  show ?thesis by (auto simp: sample_reservation_def fee_of_def)
qed



text \<open>
  C40. A full budget table blocks new capabilities: once the ledger has entries for 4096
  capabilities, every admission under another capability fails and writes nothing, and a
  candidate that passes all checks leaves the gateway poisoned.
\<close>

theorem full_budget_table_blocks_admission:
  assumes "length (budgets (gw_ledger g)) = MAX_AUTHORIZATION_INVOCATIONS"
    "capability_id (grant_fields (last (capability_chain c))) \<notin> fst ` set (budgets (gw_ledger g))"
    "well_formed_candidate c" "valid_ObjectState (gw_state g)" "admit h v c fault (g, disk) = ((g', disk'), r)"
  shows "is_err r \<and> disk' = disk \<and> (\<not> is_err (prepare_admission h v c g) \<longrightarrow> gw_poisoned g')"
  using full_table_blocks [OF assms] by (auto simp: not_is_err_iff)

theorem full_budget_table_blocks_admission_witness:
  "\<exists>g disk r. admit sample_hash permissive sample_candidate NoFault (full_gateway, None) = ((g, disk), r)
    \<and> is_err r \<and> disk = None \<and> gw_poisoned g"
proof -
  obtain g disk r where a: "admit sample_hash permissive sample_candidate NoFault (full_gateway, None) = ((g, disk), r)"
    by (metis prod.exhaust)
  from full_budget_table_blocks_admission [OF full_gateway_table(1,2) sample_candidate_valid full_gateway_table(3) a]
    full_gateway_prepares a
  show ?thesis by blast
qed

section \<open>Further facts\<close>

text \<open>
  No execution forges or duplicates a capability: the capabilities in the outputs, counted with
  multiplicity, are among those of the inputs.
\<close>

theorem capabilities_not_duplicated:
  assumes "valid_VmProgram p" "verified_program v = p" "execute v inputs limit = Inr r"
  shows "sum_list (map capabilities_of (outputs r)) \<subseteq># sum_list (map capabilities_of inputs)"
  using assms by (rule execute_capabilities_no_dup)

text \<open>
  Raising the gas limit never changes an execution that returned: the same result comes back,
  with the same gas used.
\<close>

theorem gas_limit_monotone:
  assumes "execute v inputs limit = Inr r" "limit \<le> limit'"
  shows "execute v inputs limit' = Inr r"
  using assms by (rule execute_gas_mono)

text \<open>
  Execution evidence verifies exactly when its program is verified and creating evidence from
  that program, those inputs and that gas limit yields the very same evidence.
\<close>

theorem evidence_replays:
  "evidence_verify ev = Inr () \<longleftrightarrow>
   (\<exists>v. verify (ev_program ev) = Inr v \<and>
      evidence_create v (ev_inputs ev) (ev_gas_limit ev) = Inr ev)"
  by (rule evidence_verify_iff)

text \<open>
  Evidence created from a verified program and well-formed inputs decodes to itself whenever its
  envelope can be encoded at all.
\<close>

theorem evidence_roundtrip:
  assumes "valid_VmProgram p" "verify p = Inr v" "list_all valid_VmValue inputs"
    "evidence_create v inputs limit = Inr ev" "encode_envelope ExecutionEvidence_type ev = Inr bytes"
  shows "decode_envelope ExecutionEvidence_type bytes = Inr ev"
  using evidence_create_valid [OF assms(1-4)] assms(5) by (rule evidence.envelope_roundtrip)

text \<open>
  Along any chain of delegations, however long, the last capability allows only what the root
  grant allows, inherits its constraint hash, and the chain is no longer than the delegation
  depth of the root permits.
\<close>

theorem delegation_chain_bounded:
  assumes "delegation_chain gs"
  shows "(authorizes (grant_fields (hd gs)) x \<longrightarrow> authorizes (grant_fields (last gs)) x) \<and>
    constraint_hash (grant_fields (hd gs)) = constraint_hash (grant_fields (last gs)) \<and>
    length gs + unat (delegation_depth_remaining (grant_fields (hd gs))) \<le>
      Suc (unat (delegation_depth_remaining (grant_fields (last gs))))"
  using delegation_chain_authorizes [OF assms] delegation_chain_inherits [OF assms]
    delegation_chain_depth [OF assms] by blast

text \<open>
  The syntactic scope check (exact values, bit prefixes, everything) decides inclusion of the
  sets of digests that two well-formed selectors denote.
\<close>

theorem scope_check_is_inclusion:
  assumes "valid_ScopeSelector child" "valid_ScopeSelector parent"
  shows "scope_is_subset_of child parent \<longleftrightarrow> scope_set child \<subseteq> scope_set parent"
  using assms by (rule scope_subset_iff)

text \<open>
  The payload an issuer signs identifies the chain, every field of the grant and the signature
  suite, and nothing else: two grants have equal payloads exactly when these agree.
\<close>

theorem signing_payload_binds_grant:
  assumes "valid_CapabilityGrant g" "valid_CapabilityGrant h"
  shows "capability_signing_payload g chain = capability_signing_payload h chain' \<longleftrightarrow>
    chain = chain' \<and> grant_fields g = grant_fields h \<and>
    sig_suite (issuer_signature g) = sig_suite (issuer_signature h)"
  using assms by (rule signing_payload_binds)

text \<open>
  Two authenticator sets with the same root are equal, or the two hashed transcripts are an
  explicit collision of the hash function; the root is always defined for a well-formed set.
\<close>

theorem authenticator_root_binds_set:
  assumes "valid_AuthenticatorSetV1 s" "valid_AuthenticatorSetV1 s'"
  shows "(\<exists>d. authenticator_set_root_of shake256 s = Inr d) \<and>
    (authenticator_set_root_of shake256 s = authenticator_set_root_of shake256 s' \<longrightarrow>
     s = s' \<or> (\<exists>x y. root_transcript s = Inr x \<and> root_transcript s' = Inr y \<and> x \<noteq> y \<and> shake256 x = shake256 y))"
  using root_transcript_total [OF assms(1)] root_transcript_total [OF assms(2)]
    root_transcript_inj [OF assms]
  by (fastforce simp: authenticator_set_root_of_def)

text \<open>
  Looking up an authenticator by binary search returns exactly the member of the set with that
  identifier.
\<close>

theorem authenticator_found_iff_member:
  assumes "valid_AuthenticatorSetV1 s"
  shows "authenticator s aid = Some a \<longleftrightarrow> a \<in> set (authenticators s) \<and> authenticator_id a = aid"
  using assms by (rule authenticator_lookup)

text \<open>
  Transferring an object succeeds exactly for its current version, when it is transferable,
  neither owner is the immutable owner, the owner changes and the version does not overflow; the
  result differs only in owner and version, is well formed, and the internal result check never
  fails.
\<close>

theorem transfer_succeeds_iff:
  assumes "valid_Object ob"
  shows "transfer_object ob input new_owner = Inr ob' \<longleftrightarrow>
    input = ObjectVersionRef (object_id ob) (object_version ob) \<and>
    owner ob \<noteq> OwnerImmutable \<and> new_owner \<noteq> OwnerImmutable \<and>
    flags_contains (flags ob) TRANSFERABLE \<and> owner ob \<noteq> new_owner \<and>
    unat (object_version ob) + 1 < 2 ^ 64 \<and>
    ob' = ob\<lparr>object_version := object_version ob + 1, owner := new_owner\<rparr> \<and> valid_Object ob'"
  using transfer_object_eq_Inr [OF assms, of input new_owner ob'] transfer_object_valid [OF assms] by blast

text \<open>
  A well-formed access manifest names every object at most once over its exact reads, exact
  writes and immutable reads, and each permission query answers membership in the corresponding
  list.
\<close>

theorem manifest_access_sets_disjoint:
  assumes "valid_AccessManifest m"
  shows "distinct (map ref_object_id (exact_reads m) @ map ref_object_id (exact_writes m) @ immutable_reads m) \<and>
    (permits_exact_read m r \<longleftrightarrow> r \<in> set (exact_reads m)) \<and>
    (permits_exact_write m r \<longleftrightarrow> r \<in> set (exact_writes m)) \<and>
    (permits_immutable_read m oid \<longleftrightarrow> oid \<in> set (immutable_reads m))"
  using manifest_access_disjoint [OF assms] permits_exact_read_iff [OF assms]
    permits_exact_write_iff [OF assms] permits_immutable_read_iff [OF assms] by blast

text \<open>
  A manifest permits creating an object under a capability exactly when one of its namespace
  grants carries that capability and its selector denotes a set containing the object.
\<close>

theorem creation_permitted_iff_in_namespace:
  assumes "valid_AccessManifest m"
  shows "permits_creation m oid cid \<longleftrightarrow>
    (\<exists>g \<in> set (creation_namespaces m). ns_capability_id g = cid \<and>
      into_digest oid \<in> scope_set (resource_as_scope (ns_namespace g)))"
  using assms by (rule permits_creation_iff)

text \<open>
  Length prefixes have one encoding: reading a length succeeds exactly on the minimal base-128
  prefix of a value within the limit, and consumes exactly that prefix.
\<close>

theorem length_prefix_canonical:
  assumes "slice bytes" "limit \<le> MAX_BODY_LENGTH"
  shows "read_length limit (decoder_new bytes) = Inr (n, d) \<longleftrightarrow>
    n \<le> limit \<and> (\<exists>rest. bytes = enc_length n @ rest \<and> d = dec_at (enc_length n) rest)"
  using read_length_atD [of limit "[]" bytes n d] read_length_at [of n limit "[]"] assms
  by (auto simp: decoder_new_at)

text \<open>
  Objects have one canonical envelope: an envelope decodes to a value exactly when the value is
  well formed and the envelope is the one its encoder writes, so no value has two encodings;
  every well-formed value can be encoded.
\<close>

theorem object_envelope_canonical:
  "(decode_envelope Object_type bytes = Inr v \<longleftrightarrow> valid_Object v \<and> encode_envelope Object_type v = Inr bytes) \<and>
   (valid_Object v \<longrightarrow> (\<exists>bytes. encode_envelope Object_type v = Inr bytes))"
  using object.decode_envelope_iff object.encode_envelope_total by (metis sum.inject(2))

text \<open>
  Access manifests have one canonical envelope: an envelope decodes to a value exactly when the
  value is well formed and the envelope is the one its encoder writes, so no value has two
  encodings; every well-formed value can be encoded.
\<close>

theorem manifest_envelope_canonical:
  "(decode_envelope AccessManifest_type bytes = Inr v \<longleftrightarrow> valid_AccessManifest v \<and> encode_envelope AccessManifest_type v = Inr bytes) \<and>
   (valid_AccessManifest v \<longrightarrow> (\<exists>bytes. encode_envelope AccessManifest_type v = Inr bytes))"
  using manifest.decode_envelope_iff manifest.encode_envelope_total by (metis sum.inject(2))

text \<open>
  Capability grants have one canonical envelope: an envelope decodes to a value exactly when the
  value is well formed and the envelope is the one its encoder writes, so no value has two
  encodings; every well-formed value can be encoded.
\<close>

theorem grant_envelope_canonical:
  "(decode_envelope CapabilityGrant_type bytes = Inr v \<longleftrightarrow> valid_CapabilityGrant v \<and> encode_envelope CapabilityGrant_type v = Inr bytes) \<and>
   (valid_CapabilityGrant v \<longrightarrow> (\<exists>bytes. encode_envelope CapabilityGrant_type v = Inr bytes))"
  using grant.decode_envelope_iff grant.encode_envelope_total by (metis sum.inject(2))

text \<open>
  Every decision the evaluator returns for a well-formed policy satisfies the invariants of the
  decision constructor, so it can be encoded and its envelope decodes to the same decision.
\<close>

theorem policy_decisions_encode:
  assumes "valid_PolicySet policy" "valid_PolicyRequest q"
  shows "\<exists>bytes. encode_envelope PolicyDecision_type (evaluate policy q) = Inr bytes \<and>
    decode_envelope PolicyDecision_type bytes = Inr (evaluate policy q)"
  using decision_of_valid [OF assms(1), of q] evaluate_eq [OF assms]
    policy_decision.encode_envelope_total policy_decision.decode_envelope_iff by metis

text \<open>
  Transfer transactions have one canonical envelope: an envelope decodes to a value exactly when
  the value is well formed and the envelope is the one its encoder writes, so no value has two
  encodings; every well-formed value can be encoded.
\<close>

theorem transfer_transaction_envelope_canonical:
  "(decode_envelope TransferTransaction_type bytes = Inr v \<longleftrightarrow> valid_TransferTransaction v \<and> encode_envelope TransferTransaction_type v = Inr bytes) \<and>
   (valid_TransferTransaction v \<longrightarrow> (\<exists>bytes. encode_envelope TransferTransaction_type v = Inr bytes))"
  using transfer_transaction.decode_envelope_iff transfer_transaction.encode_envelope_total by (metis sum.inject(2))

text \<open>
  Ledgers have one canonical envelope: bytes decode to a ledger exactly when the ledger is well
  formed, which includes the accounting invariants, and the bytes are what its encoder writes;
  every well-formed ledger can be encoded.
\<close>

theorem cash_ledger_envelope_canonical:
  "(decode_envelope (CashLedger_type h) bytes = Inr l \<longleftrightarrow>
      valid_CashLedger h l \<and> encode_envelope (CashLedger_type h) l = Inr bytes) \<and>
   (valid_CashLedger h l \<longrightarrow> (\<exists>bytes. encode_envelope (CashLedger_type h) l = Inr bytes))"
  using cash_ledger.decode_envelope_iff cash_ledger.encode_envelope_total by (metis sum.inject(2))

end
